(* ===== verification/Prelude.thy ===== *)
theory Prelude
  imports Main "HOL-Library.Word"
begin

text \<open>
  Vocabulary shared by every component of the development.

  \<^item> Machine integers: \<open>u8\<close> .. \<open>u64\<close> are words of that width; SQLite's \<open>i64\<close> is an
    \<open>int\<close>, and every crossing between the two is one of the conversion functions below
    (\<open>try_from\<close>, saturating casts), because that is where the code can lose a value.
  \<^item> Results: \<open>Result<T, E>\<close> is \<open>'e + 'a\<close> with \<open>Inl\<close> for the error; \<open>rbind\<close> is the
    \<open>?\<close> operator.
  \<^item> Identifiers: the \<open>opaque_id!\<close> newtypes over \<open>[u8; 16]\<close> of
    \<open>crates/pos-foundation/src/lib.rs\<close> are 128-bit words with their byte and hexadecimal
    forms; BLAKE3 digests \<open>[u8; 32]\<close> are 256-bit words.
  \<^item> Text: a Rust \<open>String\<close> is the list of its UTF-8 bytes.
\<close>

named_theorems res_simps \<open>evaluation rules for results and conversions\<close>
named_theorems tbl_simps \<open>evaluation rules for table lookups and row updates\<close>

section \<open>Integers\<close>

type_synonym u8 = "8 word"
type_synonym u16 = "16 word"
type_synonym u32 = "32 word"
type_synonym u64 = "64 word"
type_synonym i64 = int
type_synonym bytes = "8 word list"

definition i64_max :: int where
  "i64_max = 2 ^ 63 - 1"

definition i64_min :: int where
  "i64_min = - (2 ^ 63)"

definition in_i64 :: "int \<Rightarrow> bool" where
  "in_i64 i \<longleftrightarrow> i64_min \<le> i \<and> i \<le> i64_max"

text \<open>\<open>i64::try_from(value).unwrap_or(i64::MAX)\<close> on a \<open>u64\<close>.\<close>

definition sat_i64 :: "u64 \<Rightarrow> i64" where
  "sat_i64 w = (if uint w \<le> i64_max then uint w else i64_max)"

text \<open>\<open>u64::try_from\<close>, \<open>u32::try_from\<close>, \<open>u16::try_from\<close> and \<open>u8::try_from\<close> on an \<open>i64\<close>.\<close>

definition try_unsigned :: "nat \<Rightarrow> i64 \<Rightarrow> 'a::len word option" where
  "try_unsigned n i = (if 0 \<le> i \<and> i < 2 ^ n then Some (word_of_int i) else None)"

definition try_u64 :: "i64 \<Rightarrow> u64 option" where
  "try_u64 i = (if 0 \<le> i then Some (word_of_int i) else None)"

definition try_u32 :: "i64 \<Rightarrow> u32 option" where
  "try_u32 = try_unsigned 32"

definition try_u16 :: "i64 \<Rightarrow> u16 option" where
  "try_u16 = try_unsigned 16"

definition try_u8 :: "i64 \<Rightarrow> u8 option" where
  "try_u8 = try_unsigned 8"

text \<open>\<open>try_from(value).unwrap_or(0)\<close>: the total reads of the projections.\<close>

definition non_negative :: "i64 \<Rightarrow> u64" where
  "non_negative i = (case try_u64 i of Some w \<Rightarrow> w | None \<Rightarrow> 0)"

definition count_u32 :: "i64 \<Rightarrow> u32" where
  "count_u32 i = (case try_u32 i of Some w \<Rightarrow> w | None \<Rightarrow> 0)"

definition checked_add :: "'a::len word \<Rightarrow> 'a word \<Rightarrow> 'a word option" where
  "checked_add a b = (if unat a + unat b < 2 ^ LENGTH('a) then Some (a + b) else None)"

definition saturating_add :: "'a::len word \<Rightarrow> 'a word \<Rightarrow> 'a word" where
  "saturating_add a b = (if unat a + unat b < 2 ^ LENGTH('a) then a + b else - 1)"

definition saturating_sub :: "'a::len word \<Rightarrow> 'a word \<Rightarrow> 'a word" where
  "saturating_sub a b = (if b \<le> a then a - b else 0)"

definition saturating_mul :: "'a::len word \<Rightarrow> 'a word \<Rightarrow> 'a word" where
  "saturating_mul a b = (if unat a * unat b < 2 ^ LENGTH('a) then a * b else - 1)"

definition checked_pow :: "'a::len word \<Rightarrow> nat \<Rightarrow> 'a word option" where
  "checked_pow a n = (if unat a ^ n < 2 ^ LENGTH('a) then Some (a ^ n) else None)"

text \<open>\<open>u64::from\<close> on a narrower unsigned integer, and \<open>i64::from\<close>.\<close>

abbreviation u64_of :: "'a::len word \<Rightarrow> u64" where
  "u64_of w \<equiv> ucast w"

abbreviation i64_of :: "'a::len word \<Rightarrow> i64" where
  "i64_of w \<equiv> uint w"

lemma uint_lt2p_num: "uint (w :: 'a::len word) < 2 ^ LENGTH('a)"
  by (rule unsigned_less)

lemma unat_lt2p_num: "unat (w :: 'a::len word) < 2 ^ LENGTH('a)"
  by (rule unsigned_less)

lemma unat_minus_one_max: "unat (- 1 :: 'a::len word) = 2 ^ LENGTH('a) - 1"
proof -
  have "uint (- 1 :: 'a word) = 2 ^ LENGTH('a) - 1"
    by transfer (simp add: take_bit_minus_one_eq_mask mask_eq_exp_minus_1)
  then show ?thesis
    by (simp add: unat_eq_nat_uint nat_diff_distrib nat_power_eq)
qed

lemma checked_add_Some:
  "checked_add a b = Some c \<longleftrightarrow>
     unat a + unat b < 2 ^ LENGTH('a) \<and> c = (a + b :: 'a::len word)"
  by (auto simp: checked_add_def)

lemma unat_add_no_overflow:
  "unat a + unat b < 2 ^ LENGTH('a) \<Longrightarrow> unat (a + b :: 'a::len word) = unat a + unat b"
  by (simp add: unat_word_ariths)

lemma unat_saturating_add:
  "unat (saturating_add a b :: 'a::len word) = min (unat a + unat b) (2 ^ LENGTH('a) - 1)"
  by (auto simp: saturating_add_def unat_word_ariths unat_minus_one_max)

lemma unat_saturating_sub: "unat (saturating_sub a b) = unat a - unat b"
  by (auto simp: saturating_sub_def unat_sub word_le_nat_alt)

lemma unat_saturating_mul:
  "unat (saturating_mul a b :: 'a::len word) = min (unat a * unat b) (2 ^ LENGTH('a) - 1)"
  by (auto simp: saturating_mul_def unat_word_ariths unat_minus_one_max)

lemma unat_checked_pow:
  "checked_pow a n = Some c \<Longrightarrow> unat (c :: 'a::len word) = unat a ^ n"
proof -
  assume "checked_pow a n = Some c"
  then have lt: "unat a ^ n < 2 ^ LENGTH('a)" and c: "c = a ^ n"
    by (auto simp: checked_pow_def split: if_splits)
  have "a ^ n = word_of_nat (unat a ^ n)"
    by simp
  then show ?thesis
    using lt c by (simp only: unat_of_nat) simp
qed

lemma saturating_add_ge: "a \<le> saturating_add a (b :: 'a::len word)"
  using unat_lt2p_num [of a] unfolding word_le_nat_alt unat_saturating_add by linarith

lemma saturating_add_mono:
  "b \<le> c \<Longrightarrow> saturating_add a b \<le> saturating_add a (c :: 'a::len word)"
  by (simp add: word_le_nat_alt unat_saturating_add min_def)

lemma sat_i64_nonneg [simp]: "0 \<le> sat_i64 w"
  by (simp add: sat_i64_def i64_max_def)

lemma sat_i64_le [simp]: "sat_i64 w \<le> i64_max"
  by (simp add: sat_i64_def)

lemma try_u64_sat_i64: "try_u64 (sat_i64 w) = Some (if uint w \<le> i64_max then w else word_of_int i64_max)"
  by (simp add: try_u64_def sat_i64_def i64_max_def)

lemma non_negative_sat_i64:
  "uint w \<le> i64_max \<Longrightarrow> non_negative (sat_i64 w) = w"
  by (simp add: non_negative_def try_u64_sat_i64)

lemma try_unsigned_uint [simp]: "try_unsigned LENGTH('a) (uint (w :: 'a::len word)) = Some w"
  by (simp add: try_unsigned_def uint_lt2p_num)

lemma try_u32_uint [simp]: "try_u32 (uint w) = Some w"
  using try_unsigned_uint [of w] by (simp add: try_u32_def)

lemma try_u16_uint [simp]: "try_u16 (uint w) = Some w"
  using try_unsigned_uint [of w] by (simp add: try_u16_def)

lemma try_u8_uint [simp]: "try_u8 (uint w) = Some w"
  using try_unsigned_uint [of w] by (simp add: try_u8_def)

lemma try_u32_small [simp]:
  "try_u32 0 = Some 0" "try_u32 1 = Some 1"
  by (simp_all add: try_u32_def try_unsigned_def)

lemma try_u64_0 [simp]: "try_u64 0 = Some 0"
  by (simp add: try_u64_def)

lemma try_u8_0 [simp]: "try_u8 0 = Some 0"
  by (simp add: try_u8_def try_unsigned_def)

lemma count_u32_uint [simp]: "count_u32 (uint w) = w"
  by (simp add: count_u32_def)

lemma non_negative_0 [simp]: "non_negative 0 = 0"
  by (simp add: non_negative_def)

lemma count_u32_0 [simp]: "count_u32 0 = 0"
  by (simp add: count_u32_def)

lemma in_i64_uint32 [simp]: "in_i64 (uint (w :: 32 word))"
proof -
  have "uint w < 4294967296"
    using uint_lt2p_num [of w] by simp
  moreover have "- 9223372036854775808 \<le> uint w"
    by (rule order_trans [OF _ uint_ge_0]) simp
  ultimately show ?thesis
    by (simp add: in_i64_def i64_min_def i64_max_def)
qed

lemma in_i64_sat [simp]: "in_i64 (sat_i64 w)"
  using sat_i64_nonneg [of w] sat_i64_le [of w]
  by (simp add: in_i64_def i64_min_def del: sat_i64_nonneg sat_i64_le)

lemma word_sub_one_cases:
  "(a :: 'a::len word) - b \<le> 1 \<and> b \<le> a \<longleftrightarrow> a = b \<or> unat a = Suc (unat b)"
proof -
  have "b \<le> a \<Longrightarrow> unat (a - b) = unat a - unat b"
    by (simp add: unat_sub word_le_nat_alt)
  moreover have "unat (1 :: 'a word) = 1 \<or> unat (1 :: 'a word) = 0"
    by simp
  ultimately show ?thesis
    by (auto simp: word_le_nat_alt word_unat_eq_iff)
qed

section \<open>Results\<close>

fun rbind :: "'e + 'a \<Rightarrow> ('a \<Rightarrow> 'e + 'b) \<Rightarrow> 'e + 'b" where
  "rbind (Inl e) f = Inl e"
| "rbind (Inr a) f = f a"

text \<open>\<open>ok_or\<close> / \<open>ok_or_else\<close>, \<open>map_err\<close>, and \<open>collect::<Result<Vec<_>, _>>()\<close>.\<close>

fun ok_or :: "'e \<Rightarrow> 'a option \<Rightarrow> 'e + 'a" where
  "ok_or e None = Inl e"
| "ok_or e (Some a) = Inr a"

fun map_err :: "('e \<Rightarrow> 'f) \<Rightarrow> 'e + 'a \<Rightarrow> 'f + 'a" where
  "map_err f (Inl e) = Inl (f e)"
| "map_err f (Inr a) = Inr a"

fun rcollect :: "('a \<Rightarrow> 'e + 'b) \<Rightarrow> 'a list \<Rightarrow> 'e + 'b list" where
  "rcollect f [] = Inr []"
| "rcollect f (x # xs) = rbind (f x) (\<lambda>y. rbind (rcollect f xs) (\<lambda>ys. Inr (y # ys)))"

text \<open>\<open>option.map(f).transpose()\<close> for a fallible \<open>f\<close>.\<close>

fun rtranspose :: "('a \<Rightarrow> 'e + 'b) \<Rightarrow> 'a option \<Rightarrow> 'e + 'b option" where
  "rtranspose f None = Inr None"
| "rtranspose f (Some a) = rbind (f a) (\<lambda>b. Inr (Some b))"

text \<open>A fallible loop over a list that threads a state.\<close>

fun rfold :: "('a \<Rightarrow> 's \<Rightarrow> 'e + 's) \<Rightarrow> 'a list \<Rightarrow> 's \<Rightarrow> 'e + 's" where
  "rfold f [] s = Inr s"
| "rfold f (x # xs) s = rbind (f x s) (rfold f xs)"

lemma rbind_Inr: "rbind m f = Inr b \<longleftrightarrow> (\<exists>a. m = Inr a \<and> f a = Inr b)"
  by (cases m) auto

lemma rbind_Inl: "rbind m f = Inl e \<longleftrightarrow> m = Inl e \<or> (\<exists>a. m = Inr a \<and> f a = Inl e)"
  by (cases m) auto

lemma rbind_assoc: "rbind (rbind m f) g = rbind m (\<lambda>a. rbind (f a) g)"
  by (cases m) auto

lemma ok_or_Inr [simp]: "ok_or e m = Inr a \<longleftrightarrow> m = Some a"
  by (cases m) auto

lemma map_err_Inr [simp]: "map_err f m = Inr a \<longleftrightarrow> m = Inr a"
  by (cases m) auto

lemma rfold_append: "rfold f (xs @ ys) s = rbind (rfold f xs s) (rfold f ys)"
proof (induction xs arbitrary: s)
  case (Cons x xs)
  then show ?case by (cases "f x s") auto
qed simp

lemma rfold_invariant:
  assumes "rfold f xs s = Inr t" and "I s"
    and "\<And>x s t. x \<in> set xs \<Longrightarrow> I s \<Longrightarrow> f x s = Inr t \<Longrightarrow> I t"
  shows "I t"
  using assms by (induction xs arbitrary: s) (auto simp: rbind_Inr)

text \<open>Two folds over the same list whose steps keep a relation between their states.\<close>

lemma rfold_sim:
  assumes "rfold f xs s = Inr t" and "R s s'"
    and "\<And>x s s' t. x \<in> set xs \<Longrightarrow> R s s' \<Longrightarrow> f x s = Inr t \<Longrightarrow> \<exists>t'. g x s' = Inr t' \<and> R t t'"
  shows "\<exists>t'. rfold g xs s' = Inr t' \<and> R t t'"
  using assms
proof (induction xs arbitrary: s s')
  case (Cons x xs)
  then obtain u where u: "f x s = Inr u" "rfold f xs u = Inr t"
    by (auto simp: rbind_Inr)
  then obtain u' where "g x s' = Inr u'" "R u u'"
    using Cons.prems by fastforce
  with u Cons.IH [of u u'] Cons.prems(3) show ?case
    by auto
qed simp

lemma rfold_snoc: "rfold f (xs @ [x]) s = rbind (rfold f xs s) (f x)"
  unfolding rfold_append by (cases "rfold f xs s") (auto, cases "f x (projr (rfold f xs s))", auto)

lemma rcollect_append:
  "rcollect f (xs @ ys) = rbind (rcollect f xs) (\<lambda>a. rbind (rcollect f ys) (\<lambda>b. Inr (a @ b)))"
proof (induction xs)
  case Nil
  then show ?case by (cases "rcollect f ys") auto
next
  case (Cons x xs)
  then show ?case
    by (cases "f x"; cases "rcollect f xs"; cases "rcollect f ys") auto
qed

lemma rcollect_take: "rcollect f xs = Inr ys \<Longrightarrow> rcollect f (take n xs) = Inr (take n ys)"
proof (induction xs arbitrary: ys n)
  case (Cons x xs)
  then show ?case by (cases n) (auto simp: rbind_Inr)
qed simp

lemma rcollect_drop: "rcollect f xs = Inr ys \<Longrightarrow> rcollect f (drop n xs) = Inr (drop n ys)"
proof (induction xs arbitrary: ys n)
  case (Cons x xs)
  then show ?case by (cases n) (auto simp: rbind_Inr)
qed simp

lemma rcollect_length: "rcollect f xs = Inr ys \<Longrightarrow> length ys = length xs"
  by (induction xs arbitrary: ys) (auto simp: rbind_Inr)

lemma rcollect_all_Inr:
  "(\<And>x. x \<in> set xs \<Longrightarrow> f x = Inr (g x)) \<Longrightarrow> rcollect f xs = Inr (map g xs)"
  by (induction xs) auto

lemma rcollect_Inr_map:
  "rcollect f xs = Inr ys \<Longrightarrow> list_all2 (\<lambda>x y. f x = Inr y) xs ys"
  by (induction xs arbitrary: ys) (auto simp: rbind_Inr)

end
