(* ===== verification/Foundation.thy ===== *)
theory Foundation
  imports Prelude
begin

text \<open>
  The identity vocabulary of \<open>crates/pos-foundation/src/lib.rs\<close>: big-endian byte forms,
  the 16-byte opaque ids with their hexadecimal rendering and parser, the event sequence
  number, and the text predicates (ASCII classes, control characters, decimal rendering)
  the other crates use on ids, keys and user text.
\<close>

section \<open>Byte forms\<close>

fun nat_be_bytes :: "nat \<Rightarrow> nat \<Rightarrow> bytes" where
  "nat_be_bytes 0 x = []"
| "nat_be_bytes (Suc n) x = nat_be_bytes n (x div 256) @ [word_of_nat (x mod 256)]"

definition nat_of_be_bytes :: "bytes \<Rightarrow> nat" where
  "nat_of_be_bytes bs = foldl (\<lambda>a b. a * 256 + unat b) 0 bs"

lemma length_nat_be_bytes [simp]: "length (nat_be_bytes n x) = n"
  by (induction n arbitrary: x) auto

lemma nat_of_be_bytes_nat_be_bytes: "nat_of_be_bytes (nat_be_bytes n x) = x mod 256 ^ n"
proof (induction n arbitrary: x)
  case 0
  then show ?case by (simp add: nat_of_be_bytes_def)
next
  case (Suc n)
  have u: "unat (word_of_nat (x mod 256) :: 8 word) = x mod 256"
    by (simp add: unat_of_nat)
  have "nat_of_be_bytes (nat_be_bytes (Suc n) x) = (x div 256 mod 256 ^ n) * 256 + x mod 256"
    using Suc.IH [of "x div 256"] u by (simp add: nat_of_be_bytes_def)
  also have "\<dots> = x mod 256 ^ Suc n"
    by (simp add: mod_mult2_eq)
  finally show ?case .
qed

lemma nat_be_bytes_of: "nat_be_bytes (length bs) (nat_of_be_bytes bs) = bs"
proof (induction bs rule: rev_induct)
  case Nil
  then show ?case by simp
next
  case (snoc b bs)
  have b: "unat b < 256"
    using unat_lt2p_num [of b] by simp
  have "nat_of_be_bytes (bs @ [b]) = nat_of_be_bytes bs * 256 + unat b"
    by (simp add: nat_of_be_bytes_def)
  with snoc b show ?case
    by simp
qed

section \<open>Opaque ids\<close>

type_synonym id16 = "128 word"
type_synonym digest32 = "256 word"

definition into_bytes :: "id16 \<Rightarrow> bytes" where
  "into_bytes i = nat_be_bytes 16 (unat i)"

definition from_bytes :: "bytes \<Rightarrow> id16" where
  "from_bytes bs = word_of_nat (nat_of_be_bytes bs)"

text \<open>\<open><[u8; 16]>::try_from(bytes)\<close> followed by the newtype constructor.\<close>

definition id_try_from :: "bytes \<Rightarrow> id16 option" where
  "id_try_from bs = (if length bs = 16 then Some (from_bytes bs) else None)"

definition digest_bytes :: "digest32 \<Rightarrow> bytes" where
  "digest_bytes d = nat_be_bytes 32 (unat d)"

definition digest_try_from :: "bytes \<Rightarrow> digest32 option" where
  "digest_try_from bs = (if length bs = 32 then Some (word_of_nat (nat_of_be_bytes bs)) else None)"

lemma length_into_bytes [simp]: "length (into_bytes i) = 16"
  by (simp add: into_bytes_def)

lemma from_bytes_into_bytes [simp]: "from_bytes (into_bytes i) = i"
proof -
  have "unat i < 256 ^ 16"
    using unat_lt2p_num [of i] by simp
  then show ?thesis
    by (simp add: from_bytes_def into_bytes_def nat_of_be_bytes_nat_be_bytes)
qed

lemma into_bytes_inject [simp]: "into_bytes i = into_bytes j \<longleftrightarrow> i = j"
  by (metis from_bytes_into_bytes)

lemma id_try_from_into_bytes [simp]: "id_try_from (into_bytes i) = Some i"
  by (simp add: id_try_from_def)

lemma id_try_from_Some: "id_try_from bs = Some i \<Longrightarrow> bs = into_bytes i"
proof -
  assume a: "id_try_from bs = Some i"
  then have len: "length bs = 16" and i: "i = from_bytes bs"
    by (auto simp: id_try_from_def split: if_splits)
  have "nat_of_be_bytes bs = nat_of_be_bytes bs mod 256 ^ 16"
    using nat_of_be_bytes_nat_be_bytes [of 16 "nat_of_be_bytes bs"] nat_be_bytes_of [of bs] len
    by simp
  then have "unat (from_bytes bs) = nat_of_be_bytes bs"
    by (simp add: from_bytes_def unat_of_nat)
  then show ?thesis
    using nat_be_bytes_of [of bs] len i by (simp add: into_bytes_def)
qed

lemma digest_try_from_bytes [simp]: "digest_try_from (digest_bytes d) = Some d"
proof -
  have "unat d < 256 ^ 32"
    using unat_lt2p_num [of d] by simp
  then show ?thesis
    by (simp add: digest_try_from_def digest_bytes_def nat_of_be_bytes_nat_be_bytes)
qed

subsection \<open>Hexadecimal text\<close>

definition hex_digit :: "nat \<Rightarrow> char" where
  "hex_digit n = (if n < 10 then char_of (48 + n) else char_of (87 + n))"

definition hex_byte :: "8 word \<Rightarrow> string" where
  "hex_byte b = [hex_digit (unat b div 16), hex_digit (unat b mod 16)]"

definition to_hex :: "id16 \<Rightarrow> string" where
  "to_hex i = concat (map hex_byte (into_bytes i))"

definition hex_nibble :: "char \<Rightarrow> nat option" where
  "hex_nibble c =
     (let d = of_char c :: nat
      in if 48 \<le> d \<and> d \<le> 57 then Some (d - 48)
         else if 97 \<le> d \<and> d \<le> 102 then Some (d - 97 + 10)
         else None)"

definition is_ascii :: "string \<Rightarrow> bool" where
  "is_ascii s \<longleftrightarrow> list_all (\<lambda>c. (of_char c :: nat) < 128) s"

text \<open>The digit loop of \<open>from_hex\<close>: two characters per byte, \<open>None\<close> at the first bad digit.\<close>

fun hex_pairs :: "string \<Rightarrow> bytes option" where
  "hex_pairs [] = Some []"
| "hex_pairs [c] = None"
| "hex_pairs (c # d # cs) =
     (case hex_nibble c of
        None \<Rightarrow> None
      | Some hi \<Rightarrow>
          (case hex_nibble d of
             None \<Rightarrow> None
           | Some lo \<Rightarrow> map_option (\<lambda>bs. word_of_nat (hi * 16 + lo) # bs) (hex_pairs cs)))"

definition from_hex :: "string \<Rightarrow> id16 option" where
  "from_hex text =
     (if length text \<noteq> 32 \<or> \<not> is_ascii text then None
      else map_option from_bytes (hex_pairs text))"

lemma nat_lt_16_cases:
  "n < 16 \<Longrightarrow> n \<in> {0, 1, 2, 3, 4, 5, 6, 7, 8, 9, 10, 11, 12, 13, 14, 15 :: nat}"
  unfolding insert_iff empty_iff by arith

lemma hex_nibble_digit: "n < 16 \<Longrightarrow> hex_nibble (hex_digit n) = Some n"
  by (auto dest!: nat_lt_16_cases simp: hex_digit_def hex_nibble_def)

lemma hex_digit_ascii: "n < 16 \<Longrightarrow> (of_char (hex_digit n) :: nat) < 128"
  by (auto dest!: nat_lt_16_cases simp: hex_digit_def)

lemma hex_pairs_concat: "hex_pairs (concat (map hex_byte bs)) = Some bs"
proof (induction bs)
  case (Cons b bs)
  have "unat b < 256"
    using unat_lt2p_num [of b] by simp
  then have "unat b div 16 < 16"
    by simp
  with Cons show ?case
    by (simp add: hex_byte_def hex_nibble_digit)
qed simp

lemma is_ascii_hex: "is_ascii (concat (map hex_byte bs))"
proof (induction bs)
  case (Cons b bs)
  have "unat b < 256"
    using unat_lt2p_num [of b] by simp
  then have "unat b div 16 < 16"
    by simp
  with Cons show ?case
    by (simp add: is_ascii_def hex_byte_def hex_digit_ascii)
qed (simp add: is_ascii_def)

lemma length_concat_hex: "length (concat (map hex_byte bs)) = 2 * length bs"
  by (induction bs) (simp_all add: hex_byte_def)

lemma length_to_hex [simp]: "length (to_hex i) = 32"
  by (simp add: to_hex_def length_concat_hex)

lemma from_hex_to_hex [simp]: "from_hex (to_hex i) = Some i"
  unfolding from_hex_def by (simp add: to_hex_def is_ascii_hex length_concat_hex hex_pairs_concat)

lemma to_hex_inject [simp]: "to_hex i = to_hex j \<longleftrightarrow> i = j"
  by (metis from_hex_to_hex option.inject)

section \<open>Event sequence numbers\<close>

type_synonym event_seq = u64

definition seq_next :: "event_seq \<Rightarrow> event_seq" where
  "seq_next s = saturating_add s 1"

lemma unat_seq_next: "unat s < 2 ^ 64 - 1 \<Longrightarrow> unat (seq_next s) = Suc (unat s)"
  by (simp add: seq_next_def unat_saturating_add)

section \<open>Text\<close>

definition is_ascii_alphanumeric :: "char \<Rightarrow> bool" where
  "is_ascii_alphanumeric c \<longleftrightarrow>
     (let d = of_char c :: nat
      in (48 \<le> d \<and> d \<le> 57) \<or> (65 \<le> d \<and> d \<le> 90) \<or> (97 \<le> d \<and> d \<le> 122))"

text \<open>The id alphabet of job kinds, tool ids and runtime ids: alphanumerics, dot, dash, underscore.\<close>

definition is_id_char :: "char \<Rightarrow> bool" where
  "is_id_char c \<longleftrightarrow> is_ascii_alphanumeric c \<or> c = CHR ''.'' \<or> c = CHR ''-'' \<or> c = CHR ''_''"

definition valid_id_text :: "nat \<Rightarrow> string \<Rightarrow> bool" where
  "valid_id_text max_len s \<longleftrightarrow> s \<noteq> [] \<and> length s \<le> max_len \<and> list_all is_id_char s"

text \<open>
  \<open>value.chars().any(char::is_control)\<close> on UTF-8 bytes: the control characters are
  U+0000..U+001F, U+007F and U+0080..U+009F, the last group being the two-byte sequences
  C2 80 .. C2 9F.
\<close>

fun any_control :: "string \<Rightarrow> bool" where
  "any_control [] = False"
| "any_control (c # cs) =
     ((of_char c :: nat) < 32 \<or> (of_char c :: nat) = 127 \<or>
      ((of_char c :: nat) = 194 \<and>
        (case cs of [] \<Rightarrow> False | d # _ \<Rightarrow> 128 \<le> (of_char d :: nat) \<and> (of_char d :: nat) \<le> 159)) \<or>
      any_control cs)"

definition visible_text :: "nat \<Rightarrow> string \<Rightarrow> bool" where
  "visible_text max_len s \<longleftrightarrow> s \<noteq> [] \<and> length s \<le> max_len \<and> \<not> any_control s"

text \<open>Decimal rendering of an unsigned integer (\<open>format!("{n}")\<close>) and its parser.\<close>

definition dec_digit :: "nat \<Rightarrow> char" where
  "dec_digit n = char_of (48 + n)"

fun dec_text :: "nat \<Rightarrow> string" where
  "dec_text n = (if n < 10 then [dec_digit n] else dec_text (n div 10) @ [dec_digit (n mod 10)])"

declare dec_text.simps [simp del]

definition dec_value :: "string \<Rightarrow> nat" where
  "dec_value s = foldl (\<lambda>a c. a * 10 + ((of_char c :: nat) - 48)) 0 s"

definition is_dec_digit :: "char \<Rightarrow> bool" where
  "is_dec_digit c \<longleftrightarrow> 48 \<le> (of_char c :: nat) \<and> (of_char c :: nat) \<le> 57"

lemma of_char_dec_digit: "n < 10 \<Longrightarrow> (of_char (dec_digit n) :: nat) = 48 + n"
  by (simp add: dec_digit_def)

lemma is_dec_digit_dec_digit: "n < 10 \<Longrightarrow> is_dec_digit (dec_digit n)"
  by (simp add: is_dec_digit_def of_char_dec_digit)

lemma dec_text_digits: "list_all is_dec_digit (dec_text n)"
proof (induction n rule: dec_text.induct)
  case (1 n)
  then show ?case
    by (subst dec_text.simps) (simp add: is_dec_digit_dec_digit)
qed

lemma dec_value_dec_text [simp]: "dec_value (dec_text n) = n"
proof (induction n rule: dec_text.induct)
  case (1 n)
  show ?case
  proof (cases "n < 10")
    case True
    then show ?thesis
      by (subst dec_text.simps) (simp add: dec_value_def of_char_dec_digit)
  next
    case False
    with 1 have "dec_value (dec_text (n div 10)) = n div 10"
      by simp
    with False show ?thesis
      by (subst dec_text.simps) (simp add: dec_value_def of_char_dec_digit)
  qed
qed

lemma dec_text_inject [simp]: "dec_text m = dec_text n \<longleftrightarrow> m = n"
  by (metis dec_value_dec_text)

lemma dec_text_no_char: "\<not> is_dec_digit c \<Longrightarrow> c \<notin> set (dec_text n)"
  using dec_text_digits [of n] by (auto simp: list_all_iff)

end
