(* ===== verification/Store.thy ===== *)
theory Store
  imports Foundation "HOL-Library.List_Lexorder"
begin

text \<open>
  The projection apply chokepoint of \<open>crates/pos-log/src/apply/mod.rs\<close>: declared table
  shapes, typed row writes, and \<open>execute_write\<close>, the only function that turns a write into a
  change of a \<open>proj_*\<close> table.

  A table is the list of its rows in primary-key order (\<open>WITHOUT ROWID\<close>), a row a function
  from column names to SQLite cells (\<open>CNull\<close> for a column that holds nothing). The \<open>sql_*\<close> functions give the
  meaning of the statements the \<open>*_sql\<close> functions of the source render: \<open>INSERT\<close> fails on a
  taken key or a NULL key column, \<open>UPDATE\<close> reports how many rows it changed, and integer
  addition that leaves the signed 64-bit range yields a REAL cell, as SQLite's does. The
  interface the rest of the development relies on is the locale \<open>row_store\<close>.
\<close>

section \<open>Values, columns, tables\<close>

datatype sql_value = Integer i64 | Text string | Blob bytes | Null

text \<open>What a cell of the database holds: \<open>rusqlite\<close>'s \<open>ValueRef\<close>.\<close>

datatype sql_cell = CNull | CInteger i64 | CReal | CText string | CBlob bytes

datatype column_kind = KInteger | KText | KBlob

fun sql_type :: "column_kind \<Rightarrow> string" where
  "sql_type KInteger = ''INTEGER''"
| "sql_type KText = ''TEXT''"
| "sql_type KBlob = ''BLOB''"

datatype column_def = ColumnDef (col_name: string) (col_kind: column_kind)

record index_def =
  ix_name :: string
  ix_columns :: "string list"

record table_def =
  tbl_name :: string
  tbl_version :: u32
  key_columns :: "column_def list"
  value_columns :: "column_def list"
  indexes :: "index_def list"

type_synonym key = "sql_value list"
type_synonym assignments = "(string \<times> sql_value) list"

datatype row_write =
    Insert key "sql_value list"
  | Upsert key "sql_value list"
  | Update key assignments
  | UpdateOne key assignments
  | UpdateOneWhenNull key string assignments
  | Increment key string i64
  | IncrementOne key string i64
  | IncrementManyOne key "(string \<times> i64) list"
  | Delete key

text \<open>
  \<open>ApplyError\<close> carries a formatted reason; the model keeps the table and which check refused.
\<close>

datatype apply_error =
    ArityMismatch string string nat nat
  | UnknownColumn string string
  | NoAssignments string
  | NotOneRow string string nat
  | SqlConstraint string
  | NoSuchTable string
  | DecodeFailed string string
  | Shape string string

type_synonym row = "string \<Rightarrow> sql_cell"
type_synonym table = "(sql_cell list \<times> row) list"
type_synonym tables = "string \<rightharpoonup> table"

section \<open>Key order\<close>

text \<open>
  SQLite's order on stored values: NULL, then numbers, then text, then blobs, the last two
  bytewise.
\<close>

fun cell_code :: "sql_cell \<Rightarrow> int list" where
  "cell_code CNull = [0]"
| "cell_code (CInteger i) = [1, i]"
| "cell_code CReal = [2]"
| "cell_code (CText s) = 3 # map of_char s"
| "cell_code (CBlob b) = 4 # map uint b"

lemma map_of_char_inject: "map (of_char :: char \<Rightarrow> int) s = map of_char t \<longleftrightarrow> s = t"
proof -
  have "inj (of_char :: char \<Rightarrow> int)"
    by (rule inj_onI) simp
  then show ?thesis
    by (simp add: inj_map_eq_map)
qed

lemma map_uint_inject: "map uint (a :: 8 word list) = map uint b \<longleftrightarrow> a = b"
proof -
  have "inj (uint :: 8 word \<Rightarrow> int)"
    by (rule inj_onI) (simp add: word_uint_eq_iff)
  then show ?thesis
    by (simp add: inj_map_eq_map)
qed

lemma cell_code_inject [simp]: "cell_code a = cell_code b \<longleftrightarrow> a = b"
  by (cases a; cases b) (auto simp: map_of_char_inject map_uint_inject)

instantiation sql_cell :: linorder
begin

definition less_eq_sql_cell :: "sql_cell \<Rightarrow> sql_cell \<Rightarrow> bool" where
  "less_eq_sql_cell a b \<longleftrightarrow> cell_code a \<le> cell_code b"

definition less_sql_cell :: "sql_cell \<Rightarrow> sql_cell \<Rightarrow> bool" where
  "less_sql_cell a b \<longleftrightarrow> cell_code a < cell_code b"

instance
proof
  fix x y z :: sql_cell
  show "x < y \<longleftrightarrow> x \<le> y \<and> \<not> y \<le> x"
    by (simp add: less_eq_sql_cell_def less_sql_cell_def less_le_not_le)
  show "x \<le> x"
    by (simp add: less_eq_sql_cell_def)
  show "x \<le> y \<Longrightarrow> y \<le> z \<Longrightarrow> x \<le> z"
    unfolding less_eq_sql_cell_def by (rule order_trans)
  show "x \<le> y \<Longrightarrow> y \<le> x \<Longrightarrow> x = y"
    unfolding less_eq_sql_cell_def by (drule (1) order_antisym) (rule cell_code_inject [THEN iffD1])
  show "x \<le> y \<or> y \<le> x"
    unfolding less_eq_sql_cell_def by (rule linear)
qed

end

fun tbl_put :: "'k::linorder \<Rightarrow> 'r \<Rightarrow> ('k \<times> 'r) list \<Rightarrow> ('k \<times> 'r) list" where
  "tbl_put k r [] = [(k, r)]"
| "tbl_put k r ((k', r') # t) =
     (if k = k' then (k, r) # t
      else if k < k' then (k, r) # (k', r') # t
      else (k', r') # tbl_put k r t)"

definition tbl_del :: "'k \<Rightarrow> ('k \<times> 'r) list \<Rightarrow> ('k \<times> 'r) list" where
  "tbl_del k t = filter (\<lambda>(k', _). k' \<noteq> k) t"

definition tbl_sorted :: "('k::linorder \<times> 'r) list \<Rightarrow> bool" where
  "tbl_sorted t \<longleftrightarrow> sorted_wrt (<) (map fst t)"

lemma map_of_tbl_put [simp]: "map_of (tbl_put k r t) = (map_of t)(k \<mapsto> r)"
  by (induction k r t rule: tbl_put.induct) auto

lemma map_of_tbl_del [simp]: "map_of (tbl_del k t) = (map_of t)(k := None)"
proof (induction t)
  case (Cons a t)
  then show ?case by (cases a) (auto simp: tbl_del_def)
qed (simp add: tbl_del_def)

lemma fst_set_tbl_put: "fst ` set (tbl_put k r t) = insert k (fst ` set t)"
  by (induction k r t rule: tbl_put.induct) auto

lemma tbl_sorted_put [intro]: "tbl_sorted t \<Longrightarrow> tbl_sorted (tbl_put k r t)"
proof (induction k r t rule: tbl_put.induct)
  case (2 k r k' r' t)
  then have tl: "tbl_sorted t" and hd: "\<forall>x \<in> fst ` set t. k' < x"
    by (auto simp: tbl_sorted_def)
  have all: "set (map fst (tbl_put k r t)) = insert k (fst ` set t)"
    using fst_set_tbl_put [of k r t] by simp
  show ?case
  proof (cases "k = k' \<or> k < k'")
    case True
    with tl hd show ?thesis
      by (auto simp: tbl_sorted_def intro: less_trans)
  next
    case False
    with 2 tl have "tbl_sorted (tbl_put k r t)"
      by auto
    with False hd all show ?thesis
      by (auto simp: tbl_sorted_def simp del: set_map)
  qed
qed (simp add: tbl_sorted_def)

lemma tbl_sorted_del [intro]: "tbl_sorted t \<Longrightarrow> tbl_sorted (tbl_del k t)"
  unfolding tbl_sorted_def tbl_del_def
  by (induction t) (auto split: if_splits)

text \<open>Sorted tables are determined by their lookups, so equal lookups mean equal bytes.\<close>

lemma tbl_sorted_map_of: "tbl_sorted t \<Longrightarrow> map_of t k = Some r \<longleftrightarrow> (k, r) \<in> set t"
  by (rule map_of_eq_Some_iff) (simp add: tbl_sorted_def strict_sorted_iff)

lemma tbl_sorted_eq:
  assumes "tbl_sorted s" "tbl_sorted t" "map_of s = map_of t"
  shows "s = t"
proof -
  have sets: "set s = set t"
  proof (rule set_eqI)
    fix x
    show "x \<in> set s \<longleftrightarrow> x \<in> set t"
      using tbl_sorted_map_of [OF assms(1), of "fst x" "snd x"]
        tbl_sorted_map_of [OF assms(2), of "fst x" "snd x"] assms(3) by simp
  qed
  then have keys: "map fst s = map fst t"
    using assms(1,2) unfolding tbl_sorted_def by (intro strict_sorted_equal) simp_all
  have "length s = length t"
    using keys by (metis length_map)
  moreover have "s ! i = t ! i" if i: "i < length s" for i
  proof -
    have k: "fst (s ! i) = fst (t ! i)"
      using keys i \<open>length s = length t\<close> by (metis nth_map)
    have "s ! i \<in> set s"
      using i by (rule nth_mem)
    moreover have "t ! i \<in> set s"
      unfolding sets using i \<open>length s = length t\<close> by (intro nth_mem) simp
    ultimately have "map_of s (fst (s ! i)) = Some (snd (s ! i))"
        "map_of s (fst (t ! i)) = Some (snd (t ! i))"
      using tbl_sorted_map_of [OF assms(1)] by (metis prod.collapse)+
    with k show ?thesis
      by (simp add: prod_eq_iff)
  qed
  ultimately show ?thesis
    by (rule nth_equalityI)
qed

section \<open>Statements\<close>

fun bind_value :: "sql_value \<Rightarrow> sql_cell" where
  "bind_value (Integer i) = CInteger i"
| "bind_value (Text s) = CText s"
| "bind_value (Blob b) = CBlob b"
| "bind_value Null = CNull"

definition bind_values :: "sql_value list \<Rightarrow> sql_cell list" where
  "bind_values vs = map bind_value vs"

fun row_of :: "column_def list \<Rightarrow> sql_value list \<Rightarrow> row" where
  "row_of (c # cs) (v # vs) = (row_of cs vs)(col_name c := bind_value v)"
| "row_of cs vs = (\<lambda>_. CNull)"

text \<open>Key columns are declared \<open>NOT NULL\<close> (\<open>create_table_sql\<close>).\<close>

definition null_key :: "sql_cell list \<Rightarrow> bool" where
  "null_key k \<longleftrightarrow> CNull \<in> set k"

definition sql_insert :: "sql_cell list \<Rightarrow> row \<Rightarrow> table \<Rightarrow> table option" where
  "sql_insert k r t = (if null_key k \<or> map_of t k \<noteq> None then None else Some (tbl_put k r t))"

definition sql_upsert :: "sql_cell list \<Rightarrow> row \<Rightarrow> table \<Rightarrow> table option" where
  "sql_upsert k r t = (if null_key k then None else Some (tbl_put k r t))"

text \<open>\<open>UPDATE .. WHERE key [AND guard]\<close>: the number of rows changed and the new table.\<close>

definition sql_update :: "sql_cell list \<Rightarrow> (row \<Rightarrow> bool) \<Rightarrow> (row \<Rightarrow> row) \<Rightarrow> table \<Rightarrow> nat \<times> table" where
  "sql_update k guard f t =
     (case map_of t k of
        None \<Rightarrow> (0, t)
      | Some r \<Rightarrow> if guard r then (1, tbl_put k (f r) t) else (0, t))"

definition sql_delete :: "sql_cell list \<Rightarrow> table \<Rightarrow> table" where
  "sql_delete k t = tbl_del k t"

fun assign_row :: "assignments \<Rightarrow> row \<Rightarrow> row" where
  "assign_row [] r = r"
| "assign_row ((c, v) # as) r = assign_row as (r(c := bind_value v))"

text \<open>\<open>COALESCE(column, 0) + delta\<close>.\<close>

fun sql_add :: "sql_cell \<Rightarrow> i64 \<Rightarrow> sql_cell" where
  "sql_add CNull d = CInteger d"
| "sql_add (CInteger i) d = (if in_i64 (i + d) then CInteger (i + d) else CReal)"
| "sql_add _ d = CReal"

text \<open>Every right-hand side of one \<open>SET\<close> list reads the row as it was before the statement.\<close>

definition add_deltas :: "(string \<times> i64) list \<Rightarrow> row \<Rightarrow> row" where
  "add_deltas ds r = fold (\<lambda>(c, d) r'. r'(c := sql_add (r c) d)) ds r"

section \<open>Executing a write\<close>

definition require_arity :: "table_def \<Rightarrow> string \<Rightarrow> nat \<Rightarrow> nat \<Rightarrow> apply_error + unit" where
  "require_arity tb what got expected =
     (if got = expected then Inr () else Inl (ArityMismatch (tbl_name tb) what got expected))"

definition require_value_column :: "table_def \<Rightarrow> string \<Rightarrow> apply_error + unit" where
  "require_value_column tb c =
     (if c \<in> set (map col_name (value_columns tb)) then Inr ()
      else Inl (UnknownColumn (tbl_name tb) c))"

fun require_value_columns :: "table_def \<Rightarrow> string list \<Rightarrow> apply_error + unit" where
  "require_value_columns tb [] = Inr ()"
| "require_value_columns tb (c # cs) =
     rbind (require_value_column tb c) (\<lambda>_. require_value_columns tb cs)"

definition require_one_changed :: "table_def \<Rightarrow> string \<Rightarrow> nat \<Rightarrow> apply_error + unit" where
  "require_one_changed tb operation changed =
     (if changed = 1 then Inr () else Inl (NotOneRow (tbl_name tb) operation changed))"

definition require_assignments :: "table_def \<Rightarrow> 'a list \<Rightarrow> apply_error + unit" where
  "require_assignments tb as = (if as = [] then Inl (NoAssignments (tbl_name tb)) else Inr ())"

text \<open>The strict forms: run the update, then insist that exactly one row changed.\<close>

definition update_one ::
  "table_def \<Rightarrow> string \<Rightarrow> key \<Rightarrow> (row \<Rightarrow> bool) \<Rightarrow> (row \<Rightarrow> row) \<Rightarrow> table \<Rightarrow> apply_error + table" where
  "update_one tb operation k guard f t =
     (let (changed, t') = sql_update (bind_values k) guard f t
      in rbind (require_one_changed tb operation changed) (\<lambda>_. Inr t'))"

fun execute_write :: "table_def \<Rightarrow> row_write \<Rightarrow> table \<Rightarrow> apply_error + table" where
  "execute_write tb (Insert k vs) t =
     rbind (require_arity tb ''key'' (length k) (length (key_columns tb))) (\<lambda>_.
     rbind (require_arity tb ''values'' (length vs) (length (value_columns tb))) (\<lambda>_.
     ok_or (SqlConstraint (tbl_name tb))
       (sql_insert (bind_values k) (row_of (value_columns tb) vs) t)))"
| "execute_write tb (Upsert k vs) t =
     rbind (require_arity tb ''key'' (length k) (length (key_columns tb))) (\<lambda>_.
     rbind (require_arity tb ''values'' (length vs) (length (value_columns tb))) (\<lambda>_.
     ok_or (SqlConstraint (tbl_name tb))
       (sql_upsert (bind_values k) (row_of (value_columns tb) vs) t)))"
| "execute_write tb (Update k as) t =
     rbind (require_arity tb ''key'' (length k) (length (key_columns tb))) (\<lambda>_.
     rbind (require_value_columns tb (map fst as)) (\<lambda>_.
     rbind (require_assignments tb as) (\<lambda>_.
     Inr (snd (sql_update (bind_values k) (\<lambda>_. True) (assign_row as) t)))))"
| "execute_write tb (UpdateOne k as) t =
     rbind (require_arity tb ''key'' (length k) (length (key_columns tb))) (\<lambda>_.
     rbind (require_value_columns tb (map fst as)) (\<lambda>_.
     rbind (require_assignments tb as) (\<lambda>_.
     update_one tb ''strict update'' k (\<lambda>_. True) (assign_row as) t)))"
| "execute_write tb (UpdateOneWhenNull k guard as) t =
     rbind (require_arity tb ''key'' (length k) (length (key_columns tb))) (\<lambda>_.
     rbind (require_value_column tb guard) (\<lambda>_.
     rbind (require_value_columns tb (map fst as)) (\<lambda>_.
     rbind (require_assignments tb as) (\<lambda>_.
     update_one tb ''guarded single-assignment update'' k (\<lambda>r. r guard = CNull) (assign_row as) t))))"
| "execute_write tb (Increment k c d) t =
     rbind (require_arity tb ''key'' (length k) (length (key_columns tb))) (\<lambda>_.
     rbind (require_value_column tb c) (\<lambda>_.
     ok_or (SqlConstraint (tbl_name tb))
       (sql_upsert (bind_values k)
          (case map_of t (bind_values k) of
             None \<Rightarrow> (\<lambda>_. CNull)(c := CInteger d)
           | Some r \<Rightarrow> r(c := sql_add (r c) d)) t)))"
| "execute_write tb (IncrementOne k c d) t =
     rbind (require_arity tb ''key'' (length k) (length (key_columns tb))) (\<lambda>_.
     rbind (require_value_column tb c) (\<lambda>_.
     update_one tb ''strict increment'' k (\<lambda>_. True) (\<lambda>r. r(c := sql_add (r c) d)) t))"
| "execute_write tb (IncrementManyOne k ds) t =
     rbind (require_arity tb ''key'' (length k) (length (key_columns tb))) (\<lambda>_.
     rbind (require_assignments tb ds) (\<lambda>_.
     rbind (require_value_columns tb (map fst ds)) (\<lambda>_.
     update_one tb ''strict multi-increment'' k (\<lambda>_. True) (add_deltas ds) t)))"
| "execute_write tb (Delete k) t =
     rbind (require_arity tb ''key'' (length k) (length (key_columns tb))) (\<lambda>_.
     Inr (sql_delete (bind_values k) t))"

fun write_key :: "row_write \<Rightarrow> key" where
  "write_key (Insert k _) = k"
| "write_key (Upsert k _) = k"
| "write_key (Update k _) = k"
| "write_key (UpdateOne k _) = k"
| "write_key (UpdateOneWhenNull k _ _) = k"
| "write_key (Increment k _ _) = k"
| "write_key (IncrementOne k _ _) = k"
| "write_key (IncrementManyOne k _) = k"
| "write_key (Delete k) = k"

section \<open>The store interface\<close>

text \<open>
  What the log and its readers rely on: an insert takes a free key and nothing else, an update
  changes the row it names or reports zero rows, and no statement touches another key.
\<close>

locale row_store =
  fixes look :: "'t \<Rightarrow> 'k \<Rightarrow> 'r option"
    and ins :: "'k \<Rightarrow> 'r \<Rightarrow> 't \<Rightarrow> 't option"
    and upd :: "'k \<Rightarrow> ('r \<Rightarrow> bool) \<Rightarrow> ('r \<Rightarrow> 'r) \<Rightarrow> 't \<Rightarrow> nat \<times> 't"
  assumes ins_fresh: "ins k r t = Some t' \<Longrightarrow> look t k = None"
    and ins_look: "ins k r t = Some t' \<Longrightarrow> look t' j = (if j = k then Some r else look t j)"
    and upd_hit: "look t k = Some r \<Longrightarrow> g r \<Longrightarrow> fst (upd k g f t) = 1"
    and upd_miss: "look t k = None \<or> (\<exists>r. look t k = Some r \<and> \<not> g r) \<Longrightarrow>
                     upd k g f t = (0, t)"
    and upd_look: "look t k = Some r \<Longrightarrow> g r \<Longrightarrow>
                     look (snd (upd k g f t)) j = (if j = k then Some (f r) else look t j)"
begin

lemma ins_twice: "ins k r t = Some t' \<Longrightarrow> ins k r' t' = None"
  using ins_fresh ins_look by (metis (full_types) not_None_eq)

text \<open>A guarded update whose assignment falsifies its guard succeeds at most once.\<close>

lemma guarded_once:
  assumes hit: "look t k = Some r" "g r" and falsifies: "\<not> g (f r)"
  shows "fst (upd k g f (snd (upd k g f t))) = 0"
proof -
  have "look (snd (upd k g f t)) k = Some (f r)"
    using upd_look [where g = g and f = f, OF hit] by simp
  then show ?thesis
    using upd_miss [where g = g and f = f] falsifies by (metis fst_conv)
qed

lemma upd_count: "fst (upd k g f t) \<le> 1"
  using upd_hit upd_miss by (metis fst_conv le_numeral_extra(4) not_None_eq zero_le)

end

interpretation sql: row_store map_of sql_insert sql_update
  by unfold_locales (auto simp: sql_insert_def sql_update_def split: if_splits)

section \<open>What a write can change\<close>

lemma assign_row_other: "c \<notin> fst ` set as \<Longrightarrow> assign_row as r c = r c"
  by (induction as arbitrary: r) auto

lemma assign_row_append: "assign_row (as @ bs) r = assign_row bs (assign_row as r)"
  by (induction as arbitrary: r) auto

lemma fold_add_deltas_other:
  "c \<notin> fst ` set ds \<Longrightarrow> fold (\<lambda>(c, d) r'. r'(c := sql_add (r0 c) d)) ds r c = r c"
  by (induction ds arbitrary: r) auto

lemma add_deltas_other: "c \<notin> fst ` set ds \<Longrightarrow> add_deltas ds r c = r c"
  unfolding add_deltas_def by (rule fold_add_deltas_other)

lemma update_one_Inr:
  "update_one tb op k g f t = Inr t' \<longleftrightarrow>
     (\<exists>r. map_of t (bind_values k) = Some r \<and> g r \<and> t' = tbl_put (bind_values k) (f r) t)"
  by (auto simp: update_one_def sql_update_def require_one_changed_def Let_def
      split: option.splits if_splits)

lemma execute_write_frame:
  assumes "execute_write tb w t = Inr t'" and "j \<noteq> bind_values (write_key w)"
  shows "map_of t' j = map_of t j"
  using assms
  by (cases w) (auto simp: rbind_Inr update_one_Inr sql_insert_def sql_upsert_def sql_update_def
      sql_delete_def split: if_splits option.splits)

lemma execute_write_keeps_rows:
  assumes "execute_write tb w t = Inr t'" and "\<And>k. w \<noteq> Delete k"
  shows "dom (map_of t) \<subseteq> dom (map_of t')"
  using assms
  by (cases w) (auto simp: rbind_Inr update_one_Inr sql_insert_def sql_upsert_def sql_update_def
      split: if_splits option.splits)

lemma execute_write_sorted:
  "execute_write tb w t = Inr t' \<Longrightarrow> tbl_sorted t \<Longrightarrow> tbl_sorted t'"
  by (cases w) (auto simp: rbind_Inr update_one_Inr sql_insert_def sql_upsert_def sql_update_def
      sql_delete_def split: if_splits option.splits)

text \<open>
  Lookups the component proofs evaluate: an insert, a strict update and the guarded update at
  the key they name.
\<close>

lemma require_arity_Inr [res_simps]: "require_arity tb w n m = Inr () \<longleftrightarrow> n = m"
  by (simp add: require_arity_def)

lemma require_assignments_Inr [res_simps]: "require_assignments tb as = Inr () \<longleftrightarrow> as \<noteq> []"
  by (simp add: require_assignments_def)

lemma require_value_columns_Inr [res_simps]:
  "require_value_columns tb cs = Inr () \<longleftrightarrow> set cs \<subseteq> set (map col_name (value_columns tb))"
  by (induction cs) (auto simp: require_value_column_def rbind_Inr)

lemma execute_insert_Inr:
  "execute_write tb (Insert k vs) t = Inr t' \<longleftrightarrow>
     length k = length (key_columns tb) \<and> length vs = length (value_columns tb) \<and>
     \<not> null_key (bind_values k) \<and> map_of t (bind_values k) = None \<and>
     t' = tbl_put (bind_values k) (row_of (value_columns tb) vs) t"
  by (auto simp: rbind_Inr res_simps sql_insert_def)

lemma execute_update_one_Inr:
  "execute_write tb (UpdateOne k as) t = Inr t' \<longleftrightarrow>
     length k = length (key_columns tb) \<and> fst ` set as \<subseteq> col_name ` set (value_columns tb) \<and>
     as \<noteq> [] \<and>
     (\<exists>r. map_of t (bind_values k) = Some r \<and> t' = tbl_put (bind_values k) (assign_row as r) t)"
  by (auto simp: rbind_Inr res_simps update_one_Inr)

lemma execute_guarded_Inr:
  "execute_write tb (UpdateOneWhenNull k g as) t = Inr t' \<longleftrightarrow>
     length k = length (key_columns tb) \<and> g \<in> col_name ` set (value_columns tb) \<and>
     fst ` set as \<subseteq> col_name ` set (value_columns tb) \<and> as \<noteq> [] \<and>
     (\<exists>r. map_of t (bind_values k) = Some r \<and> r g = CNull \<and>
          t' = tbl_put (bind_values k) (assign_row as r) t)"
  by (auto simp: rbind_Inr res_simps update_one_Inr require_value_column_def)

lemma execute_increment_one_Inr:
  "execute_write tb (IncrementOne k c d) t = Inr t' \<longleftrightarrow>
     length k = length (key_columns tb) \<and> c \<in> col_name ` set (value_columns tb) \<and>
     (\<exists>r. map_of t (bind_values k) = Some r \<and>
          t' = tbl_put (bind_values k) (r(c := sql_add (r c) d)) t)"
  by (auto simp: rbind_Inr res_simps update_one_Inr require_value_column_def)

lemma execute_increment_many_Inr:
  "execute_write tb (IncrementManyOne k ds) t = Inr t' \<longleftrightarrow>
     length k = length (key_columns tb) \<and> fst ` set ds \<subseteq> col_name ` set (value_columns tb) \<and>
     ds \<noteq> [] \<and>
     (\<exists>r. map_of t (bind_values k) = Some r \<and> t' = tbl_put (bind_values k) (add_deltas ds r) t)"
  by (auto simp: rbind_Inr res_simps update_one_Inr)

lemmas execute_Inr =
  execute_insert_Inr execute_update_one_Inr execute_guarded_Inr
  execute_increment_one_Inr execute_increment_many_Inr

section \<open>Well-typed writes\<close>

text \<open>
  A write fits a declared table: the arities agree, every named column is declared, and every
  value is NULL or of the declared kind (so SQLite's column affinity never converts it).
\<close>

fun kind_ok :: "column_kind \<Rightarrow> sql_value \<Rightarrow> bool" where
  "kind_ok KInteger (Integer i) = in_i64 i"
| "kind_ok KText (Text _) = True"
| "kind_ok KBlob (Blob _) = True"
| "kind_ok _ Null = True"
| "kind_ok _ _ = False"

definition values_ok :: "column_def list \<Rightarrow> sql_value list \<Rightarrow> bool" where
  "values_ok cs vs \<longleftrightarrow> list_all2 (\<lambda>c v. kind_ok (col_kind c) v) cs vs"

definition key_ok :: "column_def list \<Rightarrow> key \<Rightarrow> bool" where
  "key_ok cs k \<longleftrightarrow> list_all2 (\<lambda>c v. kind_ok (col_kind c) v \<and> v \<noteq> Null) cs k"

definition assignment_ok :: "column_def list \<Rightarrow> string \<times> sql_value \<Rightarrow> bool" where
  "assignment_ok cs a \<longleftrightarrow> list_ex (\<lambda>c. col_name c = fst a \<and> kind_ok (col_kind c) (snd a)) cs"

definition counter_ok :: "column_def list \<Rightarrow> string \<Rightarrow> bool" where
  "counter_ok cs n \<longleftrightarrow> list_ex (\<lambda>c. col_name c = n \<and> col_kind c = KInteger) cs"

fun write_ok :: "table_def \<Rightarrow> row_write \<Rightarrow> bool" where
  "write_ok tb (Insert k vs) \<longleftrightarrow> key_ok (key_columns tb) k \<and> values_ok (value_columns tb) vs"
| "write_ok tb (Upsert k vs) \<longleftrightarrow> key_ok (key_columns tb) k \<and> values_ok (value_columns tb) vs"
| "write_ok tb (Update k as) \<longleftrightarrow>
     key_ok (key_columns tb) k \<and> as \<noteq> [] \<and> list_all (assignment_ok (value_columns tb)) as"
| "write_ok tb (UpdateOne k as) \<longleftrightarrow>
     key_ok (key_columns tb) k \<and> as \<noteq> [] \<and> list_all (assignment_ok (value_columns tb)) as"
| "write_ok tb (UpdateOneWhenNull k g as) \<longleftrightarrow>
     key_ok (key_columns tb) k \<and> as \<noteq> [] \<and> list_all (assignment_ok (value_columns tb)) as \<and>
     g \<in> col_name ` set (value_columns tb)"
| "write_ok tb (Increment k c d) \<longleftrightarrow>
     key_ok (key_columns tb) k \<and> counter_ok (value_columns tb) c \<and> in_i64 d"
| "write_ok tb (IncrementOne k c d) \<longleftrightarrow>
     key_ok (key_columns tb) k \<and> counter_ok (value_columns tb) c \<and> in_i64 d"
| "write_ok tb (IncrementManyOne k ds) \<longleftrightarrow>
     key_ok (key_columns tb) k \<and> ds \<noteq> [] \<and>
     list_all (\<lambda>(c, d). counter_ok (value_columns tb) c \<and> in_i64 d) ds"
| "write_ok tb (Delete k) \<longleftrightarrow> key_ok (key_columns tb) k"

text \<open>The refusals that blame the projection author rather than the data.\<close>

definition author_error :: "apply_error \<Rightarrow> bool" where
  "author_error e \<longleftrightarrow>
     (case e of ArityMismatch _ _ _ _ \<Rightarrow> True | UnknownColumn _ _ \<Rightarrow> True
      | NoAssignments _ \<Rightarrow> True | _ \<Rightarrow> False)"

lemma key_ok_length: "key_ok cs k \<Longrightarrow> length k = length cs"
  by (auto simp: key_ok_def dest: list_all2_lengthD)

lemma key_ok_not_null: "key_ok cs k \<Longrightarrow> \<not> null_key (bind_values k)"
proof -
  assume "key_ok cs k"
  then have "\<forall>v \<in> set k. v \<noteq> Null"
    unfolding key_ok_def by (induction rule: list_all2_induct) auto
  moreover have "\<And>v. bind_value v = CNull \<Longrightarrow> v = Null"
    by (case_tac v) auto
  ultimately show ?thesis
    by (force simp: null_key_def bind_values_def)
qed

lemma assignments_declared:
  "list_all (assignment_ok cs) as \<Longrightarrow> fst ` set as \<subseteq> col_name ` set cs"
  by (fastforce simp: list_all_iff assignment_ok_def list_ex_iff)

lemma counters_declared:
  "list_all (\<lambda>(c, d). counter_ok cs c \<and> P d) ds \<Longrightarrow> fst ` set ds \<subseteq> col_name ` set cs"
  by (fastforce simp: list_all_iff counter_ok_def list_ex_iff)

lemma counter_declared: "counter_ok cs c \<Longrightarrow> c \<in> col_name ` set cs"
  by (auto simp: counter_ok_def list_ex_iff)

lemma write_ok_no_author_error:
  assumes ok: "write_ok tb w" and err: "execute_write tb w t = Inl e"
  shows "\<not> author_error e"
proof -
  have arity: "\<And>k. key_ok (key_columns tb) k \<Longrightarrow>
      require_arity tb ''key'' (length k) (length (key_columns tb)) = Inr ()"
    by (simp add: res_simps key_ok_length)
  have vals: "\<And>vs. values_ok (value_columns tb) vs \<Longrightarrow>
      require_arity tb ''values'' (length vs) (length (value_columns tb)) = Inr ()"
    by (auto simp: res_simps values_ok_def dest: list_all2_lengthD)
  have one: "\<And>op k g f. update_one tb op k g f t = Inl e \<Longrightarrow> \<not> author_error e"
    by (auto simp: update_one_def require_one_changed_def author_error_def Let_def
        split: prod.splits if_splits)
  have sqlc: "\<And>m. ok_or (SqlConstraint (tbl_name tb)) m = Inl e \<Longrightarrow> \<not> author_error e"
    by (case_tac m) (auto simp: author_error_def)
  have cols: "\<And>as :: assignments. list_all (assignment_ok (value_columns tb)) as \<Longrightarrow>
      require_value_columns tb (map fst as) = Inr ()"
    using assignments_declared by (force simp: res_simps)
  have ctrs: "\<And>ds. list_all (\<lambda>(c, d). counter_ok (value_columns tb) c \<and> in_i64 d) ds \<Longrightarrow>
      require_value_columns tb (map fst ds) = Inr ()"
    using counters_declared by (force simp: res_simps)
  have gcol: "\<And>c. c \<in> col_name ` set (value_columns tb) \<Longrightarrow> require_value_column tb c = Inr ()"
    by (simp add: require_value_column_def)
  then have ctr: "\<And>c. counter_ok (value_columns tb) c \<Longrightarrow> require_value_column tb c = Inr ()"
    using counter_declared by blast
  show ?thesis
    using ok err
    by (cases w)
       (auto simp: arity vals cols ctrs ctr gcol require_assignments_def dest: one sqlc)
qed

end
