(* ===== verification/Project_Store.thy ===== *)
theory Project_Store
  imports Foundation
begin

text \<open>
  The per-project database handle of \<open>crates/pos-store/src/db.rs\<close> and the injected faults of
  \<open>crates/pos-store/src/fault.rs\<close>: one writer, IMMEDIATE transactions that commit or leave the
  content alone, and fail-stop after a lost commit or a panic under the writer lock.

  The content of the database is a type parameter; the log instantiates it. What the disk does at
  the next commit is the field \<open>db_disk\<close>; a crash (\<open>process::abort\<close>) and a panic are error values
  of their own, because neither returns to the caller.
\<close>

section \<open>Fault points and plans\<close>

datatype fault_point =
    CasTempWritten | CasRenamed | WalCommit | LogEventInserted | LogApplied | LogSnapshotWritten

definition fault_point_ALL :: "fault_point list" where
  "fault_point_ALL =
     [CasTempWritten, CasRenamed, WalCommit, LogEventInserted, LogApplied, LogSnapshotWritten]"

fun as_name :: "fault_point \<Rightarrow> string" where
  "as_name CasTempWritten = ''cas-temp-written''"
| "as_name CasRenamed = ''cas-renamed''"
| "as_name WalCommit = ''wal-commit''"
| "as_name LogEventInserted = ''log-event-inserted''"
| "as_name LogApplied = ''log-applied''"
| "as_name LogSnapshotWritten = ''log-snapshot-written''"

definition from_name :: "string \<Rightarrow> fault_point option" where
  "from_name name = find (\<lambda>p. as_name p = name) fault_point_ALL"

datatype fault_action = Abort | FailOperation

record fault_plan =
  fp_point :: fault_point
  fp_action :: fault_action

text \<open>\<open>str::split_once\<close>: the parts around the first occurrence of a character.\<close>

fun split_once :: "char \<Rightarrow> string \<Rightarrow> (string \<times> string) option" where
  "split_once d [] = None"
| "split_once d (c # cs) =
     (if c = d then Some ([], cs)
      else map_option (\<lambda>(a, b). (c # a, b)) (split_once d cs))"

fun action_name :: "fault_action \<Rightarrow> string" where
  "action_name Abort = ''abort''"
| "action_name FailOperation = ''fail''"

definition parse_action :: "string \<Rightarrow> fault_action option" where
  "parse_action s =
     (if s = ''abort'' then Some Abort else if s = ''fail'' then Some FailOperation else None)"

definition parse_fault_plan :: "string \<Rightarrow> fault_plan option" where
  "parse_fault_plan spec =
     (case split_once (CHR '':'') spec of
        None \<Rightarrow> None
      | Some (point, action) \<Rightarrow>
          (case parse_action action of
             None \<Rightarrow> None
           | Some act \<Rightarrow>
               (case from_name point of
                  None \<Rightarrow> None
                | Some p \<Rightarrow> Some \<lparr>fp_point = p, fp_action = act\<rparr>)))"

text \<open>
  The failures of the store that a write transaction can meet. \<open>Aborted\<close> is the death of the
  process; \<open>Sqlite\<close> an error of the engine that is not a durability loss, by its context.
\<close>

datatype store_error =
    Sqlite string
  | DurabilityLost
  | FailStopped
  | InjectedFault fault_point
  | Aborted

fun trip :: "fault_plan option \<Rightarrow> fault_point \<Rightarrow> store_error + unit" where
  "trip None point = Inr ()"
| "trip (Some plan) point =
     (if fp_point plan \<noteq> point then Inr ()
      else case fp_action plan of Abort \<Rightarrow> Inl Aborted | FailOperation \<Rightarrow> Inl (InjectedFault point))"

section \<open>Write transactions\<close>

text \<open>How \<open>transaction.commit()\<close> goes: durable, an I/O-class failure, or lock weather.\<close>

datatype disk = DiskOk | DiskLost | DiskBusy

record 'd project_db =
  db_content :: 'd
  fail_stopped :: bool
  writer_poisoned :: bool
  db_faults :: "fault_plan option"
  db_disk :: disk

definition ensure_live :: "'d project_db \<Rightarrow> store_error + unit" where
  "ensure_live db = (if fail_stopped db then Inl FailStopped else Inr ())"

definition commit_transaction ::
  "'d \<Rightarrow> 'd project_db \<Rightarrow> (store_error + unit) \<times> 'd project_db" where
  "commit_transaction d db =
     (case trip (db_faults db) WalCommit of
        Inl Aborted \<Rightarrow> (Inl Aborted, db)
      | Inl _ \<Rightarrow> (Inl DurabilityLost, db\<lparr>fail_stopped := True\<rparr>)
      | Inr _ \<Rightarrow>
          (case db_disk db of
             DiskOk \<Rightarrow> (Inr (), db\<lparr>db_content := d\<rparr>)
           | DiskLost \<Rightarrow> (Inl DurabilityLost, db\<lparr>fail_stopped := True\<rparr>)
           | DiskBusy \<Rightarrow> (Inl (Sqlite ''commit''), db)))"

text \<open>
  \<open>from_store\<close> is the caller's \<open>From<StoreError>\<close>, \<open>panicked\<close> tells which of the caller's
  errors stand for a panic inside the closure: a panic unwinds through the transaction (which
  rolls back) and poisons the writer mutex.
\<close>

definition write_transaction ::
  "(store_error \<Rightarrow> 'e) \<Rightarrow> ('e \<Rightarrow> bool) \<Rightarrow> ('d \<Rightarrow> 'e + 'a \<times> 'd) \<Rightarrow> 'd project_db
     \<Rightarrow> ('e + 'a) \<times> 'd project_db" where
  "write_transaction from_store panicked operation db =
     (case ensure_live db of
        Inl e \<Rightarrow> (Inl (from_store e), db)
      | Inr _ \<Rightarrow>
          if writer_poisoned db then (Inl (from_store FailStopped), db\<lparr>fail_stopped := True\<rparr>)
          else
            (case operation (db_content db) of
               Inl e \<Rightarrow> (Inl e, if panicked e then db\<lparr>writer_poisoned := True\<rparr> else db)
             | Inr (a, d) \<Rightarrow>
                 (case commit_transaction d db of
                    (Inl e, db') \<Rightarrow> (Inl (from_store e), db')
                  | (Inr _, db') \<Rightarrow> (Inr a, db'))))"

section \<open>Lemmas\<close>

lemma from_name_as_name [simp]: "from_name (as_name p) = Some p"
  by (cases p) (simp_all add: from_name_def fault_point_ALL_def)

lemma split_once_append: "d \<notin> set a \<Longrightarrow> split_once d (a @ d # b) = Some (a, b)"
  by (induction a) auto

lemma colon_notin_as_name: "CHR '':'' \<notin> set (as_name p)"
  by (cases p) simp_all

lemma parse_action_name [simp]: "parse_action (action_name a) = Some a"
  by (cases a) (simp_all add: parse_action_def)

lemma parse_fault_plan_render:
  "parse_fault_plan (as_name (fp_point p) @ CHR '':'' # action_name (fp_action p)) = Some p"
  by (simp add: parse_fault_plan_def split_once_append colon_notin_as_name)

lemma commit_transaction_cases:
  "commit_transaction d db = (r, db') \<Longrightarrow>
     (r = Inr () \<and> db_content db' = d) \<or> ((\<exists>e. r = Inl e) \<and> db_content db' = db_content db)"
  by (cases r; cases "trip (db_faults db) WalCommit")
     (auto simp: commit_transaction_def split: store_error.splits disk.splits)

text \<open>The atom: a transaction that does not return \<open>Ok\<close> leaves the durable content as it was.\<close>

lemma write_transaction_atomic:
  assumes "write_transaction fs pk operation db = (Inl e, db')"
  shows "db_content db' = db_content db"
  using assms
  by (auto simp: write_transaction_def ensure_live_def
      split: if_splits sum.splits prod.splits dest: commit_transaction_cases)

lemma write_transaction_ok:
  assumes "write_transaction fs pk operation db = (Inr a, db')"
  shows "operation (db_content db) = Inr (a, db_content db') \<and> \<not> fail_stopped db \<and>
         \<not> fail_stopped db' \<and> db_faults db' = db_faults db"
  using assms
  by (auto simp: write_transaction_def ensure_live_def commit_transaction_def
      split: if_splits sum.splits prod.splits store_error.splits disk.splits)

lemma write_transaction_runs:
  assumes "operation (db_content db) = Inr (a, d)" "\<not> fail_stopped db" "\<not> writer_poisoned db"
    "db_faults db = None" "db_disk db = DiskOk"
  shows "write_transaction fs pk operation db = (Inr a, db\<lparr>db_content := d\<rparr>)"
  using assms by (simp add: write_transaction_def ensure_live_def commit_transaction_def)

text \<open>Fail-stop is sticky: once declared, no later call runs its operation.\<close>

lemma fail_stop_sticky:
  "fail_stopped db \<Longrightarrow> write_transaction fs pk operation db = (Inl (fs FailStopped), db)"
  by (simp add: write_transaction_def ensure_live_def)

lemma durability_loss_stops:
  assumes "write_transaction fs pk operation db = (Inl (fs DurabilityLost), db')"
    and "\<not> fail_stopped db" and "inj fs" and "\<And>d. operation d \<noteq> Inl (fs DurabilityLost)"
  shows "fail_stopped db'"
  using assms
  by (auto simp: write_transaction_def ensure_live_def commit_transaction_def inj_eq
      split: if_splits sum.splits prod.splits store_error.splits disk.splits)

end
