(* ===== verification/Event_Log.thy ===== *)
theory Event_Log
  imports Store Project_Store "HOL-Library.Char_ord"
begin

text \<open>
  The append-only event log of \<open>crates/pos-log/src/lib.rs\<close> and the projection mechanics of
  \<open>crates/pos-log/src/apply/\<close>: envelope, registry, one-event apply, projection snapshots and the
  append transaction.

  Encoded bytes (event bodies, the \<open>refs\<close> column, snapshot bodies) are values of the type
  parameter \<open>'b\<close>: only \<open>ciborium\<close> writes and reads them, and that crate and \<open>blake3\<close> are the
  fields of the record \<open>externals\<close>. What the log relies on of them is \<open>codec_ok\<close>.
\<close>

section \<open>The envelope\<close>

datatype actor = User id16 | Agent id16 | System id16

fun storage_kind :: "actor \<Rightarrow> i64" where
  "storage_kind (User _) = 0"
| "storage_kind (Agent _) = 1"
| "storage_kind (System _) = 2"

fun storage_id :: "actor \<Rightarrow> id16" where
  "storage_id (User i) = i"
| "storage_id (Agent i) = i"
| "storage_id (System i) = i"

definition actor_from_storage :: "i64 \<Rightarrow> id16 \<Rightarrow> actor option" where
  "actor_from_storage kind i =
     (if kind = 0 then Some (User i) else if kind = 1 then Some (Agent i)
      else if kind = 2 then Some (System i) else None)"

record entity_ref =
  entity :: string
  ref_id :: id16

type_synonym kind_tag = string

record 'b event =
  ev_seq :: event_seq
  ev_device :: id16
  ev_lamport :: u64
  ev_ts_ms :: u64
  ev_actor :: actor
  ev_kind :: kind_tag
  ev_body :: 'b
  ev_refs :: "entity_ref list"

record 'b append_request =
  ar_device :: id16
  ar_actor :: actor
  ar_kind :: kind_tag
  ar_body :: 'b
  ar_refs :: "entity_ref list"

record log_config =
  snapshot_cadence_events :: u64

definition SNAPSHOT_CADENCE_EVENTS_DEFAULT :: u64 where
  "SNAPSHOT_CADENCE_EVENTS_DEFAULT = 10000"

definition SNAPSHOT_KEEP_COUNT :: u64 where
  "SNAPSHOT_KEEP_COUNT = 2"

definition KIND_TAG_LEN_MAX :: nat where
  "KIND_TAG_LEN_MAX = 64"

definition EVENT_REFS_COUNT_MAX :: nat where
  "EVENT_REFS_COUNT_MAX = 64"

definition EVENT_BODY_LEN_MAX :: nat where
  "EVENT_BODY_LEN_MAX = 1048576"

text \<open>
  \<open>DecodeEvent\<close> and \<open>Apply\<close> keep which check refused instead of its formatted text. \<open>Panicked\<close>
  is a failed \<open>assert!\<close> of the log; \<open>Diverged\<close> is the value of a loop cut off by its fuel, which
  \<open>Replay\<close> shows never to be returned.
\<close>

datatype decode_reason =
    NegativeSeq i64 | DeviceLen nat | ActorLen nat | UnknownActorKind i64 | BadRefs
  | NegativeLamport i64

datatype log_error =
    StoreError store_error
  | InvalidKindTag string
  | OversizeBody nat
  | OversizeRefs nat
  | DecodeEvent u64 decode_reason
  | Apply kind_tag u64 apply_error
  | StateAhead u64 u64
  | HeadChanged event_seq event_seq
  | NotYetSupported string string
  | Panicked
  | Diverged

definition log_panicked :: "log_error \<Rightarrow> bool" where
  "log_panicked e \<longleftrightarrow> e = Panicked"

definition valid_kind_tag :: "string \<Rightarrow> bool" where
  "valid_kind_tag tag \<longleftrightarrow>
     tag \<noteq> [] \<and> length tag \<le> KIND_TAG_LEN_MAX \<and> list_all is_ascii_alphanumeric tag"

definition kind_tag_new :: "string \<Rightarrow> log_error + kind_tag" where
  "kind_tag_new tag = (if valid_kind_tag tag then Inr tag else Inl (InvalidKindTag tag))"

section \<open>What the log takes from other crates\<close>

type_synonym snapshot_body = "(string \<times> sql_value list list) list"

record 'b externals =
  body_len :: "'b \<Rightarrow> nat"
  write_refs :: "entity_ref list \<Rightarrow> 'b"
  read_refs :: "'b \<Rightarrow> entity_ref list option"
  write_snapshot_body :: "snapshot_body \<Rightarrow> 'b"
  read_snapshot_body :: "'b \<Rightarrow> snapshot_body option"
  blake3 :: "bytes \<Rightarrow> digest32"

text \<open>What \<open>ciborium\<close> documents: reading back what was written gives the value written.\<close>

definition codec_ok :: "'b externals \<Rightarrow> bool" where
  "codec_ok x \<longleftrightarrow>
     (\<forall>r. read_refs x (write_refs x r) = Some r) \<and>
     (\<forall>s. read_snapshot_body x (write_snapshot_body x s) = Some s)"

section \<open>The database of a project\<close>

record 'b event_row =
  er_device :: bytes
  er_lamport :: i64
  er_ts_ms :: i64
  er_actor_kind :: i64
  er_actor_id :: bytes
  er_kind :: string
  er_body :: 'b
  er_refs :: 'b

record 'b snapshot_row =
  sr_schema_digest :: bytes
  sr_body :: 'b
  sr_created_ts_ms :: i64

record 'b log_db =
  events :: "(i64 \<times> 'b event_row) list"
  log_devices :: "bytes \<rightharpoonup> i64"
  log_state :: "string \<rightharpoonup> bytes"
  log_snapshots :: "(i64 \<times> 'b snapshot_row) list"
  main_tables :: tables
  temp_tables :: tables

definition empty_log_db :: "'b log_db" where
  "empty_log_db =
     \<lparr>events = [], log_devices = Map.empty, log_state = Map.empty, log_snapshots = [],
      main_tables = Map.empty, temp_tables = Map.empty\<rparr>"

datatype schema_target = Main | Temp

fun schema_tables :: "schema_target \<Rightarrow> 'b log_db \<Rightarrow> tables" where
  "schema_tables Main db = main_tables db"
| "schema_tables Temp db = temp_tables db"

fun set_schema_tables :: "schema_target \<Rightarrow> tables \<Rightarrow> 'b log_db \<Rightarrow> 'b log_db" where
  "set_schema_tables Main ts db = db\<lparr>main_tables := ts\<rparr>"
| "set_schema_tables Temp ts db = db\<lparr>temp_tables := ts\<rparr>"

text \<open>\<open>SELECT COALESCE(MAX(seq), 0) FROM events\<close>, rows being in \<open>seq\<close> order.\<close>

definition max_seq :: "(i64 \<times> 'b) list \<Rightarrow> i64" where
  "max_seq rows = (if rows = [] then 0 else fst (last rows))"

definition read_head :: "'b log_db \<Rightarrow> u64" where
  "read_head db = non_negative (max_seq (events db))"

definition u64_be_bytes :: "u64 \<Rightarrow> bytes" where
  "u64_be_bytes w = nat_be_bytes 8 (unat w)"

definition u64_from_be_bytes :: "bytes \<Rightarrow> u64 option" where
  "u64_from_be_bytes bs =
     (if length bs = 8 then Some (word_of_nat (nat_of_be_bytes bs)) else None)"

definition read_applied_seq :: "'b log_db \<Rightarrow> u64" where
  "read_applied_seq db =
     (case Option.bind (log_state db ''applied_seq'') u64_from_be_bytes of
        None \<Rightarrow> 0 | Some w \<Rightarrow> w)"

definition write_applied_seq :: "event_seq \<Rightarrow> 'b log_db \<Rightarrow> 'b log_db" where
  "write_applied_seq s db =
     db\<lparr>log_state := (log_state db)(''applied_seq'' \<mapsto> u64_be_bytes s)\<rparr>"

definition read_schema_digest :: "'b log_db \<Rightarrow> digest32 option" where
  "read_schema_digest db = Option.bind (log_state db ''schema_digest'') digest_try_from"

definition write_schema_digest :: "digest32 \<Rightarrow> 'b log_db \<Rightarrow> 'b log_db" where
  "write_schema_digest d db =
     db\<lparr>log_state := (log_state db)(''schema_digest'' \<mapsto> digest_bytes d)\<rparr>"

section \<open>Projections and their registry\<close>

record 'b projection =
  pr_table :: table_def
  pr_apply :: "'b event \<Rightarrow> apply_error + row_write list"

type_synonym 'b registry = "'b projection list"

definition PROJECTION_COUNT_MAX :: nat where
  "PROJECTION_COUNT_MAX = 64"

definition starts_with :: "string \<Rightarrow> string \<Rightarrow> bool" where
  "starts_with s p \<longleftrightarrow> take (length p) s = p"

definition declared_columns :: "table_def \<Rightarrow> string list" where
  "declared_columns tb = map col_name (key_columns tb @ value_columns tb)"

definition check_table_shape :: "string \<Rightarrow> table_def \<Rightarrow> log_error + unit" where
  "check_table_shape previous_name tb =
     (if \<not> starts_with (tbl_name tb) ''proj_'' then Inl (Apply [] 0 (Shape (tbl_name tb) ''prefix''))
      else if tbl_name tb = previous_name then Inl (Apply [] 0 (Shape (tbl_name tb) ''twice''))
      else if key_columns tb = [] then Inl (Apply [] 0 (Shape (tbl_name tb) ''no key columns''))
      else if \<not> list_all (\<lambda>ix. list_all (\<lambda>c. c \<in> set (declared_columns tb)) (ix_columns ix))
                (indexes tb)
        then Inl (Apply [] 0 (Shape (tbl_name tb) ''index column''))
      else Inr ())"

fun check_shapes :: "string \<Rightarrow> table_def list \<Rightarrow> log_error + unit" where
  "check_shapes previous_name [] = Inr ()"
| "check_shapes previous_name (tb # tbs) =
     rbind (check_table_shape previous_name tb) (\<lambda>_. check_shapes (tbl_name tb) tbs)"

definition registry_new :: "'b projection list \<Rightarrow> log_error + 'b registry" where
  "registry_new projections =
     (if length projections > PROJECTION_COUNT_MAX then Inl Panicked
      else
        let sorted = sort_key (\<lambda>p. tbl_name (pr_table p)) projections
        in rbind (check_shapes [] (map pr_table sorted)) (\<lambda>_. Inr sorted))"

definition string_bytes :: "string \<Rightarrow> bytes" where
  "string_bytes s = map (\<lambda>c. word_of_nat (of_char c)) s"

definition u32_be_bytes :: "u32 \<Rightarrow> bytes" where
  "u32_be_bytes w = nat_be_bytes 4 (unat w)"

definition table_shape_bytes :: "table_def \<Rightarrow> bytes" where
  "table_shape_bytes tb =
     string_bytes (tbl_name tb) @ u32_be_bytes (tbl_version tb) @
     concat (map (\<lambda>c. string_bytes (col_name c) @ string_bytes (sql_type (col_kind c)))
               (key_columns tb @ value_columns tb)) @
     concat (map (\<lambda>ix. string_bytes (ix_name ix) @ concat (map string_bytes (ix_columns ix)))
               (indexes tb))"

definition schema_digest :: "'b externals \<Rightarrow> 'b registry \<Rightarrow> digest32" where
  "schema_digest x reg = blake3 x (concat (map (\<lambda>p. table_shape_bytes (pr_table p)) reg))"

section \<open>Applying one event\<close>

definition execute_in :: "table_def \<Rightarrow> row_write \<Rightarrow> tables \<Rightarrow> apply_error + tables" where
  "execute_in tb w ts =
     (case ts (tbl_name tb) of
        None \<Rightarrow> Inl (NoSuchTable (tbl_name tb))
      | Some t \<Rightarrow> rbind (execute_write tb w t) (\<lambda>t'. Inr (ts(tbl_name tb \<mapsto> t'))))"

definition apply_projection :: "'b projection \<Rightarrow> 'b event \<Rightarrow> tables \<Rightarrow> log_error + tables" where
  "apply_projection p ev ts =
     rbind (map_err (Apply (ev_kind ev) (ev_seq ev)) (pr_apply p ev)) (\<lambda>writes.
       rfold (\<lambda>w ts. map_err (Apply (ev_kind ev) (ev_seq ev)) (execute_in (pr_table p) w ts))
         writes ts)"

definition apply_to_tables :: "'b registry \<Rightarrow> 'b event \<Rightarrow> tables \<Rightarrow> log_error + tables" where
  "apply_to_tables reg ev ts = rfold (\<lambda>p. apply_projection p ev) reg ts"

definition apply_event_to_schema ::
  "'b registry \<Rightarrow> 'b event \<Rightarrow> schema_target \<Rightarrow> 'b log_db \<Rightarrow> log_error + 'b log_db" where
  "apply_event_to_schema reg ev schema db =
     rbind (apply_to_tables reg ev (schema_tables schema db)) (\<lambda>ts.
       Inr (set_schema_tables schema ts db))"

definition apply_event :: "'b registry \<Rightarrow> 'b event \<Rightarrow> 'b log_db \<Rightarrow> log_error + 'b log_db" where
  "apply_event reg ev db =
     rbind (apply_event_to_schema reg ev Main db) (\<lambda>db. Inr (write_applied_seq (ev_seq ev) db))"

section \<open>Snapshots\<close>

fun cell_to_value :: "sql_cell \<Rightarrow> sql_value option" where
  "cell_to_value CNull = Some Null"
| "cell_to_value (CInteger i) = Some (Integer i)"
| "cell_to_value CReal = None"
| "cell_to_value (CText s) = Some (Text s)"
| "cell_to_value (CBlob b) = Some (Blob b)"

text \<open>The cells of one row of \<open>SELECT *\<close>: key columns, then value columns, in declared order.\<close>

definition row_cells :: "table_def \<Rightarrow> sql_cell list \<times> row \<Rightarrow> sql_cell list" where
  "row_cells tb kr = fst kr @ map (\<lambda>c. snd kr (col_name c)) (value_columns tb)"

definition read_table_snapshot ::
  "tables \<Rightarrow> table_def \<Rightarrow> log_error + (string \<times> sql_value list list)" where
  "read_table_snapshot main tb =
     (case main (tbl_name tb) of
        None \<Rightarrow> Inl (StoreError (Sqlite ''read snapshot rows''))
      | Some t \<Rightarrow>
          rbind (rcollect (\<lambda>kr. rcollect (\<lambda>c.
                   ok_or (Apply ''snapshot'' 0 (Shape (tbl_name tb) ''REAL'')) (cell_to_value c))
                   (row_cells tb kr)) t)
            (\<lambda>rows. Inr (tbl_name tb, rows)))"

text \<open>\<open>DELETE .. NOT IN (SELECT .. ORDER BY snapshot_seq DESC LIMIT keep)\<close>.\<close>

definition prune_snapshots :: "nat \<Rightarrow> (i64 \<times> 'a) list \<Rightarrow> (i64 \<times> 'a) list" where
  "prune_snapshots keep rows =
     filter (\<lambda>(k, _). k \<in> set (take keep (rev (map fst rows)))) rows"

definition write_snapshot ::
  "'b externals \<Rightarrow> 'b registry \<Rightarrow> event_seq \<Rightarrow> u64 \<Rightarrow> u64 \<Rightarrow> 'b log_db \<Rightarrow> log_error + 'b log_db" where
  "write_snapshot x reg snapshot_seq created_ts_ms keep_count db =
     rbind (rcollect (\<lambda>p. read_table_snapshot (main_tables db) (pr_table p)) reg) (\<lambda>tables.
       let row = \<lparr>sr_schema_digest = digest_bytes (schema_digest x reg),
                  sr_body = write_snapshot_body x tables,
                  sr_created_ts_ms = sat_i64 created_ts_ms\<rparr>;
           rows = tbl_put (sat_i64 snapshot_seq) row (log_snapshots db)
       in Inr (db\<lparr>log_snapshots := prune_snapshots (nat (sat_i64 keep_count)) rows\<rparr>))"

definition restore_row :: "table_def \<Rightarrow> sql_value list \<Rightarrow> table \<Rightarrow> log_error + table" where
  "restore_row tb vs t =
     (let n = length (key_columns tb)
      in if length vs \<noteq> n + length (value_columns tb)
         then Inl (Apply ''snapshot'' 0 (Shape (tbl_name tb) ''arity''))
         else ok_or (StoreError (Sqlite ''restore snapshot row''))
                (sql_insert (bind_values (take n vs)) (row_of (value_columns tb) (drop n vs)) t))"

definition restore_table ::
  "table_def \<Rightarrow> string \<times> sql_value list list \<Rightarrow> 'b log_db \<Rightarrow> log_error + 'b log_db" where
  "restore_table tb snapshot db =
     (case main_tables db (tbl_name tb) of
        None \<Rightarrow> Inl (StoreError (Sqlite ''clear projection table''))
      | Some _ \<Rightarrow>
          rbind (rfold (restore_row tb) (snd snapshot) []) (\<lambda>t.
            Inr (db\<lparr>main_tables := (main_tables db)(tbl_name tb \<mapsto> t)\<rparr>)))"

definition latest_snapshot ::
  "digest32 \<Rightarrow> u64 \<Rightarrow> 'b log_db \<Rightarrow> (i64 \<times> 'b snapshot_row) option" where
  "latest_snapshot digest head db =
     find (\<lambda>(s, r). sr_schema_digest r = digest_bytes digest \<and> s \<le> sat_i64 head)
       (rev (log_snapshots db))"

definition restore_latest_snapshot ::
  "'b externals \<Rightarrow> 'b registry \<Rightarrow> u64 \<Rightarrow> 'b log_db \<Rightarrow> log_error + event_seq option \<times> 'b log_db" where
  "restore_latest_snapshot x reg head db =
     (case latest_snapshot (schema_digest x reg) head db of
        None \<Rightarrow> Inr (None, db)
      | Some (s, r) \<Rightarrow>
          (case read_snapshot_body x (sr_body r) of
             None \<Rightarrow> Inr (None, db)
           | Some tables \<Rightarrow>
               if map fst tables \<noteq> map (\<lambda>p. tbl_name (pr_table p)) reg then Inr (None, db)
               else
                 rbind (rfold (\<lambda>(p, snap). restore_table (pr_table p) snap) (zip reg tables) db)
                   (\<lambda>db'. Inr (Some (non_negative s), write_applied_seq (non_negative s) db'))))"

section \<open>Appending\<close>

definition validate_request :: "'b externals \<Rightarrow> 'b append_request \<Rightarrow> log_error + unit" where
  "validate_request x request =
     (if body_len x (ar_body request) > EVENT_BODY_LEN_MAX
        then Inl (OversizeBody (body_len x (ar_body request)))
      else if length (ar_refs request) > EVENT_REFS_COUNT_MAX
        then Inl (OversizeRefs (length (ar_refs request)))
      else Inr ())"

fun validate_requests :: "'b externals \<Rightarrow> 'b append_request list \<Rightarrow> log_error + unit" where
  "validate_requests x [] = Inr ()"
| "validate_requests x (r # rs) = rbind (validate_request x r) (\<lambda>_. validate_requests x rs)"

definition next_device_lamport :: "id16 \<Rightarrow> 'b log_db \<Rightarrow> u64 \<times> 'b log_db" where
  "next_device_lamport device db =
     (let current = (case log_devices db (into_bytes device) of None \<Rightarrow> 0 | Some i \<Rightarrow> i);
          next = saturating_add (non_negative current) 1
      in (next, db\<lparr>log_devices := (log_devices db)(into_bytes device \<mapsto> sat_i64 next)\<rparr>))"

definition event_row_of ::
  "'b externals \<Rightarrow> u64 \<Rightarrow> u64 \<Rightarrow> 'b append_request \<Rightarrow> 'b event_row" where
  "event_row_of x lamport ts_ms request =
     \<lparr>er_device = into_bytes (ar_device request), er_lamport = sat_i64 lamport,
      er_ts_ms = sat_i64 ts_ms, er_actor_kind = storage_kind (ar_actor request),
      er_actor_id = into_bytes (storage_id (ar_actor request)), er_kind = ar_kind request,
      er_body = ar_body request, er_refs = write_refs x (ar_refs request)\<rparr>"

definition insert_event ::
  "'b externals \<Rightarrow> event_seq \<Rightarrow> u64 \<Rightarrow> u64 \<Rightarrow> 'b append_request \<Rightarrow> 'b log_db
     \<Rightarrow> store_error + 'b log_db" where
  "insert_event x seq lamport ts_ms request db =
     (if map_of (events db) (sat_i64 seq) \<noteq> None then Inl (Sqlite ''insert event'')
      else Inr (db\<lparr>events := tbl_put (sat_i64 seq) (event_row_of x lamport ts_ms request) (events db)\<rparr>))"

definition event_of :: "event_seq \<Rightarrow> u64 \<Rightarrow> u64 \<Rightarrow> 'b append_request \<Rightarrow> 'b event" where
  "event_of seq lamport ts_ms request =
     \<lparr>ev_seq = seq, ev_device = ar_device request, ev_lamport = lamport, ev_ts_ms = ts_ms,
      ev_actor = ar_actor request, ev_kind = ar_kind request, ev_body = ar_body request,
      ev_refs = ar_refs request\<rparr>"

definition is_multiple_of :: "u64 \<Rightarrow> u64 \<Rightarrow> bool" where
  "is_multiple_of a b \<longleftrightarrow> (if b = 0 then a = 0 else a mod b = 0)"

text \<open>The body of the append loop: the running head, the seqs pushed so far, the transaction.\<close>

definition append_one ::
  "'b externals \<Rightarrow> 'b registry \<Rightarrow> u64 \<Rightarrow> fault_plan option \<Rightarrow> u64 \<Rightarrow> 'b append_request
     \<Rightarrow> u64 \<times> event_seq list \<times> 'b log_db \<Rightarrow> log_error + u64 \<times> event_seq list \<times> 'b log_db" where
  "append_one x reg cadence faults ts_ms request st =
     (case st of (head, seqs, db) \<Rightarrow>
        let seq = seq_next head;
            (lamport, db1) = next_device_lamport (ar_device request) db
        in
        rbind (map_err StoreError (insert_event x seq lamport ts_ms request db1)) (\<lambda>db2.
        rbind (map_err StoreError (trip faults LogEventInserted)) (\<lambda>_.
        rbind (apply_event reg (event_of seq lamport ts_ms request) db2) (\<lambda>db3.
        rbind (if is_multiple_of seq cadence
               then rbind (write_snapshot x reg seq ts_ms SNAPSHOT_KEEP_COUNT db3) (\<lambda>db4.
                    rbind (map_err StoreError (trip faults LogSnapshotWritten)) (\<lambda>_. Inr db4))
               else Inr db3) (\<lambda>db5.
        Inr (seq, seqs @ [seq], db5))))))"

definition append_transaction ::
  "'b externals \<Rightarrow> 'b registry \<Rightarrow> log_config \<Rightarrow> fault_plan option \<Rightarrow> u64 \<Rightarrow> event_seq option
     \<Rightarrow> 'b append_request list \<Rightarrow> 'b log_db \<Rightarrow> log_error + event_seq list \<times> 'b log_db" where
  "append_transaction x reg cfg faults ts_ms expected_head requests db =
     (let head = read_head db; applied = read_applied_seq db
      in if head \<noteq> applied then Inl Panicked
         else
           rbind (case expected_head of
                    None \<Rightarrow> Inr ()
                  | Some expected \<Rightarrow>
                      if head \<noteq> expected then Inl (HeadChanged expected head) else Inr ()) (\<lambda>_.
           rbind (rfold (append_one x reg (snapshot_cadence_events cfg) faults ts_ms) requests
                    (head, [], db)) (\<lambda>(head', seqs, db').
           rbind (map_err StoreError (trip faults LogApplied)) (\<lambda>_. Inr (seqs, db')))))"

definition append_batch_inner ::
  "'b externals \<Rightarrow> 'b registry \<Rightarrow> log_config \<Rightarrow> u64 \<Rightarrow> event_seq option \<Rightarrow> 'b append_request list
     \<Rightarrow> 'b log_db project_db \<Rightarrow> (log_error + event_seq list) \<times> 'b log_db project_db" where
  "append_batch_inner x reg cfg ts_ms expected_head requests db =
     (if requests = [] then (Inr [], db)
      else case validate_requests x requests of
        Inl e \<Rightarrow> (Inl e, db)
      | Inr _ \<Rightarrow>
          write_transaction StoreError log_panicked
            (append_transaction x reg cfg (db_faults db) ts_ms expected_head requests) db)"

definition append_batch ::
  "'b externals \<Rightarrow> 'b registry \<Rightarrow> log_config \<Rightarrow> u64 \<Rightarrow> 'b append_request list
     \<Rightarrow> 'b log_db project_db \<Rightarrow> (log_error + event_seq list) \<times> 'b log_db project_db" where
  "append_batch x reg cfg ts_ms requests db = append_batch_inner x reg cfg ts_ms None requests db"

definition append_batch_at_head ::
  "'b externals \<Rightarrow> 'b registry \<Rightarrow> log_config \<Rightarrow> u64 \<Rightarrow> event_seq \<Rightarrow> 'b append_request list
     \<Rightarrow> 'b log_db project_db \<Rightarrow> (log_error + event_seq list) \<times> 'b log_db project_db" where
  "append_batch_at_head x reg cfg ts_ms expected_head requests db =
     append_batch_inner x reg cfg ts_ms (Some expected_head) requests db"

text \<open>\<open>ProjectLog::head\<close> and \<open>ProjectLog::event_count\<close>, on the committed content.\<close>

definition log_head :: "'b log_db \<Rightarrow> event_seq" where
  "log_head db = non_negative (max_seq (events db))"

definition event_count :: "'b log_db \<Rightarrow> nat" where
  "event_count db = length (events db)"

section \<open>Decoding stored events\<close>

definition decode_event_row :: "'b externals \<Rightarrow> i64 \<times> 'b event_row \<Rightarrow> log_error + 'b event" where
  "decode_event_row x sr =
     (case sr of (seq, row) \<Rightarrow>
        rbind (ok_or (DecodeEvent 0 (NegativeSeq seq)) (try_u64 seq)) (\<lambda>seq_u64.
        rbind (ok_or (DecodeEvent seq_u64 (DeviceLen (length (er_device row))))
                 (id_try_from (er_device row))) (\<lambda>device.
        rbind (ok_or (DecodeEvent seq_u64 (ActorLen (length (er_actor_id row))))
                 (id_try_from (er_actor_id row))) (\<lambda>actor_id.
        rbind (ok_or (DecodeEvent seq_u64 (UnknownActorKind (er_actor_kind row)))
                 (actor_from_storage (er_actor_kind row) actor_id)) (\<lambda>actor.
        rbind (ok_or (DecodeEvent seq_u64 BadRefs) (read_refs x (er_refs row))) (\<lambda>refs.
        rbind (ok_or (DecodeEvent seq_u64 (NegativeLamport (er_lamport row)))
                 (try_u64 (er_lamport row))) (\<lambda>lamport.
        rbind (kind_tag_new (er_kind row)) (\<lambda>kind.
        Inr \<lparr>ev_seq = seq_u64, ev_device = device, ev_lamport = lamport,
             ev_ts_ms = non_negative (er_ts_ms row), ev_actor = actor, ev_kind = kind,
             ev_body = er_body row, ev_refs = refs\<rparr>))))))))"

definition read_event_rows_after :: "u64 \<Rightarrow> nat \<Rightarrow> 'b log_db \<Rightarrow> (i64 \<times> 'b event_row) list" where
  "read_event_rows_after cursor limit db =
     take limit (filter (\<lambda>(s, _). s > sat_i64 cursor) (events db))"

end
