(* ===== verification/Replay.thy ===== *)
theory Replay
  imports Event_Log
begin

text \<open>
  The replay drivers of \<open>crates/pos-log/src/apply/replay.rs\<close> and the open, rebuild, restore,
  verify and dump operations of \<open>ProjectLog\<close> that call them.

  \<open>replay_range\<close> reads the log in batches of 4,096 rows. The loop is \<open>replay_loop\<close> with as much
  fuel as there are event rows plus one: every round either stops or consumes at least one row.
\<close>

section \<open>Replay\<close>

definition REPLAY_BATCH_EVENT_COUNT :: nat where
  "REPLAY_BATCH_EVENT_COUNT = 4096"

record snapshot_policy =
  cadence_events :: u64
  keep_count :: u64

text \<open>The body of the row loop; the state is the cursor, the replayed count and the transaction.\<close>

definition replay_row ::
  "'b externals \<Rightarrow> 'b registry \<Rightarrow> schema_target \<Rightarrow> snapshot_policy option \<Rightarrow> i64 \<times> 'b event_row
     \<Rightarrow> u64 \<times> u64 \<times> 'b log_db \<Rightarrow> log_error + u64 \<times> u64 \<times> 'b log_db" where
  "replay_row x reg schema policy row st =
     (case st of (cursor, replayed, db) \<Rightarrow>
        rbind (decode_event_row x row) (\<lambda>ev.
        rbind (apply_event_to_schema reg ev schema db) (\<lambda>db1.
        rbind (if schema = Main then
                 let db2 = write_applied_seq (ev_seq ev) db1
                 in case policy of
                      None \<Rightarrow> Inr db2
                    | Some p \<Rightarrow>
                        if is_multiple_of (ev_seq ev) (cadence_events p)
                        then write_snapshot x reg (ev_seq ev) (ev_ts_ms ev) (keep_count p) db2
                        else Inr db2
               else Inr db1) (\<lambda>db3.
        Inr (ev_seq ev, replayed + 1, db3)))))"

fun replay_loop ::
  "nat \<Rightarrow> 'b externals \<Rightarrow> 'b registry \<Rightarrow> schema_target \<Rightarrow> snapshot_policy option \<Rightarrow> u64
     \<Rightarrow> u64 \<times> u64 \<times> 'b log_db \<Rightarrow> log_error + u64 \<times> 'b log_db" where
  "replay_loop fuel x reg schema policy head (cursor, replayed, db) =
     (if cursor < head then
        (case fuel of
           0 \<Rightarrow> Inl Diverged
         | Suc fuel' \<Rightarrow>
             let rows = read_event_rows_after cursor REPLAY_BATCH_EVENT_COUNT db
             in if rows = [] then Inr (replayed, db)
                else rbind (rfold (replay_row x reg schema policy) rows (cursor, replayed, db))
                       (replay_loop fuel' x reg schema policy head))
      else Inr (replayed, db))"

declare replay_loop.simps [simp del]

definition replay_range ::
  "'b externals \<Rightarrow> 'b registry \<Rightarrow> u64 \<Rightarrow> u64 \<Rightarrow> schema_target \<Rightarrow> snapshot_policy option \<Rightarrow> 'b log_db
     \<Rightarrow> log_error + u64 \<times> 'b log_db" where
  "replay_range x reg from_exclusive head schema policy db =
     replay_loop (Suc (length (events db))) x reg schema policy head (from_exclusive, 0, db)"

definition table_names :: "'b registry \<Rightarrow> string list" where
  "table_names reg = map (\<lambda>p. tbl_name (pr_table p)) reg"

text \<open>\<open>CREATE TABLE IF NOT EXISTS\<close> and \<open>DROP TABLE IF EXISTS\<close> for every registered table.\<close>

definition ensure_table :: "string \<Rightarrow> tables \<Rightarrow> tables" where
  "ensure_table n ts = (case ts n of None \<Rightarrow> ts(n \<mapsto> []) | Some _ \<Rightarrow> ts)"

definition ensure_tables :: "'b registry \<Rightarrow> schema_target \<Rightarrow> 'b log_db \<Rightarrow> 'b log_db" where
  "ensure_tables reg schema db =
     set_schema_tables schema (fold ensure_table (table_names reg) (schema_tables schema db)) db"

definition drop_tables :: "'b registry \<Rightarrow> schema_target \<Rightarrow> 'b log_db \<Rightarrow> 'b log_db" where
  "drop_tables reg schema db =
     set_schema_tables schema
       (fold (\<lambda>n ts. ts(n := None)) (table_names reg) (schema_tables schema db)) db"

definition recreate_tables :: "'b registry \<Rightarrow> schema_target \<Rightarrow> 'b log_db \<Rightarrow> 'b log_db" where
  "recreate_tables reg schema db = ensure_tables reg schema (drop_tables reg schema db)"

definition rebuild_in_transaction ::
  "'b externals \<Rightarrow> 'b registry \<Rightarrow> snapshot_policy \<Rightarrow> u64 \<Rightarrow> 'b log_db \<Rightarrow> log_error + unit \<times> 'b log_db" where
  "rebuild_in_transaction x reg policy head db =
     (let db1 = write_applied_seq 0 (recreate_tables reg Main db);
          db2 = db1\<lparr>log_snapshots :=
                  filter (\<lambda>(_, r). sr_schema_digest r = digest_bytes (schema_digest x reg))
                    (log_snapshots db1)\<rparr>
      in rbind (replay_range x reg 0 head Main (Some policy) db2) (\<lambda>(_, db3).
           Inr ((), write_schema_digest (schema_digest x reg) db3)))"

definition open_projections_tx ::
  "'b externals \<Rightarrow> 'b registry \<Rightarrow> snapshot_policy \<Rightarrow> 'b log_db \<Rightarrow> log_error + unit \<times> 'b log_db" where
  "open_projections_tx x reg policy db0 =
     (let db = ensure_tables reg Main db0; head = read_head db
      in if read_schema_digest db \<noteq> Some (schema_digest x reg)
         then rebuild_in_transaction x reg policy head db
         else
           let applied = read_applied_seq db
           in if applied > head then Inl (StateAhead applied head)
              else if applied < head
                then rbind (replay_range x reg applied head Main (Some policy) db)
                       (\<lambda>(_, db'). Inr ((), db'))
              else Inr ((), db))"

definition rebuild_full_tx ::
  "'b externals \<Rightarrow> 'b registry \<Rightarrow> snapshot_policy \<Rightarrow> 'b log_db \<Rightarrow> log_error + unit \<times> 'b log_db" where
  "rebuild_full_tx x reg policy db = rebuild_in_transaction x reg policy (read_head db) db"

definition restore_snapshot_and_tail_tx ::
  "'b externals \<Rightarrow> 'b registry \<Rightarrow> 'b log_db \<Rightarrow> log_error + unit \<times> 'b log_db" where
  "restore_snapshot_and_tail_tx x reg db0 =
     (let db = ensure_tables reg Main db0; head = read_head db;
          db1 = write_applied_seq 0 (recreate_tables reg Main db)
      in rbind (restore_latest_snapshot x reg head db1) (\<lambda>(restored, db2).
         let from = (case restored of None \<Rightarrow> 0 | Some s \<Rightarrow> s)
         in rbind (replay_range x reg from head Main None db2) (\<lambda>(_, db3).
              Inr ((), write_schema_digest (schema_digest x reg) db3))))"

section \<open>Canonical bytes and verification\<close>

definition i64_be_bytes :: "i64 \<Rightarrow> bytes" where
  "i64_be_bytes i = nat_be_bytes 8 (nat (i mod 2 ^ 64))"

definition len_be_bytes :: "nat \<Rightarrow> bytes" where
  "len_be_bytes n = nat_be_bytes 8 (if n < 2 ^ 64 then n else 0)"

fun cell_bytes :: "sql_cell \<Rightarrow> bytes" where
  "cell_bytes CNull = [0]"
| "cell_bytes (CInteger i) = 1 # i64_be_bytes i"
| "cell_bytes CReal = [4]"
| "cell_bytes (CText s) = 2 # len_be_bytes (length s) @ string_bytes s"
| "cell_bytes (CBlob b) = 3 # len_be_bytes (length b) @ b"

definition fold_table_rows :: "table_def \<Rightarrow> table \<Rightarrow> bytes list" where
  "fold_table_rows tb t = map (\<lambda>kr. concat (map cell_bytes (row_cells tb kr))) t"

definition digest_table ::
  "'b externals \<Rightarrow> table_def \<Rightarrow> tables \<Rightarrow> log_error + digest32" where
  "digest_table x tb ts =
     (case ts (tbl_name tb) of
        None \<Rightarrow> Inl (StoreError (Sqlite ''digest projection''))
      | Some t \<Rightarrow> Inr (blake3 x (concat (fold_table_rows tb t))))"

definition dump_projections :: "'b registry \<Rightarrow> 'b log_db \<Rightarrow> log_error + bytes" where
  "dump_projections reg db =
     rbind (rcollect (\<lambda>p.
         case main_tables db (tbl_name (pr_table p)) of
           None \<Rightarrow> Inl (StoreError (Sqlite ''dump projections''))
         | Some t \<Rightarrow> Inr (string_bytes (tbl_name (pr_table p)) @ [10] @
                      concat (map (\<lambda>r. r @ [10]) (fold_table_rows (pr_table p) t)))) reg)
       (\<lambda>parts. Inr (concat parts))"

record table_verify =
  tv_name :: string
  tv_matches :: bool

record verify_report =
  events_replayed :: u64
  applied_seq :: u64
  head_seq :: u64
  tables_verified :: "table_verify list"

definition is_clean :: "verify_report \<Rightarrow> bool" where
  "is_clean r \<longleftrightarrow> applied_seq r = head_seq r \<and> list_all tv_matches (tables_verified r)"

definition mismatched_tables :: "verify_report \<Rightarrow> string list" where
  "mismatched_tables r = map tv_name (filter (\<lambda>t. \<not> tv_matches t) (tables_verified r))"

definition verify_table ::
  "'b externals \<Rightarrow> 'b log_db \<Rightarrow> 'b projection \<Rightarrow> log_error + table_verify" where
  "verify_table x db p =
     rbind (digest_table x (pr_table p) (main_tables db)) (\<lambda>stored.
     rbind (digest_table x (pr_table p) (temp_tables db)) (\<lambda>derived.
     Inr \<lparr>tv_name = tbl_name (pr_table p), tv_matches = (stored = derived)\<rparr>))"

definition verify_against_replay_tx ::
  "'b externals \<Rightarrow> 'b registry \<Rightarrow> 'b log_db \<Rightarrow> log_error + verify_report \<times> 'b log_db" where
  "verify_against_replay_tx x reg db0 =
     (let db = ensure_tables reg Main db0; head = read_head db; applied = read_applied_seq db;
          db1 = recreate_tables reg Temp db
      in rbind (replay_range x reg 0 head Temp None db1) (\<lambda>(replayed, db2).
         rbind (rcollect (verify_table x db2) reg) (\<lambda>tables.
         Inr (\<lparr>events_replayed = replayed, applied_seq = applied, head_seq = head,
               tables_verified = tables\<rparr>, drop_tables reg Temp db2))))"

section \<open>The operations of the open log\<close>

definition log_snapshot_policy :: "log_config \<Rightarrow> snapshot_policy" where
  "log_snapshot_policy cfg =
     \<lparr>cadence_events = snapshot_cadence_events cfg, keep_count = SNAPSHOT_KEEP_COUNT\<rparr>"

definition assert_consistent :: "'b log_db \<Rightarrow> log_error + unit" where
  "assert_consistent db =
     (let head = read_head db; applied = read_applied_seq db
      in if applied > head then Inl (StateAhead applied head)
         else if applied \<noteq> head then Inl Panicked else Inr ())"

text \<open>A store call followed by \<open>assert_consistent\<close> on the committed content.\<close>

definition then_consistent ::
  "(log_error + 'a) \<times> 'b log_db project_db \<Rightarrow> (log_error + 'a) \<times> 'b log_db project_db" where
  "then_consistent r =
     (case r of
        (Inl e, db) \<Rightarrow> (Inl e, db)
      | (Inr a, db) \<Rightarrow> (rbind (assert_consistent (db_content db)) (\<lambda>_. Inr a), db))"

definition open_log ::
  "'b externals \<Rightarrow> 'b registry \<Rightarrow> log_config \<Rightarrow> 'b log_db project_db
     \<Rightarrow> (log_error + unit) \<times> 'b log_db project_db" where
  "open_log x reg cfg db =
     (if snapshot_cadence_events cfg = 0 then (Inl Panicked, db)
      else then_consistent
        (write_transaction StoreError log_panicked
           (open_projections_tx x reg (log_snapshot_policy cfg)) db))"

definition rebuild_projections ::
  "'b externals \<Rightarrow> 'b registry \<Rightarrow> log_config \<Rightarrow> 'b log_db project_db
     \<Rightarrow> (log_error + unit) \<times> 'b log_db project_db" where
  "rebuild_projections x reg cfg db =
     then_consistent
       (write_transaction StoreError log_panicked
          (rebuild_full_tx x reg (log_snapshot_policy cfg)) db)"

definition restore_from_snapshot_and_tail ::
  "'b externals \<Rightarrow> 'b registry \<Rightarrow> 'b log_db project_db
     \<Rightarrow> (log_error + unit) \<times> 'b log_db project_db" where
  "restore_from_snapshot_and_tail x reg db =
     then_consistent
       (write_transaction StoreError log_panicked (restore_snapshot_and_tail_tx x reg) db)"

definition verify_projections ::
  "'b externals \<Rightarrow> 'b registry \<Rightarrow> 'b log_db project_db
     \<Rightarrow> (log_error + verify_report) \<times> 'b log_db project_db" where
  "verify_projections x reg db =
     write_transaction StoreError log_panicked (verify_against_replay_tx x reg) db"

end
