(* ===== verification/Log_Invariants.thy ===== *)
theory Log_Invariants
  imports Replay
begin

text \<open>
  What the log keeps: the shape of projection tables, the snapshot round trip, the equality of
  batched replay with one pass over the log, and the invariant of an open log.
\<close>

section \<open>Tables of a registry\<close>

definition fresh_tables :: "'b registry \<Rightarrow> tables \<Rightarrow> tables" where
  "fresh_tables reg ts = (\<lambda>n. if n \<in> set (table_names reg) then Some [] else ts n)"

definition agree :: "'b registry \<Rightarrow> tables \<Rightarrow> tables \<Rightarrow> bool" where
  "agree reg ts us \<longleftrightarrow> (\<forall>n \<in> set (table_names reg). ts n = us n)"

definition row_shaped :: "table_def \<Rightarrow> row \<Rightarrow> bool" where
  "row_shaped tb r \<longleftrightarrow> (\<forall>c. c \<notin> col_name ` set (value_columns tb) \<longrightarrow> r c = CNull)"

definition table_wf :: "table_def \<Rightarrow> table \<Rightarrow> bool" where
  "table_wf tb t \<longleftrightarrow> tbl_sorted t \<and>
     (\<forall>(k, r) \<in> set t. length k = length (key_columns tb) \<and> \<not> null_key k \<and> row_shaped tb r)"

definition tables_wf :: "'b registry \<Rightarrow> tables \<Rightarrow> bool" where
  "tables_wf reg ts \<longleftrightarrow>
     (\<forall>p \<in> set reg. \<exists>t. ts (tbl_name (pr_table p)) = Some t \<and> table_wf (pr_table p) t)"

lemma set_table_names: "n \<in> set (table_names reg) \<longleftrightarrow> (\<exists>p \<in> set reg. n = tbl_name (pr_table p))"
  by (auto simp: table_names_def)

lemma fold_ensure_table:
  "fold ensure_table ns ts n = (if n \<in> set ns \<and> ts n = None then Some [] else ts n)"
  by (induction ns arbitrary: ts) (auto simp: ensure_table_def split: option.splits)

lemma fold_drop_table: "fold (\<lambda>n ts. ts(n := None)) ns ts n = (if n \<in> set ns then None else ts n)"
  by (induction ns arbitrary: ts) auto

lemma schema_tables_set [simp]: "schema_tables s (set_schema_tables s ts db) = ts"
  by (cases s) auto

lemma set_schema_tables_twice [simp]:
  "set_schema_tables s us (set_schema_tables s ts db) = set_schema_tables s us db"
  by (cases s) auto

lemma recreate_tables_eq:
  "recreate_tables reg s db = set_schema_tables s (fresh_tables reg (schema_tables s db)) db"
proof -
  have "fold ensure_table (table_names reg)
          (fold (\<lambda>n ts. ts(n := None)) (table_names reg) (schema_tables s db)) =
        fresh_tables reg (schema_tables s db)"
    by (auto simp: fun_eq_iff fold_ensure_table fold_drop_table fresh_tables_def)
  then show ?thesis
    by (simp add: recreate_tables_def ensure_tables_def drop_tables_def)
qed

lemma ensure_tables_id:
  assumes "\<forall>n \<in> set (table_names reg). schema_tables s db n \<noteq> None"
  shows "ensure_tables reg s db = db"
proof -
  have "fold ensure_table (table_names reg) (schema_tables s db) = schema_tables s db"
    using assms by (auto simp: fun_eq_iff fold_ensure_table)
  then show ?thesis
    by (cases s) (simp_all add: ensure_tables_def)
qed

lemma execute_in_frame:
  "execute_in tb w ts = Inr ts' \<Longrightarrow> n \<noteq> tbl_name tb \<Longrightarrow> ts' n = ts n"
  by (auto simp: execute_in_def rbind_Inr split: option.splits)

lemma execute_in_agree:
  assumes "execute_in tb w ts = Inr ts'" "agree reg ts us" "tbl_name tb \<in> set (table_names reg)"
  shows "\<exists>us'. execute_in tb w us = Inr us' \<and> agree reg ts' us'"
  using assms by (fastforce simp: execute_in_def rbind_Inr agree_def split: option.splits)

lemma apply_projection_frame:
  assumes "apply_projection p ev ts = Inr ts'" "n \<noteq> tbl_name (pr_table p)"
  shows "ts' n = ts n"
proof -
  obtain ws where "rfold (\<lambda>w ts. map_err (Apply (ev_kind ev) (ev_seq ev))
      (execute_in (pr_table p) w ts)) ws ts = Inr ts'"
    using assms(1) by (auto simp: apply_projection_def rbind_Inr)
  then show ?thesis
    by (rule rfold_invariant [where I = "\<lambda>us. us n = ts n"])
       (use assms(2) execute_in_frame in \<open>fastforce+\<close>)
qed

lemma apply_to_tables_frame:
  assumes "apply_to_tables reg ev ts = Inr ts'" "n \<notin> set (table_names reg)"
  shows "ts' n = ts n"
  using assms(1) unfolding apply_to_tables_def
  by (rule rfold_invariant [where I = "\<lambda>us. us n = ts n"])
     (use assms(2) apply_projection_frame in \<open>fastforce simp: set_table_names\<close>)+

lemma apply_projection_agree:
  assumes "apply_projection p ev ts = Inr ts'" "agree reg ts us" "p \<in> set reg"
  shows "\<exists>us'. apply_projection p ev us = Inr us' \<and> agree reg ts' us'"
proof -
  let ?f = "\<lambda>w ts. map_err (Apply (ev_kind ev) (ev_seq ev)) (execute_in (pr_table p) w ts)"
  obtain ws where ws: "pr_apply p ev = Inr ws" "rfold ?f ws ts = Inr ts'"
    using assms(1) by (auto simp: apply_projection_def rbind_Inr)
  have mem: "tbl_name (pr_table p) \<in> set (table_names reg)"
    using assms(3) by (auto simp: set_table_names)
  have "\<exists>us'. rfold ?f ws us = Inr us' \<and> agree reg ts' us'"
    by (rule rfold_sim [where R = "agree reg", OF ws(2) assms(2)])
       (use execute_in_agree [OF _ _ mem] in \<open>force\<close>)
  with ws(1) show ?thesis
    by (simp add: apply_projection_def)
qed

lemma apply_to_tables_agree:
  assumes "apply_to_tables reg ev ts = Inr ts'" "agree reg ts us"
  shows "\<exists>us'. apply_to_tables reg ev us = Inr us' \<and> agree reg ts' us'"
  using assms unfolding apply_to_tables_def
  by (rule rfold_sim [where R = "agree reg"]) (use apply_projection_agree in blast)

section \<open>Shape of the rows\<close>

lemma assign_row_shaped:
  "row_shaped tb r \<Longrightarrow> fst ` set as \<subseteq> col_name ` set (value_columns tb) \<Longrightarrow>
     row_shaped tb (assign_row as r)"
  unfolding row_shaped_def using assign_row_other by (metis subset_eq)

lemma add_deltas_shaped:
  "row_shaped tb r \<Longrightarrow> fst ` set ds \<subseteq> col_name ` set (value_columns tb) \<Longrightarrow>
     row_shaped tb (add_deltas ds r)"
  unfolding row_shaped_def using add_deltas_other by (metis subset_eq)

lemma row_of_shaped: "row_shaped tb (row_of (value_columns tb) vs)"
proof -
  have "c \<notin> col_name ` set cs \<Longrightarrow> row_of cs vs c = CNull" for c cs
    by (induction cs vs rule: row_of.induct) auto
  then show ?thesis by (simp add: row_shaped_def)
qed

lemma set_tbl_put: "set (tbl_put k r t) \<subseteq> insert (k, r) (set t)"
  by (induction k r t rule: tbl_put.induct) auto

lemma table_wf_put:
  assumes "table_wf tb t" "length k = length (key_columns tb)" "\<not> null_key k" "row_shaped tb r"
  shows "table_wf tb (tbl_put k r t)"
  using assms set_tbl_put [of k r t] by (fastforce simp: table_wf_def)

lemma table_wf_lookup:
  assumes "table_wf tb t" "map_of t k = Some r"
  shows "row_shaped tb r" "\<not> null_key k" "length k = length (key_columns tb)"
  using assms map_of_SomeD [OF assms(2)] by (auto simp: table_wf_def)

lemma length_bind_values [simp]: "length (bind_values k) = length k"
  by (simp add: bind_values_def)

lemma table_wf_update:
  assumes wf: "table_wf tb t" and row: "map_of t k \<noteq> None" and shaped: "row_shaped tb r"
  shows "table_wf tb (tbl_put k r t)"
  using table_wf_put [OF wf _ _ shaped] table_wf_lookup [OF wf] row by blast

lemma row_shaped_upd:
  "row_shaped tb r \<Longrightarrow> c \<in> col_name ` set (value_columns tb) \<Longrightarrow> row_shaped tb (r(c := v))"
  by (auto simp: row_shaped_def)

lemma row_shaped_empty: "row_shaped tb (\<lambda>_. CNull)"
  by (simp add: row_shaped_def)

lemma table_wf_empty [simp]: "table_wf tb []"
  by (simp add: table_wf_def tbl_sorted_def)

lemma table_wf_del: "table_wf tb t \<Longrightarrow> table_wf tb (tbl_del k t)"
  by (auto simp: table_wf_def) (auto simp: tbl_del_def)

lemma execute_write_wf:
  assumes run: "execute_write tb w t = Inr t'" and wf: "table_wf tb t"
  shows "table_wf tb t'"
proof (cases w)
  case (Update k as)
  then have "fst ` set as \<subseteq> col_name ` set (value_columns tb)"
      and "t' = snd (sql_update (bind_values k) (\<lambda>_. True) (assign_row as) t)"
    using run by (auto simp: rbind_Inr res_simps)
  then show ?thesis
    using wf table_wf_lookup(1) [OF wf]
    by (auto simp: sql_update_def split: option.splits intro!: table_wf_update assign_row_shaped)
next
  case (Increment k c d)
  then have c: "c \<in> col_name ` set (value_columns tb)" and k: "length k = length (key_columns tb)"
    using run by (auto simp: rbind_Inr res_simps require_value_column_def split: if_splits)
  have "row_shaped tb (case map_of t (bind_values k) of None \<Rightarrow> (\<lambda>_. CNull)(c := CInteger d)
           | Some r \<Rightarrow> r(c := sql_add (r c) d))"
    using c table_wf_lookup(1) [OF wf]
    by (auto split: option.splits intro!: row_shaped_upd row_shaped_empty)
  with Increment run k wf show ?thesis
    by (auto simp: rbind_Inr res_simps sql_upsert_def split: if_splits intro!: table_wf_put)
next
  case (Delete k)
  with run wf show ?thesis
    by (auto simp: rbind_Inr sql_delete_def intro: table_wf_del)
next
  case (UpdateOne k as)
  then show ?thesis
    using run wf table_wf_lookup(1) [OF wf]
    by (auto simp: execute_update_one_Inr simp del: execute_write.simps
        intro!: table_wf_update assign_row_shaped)
next
  case (UpdateOneWhenNull k g as)
  then show ?thesis
    using run wf table_wf_lookup(1) [OF wf]
    by (auto simp: execute_guarded_Inr simp del: execute_write.simps
        intro!: table_wf_update assign_row_shaped)
next
  case (IncrementOne k c d)
  then show ?thesis
    using run wf table_wf_lookup(1) [OF wf]
    by (auto simp: execute_increment_one_Inr simp del: execute_write.simps
        intro!: table_wf_update row_shaped_upd)
next
  case (IncrementManyOne k ds)
  then show ?thesis
    using run wf table_wf_lookup(1) [OF wf]
    by (auto simp: execute_increment_many_Inr simp del: execute_write.simps
        intro!: table_wf_update add_deltas_shaped)
qed (use run wf in \<open>auto simp: rbind_Inr res_simps sql_insert_def sql_upsert_def
       split: if_splits intro!: table_wf_put row_of_shaped\<close>)

lemma apply_to_tables_wf:
  assumes "apply_to_tables reg ev ts = Inr ts'" and "tables_wf reg ts" and "distinct (table_names reg)"
  shows "tables_wf reg ts'"
proof -
  have one: "tables_wf reg us'"
    if us: "tables_wf reg us" and ex: "execute_in (pr_table p) w us = Inr us'" and p: "p \<in> set reg"
    for us us' p w
  proof -
    have inj: "q = p" if "q \<in> set reg" "tbl_name (pr_table q) = tbl_name (pr_table p)" for q
      using assms(3) p that unfolding table_names_def distinct_map by (auto dest: inj_onD)
    obtain t t' where t: "us (tbl_name (pr_table p)) = Some t" "execute_write (pr_table p) w t = Inr t'"
        and us': "us' = us(tbl_name (pr_table p) \<mapsto> t')"
      using ex by (auto simp: execute_in_def rbind_Inr split: option.splits)
    have "table_wf (pr_table p) t'"
      using t us p execute_write_wf [OF t(2)] by (auto simp: tables_wf_def)
    then show ?thesis
      using us inj us' by (auto simp: tables_wf_def)
  qed
  have proj: "tables_wf reg us'"
    if us: "tables_wf reg us" and ap: "apply_projection p ev us = Inr us'" and p: "p \<in> set reg"
    for us us' p
  proof -
    obtain ws where "rfold (\<lambda>w ts. map_err (Apply (ev_kind ev) (ev_seq ev))
        (execute_in (pr_table p) w ts)) ws us = Inr us'"
      using ap by (auto simp: apply_projection_def rbind_Inr)
    then show ?thesis
      by (rule rfold_invariant [where I = "tables_wf reg"]) (use us p one in \<open>auto\<close>)
  qed
  show ?thesis
    using assms(1) unfolding apply_to_tables_def
    by (rule rfold_invariant [where I = "tables_wf reg"]) (use assms(2) proj in \<open>auto\<close>)
qed

section \<open>The snapshot round trip\<close>

lemma tbl_put_last: "\<forall>x \<in> fst ` set t. x < k \<Longrightarrow> tbl_put k r t = t @ [(k, r)]"
  by (induction k r t rule: tbl_put.induct) auto

lemma bind_cell_to_value: "cell_to_value c = Some v \<Longrightarrow> bind_value v = c"
  by (cases c) auto

lemma rcollect_cells:
  "rcollect (\<lambda>c. ok_or e (cell_to_value c)) cs = Inr vs \<Longrightarrow> bind_values vs = cs"
  by (induction cs arbitrary: vs) (auto simp: rbind_Inr bind_values_def bind_cell_to_value)

lemma row_of_cells:
  assumes "bind_values vs = map (\<lambda>c. r (col_name c)) cs"
  shows "row_of cs vs = (\<lambda>n. if n \<in> col_name ` set cs then r n else CNull)"
  using assms
proof (induction cs arbitrary: vs)
  case (Cons c cs)
  then obtain v vs' where "vs = v # vs'" "bind_value v = r (col_name c)"
      "bind_values vs' = map (\<lambda>c. r (col_name c)) cs"
    by (cases vs) (auto simp: bind_values_def)
  with Cons.IH show ?case by (auto simp: fun_eq_iff)
qed (simp add: bind_values_def)

lemma restore_row_of_snapshot:
  assumes row: "rcollect (\<lambda>c. ok_or e (cell_to_value c)) (row_cells tb (k, r)) = Inr vs"
    and wf: "length k = length (key_columns tb)" "\<not> null_key k" "row_shaped tb r"
    and free: "map_of t k = None"
  shows "restore_row tb vs t = Inr (tbl_put k r t)"
proof -
  let ?n = "length (key_columns tb)"
  have b: "bind_values vs = k @ map (\<lambda>c. r (col_name c)) (value_columns tb)"
    using rcollect_cells [OF row] by (simp add: row_cells_def)
  then have "length vs = ?n + length (value_columns tb)"
    using wf(1) by (metis length_append length_bind_values length_map)
  moreover have "bind_values (take ?n vs) = k"
    using b wf(1) by (simp add: bind_values_def flip: take_map)
  moreover have "bind_values (drop ?n vs) = map (\<lambda>c. r (col_name c)) (value_columns tb)"
    using b wf(1) by (simp add: bind_values_def flip: drop_map)
  then have "row_of (value_columns tb) (drop ?n vs) = r"
    using row_of_cells wf(3) by (fastforce simp: row_shaped_def)
  ultimately show ?thesis
    using wf(2) free by (simp add: restore_row_def sql_insert_def)
qed

lemma restore_rows_of_snapshot:
  assumes "rcollect (\<lambda>kr. rcollect (\<lambda>c. ok_or e (cell_to_value c)) (row_cells tb kr)) t = Inr rows"
    and "table_wf tb t"
  shows "rfold (restore_row tb) rows [] = Inr t"
  using assms
proof (induction t arbitrary: rows rule: rev_induct)
  case (snoc kr t)
  obtain k r where kr: "kr = (k, r)" by (cases kr)
  obtain vss vs where rows: "rows = vss @ [vs]"
      and vss: "rcollect (\<lambda>kr. rcollect (\<lambda>c. ok_or e (cell_to_value c)) (row_cells tb kr)) t = Inr vss"
      and vs: "rcollect (\<lambda>c. ok_or e (cell_to_value c)) (row_cells tb (k, r)) = Inr vs"
    using snoc.prems(1) kr by (auto simp: rcollect_append rbind_Inr)
  have wf: "table_wf tb t" and lt: "\<forall>x \<in> fst ` set t. x < k"
    using snoc.prems(2) kr by (auto simp: table_wf_def tbl_sorted_def sorted_wrt_append)
  have key: "length k = length (key_columns tb)" "\<not> null_key k" "row_shaped tb r"
    using snoc.prems(2) kr by (auto simp: table_wf_def)
  have "map_of t k = None"
    using lt by (metis map_of_eq_None_iff order_less_irrefl)
  then have "restore_row tb vs t = Inr (t @ [(k, r)])"
    using restore_row_of_snapshot [OF vs key] tbl_put_last [OF lt] by simp
  then show ?case
    using snoc.IH [OF vss wf] rows kr by (simp add: rfold_snoc)
qed simp

definition override_tables :: "string set \<Rightarrow> tables \<Rightarrow> tables \<Rightarrow> tables" where
  "override_tables ns ts us = (\<lambda>n. if n \<in> ns then ts n else us n)"

definition snapshot_tables :: "'b registry \<Rightarrow> tables \<Rightarrow> log_error + snapshot_body" where
  "snapshot_tables reg ts = rcollect (\<lambda>p. read_table_snapshot ts (pr_table p)) reg"

lemma restore_table_of_snapshot:
  assumes "read_table_snapshot ts tb = Inr snap"
    and "ts (tbl_name tb) = Some t" "table_wf tb t" "main_tables db (tbl_name tb) \<noteq> None"
  shows "fst snap = tbl_name tb \<and>
         restore_table tb snap db = Inr (db\<lparr>main_tables := (main_tables db)(tbl_name tb \<mapsto> t)\<rparr>)"
  using assms restore_rows_of_snapshot
  by (fastforce simp: read_table_snapshot_def restore_table_def rbind_Inr)

lemma restore_tables_of_snapshot:
  assumes "snapshot_tables reg ts = Inr tabs" "tables_wf reg ts"
    and "\<forall>n \<in> set (table_names reg). main_tables db n \<noteq> None"
  shows "map fst tabs = table_names reg \<and>
         rfold (\<lambda>(p, snap). restore_table (pr_table p) snap) (zip reg tabs) db =
           Inr (db\<lparr>main_tables := override_tables (set (table_names reg)) ts (main_tables db)\<rparr>)"
  using assms
proof (induction reg arbitrary: tabs db)
  case Nil
  then show ?case by (simp add: snapshot_tables_def table_names_def override_tables_def)
next
  case (Cons p reg)
  let ?n = "tbl_name (pr_table p)"
  obtain snap tabs' where tabs: "tabs = snap # tabs'"
      and snap: "read_table_snapshot ts (pr_table p) = Inr snap"
      and rest: "snapshot_tables reg ts = Inr tabs'"
    using Cons.prems(1) by (auto simp: snapshot_tables_def rbind_Inr)
  obtain t where t: "ts ?n = Some t" "table_wf (pr_table p) t"
    using Cons.prems(2) by (auto simp: tables_wf_def)
  let ?db = "db\<lparr>main_tables := (main_tables db)(?n \<mapsto> t)\<rparr>"
  have one: "fst snap = ?n" "restore_table (pr_table p) snap db = Inr ?db"
    using restore_table_of_snapshot [OF snap t] Cons.prems(3) by (auto simp: table_names_def)
  have "tables_wf reg ts" "\<forall>n \<in> set (table_names reg). main_tables ?db n \<noteq> None"
    using Cons.prems(2,3) by (auto simp: tables_wf_def table_names_def)
  then have "map fst tabs' = table_names reg \<and>
         rfold (\<lambda>(p, snap). restore_table (pr_table p) snap) (zip reg tabs') ?db =
           Inr (?db\<lparr>main_tables := override_tables (set (table_names reg)) ts (main_tables ?db)\<rparr>)"
    using Cons.IH [OF rest, of ?db] by blast
  moreover have "override_tables (set (table_names reg)) ts (main_tables ?db) =
      override_tables (set (table_names (p # reg))) ts (main_tables db)"
    using t by (auto simp: fun_eq_iff override_tables_def table_names_def)
  ultimately show ?case
    using one tabs by (simp add: table_names_def)
qed

section \<open>Batched replay is one pass\<close>

definition contiguous :: "(i64 \<times> 'r) list \<Rightarrow> bool" where
  "contiguous rows \<longleftrightarrow> map fst rows = map int [1..<Suc (length rows)]"

lemma contiguous_nth: "contiguous rows \<Longrightarrow> i < length rows \<Longrightarrow> fst (rows ! i) = int (Suc i)"
  unfolding contiguous_def by (metis add_Suc length_map nth_map nth_upt plus_1_eq_Suc
      length_upt diff_Suc_1 One_nat_def less_diff_conv add.commute Suc_less_eq)

lemma contiguous_max_seq: "contiguous rows \<Longrightarrow> max_seq rows = int (length rows)"
  by (cases "rows = []") (auto simp: max_seq_def last_conv_nth contiguous_nth)

lemma contiguous_snoc: "contiguous rows \<Longrightarrow> contiguous (rows @ [(int (Suc (length rows)), r)])"
  by (simp add: contiguous_def)

lemma contiguous_filter:
  assumes "contiguous rows"
  shows "filter (\<lambda>(s, _). s > int c) rows = drop c rows"
  using assms
proof (induction rows rule: rev_induct)
  case (snoc x xs)
  then have xs: "contiguous xs" and x: "fst x = int (Suc (length xs))"
    by (auto simp: contiguous_def)
  then show ?case
    using snoc.IH by (cases x) auto
qed simp

lemma contiguous_map_of_None:
  "contiguous rows \<Longrightarrow> map_of rows s \<noteq> None \<longleftrightarrow> 1 \<le> s \<and> s \<le> int (length rows)"
proof -
  assume c: "contiguous rows"
  have "map_of rows s \<noteq> None \<longleftrightarrow> s \<in> set (map fst rows)"
    by (simp add: map_of_eq_None_iff)
  also have "\<dots> \<longleftrightarrow> 1 \<le> s \<and> s \<le> int (length rows)"
    unfolding c [unfolded contiguous_def] by (auto simp: image_iff intro!: exI [of _ "nat s"])
  finally show ?thesis .
qed

lemma contiguous_keys_le: "contiguous rows \<Longrightarrow> x \<in> fst ` set rows \<Longrightarrow> x \<le> int (length rows)"
  using contiguous_map_of_None [of rows x] by (auto simp: map_of_eq_None_iff)

lemma sat_i64_of_nat:
  assumes "int n \<le> i64_max"
  shows "sat_i64 (word_of_nat n) = int n"
proof -
  have "n < 2 ^ 64"
    using assms by (simp add: i64_max_def)
  then have "uint (word_of_nat n :: u64) = int n"
    by (simp add: uint_nat unat_of_nat)
  with assms show ?thesis by (simp add: sat_i64_def)
qed

lemma unat_word_of_nat_i64: "int n \<le> i64_max \<Longrightarrow> unat (word_of_nat n :: u64) = n"
  by (simp add: unat_of_nat i64_max_def)

lemma decode_event_row_seq: "decode_event_row x (s, row) = Inr ev \<Longrightarrow> try_u64 s = Some (ev_seq ev)"
  by (auto simp: decode_event_row_def rbind_Inr)

lemma replay_row_cursor:
  "replay_row x reg schema policy (s, row) st = Inr (c', r', db') \<Longrightarrow> c' = word_of_int s"
  by (auto simp: replay_row_def rbind_Inr try_u64_def split: prod.splits if_splits
      dest!: decode_event_row_seq)

lemma apply_event_to_schema_events:
  "apply_event_to_schema reg ev schema db = Inr db' \<Longrightarrow>
     events db' = events db \<and> log_devices db' = log_devices db \<and> log_state db' = log_state db \<and>
     log_snapshots db' = log_snapshots db"
  by (cases schema) (auto simp: apply_event_to_schema_def rbind_Inr)

lemma write_snapshot_keeps:
  "write_snapshot x reg s ts keep db = Inr db' \<Longrightarrow> \<exists>rows. db' = db\<lparr>log_snapshots := rows\<rparr>"
  by (auto simp: write_snapshot_def rbind_Inr Let_def)

lemma replay_row_events:
  assumes "replay_row x reg schema policy row (c, r, db) = Inr (c', r', db')"
  shows "events db' = events db \<and> log_devices db' = log_devices db"
  using assms
  by (auto simp: replay_row_def rbind_Inr Let_def write_applied_seq_def
      split: if_splits option.splits
      dest!: apply_event_to_schema_events write_snapshot_keeps)

lemma replay_rows_events:
  assumes "rfold (replay_row x reg schema policy) rows (c, r, db) = Inr (c', r', db')"
  shows "events db' = events db \<and> log_devices db' = log_devices db"
proof -
  have "(\<lambda>(_, _, d). events d = events db \<and> log_devices d = log_devices db) (c', r', db')"
    by (rule rfold_invariant [OF assms]) (auto dest: replay_row_events)
  then show ?thesis by simp
qed

lemma replay_rows_cursor:
  assumes "rfold (replay_row x reg schema policy) rows st = Inr (c', r', db')" "rows \<noteq> []"
  shows "c' = word_of_int (fst (last rows))"
proof -
  obtain ys y where rows: "rows = ys @ [y]"
    using assms(2) by (cases rows rule: rev_cases) auto
  obtain st' where "replay_row x reg schema policy y st' = Inr (c', r', db')"
    using assms(1) unfolding rows rfold_snoc rbind_Inr by blast
  then show ?thesis
    using replay_row_cursor [of x reg schema policy "fst y" "snd y"] by (simp add: rows)
qed

lemma read_rows_drop:
  assumes "contiguous (events db)" "int c \<le> i64_max"
  shows "read_event_rows_after (word_of_nat c) n db = take n (drop c (events db))"
  using assms by (simp add: read_event_rows_after_def sat_i64_of_nat contiguous_filter)

lemma replay_loop_pass:
  assumes "contiguous (events db)" "int (length (events db)) \<le> i64_max" "c \<le> length (events db)"
    and "length (events db) - c < fuel"
  shows "replay_loop fuel x reg schema policy (word_of_nat (length (events db))) (word_of_nat c, r, db) =
     rbind (rfold (replay_row x reg schema policy) (drop c (events db)) (word_of_nat c, r, db))
       (\<lambda>(_, r', db'). Inr (r', db'))"
  using assms
proof (induction fuel arbitrary: c r db)
  case (Suc fuel)
  let ?n = "length (events db)"
  let ?pass = "rfold (replay_row x reg schema policy)"
  have c_le: "int c \<le> i64_max"
    using Suc.prems(2,3) by linarith
  have less: "(word_of_nat c :: u64) < word_of_nat ?n \<longleftrightarrow> c < ?n"
    using Suc.prems(2) c_le by (simp add: word_less_nat_alt unat_word_of_nat_i64)
  show ?case
  proof (cases "c < ?n")
    case False
    then show ?thesis
      using less by (simp add: replay_loop.simps)
  next
    case True
    let ?rows = "take REPLAY_BATCH_EVENT_COUNT (drop c (events db))"
    let ?m = "c + length ?rows"
    have rows: "?rows \<noteq> []"
      using True by (simp add: REPLAY_BATCH_EVENT_COUNT_def)
    have m: "?m \<le> ?n" "c < ?m" "drop ?m (events db) = drop (length ?rows) (drop c (events db))"
      using True by (auto simp: REPLAY_BATCH_EVENT_COUNT_def add.commute)
    have split: "drop c (events db) = ?rows @ drop ?m (events db)"
    proof -
      have "drop (length ?rows) (drop c (events db)) = drop REPLAY_BATCH_EVENT_COUNT (drop c (events db))"
        by (simp add: min_def)
      then show ?thesis
        unfolding m(3) by (metis append_take_drop_id)
    qed
    have last: "fst (last ?rows) = int ?m"
    proof -
      have "last ?rows = events db ! (?m - 1)"
        using rows m True by (simp add: last_conv_nth)
      moreover have "?m - 1 < ?n" "Suc (?m - 1) = ?m"
        using m(1,2) by linarith+
      ultimately show ?thesis
        using contiguous_nth [OF Suc.prems(1), of "?m - 1"] by metis
    qed
    show ?thesis
    proof (cases "?pass ?rows (word_of_nat c, r, db)")
      case (Inl e)
      then show ?thesis
        using less True rows Suc.prems(1) c_le
        by (simp add: replay_loop.simps read_rows_drop split [symmetric])
           (subst split, simp add: rfold_append Inl)
    next
      case (Inr st)
      obtain c' r' db' where st: "st = (c', r', db')" by (cases st)
      have ev: "events db' = events db"
        using replay_rows_events Inr st by blast
      have c': "c' = word_of_nat ?m"
        using replay_rows_cursor [of x reg schema policy ?rows] Inr st rows last by simp
      have "?n - ?m < fuel"
        using Suc.prems(4) m by linarith
      then have IH: "replay_loop fuel x reg schema policy (word_of_nat ?n) (c', r', db') =
          rbind (?pass (drop ?m (events db)) (c', r', db')) (\<lambda>(_, r', db'). Inr (r', db'))"
        using Suc.IH [of db' ?m r'] Suc.prems(1,2) m(1) ev c' by simp
      have "?pass (drop c (events db)) (word_of_nat c, r, db) = ?pass (drop ?m (events db)) (c', r', db')"
        by (subst split) (simp add: rfold_append Inr st)
      then show ?thesis
        using less True rows Suc.prems(1) c_le IH
        by (simp add: replay_loop.simps read_rows_drop Inr st)
    qed
  qed
qed simp

lemma replay_range_pass:
  assumes "contiguous (events db)" "int (length (events db)) \<le> i64_max" "c \<le> length (events db)"
  shows "replay_range x reg (word_of_nat c) (word_of_nat (length (events db))) schema policy db =
     rbind (rfold (replay_row x reg schema policy) (drop c (events db)) (word_of_nat c, 0, db))
       (\<lambda>(_, r', db'). Inr (r', db'))"
  unfolding replay_range_def using assms by (intro replay_loop_pass) auto

section \<open>Replay and the fold of the log\<close>

text \<open>The specification: projections are the fold of \<open>apply_to_tables\<close> over the events.\<close>

definition project :: "'b registry \<Rightarrow> 'b event list \<Rightarrow> tables \<Rightarrow> log_error + tables" where
  "project reg evs ts = rfold (apply_to_tables reg) evs ts"

definition snapshot_valid ::
  "'b externals \<Rightarrow> 'b registry \<Rightarrow> 'b event list \<Rightarrow> tables \<Rightarrow> i64 \<times> 'b snapshot_row \<Rightarrow> bool" where
  "snapshot_valid x reg evs ts0 sr \<longleftrightarrow>
     (sr_schema_digest (snd sr) = digest_bytes (schema_digest x reg) \<longrightarrow>
      (\<exists>m ts tabs. fst sr = int m \<and> m \<le> length evs \<and> project reg (take m evs) ts0 = Inr ts \<and>
         snapshot_tables reg ts = Inr tabs \<and> read_snapshot_body x (sr_body (snd sr)) = Some tabs))"

definition snapshots_valid ::
  "'b externals \<Rightarrow> 'b registry \<Rightarrow> 'b event list \<Rightarrow> tables \<Rightarrow> 'b log_db \<Rightarrow> bool" where
  "snapshots_valid x reg evs ts0 db \<longleftrightarrow> (\<forall>sr \<in> set (log_snapshots db). snapshot_valid x reg evs ts0 sr)"

lemma project_frame:
  assumes "project reg evs ts = Inr ts'" "n \<notin> set (table_names reg)"
  shows "ts' n = ts n"
  using assms(1) unfolding project_def
  by (rule rfold_invariant [where I = "\<lambda>us. us n = ts n"])
     (use assms(2) apply_to_tables_frame in \<open>fastforce+\<close>)

lemma fresh_tables_project:
  "project reg evs ts = Inr ts' \<Longrightarrow> fresh_tables reg ts' = fresh_tables reg ts"
  by (auto simp: fresh_tables_def fun_eq_iff dest: project_frame)

lemma fresh_tables_wf: "tables_wf reg (fresh_tables reg ts)"
  by (auto simp: tables_wf_def fresh_tables_def set_table_names)

lemma project_wf:
  assumes "project reg evs ts = Inr ts'" "tables_wf reg ts" "distinct (table_names reg)"
  shows "tables_wf reg ts'"
  using assms(1) unfolding project_def
  by (rule rfold_invariant [where I = "tables_wf reg"])
     (use assms(2,3) apply_to_tables_wf in blast)+

lemma project_agree:
  assumes "project reg evs ts = Inr ts'" "agree reg ts us"
  shows "\<exists>us'. project reg evs us = Inr us' \<and> agree reg ts' us'"
  using assms unfolding project_def
  by (rule rfold_sim [where R = "agree reg"]) (use apply_to_tables_agree in blast)

lemma project_append: "project reg (evs @ evs') ts = rbind (project reg evs ts) (project reg evs')"
  unfolding project_def rfold_append by (cases "rfold (apply_to_tables reg) evs ts") simp_all

lemma tables_wf_present: "tables_wf reg ts \<Longrightarrow> \<forall>n \<in> set (table_names reg). ts n \<noteq> None"
  by (fastforce simp: tables_wf_def set_table_names)

lemma write_snapshot_rows:
  assumes "write_snapshot x reg s ts keep db = Inr db'" "codec_ok x"
  shows "\<exists>tabs row. snapshot_tables reg (main_tables db) = Inr tabs \<and>
           read_snapshot_body x (sr_body row) = Some tabs \<and>
           set (log_snapshots db') \<subseteq> insert (sat_i64 s, row) (set (log_snapshots db))"
proof -
  obtain tabs where tabs: "snapshot_tables reg (main_tables db) = Inr tabs"
    using assms(1) by (auto simp: write_snapshot_def rbind_Inr snapshot_tables_def)
  let ?row = "\<lparr>sr_schema_digest = digest_bytes (schema_digest x reg),
               sr_body = write_snapshot_body x tabs, sr_created_ts_ms = sat_i64 ts\<rparr>"
  have "log_snapshots db' =
      prune_snapshots (nat (sat_i64 keep)) (tbl_put (sat_i64 s) ?row (log_snapshots db))"
    using assms(1) tabs by (auto simp: write_snapshot_def rbind_Inr snapshot_tables_def Let_def)
  then have "set (log_snapshots db') \<subseteq> insert (sat_i64 s, ?row) (set (log_snapshots db))"
    using set_tbl_put [of "sat_i64 s" ?row "log_snapshots db"] by (auto simp: prune_snapshots_def)
  with tabs assms(2) show ?thesis
    by (intro exI [of _ tabs] exI [of _ ?row]) (simp add: codec_ok_def)
qed

lemma write_snapshot_valid:
  assumes "write_snapshot x reg (word_of_nat m) ts keep db = Inr db'" "codec_ok x"
    and "snapshots_valid x reg evs ts0 db" "m \<le> length evs" "int m \<le> i64_max"
    and "project reg (take m evs) ts0 = Inr (main_tables db)"
  shows "snapshots_valid x reg evs ts0 db'"
  using write_snapshot_rows [OF assms(1,2)] assms(3-6)
  by (fastforce simp: snapshots_valid_def snapshot_valid_def sat_i64_of_nat)

lemma replay_row_Main:
  assumes "replay_row x reg Main policy row (c, r, db) = Inr (c', r', db')"
  obtains ev db1 where "decode_event_row x row = Inr ev"
    "apply_to_tables reg ev (main_tables db) = Inr (main_tables db')"
    "db1 = write_applied_seq (ev_seq ev) (db\<lparr>main_tables := main_tables db'\<rparr>)"
    "db' = db1 \<or> (\<exists>keep ts. write_snapshot x reg (ev_seq ev) ts keep db1 = Inr db')"
    "c' = ev_seq ev" "r' = r + 1"
proof -
  obtain ev ts where ev: "decode_event_row x row = Inr ev"
      and ts: "apply_to_tables reg ev (main_tables db) = Inr ts"
    using assms by (auto simp: replay_row_def rbind_Inr apply_event_to_schema_def)
  let ?db1 = "write_applied_seq (ev_seq ev) (db\<lparr>main_tables := ts\<rparr>)"
  have alt: "db' = ?db1 \<or> (\<exists>keep t. write_snapshot x reg (ev_seq ev) t keep ?db1 = Inr db')"
      and "c' = ev_seq ev" "r' = r + 1"
    using assms ev ts
    by (auto simp: replay_row_def rbind_Inr apply_event_to_schema_def Let_def
        split: option.splits if_splits)
  moreover have "main_tables db' = ts"
    using alt by (auto simp: write_applied_seq_def dest!: write_snapshot_keeps)
  ultimately show thesis
    using that [of ev ?db1] ev ts by simp
qed

text \<open>One step keeps: projections are the fold of the prefix, snapshots are folds of prefixes.\<close>

lemma replay_rows_Main:
  assumes "rfold (replay_row x reg Main policy) rows (c, r, db) = Inr (c', r', db')"
    and "rcollect (decode_event_row x) rows = Inr evs2" "codec_ok x"
    and "project reg evs1 ts0 = Inr (main_tables db)"
    and "snapshots_valid x reg (evs1 @ evs2) ts0 db"
    and "map fst rows = map int [Suc (length evs1)..<Suc (length evs1 + length rows)]"
    and "int (length evs1 + length rows) \<le> i64_max"
    and "read_applied_seq db = word_of_nat (length evs1)"
  shows "project reg (evs1 @ evs2) ts0 = Inr (main_tables db') \<and>
         snapshots_valid x reg (evs1 @ evs2) ts0 db' \<and> temp_tables db' = temp_tables db \<and>
         read_applied_seq db' = word_of_nat (length (evs1 @ evs2)) \<and>
         read_schema_digest db' = read_schema_digest db"
  using assms
proof (induction rows arbitrary: c r db evs1 evs2)
  case Nil
  then show ?case by simp
next
  case (Cons row rows)
  obtain c1 r1 db1 where step: "replay_row x reg Main policy row (c, r, db) = Inr (c1, r1, db1)"
      and rest: "rfold (replay_row x reg Main policy) rows (c1, r1, db1) = Inr (c', r', db')"
    using Cons.prems(1) by (auto simp: rbind_Inr)
  obtain ev evs' where evs2: "evs2 = ev # evs'" and ev: "decode_event_row x row = Inr ev"
      and evs': "rcollect (decode_event_row x) rows = Inr evs'"
    using Cons.prems(2) by (auto simp: rbind_Inr)
  have len: "length evs' = length rows"
    using rcollect_length [OF evs'] by simp
  let ?m = "Suc (length evs1)"
  have fst: "fst row = int ?m"
      "map fst rows = map int [Suc (length (evs1 @ [ev]))..<Suc (length (evs1 @ [ev]) + length rows)]"
    using Cons.prems(6) by (simp_all add: upt_conv_Cons del: upt_Suc)
  have "try_u64 (int ?m) = Some (ev_seq ev)"
    using decode_event_row_seq [of x "fst row" "snd row" ev] ev fst(1) by (metis prod.collapse)
  then have seq: "ev_seq ev = word_of_nat ?m"
    by (simp add: try_u64_def)
  from step obtain db2 where tbl: "apply_to_tables reg ev (main_tables db) = Inr (main_tables db1)"
      and db2: "db2 = write_applied_seq (ev_seq ev) (db\<lparr>main_tables := main_tables db1\<rparr>)"
      and alt: "db1 = db2 \<or> (\<exists>keep ts. write_snapshot x reg (ev_seq ev) ts keep db2 = Inr db1)"
    using ev by (elim replay_row_Main) auto
  have proj: "project reg (evs1 @ [ev]) ts0 = Inr (main_tables db1)"
    using Cons.prems(4) tbl by (simp add: project_append) (simp add: project_def)
  have same: "log_snapshots db2 = log_snapshots db"
    unfolding db2 by (simp add: write_applied_seq_def)
  have snaps: "snapshots_valid x reg (evs1 @ evs2) ts0 db1"
  proof (cases "db1 = db2")
    case True
    then show ?thesis
      using Cons.prems(5) same by (simp add: snapshots_valid_def)
  next
    case False
    then obtain keep ts where "write_snapshot x reg (word_of_nat ?m) ts keep db2 = Inr db1"
      using alt seq by auto
    then show ?thesis
      using Cons.prems(5,7) Cons.prems(3) proj db2 evs2
      by (elim write_snapshot_valid)
         (auto simp: snapshots_valid_def write_applied_seq_def)
  qed
  have state: "read_applied_seq db1 = word_of_nat (length (evs1 @ [ev]))"
      "temp_tables db1 = temp_tables db" "read_schema_digest db1 = read_schema_digest db"
  proof -
    have d2: "log_state db2 = (log_state db)(''applied_seq'' \<mapsto> u64_be_bytes (ev_seq ev))"
        "temp_tables db2 = temp_tables db"
      unfolding db2 by (simp_all add: write_applied_seq_def)
    have d1: "log_state db1 = log_state db2" "temp_tables db1 = temp_tables db2"
      using alt by (auto dest!: write_snapshot_keeps)
    have "u64_from_be_bytes (u64_be_bytes w) = Some w" for w
      using unat_lt2p_num [of w]
      by (simp add: u64_from_be_bytes_def u64_be_bytes_def nat_of_be_bytes_nat_be_bytes)
    then show "read_applied_seq db1 = word_of_nat (length (evs1 @ [ev]))"
        "temp_tables db1 = temp_tables db" "read_schema_digest db1 = read_schema_digest db"
      using d1 d2 seq by (simp_all add: read_applied_seq_def read_schema_digest_def)
  qed
  have "int (length (evs1 @ [ev]) + length rows) \<le> i64_max"
    using Cons.prems(7) by simp
  with Cons.IH [OF rest evs' Cons.prems(3) proj _ fst(2)] snaps state evs2 show ?case
    by simp
qed

end
