(* ===== verification/Log_Safety.thy ===== *)
theory Log_Safety
  imports Log_Invariants
begin

text \<open>
  The invariant of an open project log and its preservation by append, rebuild, restore, verify
  and open: contiguous sequence numbers, per-device Lamport counters, projections equal to the
  fold of the log, snapshots equal to folds of prefixes.
\<close>

section \<open>The invariant\<close>

definition device_count :: "bytes \<Rightarrow> (i64 \<times> 'b event_row) list \<Rightarrow> nat" where
  "device_count d rows = length (filter (\<lambda>sr. er_device (snd sr) = d) rows)"

definition lamports_ok :: "(i64 \<times> 'b event_row) list \<Rightarrow> bool" where
  "lamports_ok rows \<longleftrightarrow>
     (\<forall>i < length rows. er_lamport (snd (rows ! i)) =
        int (device_count (er_device (snd (rows ! i))) (take (Suc i) rows)))"

definition devices_ok :: "'b log_db \<Rightarrow> bool" where
  "devices_ok db \<longleftrightarrow>
     (\<forall>d. log_devices db d =
        (if device_count d (events db) = 0 then None else Some (int (device_count d (events db)))))"

text \<open>The events alone: what every reader and every replay relies on.\<close>

definition log_core :: "'b externals \<Rightarrow> 'b event list \<Rightarrow> 'b log_db \<Rightarrow> bool" where
  "log_core x evs db \<longleftrightarrow>
     contiguous (events db) \<and> int (length (events db)) \<le> i64_max \<and> lamports_ok (events db) \<and>
     devices_ok db \<and> rcollect (decode_event_row x) (events db) = Inr evs"

definition log_inv :: "'b externals \<Rightarrow> 'b registry \<Rightarrow> 'b log_db \<Rightarrow> bool" where
  "log_inv x reg db \<longleftrightarrow>
     (\<exists>evs. log_core x evs db \<and>
        project reg evs (fresh_tables reg (main_tables db)) = Inr (main_tables db) \<and>
        snapshots_valid x reg evs (fresh_tables reg (main_tables db)) db) \<and>
     read_applied_seq db = word_of_nat (length (events db)) \<and>
     read_schema_digest db = Some (schema_digest x reg)"

lemma u64_from_be_bytes_of [simp]: "u64_from_be_bytes (u64_be_bytes w) = Some w"
  using unat_lt2p_num [of w]
  by (simp add: u64_from_be_bytes_def u64_be_bytes_def nat_of_be_bytes_nat_be_bytes)

lemma read_applied_write [simp]: "read_applied_seq (write_applied_seq s db) = s"
  by (simp add: read_applied_seq_def write_applied_seq_def)

lemma read_digest_write [simp]:
  "read_schema_digest (write_schema_digest d db) = Some d"
  "read_applied_seq (write_schema_digest d db) = read_applied_seq db"
  "read_schema_digest (write_applied_seq s db) = read_schema_digest db"
  by (simp_all add: read_schema_digest_def write_schema_digest_def read_applied_seq_def
      write_applied_seq_def)

lemma write_state_fields [simp]:
  "events (write_applied_seq s db) = events db" "events (write_schema_digest d db) = events db"
  "log_devices (write_applied_seq s db) = log_devices db"
  "log_devices (write_schema_digest d db) = log_devices db"
  "main_tables (write_applied_seq s db) = main_tables db"
  "main_tables (write_schema_digest d db) = main_tables db"
  "temp_tables (write_applied_seq s db) = temp_tables db"
  "temp_tables (write_schema_digest d db) = temp_tables db"
  "log_snapshots (write_applied_seq s db) = log_snapshots db"
  "log_snapshots (write_schema_digest d db) = log_snapshots db"
  by (simp_all add: write_applied_seq_def write_schema_digest_def)

lemma log_core_cong:
  "events db' = events db \<Longrightarrow> log_devices db' = log_devices db \<Longrightarrow>
     log_core x evs db' \<longleftrightarrow> log_core x evs db"
  by (simp add: log_core_def devices_ok_def)

lemma log_core_head:
  assumes "log_core x evs db"
  shows "read_head db = word_of_nat (length (events db))" "length evs = length (events db)"
  using assms rcollect_length
  by (auto simp: log_core_def read_head_def contiguous_max_seq non_negative_def try_u64_def)

lemma log_inv_head: "log_inv x reg db \<Longrightarrow> read_head db = read_applied_seq db"
  using log_core_head by (fastforce simp: log_inv_def)

section \<open>One append\<close>

lemma try_u64_int: "try_u64 (int n) = Some (word_of_nat n)"
  by (simp add: try_u64_def)

lemma decode_appended:
  assumes "codec_ok x" "valid_kind_tag (ar_kind request)" "uint ts_ms \<le> i64_max"
    and "int n \<le> i64_max" "int l \<le> i64_max"
  shows "decode_event_row x (int n, event_row_of x (word_of_nat l) ts_ms request) =
         Inr (event_of (word_of_nat n) (word_of_nat l) ts_ms request)"
proof -
  have "actor_from_storage (storage_kind a) (storage_id a) = Some a" for a
    by (cases a) (auto simp: actor_from_storage_def)
  then show ?thesis
    using assms
    by (simp add: decode_event_row_def event_row_of_def event_of_def try_u64_int sat_i64_of_nat
        non_negative_sat_i64 codec_ok_def kind_tag_new_def)
qed

lemma device_count_snoc:
  "device_count d (rows @ [(s, r)]) = device_count d rows + (if er_device r = d then 1 else 0)"
  by (simp add: device_count_def)

lemma device_count_le: "device_count d rows \<le> length rows"
  by (simp add: device_count_def)

lemma lamports_ok_snoc:
  assumes "lamports_ok rows" "er_lamport r = int (Suc (device_count (er_device r) rows))"
  shows "lamports_ok (rows @ [(s, r)])"
  unfolding lamports_ok_def
proof (intro allI impI)
  fix i assume "i < length (rows @ [(s, r)])"
  then consider "i < length rows" | "i = length rows" by fastforce
  then show "er_lamport (snd ((rows @ [(s, r)]) ! i)) =
      int (device_count (er_device (snd ((rows @ [(s, r)]) ! i))) (take (Suc i) (rows @ [(s, r)])))"
  proof cases
    case 1
    then show ?thesis using assms(1) by (simp add: lamports_ok_def nth_append)
  next
    case 2
    then show ?thesis using assms(2) by (simp add: device_count_snoc)
  qed
qed

text \<open>The next sequence number is free exactly while the log is not full.\<close>

lemma insert_event_next:
  assumes "log_core x evs db" "log_devices db' = dv" "events db' = events db"
    and "insert_event x (seq_next (word_of_nat (length (events db)))) l ts request db' = Inr db2"
  shows "int (Suc (length (events db))) \<le> i64_max"
    and "seq_next (word_of_nat (length (events db))) = word_of_nat (Suc (length (events db)))"
    and "db2 = db'\<lparr>events := events db @ [(int (Suc (length (events db))), event_row_of x l ts request)]\<rparr>"
proof -
  let ?n = "length (events db)"
  let ?s = "seq_next (word_of_nat ?n :: u64)"
  have n: "int ?n \<le> i64_max" and c: "contiguous (events db)"
    using assms(1) by (auto simp: log_core_def)
  then have un: "unat (word_of_nat ?n :: u64) = ?n"
    by (simp add: unat_word_of_nat_i64)
  have s: "?s = word_of_nat (Suc ?n)"
    using n un by (simp add: seq_next_def saturating_add_def i64_max_def)
  have "int ?n \<noteq> i64_max"
  proof
    assume full: "int ?n = i64_max"
    then have "sat_i64 ?s = int ?n"
      using s n by (simp add: sat_i64_def uint_nat unat_of_nat i64_max_def)
    then show False
      using assms(3,4) contiguous_map_of_None [OF c, of "int ?n"] full
      by (simp add: insert_event_def i64_max_def split: if_splits)
  qed
  with n show lt: "int (Suc ?n) \<le> i64_max" by simp
  show "?s = word_of_nat (Suc ?n)" by (rule s)
  have key: "sat_i64 ?s = int (Suc ?n)"
    using sat_i64_of_nat [OF lt] s by simp
  have "tbl_put (int (Suc ?n)) r (events db) = events db @ [(int (Suc ?n), r)]" for r
    using contiguous_keys_le [OF c] by (intro tbl_put_last) fastforce
  then show "db2 = db'\<lparr>events := events db @ [(int (Suc ?n), event_row_of x l ts request)]\<rparr>"
    using assms(3,4) key by (simp add: insert_event_def split: if_splits)
qed

lemma next_lamport:
  assumes "log_core x evs db" "next_device_lamport device db = (l, db1)"
    and "int (Suc (length (events db))) \<le> i64_max"
  shows "l = word_of_nat (Suc (device_count (into_bytes device) (events db)))"
    and "int (Suc (device_count (into_bytes device) (events db))) \<le> i64_max"
    and "db1 = db\<lparr>log_devices := (log_devices db)(into_bytes device \<mapsto>
            int (Suc (device_count (into_bytes device) (events db))))\<rparr>"
proof -
  let ?c = "device_count (into_bytes device) (events db)"
  show c: "int (Suc ?c) \<le> i64_max"
    using device_count_le [of "into_bytes device" "events db"] assms(3) by linarith
  have "(case log_devices db (into_bytes device) of None \<Rightarrow> 0 | Some i \<Rightarrow> i) = int ?c"
    using assms(1) by (simp add: log_core_def devices_ok_def)
  then have "l = saturating_add (word_of_nat ?c) 1"
      and db1: "db1 = db\<lparr>log_devices := (log_devices db)(into_bytes device \<mapsto> sat_i64 l)\<rparr>"
    using assms(2) by (auto simp: next_device_lamport_def Let_def non_negative_def try_u64_int)
  moreover have "unat (word_of_nat ?c :: u64) = ?c"
    using c by (intro unat_word_of_nat_i64) simp
  ultimately show l: "l = word_of_nat (Suc ?c)"
    using c by (simp add: saturating_add_def i64_max_def)
  show "db1 = db\<lparr>log_devices := (log_devices db)(into_bytes device \<mapsto> int (Suc ?c))\<rparr>"
    using db1 l sat_i64_of_nat [OF c] by simp
qed

lemma apply_event_Inr:
  "apply_event reg ev db = Inr db' \<longleftrightarrow>
     (\<exists>ts. apply_to_tables reg ev (main_tables db) = Inr ts \<and>
           db' = write_applied_seq (ev_seq ev) (db\<lparr>main_tables := ts\<rparr>))"
  by (auto simp: apply_event_def apply_event_to_schema_def rbind_Inr)

lemma append_one_Inr:
  assumes "append_one x reg cadence faults ts request (head, seqs, db) = Inr (h', seqs', db')"
  obtains l db1 db2 tbls db3 where
    "next_device_lamport (ar_device request) db = (l, db1)"
    "insert_event x (seq_next head) l ts request db1 = Inr db2"
    "apply_to_tables reg (event_of (seq_next head) l ts request) (main_tables db2) = Inr tbls"
    "db3 = write_applied_seq (seq_next head) (db2\<lparr>main_tables := tbls\<rparr>)"
    "db' = db3 \<or> write_snapshot x reg (seq_next head) ts SNAPSHOT_KEEP_COUNT db3 = Inr db'"
    "h' = seq_next head" "seqs' = seqs @ [seq_next head]"
proof -
  obtain l db1 where l: "next_device_lamport (ar_device request) db = (l, db1)"
    by fastforce
  obtain db2 db3 where db2: "insert_event x (seq_next head) l ts request db1 = Inr db2"
      and ap: "apply_event reg (event_of (seq_next head) l ts request) db2 = Inr db3"
      and alt: "db' = db3 \<or> write_snapshot x reg (seq_next head) ts SNAPSHOT_KEEP_COUNT db3 = Inr db'"
      and h: "h' = seq_next head" "seqs' = seqs @ [seq_next head]"
    using assms l by (auto simp: append_one_def rbind_Inr Let_def split: if_splits)
  obtain tbls where
      "apply_to_tables reg (event_of (seq_next head) l ts request) (main_tables db2) = Inr tbls"
      "db3 = write_applied_seq (seq_next head) (db2\<lparr>main_tables := tbls\<rparr>)"
    using ap by (auto simp: apply_event_Inr event_of_def)
  then show thesis
    using that l db2 alt h by blast
qed

lemma snapshot_valid_mono:
  assumes "snapshot_valid x reg evs ts0 sr"
  shows "snapshot_valid x reg (evs @ evs') ts0 sr"
  using assms unfolding snapshot_valid_def
  by (metis (no_types, opaque_lifting) le_trans length_append le_add1 take_append diff_is_0_eq
      take_0 append_Nil2)

lemma append_one_inv:
  assumes inv: "log_inv x reg db" and codec: "codec_ok x"
    and req: "valid_kind_tag (ar_kind request)" "uint ts \<le> i64_max"
    and run: "append_one x reg cadence faults ts request (read_head db, seqs, db) = Inr (h', seqs', db')"
  shows "log_inv x reg db' \<and> h' = read_head db' \<and>
         h' = word_of_nat (Suc (length (events db))) \<and> seqs' = seqs @ [h'] \<and>
         events db' = events db @ [(int (Suc (length (events db))),
            event_row_of x (word_of_nat (Suc (device_count (into_bytes (ar_device request)) (events db))))
              ts request)]"
proof -
  let ?n = "length (events db)" and ?d = "into_bytes (ar_device request)"
  let ?c = "device_count ?d (events db)"
  obtain evs where core: "log_core x evs db"
      and proj: "project reg evs (fresh_tables reg (main_tables db)) = Inr (main_tables db)"
      and snaps: "snapshots_valid x reg evs (fresh_tables reg (main_tables db)) db"
      and dig: "read_schema_digest db = Some (schema_digest x reg)"
    using inv by (auto simp: log_inv_def)
  have head: "read_head db = word_of_nat ?n" and len: "length evs = ?n"
    using log_core_head [OF core] by auto
  from run obtain l db1 db2 tbls db3 where
      l: "next_device_lamport (ar_device request) db = (l, db1)"
      and ins: "insert_event x (seq_next (word_of_nat ?n)) l ts request db1 = Inr db2"
      and ap: "apply_to_tables reg (event_of (seq_next (word_of_nat ?n)) l ts request)
                 (main_tables db2) = Inr tbls"
      and db3: "db3 = write_applied_seq (seq_next (word_of_nat ?n)) (db2\<lparr>main_tables := tbls\<rparr>)"
      and alt: "db' = db3 \<or>
                write_snapshot x reg (seq_next (word_of_nat ?n)) ts SNAPSHOT_KEEP_COUNT db3 = Inr db'"
      and h: "h' = seq_next (word_of_nat ?n)" "seqs' = seqs @ [seq_next (word_of_nat ?n)]"
    unfolding head by (elim append_one_Inr)
  have ev1: "events db1 = events db"
    using l by (auto simp: next_device_lamport_def Let_def)
  note nxt = insert_event_next [OF core refl ev1 ins]
  note lam = next_lamport [OF core l nxt(1)]
  let ?row = "event_row_of x (word_of_nat (Suc ?c)) ts request"
  let ?ev = "event_of (word_of_nat (Suc ?n)) (word_of_nat (Suc ?c)) ts request"
  have db2: "events db2 = events db @ [(int (Suc ?n), ?row)]"
      "log_devices db2 = (log_devices db)(?d \<mapsto> int (Suc ?c))" "main_tables db2 = main_tables db"
      "log_snapshots db2 = log_snapshots db" "read_schema_digest db2 = read_schema_digest db"
    using nxt(3) lam(1,3) by (simp_all add: read_schema_digest_def)
  have db': "events db' = events db2" "log_devices db' = log_devices db2" "main_tables db' = tbls"
      "log_state db' = log_state db3"
    using alt db3 by (auto dest!: write_snapshot_keeps)
  have core': "log_core x (evs @ [?ev]) db'"
  proof -
    have "er_device ?row = ?d" "er_lamport ?row = int (Suc ?c)"
      using sat_i64_of_nat [OF lam(2)] by (simp_all add: event_row_of_def)
    moreover have "decode_event_row x (int (Suc ?n), ?row) = Inr ?ev"
      using decode_appended [OF codec req nxt(1) lam(2)] .
    ultimately show ?thesis
      using core db' db2 nxt(1) contiguous_snoc [of "events db" ?row]
        lamports_ok_snoc [of "events db" ?row "int (Suc ?n)"]
      by (auto simp: log_core_def rcollect_append devices_ok_def device_count_snoc)
  qed
  let ?ts0 = "fresh_tables reg (main_tables db)"
  have proj': "project reg (evs @ [?ev]) ?ts0 = Inr (main_tables db')"
    using proj ap db2(3) db'(3) nxt(2) lam(1)
    by (simp add: project_append) (simp add: project_def)
  have ts0: "fresh_tables reg (main_tables db') = ?ts0"
    using fresh_tables_project [OF proj'] by (simp add: fresh_tables_def fun_eq_iff)
  have old: "snapshots_valid x reg (evs @ [?ev]) ?ts0 db3"
    using snaps db3 db2(4) by (auto simp: snapshots_valid_def intro: snapshot_valid_mono)
  have snaps': "snapshots_valid x reg (evs @ [?ev]) ?ts0 db'"
    using alt
  proof
    assume "write_snapshot x reg (seq_next (word_of_nat ?n)) ts SNAPSHOT_KEEP_COUNT db3 = Inr db'"
    then show ?thesis
      unfolding nxt(2)
      by (rule write_snapshot_valid [OF _ codec old])
         (use proj' db3 db'(3) len nxt(1) in \<open>auto\<close>)
  qed (use old in simp)
  have "read_applied_seq db' = read_applied_seq db3" "read_schema_digest db' = read_schema_digest db3"
    using db'(4) by (simp_all add: read_applied_seq_def read_schema_digest_def)
  moreover have "read_schema_digest db3 = read_schema_digest db2"
    unfolding db3 by (simp add: read_schema_digest_def write_applied_seq_def)
  moreover have "read_applied_seq db3 = word_of_nat (Suc ?n)"
    unfolding db3 nxt(2) by simp
  ultimately have "log_inv x reg db'"
    unfolding log_inv_def ts0 using core' proj' snaps' db'(1) db2(1,5) dig by auto
  then show ?thesis
    using h nxt(2) db' db2 log_core_head [OF core'] by simp
qed

section \<open>Batches\<close>

definition requests_ok :: "'b append_request list \<Rightarrow> bool" where
  "requests_ok requests \<longleftrightarrow> list_all (\<lambda>r. valid_kind_tag (ar_kind r)) requests"

lemma append_loop_inv:
  assumes "rfold (append_one x reg cadence faults ts) requests (read_head db, seqs, db) =
      Inr (h', seqs', db')"
    and "log_inv x reg db" "codec_ok x" "requests_ok requests" "uint ts \<le> i64_max"
  shows "log_inv x reg db' \<and>
     (\<exists>rows. events db' = events db @ rows \<and> length rows = length requests) \<and>
     seqs' = seqs @ map word_of_nat
       [Suc (length (events db))..<Suc (length (events db) + length requests)]"
  using assms
proof (induction requests arbitrary: db seqs)
  case (Cons request requests)
  obtain h1 seqs1 db1 where one:
      "append_one x reg cadence faults ts request (read_head db, seqs, db) = Inr (h1, seqs1, db1)"
      and rest: "rfold (append_one x reg cadence faults ts) requests (h1, seqs1, db1) = Inr (h', seqs', db')"
    using Cons.prems(1) by (auto simp: rbind_Inr)
  have req: "valid_kind_tag (ar_kind request)" "requests_ok requests"
    using Cons.prems(4) by (auto simp: requests_ok_def)
  note step = append_one_inv [OF Cons.prems(2,3) req(1) Cons.prems(5) one]
  have "log_inv x reg db' \<and>
     (\<exists>rows. events db' = events db1 @ rows \<and> length rows = length requests) \<and>
     seqs' = seqs1 @ map word_of_nat
       [Suc (length (events db1))..<Suc (length (events db1) + length requests)]"
    using Cons.IH [of db1 seqs1] rest step Cons.prems(3,5) req(2) by auto
  then show ?case
    using step by (auto simp: upt_conv_Cons simp del: upt_Suc)
qed auto

lemma append_transaction_inv:
  assumes "append_transaction x reg cfg faults ts expected requests db = Inr (seqs, db')"
    and "log_inv x reg db" "codec_ok x" "requests_ok requests" "uint ts \<le> i64_max"
  shows "log_inv x reg db' \<and>
     (\<exists>rows. events db' = events db @ rows \<and> length rows = length requests) \<and>
     seqs = map word_of_nat [Suc (length (events db))..<Suc (length (events db) + length requests)] \<and>
     (\<forall>h. expected = Some h \<longrightarrow> h = read_head db)"
proof -
  obtain h' where "rfold (append_one x reg (snapshot_cadence_events cfg) faults ts) requests
      (read_head db, [], db) = Inr (h', seqs, db')"
    using assms(1) by (auto simp: append_transaction_def Let_def rbind_Inr split: if_splits)
  moreover have "\<forall>h. expected = Some h \<longrightarrow> h = read_head db"
    using assms(1) by (auto simp: append_transaction_def Let_def split: if_splits)
  ultimately show ?thesis
    using append_loop_inv [OF _ assms(2-5)] by (metis append_Nil)
qed

section \<open>Replay without snapshot writing\<close>

lemma replay_rows_None:
  assumes "rcollect (decode_event_row x) rows = Inr evs"
    and "project reg evs (schema_tables schema db) = Inr ts"
  shows "\<exists>c' db'. rfold (replay_row x reg schema None) rows (c, r, db) =
            Inr (c', r + word_of_nat (length rows), db') \<and> schema_tables schema db' = ts"
  using assms
proof (induction rows arbitrary: evs c r db)
  case Nil
  then show ?case by (simp add: project_def)
next
  case (Cons row rows)
  obtain ev evs' where evs: "evs = ev # evs'" and ev: "decode_event_row x row = Inr ev"
      and evs': "rcollect (decode_event_row x) rows = Inr evs'"
    using Cons.prems(1) by (auto simp: rbind_Inr)
  obtain us where us: "apply_to_tables reg ev (schema_tables schema db) = Inr us"
      and rest: "project reg evs' us = Inr ts"
    using Cons.prems(2) evs by (auto simp: project_def rbind_Inr)
  let ?db1 = "set_schema_tables schema us db"
  let ?db2 = "if schema = Main then write_applied_seq (ev_seq ev) ?db1 else ?db1"
  have step: "replay_row x reg schema None row (c, r, db) = Inr (ev_seq ev, r + 1, ?db2)"
    using ev us by (simp add: replay_row_def apply_event_to_schema_def Let_def)
  have "schema_tables schema ?db2 = us"
    by (cases schema) simp_all
  then show ?case
    using Cons.IH [OF evs', of ?db2 "ev_seq ev" "r + 1"] rest step
    by (simp add: algebra_simps)
qed

lemma replay_rows_Temp_frame:
  assumes "rfold (replay_row x reg Temp None) rows (c, r, db) = Inr (c', r', db')"
  shows "db' = db\<lparr>temp_tables := temp_tables db'\<rparr>"
proof -
  have "(\<lambda>(_, _, d). \<exists>t. d = db\<lparr>temp_tables := t\<rparr>) (c', r', db')"
    by (rule rfold_invariant [OF assms])
       (auto simp: replay_row_def rbind_Inr apply_event_to_schema_def intro: exI [of _ "temp_tables db"])
  then show ?thesis by auto
qed

lemma replay_rows_None_snapshots:
  assumes "rfold (replay_row x reg Main None) rows (c, r, db) = Inr (c', r', db')"
  shows "log_snapshots db' = log_snapshots db"
proof -
  have "(\<lambda>(_, _, d). log_snapshots d = log_snapshots db) (c', r', db')"
    by (rule rfold_invariant [OF assms])
       (auto simp: replay_row_def rbind_Inr apply_event_to_schema_def Let_def)
  then show ?thesis by simp
qed

section \<open>Rebuild, restore, verify\<close>

lemma rows_fst_from:
  assumes "contiguous rows" "m \<le> length rows"
  shows "map fst (drop m rows) = map int [Suc m..<Suc (m + length (drop m rows))]"
  using assms by (simp add: contiguous_def drop_upt flip: drop_map del: upt_Suc) (simp add: drop_map drop_upt del: upt_Suc)

lemma fresh_tables_idem [simp]: "fresh_tables reg (fresh_tables reg ts) = fresh_tables reg ts"
  by (auto simp: fresh_tables_def)

text \<open>
  A pass over the tail of a sound log from the fold of its prefix restores the invariant.
\<close>

lemma tail_replay_inv:
  assumes core: "log_core x evs db" and codec: "codec_ok x" and m: "m \<le> length evs"
    and pre: "project reg (take m evs) (fresh_tables reg (main_tables db)) = Inr (main_tables db)"
    and snaps: "snapshots_valid x reg evs (fresh_tables reg (main_tables db)) db"
    and applied: "read_applied_seq db = word_of_nat m"
    and run: "replay_range x reg (word_of_nat m) (read_head db) Main policy db = Inr (r, db')"
  shows "log_core x evs db'"
    and "project reg evs (fresh_tables reg (main_tables db)) = Inr (main_tables db')"
    and "snapshots_valid x reg evs (fresh_tables reg (main_tables db)) db'"
    and "read_applied_seq db' = word_of_nat (length (events db'))"
    and "events db' = events db"
    and "read_schema_digest db' = read_schema_digest db"
proof -
  have c: "contiguous (events db)" "int (length (events db)) \<le> i64_max"
      and dec: "rcollect (decode_event_row x) (events db) = Inr evs"
    using core by (auto simp: log_core_def)
  have len: "length evs = length (events db)" and head: "read_head db = word_of_nat (length (events db))"
    using log_core_head [OF core] by auto
  obtain c' where pass: "rfold (replay_row x reg Main policy) (drop m (events db)) (word_of_nat m, 0, db) =
      Inr (c', r, db')"
    using run m len c unfolding head by (auto simp: replay_range_pass rbind_Inr)
  have "map fst (drop m (events db)) = map int
      [Suc (length (take m evs))..<Suc (length (take m evs) + length (drop m (events db)))]"
    using rows_fst_from [OF c(1), of m] m len by simp
  moreover have "int (length (take m evs) + length (drop m (events db))) \<le> i64_max"
    using c m len by simp
  moreover have "read_applied_seq db = word_of_nat (length (take m evs))"
    using applied m by simp
  ultimately have main: "project reg evs (fresh_tables reg (main_tables db)) = Inr (main_tables db') \<and>
      snapshots_valid x reg evs (fresh_tables reg (main_tables db)) db' \<and>
      temp_tables db' = temp_tables db \<and> read_applied_seq db' = word_of_nat (length evs) \<and>
      read_schema_digest db' = read_schema_digest db"
    using replay_rows_Main [OF pass rcollect_drop [OF dec, of m] codec pre] snaps by simp
  have ev: "events db' = events db \<and> log_devices db' = log_devices db"
    using replay_rows_events [OF pass] .
  then show "log_core x evs db'"
    using core log_core_cong by blast
  show "project reg evs (fresh_tables reg (main_tables db)) = Inr (main_tables db')"
      "snapshots_valid x reg evs (fresh_tables reg (main_tables db)) db'"
      "read_applied_seq db' = word_of_nat (length (events db'))"
      "events db' = events db" "read_schema_digest db' = read_schema_digest db"
    using main ev len by auto
qed

lemma rebuild_inv:
  assumes core: "log_core x evs db" and codec: "codec_ok x"
    and snaps: "snapshots_valid x reg evs (fresh_tables reg (main_tables db)) db"
    and run: "rebuild_in_transaction x reg policy (read_head db) db = Inr (u, db')"
  shows "log_inv x reg db' \<and> events db' = events db \<and>
         project reg evs (fresh_tables reg (main_tables db)) = Inr (main_tables db')"
proof -
  let ?d1 = "write_applied_seq 0 (recreate_tables reg Main db)"
  let ?d2 = "?d1\<lparr>log_snapshots :=
      filter (\<lambda>(_, r). sr_schema_digest r = digest_bytes (schema_digest x reg)) (log_snapshots ?d1)\<rparr>"
  obtain r db3 where rep: "replay_range x reg (word_of_nat 0) (read_head ?d2) Main (Some policy) ?d2 =
        Inr (r, db3)"
      and db': "db' = write_schema_digest (schema_digest x reg) db3"
    using run
    by (auto simp: rebuild_in_transaction_def Let_def rbind_Inr read_head_def recreate_tables_eq)
  have core2: "log_core x evs ?d2"
    using core by (simp add: log_core_def devices_ok_def recreate_tables_eq)
  have main2: "main_tables ?d2 = fresh_tables reg (main_tables db)"
    by (simp add: recreate_tables_eq)
  have pre: "project reg (take 0 evs) (fresh_tables reg (main_tables ?d2)) = Inr (main_tables ?d2)"
    unfolding main2 by (simp add: project_def)
  have snaps2: "snapshots_valid x reg evs (fresh_tables reg (main_tables ?d2)) ?d2"
    using snaps by (auto simp: main2 snapshots_valid_def recreate_tables_eq)
  have applied: "read_applied_seq ?d2 = word_of_nat 0"
    by (simp add: read_applied_seq_def write_applied_seq_def)
  note tail = tail_replay_inv [OF core2 codec _ pre snaps2 applied rep, simplified main2 fresh_tables_idem]
  have "fresh_tables reg (main_tables db3) = fresh_tables reg (main_tables db)"
    using fresh_tables_project [OF tail(2)] by simp
  then have "log_inv x reg db'"
    using tail db' log_core_cong [of db' db3] by (auto simp: log_inv_def snapshots_valid_def)
  then show ?thesis
    using tail db' by (simp add: recreate_tables_eq)
qed

lemma log_inv_tables:
  assumes "log_inv x reg db" "distinct (table_names reg)"
  shows "tables_wf reg (main_tables db)" "\<forall>n \<in> set (table_names reg). main_tables db n \<noteq> None"
proof -
  show "tables_wf reg (main_tables db)"
    using assms project_wf fresh_tables_wf by (fastforce simp: log_inv_def)
  then show "\<forall>n \<in> set (table_names reg). main_tables db n \<noteq> None"
    by (rule tables_wf_present)
qed

lemma ensure_tables_inv:
  assumes "log_inv x reg db" "distinct (table_names reg)"
  shows "ensure_tables reg Main db = db"
  using log_inv_tables(2) [OF assms] by (intro ensure_tables_id) simp

lemma latest_snapshot_mem:
  assumes "latest_snapshot d head db = Some (s, row)"
  shows "(s, row) \<in> set (log_snapshots db) \<and> sr_schema_digest row = digest_bytes d"
  using assms by (auto simp: latest_snapshot_def find_Some_iff) (metis length_rev nth_mem set_rev)

text \<open>
  After the tables are recreated, restoring the newest usable snapshot yields the fold of a
  prefix (the empty prefix when no snapshot is usable), and never fails.
\<close>

lemma restore_latest_prefix:
  assumes core: "log_core x evs db" and wf: "distinct (table_names reg)"
    and main: "main_tables db = fresh_tables reg ts0"
    and snaps: "snapshots_valid x reg evs (fresh_tables reg ts0) db"
    and applied: "read_applied_seq db = 0"
  shows "\<exists>restored db2 m. restore_latest_snapshot x reg (read_head db) db = Inr (restored, db2) \<and>
           m \<le> length evs \<and> (case restored of None \<Rightarrow> 0 | Some s \<Rightarrow> s) = word_of_nat m \<and>
           project reg (take m evs) (fresh_tables reg ts0) = Inr (main_tables db2) \<and>
           read_applied_seq db2 = word_of_nat m \<and> events db2 = events db \<and>
           log_devices db2 = log_devices db \<and> log_snapshots db2 = log_snapshots db"
proof (cases "\<exists>s row tabs. latest_snapshot (schema_digest x reg) (read_head db) db = Some (s, row) \<and>
    read_snapshot_body x (sr_body row) = Some tabs \<and> map fst tabs = table_names reg")
  case False
  then have "restore_latest_snapshot x reg (read_head db) db = Inr (None, db)"
    by (auto simp: restore_latest_snapshot_def table_names_def split: option.splits)
  then show ?thesis
    using applied main by (intro exI [of _ None] exI [of _ db] exI [of _ 0]) (simp add: project_def)
next
  case True
  then obtain s row tabs where latest: "latest_snapshot (schema_digest x reg) (read_head db) db = Some (s, row)"
      and body: "read_snapshot_body x (sr_body row) = Some tabs" and names: "map fst tabs = table_names reg"
    by blast
  obtain m ts where m: "s = int m" "m \<le> length evs"
      and ts: "project reg (take m evs) (fresh_tables reg ts0) = Inr ts" "snapshot_tables reg ts = Inr tabs"
    using snaps latest_snapshot_mem [OF latest] body
    by (fastforce simp: snapshots_valid_def snapshot_valid_def)
  have "tables_wf reg ts"
    using project_wf [OF ts(1) fresh_tables_wf wf] .
  moreover have "\<forall>n \<in> set (table_names reg). main_tables db n \<noteq> None"
    using main by (simp add: fresh_tables_def)
  ultimately have "rfold (\<lambda>(p, snap). restore_table (pr_table p) snap) (zip reg tabs) db =
      Inr (db\<lparr>main_tables := override_tables (set (table_names reg)) ts (main_tables db)\<rparr>)"
    using restore_tables_of_snapshot [OF ts(2)] by blast
  moreover have "override_tables (set (table_names reg)) ts (main_tables db) = ts"
    using project_frame [OF ts(1)] main by (auto simp: override_tables_def fun_eq_iff)
  ultimately have "restore_latest_snapshot x reg (read_head db) db =
      Inr (Some (word_of_nat m), write_applied_seq (word_of_nat m) (db\<lparr>main_tables := ts\<rparr>))"
    using latest body names m(1)
    by (simp add: restore_latest_snapshot_def table_names_def non_negative_def try_u64_int)
  then show ?thesis
    using m(2) ts(1)
    by (intro exI [of _ "Some (word_of_nat m)"]
          exI [of _ "write_applied_seq (word_of_nat m) (db\<lparr>main_tables := ts\<rparr>)"] exI [of _ m]) simp
qed

lemma restore_inv:
  assumes inv: "log_inv x reg db" and codec: "codec_ok x" and wf: "distinct (table_names reg)"
  shows "\<exists>db'. restore_snapshot_and_tail_tx x reg db = Inr ((), db') \<and> log_inv x reg db' \<and>
           main_tables db' = main_tables db \<and> events db' = events db"
proof -
  obtain evs where core: "log_core x evs db"
      and proj: "project reg evs (fresh_tables reg (main_tables db)) = Inr (main_tables db)"
      and snaps: "snapshots_valid x reg evs (fresh_tables reg (main_tables db)) db"
    using inv by (auto simp: log_inv_def)
  let ?ts0 = "fresh_tables reg (main_tables db)"
  let ?d1 = "write_applied_seq 0 (recreate_tables reg Main db)"
  have d1: "log_core x evs ?d1" "main_tables ?d1 = ?ts0" "snapshots_valid x reg evs ?ts0 ?d1"
      "read_head ?d1 = read_head db"
    using core snaps
    by (simp_all add: recreate_tables_eq log_core_def devices_ok_def snapshots_valid_def read_head_def)
  obtain restored db2 m where res: "restore_latest_snapshot x reg (read_head db) ?d1 = Inr (restored, db2)"
      and m: "m \<le> length evs" "(case restored of None \<Rightarrow> 0 | Some s \<Rightarrow> s) = word_of_nat m"
      and pre: "project reg (take m evs) ?ts0 = Inr (main_tables db2)"
      and d2: "read_applied_seq db2 = word_of_nat m" "events db2 = events ?d1"
         "log_devices db2 = log_devices ?d1" "log_snapshots db2 = log_snapshots ?d1"
    using restore_latest_prefix [OF d1(1) wf d1(2,3)] d1(4) by auto
  have core2: "log_core x evs db2"
    using d1(1) d2 log_core_cong by blast
  have ts0: "fresh_tables reg (main_tables db2) = ?ts0"
    using fresh_tables_project [OF pre] by simp
  have dec: "rcollect (decode_event_row x) (drop m (events db2)) = Inr (drop m evs)"
      and c2: "contiguous (events db2)" "int (length (events db2)) \<le> i64_max"
    using core2 rcollect_drop by (auto simp: log_core_def)
  have "project reg (drop m evs) (schema_tables Main db2) = Inr (main_tables db)"
    using proj pre project_append [of reg "take m evs" "drop m evs" ?ts0] by simp
  then obtain c' r' db3 where pass: "rfold (replay_row x reg Main None) (drop m (events db2)) (word_of_nat m, 0, db2) =
      Inr (c', r', db3)" and main3: "main_tables db3 = main_tables db"
    using replay_rows_None [OF dec, where c = "word_of_nat m" and r = 0] by (metis schema_tables.simps(1))
  have head: "read_head db = read_head db2" "read_head db2 = word_of_nat (length (events db2))"
    using d1(4) d2(2) log_core_head [OF core2] by (auto simp: read_head_def)
  have run: "replay_range x reg (word_of_nat m) (read_head db2) Main None db2 = Inr (r', db3)"
    using pass m log_core_head [OF core2] c2 head by (simp add: replay_range_pass)
  have snaps2: "snapshots_valid x reg evs (fresh_tables reg (main_tables db2)) db2"
    using snaps d2(4) ts0 by (simp add: snapshots_valid_def recreate_tables_eq)
  note tail = tail_replay_inv [OF core2 codec m(1) _ snaps2 d2(1) run, unfolded ts0, OF pre]
  have "log_inv x reg (write_schema_digest (schema_digest x reg) db3)"
    using tail main3 log_core_cong [of "write_schema_digest (schema_digest x reg) db3" db3]
    by (auto simp: log_inv_def snapshots_valid_def)
  moreover have "restore_snapshot_and_tail_tx x reg db =
      Inr ((), write_schema_digest (schema_digest x reg) db3)"
    using ensure_tables_inv [OF inv wf] res m(2) run head
    by (simp add: restore_snapshot_and_tail_tx_def Let_def)
  ultimately show ?thesis
    using main3 tail(5) d2(2) by (auto simp: recreate_tables_eq)
qed

lemma log_inv_temp: "log_inv x reg db \<Longrightarrow> log_inv x reg (db\<lparr>temp_tables := t\<rparr>)"
  by (simp add: log_inv_def log_core_def devices_ok_def snapshots_valid_def read_applied_seq_def
      read_schema_digest_def)

lemma verify_inv:
  assumes inv: "log_inv x reg db" and wf: "distinct (table_names reg)"
  shows "\<exists>report db'. verify_against_replay_tx x reg db = Inr (report, db') \<and> is_clean report \<and>
           mismatched_tables report = [] \<and>
           events_replayed report = word_of_nat (length (events db)) \<and>
           map tv_name (tables_verified report) = table_names reg \<and>
           log_inv x reg db' \<and> main_tables db' = main_tables db \<and> events db' = events db"
proof -
  obtain evs where core: "log_core x evs db"
      and proj: "project reg evs (fresh_tables reg (main_tables db)) = Inr (main_tables db)"
    using inv by (auto simp: log_inv_def)
  let ?d1 = "recreate_tables reg Temp db"
  have dec: "rcollect (decode_event_row x) (events db) = Inr evs"
      and c: "contiguous (events db)" "int (length (events db)) \<le> i64_max"
    using core by (auto simp: log_core_def)
  have "agree reg (fresh_tables reg (main_tables db)) (temp_tables ?d1)"
    by (simp add: agree_def recreate_tables_eq fresh_tables_def)
  then obtain us where us: "project reg evs (temp_tables ?d1) = Inr us" "agree reg (main_tables db) us"
    using project_agree [OF proj] by blast
  then obtain c' r' db2 where pass: "rfold (replay_row x reg Temp None) (events db) (0, 0, ?d1) = Inr (c', r', db2)"
      and r': "r' = word_of_nat (length (events db))" and temp2: "temp_tables db2 = us"
    using replay_rows_None [OF dec, of reg Temp ?d1 us 0 0] by auto
  have main2: "db2 = db\<lparr>temp_tables := us\<rparr>"
    using replay_rows_Temp_frame [OF pass] temp2 by (simp add: recreate_tables_eq)
  have run: "replay_range x reg 0 (read_head db) Temp None ?d1 = Inr (r', db2)"
    using replay_range_pass [of ?d1 0 x reg Temp None] pass c log_core_head [OF core]
    by (simp add: recreate_tables_eq)
  have "verify_table x db2 p = Inr \<lparr>tv_name = tbl_name (pr_table p), tv_matches = True\<rparr>"
    if "p \<in> set reg" for p
  proof -
    have "tbl_name (pr_table p) \<in> set (table_names reg)"
      using that by (auto simp: set_table_names)
    then have "main_tables db (tbl_name (pr_table p)) = us (tbl_name (pr_table p))"
        "main_tables db (tbl_name (pr_table p)) \<noteq> None"
      using us(2) log_inv_tables(2) [OF inv wf] by (auto simp: agree_def)
    then show ?thesis
      by (auto simp: verify_table_def digest_table_def main2)
  qed
  then have tabs: "rcollect (verify_table x db2) reg =
      Inr (map (\<lambda>p. \<lparr>tv_name = tbl_name (pr_table p), tv_matches = True\<rparr>) reg)"
    by (intro rcollect_all_Inr) simp
  let ?report = "\<lparr>events_replayed = r', applied_seq = read_applied_seq db, head_seq = read_head db,
     tables_verified = map (\<lambda>p. \<lparr>tv_name = tbl_name (pr_table p), tv_matches = True\<rparr>) reg\<rparr>"
  have "verify_against_replay_tx x reg db = Inr (?report, drop_tables reg Temp db2)"
    using ensure_tables_inv [OF inv wf] run tabs
    by (simp add: verify_against_replay_tx_def Let_def)
  moreover have "drop_tables reg Temp db2 = db\<lparr>temp_tables := temp_tables (drop_tables reg Temp db2)\<rparr>"
    by (simp add: drop_tables_def main2)
  moreover have "is_clean ?report" "mismatched_tables ?report = []"
      "map tv_name (tables_verified ?report) = table_names reg"
    using log_inv_head [OF inv]
    by (simp_all add: is_clean_def mismatched_tables_def table_names_def list_all_iff o_def)
  ultimately show ?thesis
    using log_inv_temp [OF inv] r'
    by (intro exI [of _ ?report] exI [of _ "drop_tables reg Temp db2"])
       (metis (no_types, lifting) log_db.select_convs(1,5) log_db.surjective log_db.update_convs(6)
          verify_report.select_convs(1))
qed

section \<open>Opening\<close>

definition fresh_store :: "'b log_db \<Rightarrow> bool" where
  "fresh_store db \<longleftrightarrow> events db = [] \<and> log_devices db = Map.empty \<and> log_snapshots db = [] \<and>
     log_state db = Map.empty"

lemma log_core_fresh: "fresh_store db \<Longrightarrow> log_core x [] db"
  by (simp add: fresh_store_def log_core_def contiguous_def lamports_ok_def devices_ok_def
      device_count_def i64_max_def)

lemma open_inv:
  assumes codec: "codec_ok x" and wf: "distinct (table_names reg)"
    and ok: "fresh_store db \<or> log_inv x reg db"
    and run: "open_projections_tx x reg policy db = Inr (u, db')"
  shows "log_inv x reg db' \<and> events db' = events db"
  using ok
proof
  assume inv: "log_inv x reg db"
  then have "open_projections_tx x reg policy db = Inr ((), db)"
    using ensure_tables_inv [OF inv wf] log_inv_head [OF inv]
    by (simp add: open_projections_tx_def Let_def log_inv_def)
  with inv run show ?thesis by simp
next
  assume fresh: "fresh_store db"
  let ?d = "ensure_tables reg Main db"
  have d: "fresh_store ?d" "events ?d = events db"
    using fresh by (simp_all add: fresh_store_def ensure_tables_def)
  then have "read_schema_digest ?d = None"
    by (simp add: fresh_store_def read_schema_digest_def)
  then have "rebuild_in_transaction x reg policy (read_head ?d) ?d = Inr (u, db')"
    using run by (simp add: open_projections_tx_def Let_def)
  moreover have "snapshots_valid x reg [] (fresh_tables reg (main_tables ?d)) ?d"
    using d by (simp add: fresh_store_def snapshots_valid_def)
  ultimately show ?thesis
    using rebuild_inv [OF log_core_fresh [OF d(1)] codec] d(2) by metis
qed

lemma open_fresh_runs:
  assumes "fresh_store db"
  shows "\<exists>db'. open_projections_tx x reg policy db = Inr ((), db')"
proof -
  let ?d = "ensure_tables reg Main db"
  have d: "events ?d = []" "read_schema_digest ?d = None"
    using assms by (simp_all add: fresh_store_def ensure_tables_def read_schema_digest_def)
  then show ?thesis
    by (simp add: open_projections_tx_def Let_def rebuild_in_transaction_def replay_range_def
        replay_loop.simps read_head_def max_seq_def)
qed

end
