(* ===== verification/Log_Machine.thy ===== *)
theory Log_Machine
  imports Log_Safety
begin

text \<open>
  The open project log as a state machine: \<open>ProjectLog\<close> of \<open>crates/pos-log/src/lib.rs\<close> with the
  operations a process can call on it, a change of the disk's weather or of the armed fault, a
  fail-stop declared by another user of the same database handle, and a restart of the process. The interface \<open>append_only\<close> is what the clients of the log rely on.
\<close>

section \<open>The open log\<close>

record 'b project_log =
  pl_externals :: "'b externals"
  pl_registry :: "'b registry"
  pl_config :: log_config
  pl_store :: "'b log_db project_db"

text \<open>\<open>ProjectLog::append_batch\<close> with an optional expected head, and the maintenance calls.\<close>

inductive log_step :: "'b project_log \<Rightarrow> 'b project_log \<Rightarrow> bool" where
  Append: "append_batch_inner (pl_externals l) (pl_registry l) (pl_config l) ts_ms expected requests
             (pl_store l) = (r, st) \<Longrightarrow> requests_ok requests \<Longrightarrow> uint ts_ms \<le> i64_max \<Longrightarrow>
           log_step l (l\<lparr>pl_store := st\<rparr>)"
| Rebuild: "rebuild_projections (pl_externals l) (pl_registry l) (pl_config l) (pl_store l) = (r, st) \<Longrightarrow>
            log_step l (l\<lparr>pl_store := st\<rparr>)"
| Restore: "restore_from_snapshot_and_tail (pl_externals l) (pl_registry l) (pl_store l) = (r, st) \<Longrightarrow>
            log_step l (l\<lparr>pl_store := st\<rparr>)"
| Verify: "verify_projections (pl_externals l) (pl_registry l) (pl_store l) = (v, st) \<Longrightarrow>
           log_step l (l\<lparr>pl_store := st\<rparr>)"
| Weather: "log_step l (l\<lparr>pl_store := (pl_store l)\<lparr>db_disk := d, db_faults := f\<rparr>\<rparr>)"
| Shared: "fail_stopped (pl_store l) \<longrightarrow> s \<Longrightarrow> writer_poisoned (pl_store l) \<longrightarrow> p \<Longrightarrow>
           log_step l (l\<lparr>pl_store := (pl_store l)\<lparr>fail_stopped := s, writer_poisoned := p\<rparr>\<rparr>)"
| Restart: "open_log (pl_externals l) (pl_registry l) (pl_config l)
              ((pl_store l)\<lparr>fail_stopped := False, writer_poisoned := False, db_faults := f,
                 db_content := (db_content (pl_store l))\<lparr>temp_tables := Map.empty\<rparr>\<rparr>) = (r, st) \<Longrightarrow>
            log_step l (l\<lparr>pl_store := st\<rparr>)"

text \<open>What must hold of the parts a log is opened with, and of its durable content.\<close>

definition log_sound :: "'b project_log \<Rightarrow> bool" where
  "log_sound l \<longleftrightarrow> codec_ok (pl_externals l) \<and> distinct (table_names (pl_registry l)) \<and>
     log_inv (pl_externals l) (pl_registry l) (db_content (pl_store l))"

definition log_events :: "'b project_log \<Rightarrow> (i64 \<times> 'b event_row) list" where
  "log_events l = events (db_content (pl_store l))"

definition log_tables :: "'b project_log \<Rightarrow> tables" where
  "log_tables l = main_tables (db_content (pl_store l))"

inductive log_opened :: "'b project_log \<Rightarrow> bool" where
  Opened: "open_log x reg cfg st0 = (Inr (), st) \<Longrightarrow> fresh_store (db_content st0) \<Longrightarrow>
     registry_new ps = Inr reg \<Longrightarrow> codec_ok x \<Longrightarrow>
     log_opened \<lparr>pl_externals = x, pl_registry = reg, pl_config = cfg, pl_store = st\<rparr>"
| Stepped: "log_opened l \<Longrightarrow> log_step l l' \<Longrightarrow> log_opened l'"

section \<open>Append-only stores\<close>

text \<open>
  The contract a reader of the log relies on: steps keep the invariant and only ever extend the
  list of entries.
\<close>

locale append_only =
  fixes step :: "'s \<Rightarrow> 's \<Rightarrow> bool"
    and good :: "'s \<Rightarrow> bool"
    and entries :: "'s \<Rightarrow> 'e list"
  assumes step_good: "good s \<Longrightarrow> step s t \<Longrightarrow> good t"
    and step_extends: "good s \<Longrightarrow> step s t \<Longrightarrow> \<exists>new. entries t = entries s @ new"
begin

lemma run_good_extends:
  assumes "step\<^sup>*\<^sup>* s t" "good s"
  shows "good t \<and> (\<exists>new. entries t = entries s @ new)"
  using assms
proof (induction rule: rtranclp_induct)
  case (step t u)
  then show ?case
    using step_good [of t u] step_extends [of t u] by auto
qed simp

lemma entries_eternal:
  assumes "step\<^sup>*\<^sup>* s t" "good s" "i < length (entries s)"
  shows "i < length (entries t) \<and> entries t ! i = entries s ! i"
  using run_good_extends [OF assms(1,2)] assms(3) by (auto simp: nth_append)

end

section \<open>Every operation keeps the invariant and extends the log\<close>

lemma check_shapes_sorted:
  assumes "check_shapes prev tbs = Inr ()" "sorted (map tbl_name tbs)"
  shows "distinct (map tbl_name tbs) \<and> (tbs \<noteq> [] \<longrightarrow> tbl_name (hd tbs) \<noteq> prev)"
  using assms
proof (induction tbs arbitrary: prev)
  case (Cons tb tbs)
  have tl: "check_shapes (tbl_name tb) tbs = Inr ()" and ne: "tbl_name tb \<noteq> prev"
    using Cons.prems(1) by (auto simp: rbind_Inr check_table_shape_def split: if_splits)
  have IH: "distinct (map tbl_name tbs) \<and> (tbs \<noteq> [] \<longrightarrow> tbl_name (hd tbs) \<noteq> tbl_name tb)"
    using Cons.IH [OF tl] Cons.prems(2) by simp
  have "tbl_name tb \<notin> set (map tbl_name tbs)"
  proof
    assume m: "tbl_name tb \<in> set (map tbl_name tbs)"
    then obtain hd' tl' where t: "tbs = hd' # tl'" by (cases tbs) auto
    then have "tbl_name tb \<le> tbl_name hd'" "tbl_name hd' \<le> tbl_name tb"
      using Cons.prems(2) m by auto
    with IH t show False by simp
  qed
  with IH ne show ?case by simp
qed simp

lemma registry_new_distinct:
  assumes "registry_new ps = Inr reg"
  shows "distinct (table_names reg)"
proof -
  have "check_shapes [] (map pr_table reg) = Inr ()" "reg = sort_key (\<lambda>p. tbl_name (pr_table p)) ps"
    using assms by (auto simp: registry_new_def Let_def rbind_Inr split: if_splits)
  then show ?thesis
    using check_shapes_sorted [of "[]" "map pr_table reg"]
    by (simp add: table_names_def o_def)
qed

lemma then_consistent_store: "then_consistent r = (a, st) \<Longrightarrow> st = snd r"
  by (auto simp: then_consistent_def split: prod.splits sum.splits)

text \<open>
  The common shape of the operations: a write transaction whose successful results keep a
  property of the content keeps that property whatever happens.
\<close>

lemma write_transaction_keeps:
  assumes "P (db_content st)"
    and "\<And>a d. operation (db_content st) = Inr (a, d) \<Longrightarrow> P d"
  shows "P (db_content (snd (write_transaction fs pk operation st)))"
proof (cases "write_transaction fs pk operation st")
  case (Pair r st')
  show ?thesis
  proof (cases r)
    case (Inl e)
    then show ?thesis
      using write_transaction_atomic Pair assms(1) by (metis snd_conv)
  next
    case (Inr a)
    then show ?thesis
      using write_transaction_ok Pair assms(2) by (metis snd_conv)
  qed
qed

definition extends :: "'b externals \<Rightarrow> 'b registry \<Rightarrow> 'b log_db \<Rightarrow> 'b log_db \<Rightarrow> bool" where
  "extends x reg db db' \<longleftrightarrow> log_inv x reg db' \<and> (\<exists>new. events db' = events db @ new)"

lemma extends_refl: "log_inv x reg db \<Longrightarrow> extends x reg db db"
  by (simp add: extends_def)

lemma append_extends:
  assumes "log_inv x reg (db_content st)" "codec_ok x" "requests_ok requests" "uint ts \<le> i64_max"
  shows "extends x reg (db_content st)
           (db_content (snd (append_batch_inner x reg cfg ts expected requests st)))"
proof -
  have "extends x reg (db_content st) (db_content (snd (write_transaction StoreError log_panicked
          (append_transaction x reg cfg (db_faults st) ts expected requests) st)))"
    by (rule write_transaction_keeps)
       (use assms append_transaction_inv extends_refl in \<open>fastforce simp: extends_def\<close>)+
  then show ?thesis
    using assms(1) by (auto simp: append_batch_inner_def extends_refl split: sum.split)
qed

lemma rebuild_same_tables:
  assumes "rebuild_full_tx x reg policy db = Inr (u, db')" "log_inv x reg db" "codec_ok x"
  shows "log_inv x reg db' \<and> events db' = events db \<and> main_tables db' = main_tables db"
  using assms rebuild_inv [of x _ db reg policy u db']
  unfolding rebuild_full_tx_def log_inv_def [of x reg db] by fastforce

lemma log_step_sound:
  assumes "log_sound l" "log_step l l'"
  shows "log_sound l' \<and> (\<exists>new. log_events l' = log_events l @ new)"
proof -
  let ?x = "pl_externals l" and ?reg = "pl_registry l" and ?st = "pl_store l"
  have ok: "codec_ok ?x" "distinct (table_names ?reg)" "log_inv ?x ?reg (db_content ?st)"
    using assms(1) by (auto simp: log_sound_def)
  have go: "log_sound (l\<lparr>pl_store := st\<rparr>) \<and> (\<exists>new. log_events (l\<lparr>pl_store := st\<rparr>) = log_events l @ new)"
    if "extends ?x ?reg (db_content ?st) (db_content st)" for st
    using that ok by (simp add: log_sound_def log_events_def extends_def)
  have tx: "extends ?x ?reg (db_content ?st) (db_content st)"
    if "then_consistent (write_transaction StoreError log_panicked operation ?st) = (r, st)"
      and "\<And>a d. operation (db_content ?st) = Inr (a, d) \<Longrightarrow> extends ?x ?reg (db_content ?st) d"
    for operation :: "'a log_db \<Rightarrow> log_error + unit \<times> 'a log_db" and r st
    using write_transaction_keeps [where P = "extends ?x ?reg (db_content ?st)" and st = ?st
        and operation = operation] that extends_refl [OF ok(3)] then_consistent_store by metis
  show ?thesis
    using assms(2)
  proof (cases rule: log_step.cases)
    case (Append ts expected requests r st)
    then show ?thesis
      using append_extends [OF ok(3,1)] go by (metis snd_conv)
  next
    case (Rebuild r st)
    have "extends ?x ?reg (db_content ?st) (db_content st)"
      by (rule tx [OF Rebuild(2) [unfolded rebuild_projections_def]])
         (use rebuild_same_tables ok in \<open>fastforce simp: extends_def\<close>)
    then show ?thesis using go Rebuild(1) by simp
  next
    case (Restore r st)
    have "extends ?x ?reg (db_content ?st) (db_content st)"
      by (rule tx [OF Restore(2) [unfolded restore_from_snapshot_and_tail_def]])
         (use restore_inv [OF ok(3,1,2)] in \<open>fastforce simp: extends_def\<close>)
    then show ?thesis using go Restore(1) by simp
  next
    case (Verify v st)
    have "extends ?x ?reg (db_content ?st) (db_content (snd (write_transaction StoreError log_panicked
            (verify_against_replay_tx ?x ?reg) ?st)))"
      by (rule write_transaction_keeps)
         (use verify_inv [OF ok(3,2)] extends_refl [OF ok(3)] in \<open>fastforce simp: extends_def\<close>)+
    then show ?thesis using go Verify by (simp add: verify_projections_def)
  next
    case (Weather f d)
    then show ?thesis using go extends_refl [OF ok(3)] by simp
  next
    case (Shared s p)
    then show ?thesis using go extends_refl [OF ok(3)] by simp
  next
    case (Restart f r st)
    let ?st1 = "?st\<lparr>fail_stopped := False, writer_poisoned := False, db_faults := f,
        db_content := (db_content ?st)\<lparr>temp_tables := Map.empty\<rparr>\<rparr>"
    have inv1: "log_inv ?x ?reg (db_content ?st1)"
      using log_inv_temp [OF ok(3)] by simp
    have base: "extends ?x ?reg (db_content ?st) (db_content ?st1)"
      using inv1 by (simp add: extends_def)
    have opn: "extends ?x ?reg (db_content ?st) d"
      if "open_projections_tx ?x ?reg policy (db_content ?st1) = Inr (a, d)" for policy a d
      using open_inv [OF ok(1,2) disjI2 [OF inv1] that] by (simp add: extends_def)
    have keeps: "extends ?x ?reg (db_content ?st) (db_content (snd (write_transaction StoreError
        log_panicked (open_projections_tx ?x ?reg (log_snapshot_policy (pl_config l))) ?st1)))"
      by (rule write_transaction_keeps, rule base, rule opn)
    have "extends ?x ?reg (db_content ?st) (db_content st)"
    proof (cases "snapshot_cadence_events (pl_config l) = 0")
      case True
      then show ?thesis using Restart(2) base by (simp add: open_log_def)
    next
      case False
      then have "st = snd (write_transaction StoreError log_panicked
          (open_projections_tx ?x ?reg (log_snapshot_policy (pl_config l))) ?st1)"
        using Restart(2) by (intro then_consistent_store) (simp add: open_log_def)
      with keeps show ?thesis by simp
    qed
    then show ?thesis using go Restart(1) by simp
  qed
qed

interpretation plog: append_only log_step log_sound log_events
  by unfold_locales (use log_step_sound in blast)+

lemma log_opened_sound: "log_opened l \<Longrightarrow> log_sound l"
proof (induction rule: log_opened.induct)
  case (Opened x reg cfg st0 st ps)
  have d: "distinct (table_names reg)"
    using registry_new_distinct Opened(3) .
  have "write_transaction StoreError log_panicked (open_projections_tx x reg (log_snapshot_policy cfg)) st0
      = (Inr (), st)"
    using Opened(1) by (auto simp: open_log_def then_consistent_def split: if_splits prod.splits sum.splits)
  then have "open_projections_tx x reg (log_snapshot_policy cfg) (db_content st0) = Inr ((), db_content st)"
    by (rule write_transaction_ok [THEN conjunct1])
  then show ?case
    using open_inv [OF Opened(4) d] Opened(2,4) d by (simp add: log_sound_def) blast
next
  case (Stepped l l')
  then show ?case using plog.step_good by blast
qed

end
