(* ===== verification/Log_Properties.thy ===== *)
theory Log_Properties
  imports Log_Machine
begin

text \<open>
  The properties of the project log, with a small concrete log on which they are exercised: a
  codec over tagged payloads and one projection that counts events per device.
\<close>

section \<open>A concrete log\<close>

datatype payload = Refs "entity_ref list" | Snap snapshot_body | Raw nat

definition sample_externals :: "payload externals" where
  "sample_externals =
     \<lparr>body_len = (\<lambda>b. case b of Raw n \<Rightarrow> n | _ \<Rightarrow> 1),
      write_refs = Refs, read_refs = (\<lambda>b. case b of Refs r \<Rightarrow> Some r | _ \<Rightarrow> None),
      write_snapshot_body = Snap,
      read_snapshot_body = (\<lambda>b. case b of Snap s \<Rightarrow> Some s | _ \<Rightarrow> None),
      blake3 = (\<lambda>bs. word_of_nat (length bs))\<rparr>"

definition sample_table :: table_def where
  "sample_table =
     \<lparr>tbl_name = ''proj_counts'', tbl_version = 1, key_columns = [ColumnDef ''device'' KBlob],
      value_columns = [ColumnDef ''event_count'' KInteger], indexes = []\<rparr>"

definition sample_projection :: "payload projection" where
  "sample_projection =
     \<lparr>pr_table = sample_table,
      pr_apply = (\<lambda>ev. Inr [Increment [Blob (into_bytes (ev_device ev))] ''event_count'' 1])\<rparr>"

definition sample_registry :: "payload registry" where
  "sample_registry = [sample_projection]"

definition sample_config :: log_config where
  "sample_config = \<lparr>snapshot_cadence_events = SNAPSHOT_CADENCE_EVENTS_DEFAULT\<rparr>"

definition sample_store :: "payload log_db project_db" where
  "sample_store = \<lparr>db_content = empty_log_db, fail_stopped = False, writer_poisoned = False,
     db_faults = None, db_disk = DiskOk\<rparr>"

definition sample_request :: "nat \<Rightarrow> payload append_request" where
  "sample_request d =
     \<lparr>ar_device = word_of_nat d, ar_actor = User 7, ar_kind = ''ProjectCreated'', ar_body = Raw 3,
      ar_refs = [\<lparr>entity = ''project'', ref_id = 9\<rparr>]\<rparr>"

definition sample_requests :: "payload append_request list" where
  "sample_requests = [sample_request 1, sample_request 2]"

definition sample_opened :: "payload project_log" where
  "sample_opened =
     \<lparr>pl_externals = sample_externals, pl_registry = sample_registry, pl_config = sample_config,
      pl_store = snd (open_log sample_externals sample_registry sample_config sample_store)\<rparr>"

definition sample_log :: "payload project_log" where
  "sample_log = sample_opened\<lparr>pl_store :=
     snd (append_batch_inner sample_externals sample_registry sample_config 5 None sample_requests
            (pl_store sample_opened))\<rparr>"

lemma sample_codec: "codec_ok sample_externals"
  by (simp add: codec_ok_def sample_externals_def)

lemma sample_registry_new: "registry_new [sample_projection] = Inr sample_registry"
  by (simp add: registry_new_def PROJECTION_COUNT_MAX_def sample_registry_def check_table_shape_def
      sample_projection_def sample_table_def starts_with_def)

text \<open>Opening a fresh store always works: the rebuild of an empty log cannot fail.\<close>

lemma open_log_fresh:
  assumes "fresh_store (db_content st)" "\<not> fail_stopped st" "\<not> writer_poisoned st"
    "db_faults st = None" "db_disk st = DiskOk" "snapshot_cadence_events cfg \<noteq> 0"
    "codec_ok x" "distinct (table_names reg)"
  shows "\<exists>d. open_log x reg cfg st = (Inr (), st\<lparr>db_content := d\<rparr>) \<and> log_inv x reg d \<and> events d = []"
proof -
  obtain d where d: "open_projections_tx x reg (log_snapshot_policy cfg) (db_content st) = Inr ((), d)"
    using open_fresh_runs [OF assms(1)] by blast
  then have inv: "log_inv x reg d \<and> events d = events (db_content st)"
    using open_inv assms by blast
  then have "assert_consistent d = Inr ()"
    using log_inv_head by (fastforce simp: assert_consistent_def)
  moreover have "write_transaction StoreError log_panicked
      (open_projections_tx x reg (log_snapshot_policy cfg)) st = (Inr (), st\<lparr>db_content := d\<rparr>)"
    using d assms by (intro write_transaction_runs)
  ultimately show ?thesis
    using inv assms(1,6) by (intro exI [of _ d]) (simp add: open_log_def then_consistent_def fresh_store_def)
qed

definition sample_content :: "payload log_db" where
  "sample_content = write_schema_digest (schema_digest sample_externals sample_registry)
     (write_applied_seq 0 (empty_log_db\<lparr>main_tables := [''proj_counts'' \<mapsto> []]\<rparr>))"

lemma sample_open:
  "open_log sample_externals sample_registry sample_config sample_store =
     (Inr (), sample_store\<lparr>db_content := sample_content\<rparr>)"
proof -
  have "open_projections_tx sample_externals sample_registry (log_snapshot_policy sample_config)
      (db_content sample_store) = Inr ((), sample_content)"
    by (simp add: open_projections_tx_def Let_def ensure_tables_def table_names_def sample_registry_def
        sample_projection_def sample_table_def sample_store_def empty_log_db_def ensure_table_def
        read_schema_digest_def rebuild_in_transaction_def recreate_tables_def drop_tables_def
        replay_range_def replay_loop.simps read_head_def max_seq_def sample_content_def write_applied_seq_def)
  then have "write_transaction StoreError log_panicked (open_projections_tx sample_externals
      sample_registry (log_snapshot_policy sample_config)) sample_store =
      (Inr (), sample_store\<lparr>db_content := sample_content\<rparr>)"
    by (intro write_transaction_runs) (simp_all add: sample_store_def)
  then show ?thesis
    by (simp add: open_log_def sample_config_def SNAPSHOT_CADENCE_EVENTS_DEFAULT_def then_consistent_def assert_consistent_def
        sample_content_def read_head_def max_seq_def empty_log_db_def)
qed

lemma sample_opened_reach: "log_opened sample_opened"
  unfolding sample_opened_def
proof (rule Opened)
  show "open_log sample_externals sample_registry sample_config sample_store =
      (Inr (), snd (open_log sample_externals sample_registry sample_config sample_store))"
    by (simp add: sample_open)
  show "fresh_store (db_content sample_store)"
    by (simp add: fresh_store_def sample_store_def empty_log_db_def)
qed (rule sample_registry_new, rule sample_codec)

lemma sample_requests_ok: "requests_ok sample_requests" "uint (5 :: u64) \<le> i64_max"
  by (simp_all add: i64_max_def requests_ok_def sample_requests_def sample_request_def valid_kind_tag_def
      KIND_TAG_LEN_MAX_def is_ascii_alphanumeric_def)

lemma sample_step: "log_step sample_opened sample_log"
  unfolding sample_log_def
  by (rule Append [of _ 5 None sample_requests "fst (append_batch_inner sample_externals
        sample_registry sample_config 5 None sample_requests (pl_store sample_opened))"])
     (use sample_requests_ok in \<open>simp_all add: sample_opened_def\<close>)

lemma sample_apply:
  assumes "ts ''proj_counts'' \<noteq> None"
  shows "\<exists>us. apply_to_tables sample_registry ev ts = Inr us \<and> us ''proj_counts'' \<noteq> None"
  using assms
  by (auto simp: apply_to_tables_def sample_registry_def sample_projection_def apply_projection_def
      execute_in_def sample_table_def require_arity_def require_value_column_def sql_upsert_def
      null_key_def bind_values_def)

text \<open>
  Progress of one append: away from the end of the sequence space and off the snapshot cadence,
  an event whose projections apply is appended.
\<close>

lemma append_one_runs:
  assumes core: "log_core x evs db" and room: "int (Suc (length (events db))) \<le> i64_max"
    and ap: "\<And>ev. \<exists>us. apply_to_tables reg ev (main_tables db) = Inr us \<and> Q us"
    and cad: "\<not> is_multiple_of (word_of_nat (Suc (length (events db)))) cadence"
  shows "\<exists>db'. append_one x reg cadence None ts request (read_head db, seqs, db) =
           Inr (word_of_nat (Suc (length (events db))), seqs @ [word_of_nat (Suc (length (events db)))], db') \<and>
           Q (main_tables db')"
proof -
  let ?n = "length (events db)"
  have head: "read_head db = word_of_nat ?n" and un: "unat (word_of_nat ?n :: u64) = ?n"
    using log_core_head [OF core] room by (auto intro: unat_word_of_nat_i64)
  then have seq: "seq_next (word_of_nat ?n) = (word_of_nat (Suc ?n) :: u64)"
    using room by (simp add: seq_next_def saturating_add_def i64_max_def)
  obtain l db1 where l: "next_device_lamport (ar_device request) db = (l, db1)"
    by fastforce
  then have db1: "events db1 = events db" "main_tables db1 = main_tables db"
    by (auto simp: next_device_lamport_def Let_def)
  have "map_of (events db) (int (Suc ?n)) = None"
    using contiguous_map_of_None [of "events db" "int (Suc ?n)"] core by (auto simp: log_core_def)
  then obtain db2 where ins: "insert_event x (word_of_nat (Suc ?n)) l ts request db1 = Inr db2"
      and db2: "main_tables db2 = main_tables db"
    using db1 sat_i64_of_nat [OF room] by (auto simp: insert_event_def)
  obtain us where "apply_to_tables reg (event_of (word_of_nat (Suc ?n)) l ts request) (main_tables db2) = Inr us"
      "Q us"
    using ap db2 by auto
  then show ?thesis
    using l ins cad head seq
    by (simp add: append_one_def apply_event_def apply_event_to_schema_def event_of_def Let_def)
qed

lemma sample_off_cadence:
  assumes "n < 2"
  shows "\<not> is_multiple_of (word_of_nat (Suc n)) SNAPSHOT_CADENCE_EVENTS_DEFAULT"
proof -
  have "unat (word_of_nat (Suc n) mod (10000 :: u64)) = Suc n"
    using assms by (simp add: unat_mod unat_of_nat del: of_nat_Suc)
  then have "word_of_nat (Suc n) mod (10000 :: u64) \<noteq> 0"
    by (metis nat.distinct(1) unat_0)
  then show ?thesis
    by (simp add: is_multiple_of_def SNAPSHOT_CADENCE_EVENTS_DEFAULT_def del: of_nat_Suc)
qed

lemma sample_append_one:
  assumes "log_inv sample_externals sample_registry db" "length (events db) < 2"
    and "main_tables db ''proj_counts'' \<noteq> None"
  shows "\<exists>db'. append_one sample_externals sample_registry SNAPSHOT_CADENCE_EVENTS_DEFAULT None 5 request
            (read_head db, seqs, db) =
          Inr (word_of_nat (Suc (length (events db))), seqs @ [word_of_nat (Suc (length (events db)))], db') \<and>
          main_tables db' ''proj_counts'' \<noteq> None"
proof -
  obtain evs where core: "log_core sample_externals evs db"
    using assms(1) by (auto simp: log_inv_def)
  show ?thesis
    by (rule append_one_runs [where Q = "\<lambda>us. us ''proj_counts'' \<noteq> None", OF core])
       (use assms(2) sample_off_cadence sample_apply [of "main_tables db"] assms(3) in \<open>auto simp: i64_max_def\<close>)
qed

lemma sample_append:
  "\<exists>d. append_batch_inner sample_externals sample_registry sample_config 5 None sample_requests
     (pl_store sample_opened) = (Inr [1, 2], sample_store\<lparr>db_content := d\<rparr>) \<and> length (events d) = 2"
proof -
  let ?one = "append_one sample_externals sample_registry SNAPSHOT_CADENCE_EVENTS_DEFAULT None 5"
  let ?Q = "\<lambda>us. us ''proj_counts'' \<noteq> None"
  have inv0: "log_inv sample_externals sample_registry sample_content"
    using log_opened_sound [OF sample_opened_reach]
    by (simp add: log_sound_def sample_opened_def sample_open)
  have ev0: "events sample_content = []" "?Q (main_tables sample_content)"
    by (simp_all add: sample_content_def empty_log_db_def)
  obtain db1 where one: "?one (sample_request 1) (read_head sample_content, [], sample_content) = Inr (1, [1], db1)"
      "?Q (main_tables db1)"
    using sample_append_one [OF inv0, of "sample_request 1" "[]"] ev0 by auto
  have req: "valid_kind_tag (ar_kind (sample_request n))" for n
    by (simp add: sample_request_def valid_kind_tag_def KIND_TAG_LEN_MAX_def is_ascii_alphanumeric_def)
  note s1 = append_one_inv [OF inv0 sample_codec req sample_requests_ok(2) one(1)]
  then have h1: "read_head db1 = 1" "length (events db1) = 1"
    using ev0 by auto
  obtain db2 where two: "?one (sample_request 2) (read_head db1, [1], db1) = Inr (2, [1, 2], db2)"
    using sample_append_one [of db1 "sample_request 2" "[1]"] s1 one(2) h1 by auto
  note s2 = append_one_inv [OF _ sample_codec req sample_requests_ok(2) two]
  have "append_transaction sample_externals sample_registry sample_config None 5 None sample_requests
      sample_content = Inr ([1, 2], db2)"
    using log_inv_head [OF inv0] one two h1
    by (simp add: append_transaction_def Let_def sample_config_def sample_requests_def)
  then have "write_transaction StoreError log_panicked (append_transaction sample_externals
      sample_registry sample_config None 5 None sample_requests)
      (sample_store\<lparr>db_content := sample_content\<rparr>) = (Inr [1, 2], sample_store\<lparr>db_content := db2\<rparr>)"
    by (subst write_transaction_runs) (auto simp: sample_store_def)
  moreover have "validate_requests sample_externals sample_requests = Inr ()"
    by (simp add: sample_requests_def validate_request_def sample_request_def sample_externals_def
        EVENT_BODY_LEN_MAX_def EVENT_REFS_COUNT_MAX_def)
  moreover have faults: "db_faults sample_store = None" and ne: "sample_requests \<noteq> []"
    by (simp_all add: sample_store_def sample_requests_def)
  ultimately show ?thesis
    using s2 s1 h1 unfolding append_batch_inner_def sample_opened_def
    by (intro exI [of _ db2]) (simp add: sample_open faults ne)
qed

lemma sample_log_reach: "log_opened sample_log"
  using sample_opened_reach sample_step by (rule Stepped)

lemma sample_log_events: "length (log_events sample_log) = 2"
  using sample_append by (auto simp: log_events_def sample_log_def sample_store_def)

section \<open>Properties\<close>

text \<open>
  C1: projections are exactly the log. In every state of an open log, reached by any sequence of
  appends (successful, refused, or cut off by a fault), rebuilds, restores, verifications, disk
  failures and restarts, every stored event decodes, the stored projection tables are the fold of
  the registered projections over the stored events from empty tables, and \<open>applied_seq\<close> is the
  head of the log.
\<close>
theorem log_is_fold_of_events:
  assumes "log_opened l"
  shows "\<exists>evs. rcollect (decode_event_row (pl_externals l)) (log_events l) = Inr evs \<and>
           project (pl_registry l) evs (fresh_tables (pl_registry l) (log_tables l)) = Inr (log_tables l) \<and>
           read_applied_seq (db_content (pl_store l)) = read_head (db_content (pl_store l))"
  using log_opened_sound [OF assms] log_inv_head
  by (fastforce simp: log_sound_def log_inv_def log_core_def log_events_def log_tables_def)

theorem log_is_fold_of_events_witness:
  "length (log_events sample_log) = 2 \<and>
   (\<exists>evs. rcollect (decode_event_row (pl_externals sample_log)) (log_events sample_log) = Inr evs \<and>
      project (pl_registry sample_log) evs (fresh_tables (pl_registry sample_log) (log_tables sample_log)) =
        Inr (log_tables sample_log) \<and>
      read_applied_seq (db_content (pl_store sample_log)) = read_head (db_content (pl_store sample_log)))"
  using log_is_fold_of_events [OF sample_log_reach] sample_log_events by simp

lemma lamports_increase:
  assumes "lamports_ok rows" "i < j" "j < length rows"
    "er_device (snd (rows ! i)) = er_device (snd (rows ! j))"
  shows "er_lamport (snd (rows ! i)) < er_lamport (snd (rows ! j))"
proof -
  let ?d = "er_device (snd (rows ! j))"
  have "take (Suc j) rows = take j rows @ [rows ! j]"
    using assms(3) by (simp add: take_Suc_conv_app_nth)
  then have "device_count ?d (take (Suc j) rows) = Suc (device_count ?d (take j rows))"
    by (simp add: device_count_def)
  moreover have "take j rows = take (Suc i) rows @ drop (Suc i) (take j rows)"
    using assms(2) append_take_drop_id [of "Suc i" "take j rows"] by (simp add: min_def)
  then have "device_count ?d (take (Suc i) rows) \<le> device_count ?d (take j rows)"
    by (metis device_count_def filter_append le_add1 length_append)
  ultimately show ?thesis
    using assms by (simp add: lamports_ok_def)
qed

text \<open>
  C15: order. In every state of an open log the sequence numbers are 1, 2, 3, .. without a gap,
  and the Lamport counters of the events of one device strictly increase in sequence order.
\<close>
theorem log_order:
  assumes "log_opened l"
  shows "(\<forall>i < length (log_events l). fst (log_events l ! i) = int (Suc i)) \<and>
         (\<forall>j < length (log_events l). \<forall>i < j.
            er_device (snd (log_events l ! i)) = er_device (snd (log_events l ! j)) \<longrightarrow>
            er_lamport (snd (log_events l ! i)) < er_lamport (snd (log_events l ! j)))"
  using log_opened_sound [OF assms] contiguous_nth lamports_increase
  by (fastforce simp: log_sound_def log_inv_def log_core_def log_events_def)

theorem log_order_witness:
  "length (log_events sample_log) = 2 \<and> fst (log_events sample_log ! 1) = int (Suc 1)"
  using log_order [OF sample_log_reach] sample_log_events by auto

text \<open>
  C2: one append is one atom. Whatever cuts an append off (validation, a moved head, a failing
  projection, an injected fault, a crash, a lost commit), the durable content is unchanged; an
  append that returns \<open>Ok\<close> has stored exactly one event per request, returns their sequence
  numbers, which continue the log, and its expected head, if any, was the head.
\<close>
theorem append_atomic:
  assumes "log_opened l" "requests_ok requests" "uint ts_ms \<le> i64_max"
    and "append_batch_inner (pl_externals l) (pl_registry l) (pl_config l) ts_ms expected requests
           (pl_store l) = (r, st)"
  shows "case r of
           Inl e \<Rightarrow> db_content st = db_content (pl_store l)
         | Inr seqs \<Rightarrow>
             seqs = map word_of_nat [Suc (length (log_events l))..<
                                     Suc (length (log_events l) + length requests)] \<and>
             (\<exists>new. events (db_content st) = log_events l @ new \<and> length new = length requests) \<and>
             (\<forall>h. requests \<noteq> [] \<and> expected = Some h \<longrightarrow> h = read_head (db_content (pl_store l)))"
proof -
  let ?x = "pl_externals l" and ?reg = "pl_registry l"
  let ?tx = "append_transaction ?x ?reg (pl_config l) (db_faults (pl_store l)) ts_ms expected requests"
  have sound: "codec_ok ?x" "log_inv ?x ?reg (db_content (pl_store l))"
    using log_opened_sound [OF assms(1)] by (auto simp: log_sound_def)
  consider (empty) "requests = []" "r = Inr []" "st = pl_store l" | (bad) e where "r = Inl e" "st = pl_store l"
    | (tx) "write_transaction StoreError log_panicked ?tx (pl_store l) = (r, st)"
  proof (cases "requests = []")
    case True
    then show ?thesis using empty assms(4) by (simp add: append_batch_inner_def)
  next
    case False
    then show ?thesis
      using bad tx assms(4) unfolding append_batch_inner_def
      by (cases "validate_requests ?x requests") (simp, metis, simp)
  qed
  then show ?thesis
  proof cases
    case tx
    show ?thesis
    proof (cases r)
      case (Inl e)
      then show ?thesis using write_transaction_atomic tx by fastforce
    next
      case (Inr seqs)
      then have "write_transaction StoreError log_panicked ?tx (pl_store l) = (Inr seqs, st)"
        using tx by simp
      then have "?tx (db_content (pl_store l)) = Inr (seqs, db_content st)"
        by (rule write_transaction_ok [THEN conjunct1])
      from append_transaction_inv [OF this sound(2,1) assms(2,3)] Inr show ?thesis
        by (simp add: log_events_def)
    qed
  qed (simp_all add: log_events_def)
qed

theorem append_atomic_witness:
  "\<exists>st. append_batch_inner (pl_externals sample_opened) (pl_registry sample_opened)
          (pl_config sample_opened) 5 None sample_requests (pl_store sample_opened) = (Inr [1, 2], st) \<and>
        (\<exists>new. events (db_content st) = log_events sample_opened @ new \<and> length new = 2)"
proof -
  obtain d where d: "append_batch_inner (pl_externals sample_opened) (pl_registry sample_opened)
      (pl_config sample_opened) 5 None sample_requests (pl_store sample_opened) =
      (Inr [1, 2], sample_store\<lparr>db_content := d\<rparr>)"
    using sample_append by (auto simp: sample_opened_def)
  have "length sample_requests = 2"
    by (simp add: sample_requests_def)
  with append_atomic [OF sample_opened_reach sample_requests_ok d] d show ?thesis
    by auto
qed

text \<open>
  C25: old events are eternal. No sequence of operations, failures and restarts changes or removes
  an event row once it is stored.
\<close>
theorem events_eternal:
  assumes "log_opened l" "log_step\<^sup>*\<^sup>* l l'" "i < length (log_events l)"
  shows "i < length (log_events l') \<and> log_events l' ! i = log_events l ! i"
  using plog.entries_eternal [OF assms(2) log_opened_sound [OF assms(1)] assms(3)] .

theorem events_eternal_witness:
  "1 < length (log_events sample_log) \<and>
   log_events (sample_log\<lparr>pl_store := (pl_store sample_log)\<lparr>db_disk := DiskLost, db_faults := None\<rparr>\<rparr>) ! 1 =
   log_events sample_log ! 1"
proof -
  have "log_step\<^sup>*\<^sup>* sample_log
      (sample_log\<lparr>pl_store := (pl_store sample_log)\<lparr>db_disk := DiskLost, db_faults := None\<rparr>\<rparr>)"
    by (rule r_into_rtranclp, rule Weather)
  from events_eternal [OF sample_log_reach this, of 1] sample_log_events show ?thesis
    by simp
qed

lemma opened_parts:
  assumes "log_opened l"
  shows "log_inv (pl_externals l) (pl_registry l) (db_content (pl_store l))"
    "codec_ok (pl_externals l)" "distinct (table_names (pl_registry l))"
  using log_opened_sound [OF assms] by (auto simp: log_sound_def)

text \<open>
  C10: snapshot plus tail equals the live tables. Restoring the newest usable snapshot and
  replaying the tail of the log never fails, and gives back byte for byte the tables the log had.
\<close>
theorem restore_equals_live:
  assumes "log_opened l"
  shows "\<exists>db. restore_snapshot_and_tail_tx (pl_externals l) (pl_registry l) (db_content (pl_store l)) =
              Inr ((), db) \<and> main_tables db = log_tables l \<and> events db = log_events l"
  using restore_inv [OF opened_parts [OF assms]] by (auto simp: log_tables_def log_events_def)

theorem restore_equals_live_witness:
  "\<exists>db. restore_snapshot_and_tail_tx (pl_externals sample_log) (pl_registry sample_log)
          (db_content (pl_store sample_log)) = Inr ((), db) \<and>
        main_tables db = log_tables sample_log \<and> length (events db) = 2"
  using restore_equals_live [OF sample_log_reach] sample_log_events by auto

text \<open>
  A full rebuild equals the live tables. When the rebuild from the log alone succeeds, its
  tables are the ones the appends had maintained, and the events are untouched.
\<close>
theorem rebuild_equals_live:
  assumes "log_opened l"
    and "rebuild_full_tx (pl_externals l) (pl_registry l) policy (db_content (pl_store l)) = Inr (u, db)"
  shows "main_tables db = log_tables l \<and> events db = log_events l \<and>
         read_applied_seq db = read_head db"
  using rebuild_same_tables [OF assms(2) opened_parts(1,2) [OF assms(1)]]
    log_inv_head [of "pl_externals l" "pl_registry l" db]
  by (simp add: log_tables_def log_events_def)

theorem rebuild_equals_live_witness:
  "\<exists>db. rebuild_full_tx sample_externals sample_registry (log_snapshot_policy sample_config)
          sample_content = Inr ((), db) \<and> main_tables db = log_tables sample_opened"
proof -
  have "events sample_content = []"
    by (simp add: sample_content_def empty_log_db_def)
  then obtain db where db: "rebuild_full_tx sample_externals sample_registry
      (log_snapshot_policy sample_config) sample_content = Inr ((), db)"
    by (simp add: rebuild_full_tx_def rebuild_in_transaction_def replay_range_def replay_loop.simps
        read_head_def max_seq_def recreate_tables_eq Let_def)
  then show ?thesis
    using rebuild_equals_live [OF sample_opened_reach, of "log_snapshot_policy sample_config" "()" db]
    by (simp add: sample_opened_def sample_open)
qed

text \<open>
  C26: verification is clean and names nothing on a log no one tampered with; it replays every
  event, covers every registered table and leaves the stored tables alone.
\<close>
theorem verify_is_clean:
  assumes "log_opened l"
  shows "\<exists>report db. verify_against_replay_tx (pl_externals l) (pl_registry l)
             (db_content (pl_store l)) = Inr (report, db) \<and>
           is_clean report \<and> mismatched_tables report = [] \<and>
           events_replayed report = word_of_nat (length (log_events l)) \<and>
           map tv_name (tables_verified report) = table_names (pl_registry l) \<and>
           main_tables db = log_tables l"
  using verify_inv [OF opened_parts(1,3) [OF assms]] by (auto simp: log_tables_def log_events_def)

theorem verify_is_clean_witness:
  "\<exists>report db. verify_against_replay_tx (pl_externals sample_log) (pl_registry sample_log)
       (db_content (pl_store sample_log)) = Inr (report, db) \<and> is_clean report \<and>
     events_replayed report = 2"
  using verify_is_clean [OF sample_log_reach] sample_log_events by auto

text \<open>
  C27: the batched replay loop is one pass. Reading 4,096 rows at a time from any cursor inside a
  contiguous log, the loop terminates within its fuel and has the effect of one fold over the rows
  behind the cursor.
\<close>
theorem replay_range_is_one_pass:
  assumes "contiguous (events db)" "int (length (events db)) \<le> i64_max" "c \<le> length (events db)"
  shows "replay_range x reg (word_of_nat c) (word_of_nat (length (events db))) schema policy db =
         rbind (rfold (replay_row x reg schema policy) (drop c (events db)) (word_of_nat c, 0, db))
           (\<lambda>(_, replayed, db'). Inr (replayed, db'))"
  using assms by (rule replay_range_pass)

theorem replay_range_is_one_pass_witness:
  "length (events (db_content (pl_store sample_log))) = 2 \<and>
   replay_range sample_externals sample_registry (word_of_nat 1) (word_of_nat 2) Temp None
     (db_content (pl_store sample_log)) =
   rbind (rfold (replay_row sample_externals sample_registry Temp None)
            (drop 1 (events (db_content (pl_store sample_log))))
            (word_of_nat 1, 0, db_content (pl_store sample_log)))
     (\<lambda>(_, replayed, db'). Inr (replayed, db'))"
proof -
  let ?db = "db_content (pl_store sample_log)"
  have "contiguous (events ?db)" "int (length (events ?db)) \<le> i64_max" "length (events ?db) = 2"
    using opened_parts(1) [OF sample_log_reach] sample_log_events
    by (auto simp: log_inv_def log_core_def log_events_def)
  with replay_range_is_one_pass [of ?db 1 sample_externals sample_registry Temp None] show ?thesis
    by simp
qed

text \<open>
  C28: a stale head is refused. A conditional append prepared against a head the log no longer has
  stores nothing and reports both heads.
\<close>
theorem stale_head_refused:
  assumes "log_opened l" "requests \<noteq> []" "validate_requests (pl_externals l) requests = Inr ()"
    and "\<not> fail_stopped (pl_store l)" "\<not> writer_poisoned (pl_store l)"
    and "expected \<noteq> log_head (db_content (pl_store l))"
  shows "append_batch_at_head (pl_externals l) (pl_registry l) (pl_config l) ts_ms expected requests
           (pl_store l) =
         (Inl (HeadChanged expected (log_head (db_content (pl_store l)))), pl_store l)"
  using assms log_inv_head [OF opened_parts(1) [OF assms(1)]]
  by (auto simp: append_batch_at_head_def append_batch_inner_def write_transaction_def ensure_live_def
      append_transaction_def Let_def log_head_def read_head_def log_panicked_def)

theorem stale_head_refused_witness:
  "append_batch_at_head sample_externals sample_registry sample_config 5 1 sample_requests
     (pl_store sample_opened) = (Inl (HeadChanged 1 0), pl_store sample_opened)"
proof -
  have o: "pl_store sample_opened = sample_store\<lparr>db_content := sample_content\<rparr>"
      "pl_externals sample_opened = sample_externals" "pl_registry sample_opened = sample_registry"
      "pl_config sample_opened = sample_config"
    by (simp_all add: sample_opened_def sample_open)
  have "log_head sample_content = 0"
    by (simp add: log_head_def sample_content_def empty_log_db_def max_seq_def)
  moreover have "sample_requests \<noteq> []" "validate_requests sample_externals sample_requests = Inr ()"
    by (simp_all add: sample_requests_def validate_request_def sample_request_def
        sample_externals_def EVENT_BODY_LEN_MAX_def EVENT_REFS_COUNT_MAX_def)
  moreover have "\<not> fail_stopped sample_store" "\<not> writer_poisoned sample_store"
    by (simp_all add: sample_store_def)
  ultimately show ?thesis
    using stale_head_refused [OF sample_opened_reach, of sample_requests 1 5] by (simp add: o)
qed

text \<open>
  C29: a lost commit fail-stops the project. After a commit-time durability loss every later
  transaction is refused before its operation runs, until the process reopens the store.
\<close>
theorem durability_loss_is_fail_stop:
  assumes "write_transaction StoreError log_panicked operation st = (Inl (StoreError DurabilityLost), st')"
    and "\<not> fail_stopped st" "\<And>d. operation d \<noteq> Inl (StoreError DurabilityLost)"
  shows "write_transaction StoreError log_panicked operation' st' = (Inl (StoreError FailStopped), st') \<and>
         db_content st' = db_content st"
proof -
  have "inj StoreError"
    by (rule injI) simp
  then have "fail_stopped st'"
    using durability_loss_stops [OF assms(1,2)] assms(3) by blast
  then show ?thesis
    using fail_stop_sticky write_transaction_atomic [OF assms(1)] by blast
qed

theorem durability_loss_is_fail_stop_witness:
  "write_transaction StoreError log_panicked (\<lambda>d. Inr ((), d))
     (sample_store\<lparr>db_disk := DiskLost, fail_stopped := True\<rparr>) =
   (Inl (StoreError FailStopped), sample_store\<lparr>db_disk := DiskLost, fail_stopped := True\<rparr>)"
  using durability_loss_is_fail_stop [of "\<lambda>d. Inr ((), d)" "sample_store\<lparr>db_disk := DiskLost\<rparr>"
      "sample_store\<lparr>db_disk := DiskLost, fail_stopped := True\<rparr>" "\<lambda>d. Inr ((), d)"]
  by (simp add: write_transaction_def ensure_live_def commit_transaction_def sample_store_def)

end
