(* ===== verification/Ingest_Vocabulary.thy ===== *)
theory Ingest_Vocabulary
  imports Foundation
begin

text \<open>
  The durable ingestion vocabulary of \<open>crates/pos-domain/src/ingest.rs\<close>: stages and the plan they
  form per media kind, the stored words of every enumeration with their parsers, locators, and the
  bodies of the ingestion events.
\<close>

section \<open>Stages and media\<close>

datatype (plugins only: code size) ingest_stage =
  StageRaw | StageNormalize | StageTranscribe | StageChunk | StageEmbed | StageExtract | StageIndex

datatype (plugins only: code size) media_kind =
  PlainText | Markdown | Csv | Captions | Audio | Video | Structured | Opaque

definition ingest_stage_ALL :: "ingest_stage list" where
  "ingest_stage_ALL =
     [StageRaw, StageNormalize, StageTranscribe, StageChunk, StageEmbed, StageExtract, StageIndex]"

fun stage_as_str :: "ingest_stage \<Rightarrow> string" where
  "stage_as_str StageRaw = ''raw''"
| "stage_as_str StageNormalize = ''normalize''"
| "stage_as_str StageTranscribe = ''transcribe''"
| "stage_as_str StageChunk = ''chunk''"
| "stage_as_str StageEmbed = ''embed''"
| "stage_as_str StageExtract = ''extract''"
| "stage_as_str StageIndex = ''index''"

text \<open>\<open>Self::ALL.into_iter().find(|v| v.as_str() == value)\<close>: the parser of every word list.\<close>

definition parse_word :: "('a \<Rightarrow> string) \<Rightarrow> 'a list \<Rightarrow> string \<Rightarrow> 'a option" where
  "parse_word as_str all value = find (\<lambda>v. as_str v = value) all"

definition stage_parse :: "string \<Rightarrow> ingest_stage option" where
  "stage_parse = parse_word stage_as_str ingest_stage_ALL"

fun stage_job_kind :: "ingest_stage \<Rightarrow> string option" where
  "stage_job_kind StageRaw = None"
| "stage_job_kind StageNormalize = Some ''ingest.normalize''"
| "stage_job_kind StageTranscribe = Some ''ingest.transcribe''"
| "stage_job_kind StageChunk = Some ''ingest.chunk''"
| "stage_job_kind StageEmbed = Some ''ingest.embed''"
| "stage_job_kind StageExtract = Some ''ingest.extract''"
| "stage_job_kind StageIndex = Some ''ingest.index''"

fun stage_cost_feature :: "ingest_stage \<Rightarrow> string" where
  "stage_cost_feature StageRaw = ''ingest.raw''"
| "stage_cost_feature StageNormalize = ''ingest.normalize''"
| "stage_cost_feature StageTranscribe = ''ingest.transcribe''"
| "stage_cost_feature StageChunk = ''ingest.chunk''"
| "stage_cost_feature StageEmbed = ''ingest.embed''"
| "stage_cost_feature StageExtract = ''ingest.extract''"
| "stage_cost_feature StageIndex = ''ingest.index''"

fun stage_applies_to :: "ingest_stage \<Rightarrow> media_kind \<Rightarrow> bool" where
  "stage_applies_to StageTranscribe media = (media = Audio \<or> media = Video)"
| "stage_applies_to _ media = True"

text \<open>\<open>iter().position(..)\<close>.\<close>

fun position :: "('a \<Rightarrow> bool) \<Rightarrow> 'a list \<Rightarrow> nat option" where
  "position P [] = None"
| "position P (x # xs) = (if P x then Some 0 else map_option Suc (position P xs))"

definition stage_next_for :: "ingest_stage \<Rightarrow> media_kind \<Rightarrow> ingest_stage option" where
  "stage_next_for stage media =
     (case position (\<lambda>s. s = stage) ingest_stage_ALL of
        None \<Rightarrow> None
      | Some p \<Rightarrow> find (\<lambda>s. stage_applies_to s media) (drop (p + 1) ingest_stage_ALL))"

definition stage_rank :: "ingest_stage \<Rightarrow> u8" where
  "stage_rank stage =
     (case position (\<lambda>s. s = stage) ingest_stage_ALL of None \<Rightarrow> 0 | Some p \<Rightarrow> word_of_nat p)"

definition media_kind_ALL :: "media_kind list" where
  "media_kind_ALL = [PlainText, Markdown, Csv, Captions, Audio, Video, Structured, Opaque]"

fun media_as_str :: "media_kind \<Rightarrow> string" where
  "media_as_str PlainText = ''plain_text''"
| "media_as_str Markdown = ''markdown''"
| "media_as_str Csv = ''csv''"
| "media_as_str Captions = ''captions''"
| "media_as_str Audio = ''audio''"
| "media_as_str Video = ''video''"
| "media_as_str Structured = ''structured''"
| "media_as_str Opaque = ''opaque''"

definition media_parse :: "string \<Rightarrow> media_kind option" where
  "media_parse = parse_word media_as_str media_kind_ALL"

section \<open>Chunks, shapes, locators\<close>

datatype (plugins only: code size) chunk_kind =
  TranscriptTurns | ThreadMessages | MessageBody | DocumentSection | TableRows

definition chunk_kind_ALL :: "chunk_kind list" where
  "chunk_kind_ALL = [TranscriptTurns, ThreadMessages, MessageBody, DocumentSection, TableRows]"

fun chunk_kind_as_str :: "chunk_kind \<Rightarrow> string" where
  "chunk_kind_as_str TranscriptTurns = ''transcript_turns''"
| "chunk_kind_as_str ThreadMessages = ''thread_messages''"
| "chunk_kind_as_str MessageBody = ''message_body''"
| "chunk_kind_as_str DocumentSection = ''document_section''"
| "chunk_kind_as_str TableRows = ''table_rows''"

definition chunk_kind_parse :: "string \<Rightarrow> chunk_kind option" where
  "chunk_kind_parse = parse_word chunk_kind_as_str chunk_kind_ALL"

datatype (plugins only: code size) evidence_shape =
  ShapeTranscript | ShapeThread | ShapeMessage | ShapeDocument | ShapeTable

definition evidence_shape_ALL :: "evidence_shape list" where
  "evidence_shape_ALL = [ShapeTranscript, ShapeThread, ShapeMessage, ShapeDocument, ShapeTable]"

fun shape_as_str :: "evidence_shape \<Rightarrow> string" where
  "shape_as_str ShapeTranscript = ''transcript''"
| "shape_as_str ShapeThread = ''thread''"
| "shape_as_str ShapeMessage = ''message''"
| "shape_as_str ShapeDocument = ''document''"
| "shape_as_str ShapeTable = ''table''"

definition shape_parse :: "string \<Rightarrow> evidence_shape option" where
  "shape_parse = parse_word shape_as_str evidence_shape_ALL"

fun shape_chunk_kind :: "evidence_shape \<Rightarrow> chunk_kind" where
  "shape_chunk_kind ShapeTranscript = TranscriptTurns"
| "shape_chunk_kind ShapeThread = ThreadMessages"
| "shape_chunk_kind ShapeMessage = MessageBody"
| "shape_chunk_kind ShapeDocument = DocumentSection"
| "shape_chunk_kind ShapeTable = TableRows"

datatype (plugins only: code size) locator = TimeRange u64 u64 | LineRange u64 u64 | MessageRange u64 u64

fun locator_kind_str :: "locator \<Rightarrow> string" where
  "locator_kind_str (TimeRange _ _) = ''time_range''"
| "locator_kind_str (LineRange _ _) = ''line_range''"
| "locator_kind_str (MessageRange _ _) = ''message_range''"

fun locator_bounds :: "locator \<Rightarrow> u64 \<times> u64" where
  "locator_bounds (TimeRange s e) = (s, e)"
| "locator_bounds (LineRange s e) = (s, e)"
| "locator_bounds (MessageRange s e) = (s, e)"

definition locator_from_columns :: "string \<Rightarrow> u64 \<Rightarrow> u64 \<Rightarrow> locator option" where
  "locator_from_columns kind s e =
     (if kind = ''time_range'' then Some (TimeRange s e)
      else if kind = ''line_range'' then Some (LineRange s e)
      else if kind = ''message_range'' then Some (MessageRange s e)
      else None)"

section \<open>Canary levels and evidence status\<close>

datatype (plugins only: code size) canary_level = Clean | Suspect | Quarantined

definition canary_level_ALL :: "canary_level list" where
  "canary_level_ALL = [Clean, Suspect, Quarantined]"

fun canary_as_str :: "canary_level \<Rightarrow> string" where
  "canary_as_str Clean = ''clean''"
| "canary_as_str Suspect = ''suspect''"
| "canary_as_str Quarantined = ''quarantined''"

definition canary_parse :: "string \<Rightarrow> canary_level option" where
  "canary_parse = parse_word canary_as_str canary_level_ALL"

datatype (plugins only: code size) evidence_status =
    StatusRaw | StatusNormalized | StatusTranscribed | StatusChunked | StatusEmbedded
  | StatusExtracted | StatusIndexed | StatusFailed

definition evidence_status_ALL :: "evidence_status list" where
  "evidence_status_ALL =
     [StatusRaw, StatusNormalized, StatusTranscribed, StatusChunked, StatusEmbedded,
      StatusExtracted, StatusIndexed, StatusFailed]"

fun evidence_status_as_str :: "evidence_status \<Rightarrow> string" where
  "evidence_status_as_str StatusRaw = ''raw''"
| "evidence_status_as_str StatusNormalized = ''normalized''"
| "evidence_status_as_str StatusTranscribed = ''transcribed''"
| "evidence_status_as_str StatusChunked = ''chunked''"
| "evidence_status_as_str StatusEmbedded = ''embedded''"
| "evidence_status_as_str StatusExtracted = ''extracted''"
| "evidence_status_as_str StatusIndexed = ''indexed''"
| "evidence_status_as_str StatusFailed = ''failed''"

definition evidence_status_parse :: "string \<Rightarrow> evidence_status option" where
  "evidence_status_parse = parse_word evidence_status_as_str evidence_status_ALL"

fun status_after :: "ingest_stage \<Rightarrow> evidence_status" where
  "status_after StageRaw = StatusRaw"
| "status_after StageNormalize = StatusNormalized"
| "status_after StageTranscribe = StatusTranscribed"
| "status_after StageChunk = StatusChunked"
| "status_after StageEmbed = StatusEmbedded"
| "status_after StageExtract = StatusExtracted"
| "status_after StageIndex = StatusIndexed"

definition status_is_immutable :: "evidence_status \<Rightarrow> bool" where
  "status_is_immutable s \<longleftrightarrow> s = StatusIndexed"

section \<open>Event bodies\<close>

definition CHUNK_BATCH_COUNT_MAX :: nat where
  "CHUNK_BATCH_COUNT_MAX = 64 - 1"

definition EMBED_BATCH_COUNT_MAX :: nat where
  "EMBED_BATCH_COUNT_MAX = 64 - 1"

definition TRANSCRIPT_SPEAKER_UNASSIGNED :: u32 where
  "TRANSCRIPT_SPEAKER_UNASSIGNED = 0"

datatype (plugins only: code size) external_ref = ExternalRefFields
  (external_id: string)
  (external_url: "string option")
  (external_version: "string option")

datatype (plugins only: code size) evidence_added_v1 = EvidenceAddedV1Fields
  (ea_evidence_id: id16)
  (ea_source_id: id16)
  (ea_source_kind: string)
  (ea_external: external_ref)
  (ea_media_kind: media_kind)
  (ea_shape: evidence_shape)
  (ea_content_blob: digest32)
  (ea_byte_size: u64)
  (ea_occurred_ts_ms: u64)
  (ea_author: "string option")
  (ea_title: "string option")
  (ea_thread_ref: "string option")

datatype (plugins only: code size) evidence_added_body = EvidenceAddedV1 evidence_added_v1

datatype (plugins only: code size) ingest_stage_started_v1 = IngestStageStartedV1Fields
  (iss_evidence_id: id16)
  (iss_source_id: id16)
  (iss_stage: ingest_stage)
  (iss_pass: u32)
  (iss_job_id: id16)
  (iss_attempt_index: u32)

datatype (plugins only: code size) ingest_stage_started_body = IngestStageStartedV1 ingest_stage_started_v1

datatype (plugins only: code size) ingest_stage_output =
    OutNormalized evidence_shape digest32 u64 digest32 u64 canary_level
  | OutChunked u64
  | OutNone

datatype (plugins only: code size) ingest_stage_finished_v1 = IngestStageFinishedV1Fields
  (isf_evidence_id: id16)
  (isf_source_id: id16)
  (isf_stage: ingest_stage)
  (isf_pass: u32)
  (isf_wall_ms: u64)
  (isf_bytes_read: u64)
  (isf_item_count: u64)
  (isf_output: ingest_stage_output)

datatype (plugins only: code size) ingest_stage_finished_body = IngestStageFinishedV1 ingest_stage_finished_v1

datatype (plugins only: code size) ingest_stage_disposition = Retrying u32 | DispositionDead bool

fun disposition_is_dead :: "ingest_stage_disposition \<Rightarrow> bool" where
  "disposition_is_dead (DispositionDead _) = True"
| "disposition_is_dead (Retrying _) = False"

datatype (plugins only: code size) ingest_stage_failed_v1 = IngestStageFailedV1Fields
  (isx_evidence_id: id16)
  (isx_source_id: id16)
  (isx_stage: ingest_stage)
  (isx_pass: u32)
  (isx_attempt_index: u32)
  (isx_code: string)
  (isx_detail: string)
  (isx_disposition: ingest_stage_disposition)

datatype (plugins only: code size) ingest_stage_failed_body = IngestStageFailedV1 ingest_stage_failed_v1

datatype (plugins only: code size) transcript_segment_fact = TranscriptSegmentFactFields
  (ts_segment_index: u32)
  (ts_start_ms: u64)
  (ts_end_ms: u64)
  (ts_starts_turn: bool)
  (ts_text: string)

datatype (plugins only: code size) evidence_transcribed_body =
  EvidenceTranscribedV1 (etr_evidence_id: id16) (etr_pass: u32) (etr_batch_index: u32)
    (etr_segments: "transcript_segment_fact list")

datatype (plugins only: code size) transcript_speaker_named_body = TranscriptSpeakerNamedV1 id16 u32 string

datatype (plugins only: code size) transcript_segment_speaker_set_body = TranscriptSegmentSpeakerSetV1 id16 u32 u32 u32

datatype (plugins only: code size) transcript_text_corrected_body = TranscriptTextCorrectedV1 id16 u32 u32 string

datatype (plugins only: code size) chunk_fact = ChunkFactFields
  (cf_chunk_id: id16)
  (cf_ordinal: u32)
  (cf_kind: chunk_kind)
  (cf_byte_start: u64)
  (cf_byte_end: u64)
  (cf_locator: locator)
  (cf_content_hash: digest32)
  (cf_token_count_estimate: u32)

datatype (plugins only: code size) evidence_chunked_body = EvidenceChunkedV1 id16 u32 u32 "chunk_fact list"

datatype (plugins only: code size) chunk_embedding_fact = ChunkEmbeddingFactFields
  (ce_chunk_id: id16)
  (ce_row: u32)
  (ce_content_hash: digest32)
  (ce_token_count: u32)
  (ce_truncated: bool)

datatype (plugins only: code size) evidence_embedded_v1 = EvidenceEmbeddedV1Fields
  (ee_evidence_id: id16)
  (ee_source_id: id16)
  (ee_pass: u32)
  (ee_batch_index: u32)
  (ee_model_id: string)
  (ee_dim: u16)
  (ee_enrichment_version: u16)
  (ee_vectors_blob: digest32)
  (ee_chunks: "chunk_embedding_fact list")

datatype (plugins only: code size) evidence_embedded_body = EvidenceEmbeddedV1 evidence_embedded_v1

datatype (plugins only: code size) evidence_reprocess_requested_body =
  EvidenceReprocessRequestedV1 id16 ingest_stage u32 string

section \<open>Word lists\<close>

text \<open>The contract of a stored word list: every value is listed and its word is its own.\<close>

locale word_list =
  fixes as_str :: "'a \<Rightarrow> string"
    and all :: "'a list"
  assumes complete: "v \<in> set all"
    and injective: "as_str v = as_str w \<Longrightarrow> v = w"
begin

lemma parse_as_str: "parse_word as_str all (as_str v) = Some v"
proof -
  have "find (\<lambda>w. as_str w = as_str v) all \<noteq> None"
    using complete [of v] by (auto simp: find_None_iff)
  then obtain w where w: "find (\<lambda>w. as_str w = as_str v) all = Some w"
    by auto
  then have "as_str w = as_str v"
    by (auto simp: find_Some_iff)
  with w injective show ?thesis
    by (auto simp: parse_word_def)
qed

lemma parse_Some: "parse_word as_str all s = Some v \<longleftrightarrow> s = as_str v"
proof
  assume "parse_word as_str all s = Some v"
  then show "s = as_str v"
    by (auto simp: parse_word_def find_Some_iff)
next
  assume "s = as_str v"
  then show "parse_word as_str all s = Some v"
    using parse_as_str by simp
qed

end

interpretation stage_words: word_list stage_as_str ingest_stage_ALL
proof
  fix v w :: ingest_stage
  show "v \<in> set ingest_stage_ALL"
    by (cases v) (simp_all add: ingest_stage_ALL_def)
  show "stage_as_str v = stage_as_str w \<Longrightarrow> v = w"
    by (cases v; cases w) simp_all
qed

interpretation media_words: word_list media_as_str media_kind_ALL
proof
  fix v w :: media_kind
  show "v \<in> set media_kind_ALL"
    by (cases v) (simp_all add: media_kind_ALL_def)
  show "media_as_str v = media_as_str w \<Longrightarrow> v = w"
    by (cases v; cases w) simp_all
qed

interpretation chunk_words: word_list chunk_kind_as_str chunk_kind_ALL
proof
  fix v w :: chunk_kind
  show "v \<in> set chunk_kind_ALL"
    by (cases v) (simp_all add: chunk_kind_ALL_def)
  show "chunk_kind_as_str v = chunk_kind_as_str w \<Longrightarrow> v = w"
    by (cases v; cases w) simp_all
qed

interpretation shape_words: word_list shape_as_str evidence_shape_ALL
proof
  fix v w :: evidence_shape
  show "v \<in> set evidence_shape_ALL"
    by (cases v) (simp_all add: evidence_shape_ALL_def)
  show "shape_as_str v = shape_as_str w \<Longrightarrow> v = w"
    by (cases v; cases w) simp_all
qed

interpretation canary_words: word_list canary_as_str canary_level_ALL
proof
  fix v w :: canary_level
  show "v \<in> set canary_level_ALL"
    by (cases v) (simp_all add: canary_level_ALL_def)
  show "canary_as_str v = canary_as_str w \<Longrightarrow> v = w"
    by (cases v; cases w) simp_all
qed

interpretation status_words: word_list evidence_status_as_str evidence_status_ALL
proof
  fix v w :: evidence_status
  show "v \<in> set evidence_status_ALL"
    by (cases v) (simp_all add: evidence_status_ALL_def)
  show "evidence_status_as_str v = evidence_status_as_str w \<Longrightarrow> v = w"
    by (cases v; cases w) simp_all
qed

lemma locator_roundtrip:
  "locator_from_columns (locator_kind_str l) (fst (locator_bounds l)) (snd (locator_bounds l)) = Some l"
  by (cases l) (simp_all add: locator_from_columns_def)

end
