(* ===== verification/Domain_Events.thy ===== *)
theory Domain_Events
  imports Event_Log Ingest_Vocabulary
begin

text \<open>
  The v0 event vocabulary of \<open>crates/pos-domain/src/events.rs\<close>: the enumerations with their stored
  words, the versioned bodies, \<open>DomainEvent\<close> with its kind tags, entity references, body codec and
  append requests.

  The CBOR codec of the bodies is the record \<open>domain_codec\<close>: what \<open>ciborium\<close> writes for a body and
  what it reads when the body type of a kind is expected. \<open>domain_codec_ok\<close> states its round trip.
  A body enumeration is a datatype with one constructor per version; a version with many fields is
  a record.
\<close>

section \<open>Enumerations\<close>

datatype (plugins only: code size) run_outcome = Completed | OutcomeFailed | Canceled

fun as_status_str :: "run_outcome \<Rightarrow> string" where
  "as_status_str Completed = ''done''"
| "as_status_str OutcomeFailed = ''failed''"
| "as_status_str Canceled = ''canceled''"

datatype (plugins only: code size) run_runtime_kind = Native | External

fun runtime_kind_as_str :: "run_runtime_kind \<Rightarrow> string" where
  "runtime_kind_as_str Native = ''native''"
| "runtime_kind_as_str External = ''external''"

datatype (plugins only: code size) run_runtime_ref = RunRuntimeRefFields
  (rt_kind: run_runtime_kind)
  (rt_runtime_id: string)
  (rt_contract_version: u16)

datatype (plugins only: code size) run_executor = Device | Cloud

fun executor_as_str :: "run_executor \<Rightarrow> string" where
  "executor_as_str Device = ''device''"
| "executor_as_str Cloud = ''cloud''"

datatype (plugins only: code size) run_trigger = TriggerUser | TriggerSchedule | TriggerSubscription | TriggerParentRun | TriggerRetry

fun trigger_as_str :: "run_trigger \<Rightarrow> string" where
  "trigger_as_str TriggerUser = ''user''"
| "trigger_as_str TriggerSchedule = ''schedule''"
| "trigger_as_str TriggerSubscription = ''subscription''"
| "trigger_as_str TriggerParentRun = ''parent_run''"
| "trigger_as_str TriggerRetry = ''retry''"

record run_budget =
  b_tokens :: u64
  b_usd_micros :: u64
  b_wall_ms :: u64
  b_storage_bytes :: u64
  b_tool_calls :: u32
  b_retries :: u32
  b_steps :: u32

record run_usage =
  u_tokens :: u64
  u_usd_micros :: u64
  u_wall_ms :: u64
  u_storage_bytes :: u64
  u_tool_calls :: u32
  u_retries :: u32
  u_steps :: u32

datatype (plugins only: code size) run_budget_dimension =
  DimTokens | DimUsdMicros | DimWallMs | DimStorageBytes | DimToolCalls | DimRetries | DimSteps

fun dimension_as_str :: "run_budget_dimension \<Rightarrow> string" where
  "dimension_as_str DimTokens = ''tokens''"
| "dimension_as_str DimUsdMicros = ''usd_micros''"
| "dimension_as_str DimWallMs = ''wall_ms''"
| "dimension_as_str DimStorageBytes = ''storage_bytes''"
| "dimension_as_str DimToolCalls = ''tool_calls''"
| "dimension_as_str DimRetries = ''retries''"
| "dimension_as_str DimSteps = ''steps''"

definition dimension_ALL :: "run_budget_dimension list" where
  "dimension_ALL =
     [DimTokens, DimUsdMicros, DimWallMs, DimStorageBytes, DimToolCalls, DimRetries, DimSteps]"

definition dimension_parse :: "string \<Rightarrow> run_budget_dimension option" where
  "dimension_parse = parse_word dimension_as_str dimension_ALL"

datatype (plugins only: code size) run_step_phase = Preflight | Context | Tool | Validation | Report

fun phase_as_str :: "run_step_phase \<Rightarrow> string" where
  "phase_as_str Preflight = ''preflight''"
| "phase_as_str Context = ''context''"
| "phase_as_str Tool = ''tool''"
| "phase_as_str Validation = ''validation''"
| "phase_as_str Report = ''report''"

datatype (plugins only: code size) run_tool_call = RunToolCallFields
  (tc_tool_id: string)
  (tc_descriptor_version: u16)
  (tc_call_id: id16)
  (tc_idempotency_key: string)
  (tc_input: bytes)

datatype (plugins only: code size) run_tool_grant_mode = Allow | Gate | Block

fun grant_mode_as_str :: "run_tool_grant_mode \<Rightarrow> string" where
  "grant_mode_as_str Allow = ''allow''"
| "grant_mode_as_str Gate = ''gate''"
| "grant_mode_as_str Block = ''block''"

definition grant_mode_ALL :: "run_tool_grant_mode list" where
  "grant_mode_ALL = [Allow, Gate, Block]"

definition grant_mode_parse :: "string \<Rightarrow> run_tool_grant_mode option" where
  "grant_mode_parse = parse_word grant_mode_as_str grant_mode_ALL"

datatype (plugins only: code size) run_tool_grant = RunToolGrantFields
  (tg_tool_id: string)
  (tg_mode: run_tool_grant_mode)

datatype (plugins only: code size) run_checkpoint_ref = RunCheckpointRefFields
  (cp_checkpoint_id: id16)
  (cp_step_index: u32)

datatype (plugins only: code size) run_validation_status = Passed | ValidationFailed | Inconclusive

fun validation_as_str :: "run_validation_status \<Rightarrow> string" where
  "validation_as_str Passed = ''passed''"
| "validation_as_str ValidationFailed = ''failed''"
| "validation_as_str Inconclusive = ''inconclusive''"

definition validation_ALL :: "run_validation_status list" where
  "validation_ALL = [Passed, ValidationFailed, Inconclusive]"

definition validation_parse :: "string \<Rightarrow> run_validation_status option" where
  "validation_parse = parse_word validation_as_str validation_ALL"

datatype (plugins only: code size) run_validation_ref = RunValidationRefFields
  (vr_validation_id: id16)
  (vr_status: run_validation_status)

datatype (plugins only: code size) run_execution_lease_ref = RunExecutionLeaseRefFields
  (el_lease_id: id16)
  (el_generation: u64)

datatype (plugins only: code size) run_pause_cause =
    PauseBudget run_budget_dimension u64 u64 u64 u64
  | PauseRequested string
  | PauseToolWeather string
  | PauseReservationExceeded run_budget_dimension

datatype (plugins only: code size) job_priority = High | Normal | Low

fun priority_rank :: "job_priority \<Rightarrow> u8" where
  "priority_rank High = 0"
| "priority_rank Normal = 1"
| "priority_rank Low = 2"

definition priority_from_rank :: "u8 \<Rightarrow> job_priority option" where
  "priority_from_rank rank =
     (if rank = 0 then Some High else if rank = 1 then Some Normal
      else if rank = 2 then Some Low else None)"

datatype (plugins only: code size) job_class = Foreground | Ingest | Maintenance

fun class_as_str :: "job_class \<Rightarrow> string" where
  "class_as_str Foreground = ''foreground''"
| "class_as_str Ingest = ''ingest''"
| "class_as_str Maintenance = ''maintenance''"

definition class_ALL :: "job_class list" where
  "class_ALL = [Foreground, Ingest, Maintenance]"

definition class_parse :: "string \<Rightarrow> job_class option" where
  "class_parse = parse_word class_as_str class_ALL"

datatype (plugins only: code size) cron_overlap_policy = Skip | QueueFiring | CancelPrevious

fun overlap_as_str :: "cron_overlap_policy \<Rightarrow> string" where
  "overlap_as_str Skip = ''skip''"
| "overlap_as_str QueueFiring = ''queue''"
| "overlap_as_str CancelPrevious = ''cancel_previous''"

definition overlap_ALL :: "cron_overlap_policy list" where
  "overlap_ALL = [Skip, QueueFiring, CancelPrevious]"

definition overlap_parse :: "string \<Rightarrow> cron_overlap_policy option" where
  "overlap_parse = parse_word overlap_as_str overlap_ALL"

datatype (plugins only: code size) job_cron_origin = JobCronOriginFields
  (co_cron_id: id16)
  (co_scheduled_ts_ms: u64)

datatype (plugins only: code size) job_dead_reason = RetriesExhausted string | Refused string | SupersededByCron id16

fun dead_reason_code :: "job_dead_reason \<Rightarrow> string" where
  "dead_reason_code (RetriesExhausted _) = ''retries_exhausted''"
| "dead_reason_code (Refused _) = ''refused''"
| "dead_reason_code (SupersededByCron _) = ''superseded_by_cron''"

section \<open>Bodies\<close>

datatype (plugins only: code size) project_created_body = ProjectCreatedV1 id16 string string
datatype (plugins only: code size) project_renamed_body = ProjectRenamedV1 id16 string

datatype (plugins only: code size) run_started_v2 = RunStartedV2Fields
  (rs_run_id: id16)
  (rs_project_id: id16)
  (rs_worker: string)
  (rs_runtime: run_runtime_ref)
  (rs_executor: run_executor)
  (rs_trigger: run_trigger)
  (rs_autonomy_level: u8)
  (rs_budget: run_budget)
  (rs_tool_grants: "run_tool_grant list")
  (rs_parent_run_id: "id16 option")
  (rs_lineage_depth: u8)
  (rs_checkpoint: "run_checkpoint_ref option")
  (rs_validation: "run_validation_ref option")
  (rs_execution_lease: "run_execution_lease_ref option")
  (rs_tainted: bool)

datatype (plugins only: code size) run_started_body = RunStartedV1 id16 string string | RunStartedV2 run_started_v2

datatype (plugins only: code size) run_step_committed_v2 = RunStepCommittedV2Fields
  (rsc_run_id: id16)
  (rsc_step_index: u32)
  (rsc_phase: run_step_phase)
  (rsc_summary: string)
  (rsc_digest: digest32)
  (rsc_tool_call: "run_tool_call option")
  (rsc_reserved: run_usage)

datatype (plugins only: code size) run_step_committed_body =
  RunStepCommittedV1 id16 u32 string | RunStepCommittedV2 run_step_committed_v2

datatype (plugins only: code size) run_finished_body =
    RunFinishedV1 id16 run_outcome u32
  | RunFinishedV2 id16 run_outcome u32 run_usage "run_validation_ref option"

datatype (plugins only: code size) run_tool_effect_recorded_body = RunToolEffectRecordedV1 id16 u32 id16 string digest32 run_usage
datatype (plugins only: code size) run_checkpoint_saved_body = RunCheckpointSavedV1 id16 u32 id16 digest32
datatype (plugins only: code size) run_artifact_recorded_body = RunArtifactRecordedV1 id16 u32 id16 digest32 string u64
datatype (plugins only: code size) run_validation_recorded_body =
  RunValidationRecordedV1 id16 u32 id16 run_validation_status string
datatype (plugins only: code size) run_pause_requested_body = RunPauseRequestedV1 id16 string
datatype (plugins only: code size) run_paused_body = RunPausedV1 id16 u32 run_pause_cause run_usage
datatype (plugins only: code size) run_resumed_body = RunResumedV1 id16 u32
datatype (plugins only: code size) run_cancel_requested_body = RunCancelRequestedV1 id16 string
datatype (plugins only: code size) run_canceled_body = RunCanceledV1 id16 u32
datatype (plugins only: code size) run_taint_raised_body = RunTaintRaisedV1 id16 string
datatype (plugins only: code size) run_question_asked_body = RunQuestionAskedV1 id16 id16 string
datatype (plugins only: code size) run_question_answered_body = RunQuestionAnsweredV1 id16 id16 id16 string
datatype (plugins only: code size) run_gate_approved_body = RunGateApprovedV1 id16 id16 id16 id16 string u64

datatype (plugins only: code size) job_enqueued_v2 = JobEnqueuedV2Fields
  (je_job_id: id16)
  (je_project_id: id16)
  (je_job_kind: string)
  (je_idempotency_key: string)
  (je_priority: job_priority)
  (je_class: job_class)
  (je_payload: bytes)
  (je_run_at_ts_ms: u64)
  (je_attempt_count_max: u32)
  (je_cron: "job_cron_origin option")

datatype (plugins only: code size) job_enqueued_body = JobEnqueuedV1 id16 string | JobEnqueuedV2 job_enqueued_v2
datatype (plugins only: code size) job_completed_body = JobCompletedV1 id16 u32 | JobCompletedV2 id16 u32 u64
datatype (plugins only: code size) job_attempt_failed_body = JobAttemptFailedV1 id16 u32 string string u64
datatype (plugins only: code size) job_dead_body = JobDeadV1 id16 u32 job_dead_reason

datatype (plugins only: code size) cron_registered_v1 = CronRegisteredV1Fields
  (cr_cron_id: id16)
  (cr_project_id: id16)
  (cr_job_kind: string)
  (cr_expr: string)
  (cr_tz: string)
  (cr_overlap_policy: cron_overlap_policy)
  (cr_enabled: bool)
  (cr_priority: job_priority)
  (cr_class: job_class)
  (cr_payload: bytes)

datatype (plugins only: code size) cron_registered_body = CronRegisteredV1 cron_registered_v1
datatype (plugins only: code size) cron_enablement_set_body = CronEnablementSetV1 id16 bool
datatype (plugins only: code size) account_audited_body = AccountAuditedV1 id16 string string

datatype (plugins only: code size) model_call_completed_v1 = ModelCallCompletedV1Fields
  (mc_project_id: id16)
  (mc_feature: string)
  (mc_agent: "string option")
  (mc_provider: string)
  (mc_credential_class: string)
  (mc_model: string)
  (mc_tokens_in: u64)
  (mc_tokens_out: u64)
  (mc_wall_ms: u64)
  (mc_provider_cost_kind: string)
  (mc_usd_micros: u64)
  (mc_outcome: string)

datatype (plugins only: code size) model_call_completed_body = ModelCallCompletedV1 model_call_completed_v1

section \<open>The vocabulary\<close>

datatype (plugins only: code size) domain_event =
    ProjectCreated project_created_body
  | ProjectRenamed project_renamed_body
  | RunStarted run_started_body
  | RunStepCommitted run_step_committed_body
  | RunToolEffectRecorded run_tool_effect_recorded_body
  | RunCheckpointSaved run_checkpoint_saved_body
  | RunArtifactRecorded run_artifact_recorded_body
  | RunValidationRecorded run_validation_recorded_body
  | RunPauseRequested run_pause_requested_body
  | RunPaused run_paused_body
  | RunResumed run_resumed_body
  | RunCancelRequested run_cancel_requested_body
  | RunCanceled run_canceled_body
  | RunTaintRaised run_taint_raised_body
  | RunQuestionAsked run_question_asked_body
  | RunQuestionAnswered run_question_answered_body
  | RunGateApproved run_gate_approved_body
  | RunFinished run_finished_body
  | JobEnqueued job_enqueued_body
  | JobAttemptFailed job_attempt_failed_body
  | JobCompleted job_completed_body
  | JobDead job_dead_body
  | CronRegistered cron_registered_body
  | CronEnablementSet cron_enablement_set_body
  | AccountAudited account_audited_body
  | ModelCallCompleted model_call_completed_body
  | EvidenceAdded evidence_added_body
  | IngestStageStarted ingest_stage_started_body
  | IngestStageFinished ingest_stage_finished_body
  | IngestStageFailed ingest_stage_failed_body
  | EvidenceChunked evidence_chunked_body
  | EvidenceEmbedded evidence_embedded_body
  | EvidenceReprocessRequested evidence_reprocess_requested_body
  | EvidenceTranscribed evidence_transcribed_body
  | TranscriptSpeakerNamed transcript_speaker_named_body
  | TranscriptSegmentSpeakerSet transcript_segment_speaker_set_body
  | TranscriptTextCorrected transcript_text_corrected_body

fun domain_kind_tag :: "domain_event \<Rightarrow> kind_tag" where
  "domain_kind_tag (ProjectCreated _) = ''ProjectCreated''"
| "domain_kind_tag (ProjectRenamed _) = ''ProjectRenamed''"
| "domain_kind_tag (RunStarted _) = ''RunStarted''"
| "domain_kind_tag (RunStepCommitted _) = ''RunStepCommitted''"
| "domain_kind_tag (RunToolEffectRecorded _) = ''RunToolEffectRecorded''"
| "domain_kind_tag (RunCheckpointSaved _) = ''RunCheckpointSaved''"
| "domain_kind_tag (RunArtifactRecorded _) = ''RunArtifactRecorded''"
| "domain_kind_tag (RunValidationRecorded _) = ''RunValidationRecorded''"
| "domain_kind_tag (RunPauseRequested _) = ''RunPauseRequested''"
| "domain_kind_tag (RunPaused _) = ''RunPaused''"
| "domain_kind_tag (RunResumed _) = ''RunResumed''"
| "domain_kind_tag (RunCancelRequested _) = ''RunCancelRequested''"
| "domain_kind_tag (RunCanceled _) = ''RunCanceled''"
| "domain_kind_tag (RunTaintRaised _) = ''RunTaintRaised''"
| "domain_kind_tag (RunQuestionAsked _) = ''RunQuestionAsked''"
| "domain_kind_tag (RunQuestionAnswered _) = ''RunQuestionAnswered''"
| "domain_kind_tag (RunGateApproved _) = ''RunGateApproved''"
| "domain_kind_tag (RunFinished _) = ''RunFinished''"
| "domain_kind_tag (JobEnqueued _) = ''JobEnqueued''"
| "domain_kind_tag (JobAttemptFailed _) = ''JobAttemptFailed''"
| "domain_kind_tag (JobCompleted _) = ''JobCompleted''"
| "domain_kind_tag (JobDead _) = ''JobDead''"
| "domain_kind_tag (CronRegistered _) = ''CronRegistered''"
| "domain_kind_tag (CronEnablementSet _) = ''CronEnablementSet''"
| "domain_kind_tag (AccountAudited _) = ''AccountAudited''"
| "domain_kind_tag (ModelCallCompleted _) = ''ModelCallCompleted''"
| "domain_kind_tag (EvidenceAdded _) = ''EvidenceAdded''"
| "domain_kind_tag (IngestStageStarted _) = ''IngestStageStarted''"
| "domain_kind_tag (IngestStageFinished _) = ''IngestStageFinished''"
| "domain_kind_tag (IngestStageFailed _) = ''IngestStageFailed''"
| "domain_kind_tag (EvidenceChunked _) = ''EvidenceChunked''"
| "domain_kind_tag (EvidenceEmbedded _) = ''EvidenceEmbedded''"
| "domain_kind_tag (EvidenceReprocessRequested _) = ''EvidenceReprocessRequested''"
| "domain_kind_tag (EvidenceTranscribed _) = ''EvidenceTranscribed''"
| "domain_kind_tag (TranscriptSpeakerNamed _) = ''TranscriptSpeakerNamed''"
| "domain_kind_tag (TranscriptSegmentSpeakerSet _) = ''TranscriptSegmentSpeakerSet''"
| "domain_kind_tag (TranscriptTextCorrected _) = ''TranscriptTextCorrected''"

text \<open>The kinds \<open>DomainEvent::decode\<close> knows.\<close>

definition known_kinds :: "kind_tag list" where
  "known_kinds =
     [''ProjectCreated'', ''ProjectRenamed'', ''RunStarted'',
      ''RunStepCommitted'', ''RunToolEffectRecorded'', ''RunCheckpointSaved'',
      ''RunArtifactRecorded'', ''RunValidationRecorded'', ''RunPauseRequested'',
      ''RunPaused'', ''RunResumed'', ''RunCancelRequested'',
      ''RunCanceled'', ''RunTaintRaised'', ''RunQuestionAsked'',
      ''RunQuestionAnswered'', ''RunGateApproved'', ''RunFinished'',
      ''JobEnqueued'', ''JobAttemptFailed'', ''JobCompleted'',
      ''JobDead'', ''CronRegistered'', ''CronEnablementSet'',
      ''AccountAudited'', ''ModelCallCompleted'', ''EvidenceAdded'',
      ''IngestStageStarted'', ''IngestStageFinished'', ''IngestStageFailed'',
      ''EvidenceChunked'', ''EvidenceEmbedded'', ''EvidenceReprocessRequested'',
      ''EvidenceTranscribed'', ''TranscriptSpeakerNamed'', ''TranscriptSegmentSpeakerSet'',
      ''TranscriptTextCorrected'']"

definition entref :: "string \<Rightarrow> id16 \<Rightarrow> entity_ref" where
  "entref noun i = \<lparr>entity = noun, ref_id = i\<rparr>"

definition run_refs :: "id16 \<Rightarrow> entity_ref list" where
  "run_refs run_id = [entref ''run'' run_id]"

text \<open>\<open>if let Some(x) = option { refs.push(..) }\<close>.\<close>

definition opt_ref :: "string \<Rightarrow> ('a \<Rightarrow> id16) \<Rightarrow> 'a option \<Rightarrow> entity_ref list" where
  "opt_ref noun f v = (case v of None \<Rightarrow> [] | Some a \<Rightarrow> [entref noun (f a)])"

fun domain_refs :: "domain_event \<Rightarrow> entity_ref list" where
  "domain_refs (ProjectCreated (ProjectCreatedV1 project_id _ _)) = [entref ''project'' project_id]"
| "domain_refs (ProjectRenamed (ProjectRenamedV1 project_id _)) = [entref ''project'' project_id]"
| "domain_refs (RunStarted (RunStartedV1 run_id _ _)) = run_refs run_id"
| "domain_refs (RunStepCommitted (RunStepCommittedV1 run_id _ _)) = run_refs run_id"
| "domain_refs (RunFinished (RunFinishedV1 run_id _ _)) = run_refs run_id"
| "domain_refs (RunStarted (RunStartedV2 b)) =
     run_refs (rs_run_id b) @ [entref ''project'' (rs_project_id b)] @
     opt_ref ''run'' (\<lambda>i. i) (rs_parent_run_id b) @
     opt_ref ''checkpoint'' cp_checkpoint_id (rs_checkpoint b) @
     opt_ref ''validation'' vr_validation_id (rs_validation b) @
     opt_ref ''execution_lease'' el_lease_id (rs_execution_lease b)"
| "domain_refs (RunStepCommitted (RunStepCommittedV2 b)) =
     run_refs (rsc_run_id b) @ opt_ref ''tool_call'' tc_call_id (rsc_tool_call b)"
| "domain_refs (RunToolEffectRecorded (RunToolEffectRecordedV1 run_id _ call_id _ _ _)) =
     run_refs run_id @ [entref ''tool_call'' call_id]"
| "domain_refs (RunCheckpointSaved (RunCheckpointSavedV1 run_id _ checkpoint_id _)) =
     run_refs run_id @ [entref ''checkpoint'' checkpoint_id]"
| "domain_refs (RunArtifactRecorded (RunArtifactRecordedV1 run_id _ artifact_id _ _ _)) =
     run_refs run_id @ [entref ''artifact'' artifact_id]"
| "domain_refs (RunValidationRecorded (RunValidationRecordedV1 run_id _ validation_id _ _)) =
     run_refs run_id @ [entref ''validation'' validation_id]"
| "domain_refs (RunPauseRequested (RunPauseRequestedV1 run_id _)) = run_refs run_id"
| "domain_refs (RunPaused (RunPausedV1 run_id _ _ _)) = run_refs run_id"
| "domain_refs (RunResumed (RunResumedV1 run_id _)) = run_refs run_id"
| "domain_refs (RunCancelRequested (RunCancelRequestedV1 run_id _)) = run_refs run_id"
| "domain_refs (RunCanceled (RunCanceledV1 run_id _)) = run_refs run_id"
| "domain_refs (RunTaintRaised (RunTaintRaisedV1 run_id _)) = run_refs run_id"
| "domain_refs (RunQuestionAsked (RunQuestionAskedV1 run_id question_id _)) =
     run_refs run_id @ [entref ''question'' question_id]"
| "domain_refs (RunQuestionAnswered (RunQuestionAnsweredV1 run_id question_id answered_by _)) =
     run_refs run_id @ [entref ''question'' question_id, entref ''user'' answered_by]"
| "domain_refs (RunGateApproved (RunGateApprovedV1 run_id receipt_id call_id approved_by _ _)) =
     run_refs run_id @
     [entref ''gate_receipt'' receipt_id, entref ''tool_call'' call_id, entref ''user'' approved_by]"
| "domain_refs (RunFinished (RunFinishedV2 run_id _ _ _ validation)) =
     run_refs run_id @ opt_ref ''validation'' vr_validation_id validation"
| "domain_refs (JobEnqueued (JobEnqueuedV1 job_id _)) = [entref ''job'' job_id]"
| "domain_refs (JobCompleted (JobCompletedV1 job_id _)) = [entref ''job'' job_id]"
| "domain_refs (JobCompleted (JobCompletedV2 job_id _ _)) = [entref ''job'' job_id]"
| "domain_refs (JobAttemptFailed (JobAttemptFailedV1 job_id _ _ _ _)) = [entref ''job'' job_id]"
| "domain_refs (JobEnqueued (JobEnqueuedV2 b)) =
     [entref ''job'' (je_job_id b), entref ''project'' (je_project_id b)] @
     opt_ref ''cron'' co_cron_id (je_cron b)"
| "domain_refs (JobDead (JobDeadV1 job_id _ reason)) =
     [entref ''job'' job_id] @
     (case reason of SupersededByCron cron_id \<Rightarrow> [entref ''cron'' cron_id] | _ \<Rightarrow> [])"
| "domain_refs (CronRegistered (CronRegisteredV1 b)) =
     [entref ''cron'' (cr_cron_id b), entref ''project'' (cr_project_id b)]"
| "domain_refs (CronEnablementSet (CronEnablementSetV1 cron_id _)) = [entref ''cron'' cron_id]"
| "domain_refs (AccountAudited (AccountAuditedV1 account_id _ _)) = [entref ''account'' account_id]"
| "domain_refs (ModelCallCompleted (ModelCallCompletedV1 b)) = [entref ''project'' (mc_project_id b)]"
| "domain_refs (EvidenceAdded (EvidenceAddedV1 b)) =
     [entref ''evidence'' (ea_evidence_id b), entref ''source'' (ea_source_id b)]"
| "domain_refs (IngestStageStarted (IngestStageStartedV1 b)) =
     [entref ''evidence'' (iss_evidence_id b), entref ''job'' (iss_job_id b)]"
| "domain_refs (IngestStageFinished (IngestStageFinishedV1 b)) = [entref ''evidence'' (isf_evidence_id b)]"
| "domain_refs (IngestStageFailed (IngestStageFailedV1 b)) = [entref ''evidence'' (isx_evidence_id b)]"
| "domain_refs (EvidenceReprocessRequested (EvidenceReprocessRequestedV1 evidence_id _ _ _)) =
     [entref ''evidence'' evidence_id]"
| "domain_refs (EvidenceTranscribed (EvidenceTranscribedV1 evidence_id _ _ _)) =
     [entref ''evidence'' evidence_id]"
| "domain_refs (TranscriptSpeakerNamed (TranscriptSpeakerNamedV1 evidence_id _ _)) =
     [entref ''evidence'' evidence_id]"
| "domain_refs (TranscriptSegmentSpeakerSet (TranscriptSegmentSpeakerSetV1 evidence_id _ _ _)) =
     [entref ''evidence'' evidence_id]"
| "domain_refs (TranscriptTextCorrected (TranscriptTextCorrectedV1 evidence_id _ _ _)) =
     [entref ''evidence'' evidence_id]"
| "domain_refs (EvidenceChunked (EvidenceChunkedV1 evidence_id _ _ chunks)) =
     entref ''evidence'' evidence_id # map (\<lambda>c. entref ''chunk'' (cf_chunk_id c)) chunks"
| "domain_refs (EvidenceEmbedded (EvidenceEmbeddedV1 b)) =
     entref ''evidence'' (ee_evidence_id b) # map (\<lambda>c. entref ''chunk'' (ce_chunk_id c)) (ee_chunks b)"

section \<open>Bodies as bytes\<close>

record 'b domain_codec =
  dc_write :: "domain_event \<Rightarrow> 'b"
  dc_read :: "kind_tag \<Rightarrow> 'b \<Rightarrow> domain_event option"

text \<open>
  Reading a body under its own kind gives the event back, and what is read under a kind is an
  event of that kind (the type the reader asks for).
\<close>

definition domain_codec_ok :: "'b domain_codec \<Rightarrow> bool" where
  "domain_codec_ok dc \<longleftrightarrow>
     (\<forall>e. dc_read dc (domain_kind_tag e) (dc_write dc e) = Some e) \<and>
     (\<forall>k b e. dc_read dc k b = Some e \<longrightarrow> domain_kind_tag e = k)"

definition encode_body :: "'b domain_codec \<Rightarrow> domain_event \<Rightarrow> 'b" where
  "encode_body dc e = dc_write dc e"

text \<open>\<open>Inl\<close> carries the kind of the body that did not decode.\<close>

definition domain_decode :: "'b domain_codec \<Rightarrow> kind_tag \<Rightarrow> 'b \<Rightarrow> kind_tag + domain_event option" where
  "domain_decode dc kind body =
     (if kind \<in> set known_kinds then
        (case dc_read dc kind body of None \<Rightarrow> Inl kind | Some e \<Rightarrow> Inr (Some e))
      else Inr None)"

definition into_request ::
  "'b domain_codec \<Rightarrow> domain_event \<Rightarrow> id16 \<Rightarrow> actor \<Rightarrow> log_error + 'b append_request" where
  "into_request dc e device actor =
     rbind (kind_tag_new (domain_kind_tag e)) (\<lambda>kind.
       Inr \<lparr>ar_device = device, ar_actor = actor, ar_kind = kind, ar_body = encode_body dc e,
            ar_refs = domain_refs e\<rparr>)"

section \<open>Lemmas\<close>

interpretation dimension_words: word_list dimension_as_str dimension_ALL
proof
  fix v w :: run_budget_dimension
  show "v \<in> set dimension_ALL"
    by (cases v) (simp_all add: dimension_ALL_def)
  show "dimension_as_str v = dimension_as_str w \<Longrightarrow> v = w"
    by (cases v; cases w) simp_all
qed

interpretation grant_words: word_list grant_mode_as_str grant_mode_ALL
proof
  fix v w :: run_tool_grant_mode
  show "v \<in> set grant_mode_ALL"
    by (cases v) (simp_all add: grant_mode_ALL_def)
  show "grant_mode_as_str v = grant_mode_as_str w \<Longrightarrow> v = w"
    by (cases v; cases w) simp_all
qed

interpretation validation_words: word_list validation_as_str validation_ALL
proof
  fix v w :: run_validation_status
  show "v \<in> set validation_ALL"
    by (cases v) (simp_all add: validation_ALL_def)
  show "validation_as_str v = validation_as_str w \<Longrightarrow> v = w"
    by (cases v; cases w) simp_all
qed

interpretation class_words: word_list class_as_str class_ALL
proof
  fix v w :: job_class
  show "v \<in> set class_ALL"
    by (cases v) (simp_all add: class_ALL_def)
  show "class_as_str v = class_as_str w \<Longrightarrow> v = w"
    by (cases v; cases w) simp_all
qed

interpretation overlap_words: word_list overlap_as_str overlap_ALL
proof
  fix v w :: cron_overlap_policy
  show "v \<in> set overlap_ALL"
    by (cases v) (simp_all add: overlap_ALL_def)
  show "overlap_as_str v = overlap_as_str w \<Longrightarrow> v = w"
    by (cases v; cases w) simp_all
qed

lemma priority_from_rank_rank [simp]: "priority_from_rank (priority_rank p) = Some p"
  by (cases p) (simp_all add: priority_from_rank_def)

lemma domain_kind_tag_known: "domain_kind_tag e \<in> set known_kinds"
  by (cases e) (simp_all add: known_kinds_def)

lemma known_kinds_valid: "list_all valid_kind_tag known_kinds"
  by (simp add: known_kinds_def valid_kind_tag_def KIND_TAG_LEN_MAX_def is_ascii_alphanumeric_def)

lemma domain_kind_tag_valid: "valid_kind_tag (domain_kind_tag e)"
  using known_kinds_valid domain_kind_tag_known by (auto simp: list_all_iff)

lemma domain_decode_encode:
  "domain_codec_ok dc \<Longrightarrow> domain_decode dc (domain_kind_tag e) (encode_body dc e) = Inr (Some e)"
  by (simp add: domain_decode_def encode_body_def domain_codec_ok_def domain_kind_tag_known)

lemma domain_decode_kind:
  "domain_codec_ok dc \<Longrightarrow> domain_decode dc k b = Inr (Some e) \<Longrightarrow> domain_kind_tag e = k"
  by (auto simp: domain_decode_def domain_codec_ok_def split: if_splits option.splits)

lemma into_request_Inr:
  "into_request dc e device actor =
     Inr \<lparr>ar_device = device, ar_actor = actor, ar_kind = domain_kind_tag e,
          ar_body = encode_body dc e, ar_refs = domain_refs e\<rparr>"
  by (simp add: into_request_def kind_tag_new_def domain_kind_tag_valid)

end
