(* ===== verification/Projections.thy ===== *)
theory Projections
  imports Domain_Events
begin

text \<open>
  The v0 core projections of \<open>crates/pos-domain/src/projections.rs\<close>: eight declared tables and,
  for each, the pure function from an event to typed row writes. The ingestion tables of
  \<open>ingest_projections.rs\<close> are further projections of the same registry and are not part of this
  theory; a registry is the list it is built from, so everything proved of a registry that contains
  these eight holds of the full one.
\<close>

section \<open>Shared helpers\<close>

definition decode_for ::
  "'b domain_codec \<Rightarrow> table_def \<Rightarrow> 'b event \<Rightarrow> apply_error + domain_event option" where
  "decode_for dc tb ev = map_err (DecodeFailed (tbl_name tb)) (domain_decode dc (ev_kind ev) (ev_body ev))"

definition seq_value :: "'b event \<Rightarrow> sql_value" where
  "seq_value ev = Integer (sat_i64 (ev_seq ev))"

definition integer_u64 :: "u64 \<Rightarrow> sql_value" where
  "integer_u64 v = Integer (sat_i64 v)"

definition integer_u32 :: "u32 \<Rightarrow> sql_value" where
  "integer_u32 v = Integer (i64_of v)"

definition id_blob :: "id16 \<Rightarrow> sql_value" where
  "id_blob i = Blob (into_bytes i)"

definition optional_id_blob :: "id16 option \<Rightarrow> sql_value" where
  "optional_id_blob i = (case i of None \<Rightarrow> Null | Some v \<Rightarrow> id_blob v)"

definition bool_integer :: "bool \<Rightarrow> sql_value" where
  "bool_integer b = Integer (if b then 1 else 0)"

definition budget_values :: "run_budget \<Rightarrow> sql_value list" where
  "budget_values b =
     [integer_u64 (b_tokens b), integer_u64 (b_usd_micros b), integer_u64 (b_wall_ms b),
      integer_u64 (b_storage_bytes b), integer_u32 (b_tool_calls b), integer_u32 (b_retries b),
      integer_u32 (b_steps b)]"

definition usage_values :: "run_usage \<Rightarrow> sql_value list" where
  "usage_values u =
     [integer_u64 (u_tokens u), integer_u64 (u_usd_micros u), integer_u64 (u_wall_ms u),
      integer_u64 (u_storage_bytes u), integer_u32 (u_tool_calls u), integer_u32 (u_retries u),
      integer_u32 (u_steps u)]"

definition usage_deltas :: "run_usage \<Rightarrow> (string \<times> i64) list" where
  "usage_deltas u =
     [(''spent_tokens'', sat_i64 (u_tokens u)), (''spent_usd_micros'', sat_i64 (u_usd_micros u)),
      (''spent_wall_ms'', sat_i64 (u_wall_ms u)), (''spent_storage_bytes'', sat_i64 (u_storage_bytes u)),
      (''spent_tool_calls'', i64_of (u_tool_calls u)), (''spent_retries'', i64_of (u_retries u)),
      (''spent_steps'', i64_of (u_steps u))]"

definition usage_assignments :: "run_usage \<Rightarrow> assignments" where
  "usage_assignments u =
     [(''spent_tokens'', integer_u64 (u_tokens u)), (''spent_usd_micros'', integer_u64 (u_usd_micros u)),
      (''spent_wall_ms'', integer_u64 (u_wall_ms u)),
      (''spent_storage_bytes'', integer_u64 (u_storage_bytes u)),
      (''spent_tool_calls'', integer_u32 (u_tool_calls u)), (''spent_retries'', integer_u32 (u_retries u)),
      (''spent_steps'', integer_u32 (u_steps u))]"

definition usage_default :: run_usage where
  "usage_default =
     \<lparr>u_tokens = 0, u_usd_micros = 0, u_wall_ms = 0, u_storage_bytes = 0, u_tool_calls = 0,
      u_retries = 0, u_steps = 0\<rparr>"

text \<open>
  The common frame of every \<open>apply\<close>: skip other kinds, decode, skip an unknown body, map the fact
  to its writes.
\<close>

definition apply_kinds ::
  "'b domain_codec \<Rightarrow> table_def \<Rightarrow> kind_tag list \<Rightarrow> ('b event \<Rightarrow> domain_event \<Rightarrow> row_write list)
     \<Rightarrow> 'b event \<Rightarrow> apply_error + row_write list" where
  "apply_kinds dc tb kinds writes ev =
     (if ev_kind ev \<notin> set kinds then Inr []
      else rbind (decode_for dc tb ev) (\<lambda>decoded.
        case decoded of None \<Rightarrow> Inr [] | Some e \<Rightarrow> Inr (writes ev e)))"

section \<open>Projects\<close>

definition PROJECTS_TABLE :: table_def where
  "PROJECTS_TABLE =
     \<lparr>tbl_name = ''proj_projects'', tbl_version = 1,
      key_columns = [ColumnDef ''project_id'' KBlob],
      value_columns =
        [ColumnDef ''name'' KText, ColumnDef ''template'' KText,
         ColumnDef ''created_ts_ms'' KInteger],
      indexes = []\<rparr>"

fun project_created_writes :: "'b event \<Rightarrow> project_created_body \<Rightarrow> row_write list" where
  "project_created_writes ev (ProjectCreatedV1 project_id name template) =
     [Upsert [Blob (into_bytes project_id)]
        [Text name, Text template, Integer (sat_i64 (ev_ts_ms ev))]]"

fun project_renamed_writes :: "project_renamed_body \<Rightarrow> row_write list" where
  "project_renamed_writes (ProjectRenamedV1 project_id name) =
     [Update [Blob (into_bytes project_id)] [(''name'', Text name)]]"

definition projects_writes :: "'b event \<Rightarrow> domain_event \<Rightarrow> row_write list" where
  "projects_writes ev e =
     (case e of
        ProjectCreated b \<Rightarrow> project_created_writes ev b
      | ProjectRenamed b \<Rightarrow> project_renamed_writes b
      | _ \<Rightarrow> [])"

definition apply_projects :: "'b domain_codec \<Rightarrow> 'b event \<Rightarrow> apply_error + row_write list" where
  "apply_projects dc = apply_kinds dc PROJECTS_TABLE [''ProjectCreated'', ''ProjectRenamed''] projects_writes"

section \<open>Runs\<close>

definition RUNS_TABLE :: table_def where
  "RUNS_TABLE =
     \<lparr>tbl_name = ''proj_runs'', tbl_version = 2,
      key_columns = [ColumnDef ''run_id'' KBlob],
      value_columns =
        [ColumnDef ''project_id'' KBlob, ColumnDef ''status'' KText, ColumnDef ''worker'' KText,
         ColumnDef ''runtime_kind'' KText, ColumnDef ''runtime_id'' KText,
         ColumnDef ''runtime_contract_version'' KInteger, ColumnDef ''executor'' KText,
         ColumnDef ''trigger'' KText, ColumnDef ''autonomy_level'' KInteger,
         ColumnDef ''started_seq'' KInteger, ColumnDef ''finished_seq'' KInteger,
         ColumnDef ''committed_step_count'' KInteger,
         ColumnDef ''checkpointed_step_count'' KInteger, ColumnDef ''budget_tokens'' KInteger,
         ColumnDef ''budget_usd_micros'' KInteger, ColumnDef ''budget_wall_ms'' KInteger,
         ColumnDef ''budget_storage_bytes'' KInteger, ColumnDef ''budget_tool_calls'' KInteger,
         ColumnDef ''budget_retries'' KInteger, ColumnDef ''budget_steps'' KInteger,
         ColumnDef ''spent_tokens'' KInteger, ColumnDef ''spent_usd_micros'' KInteger,
         ColumnDef ''spent_wall_ms'' KInteger, ColumnDef ''spent_storage_bytes'' KInteger,
         ColumnDef ''spent_tool_calls'' KInteger, ColumnDef ''spent_retries'' KInteger,
         ColumnDef ''spent_steps'' KInteger, ColumnDef ''tainted'' KInteger,
         ColumnDef ''parent_run_id'' KBlob, ColumnDef ''lineage_depth'' KInteger,
         ColumnDef ''checkpoint_id'' KBlob, ColumnDef ''checkpoint_step_index'' KInteger,
         ColumnDef ''validation_id'' KBlob, ColumnDef ''validation_status'' KText,
         ColumnDef ''execution_lease_id'' KBlob,
         ColumnDef ''execution_lease_generation'' KInteger, ColumnDef ''pending_control'' KText,
         ColumnDef ''control_reason'' KText, ColumnDef ''pause_kind'' KText,
         ColumnDef ''pause_detail'' KText, ColumnDef ''pause_dimension'' KText,
         ColumnDef ''pause_limit'' KInteger, ColumnDef ''pause_spent'' KInteger,
         ColumnDef ''pause_pending'' KInteger, ColumnDef ''pause_requested'' KInteger,
         ColumnDef ''question_id'' KBlob, ColumnDef ''question_prompt'' KText],
      indexes = []\<rparr>"

definition unlimited_budget :: run_budget where
  "unlimited_budget =
     \<lparr>b_tokens = - 1, b_usd_micros = - 1, b_wall_ms = - 1, b_storage_bytes = - 1,
      b_tool_calls = - 1, b_retries = - 1, b_steps = - 1\<rparr>"

definition legacy_run_values :: "string \<Rightarrow> string \<Rightarrow> 'b event \<Rightarrow> sql_value list" where
  "legacy_run_values worker trigger ev =
     [Null, Text ''running'', Text worker, Text ''native'', Text ''legacy'', Integer 1,
      Text ''device'', Text trigger, Integer 0, seq_value ev, Null, Integer 0, Integer 0] @
     budget_values unlimited_budget @ usage_values usage_default @
     [Integer 0, Null, Integer 0, Null, Null, Null, Null, Null, Null, Null, Null, Null, Null, Null,
      Null, Null, Null, Null, Null, Null]"

definition run_values_v2 :: "run_started_v2 \<Rightarrow> 'b event \<Rightarrow> sql_value list" where
  "run_values_v2 b ev =
     [id_blob (rs_project_id b), Text ''preflight'', Text (rs_worker b),
      Text (runtime_kind_as_str (rt_kind (rs_runtime b))), Text (rt_runtime_id (rs_runtime b)),
      Integer (i64_of (rt_contract_version (rs_runtime b))), Text (executor_as_str (rs_executor b)),
      Text (trigger_as_str (rs_trigger b)), Integer (i64_of (rs_autonomy_level b)), seq_value ev, Null,
      Integer 0, Integer 0] @
     budget_values (rs_budget b) @ usage_values usage_default @
     [bool_integer (rs_tainted b), optional_id_blob (rs_parent_run_id b),
      Integer (i64_of (rs_lineage_depth b)),
      optional_id_blob (map_option cp_checkpoint_id (rs_checkpoint b)),
      (case rs_checkpoint b of None \<Rightarrow> Null | Some c \<Rightarrow> integer_u32 (cp_step_index c)),
      optional_id_blob (map_option vr_validation_id (rs_validation b)),
      (case rs_validation b of None \<Rightarrow> Null | Some v \<Rightarrow> Text (validation_as_str (vr_status v))),
      optional_id_blob (map_option el_lease_id (rs_execution_lease b)),
      (case rs_execution_lease b of None \<Rightarrow> Null | Some l \<Rightarrow> integer_u64 (el_generation l)),
      Null, Null, Null, Null, Null, Null, Null, Null, Null, Null, Null]"

fun pause_assignments :: "run_pause_cause \<Rightarrow> assignments" where
  "pause_assignments (PauseBudget dimension limit spent pending requested) =
     [(''pause_kind'', Text ''budget''), (''pause_detail'', Null),
      (''pause_dimension'', Text (dimension_as_str dimension)), (''pause_limit'', integer_u64 limit),
      (''pause_spent'', integer_u64 spent), (''pause_pending'', integer_u64 pending),
      (''pause_requested'', integer_u64 requested)]"
| "pause_assignments (PauseRequested reason) =
     [(''pause_kind'', Text ''requested''), (''pause_detail'', Text reason), (''pause_dimension'', Null),
      (''pause_limit'', Null), (''pause_spent'', Null), (''pause_pending'', Null), (''pause_requested'', Null)]"
| "pause_assignments (PauseToolWeather code) =
     [(''pause_kind'', Text ''tool_weather''), (''pause_detail'', Text code), (''pause_dimension'', Null),
      (''pause_limit'', Null), (''pause_spent'', Null), (''pause_pending'', Null), (''pause_requested'', Null)]"
| "pause_assignments (PauseReservationExceeded dimension) =
     [(''pause_kind'', Text ''reservation_exceeded''), (''pause_detail'', Null),
      (''pause_dimension'', Text (dimension_as_str dimension)), (''pause_limit'', Null),
      (''pause_spent'', Null), (''pause_pending'', Null), (''pause_requested'', Null)]"

definition clear_pause_assignments :: assignments where
  "clear_pause_assignments =
     [(''pause_kind'', Null), (''pause_detail'', Null), (''pause_dimension'', Null), (''pause_limit'', Null),
      (''pause_spent'', Null), (''pause_pending'', Null), (''pause_requested'', Null)]"

fun phase_status :: "run_step_phase \<Rightarrow> string" where
  "phase_status Preflight = ''preflight''"
| "phase_status Validation = ''validating''"
| "phase_status Context = ''running''"
| "phase_status Tool = ''running''"
| "phase_status Report = ''running''"

fun run_started_writes :: "'b event \<Rightarrow> run_started_body \<Rightarrow> row_write list" where
  "run_started_writes ev (RunStartedV1 run_id worker trigger) =
     [Insert [Blob (into_bytes run_id)] (legacy_run_values worker trigger ev)]"
| "run_started_writes ev (RunStartedV2 b) = [Insert [id_blob (rs_run_id b)] (run_values_v2 b ev)]"

fun run_step_committed_writes :: "run_step_committed_body \<Rightarrow> row_write list" where
  "run_step_committed_writes (RunStepCommittedV1 run_id _ _) =
     [IncrementOne [id_blob run_id] ''committed_step_count'' 1]"
| "run_step_committed_writes (RunStepCommittedV2 b) =
     [UpdateOne [id_blob (rsc_run_id b)] [(''status'', Text (phase_status (rsc_phase b)))],
      IncrementOne [id_blob (rsc_run_id b)] ''committed_step_count'' 1]"

fun run_finished_writes :: "'b event \<Rightarrow> run_finished_body \<Rightarrow> row_write list" where
  "run_finished_writes ev (RunFinishedV1 run_id outcome _) =
     [UpdateOne [id_blob run_id]
        [(''status'', Text (as_status_str outcome)), (''finished_seq'', seq_value ev)]]"
| "run_finished_writes ev (RunFinishedV2 run_id outcome _ spent validation) =
     [UpdateOne [id_blob run_id]
        ([(''status'', Text (as_status_str outcome)), (''finished_seq'', seq_value ev)] @
         usage_assignments spent @
         (case validation of
            None \<Rightarrow> []
          | Some v \<Rightarrow> [(''validation_id'', id_blob (vr_validation_id v)),
                      (''validation_status'', Text (validation_as_str (vr_status v)))]))]"

definition runs_writes :: "'b event \<Rightarrow> domain_event \<Rightarrow> row_write list" where
  "runs_writes ev e =
     (case e of
        RunStarted b \<Rightarrow> run_started_writes ev b
      | RunStepCommitted b \<Rightarrow> run_step_committed_writes b
      | RunToolEffectRecorded (RunToolEffectRecordedV1 run_id _ _ _ _ spent) \<Rightarrow>
          [IncrementManyOne [id_blob run_id] (usage_deltas spent)]
      | RunCheckpointSaved (RunCheckpointSavedV1 run_id step_index checkpoint_id _) \<Rightarrow>
          [IncrementOne [id_blob run_id] ''checkpointed_step_count'' 1,
           UpdateOne [id_blob run_id]
             [(''checkpoint_id'', id_blob checkpoint_id),
              (''checkpoint_step_index'', integer_u32 step_index)]]
      | RunValidationRecorded (RunValidationRecordedV1 run_id _ validation_id status _) \<Rightarrow>
          [UpdateOne [id_blob run_id]
             [(''validation_id'', id_blob validation_id),
              (''validation_status'', Text (validation_as_str status))]]
      | RunPauseRequested (RunPauseRequestedV1 run_id reason) \<Rightarrow>
          [UpdateOne [id_blob run_id]
             [(''pending_control'', Text ''pause''), (''control_reason'', Text reason)]]
      | RunPaused (RunPausedV1 run_id _ cause spent) \<Rightarrow>
          [UpdateOne [id_blob run_id]
             ([(''status'', Text ''paused''), (''pending_control'', Null), (''control_reason'', Null)] @
              pause_assignments cause @ usage_assignments spent)]
      | RunResumed (RunResumedV1 run_id _) \<Rightarrow>
          [UpdateOne [id_blob run_id]
             ([(''status'', Text ''running''), (''pending_control'', Null), (''control_reason'', Null)] @
              clear_pause_assignments)]
      | RunCancelRequested (RunCancelRequestedV1 run_id reason) \<Rightarrow>
          [UpdateOne [id_blob run_id]
             [(''pending_control'', Text ''cancel''), (''control_reason'', Text reason)]]
      | RunCanceled (RunCanceledV1 run_id _) \<Rightarrow>
          [UpdateOne [id_blob run_id]
             ([(''status'', Text ''canceled''), (''pending_control'', Null), (''control_reason'', Null),
               (''finished_seq'', seq_value ev)] @ clear_pause_assignments)]
      | RunTaintRaised (RunTaintRaisedV1 run_id _) \<Rightarrow>
          [UpdateOne [id_blob run_id] [(''tainted'', Integer 1)]]
      | RunQuestionAsked (RunQuestionAskedV1 run_id question_id prompt) \<Rightarrow>
          [UpdateOne [id_blob run_id]
             [(''status'', Text ''waiting_input''), (''question_id'', id_blob question_id),
              (''question_prompt'', Text prompt)]]
      | RunQuestionAnswered (RunQuestionAnsweredV1 run_id _ _ _) \<Rightarrow>
          [UpdateOne [id_blob run_id]
             [(''status'', Text ''running''), (''question_id'', Null), (''question_prompt'', Null)]]
      | RunFinished b \<Rightarrow> run_finished_writes ev b
      | _ \<Rightarrow> [])"

definition runs_kinds :: "kind_tag list" where
  "runs_kinds =
     [''RunStarted'', ''RunStepCommitted'', ''RunToolEffectRecorded'', ''RunCheckpointSaved'',
      ''RunValidationRecorded'', ''RunPauseRequested'', ''RunPaused'', ''RunResumed'',
      ''RunCancelRequested'', ''RunCanceled'', ''RunTaintRaised'', ''RunQuestionAsked'',
      ''RunQuestionAnswered'', ''RunFinished'']"

definition apply_runs :: "'b domain_codec \<Rightarrow> 'b event \<Rightarrow> apply_error + row_write list" where
  "apply_runs dc = apply_kinds dc RUNS_TABLE runs_kinds runs_writes"

section \<open>Tool grants\<close>

definition RUN_TOOL_GRANTS_TABLE :: table_def where
  "RUN_TOOL_GRANTS_TABLE =
     \<lparr>tbl_name = ''proj_run_tool_grants'', tbl_version = 1,
      key_columns = [ColumnDef ''run_id'' KBlob, ColumnDef ''tool_id'' KText],
      value_columns =
        [ColumnDef ''mode'' KText, ColumnDef ''started_seq'' KInteger],
      indexes = []\<rparr>"

definition run_tool_grants_writes :: "'b event \<Rightarrow> domain_event \<Rightarrow> row_write list" where
  "run_tool_grants_writes ev e =
     (case e of
        RunStarted (RunStartedV2 b) \<Rightarrow>
          map (\<lambda>g. Insert [id_blob (rs_run_id b), Text (tg_tool_id g)]
                     [Text (grant_mode_as_str (tg_mode g)), seq_value ev]) (rs_tool_grants b)
      | _ \<Rightarrow> [])"

definition apply_run_tool_grants :: "'b domain_codec \<Rightarrow> 'b event \<Rightarrow> apply_error + row_write list" where
  "apply_run_tool_grants dc = apply_kinds dc RUN_TOOL_GRANTS_TABLE [''RunStarted''] run_tool_grants_writes"

section \<open>Run steps\<close>

definition RUN_STEPS_TABLE :: table_def where
  "RUN_STEPS_TABLE =
     \<lparr>tbl_name = ''proj_run_steps'', tbl_version = 2,
      key_columns = [ColumnDef ''run_id'' KBlob, ColumnDef ''step_index'' KInteger],
      value_columns =
        [ColumnDef ''summary'' KText, ColumnDef ''phase'' KText, ColumnDef ''step_digest'' KBlob,
         ColumnDef ''tool_id'' KText, ColumnDef ''tool_descriptor_version'' KInteger,
         ColumnDef ''tool_call_id'' KBlob, ColumnDef ''idempotency_key'' KText,
         ColumnDef ''input'' KBlob, ColumnDef ''reserved_tokens'' KInteger,
         ColumnDef ''reserved_usd_micros'' KInteger, ColumnDef ''reserved_wall_ms'' KInteger,
         ColumnDef ''reserved_storage_bytes'' KInteger,
         ColumnDef ''reserved_tool_calls'' KInteger, ColumnDef ''reserved_retries'' KInteger,
         ColumnDef ''reserved_steps'' KInteger, ColumnDef ''committed_seq'' KInteger,
         ColumnDef ''effect_recorded_seq'' KInteger, ColumnDef ''output_digest'' KBlob,
         ColumnDef ''spent_tokens'' KInteger, ColumnDef ''spent_usd_micros'' KInteger,
         ColumnDef ''spent_wall_ms'' KInteger, ColumnDef ''spent_storage_bytes'' KInteger,
         ColumnDef ''spent_tool_calls'' KInteger, ColumnDef ''spent_retries'' KInteger,
         ColumnDef ''spent_steps'' KInteger, ColumnDef ''checkpoint_id'' KBlob,
         ColumnDef ''checkpoint_digest'' KBlob, ColumnDef ''checkpoint_seq'' KInteger,
         ColumnDef ''artifact_id'' KBlob, ColumnDef ''artifact_hash'' KBlob,
         ColumnDef ''artifact_media_type'' KText, ColumnDef ''artifact_size_bytes'' KInteger,
         ColumnDef ''validation_id'' KBlob, ColumnDef ''validation_status'' KText,
         ColumnDef ''validation_summary'' KText],
      indexes = []\<rparr>"

definition step_values ::
  "string \<Rightarrow> string \<Rightarrow> digest32 option \<Rightarrow> run_tool_call option \<Rightarrow> run_usage \<Rightarrow> 'b event \<Rightarrow> sql_value list" where
  "step_values summary phase digest tool_call reserved ev =
     [Text summary, Text phase,
      (case digest of None \<Rightarrow> Null | Some d \<Rightarrow> Blob (digest_bytes d))] @
     (case tool_call of
        None \<Rightarrow> [Null, Null, Null, Null, Null]
      | Some t \<Rightarrow> [Text (tc_tool_id t), Integer (i64_of (tc_descriptor_version t)),
                  id_blob (tc_call_id t), Text (tc_idempotency_key t), Blob (tc_input t)]) @
     usage_values reserved @ [seq_value ev, Null, Null] @ usage_values usage_default @
     [Null, Null, Null, Null, Null, Null, Null, Null, Null, Null]"

fun step_committed_writes :: "'b event \<Rightarrow> run_step_committed_body \<Rightarrow> row_write list" where
  "step_committed_writes ev (RunStepCommittedV1 run_id step_index summary) =
     [Insert [id_blob run_id, integer_u32 step_index]
        (step_values summary ''legacy'' None None (usage_default\<lparr>u_steps := 1\<rparr>) ev)]"
| "step_committed_writes ev (RunStepCommittedV2 b) =
     [Insert [id_blob (rsc_run_id b), integer_u32 (rsc_step_index b)]
        (step_values (rsc_summary b) (phase_as_str (rsc_phase b)) (Some (rsc_digest b))
           (rsc_tool_call b) (rsc_reserved b) ev)]"

definition run_steps_writes :: "'b event \<Rightarrow> domain_event \<Rightarrow> row_write list" where
  "run_steps_writes ev e =
     (case e of
        RunStepCommitted b \<Rightarrow> step_committed_writes ev b
      | RunToolEffectRecorded (RunToolEffectRecordedV1 run_id step_index _ _ output_digest spent) \<Rightarrow>
          [UpdateOneWhenNull [id_blob run_id, integer_u32 step_index] ''effect_recorded_seq''
             ([(''effect_recorded_seq'', seq_value ev),
               (''output_digest'', Blob (digest_bytes output_digest))] @ usage_assignments spent)]
      | RunCheckpointSaved (RunCheckpointSavedV1 run_id step_index checkpoint_id state_digest) \<Rightarrow>
          [UpdateOneWhenNull [id_blob run_id, integer_u32 step_index] ''checkpoint_seq''
             [(''checkpoint_id'', id_blob checkpoint_id),
              (''checkpoint_digest'', Blob (digest_bytes state_digest)),
              (''checkpoint_seq'', seq_value ev)]]
      | RunArtifactRecorded
          (RunArtifactRecordedV1 run_id step_index artifact_id content_hash media_type size_bytes) \<Rightarrow>
          [UpdateOneWhenNull [id_blob run_id, integer_u32 step_index] ''artifact_id''
             [(''artifact_id'', id_blob artifact_id),
              (''artifact_hash'', Blob (digest_bytes content_hash)),
              (''artifact_media_type'', Text media_type),
              (''artifact_size_bytes'', integer_u64 size_bytes)]]
      | RunValidationRecorded (RunValidationRecordedV1 run_id step_index validation_id status summary) \<Rightarrow>
          [UpdateOneWhenNull [id_blob run_id, integer_u32 step_index] ''validation_id''
             [(''validation_id'', id_blob validation_id),
              (''validation_status'', Text (validation_as_str status)),
              (''validation_summary'', Text summary)]]
      | _ \<Rightarrow> [])"

definition apply_run_steps :: "'b domain_codec \<Rightarrow> 'b event \<Rightarrow> apply_error + row_write list" where
  "apply_run_steps dc = apply_kinds dc RUN_STEPS_TABLE
     [''RunStepCommitted'', ''RunToolEffectRecorded'', ''RunCheckpointSaved'', ''RunArtifactRecorded'',
      ''RunValidationRecorded''] run_steps_writes"

section \<open>Jobs\<close>

definition JOB_STATE_QUEUED :: string where
  "JOB_STATE_QUEUED = ''queued''"

definition JOB_STATE_DONE :: string where
  "JOB_STATE_DONE = ''done''"

definition JOB_STATE_DEAD :: string where
  "JOB_STATE_DEAD = ''dead''"

definition JOB_ATTEMPT_COUNT_MAX_DEFAULT :: u32 where
  "JOB_ATTEMPT_COUNT_MAX_DEFAULT = 5"

definition JOBS_TABLE :: table_def where
  "JOBS_TABLE =
     \<lparr>tbl_name = ''proj_jobs'', tbl_version = 2,
      key_columns = [ColumnDef ''job_id'' KBlob],
      value_columns =
        [ColumnDef ''project_id'' KBlob, ColumnDef ''job_kind'' KText,
         ColumnDef ''idempotency_key'' KText, ColumnDef ''state'' KText,
         ColumnDef ''priority_rank'' KInteger, ColumnDef ''class'' KText,
         ColumnDef ''payload'' KBlob, ColumnDef ''enqueued_seq'' KInteger,
         ColumnDef ''run_at_ts_ms'' KInteger, ColumnDef ''attempt_count'' KInteger,
         ColumnDef ''attempt_count_max'' KInteger, ColumnDef ''last_error_code'' KText,
         ColumnDef ''last_error_detail'' KText, ColumnDef ''terminal_seq'' KInteger,
         ColumnDef ''wall_ms'' KInteger, ColumnDef ''dead_reason_code'' KText,
         ColumnDef ''dead_reason_detail'' KText, ColumnDef ''cron_id'' KBlob],
      indexes = [\<lparr>ix_name = ''idx_proj_jobs_claim'', ix_columns = [''class'', ''state'', ''priority_rank'', ''enqueued_seq'']\<rparr>, \<lparr>ix_name = ''idx_proj_jobs_cron'', ix_columns = [''cron_id'', ''state'']\<rparr>]\<rparr>"

definition job_row_values ::
  "sql_value \<Rightarrow> string \<Rightarrow> string \<Rightarrow> job_priority \<Rightarrow> job_class \<Rightarrow> bytes \<Rightarrow> 'b event \<Rightarrow> u64 \<Rightarrow> u32
     \<Rightarrow> sql_value \<Rightarrow> sql_value list" where
  "job_row_values project_id job_kind idempotency_key priority cls payload ev run_at_ts_ms
     attempt_count_max cron_id =
     [project_id, Text job_kind, Text idempotency_key, Text JOB_STATE_QUEUED,
      Integer (i64_of (priority_rank priority)), Text (class_as_str cls), Blob payload, seq_value ev,
      integer_u64 run_at_ts_ms, Integer 0, integer_u32 attempt_count_max, Null, Null, Null, Null, Null,
      Null, cron_id]"

fun enqueued_row :: "'b event \<Rightarrow> job_enqueued_body \<Rightarrow> row_write" where
  "enqueued_row ev (JobEnqueuedV1 job_id job_kind) =
     Insert [id_blob job_id]
       (job_row_values Null job_kind (to_hex job_id) Normal Maintenance [] ev (ev_ts_ms ev)
          JOB_ATTEMPT_COUNT_MAX_DEFAULT Null)"
| "enqueued_row ev (JobEnqueuedV2 b) =
     Insert [id_blob (je_job_id b)]
       (job_row_values (id_blob (je_project_id b)) (je_job_kind b) (je_idempotency_key b)
          (je_priority b) (je_class b) (je_payload b) ev (je_run_at_ts_ms b)
          (je_attempt_count_max b) (optional_id_blob (map_option co_cron_id (je_cron b))))"

fun dead_detail :: "job_dead_reason \<Rightarrow> string" where
  "dead_detail (RetriesExhausted error_code) = error_code"
| "dead_detail (Refused error_code) = error_code"
| "dead_detail (SupersededByCron cron_id) = to_hex cron_id"

fun job_completed_writes :: "'b event \<Rightarrow> job_completed_body \<Rightarrow> row_write list" where
  "job_completed_writes ev (JobCompletedV1 job_id attempts) =
     [UpdateOne [id_blob job_id]
        [(''state'', Text JOB_STATE_DONE), (''terminal_seq'', seq_value ev),
         (''attempt_count'', integer_u32 attempts)]]"
| "job_completed_writes ev (JobCompletedV2 job_id attempt_count wall_ms) =
     [UpdateOne [id_blob job_id]
        [(''state'', Text JOB_STATE_DONE), (''terminal_seq'', seq_value ev),
         (''attempt_count'', integer_u32 attempt_count), (''wall_ms'', integer_u64 wall_ms)]]"

definition jobs_writes :: "'b event \<Rightarrow> domain_event \<Rightarrow> row_write list" where
  "jobs_writes ev e =
     (case e of
        JobEnqueued b \<Rightarrow> [enqueued_row ev b]
      | JobAttemptFailed
          (JobAttemptFailedV1 job_id attempt_index error_code error_detail retry_at_ts_ms) \<Rightarrow>
          [UpdateOne [id_blob job_id]
             [(''attempt_count'', integer_u32 attempt_index), (''last_error_code'', Text error_code),
              (''last_error_detail'', Text error_detail), (''run_at_ts_ms'', integer_u64 retry_at_ts_ms)]]
      | JobCompleted b \<Rightarrow> job_completed_writes ev b
      | JobDead (JobDeadV1 job_id attempt_count reason) \<Rightarrow>
          [UpdateOne [id_blob job_id]
             [(''state'', Text JOB_STATE_DEAD), (''terminal_seq'', seq_value ev),
              (''attempt_count'', integer_u32 attempt_count),
              (''dead_reason_code'', Text (dead_reason_code reason)),
              (''dead_reason_detail'', Text (dead_detail reason))]]
      | _ \<Rightarrow> [])"

definition apply_jobs :: "'b domain_codec \<Rightarrow> 'b event \<Rightarrow> apply_error + row_write list" where
  "apply_jobs dc = apply_kinds dc JOBS_TABLE
     [''JobEnqueued'', ''JobAttemptFailed'', ''JobCompleted'', ''JobDead''] jobs_writes"

section \<open>Crons\<close>

definition CRONS_TABLE :: table_def where
  "CRONS_TABLE =
     \<lparr>tbl_name = ''proj_crons'', tbl_version = 1,
      key_columns = [ColumnDef ''cron_id'' KBlob],
      value_columns =
        [ColumnDef ''project_id'' KBlob, ColumnDef ''job_kind'' KText, ColumnDef ''expr'' KText,
         ColumnDef ''tz'' KText, ColumnDef ''overlap_policy'' KText,
         ColumnDef ''enabled'' KInteger, ColumnDef ''priority_rank'' KInteger,
         ColumnDef ''class'' KText, ColumnDef ''payload'' KBlob,
         ColumnDef ''registered_seq'' KInteger, ColumnDef ''registered_ts_ms'' KInteger,
         ColumnDef ''last_fired_ts_ms'' KInteger, ColumnDef ''last_job_id'' KBlob],
      indexes = []\<rparr>"

fun cron_registered_writes :: "'b event \<Rightarrow> cron_registered_body \<Rightarrow> row_write list" where
  "cron_registered_writes ev (CronRegisteredV1 b) =
     [Upsert [id_blob (cr_cron_id b)]
        [id_blob (cr_project_id b), Text (cr_job_kind b), Text (cr_expr b), Text (cr_tz b),
         Text (overlap_as_str (cr_overlap_policy b)), bool_integer (cr_enabled b),
         Integer (i64_of (priority_rank (cr_priority b))), Text (class_as_str (cr_class b)),
         Blob (cr_payload b), seq_value ev, integer_u64 (ev_ts_ms ev), Null, Null]]"

fun cron_job_writes :: "job_enqueued_body \<Rightarrow> row_write list" where
  "cron_job_writes (JobEnqueuedV1 _ _) = []"
| "cron_job_writes (JobEnqueuedV2 b) =
     (case je_cron b of
        None \<Rightarrow> []
      | Some cron \<Rightarrow>
          [UpdateOne [id_blob (co_cron_id cron)]
             [(''last_fired_ts_ms'', integer_u64 (co_scheduled_ts_ms cron)),
              (''last_job_id'', id_blob (je_job_id b))]])"

definition crons_writes :: "'b event \<Rightarrow> domain_event \<Rightarrow> row_write list" where
  "crons_writes ev e =
     (case e of
        CronRegistered b \<Rightarrow> cron_registered_writes ev b
      | CronEnablementSet (CronEnablementSetV1 cron_id enabled) \<Rightarrow>
          [UpdateOne [id_blob cron_id] [(''enabled'', bool_integer enabled)]]
      | JobEnqueued b \<Rightarrow> cron_job_writes b
      | _ \<Rightarrow> [])"

definition apply_crons :: "'b domain_codec \<Rightarrow> 'b event \<Rightarrow> apply_error + row_write list" where
  "apply_crons dc = apply_kinds dc CRONS_TABLE
     [''CronRegistered'', ''CronEnablementSet'', ''JobEnqueued''] crons_writes"

section \<open>Audit and model calls\<close>

definition AUDIT_TABLE :: table_def where
  "AUDIT_TABLE =
     \<lparr>tbl_name = ''proj_audit'', tbl_version = 1,
      key_columns = [ColumnDef ''seq'' KInteger],
      value_columns =
        [ColumnDef ''action'' KText, ColumnDef ''target'' KText, ColumnDef ''account_id'' KBlob,
         ColumnDef ''ts_ms'' KInteger],
      indexes = []\<rparr>"

definition audit_writes :: "'b event \<Rightarrow> domain_event \<Rightarrow> row_write list" where
  "audit_writes ev e =
     (case e of
        AccountAudited (AccountAuditedV1 account_id action target) \<Rightarrow>
          [Upsert [seq_value ev]
             [Text action, Text target, Blob (into_bytes account_id), Integer (sat_i64 (ev_ts_ms ev))]]
      | _ \<Rightarrow> [])"

definition apply_audit :: "'b domain_codec \<Rightarrow> 'b event \<Rightarrow> apply_error + row_write list" where
  "apply_audit dc = apply_kinds dc AUDIT_TABLE [''AccountAudited''] audit_writes"

definition MODEL_CALLS_TABLE :: table_def where
  "MODEL_CALLS_TABLE =
     \<lparr>tbl_name = ''proj_model_calls'', tbl_version = 1,
      key_columns = [ColumnDef ''seq'' KInteger],
      value_columns =
        [ColumnDef ''project_id'' KBlob, ColumnDef ''feature'' KText, ColumnDef ''agent'' KText,
         ColumnDef ''provider'' KText, ColumnDef ''credential_class'' KText,
         ColumnDef ''model'' KText, ColumnDef ''tokens_in'' KInteger,
         ColumnDef ''tokens_out'' KInteger, ColumnDef ''wall_ms'' KInteger,
         ColumnDef ''provider_cost_kind'' KText, ColumnDef ''usd_micros'' KInteger,
         ColumnDef ''outcome'' KText, ColumnDef ''ts_ms'' KInteger],
      indexes = []\<rparr>"

fun model_call_writes :: "'b event \<Rightarrow> model_call_completed_body \<Rightarrow> row_write list" where
  "model_call_writes ev (ModelCallCompletedV1 b) =
     [Upsert [seq_value ev]
        [Blob (into_bytes (mc_project_id b)), Text (mc_feature b),
         (case mc_agent b of None \<Rightarrow> Null | Some a \<Rightarrow> Text a), Text (mc_provider b),
         Text (mc_credential_class b), Text (mc_model b), Integer (sat_i64 (mc_tokens_in b)),
         Integer (sat_i64 (mc_tokens_out b)), Integer (sat_i64 (mc_wall_ms b)),
         Text (mc_provider_cost_kind b), Integer (sat_i64 (mc_usd_micros b)), Text (mc_outcome b),
         Integer (sat_i64 (ev_ts_ms ev))]]"

definition model_calls_writes :: "'b event \<Rightarrow> domain_event \<Rightarrow> row_write list" where
  "model_calls_writes ev e = (case e of ModelCallCompleted b \<Rightarrow> model_call_writes ev b | _ \<Rightarrow> [])"

definition apply_model_calls :: "'b domain_codec \<Rightarrow> 'b event \<Rightarrow> apply_error + row_write list" where
  "apply_model_calls dc = apply_kinds dc MODEL_CALLS_TABLE [''ModelCallCompleted''] model_calls_writes"

section \<open>The registry\<close>

definition core_projections :: "'b domain_codec \<Rightarrow> 'b projection list" where
  "core_projections dc =
     [\<lparr>pr_table = PROJECTS_TABLE, pr_apply = apply_projects dc\<rparr>,
      \<lparr>pr_table = RUNS_TABLE, pr_apply = apply_runs dc\<rparr>,
      \<lparr>pr_table = RUN_TOOL_GRANTS_TABLE, pr_apply = apply_run_tool_grants dc\<rparr>,
      \<lparr>pr_table = RUN_STEPS_TABLE, pr_apply = apply_run_steps dc\<rparr>,
      \<lparr>pr_table = JOBS_TABLE, pr_apply = apply_jobs dc\<rparr>,
      \<lparr>pr_table = CRONS_TABLE, pr_apply = apply_crons dc\<rparr>,
      \<lparr>pr_table = AUDIT_TABLE, pr_apply = apply_audit dc\<rparr>,
      \<lparr>pr_table = MODEL_CALLS_TABLE, pr_apply = apply_model_calls dc\<rparr>]"

text \<open>\<open>v0_registry\<close>, the ingestion projections being an argument.\<close>

definition v0_registry :: "'b domain_codec \<Rightarrow> 'b projection list \<Rightarrow> log_error + 'b registry" where
  "v0_registry dc ingest = registry_new (core_projections dc @ ingest)"

lemmas table_defs =
  PROJECTS_TABLE_def RUNS_TABLE_def RUN_TOOL_GRANTS_TABLE_def RUN_STEPS_TABLE_def JOBS_TABLE_def
  CRONS_TABLE_def AUDIT_TABLE_def MODEL_CALLS_TABLE_def

end
