(* ===== verification/Projection_Types.thy ===== *)
theory Projection_Types
  imports Projections Log_Machine
begin

text \<open>
  Typing of the core projections: every write they produce fits the declared table (arity, declared
  columns, column kinds, non-NULL keys), so the apply chokepoint can only refuse a write because of
  the data (a taken key, a missing or already assigned row), never because of the projection.
\<close>

definition writes_ok :: "table_def \<Rightarrow> row_write list \<Rightarrow> bool" where
  "writes_ok tb ws \<longleftrightarrow> list_all (write_ok tb) ws"

lemma writes_ok_simps [simp]:
  "writes_ok tb []" "writes_ok tb (w # ws) \<longleftrightarrow> write_ok tb w \<and> writes_ok tb ws"
  by (simp_all add: writes_ok_def)

lemma in_i64_small [simp]: "in_i64 0" "in_i64 1"
  by (simp_all add: in_i64_def i64_min_def i64_max_def)

lemma in_i64_uint_narrow:
  assumes "uint (w :: 'a::len word) < 2 ^ 63"
  shows "in_i64 (uint w)"
proof -
  have "- 9223372036854775808 \<le> uint w"
    by (rule order_trans [OF _ uint_ge_0]) simp
  with assms show ?thesis by (simp add: in_i64_def i64_min_def i64_max_def)
qed

lemma in_i64_uint16 [simp]: "in_i64 (uint (w :: 16 word))"
  using uint_lt2p_num [of w] by (intro in_i64_uint_narrow) simp

lemma in_i64_uint8 [simp]: "in_i64 (uint (w :: 8 word))"
  using uint_lt2p_num [of w] by (intro in_i64_uint_narrow) simp

text \<open>The value helpers, at the kinds they are used with.\<close>

lemma value_kinds [simp]:
  "kind_ok KInteger (integer_u64 v)" "kind_ok KInteger (integer_u32 w)" "kind_ok KInteger (seq_value ev)"
  "kind_ok KInteger (bool_integer b)" "kind_ok KBlob (id_blob i)" "kind_ok KBlob (optional_id_blob oi)"
  by (simp_all add: integer_u64_def integer_u32_def seq_value_def bool_integer_def id_blob_def
      optional_id_blob_def split: option.split)

lemma value_not_null [simp]:
  "integer_u64 v \<noteq> Null" "integer_u32 w \<noteq> Null" "seq_value ev \<noteq> Null" "id_blob i \<noteq> Null"
  by (simp_all add: integer_u64_def integer_u32_def seq_value_def id_blob_def)

lemmas ok_defs = key_ok_def values_ok_def assignment_ok_def counter_ok_def

lemma project_bodies_ok:
  "writes_ok PROJECTS_TABLE (project_created_writes ev cb)"
  "writes_ok PROJECTS_TABLE (project_renamed_writes rb)"
  by (cases cb, simp add: PROJECTS_TABLE_def ok_defs) (cases rb, simp add: PROJECTS_TABLE_def ok_defs)

lemma projects_writes_ok: "writes_ok PROJECTS_TABLE (projects_writes ev e)"
  by (cases e) (simp_all add: projects_writes_def project_bodies_ok)

lemma usage_budget_values_ok:
  "list_all2 (\<lambda>c v. kind_ok (col_kind c) v) cs vs \<Longrightarrow>
   list_all2 (\<lambda>c v. kind_ok (col_kind c) v)
     (ColumnDef a KInteger # ColumnDef b KInteger # ColumnDef c KInteger # ColumnDef d KInteger #
      ColumnDef f KInteger # ColumnDef g KInteger # ColumnDef h KInteger # cs) (usage_values u @ vs)"
  "list_all2 (\<lambda>c v. kind_ok (col_kind c) v) cs vs \<Longrightarrow>
   list_all2 (\<lambda>c v. kind_ok (col_kind c) v)
     (ColumnDef a KInteger # ColumnDef b KInteger # ColumnDef c KInteger # ColumnDef d KInteger #
      ColumnDef f KInteger # ColumnDef g KInteger # ColumnDef h KInteger # cs) (budget_values bu @ vs)"
  by (simp_all add: usage_values_def budget_values_def)

lemma run_started_ok: "writes_ok RUNS_TABLE (run_started_writes ev b)"
proof (cases b)
  case (RunStartedV1 run_id worker trigger)
  then show ?thesis
    by (simp add: RUNS_TABLE_def ok_defs legacy_run_values_def usage_budget_values_ok)
next
  case (RunStartedV2 v)
  then show ?thesis
    by (simp add: RUNS_TABLE_def ok_defs run_values_v2_def usage_budget_values_ok split: option.split)
qed

lemma usage_assignments_ok: "list_all (assignment_ok (value_columns RUNS_TABLE)) (usage_assignments u)"
  by (simp add: usage_assignments_def RUNS_TABLE_def ok_defs)

lemma pause_assignments_ok:
  "list_all (assignment_ok (value_columns RUNS_TABLE)) (pause_assignments cause)"
  by (cases cause) (simp_all add: RUNS_TABLE_def ok_defs)

lemma clear_pause_ok: "list_all (assignment_ok (value_columns RUNS_TABLE)) clear_pause_assignments"
  by (simp add: clear_pause_assignments_def RUNS_TABLE_def ok_defs)

text \<open>The columns of \<open>proj_runs\<close> the lifecycle facts assign, once.\<close>

lemma runs_columns_ok [simp]:
  "assignment_ok (value_columns RUNS_TABLE) (''status'', Text s)"
  "assignment_ok (value_columns RUNS_TABLE) (''pending_control'', Text s)"
  "assignment_ok (value_columns RUNS_TABLE) (''pending_control'', Null)"
  "assignment_ok (value_columns RUNS_TABLE) (''control_reason'', Text s)"
  "assignment_ok (value_columns RUNS_TABLE) (''control_reason'', Null)"
  "assignment_ok (value_columns RUNS_TABLE) (''finished_seq'', seq_value ev)"
  "assignment_ok (value_columns RUNS_TABLE) (''checkpoint_id'', id_blob i)"
  "assignment_ok (value_columns RUNS_TABLE) (''checkpoint_step_index'', integer_u32 w)"
  "assignment_ok (value_columns RUNS_TABLE) (''validation_id'', id_blob i)"
  "assignment_ok (value_columns RUNS_TABLE) (''validation_status'', Text s)"
  "assignment_ok (value_columns RUNS_TABLE) (''tainted'', Integer 1)"
  "assignment_ok (value_columns RUNS_TABLE) (''question_id'', id_blob i)"
  "assignment_ok (value_columns RUNS_TABLE) (''question_id'', Null)"
  "assignment_ok (value_columns RUNS_TABLE) (''question_prompt'', Text s)"
  "assignment_ok (value_columns RUNS_TABLE) (''question_prompt'', Null)"
  "counter_ok (value_columns RUNS_TABLE) ''committed_step_count''"
  "counter_ok (value_columns RUNS_TABLE) ''checkpointed_step_count''"
  "key_ok (key_columns RUNS_TABLE) [id_blob i]"
  by (simp_all add: RUNS_TABLE_def ok_defs)

lemma usage_deltas_ok:
  "list_all (\<lambda>(c, d). counter_ok (value_columns RUNS_TABLE) c \<and> in_i64 d) (usage_deltas u)"
  by (simp add: usage_deltas_def RUNS_TABLE_def ok_defs)

lemma usage_lists_nonempty [simp]:
  "usage_deltas u \<noteq> []" "usage_assignments u \<noteq> []"
  by (simp_all add: usage_deltas_def usage_assignments_def)

lemma run_bodies_ok:
  "writes_ok RUNS_TABLE (run_step_committed_writes sb)"
  "writes_ok RUNS_TABLE (run_finished_writes ev fb)"
  by (cases sb; simp) (cases fb; simp add: usage_assignments_ok split: option.split)

lemma runs_writes_ok: "writes_ok RUNS_TABLE (runs_writes ev e)"
proof -
  note simps = runs_writes_def run_bodies_ok run_started_ok usage_deltas_ok usage_assignments_ok
    pause_assignments_ok clear_pause_ok
  show ?thesis
    by (cases e)
       (simp_all add: simps split: run_tool_effect_recorded_body.split run_checkpoint_saved_body.split
          run_validation_recorded_body.split run_pause_requested_body.split run_paused_body.split
          run_resumed_body.split run_cancel_requested_body.split run_canceled_body.split
          run_taint_raised_body.split run_question_asked_body.split run_question_answered_body.split)
qed

lemma run_tool_grants_writes_ok: "writes_ok RUN_TOOL_GRANTS_TABLE (run_tool_grants_writes ev e)"
  by (cases e)
     (auto simp: run_tool_grants_writes_def writes_ok_def list_all_iff RUN_TOOL_GRANTS_TABLE_def ok_defs
       split: run_started_body.split)

lemma step_committed_ok: "writes_ok RUN_STEPS_TABLE (step_committed_writes ev b)"
proof -
  have "values_ok (value_columns RUN_STEPS_TABLE) (step_values summary phase digest tool_call reserved ev)"
    for summary phase digest tool_call reserved
    by (cases tool_call)
       (simp_all add: RUN_STEPS_TABLE_def ok_defs step_values_def usage_budget_values_ok split: option.split)
  moreover have "key_ok (key_columns RUN_STEPS_TABLE) [id_blob i, integer_u32 w]" for i w
    by (simp add: RUN_STEPS_TABLE_def ok_defs)
  ultimately show ?thesis
    by (cases b) simp_all
qed

lemma run_steps_writes_ok: "writes_ok RUN_STEPS_TABLE (run_steps_writes ev e)"
  by (cases e)
     (simp_all add: run_steps_writes_def step_committed_ok,
      auto simp: RUN_STEPS_TABLE_def ok_defs usage_assignments_def
        split: run_tool_effect_recorded_body.split run_checkpoint_saved_body.split
          run_artifact_recorded_body.split run_validation_recorded_body.split)

lemma job_bodies_ok:
  "writes_ok JOBS_TABLE [enqueued_row ev eb]"
  "writes_ok JOBS_TABLE (job_completed_writes ev cb)"
proof -
  show "writes_ok JOBS_TABLE [enqueued_row ev eb]"
    by (cases eb) (simp_all add: JOBS_TABLE_def ok_defs job_row_values_def)
  show "writes_ok JOBS_TABLE (job_completed_writes ev cb)"
    by (cases cb) (simp_all add: JOBS_TABLE_def ok_defs)
qed

lemma jobs_writes_ok: "writes_ok JOBS_TABLE (jobs_writes ev e)"
  by (cases e)
     (simp_all add: jobs_writes_def job_bodies_ok del: writes_ok_simps(2),
      auto simp: JOBS_TABLE_def ok_defs split: job_attempt_failed_body.split job_dead_body.split)

lemma cron_bodies_ok:
  "writes_ok CRONS_TABLE (cron_registered_writes ev rb)"
  "writes_ok CRONS_TABLE (cron_job_writes eb)"
proof -
  show "writes_ok CRONS_TABLE (cron_registered_writes ev rb)"
    by (cases rb) (simp add: CRONS_TABLE_def ok_defs)
  show "writes_ok CRONS_TABLE (cron_job_writes eb)"
    by (cases eb) (simp_all add: CRONS_TABLE_def ok_defs split: option.split)
qed

lemma crons_writes_ok: "writes_ok CRONS_TABLE (crons_writes ev e)"
  by (cases e)
     (simp_all add: crons_writes_def cron_bodies_ok,
      auto simp: CRONS_TABLE_def ok_defs split: cron_enablement_set_body.split)

lemma audit_writes_ok: "writes_ok AUDIT_TABLE (audit_writes ev e)"
  by (cases e)
     (simp_all add: audit_writes_def,
      auto simp: AUDIT_TABLE_def ok_defs split: account_audited_body.split)

lemma model_calls_writes_ok: "writes_ok MODEL_CALLS_TABLE (model_calls_writes ev e)"
proof -
  have "writes_ok MODEL_CALLS_TABLE (model_call_writes ev b)" for b
    by (cases b) (simp add: MODEL_CALLS_TABLE_def ok_defs split: option.split)
  then show ?thesis
    by (cases e) (simp_all add: model_calls_writes_def)
qed

lemmas core_writes_ok =
  projects_writes_ok runs_writes_ok run_tool_grants_writes_ok run_steps_writes_ok jobs_writes_ok
  crons_writes_ok audit_writes_ok model_calls_writes_ok

section \<open>The registry\<close>

lemma apply_kinds_Inr:
  "apply_kinds dc tb kinds writes ev = Inr ws \<Longrightarrow> ws = [] \<or> (\<exists>e. ws = writes ev e)"
  by (auto simp: apply_kinds_def rbind_Inr split: if_splits option.splits)

lemmas core_applies =
  apply_projects_def apply_runs_def apply_run_tool_grants_def apply_run_steps_def apply_jobs_def
  apply_crons_def apply_audit_def apply_model_calls_def

lemma apply_kinds_typed:
  assumes "apply_kinds dc tb kinds writes ev = Inr ws" "\<And>e. writes_ok tb (writes ev e)"
  shows "writes_ok tb ws"
  using apply_kinds_Inr [OF assms(1)] assms(2) by auto

lemma core_projection_typed:
  assumes "p \<in> set (core_projections dc)" "pr_apply p ev = Inr ws"
  shows "writes_ok (pr_table p) ws"
  using assms unfolding core_projections_def
  by (auto simp: core_applies intro: core_writes_ok elim!: apply_kinds_typed)

definition core_registry :: "'b domain_codec \<Rightarrow> 'b registry" where
  "core_registry dc =
     [\<lparr>pr_table = AUDIT_TABLE, pr_apply = apply_audit dc\<rparr>,
      \<lparr>pr_table = CRONS_TABLE, pr_apply = apply_crons dc\<rparr>,
      \<lparr>pr_table = JOBS_TABLE, pr_apply = apply_jobs dc\<rparr>,
      \<lparr>pr_table = MODEL_CALLS_TABLE, pr_apply = apply_model_calls dc\<rparr>,
      \<lparr>pr_table = PROJECTS_TABLE, pr_apply = apply_projects dc\<rparr>,
      \<lparr>pr_table = RUN_STEPS_TABLE, pr_apply = apply_run_steps dc\<rparr>,
      \<lparr>pr_table = RUN_TOOL_GRANTS_TABLE, pr_apply = apply_run_tool_grants dc\<rparr>,
      \<lparr>pr_table = RUNS_TABLE, pr_apply = apply_runs dc\<rparr>]"

lemma core_table_names:
  "table_names (core_registry dc) =
     [''proj_audit'', ''proj_crons'', ''proj_jobs'', ''proj_model_calls'', ''proj_projects'',
      ''proj_run_steps'', ''proj_run_tool_grants'', ''proj_runs'']"
  by (simp add: table_names_def core_registry_def table_defs)

text \<open>Registration order is normalised to table-name order.\<close>

lemma core_registry_sorted: "sort_key (\<lambda>p. tbl_name (pr_table p)) (core_projections dc) = core_registry dc"
  by (simp add: core_projections_def core_registry_def table_defs less_char_def)

lemma core_registry_new: "v0_registry dc [] = Inr (core_registry dc)"
proof -
  have "check_shapes [] (map pr_table (core_registry dc)) = Inr ()"
    by (simp add: core_registry_def check_table_shape_def table_defs starts_with_def declared_columns_def)
  then show ?thesis
    using core_registry_sorted [of dc]
    by (simp add: v0_registry_def registry_new_def PROJECTION_COUNT_MAX_def core_projections_def Let_def)
qed

end
