(* ===== verification/Ingest_Projections.thy ===== *)
theory Ingest_Projections
  imports Projection_Types
begin

text \<open>
  The ingestion projections of \<open>crates/pos-domain/src/ingest_projections.rs\<close>: seven tables (evidence,
  stage history, chunks, chunk embeddings, source health, transcript segments and speakers) with their
  apply functions, their typing, and the registry they complete. The helpers the file repeats
  (\<open>decode_for\<close>, \<open>seq_value\<close>, \<open>integer_u64\<close>, \<open>integer_u32\<close>, \<open>id_blob\<close>) are those of the core projections.
\<close>

section \<open>Helpers\<close>

definition STAGE_STATE_RUNNING :: string where
  "STAGE_STATE_RUNNING = ''running''"

definition STAGE_STATE_DONE :: string where
  "STAGE_STATE_DONE = ''done''"

definition STAGE_STATE_RETRYING :: string where
  "STAGE_STATE_RETRYING = ''retrying''"

definition STAGE_STATE_DEAD :: string where
  "STAGE_STATE_DEAD = ''dead''"

definition hash_blob :: "digest32 \<Rightarrow> sql_value" where
  "hash_blob h = Blob (digest_bytes h)"

definition optional_text :: "string option \<Rightarrow> sql_value" where
  "optional_text v = (case v of None \<Rightarrow> Null | Some s \<Rightarrow> Text s)"

definition stage_key :: "id16 \<Rightarrow> ingest_stage \<Rightarrow> sql_value list" where
  "stage_key i stage = [id_blob i, Text (stage_as_str stage)]"

section \<open>Evidence\<close>

definition EVIDENCE_TABLE :: table_def where
  "EVIDENCE_TABLE =
     \<lparr>tbl_name = ''proj_evidence'', tbl_version = 1,
      key_columns = [ColumnDef ''evidence_id'' KBlob],
      value_columns =
        [ColumnDef ''source_id'' KBlob, ColumnDef ''source_kind'' KText, ColumnDef ''external_id'' KText,
         ColumnDef ''external_url'' KText, ColumnDef ''external_version'' KText, ColumnDef ''media_kind'' KText,
         ColumnDef ''content_blob'' KBlob, ColumnDef ''byte_size'' KInteger, ColumnDef ''occurred_ts_ms'' KInteger,
         ColumnDef ''author'' KText, ColumnDef ''title'' KText, ColumnDef ''thread_ref'' KText,
         ColumnDef ''added_seq'' KInteger,
         ColumnDef ''shape'' KText, ColumnDef ''status'' KText, ColumnDef ''pass'' KInteger,
         ColumnDef ''text_blob'' KBlob, ColumnDef ''text_byte_size'' KInteger, ColumnDef ''segments_blob'' KBlob,
         ColumnDef ''segment_count'' KInteger, ColumnDef ''canary_level'' KText, ColumnDef ''chunk_count'' KInteger,
         ColumnDef ''chunk_pass'' KInteger, ColumnDef ''updated_seq'' KInteger],
      indexes =
        [\<lparr>ix_name = ''idx_proj_evidence_source'', ix_columns = [''source_id'', ''status'']\<rparr>,
         \<lparr>ix_name = ''idx_proj_evidence_occurred'', ix_columns = [''occurred_ts_ms'']\<rparr>,
         \<lparr>ix_name = ''idx_proj_evidence_content'', ix_columns = [''content_blob'']\<rparr>]\<rparr>"

fun output_assignments :: "ingest_stage_output \<Rightarrow> u32 \<Rightarrow> assignments" where
  "output_assignments (OutNormalized shape text_blob text_byte_size segments_blob segment_count canary_level) pass =
     [(''shape'', Text (shape_as_str shape)), (''text_blob'', hash_blob text_blob),
      (''text_byte_size'', integer_u64 text_byte_size), (''segments_blob'', hash_blob segments_blob),
      (''segment_count'', integer_u64 segment_count), (''canary_level'', Text (canary_as_str canary_level))]"
| "output_assignments (OutChunked chunk_count) pass =
     [(''chunk_count'', integer_u64 chunk_count), (''chunk_pass'', integer_u32 pass)]"
| "output_assignments OutNone pass = []"

fun added_row :: "'b event \<Rightarrow> evidence_added_body \<Rightarrow> row_write" where
  "added_row ev (EvidenceAddedV1 b) =
     Insert [id_blob (ea_evidence_id b)]
       [id_blob (ea_source_id b), Text (ea_source_kind b), Text (external_id (ea_external b)),
        optional_text (external_url (ea_external b)), optional_text (external_version (ea_external b)),
        Text (media_as_str (ea_media_kind b)), hash_blob (ea_content_blob b), integer_u64 (ea_byte_size b),
        integer_u64 (ea_occurred_ts_ms b), optional_text (ea_author b), optional_text (ea_title b),
        optional_text (ea_thread_ref b), seq_value ev,
        Text (shape_as_str (ea_shape b)), Text (evidence_status_as_str StatusRaw), integer_u32 0,
        Null, Null, Null, Null, Null, Integer 0, Null, seq_value ev]"

fun finished_evidence_writes :: "'b event \<Rightarrow> ingest_stage_finished_body \<Rightarrow> row_write list" where
  "finished_evidence_writes ev (IngestStageFinishedV1 b) =
     [UpdateOne [id_blob (isf_evidence_id b)]
        ([(''status'', Text (evidence_status_as_str (status_after (isf_stage b)))),
          (''pass'', integer_u32 (isf_pass b)), (''updated_seq'', seq_value ev)] @
         output_assignments (isf_output b) (isf_pass b))]"

fun failed_evidence_writes :: "'b event \<Rightarrow> ingest_stage_failed_body \<Rightarrow> row_write list" where
  "failed_evidence_writes ev (IngestStageFailedV1 b) =
     (if disposition_is_dead (isx_disposition b)
      then [UpdateOne [id_blob (isx_evidence_id b)]
              [(''status'', Text (evidence_status_as_str StatusFailed)), (''updated_seq'', seq_value ev)]]
      else [])"

fun reprocess_writes :: "'b event \<Rightarrow> evidence_reprocess_requested_body \<Rightarrow> row_write list" where
  "reprocess_writes ev (EvidenceReprocessRequestedV1 evidence_id _ pass _) =
     [UpdateOne [id_blob evidence_id] [(''pass'', integer_u32 pass), (''updated_seq'', seq_value ev)]]"

definition evidence_writes :: "'b event \<Rightarrow> domain_event \<Rightarrow> row_write list" where
  "evidence_writes ev e =
     (case e of
        EvidenceAdded b \<Rightarrow> [added_row ev b]
      | IngestStageFinished b \<Rightarrow> finished_evidence_writes ev b
      | IngestStageFailed b \<Rightarrow> failed_evidence_writes ev b
      | EvidenceReprocessRequested b \<Rightarrow> reprocess_writes ev b
      | _ \<Rightarrow> [])"

definition apply_evidence :: "'b domain_codec \<Rightarrow> 'b event \<Rightarrow> apply_error + row_write list" where
  "apply_evidence dc = apply_kinds dc EVIDENCE_TABLE
     [''EvidenceAdded'', ''IngestStageFinished'', ''IngestStageFailed'', ''EvidenceReprocessRequested''] evidence_writes"

section \<open>Stage history\<close>

definition EVIDENCE_STAGES_TABLE :: table_def where
  "EVIDENCE_STAGES_TABLE =
     \<lparr>tbl_name = ''proj_evidence_stages'', tbl_version = 1,
      key_columns = [ColumnDef ''evidence_id'' KBlob, ColumnDef ''stage'' KText],
      value_columns =
        [ColumnDef ''pass'' KInteger, ColumnDef ''state'' KText, ColumnDef ''attempt_index'' KInteger,
         ColumnDef ''job_id'' KBlob, ColumnDef ''started_seq'' KInteger, ColumnDef ''settled_seq'' KInteger,
         ColumnDef ''wall_ms'' KInteger, ColumnDef ''bytes_read'' KInteger, ColumnDef ''item_count'' KInteger,
         ColumnDef ''last_error_code'' KText, ColumnDef ''last_error_detail'' KText],
      indexes =
        [\<lparr>ix_name = ''idx_proj_evidence_stages_state'', ix_columns = [''state'', ''stage'', ''settled_seq'']\<rparr>]\<rparr>"

fun started_stage_writes :: "'b event \<Rightarrow> ingest_stage_started_body \<Rightarrow> row_write list" where
  "started_stage_writes ev (IngestStageStartedV1 b) =
     [Upsert (stage_key (iss_evidence_id b) (iss_stage b))
        [integer_u32 (iss_pass b), Text STAGE_STATE_RUNNING, integer_u32 (iss_attempt_index b),
         id_blob (iss_job_id b), seq_value ev, Null, Null, Null, Null, Null, Null]]"

fun finished_stage_writes :: "'b event \<Rightarrow> ingest_stage_finished_body \<Rightarrow> row_write list" where
  "finished_stage_writes ev (IngestStageFinishedV1 b) =
     [UpdateOne (stage_key (isf_evidence_id b) (isf_stage b))
        [(''pass'', integer_u32 (isf_pass b)), (''state'', Text STAGE_STATE_DONE), (''settled_seq'', seq_value ev),
         (''wall_ms'', integer_u64 (isf_wall_ms b)), (''bytes_read'', integer_u64 (isf_bytes_read b)),
         (''item_count'', integer_u64 (isf_item_count b))]]"

fun failed_stage_writes :: "'b event \<Rightarrow> ingest_stage_failed_body \<Rightarrow> row_write list" where
  "failed_stage_writes ev (IngestStageFailedV1 b) =
     (let state = if disposition_is_dead (isx_disposition b) then STAGE_STATE_DEAD else STAGE_STATE_RETRYING
      in [UpdateOne (stage_key (isx_evidence_id b) (isx_stage b))
            [(''pass'', integer_u32 (isx_pass b)), (''state'', Text state),
             (''attempt_index'', integer_u32 (isx_attempt_index b)), (''settled_seq'', seq_value ev),
             (''last_error_code'', Text (isx_code b)), (''last_error_detail'', Text (isx_detail b))]])"

definition evidence_stages_writes :: "'b event \<Rightarrow> domain_event \<Rightarrow> row_write list" where
  "evidence_stages_writes ev e =
     (case e of
        IngestStageStarted b \<Rightarrow> started_stage_writes ev b
      | IngestStageFinished b \<Rightarrow> finished_stage_writes ev b
      | IngestStageFailed b \<Rightarrow> failed_stage_writes ev b
      | _ \<Rightarrow> [])"

definition apply_evidence_stages :: "'b domain_codec \<Rightarrow> 'b event \<Rightarrow> apply_error + row_write list" where
  "apply_evidence_stages dc = apply_kinds dc EVIDENCE_STAGES_TABLE
     [''IngestStageStarted'', ''IngestStageFinished'', ''IngestStageFailed''] evidence_stages_writes"

section \<open>Chunks\<close>

definition CHUNKS_TABLE :: table_def where
  "CHUNKS_TABLE =
     \<lparr>tbl_name = ''proj_chunks'', tbl_version = 1,
      key_columns = [ColumnDef ''chunk_id'' KBlob],
      value_columns =
        [ColumnDef ''evidence_id'' KBlob, ColumnDef ''ordinal'' KInteger, ColumnDef ''kind'' KText,
         ColumnDef ''byte_start'' KInteger, ColumnDef ''byte_end'' KInteger, ColumnDef ''locator_kind'' KText,
         ColumnDef ''locator_start'' KInteger, ColumnDef ''locator_end'' KInteger, ColumnDef ''content_hash'' KBlob,
         ColumnDef ''token_count_estimate'' KInteger, ColumnDef ''pass'' KInteger, ColumnDef ''created_seq'' KInteger],
      indexes =
        [\<lparr>ix_name = ''idx_proj_chunks_evidence'', ix_columns = [''evidence_id'', ''pass'', ''ordinal'']\<rparr>,
         \<lparr>ix_name = ''idx_proj_chunks_content'', ix_columns = [''content_hash'']\<rparr>]\<rparr>"

definition chunk_row :: "'b event \<Rightarrow> id16 \<Rightarrow> u32 \<Rightarrow> chunk_fact \<Rightarrow> row_write" where
  "chunk_row ev evidence_id pass chunk =
     (let (locator_start, locator_end) = locator_bounds (cf_locator chunk)
      in Upsert [id_blob (cf_chunk_id chunk)]
           [id_blob evidence_id, integer_u32 (cf_ordinal chunk), Text (chunk_kind_as_str (cf_kind chunk)),
            integer_u64 (cf_byte_start chunk), integer_u64 (cf_byte_end chunk),
            Text (locator_kind_str (cf_locator chunk)), integer_u64 locator_start, integer_u64 locator_end,
            hash_blob (cf_content_hash chunk), integer_u32 (cf_token_count_estimate chunk), integer_u32 pass,
            seq_value ev])"

definition chunks_writes :: "'b event \<Rightarrow> domain_event \<Rightarrow> row_write list" where
  "chunks_writes ev e =
     (case e of
        EvidenceChunked (EvidenceChunkedV1 evidence_id pass _ chunks) \<Rightarrow> map (chunk_row ev evidence_id pass) chunks
      | _ \<Rightarrow> [])"

definition apply_chunks :: "'b domain_codec \<Rightarrow> 'b event \<Rightarrow> apply_error + row_write list" where
  "apply_chunks dc = apply_kinds dc CHUNKS_TABLE [''EvidenceChunked''] chunks_writes"

section \<open>Transcripts\<close>

definition TRANSCRIPT_SEGMENT_TABLE :: table_def where
  "TRANSCRIPT_SEGMENT_TABLE =
     \<lparr>tbl_name = ''proj_transcript_segment'', tbl_version = 1,
      key_columns = [ColumnDef ''evidence_id'' KBlob, ColumnDef ''pass'' KInteger, ColumnDef ''segment_index'' KInteger],
      value_columns =
        [ColumnDef ''start_ms'' KInteger, ColumnDef ''end_ms'' KInteger, ColumnDef ''starts_turn'' KInteger,
         ColumnDef ''speaker_index'' KInteger, ColumnDef ''asr_text'' KText, ColumnDef ''edited_text'' KText,
         ColumnDef ''created_seq'' KInteger],
      indexes =
        [\<lparr>ix_name = ''idx_proj_transcript_segment_time'', ix_columns = [''evidence_id'', ''pass'', ''start_ms'']\<rparr>]\<rparr>"

definition segment_key :: "id16 \<Rightarrow> u32 \<Rightarrow> u32 \<Rightarrow> sql_value list" where
  "segment_key evidence_id pass segment_index =
     [id_blob evidence_id, integer_u32 pass, integer_u32 segment_index]"

definition segment_row :: "'b event \<Rightarrow> id16 \<Rightarrow> u32 \<Rightarrow> transcript_segment_fact \<Rightarrow> row_write" where
  "segment_row ev evidence_id pass segment =
     Upsert (segment_key evidence_id pass (ts_segment_index segment))
       [integer_u64 (ts_start_ms segment), integer_u64 (ts_end_ms segment), bool_integer (ts_starts_turn segment),
        integer_u32 TRANSCRIPT_SPEAKER_UNASSIGNED, Text (ts_text segment), Null, seq_value ev]"

definition transcribed_writes :: "'b event \<Rightarrow> domain_event \<Rightarrow> row_write list" where
  "transcribed_writes ev e =
     (case e of
        EvidenceTranscribed (EvidenceTranscribedV1 evidence_id pass _ segments) \<Rightarrow>
          map (segment_row ev evidence_id pass) segments
      | _ \<Rightarrow> [])"

definition corrected_writes :: "'b event \<Rightarrow> domain_event \<Rightarrow> row_write list" where
  "corrected_writes ev e =
     (case e of
        TranscriptTextCorrected (TranscriptTextCorrectedV1 evidence_id pass segment_index corrected) \<Rightarrow>
          [Update (segment_key evidence_id pass segment_index) [(''edited_text'', Text corrected)]]
      | _ \<Rightarrow> [])"

definition speaker_set_writes :: "'b event \<Rightarrow> domain_event \<Rightarrow> row_write list" where
  "speaker_set_writes ev e =
     (case e of
        TranscriptSegmentSpeakerSet (TranscriptSegmentSpeakerSetV1 evidence_id pass segment_index speaker_index) \<Rightarrow>
          [Update (segment_key evidence_id pass segment_index) [(''speaker_index'', integer_u32 speaker_index)]]
      | _ \<Rightarrow> [])"

definition apply_transcript_segment :: "'b domain_codec \<Rightarrow> 'b event \<Rightarrow> apply_error + row_write list" where
  "apply_transcript_segment dc ev =
     (if ev_kind ev = ''EvidenceTranscribed''
      then apply_kinds dc TRANSCRIPT_SEGMENT_TABLE [''EvidenceTranscribed''] transcribed_writes ev
      else if ev_kind ev = ''TranscriptTextCorrected''
      then apply_kinds dc TRANSCRIPT_SEGMENT_TABLE [''TranscriptTextCorrected''] corrected_writes ev
      else if ev_kind ev = ''TranscriptSegmentSpeakerSet''
      then apply_kinds dc TRANSCRIPT_SEGMENT_TABLE [''TranscriptSegmentSpeakerSet''] speaker_set_writes ev
      else Inr [])"

definition TRANSCRIPT_SPEAKER_TABLE :: table_def where
  "TRANSCRIPT_SPEAKER_TABLE =
     \<lparr>tbl_name = ''proj_transcript_speaker'', tbl_version = 1,
      key_columns = [ColumnDef ''evidence_id'' KBlob, ColumnDef ''speaker_index'' KInteger],
      value_columns = [ColumnDef ''name'' KText, ColumnDef ''created_seq'' KInteger],
      indexes = []\<rparr>"

definition transcript_speaker_writes :: "'b event \<Rightarrow> domain_event \<Rightarrow> row_write list" where
  "transcript_speaker_writes ev e =
     (case e of
        TranscriptSpeakerNamed (TranscriptSpeakerNamedV1 evidence_id speaker_index name) \<Rightarrow>
          [Upsert [id_blob evidence_id, integer_u32 speaker_index] [Text name, seq_value ev]]
      | _ \<Rightarrow> [])"

definition apply_transcript_speaker :: "'b domain_codec \<Rightarrow> 'b event \<Rightarrow> apply_error + row_write list" where
  "apply_transcript_speaker dc =
     apply_kinds dc TRANSCRIPT_SPEAKER_TABLE [''TranscriptSpeakerNamed''] transcript_speaker_writes"

section \<open>Embeddings\<close>

definition CHUNK_EMBEDDING_TABLE :: table_def where
  "CHUNK_EMBEDDING_TABLE =
     \<lparr>tbl_name = ''proj_chunk_embedding'', tbl_version = 1,
      key_columns = [ColumnDef ''chunk_id'' KBlob, ColumnDef ''model_id'' KText, ColumnDef ''enrichment_version'' KInteger],
      value_columns =
        [ColumnDef ''evidence_id'' KBlob, ColumnDef ''dim'' KInteger, ColumnDef ''vectors_blob'' KBlob,
         ColumnDef ''row'' KInteger, ColumnDef ''content_hash'' KBlob, ColumnDef ''token_count'' KInteger,
         ColumnDef ''truncated'' KInteger, ColumnDef ''pass'' KInteger, ColumnDef ''created_seq'' KInteger],
      indexes =
        [\<lparr>ix_name = ''idx_proj_chunk_embedding_evidence'', ix_columns = [''evidence_id'', ''model_id'', ''pass'']\<rparr>,
         \<lparr>ix_name = ''idx_proj_chunk_embedding_content'',
            ix_columns = [''content_hash'', ''model_id'', ''enrichment_version'']\<rparr>,
         \<lparr>ix_name = ''idx_proj_chunk_embedding_model'', ix_columns = [''model_id'', ''enrichment_version'']\<rparr>]\<rparr>"

definition embedding_row ::
  "'b event \<Rightarrow> id16 \<Rightarrow> u32 \<Rightarrow> string \<Rightarrow> u16 \<Rightarrow> u16 \<Rightarrow> digest32 \<Rightarrow> chunk_embedding_fact \<Rightarrow> row_write" where
  "embedding_row ev evidence_id pass model_id dim enrichment_version vectors_blob chunk =
     Upsert [id_blob (ce_chunk_id chunk), Text model_id, integer_u32 (ucast enrichment_version)]
       [id_blob evidence_id, integer_u32 (ucast dim), hash_blob vectors_blob, integer_u32 (ce_row chunk),
        hash_blob (ce_content_hash chunk), integer_u32 (ce_token_count chunk), bool_integer (ce_truncated chunk),
        integer_u32 pass, seq_value ev]"

fun embedded_writes :: "'b event \<Rightarrow> evidence_embedded_body \<Rightarrow> row_write list" where
  "embedded_writes ev (EvidenceEmbeddedV1 b) =
     map (embedding_row ev (ee_evidence_id b) (ee_pass b) (ee_model_id b) (ee_dim b) (ee_enrichment_version b)
       (ee_vectors_blob b)) (ee_chunks b)"

definition chunk_embedding_writes :: "'b event \<Rightarrow> domain_event \<Rightarrow> row_write list" where
  "chunk_embedding_writes ev e = (case e of EvidenceEmbedded b \<Rightarrow> embedded_writes ev b | _ \<Rightarrow> [])"

definition apply_chunk_embedding :: "'b domain_codec \<Rightarrow> 'b event \<Rightarrow> apply_error + row_write list" where
  "apply_chunk_embedding dc = apply_kinds dc CHUNK_EMBEDDING_TABLE [''EvidenceEmbedded''] chunk_embedding_writes"

section \<open>Source health\<close>

definition SOURCE_HEALTH_TABLE :: table_def where
  "SOURCE_HEALTH_TABLE =
     \<lparr>tbl_name = ''proj_source_health'', tbl_version = 1,
      key_columns = [ColumnDef ''source_id'' KBlob, ColumnDef ''stage'' KText],
      value_columns =
        [ColumnDef ''ok_count'' KInteger, ColumnDef ''failed_count'' KInteger, ColumnDef ''dead_count'' KInteger,
         ColumnDef ''item_count'' KInteger, ColumnDef ''bytes_total'' KInteger, ColumnDef ''wall_ms_total'' KInteger,
         ColumnDef ''last_success_ts_ms'' KInteger, ColumnDef ''last_failure_ts_ms'' KInteger,
         ColumnDef ''last_error_code'' KText],
      indexes = []\<rparr>"

definition success_writes :: "'b event \<Rightarrow> sql_value list \<Rightarrow> u64 \<Rightarrow> u64 \<Rightarrow> u64 \<Rightarrow> row_write list" where
  "success_writes ev key bytes items wall_ms =
     [Increment key ''ok_count'' 1, Increment key ''bytes_total'' (sat_i64 bytes),
      Increment key ''item_count'' (sat_i64 items), Increment key ''wall_ms_total'' (sat_i64 wall_ms),
      Update key [(''last_success_ts_ms'', integer_u64 (ev_ts_ms ev))]]"

definition failure_writes :: "'b event \<Rightarrow> sql_value list \<Rightarrow> string \<Rightarrow> ingest_stage_disposition \<Rightarrow> row_write list" where
  "failure_writes ev key code disposition =
     [Increment key ''failed_count'' 1] @
     (if disposition_is_dead disposition then [Increment key ''dead_count'' 1] else []) @
     [Update key [(''last_failure_ts_ms'', integer_u64 (ev_ts_ms ev)), (''last_error_code'', Text code)]]"

definition source_health_writes :: "'b event \<Rightarrow> domain_event \<Rightarrow> row_write list" where
  "source_health_writes ev e =
     (case e of
        EvidenceAdded (EvidenceAddedV1 b) \<Rightarrow>
          success_writes ev (stage_key (ea_source_id b) StageRaw) (ea_byte_size b) 1 0
      | IngestStageFinished (IngestStageFinishedV1 b) \<Rightarrow>
          success_writes ev (stage_key (isf_source_id b) (isf_stage b)) (isf_bytes_read b) (isf_item_count b) (isf_wall_ms b)
      | IngestStageFailed (IngestStageFailedV1 b) \<Rightarrow>
          failure_writes ev (stage_key (isx_source_id b) (isx_stage b)) (isx_code b) (isx_disposition b)
      | _ \<Rightarrow> [])"

definition apply_source_health :: "'b domain_codec \<Rightarrow> 'b event \<Rightarrow> apply_error + row_write list" where
  "apply_source_health dc = apply_kinds dc SOURCE_HEALTH_TABLE
     [''EvidenceAdded'', ''IngestStageFinished'', ''IngestStageFailed''] source_health_writes"

section \<open>The ingestion half of the registry\<close>

definition ingest_projections :: "'b domain_codec \<Rightarrow> 'b projection list" where
  "ingest_projections dc =
     [\<lparr>pr_table = EVIDENCE_TABLE, pr_apply = apply_evidence dc\<rparr>,
      \<lparr>pr_table = EVIDENCE_STAGES_TABLE, pr_apply = apply_evidence_stages dc\<rparr>,
      \<lparr>pr_table = CHUNKS_TABLE, pr_apply = apply_chunks dc\<rparr>,
      \<lparr>pr_table = CHUNK_EMBEDDING_TABLE, pr_apply = apply_chunk_embedding dc\<rparr>,
      \<lparr>pr_table = SOURCE_HEALTH_TABLE, pr_apply = apply_source_health dc\<rparr>,
      \<lparr>pr_table = TRANSCRIPT_SEGMENT_TABLE, pr_apply = apply_transcript_segment dc\<rparr>,
      \<lparr>pr_table = TRANSCRIPT_SPEAKER_TABLE, pr_apply = apply_transcript_speaker dc\<rparr>]"

section \<open>Typing\<close>

lemma ingest_kinds [simp]:
  "kind_ok KBlob (hash_blob h)" "kind_ok KText (optional_text t)" "hash_blob h \<noteq> Null"
  by (simp_all add: hash_blob_def optional_text_def split: option.split)

lemma output_assignments_ok: "list_all (assignment_ok (value_columns EVIDENCE_TABLE)) (output_assignments out pass)"
  by (cases out) (simp_all add: EVIDENCE_TABLE_def ok_defs)

lemma evidence_bodies_ok:
  "write_ok EVIDENCE_TABLE (added_row ev a)" "writes_ok EVIDENCE_TABLE (finished_evidence_writes ev f)"
  "writes_ok EVIDENCE_TABLE (failed_evidence_writes ev x)" "writes_ok EVIDENCE_TABLE (reprocess_writes ev r)"
  by (cases a, simp add: EVIDENCE_TABLE_def ok_defs)
     (cases f, simp add: output_assignments_ok, simp add: EVIDENCE_TABLE_def ok_defs,
      cases x, simp add: EVIDENCE_TABLE_def ok_defs, cases r, simp add: EVIDENCE_TABLE_def ok_defs)

lemma evidence_writes_ok: "writes_ok EVIDENCE_TABLE (evidence_writes ev e)"
  by (cases e) (simp_all add: evidence_writes_def evidence_bodies_ok)

lemma stage_bodies_ok:
  "writes_ok EVIDENCE_STAGES_TABLE (started_stage_writes ev s)" "writes_ok EVIDENCE_STAGES_TABLE (finished_stage_writes ev f)"
  "writes_ok EVIDENCE_STAGES_TABLE (failed_stage_writes ev x)"
  by (cases s, simp add: EVIDENCE_STAGES_TABLE_def ok_defs stage_key_def)
     (cases f, simp add: EVIDENCE_STAGES_TABLE_def ok_defs stage_key_def,
      cases x, simp add: EVIDENCE_STAGES_TABLE_def ok_defs stage_key_def Let_def)

lemma evidence_stages_writes_ok: "writes_ok EVIDENCE_STAGES_TABLE (evidence_stages_writes ev e)"
  by (cases e) (simp_all add: evidence_stages_writes_def stage_bodies_ok)

lemma row_writes_ok:
  "write_ok CHUNKS_TABLE (chunk_row ev i p c)" "write_ok TRANSCRIPT_SEGMENT_TABLE (segment_row ev i p s)"
  "write_ok CHUNK_EMBEDDING_TABLE (embedding_row ev i p m d v b k)"
  by (simp_all add: CHUNKS_TABLE_def TRANSCRIPT_SEGMENT_TABLE_def CHUNK_EMBEDDING_TABLE_def ok_defs chunk_row_def
      segment_row_def segment_key_def embedding_row_def split: prod.split)

lemma writes_ok_map: "(\<And>x. write_ok tb (f x)) \<Longrightarrow> writes_ok tb (map f xs)"
  by (induction xs) simp_all

lemma chunks_writes_ok: "writes_ok CHUNKS_TABLE (chunks_writes ev e)"
  by (auto simp: chunks_writes_def intro!: writes_ok_map row_writes_ok split: domain_event.split evidence_chunked_body.split)

lemma chunk_embedding_writes_ok: "writes_ok CHUNK_EMBEDDING_TABLE (chunk_embedding_writes ev e)"
proof -
  have "writes_ok CHUNK_EMBEDDING_TABLE (embedded_writes ev b)" for b
    by (cases b) (simp add: writes_ok_map row_writes_ok)
  then show ?thesis by (simp add: chunk_embedding_writes_def split: domain_event.split)
qed

lemma segment_writes_ok:
  "writes_ok TRANSCRIPT_SEGMENT_TABLE (transcribed_writes ev e)"
  "writes_ok TRANSCRIPT_SEGMENT_TABLE (corrected_writes ev e)"
  "writes_ok TRANSCRIPT_SEGMENT_TABLE (speaker_set_writes ev e)"
  by (auto simp: transcribed_writes_def corrected_writes_def speaker_set_writes_def TRANSCRIPT_SEGMENT_TABLE_def ok_defs
      segment_key_def intro!: writes_ok_map row_writes_ok [unfolded TRANSCRIPT_SEGMENT_TABLE_def]
      split: domain_event.split evidence_transcribed_body.split transcript_text_corrected_body.split
        transcript_segment_speaker_set_body.split)

lemma transcript_speaker_writes_ok: "writes_ok TRANSCRIPT_SPEAKER_TABLE (transcript_speaker_writes ev e)"
  by (auto simp: transcript_speaker_writes_def TRANSCRIPT_SPEAKER_TABLE_def ok_defs
      split: domain_event.split transcript_speaker_named_body.split)

lemma health_pieces_ok:
  "writes_ok SOURCE_HEALTH_TABLE (success_writes ev (stage_key i s) b n w)"
  "writes_ok SOURCE_HEALTH_TABLE (failure_writes ev (stage_key i s) c d)"
  by (simp_all add: success_writes_def failure_writes_def SOURCE_HEALTH_TABLE_def ok_defs stage_key_def)

lemma source_health_writes_ok: "writes_ok SOURCE_HEALTH_TABLE (source_health_writes ev e)"
  by (simp add: source_health_writes_def health_pieces_ok
      split: domain_event.split evidence_added_body.split ingest_stage_finished_body.split ingest_stage_failed_body.split)

lemmas ingest_writes_ok =
  evidence_writes_ok evidence_stages_writes_ok chunks_writes_ok chunk_embedding_writes_ok segment_writes_ok
  transcript_speaker_writes_ok source_health_writes_ok

lemmas ingest_applies =
  apply_evidence_def apply_evidence_stages_def apply_chunks_def apply_chunk_embedding_def apply_source_health_def
  apply_transcript_segment_def apply_transcript_speaker_def

lemma ingest_projection_typed:
  assumes "p \<in> set (ingest_projections dc)" "pr_apply p ev = Inr ws"
  shows "writes_ok (pr_table p) ws"
  using assms unfolding ingest_projections_def
  by (auto simp: ingest_applies intro: ingest_writes_ok elim!: apply_kinds_typed split: if_splits)

section \<open>The full registry\<close>

definition full_registry :: "'b domain_codec \<Rightarrow> 'b registry" where
  "full_registry dc = sort_key (\<lambda>p. tbl_name (pr_table p)) (core_projections dc @ ingest_projections dc)"

lemmas ingest_table_defs =
  EVIDENCE_TABLE_def EVIDENCE_STAGES_TABLE_def CHUNKS_TABLE_def CHUNK_EMBEDDING_TABLE_def SOURCE_HEALTH_TABLE_def
  TRANSCRIPT_SEGMENT_TABLE_def TRANSCRIPT_SPEAKER_TABLE_def

lemma full_registry_set: "set (full_registry dc) = set (core_projections dc) \<union> set (ingest_projections dc)"
  by (simp add: full_registry_def)

lemma full_table_names:
  "table_names (full_registry dc) =
     [''proj_audit'', ''proj_chunk_embedding'', ''proj_chunks'', ''proj_crons'', ''proj_evidence'',
      ''proj_evidence_stages'', ''proj_jobs'', ''proj_model_calls'', ''proj_projects'', ''proj_run_steps'',
      ''proj_run_tool_grants'', ''proj_runs'', ''proj_source_health'', ''proj_transcript_segment'',
      ''proj_transcript_speaker'']"
  by (simp add: full_registry_def table_names_def core_projections_def ingest_projections_def table_defs
      ingest_table_defs less_char_def)

lemma full_tables:
  "map pr_table (full_registry dc) =
     [AUDIT_TABLE, CHUNK_EMBEDDING_TABLE, CHUNKS_TABLE, CRONS_TABLE, EVIDENCE_TABLE, EVIDENCE_STAGES_TABLE, JOBS_TABLE,
      MODEL_CALLS_TABLE, PROJECTS_TABLE, RUN_STEPS_TABLE, RUN_TOOL_GRANTS_TABLE, RUNS_TABLE, SOURCE_HEALTH_TABLE,
      TRANSCRIPT_SEGMENT_TABLE, TRANSCRIPT_SPEAKER_TABLE]"
  by (simp add: full_registry_def core_projections_def ingest_projections_def table_defs ingest_table_defs less_char_def)

lemma full_registry_new: "v0_registry dc (ingest_projections dc) = Inr (full_registry dc)"
proof -
  have "check_shapes [] (map pr_table (full_registry dc)) = Inr ()"
    unfolding full_tables
    by (simp add: check_table_shape_def table_defs ingest_table_defs starts_with_def declared_columns_def)
  then show ?thesis
    by (simp add: v0_registry_def registry_new_def PROJECTION_COUNT_MAX_def core_projections_def ingest_projections_def
        Let_def full_registry_def)
qed

lemma full_registry_distinct: "distinct (table_names (full_registry dc))"
  by (simp add: full_table_names)

end
