(* ===== verification/Row_Reads.thy ===== *)
theory Row_Reads
  imports Projection_Types
begin

text \<open>
  Typed reads of projection rows, as the read modules of \<open>pos-domain\<close> do them over
  \<open>ProjectDb::with_reader\<close>: the columns of a \<open>SELECT\<close>, the \<open>rusqlite\<close> conversions of one cell, and
  the invariant a projection keeps on the rows of its own table. Readers see the committed content
  of a live store; a conversion that does not fit the cell is an SQL error of the statement.
\<close>

section \<open>Cells\<close>

text \<open>\<open>row.get::<_, i64>\<close>, \<open>String\<close>, \<open>Vec<u8>\<close> and their \<open>Option\<close> forms; \<open>Inl ()\<close> is a type error.\<close>

fun get_i64 :: "sql_cell \<Rightarrow> unit + i64" where
  "get_i64 (CInteger i) = Inr i"
| "get_i64 _ = Inl ()"

fun get_text :: "sql_cell \<Rightarrow> unit + string" where
  "get_text (CText s) = Inr s"
| "get_text _ = Inl ()"

fun get_blob :: "sql_cell \<Rightarrow> unit + bytes" where
  "get_blob (CBlob b) = Inr b"
| "get_blob _ = Inl ()"

fun get_opt :: "(sql_cell \<Rightarrow> unit + 'a) \<Rightarrow> sql_cell \<Rightarrow> unit + 'a option" where
  "get_opt f CNull = Inr None"
| "get_opt f c = rbind (f c) (\<lambda>a. Inr (Some a))"

text \<open>One column of a stored row, by its name: a key column or a value column.\<close>

fun key_cell :: "column_def list \<Rightarrow> sql_cell list \<Rightarrow> string \<Rightarrow> sql_cell option" where
  "key_cell (c # cs) (v # vs) name = (if col_name c = name then Some v else key_cell cs vs name)"
| "key_cell _ _ _ = None"

definition column_cell :: "table_def \<Rightarrow> sql_cell list \<times> row \<Rightarrow> string \<Rightarrow> sql_cell" where
  "column_cell tb kr name =
     (case key_cell (key_columns tb) (fst kr) name of Some c \<Rightarrow> c | None \<Rightarrow> snd kr name)"

definition select_columns :: "table_def \<Rightarrow> string list \<Rightarrow> sql_cell list \<times> row \<Rightarrow> sql_cell list" where
  "select_columns tb cols kr = map (column_cell tb kr) cols"

definition table_rows :: "table_def \<Rightarrow> tables \<Rightarrow> unit + table" where
  "table_rows tb ts = (case ts (tbl_name tb) of None \<Rightarrow> Inl () | Some t \<Rightarrow> Inr t)"

section \<open>Readers\<close>

definition with_reader :: "string \<Rightarrow> ('d \<Rightarrow> unit + 'a) \<Rightarrow> 'd project_db \<Rightarrow> store_error + 'a" where
  "with_reader context operation db =
     rbind (ensure_live db) (\<lambda>_. map_err (\<lambda>_. Sqlite context) (operation (db_content db)))"

lemma with_reader_Inr [simp]:
  "with_reader ctx op db = Inr a \<longleftrightarrow> \<not> fail_stopped db \<and> op (db_content db) = Inr a"
  by (auto simp: with_reader_def ensure_live_def)

lemma with_reader_live:
  "\<not> fail_stopped db \<Longrightarrow> with_reader ctx op db = map_err (\<lambda>_. Sqlite ctx) (op (db_content db))"
  by (simp add: with_reader_def ensure_live_def)

section \<open>Cell predicates\<close>

definition int_cell :: "sql_cell \<Rightarrow> bool" where
  "int_cell c \<longleftrightarrow> (\<exists>i. c = CInteger i)"

definition text_cell :: "sql_cell \<Rightarrow> bool" where
  "text_cell c \<longleftrightarrow> (\<exists>s. c = CText s)"

definition blob_cell :: "sql_cell \<Rightarrow> bool" where
  "blob_cell c \<longleftrightarrow> (\<exists>b. c = CBlob b)"

definition id_cell :: "sql_cell \<Rightarrow> bool" where
  "id_cell c \<longleftrightarrow> (\<exists>i. c = CBlob (into_bytes i))"

definition word_cell :: "('a \<Rightarrow> string) \<Rightarrow> sql_cell \<Rightarrow> bool" where
  "word_cell f c \<longleftrightarrow> (\<exists>v. c = CText (f v))"

definition opt_cell :: "(sql_cell \<Rightarrow> bool) \<Rightarrow> sql_cell \<Rightarrow> bool" where
  "opt_cell f c \<longleftrightarrow> c = CNull \<or> f c"

lemmas cell_preds = int_cell_def text_cell_def blob_cell_def id_cell_def word_cell_def opt_cell_def

lemma cell_intros [simp]:
  "int_cell (CInteger i)" "text_cell (CText s)" "blob_cell (CBlob b)" "id_cell (CBlob (into_bytes j))"
  "word_cell f (CText (f v))" "opt_cell g CNull"
  by (auto simp: cell_preds)

lemma opt_cell_self [simp]: "f c \<Longrightarrow> opt_cell f c"
  by (simp add: opt_cell_def)

lemma bind_helpers [simp]:
  "bind_value (id_blob i) = CBlob (into_bytes i)" "bind_value (integer_u64 v) = CInteger (sat_i64 v)"
  "bind_value (integer_u32 w) = CInteger (uint w)" "bind_value (seq_value ev) = CInteger (sat_i64 (ev_seq ev))"
  "bind_value (bool_integer b) = CInteger (if b then 1 else 0)"
  by (simp_all add: id_blob_def integer_u64_def integer_u32_def seq_value_def bool_integer_def)

lemma opt_id_cell [simp]: "opt_cell id_cell (bind_value (optional_id_blob oi))"
  by (cases oi) (simp_all add: optional_id_blob_def)

lemma sound_tables_wf: "log_sound l \<Longrightarrow> tables_wf (pl_registry l) (log_tables l)"
  using project_wf [OF _ fresh_tables_wf] by (auto simp: log_sound_def log_inv_def log_tables_def)

text \<open>A lookup by all key columns finds the row \<open>map_of\<close> finds, and no other.\<close>

lemma filter_key:
  assumes "tbl_sorted t"
    and "\<And>k r. (k, r) \<in> set t \<Longrightarrow> P (k, r) \<longleftrightarrow> k = key"
  shows "filter P t = (case map_of t key of None \<Rightarrow> [] | Some r \<Rightarrow> [(key, r)])"
  using assms
proof (induction t)
  case (Cons kr t)
  obtain k r where kr: "kr = (k, r)" by (cases kr)
  have tl: "tbl_sorted t" and fresh: "k \<notin> fst ` set t"
    using Cons.prems(1) kr by (auto simp: tbl_sorted_def)
  have IH: "filter P t = (case map_of t key of None \<Rightarrow> [] | Some r \<Rightarrow> [(key, r)])"
    by (rule Cons.IH [OF tl]) (use Cons.prems(2) in simp)
  have P: "P (k, r) \<longleftrightarrow> k = key"
    using Cons.prems(2) [of k r] kr by simp
  show ?case
  proof (cases "k = key")
    case True
    then have "map_of t key = None"
      using fresh by (simp add: map_of_eq_None_iff)
    with True P IH kr show ?thesis by simp
  qed (use P IH kr in simp)
qed simp

lemmas filter_single_key = filter_key [where key = "[c]" for c]

section \<open>Row invariants of one projection\<close>

text \<open>
  A predicate on the rows of a projection's table that every one of its writes keeps. It then holds
  of every row in every state of a log, because the tables are the fold of the events.
\<close>

definition rows_good :: "(sql_cell list \<Rightarrow> row \<Rightarrow> bool) \<Rightarrow> table \<Rightarrow> bool" where
  "rows_good good t \<longleftrightarrow> (\<forall>k r. map_of t k = Some r \<longrightarrow> good k r)"

lemma rows_goodD: "rows_good good t \<Longrightarrow> map_of t k = Some r \<Longrightarrow> good k r"
  by (simp add: rows_good_def)

lemma rows_good_put: "rows_good good t \<Longrightarrow> good k r \<Longrightarrow> rows_good good (tbl_put k r t)"
  by (simp add: rows_good_def)

fun write_keeps :: "table_def \<Rightarrow> (sql_cell list \<Rightarrow> row \<Rightarrow> bool) \<Rightarrow> row_write \<Rightarrow> bool" where
  "write_keeps tb g (Insert k vs) \<longleftrightarrow> g (bind_values k) (row_of (value_columns tb) vs)"
| "write_keeps tb g (Upsert k vs) \<longleftrightarrow> g (bind_values k) (row_of (value_columns tb) vs)"
| "write_keeps tb g (Update k as) \<longleftrightarrow> (\<forall>r. g (bind_values k) r \<longrightarrow> g (bind_values k) (assign_row as r))"
| "write_keeps tb g (UpdateOne k as) \<longleftrightarrow> (\<forall>r. g (bind_values k) r \<longrightarrow> g (bind_values k) (assign_row as r))"
| "write_keeps tb g (UpdateOneWhenNull k c as) \<longleftrightarrow>
     (\<forall>r. g (bind_values k) r \<and> r c = CNull \<longrightarrow> g (bind_values k) (assign_row as r))"
| "write_keeps tb g (Increment k c d) \<longleftrightarrow>
     g (bind_values k) ((\<lambda>_. CNull)(c := CInteger d)) \<and>
     (\<forall>r. g (bind_values k) r \<longrightarrow> g (bind_values k) (r(c := sql_add (r c) d)))"
| "write_keeps tb g (IncrementOne k c d) \<longleftrightarrow>
     (\<forall>r. g (bind_values k) r \<longrightarrow> g (bind_values k) (r(c := sql_add (r c) d)))"
| "write_keeps tb g (IncrementManyOne k ds) \<longleftrightarrow>
     (\<forall>r. g (bind_values k) r \<longrightarrow> g (bind_values k) (add_deltas ds r))"
| "write_keeps tb g (Delete k) \<longleftrightarrow> True"

lemma execute_keeps:
  assumes "execute_write tb w t = Inr t'" "rows_good g t" "write_keeps tb g w"
  shows "rows_good g t'"
  using assms rows_goodD [OF assms(2)]
  by (cases w)
     (auto simp: rbind_Inr update_one_Inr sql_insert_def sql_upsert_def sql_update_def sql_delete_def
        intro!: rows_good_put split: option.splits if_splits,
      auto simp: rows_good_def split: if_splits)

locale row_invariant =
  fixes p :: "'b projection"
    and good :: "sql_cell list \<Rightarrow> row \<Rightarrow> bool"
  assumes keeps: "pr_apply p ev = Inr ws \<Longrightarrow> w \<in> set ws \<Longrightarrow> write_keeps (pr_table p) good w"
begin

definition table_good :: "tables \<Rightarrow> bool" where
  "table_good ts \<longleftrightarrow> (\<forall>t. ts (tbl_name (pr_table p)) = Some t \<longrightarrow> rows_good good t)"

lemma apply_own:
  assumes "apply_projection p ev ts = Inr ts'" "table_good ts"
  shows "table_good ts'"
proof -
  obtain ws where ws: "pr_apply p ev = Inr ws"
    and f: "rfold (\<lambda>w ts. map_err (Apply (ev_kind ev) (ev_seq ev)) (execute_in (pr_table p) w ts)) ws ts = Inr ts'"
    using assms(1) by (auto simp: apply_projection_def rbind_Inr)
  show ?thesis
  proof (rule rfold_invariant [where I = table_good, OF f assms(2)])
    fix w s s'
    assume "w \<in> set ws" "table_good s"
      "map_err (Apply (ev_kind ev) (ev_seq ev)) (execute_in (pr_table p) w s) = Inr s'"
    then show "table_good s'"
      using keeps [OF ws] execute_keeps by (fastforce simp: table_good_def execute_in_def rbind_Inr split: option.splits)
  qed
qed

lemma apply_other:
  assumes "apply_projection q ev ts = Inr ts'" "tbl_name (pr_table q) \<noteq> tbl_name (pr_table p)" "table_good ts"
  shows "table_good ts'"
  using apply_projection_frame [OF assms(1)] assms(2,3) by (simp add: table_good_def)

lemma apply_all:
  assumes "apply_to_tables reg ev ts = Inr ts'" "p \<in> set reg" "distinct (table_names reg)" "table_good ts"
  shows "table_good ts'"
proof (rule rfold_invariant [where I = table_good, OF assms(1) [unfolded apply_to_tables_def] assms(4)])
  fix q s s'
  assume q: "q \<in> set reg" "table_good s" "apply_projection q ev s = Inr s'"
  show "table_good s'"
  proof (cases "tbl_name (pr_table q) = tbl_name (pr_table p)")
    case True
    then have "q = p"
      using q(1) assms(2,3) by (auto simp: table_names_def distinct_map dest: inj_onD)
    with q show ?thesis using apply_own by blast
  next
    case False
    with q show ?thesis using apply_other by blast
  qed
qed

lemma project_good:
  assumes "project reg evs (fresh_tables reg ts) = Inr ts'" "p \<in> set reg" "distinct (table_names reg)"
  shows "table_good ts'"
proof (rule rfold_invariant [where I = table_good, OF assms(1) [unfolded project_def]])
  show "table_good (fresh_tables reg ts)"
    using assms(2) by (auto simp: table_good_def fresh_tables_def rows_good_def set_table_names split: if_splits)
qed (use apply_all assms(2,3) in blast)

lemma sound_rows:
  assumes "log_sound l" "p \<in> set (pl_registry l)" "log_tables l (tbl_name (pr_table p)) = Some t"
  shows "rows_good good t"
  using project_good assms by (auto simp: log_sound_def log_inv_def table_good_def log_tables_def)

end

section \<open>Rows only progress\<close>

text \<open>
  A preorder on the rows of a projection's table along which every write moves: what was recorded
  stays recorded. It relates every row of a log to the same row in every later state.
\<close>

fun write_progress ::
  "table_def \<Rightarrow> (sql_cell list \<Rightarrow> row \<Rightarrow> row \<Rightarrow> bool) \<Rightarrow> row_write \<Rightarrow> bool" where
  "write_progress tb le (Insert k vs) \<longleftrightarrow> True"
| "write_progress tb le (Upsert k vs) \<longleftrightarrow> (\<forall>r. le (bind_values k) r (row_of (value_columns tb) vs))"
| "write_progress tb le (Update k as) \<longleftrightarrow> (\<forall>r. le (bind_values k) r (assign_row as r))"
| "write_progress tb le (UpdateOne k as) \<longleftrightarrow> (\<forall>r. le (bind_values k) r (assign_row as r))"
| "write_progress tb le (UpdateOneWhenNull k c as) \<longleftrightarrow>
     (\<forall>r. r c = CNull \<longrightarrow> le (bind_values k) r (assign_row as r))"
| "write_progress tb le (Increment k c d) \<longleftrightarrow> (\<forall>r. le (bind_values k) r (r(c := sql_add (r c) d)))"
| "write_progress tb le (IncrementOne k c d) \<longleftrightarrow> (\<forall>r. le (bind_values k) r (r(c := sql_add (r c) d)))"
| "write_progress tb le (IncrementManyOne k ds) \<longleftrightarrow> (\<forall>r. le (bind_values k) r (add_deltas ds r))"
| "write_progress tb le (Delete k) \<longleftrightarrow> False"

locale row_progress =
  fixes p :: "'b projection"
    and le :: "sql_cell list \<Rightarrow> row \<Rightarrow> row \<Rightarrow> bool"
  assumes le_refl: "le k r r"
    and le_trans: "le k r s \<Longrightarrow> le k s u \<Longrightarrow> le k r u"
    and progress: "pr_apply p ev = Inr ws \<Longrightarrow> w \<in> set ws \<Longrightarrow> write_progress (pr_table p) le w"
begin

definition table_le :: "table \<Rightarrow> table \<Rightarrow> bool" where
  "table_le t t' \<longleftrightarrow> (\<forall>k r. map_of t k = Some r \<longrightarrow> (\<exists>r'. map_of t' k = Some r' \<and> le k r r'))"

definition tables_le :: "tables \<Rightarrow> tables \<Rightarrow> bool" where
  "tables_le ts ts' \<longleftrightarrow> (\<forall>t. ts (tbl_name (pr_table p)) = Some t \<longrightarrow>
     (\<exists>t'. ts' (tbl_name (pr_table p)) = Some t' \<and> table_le t t'))"

lemma table_le_refl: "table_le t t"
  by (simp add: table_le_def le_refl)

lemma table_le_trans: "table_le t u \<Longrightarrow> table_le u v \<Longrightarrow> table_le t v"
  unfolding table_le_def using le_trans by meson

lemma tables_le_refl: "tables_le ts ts"
  by (simp add: tables_le_def table_le_refl)

lemma tables_le_trans: "tables_le ts us \<Longrightarrow> tables_le us vs \<Longrightarrow> tables_le ts vs"
  unfolding tables_le_def using table_le_trans by meson

lemma execute_le:
  assumes "execute_write (pr_table p) w t = Inr t'" "write_progress (pr_table p) le w"
  shows "table_le t t'"
  using assms
  by (cases w) (auto simp: table_le_def rbind_Inr update_one_Inr sql_insert_def sql_upsert_def sql_update_def
      le_refl split: option.splits if_splits)

lemma projection_le:
  assumes "apply_projection q ev ts = Inr ts'" "q = p \<or> tbl_name (pr_table q) \<noteq> tbl_name (pr_table p)"
  shows "tables_le ts ts'"
proof (cases "q = p")
  case True
  obtain ws where ws: "pr_apply p ev = Inr ws"
    and f: "rfold (\<lambda>w ts. map_err (Apply (ev_kind ev) (ev_seq ev)) (execute_in (pr_table p) w ts)) ws ts = Inr ts'"
    using assms(1) True by (auto simp: apply_projection_def rbind_Inr)
  show ?thesis
  proof (rule rfold_invariant [where I = "tables_le ts", OF f tables_le_refl])
    fix w s s'
    assume "w \<in> set ws" "tables_le ts s"
      "map_err (Apply (ev_kind ev) (ev_seq ev)) (execute_in (pr_table p) w s) = Inr s'"
    moreover from this have "tables_le s s'"
      using execute_le progress [OF ws] by (fastforce simp: tables_le_def execute_in_def rbind_Inr split: option.splits)
    ultimately show "tables_le ts s'" using tables_le_trans by blast
  qed
next
  case False
  then show ?thesis
    using apply_projection_frame [OF assms(1)] assms(2) by (auto simp: tables_le_def table_le_refl)
qed

lemma project_le:
  assumes "project reg evs ts = Inr ts'" "p \<in> set reg" "distinct (table_names reg)"
  shows "tables_le ts ts'"
proof (rule rfold_invariant [where I = "tables_le ts", OF assms(1) [unfolded project_def] tables_le_refl])
  fix ev s s'
  assume ev: "tables_le ts s" "apply_to_tables reg ev s = Inr s'"
  have "tables_le s s'"
  proof (rule rfold_invariant [where I = "tables_le s", OF ev(2) [unfolded apply_to_tables_def] tables_le_refl])
    fix q u u'
    assume q: "q \<in> set reg" "tables_le s u" "apply_projection q ev u = Inr u'"
    then have "q = p \<or> tbl_name (pr_table q) \<noteq> tbl_name (pr_table p)"
      using assms(2,3) by (auto simp: table_names_def distinct_map dest: inj_onD)
    with q show "tables_le s u'" using projection_le tables_le_trans by blast
  qed
  with ev(1) show "tables_le ts s'" using tables_le_trans by blast
qed

lemma step_le:
  assumes "log_step\<^sup>*\<^sup>* l l'" "log_sound l" "p \<in> set (pl_registry l)"
  shows "tables_le (log_tables l) (log_tables l')"
proof -
  have same: "pl_externals l' = pl_externals l \<and> pl_registry l' = pl_registry l"
    using assms(1) by (induction rule: rtranclp_induct) (auto elim: log_step.cases)
  obtain new where snd': "log_sound l'" and ext: "log_events l' = log_events l @ new"
    using plog.run_good_extends [OF assms(1,2)] by auto
  let ?reg = "pl_registry l" and ?x = "pl_externals l"
  obtain evs where evs: "rcollect (decode_event_row ?x) (log_events l) = Inr evs"
    and p1: "project ?reg evs (fresh_tables ?reg (log_tables l)) = Inr (log_tables l)"
    using assms(2) by (auto simp: log_sound_def log_inv_def log_core_def log_events_def log_tables_def)
  obtain evs' where evs': "rcollect (decode_event_row ?x) (log_events l') = Inr evs'"
    and p2: "project ?reg evs' (fresh_tables ?reg (log_tables l')) = Inr (log_tables l')"
    using snd' same by (auto simp: log_sound_def log_inv_def log_core_def log_events_def log_tables_def)
  obtain evs2 where "evs' = evs @ evs2"
    using evs evs' ext by (auto simp: rcollect_append rbind_Inr)
  then obtain us where us: "project ?reg evs (fresh_tables ?reg (log_tables l')) = Inr us"
    "project ?reg evs2 us = Inr (log_tables l')"
    using p2 by (auto simp: project_append rbind_Inr)
  have "agree ?reg (fresh_tables ?reg (log_tables l)) (fresh_tables ?reg (log_tables l'))"
    by (simp add: agree_def fresh_tables_def)
  then have "agree ?reg (log_tables l) us"
    using project_agree [OF p1, of "fresh_tables ?reg (log_tables l')"] us(1) by fastforce
  then have "log_tables l (tbl_name (pr_table p)) = us (tbl_name (pr_table p))"
    unfolding agree_def by (rule bspec) (use assms(3) in \<open>auto simp: set_table_names\<close>)
  moreover have "tables_le us (log_tables l')"
    using project_le us(2) assms by (auto simp: log_sound_def)
  ultimately show ?thesis by (simp add: tables_le_def)
qed

lemma row_persists:
  assumes "log_step\<^sup>*\<^sup>* l l'" "log_sound l" "p \<in> set (pl_registry l)"
    and "log_tables l (tbl_name (pr_table p)) = Some t" "map_of t k = Some r"
  shows "\<exists>t' r'. log_tables l' (tbl_name (pr_table p)) = Some t' \<and> map_of t' k = Some r' \<and> le k r r'"
  using step_le [OF assms(1-3)] assms(4,5) by (auto simp: tables_le_def table_le_def)

end

end
