(* ===== verification/Job_State.thy ===== *)
theory Job_State
  imports Row_Reads
begin

text \<open>
  Typed reads over the durable scheduler projections, \<open>crates/pos-domain/src/job_state.rs\<close>: job and
  cron records decoded from \<open>proj_jobs\<close> and \<open>proj_crons\<close>, the bounded listings, and the proof that a
  row maintained by the projections always decodes.
\<close>

section \<open>Records\<close>

definition JOB_LIST_ROW_COUNT_MAX :: u32 where
  "JOB_LIST_ROW_COUNT_MAX = 500"

datatype job_durable_state = Queued | Done | Dead

fun durable_as_str :: "job_durable_state \<Rightarrow> string" where
  "durable_as_str Queued = ''queued''"
| "durable_as_str Done = ''done''"
| "durable_as_str Dead = ''dead''"

definition durable_parse :: "string \<Rightarrow> job_durable_state option" where
  "durable_parse s =
     (if s = ''queued'' then Some Queued else if s = ''done'' then Some Done
      else if s = ''dead'' then Some Dead else None)"

fun is_terminal :: "job_durable_state \<Rightarrow> bool" where
  "is_terminal Queued = False"
| "is_terminal Done = True"
| "is_terminal Dead = True"

datatype (plugins only: code size) job_record = JobRecordFields
  (jr_job_id: id16)
  (jr_project_id: "id16 option")
  (jr_job_kind: string)
  (jr_idempotency_key: string)
  (jr_state: job_durable_state)
  (jr_priority: job_priority)
  (jr_class: job_class)
  (jr_payload: bytes)
  (jr_enqueued_seq: event_seq)
  (jr_run_at_ts_ms: u64)
  (jr_attempt_count: u32)
  (jr_attempt_count_max: u32)
  (jr_last_error_code: "string option")
  (jr_last_error_detail: "string option")
  (jr_terminal_seq: "event_seq option")
  (jr_wall_ms: "u64 option")
  (jr_dead_reason_code: "string option")
  (jr_dead_reason_detail: "string option")
  (jr_cron_id: "id16 option")

definition attempts_remain :: "job_record \<Rightarrow> bool" where
  "attempts_remain j \<longleftrightarrow> jr_attempt_count j < jr_attempt_count_max j"

datatype (plugins only: code size) cron_record = CronRecordFields
  (cn_cron_id: id16)
  (cn_project_id: id16)
  (cn_job_kind: string)
  (cn_expr: string)
  (cn_tz: string)
  (cn_overlap_policy: cron_overlap_policy)
  (cn_enabled: bool)
  (cn_priority: job_priority)
  (cn_class: job_class)
  (cn_payload: bytes)
  (cn_registered_seq: event_seq)
  (cn_registered_ts_ms: u64)
  (cn_last_fired_ts_ms: "u64 option")
  (cn_last_job_id: "id16 option")

definition watermark_ts_ms :: "cron_record \<Rightarrow> u64" where
  "watermark_ts_ms c =
     (case cn_last_fired_ts_ms c of Some fired \<Rightarrow> fired | None \<Rightarrow> cn_registered_ts_ms c)"

record job_list_filter =
  jf_state :: "job_durable_state option"
  jf_class :: "job_class option"
  jf_cron_id :: "id16 option"
  jf_row_count_max :: "u32 option"

text \<open>The reason of \<open>CorruptProjection\<close> keeps the column that did not decode.\<close>

datatype job_read_error = ReadStore store_error | CorruptProjection string string

section \<open>Decoding\<close>

definition id_bytes :: "string \<Rightarrow> string \<Rightarrow> bytes \<Rightarrow> job_read_error + id16" where
  "id_bytes table column bytes = ok_or (CorruptProjection table column) (id_try_from bytes)"

definition optional_id :: "string \<Rightarrow> string \<Rightarrow> bytes option \<Rightarrow> job_read_error + id16 option" where
  "optional_id table column bytes = rtranspose (id_bytes table column) bytes"

definition rank_priority :: "string \<Rightarrow> i64 \<Rightarrow> job_read_error + job_priority" where
  "rank_priority table rank =
     ok_or (CorruptProjection table ''priority_rank'') (Option.bind (try_u8 rank) priority_from_rank)"

definition JOB_COLUMNS :: "string list" where
  "JOB_COLUMNS =
     [''job_id'', ''project_id'', ''job_kind'', ''idempotency_key'', ''state'', ''priority_rank'',
      ''class'', ''payload'', ''enqueued_seq'', ''run_at_ts_ms'', ''attempt_count'', ''attempt_count_max'',
      ''last_error_code'', ''last_error_detail'', ''terminal_seq'', ''wall_ms'', ''dead_reason_code'',
      ''dead_reason_detail'', ''cron_id'']"

datatype (plugins only: code size) job_raw = JobRaw
  bytes "bytes option" string string string i64 string bytes i64 i64 i64 i64
  "string option" "string option" "i64 option" "i64 option" "string option" "string option" "bytes option"

definition job_row :: "sql_cell list \<Rightarrow> unit + job_raw" where
  "job_row c =
     rbind (get_blob (c ! 0)) (\<lambda>job_id.
     rbind (get_opt get_blob (c ! 1)) (\<lambda>project_id.
     rbind (get_text (c ! 2)) (\<lambda>job_kind.
     rbind (get_text (c ! 3)) (\<lambda>idempotency_key.
     rbind (get_text (c ! 4)) (\<lambda>state.
     rbind (get_i64 (c ! 5)) (\<lambda>priority_rank.
     rbind (get_text (c ! 6)) (\<lambda>cls.
     rbind (get_blob (c ! 7)) (\<lambda>payload.
     rbind (get_i64 (c ! 8)) (\<lambda>enqueued_seq.
     rbind (get_i64 (c ! 9)) (\<lambda>run_at_ts_ms.
     rbind (get_i64 (c ! 10)) (\<lambda>attempt_count.
     rbind (get_i64 (c ! 11)) (\<lambda>attempt_count_max.
     rbind (get_opt get_text (c ! 12)) (\<lambda>last_error_code.
     rbind (get_opt get_text (c ! 13)) (\<lambda>last_error_detail.
     rbind (get_opt get_i64 (c ! 14)) (\<lambda>terminal_seq.
     rbind (get_opt get_i64 (c ! 15)) (\<lambda>wall_ms.
     rbind (get_opt get_text (c ! 16)) (\<lambda>dead_reason_code.
     rbind (get_opt get_text (c ! 17)) (\<lambda>dead_reason_detail.
     rbind (get_opt get_blob (c ! 18)) (\<lambda>cron_id.
     Inr (JobRaw job_id project_id job_kind idempotency_key state priority_rank cls payload
            enqueued_seq run_at_ts_ms attempt_count attempt_count_max last_error_code
            last_error_detail terminal_seq wall_ms dead_reason_code dead_reason_detail
            cron_id))))))))))))))))))))"

fun job_into_record :: "job_raw \<Rightarrow> job_read_error + job_record" where
  "job_into_record (JobRaw job_id project_id job_kind idempotency_key state rank cls payload
      enqueued_seq run_at_ts_ms attempt_count attempt_count_max last_error_code
      last_error_detail terminal_seq wall_ms dead_code dead_detail' cron_id) =
     rbind (id_bytes ''proj_jobs'' ''job_id'' job_id) (\<lambda>job_id'.
     rbind (ok_or (CorruptProjection ''proj_jobs'' ''state'') (durable_parse state)) (\<lambda>state'.
     rbind (rank_priority ''proj_jobs'' rank) (\<lambda>priority.
     rbind (ok_or (CorruptProjection ''proj_jobs'' ''class'') (class_parse cls)) (\<lambda>cls'.
     rbind (optional_id ''proj_jobs'' ''project_id'' project_id) (\<lambda>project_id'.
     rbind (optional_id ''proj_jobs'' ''cron_id'' cron_id) (\<lambda>cron_id'.
     Inr (JobRecordFields job_id' project_id' job_kind idempotency_key state' priority cls' payload
            (non_negative enqueued_seq) (non_negative run_at_ts_ms) (count_u32 attempt_count)
            (count_u32 attempt_count_max) last_error_code last_error_detail
            (map_option non_negative terminal_seq) (map_option non_negative wall_ms)
            dead_code dead_detail' cron_id')))))))"

definition CRON_COLUMNS :: "string list" where
  "CRON_COLUMNS =
     [''cron_id'', ''project_id'', ''job_kind'', ''expr'', ''tz'', ''overlap_policy'', ''enabled'',
      ''priority_rank'', ''class'', ''payload'', ''registered_seq'', ''registered_ts_ms'',
      ''last_fired_ts_ms'', ''last_job_id'']"

datatype (plugins only: code size) cron_raw = CronRaw
  bytes bytes string string string string i64 i64 string bytes i64 i64 "i64 option" "bytes option"

definition cron_row :: "sql_cell list \<Rightarrow> unit + cron_raw" where
  "cron_row c =
     rbind (get_blob (c ! 0)) (\<lambda>cron_id.
     rbind (get_blob (c ! 1)) (\<lambda>project_id.
     rbind (get_text (c ! 2)) (\<lambda>job_kind.
     rbind (get_text (c ! 3)) (\<lambda>expr.
     rbind (get_text (c ! 4)) (\<lambda>tz.
     rbind (get_text (c ! 5)) (\<lambda>overlap_policy.
     rbind (get_i64 (c ! 6)) (\<lambda>enabled.
     rbind (get_i64 (c ! 7)) (\<lambda>priority_rank.
     rbind (get_text (c ! 8)) (\<lambda>cls.
     rbind (get_blob (c ! 9)) (\<lambda>payload.
     rbind (get_i64 (c ! 10)) (\<lambda>registered_seq.
     rbind (get_i64 (c ! 11)) (\<lambda>registered_ts_ms.
     rbind (get_opt get_i64 (c ! 12)) (\<lambda>last_fired_ts_ms.
     rbind (get_opt get_blob (c ! 13)) (\<lambda>last_job_id.
     Inr (CronRaw cron_id project_id job_kind expr tz overlap_policy enabled priority_rank cls payload
            registered_seq registered_ts_ms last_fired_ts_ms last_job_id)))))))))))))))"

fun cron_into_record :: "cron_raw \<Rightarrow> job_read_error + cron_record" where
  "cron_into_record (CronRaw cron_id project_id job_kind expr tz overlap_policy enabled rank
      cls payload registered_seq registered_ts_ms last_fired_ts_ms last_job_id) =
     rbind (ok_or (CorruptProjection ''proj_crons'' ''overlap_policy'') (overlap_parse overlap_policy)) (\<lambda>overlap.
     rbind (rank_priority ''proj_crons'' rank) (\<lambda>priority.
     rbind (ok_or (CorruptProjection ''proj_crons'' ''class'') (class_parse cls)) (\<lambda>cls'.
     rbind (id_bytes ''proj_crons'' ''cron_id'' cron_id) (\<lambda>cron_id'.
     rbind (id_bytes ''proj_crons'' ''project_id'' project_id) (\<lambda>project_id'.
     rbind (optional_id ''proj_crons'' ''last_job_id'' last_job_id) (\<lambda>last_job_id'.
     Inr (CronRecordFields cron_id' project_id' job_kind expr tz overlap (enabled \<noteq> 0) priority cls'
            payload (non_negative registered_seq) (non_negative registered_ts_ms)
            (map_option non_negative last_fired_ts_ms) last_job_id')))))))"

section \<open>Queries\<close>

definition job_query ::
  "(sql_cell list \<times> row \<Rightarrow> bool) \<Rightarrow> 'b log_db \<Rightarrow> unit + table" where
  "job_query cond db = rbind (table_rows JOBS_TABLE (main_tables db)) (\<lambda>t. Inr (filter cond t))"

definition read_job :: "'b project_log \<Rightarrow> id16 \<Rightarrow> job_read_error + job_record option" where
  "read_job l job_id =
     rbind (map_err ReadStore (with_reader ''read job row'' (\<lambda>db.
              rbind (job_query (\<lambda>kr. column_cell JOBS_TABLE kr ''job_id'' = CBlob (into_bytes job_id)) db) (\<lambda>rows.
              case rows of
                [] \<Rightarrow> Inr None
              | kr # _ \<Rightarrow> rbind (job_row (select_columns JOBS_TABLE JOB_COLUMNS kr)) (\<lambda>raw. Inr (Some raw))))
              (pl_store l))) (\<lambda>raw.
     rtranspose job_into_record raw)"

text \<open>\<open>ORDER BY enqueued_seq DESC, job_id ASC\<close> over rows in primary-key order.\<close>

definition newest_first :: "table \<Rightarrow> table" where
  "newest_first rows = rev (sort_key (\<lambda>kr. column_cell JOBS_TABLE kr ''enqueued_seq'') (rev rows))"

definition job_filter_matches :: "job_list_filter \<Rightarrow> sql_cell list \<times> row \<Rightarrow> bool" where
  "job_filter_matches f kr \<longleftrightarrow>
     (\<forall>s. jf_state f = Some s \<longrightarrow> column_cell JOBS_TABLE kr ''state'' = CText (durable_as_str s)) \<and>
     (\<forall>c. jf_class f = Some c \<longrightarrow> column_cell JOBS_TABLE kr ''class'' = CText (class_as_str c)) \<and>
     (\<forall>i. jf_cron_id f = Some i \<longrightarrow> column_cell JOBS_TABLE kr ''cron_id'' = CBlob (into_bytes i))"

definition job_list_limit :: "job_list_filter \<Rightarrow> u32" where
  "job_list_limit f =
     min (case jf_row_count_max f of None \<Rightarrow> JOB_LIST_ROW_COUNT_MAX | Some n \<Rightarrow> n) JOB_LIST_ROW_COUNT_MAX"

definition list_jobs :: "'b project_log \<Rightarrow> job_list_filter \<Rightarrow> job_read_error + job_record list" where
  "list_jobs l f =
     rbind (map_err ReadStore (with_reader ''list job rows'' (\<lambda>db.
              rbind (job_query (job_filter_matches f) db) (\<lambda>rows.
              rcollect (\<lambda>kr. job_row (select_columns JOBS_TABLE JOB_COLUMNS kr))
                (take (unat (job_list_limit f)) (newest_first rows)))) (pl_store l))) (\<lambda>raws.
     rcollect job_into_record raws)"

text \<open>\<open>SELECT state, count(*) .. GROUP BY state\<close>, folded into the three slots.\<close>

definition state_count :: "job_durable_state \<Rightarrow> table \<Rightarrow> u64" where
  "state_count s rows =
     word_of_nat (length (filter (\<lambda>kr. column_cell JOBS_TABLE kr ''state'' = CText (durable_as_str s)) rows))"

definition count_jobs_by_state :: "'b project_log \<Rightarrow> job_read_error + u64 list" where
  "count_jobs_by_state l =
     map_err ReadStore (with_reader ''count jobs by state'' (\<lambda>db.
       rbind (job_query (\<lambda>_. True) db) (\<lambda>rows.
       if list_all (\<lambda>kr. text_cell (column_cell JOBS_TABLE kr ''state'')) rows
       then Inr [state_count Queued rows, state_count Done rows, state_count Dead rows]
       else Inl ())) (pl_store l))"

definition read_cron :: "'b project_log \<Rightarrow> id16 \<Rightarrow> job_read_error + cron_record option" where
  "read_cron l cron_id =
     rbind (map_err ReadStore (with_reader ''read cron row'' (\<lambda>db.
              rbind (table_rows CRONS_TABLE (main_tables db)) (\<lambda>t.
              case filter (\<lambda>kr. column_cell CRONS_TABLE kr ''cron_id'' = CBlob (into_bytes cron_id)) t of
                [] \<Rightarrow> Inr None
              | kr # _ \<Rightarrow> rbind (cron_row (select_columns CRONS_TABLE CRON_COLUMNS kr)) (\<lambda>raw. Inr (Some raw))))
              (pl_store l))) (\<lambda>raw.
     rtranspose cron_into_record raw)"

definition list_crons :: "'b project_log \<Rightarrow> job_read_error + cron_record list" where
  "list_crons l =
     rbind (map_err ReadStore (with_reader ''list cron rows'' (\<lambda>db.
              rbind (table_rows CRONS_TABLE (main_tables db)) (\<lambda>t.
              rcollect (\<lambda>kr. cron_row (select_columns CRONS_TABLE CRON_COLUMNS kr)) t)) (pl_store l))) (\<lambda>raws.
     rbind (rcollect cron_into_record raws) (\<lambda>records.
     Inr (sort_key (\<lambda>c. into_bytes (cn_cron_id c)) records)))"

section \<open>The rows the projections maintain\<close>

lemma durable_parse_as_str [simp]: "durable_parse (durable_as_str s) = Some s"
  by (cases s) (simp_all add: durable_parse_def)

lemma durable_as_str_inject [simp]: "durable_as_str s = durable_as_str t \<longleftrightarrow> s = t"
  by (cases s; cases t) simp_all

lemma durable_words [simp]:
  "durable_as_str Queued = JOB_STATE_QUEUED" "durable_as_str Done = JOB_STATE_DONE"
  "durable_as_str Dead = JOB_STATE_DEAD"
  by (simp_all add: JOB_STATE_QUEUED_def JOB_STATE_DONE_def JOB_STATE_DEAD_def)

declare durable_as_str.simps [simp del]

text \<open>
  Every column decodes; a queued job has no terminal sequence number and a terminal one has; a
  dead job carries a typed reason.
\<close>

definition job_good :: "sql_cell list \<Rightarrow> row \<Rightarrow> bool" where
  "job_good k r \<longleftrightarrow>
     list_all id_cell k \<and> length k = 1 \<and> opt_cell id_cell (r ''project_id'') \<and>
     text_cell (r ''job_kind'') \<and> text_cell (r ''idempotency_key'') \<and>
     word_cell durable_as_str (r ''state'') \<and>
     (\<exists>p. r ''priority_rank'' = CInteger (uint (priority_rank p))) \<and>
     word_cell class_as_str (r ''class'') \<and> blob_cell (r ''payload'') \<and> int_cell (r ''enqueued_seq'') \<and>
     int_cell (r ''run_at_ts_ms'') \<and> int_cell (r ''attempt_count'') \<and> int_cell (r ''attempt_count_max'') \<and>
     opt_cell text_cell (r ''last_error_code'') \<and> opt_cell text_cell (r ''last_error_detail'') \<and>
     opt_cell int_cell (r ''terminal_seq'') \<and> opt_cell int_cell (r ''wall_ms'') \<and>
     opt_cell text_cell (r ''dead_reason_code'') \<and> opt_cell text_cell (r ''dead_reason_detail'') \<and>
     opt_cell id_cell (r ''cron_id'') \<and>
     (r ''state'' = CText JOB_STATE_QUEUED \<longleftrightarrow> r ''terminal_seq'' = CNull) \<and>
     (r ''state'' = CText JOB_STATE_DEAD \<longrightarrow>
        (\<exists>reason. r ''dead_reason_code'' = CText (dead_reason_code reason) \<and>
                  r ''dead_reason_detail'' = CText (dead_detail reason)))"

lemma state_words [simp]:
  "JOB_STATE_DONE \<noteq> JOB_STATE_QUEUED" "JOB_STATE_DEAD \<noteq> JOB_STATE_QUEUED"
  "JOB_STATE_DEAD \<noteq> JOB_STATE_DONE" "JOB_STATE_QUEUED \<noteq> JOB_STATE_DONE"
  "JOB_STATE_QUEUED \<noteq> JOB_STATE_DEAD" "JOB_STATE_DONE \<noteq> JOB_STATE_DEAD"
  by (simp_all add: JOB_STATE_QUEUED_def JOB_STATE_DONE_def JOB_STATE_DEAD_def)

lemma state_word_cell [simp]:
  "word_cell durable_as_str (CText JOB_STATE_QUEUED)" "word_cell durable_as_str (CText JOB_STATE_DONE)"
  "word_cell durable_as_str (CText JOB_STATE_DEAD)"
  unfolding durable_words [symmetric] by (rule cell_intros)+

lemma enqueued_row_good:
  "enqueued_row ev b = Insert k vs \<Longrightarrow> job_good (bind_values k) (row_of (value_columns JOBS_TABLE) vs)"
  by (cases b)
     (auto simp: job_good_def JOBS_TABLE_def job_row_values_def bind_values_def
        simp del: priority_rank.simps class_as_str.simps)

lemma enqueued_row_insert: "\<exists>k vs. enqueued_row ev b = Insert k vs"
  by (cases b) auto

lemma jobs_write_keeps: "w \<in> set (jobs_writes ev e) \<Longrightarrow> write_keeps JOBS_TABLE job_good w"
proof (cases e)
  case (JobEnqueued b)
  then show "w \<in> set (jobs_writes ev e) \<Longrightarrow> ?thesis"
    using enqueued_row_insert [of ev b] enqueued_row_good [of ev b] by (auto simp: jobs_writes_def)
next
  case (JobAttemptFailed b)
  then show "w \<in> set (jobs_writes ev e) \<Longrightarrow> ?thesis"
    by (cases b) (auto simp: jobs_writes_def job_good_def)
next
  case (JobCompleted b)
  then show "w \<in> set (jobs_writes ev e) \<Longrightarrow> ?thesis"
    by (cases b) (auto simp: jobs_writes_def job_good_def)
next
  case (JobDead b)
  then show "w \<in> set (jobs_writes ev e) \<Longrightarrow> ?thesis"
    by (cases b) (auto simp: jobs_writes_def job_good_def)
qed (simp_all add: jobs_writes_def)

definition jobs_projection :: "'b domain_codec \<Rightarrow> 'b projection" where
  "jobs_projection dc = \<lparr>pr_table = JOBS_TABLE, pr_apply = apply_jobs dc\<rparr>"

lemma core_keeps:
  assumes "apply_kinds dc tb kinds writes ev = Inr ws" "w \<in> set ws"
    and "\<And>e. w \<in> set (writes ev e) \<Longrightarrow> write_keeps tb g w"
  shows "write_keeps tb g w"
  using apply_kinds_Inr [OF assms(1)] assms(2,3) by auto

interpretation jobs: row_invariant "jobs_projection dc" job_good for dc :: "'b domain_codec"
  by unfold_locales
     (auto simp: jobs_projection_def apply_jobs_def intro: jobs_write_keeps elim!: core_keeps)

section \<open>Maintained rows decode\<close>

lemma rank_priority_rank [simp]: "rank_priority tb (uint (priority_rank p)) = Inr p"
  by (simp add: rank_priority_def)

lemma id_bytes_into [simp]: "id_bytes tb c (into_bytes i) = Inr i"
  by (simp add: id_bytes_def)

lemma get_cells:
  "int_cell c \<Longrightarrow> \<exists>i. get_i64 c = Inr i" "text_cell c \<Longrightarrow> \<exists>s. get_text c = Inr s"
  "blob_cell c \<Longrightarrow> \<exists>b. get_blob c = Inr b"
  "opt_cell int_cell c \<Longrightarrow> \<exists>oi. get_opt get_i64 c = Inr oi"
  "opt_cell text_cell c \<Longrightarrow> \<exists>os. get_opt get_text c = Inr os"
  "opt_cell id_cell c \<Longrightarrow> \<exists>ob. get_opt get_blob c = Inr (map_option into_bytes ob)"
  by (auto simp: cell_preds intro: exI [of _ None] exI [of _ "Some _"])

lemma optional_id_into [simp]: "optional_id tb c (map_option into_bytes ob) = Inr ob"
  by (cases ob) (simp_all add: optional_id_def)

lemma class_parse_as_str [simp]: "class_parse (class_as_str c) = Some c"
  using class_words.parse_as_str [of c] by (simp add: class_parse_def)

lemma overlap_parse_as_str [simp]: "overlap_parse (overlap_as_str c) = Some c"
  using overlap_words.parse_as_str [of c] by (simp add: overlap_parse_def)

lemma jobs_columns [simp]:
  "select_columns JOBS_TABLE JOB_COLUMNS ([c], r) =
     [c, r ''project_id'', r ''job_kind'', r ''idempotency_key'', r ''state'', r ''priority_rank'',
      r ''class'', r ''payload'', r ''enqueued_seq'', r ''run_at_ts_ms'', r ''attempt_count'',
      r ''attempt_count_max'', r ''last_error_code'', r ''last_error_detail'', r ''terminal_seq'', r ''wall_ms'',
      r ''dead_reason_code'', r ''dead_reason_detail'', r ''cron_id'']"
  "column_cell JOBS_TABLE ([c], r) ''job_id'' = c" "column_cell JOBS_TABLE ([c], r) ''state'' = r ''state''"
  by (simp_all add: select_columns_def JOB_COLUMNS_def column_cell_def JOBS_TABLE_def)

text \<open>What a decoded record says about the row it was read from.\<close>

definition job_view :: "row \<Rightarrow> job_record \<Rightarrow> bool" where
  "job_view r j \<longleftrightarrow>
     r ''state'' = CText (durable_as_str (jr_state j)) \<and> r ''job_kind'' = CText (jr_job_kind j) \<and>
     r ''idempotency_key'' = CText (jr_idempotency_key j) \<and> r ''class'' = CText (class_as_str (jr_class j)) \<and>
     r ''payload'' = CBlob (jr_payload j) \<and>
     (\<exists>n. r ''attempt_count'' = CInteger n \<and> jr_attempt_count j = count_u32 n) \<and>
     (\<exists>n. r ''attempt_count_max'' = CInteger n \<and> jr_attempt_count_max j = count_u32 n) \<and>
     (\<exists>n. r ''run_at_ts_ms'' = CInteger n \<and> jr_run_at_ts_ms j = non_negative n) \<and>
     (is_terminal (jr_state j) \<longleftrightarrow> jr_terminal_seq j \<noteq> None) \<and>
     (jr_state j = Dead \<longrightarrow>
        (\<exists>reason. jr_dead_reason_code j = Some (dead_reason_code reason) \<and>
                  jr_dead_reason_detail j = Some (dead_detail reason)))"

lemma get_opt_None: "get_opt f c = Inr v \<Longrightarrow> v = None \<longleftrightarrow> c = CNull"
  by (cases c) (auto simp: rbind_Inr)

lemma job_good_decodes:
  assumes "job_good [CBlob (into_bytes i)] r"
  shows "\<exists>raw j. job_row (select_columns JOBS_TABLE JOB_COLUMNS ([CBlob (into_bytes i)], r)) = Inr raw \<and>
           job_into_record raw = Inr j \<and> jr_job_id j = i \<and> job_view r j"
proof -
  note g = assms [unfolded job_good_def]
  obtain pid where pid: "get_opt get_blob (r ''project_id'') = Inr (map_option into_bytes pid)"
    using g get_cells(6) by meson
  obtain kind key st p cls pl sq ra ac am where
    c1: "r ''job_kind'' = CText kind" "r ''idempotency_key'' = CText key" "r ''state'' = CText (durable_as_str st)"
      "r ''priority_rank'' = CInteger (uint (priority_rank p))" "r ''class'' = CText (class_as_str cls)"
      "r ''payload'' = CBlob pl" "r ''enqueued_seq'' = CInteger sq" "r ''run_at_ts_ms'' = CInteger ra"
      "r ''attempt_count'' = CInteger ac" "r ''attempt_count_max'' = CInteger am"
    using g unfolding int_cell_def text_cell_def word_cell_def blob_cell_def by meson
  obtain le ld ts wm dc dd cid where
    c2: "get_opt get_text (r ''last_error_code'') = Inr le" "get_opt get_text (r ''last_error_detail'') = Inr ld"
      "get_opt get_i64 (r ''terminal_seq'') = Inr ts" "get_opt get_i64 (r ''wall_ms'') = Inr wm"
      "get_opt get_text (r ''dead_reason_code'') = Inr dc" "get_opt get_text (r ''dead_reason_detail'') = Inr dd"
      "get_opt get_blob (r ''cron_id'') = Inr (map_option into_bytes cid)"
    using g get_cells(4,5,6) by meson
  have fin: "is_terminal st \<longleftrightarrow> ts \<noteq> None"
    using g get_opt_None [OF c2(3)] c1(3) by (cases st) auto
  have dead: "st = Dead \<Longrightarrow> \<exists>reason. dc = Some (dead_reason_code reason) \<and> dd = Some (dead_detail reason)"
    using g c1(3) c2(5,6) by auto
  show ?thesis
    unfolding jobs_columns job_view_def using fin dead by (simp add: job_row_def pid c1 c2)
qed

section \<open>Reads of a sound log\<close>

lemma jobs_table_of:
  assumes "log_sound l" "jobs_projection dc \<in> set (pl_registry l)"
  obtains t where "main_tables (db_content (pl_store l)) ''proj_jobs'' = Some t" "table_wf JOBS_TABLE t"
    "rows_good job_good t"
proof -
  have n: "tbl_name (pr_table (jobs_projection dc)) = ''proj_jobs''" "pr_table (jobs_projection dc) = JOBS_TABLE"
    by (simp_all add: jobs_projection_def JOBS_TABLE_def)
  obtain t where t: "log_tables l ''proj_jobs'' = Some t" "table_wf JOBS_TABLE t"
    using sound_tables_wf [OF assms(1)] assms(2) n by (auto simp: tables_wf_def)
  with jobs.sound_rows [OF assms] n have "rows_good job_good t" by simp
  with t that show thesis by (simp add: log_tables_def)
qed

lemma single_blob_key:
  "length k = 1 \<Longrightarrow> column_cell JOBS_TABLE (k, r) ''job_id'' = c \<longleftrightarrow> k = [c]"
  by (cases k) auto

lemma read_job_sound:
  assumes "log_sound l" "jobs_projection dc \<in> set (pl_registry l)" "\<not> fail_stopped (pl_store l)"
    and "main_tables (db_content (pl_store l)) ''proj_jobs'' = Some t"
  shows "case map_of t [CBlob (into_bytes i)] of
           None \<Rightarrow> read_job l i = Inr None
         | Some r \<Rightarrow> \<exists>j. read_job l i = Inr (Some j) \<and> jr_job_id j = i \<and> job_view r j"
proof -
  let ?c = "CBlob (into_bytes i)"
  have wf: "tbl_sorted t" "\<And>k r. (k, r) \<in> set t \<Longrightarrow> length k = 1" and good: "rows_good job_good t"
    using jobs_table_of [OF assms(1,2)] assms(4) by (auto simp: table_wf_def JOBS_TABLE_def)
  have rows: "job_query (\<lambda>kr. column_cell JOBS_TABLE kr ''job_id'' = ?c) (db_content (pl_store l)) =
      Inr (case map_of t [?c] of None \<Rightarrow> [] | Some r \<Rightarrow> [([?c], r)])"
    using filter_single_key [OF wf(1), where P = "\<lambda>kr. column_cell JOBS_TABLE kr ''job_id'' = ?c" and c = ?c]
      single_blob_key wf(2) assms(4)
    by (simp add: job_query_def table_rows_def JOBS_TABLE_def)
  show ?thesis
  proof (cases "map_of t [?c]")
    case None
    then show ?thesis
      using rows assms(3) by (simp add: read_job_def with_reader_live)
  next
    case (Some r)
    then obtain raw j where "job_row (select_columns JOBS_TABLE JOB_COLUMNS ([?c], r)) = Inr raw"
        "job_into_record raw = Inr j" "jr_job_id j = i" "job_view r j"
      using job_good_decodes rows_goodD [OF good] by blast
    with Some rows assms(3) show ?thesis
      by (simp add: read_job_def with_reader_live del: jobs_columns)
  qed
qed

section \<open>Cron rows\<close>

definition cron_good :: "sql_cell list \<Rightarrow> row \<Rightarrow> bool" where
  "cron_good k r \<longleftrightarrow>
     list_all id_cell k \<and> length k = 1 \<and> id_cell (r ''project_id'') \<and> text_cell (r ''job_kind'') \<and>
     text_cell (r ''expr'') \<and> text_cell (r ''tz'') \<and> word_cell overlap_as_str (r ''overlap_policy'') \<and>
     int_cell (r ''enabled'') \<and> (\<exists>p. r ''priority_rank'' = CInteger (uint (priority_rank p))) \<and>
     word_cell class_as_str (r ''class'') \<and> blob_cell (r ''payload'') \<and> int_cell (r ''registered_seq'') \<and>
     int_cell (r ''registered_ts_ms'') \<and> opt_cell int_cell (r ''last_fired_ts_ms'') \<and>
     opt_cell id_cell (r ''last_job_id'')"

lemma crons_write_keeps: "w \<in> set (crons_writes ev e) \<Longrightarrow> write_keeps CRONS_TABLE cron_good w"
proof (cases e)
  case (CronRegistered b)
  then show "w \<in> set (crons_writes ev e) \<Longrightarrow> ?thesis"
    by (cases b) (auto simp: crons_writes_def cron_good_def CRONS_TABLE_def bind_values_def)
next
  case (CronEnablementSet b)
  then show "w \<in> set (crons_writes ev e) \<Longrightarrow> ?thesis"
    by (cases b) (auto simp: crons_writes_def cron_good_def)
next
  case (JobEnqueued b)
  then show "w \<in> set (crons_writes ev e) \<Longrightarrow> ?thesis"
    by (cases b) (auto simp: crons_writes_def cron_good_def split: option.splits)
qed (simp_all add: crons_writes_def)

definition crons_projection :: "'b domain_codec \<Rightarrow> 'b projection" where
  "crons_projection dc = \<lparr>pr_table = CRONS_TABLE, pr_apply = apply_crons dc\<rparr>"

interpretation crons: row_invariant "crons_projection dc" cron_good for dc :: "'b domain_codec"
  by unfold_locales
     (auto simp: crons_projection_def apply_crons_def intro: crons_write_keeps elim!: core_keeps)

lemma crons_columns [simp]:
  "select_columns CRONS_TABLE CRON_COLUMNS ([c], r) =
     [c, r ''project_id'', r ''job_kind'', r ''expr'', r ''tz'', r ''overlap_policy'', r ''enabled'',
      r ''priority_rank'', r ''class'', r ''payload'', r ''registered_seq'', r ''registered_ts_ms'',
      r ''last_fired_ts_ms'', r ''last_job_id'']"
  "column_cell CRONS_TABLE ([c], r) ''cron_id'' = c"
  by (simp_all add: select_columns_def CRON_COLUMNS_def column_cell_def CRONS_TABLE_def)

lemma cron_good_decodes:
  assumes "cron_good [CBlob (into_bytes i)] r"
  shows "\<exists>raw c. cron_row (select_columns CRONS_TABLE CRON_COLUMNS ([CBlob (into_bytes i)], r)) = Inr raw \<and>
           cron_into_record raw = Inr c \<and> cn_cron_id c = i"
proof -
  note g = assms [unfolded cron_good_def]
  obtain pid kind expr tz ov en p cls pl sq ts where
    c1: "r ''project_id'' = CBlob (into_bytes pid)" "r ''job_kind'' = CText kind" "r ''expr'' = CText expr"
      "r ''tz'' = CText tz" "r ''overlap_policy'' = CText (overlap_as_str ov)" "r ''enabled'' = CInteger en"
      "r ''priority_rank'' = CInteger (uint (priority_rank p))" "r ''class'' = CText (class_as_str cls)"
      "r ''payload'' = CBlob pl" "r ''registered_seq'' = CInteger sq" "r ''registered_ts_ms'' = CInteger ts"
    using g unfolding int_cell_def text_cell_def word_cell_def blob_cell_def id_cell_def by meson
  obtain lf lj where
    c2: "get_opt get_i64 (r ''last_fired_ts_ms'') = Inr lf"
      "get_opt get_blob (r ''last_job_id'') = Inr (map_option into_bytes lj)"
    using g get_cells(4,6) by meson
  show ?thesis
    unfolding crons_columns by (simp add: cron_row_def c1 c2)
qed

lemma crons_table_of:
  assumes "log_sound l" "crons_projection dc \<in> set (pl_registry l)"
  obtains t where "main_tables (db_content (pl_store l)) ''proj_crons'' = Some t" "table_wf CRONS_TABLE t"
    "rows_good cron_good t"
proof -
  have n: "tbl_name (pr_table (crons_projection dc)) = ''proj_crons''" "pr_table (crons_projection dc) = CRONS_TABLE"
    by (simp_all add: crons_projection_def CRONS_TABLE_def)
  obtain t where t: "log_tables l ''proj_crons'' = Some t" "table_wf CRONS_TABLE t"
    using sound_tables_wf [OF assms(1)] assms(2) n by (auto simp: tables_wf_def)
  with crons.sound_rows [OF assms] n have "rows_good cron_good t" by simp
  with t that show thesis by (simp add: log_tables_def)
qed

section \<open>Listings\<close>

lemma rcollect_ex:
  "(\<And>x. x \<in> set xs \<Longrightarrow> \<exists>y. f x = Inr y) \<Longrightarrow> \<exists>ys. rcollect f xs = Inr ys"
  by (induction xs) (auto simp: rbind_Inr)

lemma rows_in_table:
  assumes "table_wf tb t" "rows_good g t" "(k, r) \<in> set t"
  shows "g k r"
  using assms tbl_sorted_map_of [of t k r] by (auto simp: table_wf_def rows_good_def)

lemma job_good_key: "job_good k r \<Longrightarrow> \<exists>i. k = [CBlob (into_bytes i)]"
  by (cases k) (auto simp: job_good_def id_cell_def)

lemma cron_good_key: "cron_good k r \<Longrightarrow> \<exists>i. k = [CBlob (into_bytes i)]"
  by (cases k) (auto simp: cron_good_def id_cell_def)

lemma rcollect_compose:
  assumes "\<And>x. x \<in> set xs \<Longrightarrow> \<exists>y z. f x = Inr y \<and> g y = Inr z"
  shows "\<exists>ys zs. rcollect f xs = Inr ys \<and> rcollect g ys = Inr zs \<and> length zs = length xs"
  using assms by (induction xs) (fastforce simp: rbind_Inr)+

lemma list_jobs_sound:
  assumes "log_sound l" "jobs_projection dc \<in> set (pl_registry l)" "\<not> fail_stopped (pl_store l)"
  shows "\<exists>js. list_jobs l f = Inr js \<and> length js \<le> 500"
proof -
  obtain t where t: "main_tables (db_content (pl_store l)) ''proj_jobs'' = Some t" "table_wf JOBS_TABLE t"
    "rows_good job_good t"
    by (rule jobs_table_of [OF assms(1,2)])
  let ?rows = "take (unat (job_list_limit f)) (newest_first (filter (job_filter_matches f) t))"
  have "set ?rows \<subseteq> set t"
    by (auto simp: newest_first_def dest!: in_set_takeD)
  then have dec: "\<exists>raw j. job_row (select_columns JOBS_TABLE JOB_COLUMNS kr) = Inr raw \<and> job_into_record raw = Inr j"
    if mem: "kr \<in> set ?rows" for kr
  proof -
    obtain k r where kr: "kr = (k, r)" "(k, r) \<in> set t"
      using subsetD [OF \<open>set ?rows \<subseteq> set t\<close> mem] by (metis prod.collapse)
    then have "job_good k r"
      using rows_in_table t by blast
    then obtain i where "k = [CBlob (into_bytes i)]"
      using job_good_key by blast
    with job_good_decodes [of i r] \<open>job_good k r\<close> kr show ?thesis by blast
  qed
  obtain raws js where "rcollect (\<lambda>kr. job_row (select_columns JOBS_TABLE JOB_COLUMNS kr)) ?rows = Inr raws"
      "rcollect job_into_record raws = Inr js" "length js = length ?rows"
    using rcollect_compose [of ?rows "\<lambda>kr. job_row (select_columns JOBS_TABLE JOB_COLUMNS kr)"
        job_into_record] dec by blast
  moreover have "length ?rows \<le> 500"
  proof -
    have "unat (job_list_limit f) \<le> unat JOB_LIST_ROW_COUNT_MAX"
      unfolding job_list_limit_def word_le_nat_alt [symmetric] by (rule min.cobounded2)
    then show ?thesis by (simp add: JOB_LIST_ROW_COUNT_MAX_def)
  qed
  ultimately show ?thesis
    using t(1) assms(3)
    by (simp add: list_jobs_def with_reader_live job_query_def table_rows_def JOBS_TABLE_def)
qed

section \<open>What never changes about a job\<close>

definition job_le :: "sql_cell list \<Rightarrow> row \<Rightarrow> row \<Rightarrow> bool" where
  "job_le k r r' \<longleftrightarrow>
     (\<forall>c \<in> {''project_id'', ''job_kind'', ''idempotency_key'', ''priority_rank'', ''class'', ''payload'',
            ''enqueued_seq'', ''attempt_count_max'', ''cron_id''}. r' c = r c) \<and>
     (r ''state'' \<noteq> CText JOB_STATE_QUEUED \<longrightarrow> r' ''state'' \<noteq> CText JOB_STATE_QUEUED)"

lemma jobs_write_progress: "w \<in> set (jobs_writes ev e) \<Longrightarrow> write_progress JOBS_TABLE job_le w"
proof (cases e)
  case (JobEnqueued b)
  then show "w \<in> set (jobs_writes ev e) \<Longrightarrow> ?thesis"
    using enqueued_row_insert [of ev b] by (auto simp: jobs_writes_def)
next
  case (JobAttemptFailed b)
  then show "w \<in> set (jobs_writes ev e) \<Longrightarrow> ?thesis"
    by (cases b) (auto simp: jobs_writes_def job_le_def)
next
  case (JobCompleted b)
  then show "w \<in> set (jobs_writes ev e) \<Longrightarrow> ?thesis"
    by (cases b) (auto simp: jobs_writes_def job_le_def)
next
  case (JobDead b)
  then show "w \<in> set (jobs_writes ev e) \<Longrightarrow> ?thesis"
    by (cases b) (auto simp: jobs_writes_def job_le_def)
qed (simp_all add: jobs_writes_def)

lemma core_progress:
  assumes "apply_kinds dc tb kinds writes ev = Inr ws" "w \<in> set ws"
    and "\<And>e. w \<in> set (writes ev e) \<Longrightarrow> write_progress tb le w"
  shows "write_progress tb le w"
  using apply_kinds_Inr [OF assms(1)] assms(2,3) by auto

interpretation jobs_mono: row_progress "jobs_projection dc" job_le for dc :: "'b domain_codec"
proof
  show "job_le k r r" for k r
    by (simp add: job_le_def)
  show "job_le k r s \<Longrightarrow> job_le k s u \<Longrightarrow> job_le k r u" for k r s u
    by (simp add: job_le_def)
  show "write_progress (pr_table (jobs_projection dc)) job_le w"
    if "pr_apply (jobs_projection dc) ev = Inr ws" "w \<in> set ws" for ev :: "'b event" and ws w
    using that by (auto simp: jobs_projection_def apply_jobs_def intro: jobs_write_progress elim!: core_progress)
qed

end
