(* ===== verification/Cron.thy ===== *)
theory Cron
  imports Prelude Foundation Project_Store
begin

unbundle bit_operations_syntax

text \<open>
  Cron schedules of \<open>crates/pos-sched/src/cron.rs\<close>: the expression parser, the bit sets it produces,
  and the search for the next firing.

  The time-zone library \<open>jiff\<close> is the record \<open>jiff\<close>: zone lookup, an instant as civil time, civil
  arithmetic, and the resolution of a civil time to an instant. What the search relies on of its
  civil arithmetic is the locale \<open>civil_calendar\<close>.
\<close>

section \<open>Constants and errors\<close>

definition CRON_PREVIEW_COUNT_MAX :: u32 where
  "CRON_PREVIEW_COUNT_MAX = 32"

definition CRON_SEARCH_STEP_COUNT_MAX :: nat where
  "CRON_SEARCH_STEP_COUNT_MAX = 4 * 366 + 24 + 60 + 64"

definition CRON_CATCHUP_SCAN_COUNT_MAX :: nat where
  "CRON_CATCHUP_SCAN_COUNT_MAX = 512"

definition CRON_FIELD_COUNT :: nat where
  "CRON_FIELD_COUNT = 5"

text \<open>\<open>CronParseError\<close>: the field, and which of the reasons was formatted.\<close>

datatype cron_reason =
    FieldCount nat | EmptyItem | StepNotNumber | StepZero | SelectsNothing | NotNumber | OutOfRange | UnknownZone

type_synonym cron_parse_error = "string \<times> cron_reason"

section \<open>Text\<close>

text \<open>
  \<open>str::split_whitespace\<close> on UTF-8 bytes: the length of the white-space character a text starts with
  (U+0009..U+000D, U+0020, U+0085, U+00A0, U+1680, U+2000..U+200A, U+2028, U+2029, U+202F, U+205F,
  U+3000).
\<close>

fun white_space_len :: "nat list \<Rightarrow> nat" where
  "white_space_len [] = 0"
| "white_space_len (a # cs) =
     (if 9 \<le> a \<and> a \<le> 13 \<or> a = 32 then 1
      else case cs of
        [] \<Rightarrow> 0
      | b # ds \<Rightarrow>
          if a = 194 \<and> (b = 133 \<or> b = 160) then 2
          else case ds of
            [] \<Rightarrow> 0
          | c # _ \<Rightarrow>
              if a = 225 \<and> b = 154 \<and> c = 128 \<or>
                 a = 226 \<and> b = 128 \<and> (128 \<le> c \<and> c \<le> 138 \<or> c = 168 \<or> c = 169 \<or> c = 175) \<or>
                 a = 226 \<and> b = 129 \<and> c = 159 \<or> a = 227 \<and> b = 128 \<and> c = 128
              then 3 else 0)"

definition ws_len :: "string \<Rightarrow> nat" where
  "ws_len s = white_space_len (map of_char (take 3 s))"

text \<open>The word being read, and the words that remain; empty words are dropped.\<close>

function split_words :: "string \<Rightarrow> string \<Rightarrow> string list" where
  "split_words word [] = (if word = [] then [] else [word])"
| "split_words word (c # cs) =
     (if ws_len (c # cs) = 0 then split_words (word @ [c]) cs
      else (if word = [] then [] else [word]) @ split_words [] (drop (ws_len (c # cs)) (c # cs)))"
  by pat_completeness auto
termination
  by (relation "measure (\<lambda>(_, s). length s)") auto

definition split_whitespace :: "string \<Rightarrow> string list" where
  "split_whitespace = split_words []"

text \<open>\<open>str::split\<close> on one character: always at least one part.\<close>

fun split_char :: "char \<Rightarrow> string \<Rightarrow> string list" where
  "split_char d [] = [[]]"
| "split_char d (c # cs) =
     (if c = d then [] # split_char d cs
      else case split_char d cs of [] \<Rightarrow> [[c]] | w # ws \<Rightarrow> (c # w) # ws)"

text \<open>\<open>str::parse::<u8>\<close>: an optional plus sign, then digits, at most 255.\<close>

definition parse_u8 :: "string \<Rightarrow> nat option" where
  "parse_u8 s =
     (let digits = (case s of c # cs \<Rightarrow> if c = CHR ''+'' then cs else s | [] \<Rightarrow> [])
      in if digits \<noteq> [] \<and> list_all is_dec_digit digits \<and> dec_value digits \<le> 255
         then Some (dec_value digits) else None)"

section \<open>Fields\<close>

definition parse_range :: "string \<Rightarrow> string \<Rightarrow> nat \<Rightarrow> nat \<Rightarrow> cron_parse_error + nat \<times> nat" where
  "parse_range text field lo hi =
     (if text = ''*'' then Inr (lo, hi)
      else let (first_text, last_text) =
                 (case split_once (CHR ''-'') text of Some p \<Rightarrow> p | None \<Rightarrow> (text, text))
           in rbind (ok_or (field, NotNumber) (parse_u8 first_text)) (\<lambda>first.
              rbind (ok_or (field, NotNumber) (parse_u8 last_text)) (\<lambda>last.
              if first < lo \<or> last > hi \<or> first > last then Inl (field, OutOfRange)
              else Inr (first, last))))"

text \<open>
  The marking loop. The \<open>u8\<close> counter saturates at 255, so the loop ends only because the last value
  of a field is below 255; 256 rounds are more than it can take.
\<close>

fun mark_steps :: "nat \<Rightarrow> nat \<Rightarrow> nat \<Rightarrow> nat \<Rightarrow> u64 \<Rightarrow> u64" where
  "mark_steps 0 v final step bits = bits"
| "mark_steps (Suc fuel) v final step bits =
     (if v \<le> final then mark_steps fuel (min 255 (v + step)) final step (bits OR push_bit v 1) else bits)"

definition MARK_ROUNDS :: nat where
  "MARK_ROUNDS = 256"

text \<open>One item of a list: its first and last value and its step.\<close>

definition item_range :: "string \<Rightarrow> nat \<Rightarrow> nat \<Rightarrow> string \<Rightarrow> cron_parse_error + nat \<times> nat \<times> nat" where
  "item_range field lo hi part =
     (if part = [] then Inl (field, EmptyItem)
      else rbind (case split_once (CHR ''/'') part of
                    Some (range_text, step_text) \<Rightarrow>
                      rbind (ok_or (field, StepNotNumber) (parse_u8 step_text)) (\<lambda>step.
                      if step = 0 then Inl (field, StepZero) else Inr (range_text, step))
                  | None \<Rightarrow> Inr (part, 1)) (\<lambda>(range_text, step).
           rbind (parse_range range_text field lo hi) (\<lambda>(first, final).
           Inr (first, final, step))))"

definition parse_item :: "string \<Rightarrow> nat \<Rightarrow> nat \<Rightarrow> string \<Rightarrow> u64 \<Rightarrow> cron_parse_error + u64" where
  "parse_item field lo hi part bits =
     rbind (item_range field lo hi part) (\<lambda>(first, final, step).
     Inr (mark_steps MARK_ROUNDS first final step bits))"

definition parse_field :: "string \<Rightarrow> string \<Rightarrow> nat \<Rightarrow> nat \<Rightarrow> cron_parse_error + u64" where
  "parse_field text field lo hi =
     rbind (rfold (parse_item field lo hi) (split_char (CHR '','') text) 0) (\<lambda>bits.
     if bits = 0 then Inl (field, SelectsNothing) else Inr bits)"

definition parse_day_of_week :: "string \<Rightarrow> cron_parse_error + u64" where
  "parse_day_of_week text =
     rbind (parse_field text ''day-of-week'' 0 7) (\<lambda>bits.
     let sunday_from_seven = drop_bit 7 bits AND 1
     in Inr (((bits AND 0x7f) OR sunday_from_seven) AND 0x7f))"

section \<open>Expressions\<close>

record cron_expr =
  ce_minutes :: u64
  ce_hours :: u32
  ce_days_of_month :: u32
  ce_months :: u16
  ce_days_of_week :: u8
  ce_day_of_month_restricted :: bool
  ce_day_of_week_restricted :: bool

definition mask_u32 :: "u64 \<Rightarrow> u32" where
  "mask_u32 bits = (case try_u32 (uint (bits AND 0xffffffff)) of Some m \<Rightarrow> m | None \<Rightarrow> 0)"

definition mask_u16 :: "u64 \<Rightarrow> u16" where
  "mask_u16 bits = (case try_u16 (uint (bits AND 0xffff)) of Some m \<Rightarrow> m | None \<Rightarrow> 0)"

definition mask_u8 :: "u64 \<Rightarrow> u8" where
  "mask_u8 bits = (case try_u8 (uint (bits AND 0xff)) of Some m \<Rightarrow> m | None \<Rightarrow> 0)"

definition cron_parse :: "string \<Rightarrow> cron_parse_error + cron_expr" where
  "cron_parse text =
     (let fields = split_whitespace text
      in if length fields \<noteq> CRON_FIELD_COUNT then Inl (''expression'', FieldCount (length fields))
         else rbind (parse_field (fields ! 0) ''minute'' 0 59) (\<lambda>minutes.
              rbind (parse_field (fields ! 1) ''hour'' 0 23) (\<lambda>hours.
              rbind (parse_field (fields ! 2) ''day-of-month'' 1 31) (\<lambda>days_of_month.
              rbind (parse_field (fields ! 3) ''month'' 1 12) (\<lambda>months.
              rbind (parse_day_of_week (fields ! 4)) (\<lambda>days_of_week.
              Inr \<lparr>ce_minutes = minutes, ce_hours = mask_u32 hours, ce_days_of_month = mask_u32 days_of_month,
                   ce_months = mask_u16 months, ce_days_of_week = mask_u8 days_of_week,
                   ce_day_of_month_restricted = (fields ! 2 \<noteq> ''*''),
                   ce_day_of_week_restricted = (fields ! 4 \<noteq> ''*'')\<rparr>))))))"

text \<open>\<open>bit_set\<close>: the value is an \<open>i8\<close>.\<close>

definition bit_set :: "u64 \<Rightarrow> int \<Rightarrow> bool" where
  "bit_set bits v \<longleftrightarrow> 0 \<le> v \<and> v < 64 \<and> drop_bit (nat v) bits AND 1 = 1"

text \<open>\<open>jiff::civil::DateTime\<close>, with the fields the search reads.\<close>

record civil_date =
  da_year :: int
  da_month :: int
  da_day :: int

record civil =
  cv_date :: civil_date
  cv_hour :: int
  cv_minute :: int
  cv_second :: int
  cv_nanosecond :: int

definition matches_minute :: "cron_expr \<Rightarrow> int \<Rightarrow> bool" where
  "matches_minute e minute = bit_set (ce_minutes e) minute"

definition matches_hour :: "cron_expr \<Rightarrow> int \<Rightarrow> bool" where
  "matches_hour e hour = bit_set (ucast (ce_hours e)) hour"

definition matches_date :: "(civil_date \<Rightarrow> int) \<Rightarrow> cron_expr \<Rightarrow> civil_date \<Rightarrow> bool" where
  "matches_date weekday e date =
     (if \<not> bit_set (ucast (ce_months e)) (da_month date) then False
      else let day_of_month = bit_set (ucast (ce_days_of_month e)) (da_day date);
               day_of_week = bit_set (ucast (ce_days_of_week e)) (weekday date)
           in if ce_day_of_month_restricted e \<and> ce_day_of_week_restricted e
              then day_of_month \<or> day_of_week else day_of_month \<and> day_of_week)"

section \<open>Schedules\<close>

record 'z jiff =
  jz_get_zone :: "string \<Rightarrow> 'z option"
  jz_civil_of :: "'z \<Rightarrow> int \<Rightarrow> civil option"
  jz_weekday :: "civil_date \<Rightarrow> int"
  jz_valid :: "civil \<Rightarrow> bool"
  jz_add_minute :: "civil \<Rightarrow> civil option"
  jz_add_day :: "civil_date \<Rightarrow> civil_date option"
  jz_resolve :: "'z \<Rightarrow> civil \<Rightarrow> int option"

text \<open>
  The fields are \<open>TimeZone::get\<close>; \<open>Timestamp::from_millisecond\<close> followed by \<open>to_zoned\<close> and
  \<open>datetime\<close>; \<open>weekday\<close> counted from Sunday; whether \<open>DateTime::new\<close> accepts the fields;
  \<open>DateTime::checked_add\<close> of a minute and \<open>Date::checked_add\<close> of a day; and
  \<open>to_ambiguous_zoned(..).compatible()\<close> as milliseconds. \<open>jiff_ok\<close> is what the search relies on:
  adding a minute to a whole minute moves the clock by one minute, into the next day at midnight,
  and every time of day of a valid date is valid.
\<close>

definition at_time :: "civil_date \<Rightarrow> int \<Rightarrow> int \<Rightarrow> civil" where
  "at_time date hour minute =
     \<lparr>cv_date = date, cv_hour = hour, cv_minute = minute, cv_second = 0, cv_nanosecond = 0\<rparr>"

definition jiff_ok :: "'z jiff \<Rightarrow> bool" where
  "jiff_ok jz \<longleftrightarrow>
     (\<forall>tz ts c. jz_civil_of jz tz ts = Some c \<longrightarrow>
        jz_valid jz c \<and> 0 \<le> cv_hour c \<and> cv_hour c \<le> 23 \<and> 0 \<le> cv_minute c \<and> cv_minute c \<le> 59) \<and>
     (\<forall>c h m. jz_valid jz c \<and> 0 \<le> h \<and> h \<le> 23 \<and> 0 \<le> m \<and> m \<le> 59 \<longrightarrow> jz_valid jz (at_time (cv_date c) h m)) \<and>
     (\<forall>c d. jz_valid jz c \<and> jz_add_day jz (cv_date c) = Some d \<longrightarrow> jz_valid jz (at_time d 0 0)) \<and>
     (\<forall>date h m. jz_valid jz (at_time date h m) \<and> 0 \<le> h \<and> h \<le> 23 \<and> 0 \<le> m \<and> m \<le> 59 \<longrightarrow>
        jz_add_minute jz (at_time date h m) =
          (if m < 59 then Some (at_time date h (m + 1))
           else if h < 23 then Some (at_time date (h + 1) 0)
           else map_option (\<lambda>d. at_time d 0 0) (jz_add_day jz date)))"

record 'z cron_schedule =
  sc_expr :: cron_expr
  sc_tz :: 'z
  sc_tz_name :: string

definition cron_schedule_new :: "'z jiff \<Rightarrow> string \<Rightarrow> string \<Rightarrow> cron_parse_error + 'z cron_schedule" where
  "cron_schedule_new jz expr tz_name =
     rbind (cron_parse expr) (\<lambda>parsed.
     rbind (ok_or (''timezone'', UnknownZone) (jz_get_zone jz tz_name)) (\<lambda>tz.
     Inr \<lparr>sc_expr = parsed, sc_tz = tz, sc_tz_name = tz_name\<rparr>))"

definition datetime_new :: "'z jiff \<Rightarrow> civil \<Rightarrow> civil option" where
  "datetime_new jz c = (if jz_valid jz c then Some c else None)"

definition start_of_minute :: "'z jiff \<Rightarrow> civil \<Rightarrow> civil option" where
  "start_of_minute jz c = datetime_new jz (at_time (cv_date c) (cv_hour c) (cv_minute c))"

definition start_of_next_day :: "'z jiff \<Rightarrow> civil \<Rightarrow> civil option" where
  "start_of_next_day jz c = map_option (\<lambda>d. at_time d 0 0) (jz_add_day jz (cv_date c))"

definition start_of_next_hour :: "'z jiff \<Rightarrow> civil \<Rightarrow> civil option" where
  "start_of_next_hour jz c =
     (if cv_hour c \<ge> 23 then start_of_next_day jz c
      else datetime_new jz (at_time (cv_date c) (cv_hour c + 1) 0))"

text \<open>The body of the search: the instant a candidate fires at, if it fires after the given one.\<close>

definition fires :: "'z jiff \<Rightarrow> 'z cron_schedule \<Rightarrow> int \<Rightarrow> civil \<Rightarrow> int option" where
  "fires jz s after_ts_ms c =
     (case jz_resolve jz (sc_tz s) c of
        None \<Rightarrow> None
      | Some fire_ts_ms \<Rightarrow> if fire_ts_ms > after_ts_ms then Some fire_ts_ms else None)"

fun search_fire :: "'z jiff \<Rightarrow> 'z cron_schedule \<Rightarrow> int \<Rightarrow> nat \<Rightarrow> civil \<Rightarrow> int option" where
  "search_fire jz s after 0 candidate = None"
| "search_fire jz s after (Suc n) candidate =
     (if \<not> matches_date (jz_weekday jz) (sc_expr s) (cv_date candidate)
      then Option.bind (start_of_next_day jz candidate) (search_fire jz s after n)
      else if \<not> matches_hour (sc_expr s) (cv_hour candidate)
      then Option.bind (start_of_next_hour jz candidate) (search_fire jz s after n)
      else if \<not> matches_minute (sc_expr s) (cv_minute candidate)
      then Option.bind (jz_add_minute jz candidate) (search_fire jz s after n)
      else case fires jz s after candidate of
             Some fire_ts_ms \<Rightarrow> Some fire_ts_ms
           | None \<Rightarrow> Option.bind (jz_add_minute jz candidate) (search_fire jz s after n))"

definition next_fire_after :: "'z jiff \<Rightarrow> 'z cron_schedule \<Rightarrow> int \<Rightarrow> int option" where
  "next_fire_after jz s after_ts_ms =
     Option.bind (jz_civil_of jz (sc_tz s) after_ts_ms) (\<lambda>c.
     Option.bind (start_of_minute jz c) (\<lambda>c1.
     Option.bind (jz_add_minute jz c1) (\<lambda>candidate.
     search_fire jz s after_ts_ms CRON_SEARCH_STEP_COUNT_MAX candidate)))"

fun preview_runs :: "'z jiff \<Rightarrow> 'z cron_schedule \<Rightarrow> nat \<Rightarrow> int \<Rightarrow> int list" where
  "preview_runs jz s 0 cursor = []"
| "preview_runs jz s (Suc n) cursor =
     (case next_fire_after jz s cursor of
        None \<Rightarrow> []
      | Some next \<Rightarrow> next # preview_runs jz s n next)"

definition preview :: "'z jiff \<Rightarrow> 'z cron_schedule \<Rightarrow> int \<Rightarrow> u32 \<Rightarrow> int list" where
  "preview jz s after_ts_ms count = preview_runs jz s (unat (min count CRON_PREVIEW_COUNT_MAX)) after_ts_ms"

record due_firing_rec =
  df_scheduled_ts_ms :: u64
  df_missed_count :: u32

fun due_scan :: "'z jiff \<Rightarrow> 'z cron_schedule \<Rightarrow> i64 \<Rightarrow> nat \<Rightarrow> i64 \<times> i64 option \<times> u32 \<Rightarrow> i64 option \<times> u32" where
  "due_scan jz s now 0 (cursor, latest, count) = (latest, count)"
| "due_scan jz s now (Suc n) (cursor, latest, count) =
     (case next_fire_after jz s cursor of
        None \<Rightarrow> (latest, count)
      | Some next \<Rightarrow>
          if next > now then (latest, count)
          else due_scan jz s now n (next, Some next, count + 1))"

definition due_firing :: "'z jiff \<Rightarrow> 'z cron_schedule \<Rightarrow> u64 \<Rightarrow> u64 \<Rightarrow> due_firing_rec option" where
  "due_firing jz s watermark_ts_ms now_ms =
     (case due_scan jz s (sat_i64 now_ms) CRON_CATCHUP_SCAN_COUNT_MAX (sat_i64 watermark_ts_ms, None, 0) of
        (latest, count) \<Rightarrow>
          map_option (\<lambda>scheduled.
            \<lparr>df_scheduled_ts_ms = (case try_u64 scheduled of Some t \<Rightarrow> t | None \<Rightarrow> 0),
             df_missed_count = saturating_sub count 1\<rparr>) latest)"

end
