(* ===== verification/Job.thy ===== *)
theory Job
  imports Job_State Cron
begin

text \<open>
  Job vocabulary of \<open>crates/pos-sched/src/job.rs\<close>: validated kind and worker names, the enqueue
  specification with its bounds, the derived job id, the claim handed to a handler and the live
  state a reader sees. BLAKE3 is a parameter: the digest of the hashed bytes.
\<close>

section \<open>Bounds and names\<close>

definition JOB_KIND_LEN_MAX :: nat where
  "JOB_KIND_LEN_MAX = 64"

definition JOB_IDEMPOTENCY_KEY_LEN_MAX :: nat where
  "JOB_IDEMPOTENCY_KEY_LEN_MAX = 128"

definition JOB_PAYLOAD_LEN_MAX :: nat where
  "JOB_PAYLOAD_LEN_MAX = 16 * 1024"

definition JOB_RETRY_COUNT_MAX :: u32 where
  "JOB_RETRY_COUNT_MAX = 16"

definition WORKER_NAME_LEN_MAX :: nat where
  "WORKER_NAME_LEN_MAX = 64"

text \<open>
  \<open>SchedError\<close>; \<open>InvalidSpec\<close> keeps the field.
\<close>

datatype sched_error =
    SchedStore store_error
  | SchedLog log_error
  | SchedRead job_read_error
  | InvalidSpec string
  | InvalidSchedule cron_parse_error
  | UnknownJob string

definition valid_job_kind :: "string \<Rightarrow> bool" where
  "valid_job_kind name \<longleftrightarrow> valid_id_text JOB_KIND_LEN_MAX name"

definition job_kind_new :: "string \<Rightarrow> string + string" where
  "job_kind_new name = (if valid_job_kind name then Inr name else Inl name)"

definition worker_name_new :: "string \<Rightarrow> sched_error + string" where
  "worker_name_new name =
     (if name = [] \<or> length name > WORKER_NAME_LEN_MAX then Inl (InvalidSpec ''worker'') else Inr name)"

section \<open>Specifications\<close>

record job_spec =
  js_kind :: string
  js_idempotency_key :: string
  js_priority :: job_priority
  js_class :: job_class
  js_payload :: bytes
  js_run_at_ts_ms :: u64
  js_retry_count_max :: u32
  js_cron :: "job_cron_origin option"

definition job_spec_new :: "string \<Rightarrow> string \<Rightarrow> job_spec" where
  "job_spec_new kind idempotency_key =
     \<lparr>js_kind = kind, js_idempotency_key = idempotency_key, js_priority = Normal,
      js_class = Maintenance, js_payload = [], js_run_at_ts_ms = 0, js_retry_count_max = 3,
      js_cron = None\<rparr>"

definition job_spec_validate :: "job_spec \<Rightarrow> sched_error + unit" where
  "job_spec_validate spec =
     (if js_idempotency_key spec = [] \<or> length (js_idempotency_key spec) > JOB_IDEMPOTENCY_KEY_LEN_MAX
      then Inl (InvalidSpec ''idempotency_key'')
      else if length (js_payload spec) > JOB_PAYLOAD_LEN_MAX then Inl (InvalidSpec ''payload'')
      else if js_retry_count_max spec > JOB_RETRY_COUNT_MAX then Inl (InvalidSpec ''retry_count_max'')
      else Inr ())"

section \<open>The derived id\<close>

definition JOB_ID_DOMAIN :: bytes where
  "JOB_ID_DOMAIN = string_bytes ''projectos/job-id/v1''"

text \<open>\<open>u32::try_from(len).unwrap_or(u32::MAX).to_be_bytes()\<close>.\<close>

definition len_prefix :: "string \<Rightarrow> bytes" where
  "len_prefix s = u32_be_bytes (if length s < 2 ^ 32 then word_of_nat (length s) else - 1)"

definition job_id_preimage :: "id16 \<Rightarrow> string \<Rightarrow> string \<Rightarrow> bytes" where
  "job_id_preimage project_id kind key =
     JOB_ID_DOMAIN @ into_bytes project_id @ len_prefix kind @ string_bytes kind @
     len_prefix key @ string_bytes key"

definition derive_job_id :: "(bytes \<Rightarrow> digest32) \<Rightarrow> id16 \<Rightarrow> string \<Rightarrow> string \<Rightarrow> id16" where
  "derive_job_id hash project_id kind key =
     from_bytes (take 16 (digest_bytes (hash (job_id_preimage project_id kind key))))"

section \<open>Claims, failures and live states\<close>

record claimed_job =
  cj_job_id :: id16
  cj_project_id :: id16
  cj_kind :: string
  cj_payload :: bytes
  cj_attempt_index :: u32
  cj_retry_count_max :: u32
  cj_enqueued_seq :: event_seq
  cj_worker :: string
  cj_claimed_ts_ms :: u64
  cj_claim_latency_ms :: u64

record job_failure =
  jx_code :: string
  jx_detail :: string
  jx_permanent :: bool

definition retriable :: "string \<Rightarrow> string \<Rightarrow> job_failure" where
  "retriable code detail = \<lparr>jx_code = code, jx_detail = detail, jx_permanent = False\<rparr>"

definition permanent_failure :: "string \<Rightarrow> string \<Rightarrow> job_failure" where
  "permanent_failure code detail = \<lparr>jx_code = code, jx_detail = detail, jx_permanent = True\<rparr>"

datatype job_live_state = LiveQueued | LiveRunning | LiveFailed | LiveDone | LiveDead

fun live_as_str :: "job_live_state \<Rightarrow> string" where
  "live_as_str LiveQueued = ''queued''"
| "live_as_str LiveRunning = ''running''"
| "live_as_str LiveFailed = ''failed''"
| "live_as_str LiveDone = ''done''"
| "live_as_str LiveDead = ''dead''"

section \<open>The preimage determines the job\<close>

lemma string_bytes_inject [simp]: "string_bytes s = string_bytes t \<longleftrightarrow> s = t"
proof -
  have "inj (\<lambda>c. word_of_nat (of_char c) :: 8 word)"
  proof (rule injI)
    fix c d :: char
    assume eq: "word_of_nat (of_char c) = (word_of_nat (of_char d) :: 8 word)"
    have lt: "of_char x < (256 :: nat)" for x :: char
      using of_char_mod_256 [of x, where 'a = nat] by (metis mod_less_divisor zero_less_numeral)
    have "unat (word_of_nat (of_char c) :: 8 word) = unat (word_of_nat (of_char d) :: 8 word)"
      using eq by simp
    then have "of_char c = (of_char d :: nat)"
      using lt [of c] lt [of d] by (simp add: unat_of_nat)
    then show "c = d" by simp
  qed
  then show ?thesis
    by (simp add: string_bytes_def inj_map_eq_map)
qed

lemma length_string_bytes [simp]: "length (string_bytes s) = length s"
  by (simp add: string_bytes_def)

lemma length_len_prefix [simp]: "length (len_prefix s) = 4"
  by (simp add: len_prefix_def u32_be_bytes_def)

lemma u32_be_bytes_inject: "u32_be_bytes a = u32_be_bytes b \<longleftrightarrow> a = b"
proof
  assume "u32_be_bytes a = u32_be_bytes b"
  then have "nat_of_be_bytes (u32_be_bytes a) = nat_of_be_bytes (u32_be_bytes b)" by simp
  then show "a = b"
    using unat_lt2p_num [of a] unat_lt2p_num [of b]
    by (simp add: u32_be_bytes_def nat_of_be_bytes_nat_be_bytes word_unat_eq_iff)
qed simp

lemma len_prefix_inject:
  assumes "length s < 2 ^ 32" "length t < 2 ^ 32" "len_prefix s = len_prefix t"
  shows "length s = length t"
proof -
  have "word_of_nat (length s) = (word_of_nat (length t) :: u32)"
    using assms by (simp add: len_prefix_def u32_be_bytes_inject)
  then have "unat (word_of_nat (length s) :: u32) = unat (word_of_nat (length t) :: u32)" by simp
  then show ?thesis
    using assms(1,2) by (simp add: unat_of_nat)
qed

lemma job_id_preimage_inject:
  assumes "length k < 2 ^ 32" "length k' < 2 ^ 32" "length s < 2 ^ 32" "length s' < 2 ^ 32"
    and "job_id_preimage p k s = job_id_preimage p' k' s'"
  shows "p = p' \<and> k = k' \<and> s = s'"
proof -
  have eq: "into_bytes p = into_bytes p'" "len_prefix k = len_prefix k'"
    "string_bytes k @ len_prefix s @ string_bytes s = string_bytes k' @ len_prefix s' @ string_bytes s'"
    using assms(5) by (auto simp: job_id_preimage_def)
  have "length k = length k'"
    using len_prefix_inject [OF assms(1,2) eq(2)] .
  then have "string_bytes k = string_bytes k'" "string_bytes s = string_bytes s'"
    using eq(3) by (auto simp: append_eq_append_conv)
  with eq(1) show ?thesis by simp
qed

end
