(* ===== verification/Metrics.thy ===== *)
theory Metrics
  imports Prelude
begin

text \<open>
  The scheduler's counters and histograms, \<open>crates/pos-sched/src/metrics.rs\<close>. Counters are the
  wrapping 64-bit atomics of the source, updated one after the other; the lock of the per-kind map
  is taken to be unpoisoned, and the floating-point quantile of a snapshot is not modelled.
\<close>

definition METRIC_KIND_COUNT_MAX :: nat where
  "METRIC_KIND_COUNT_MAX = 64"

definition BUCKET_BOUNDS_MS :: "u64 list" where
  "BUCKET_BOUNDS_MS =
     [1, 2, 5, 10, 25, 50, 100, 250, 500, 1000, 2500, 5000, 10000, 30000, 60000]"

record histogram =
  h_buckets :: "u64 list"
  h_sum_ms :: u64
  h_count :: u64

definition histogram_default :: histogram where
  "histogram_default = \<lparr>h_buckets = replicate (length BUCKET_BOUNDS_MS + 1) 0, h_sum_ms = 0, h_count = 0\<rparr>"

text \<open>\<open>iter().position(|bound| value <= bound).unwrap_or(len)\<close>: the length of the prefix of smaller bounds.\<close>

definition bucket_index :: "u64 \<Rightarrow> nat" where
  "bucket_index value_ms = length (takeWhile (\<lambda>bound. bound < value_ms) BUCKET_BOUNDS_MS)"

definition observe :: "u64 \<Rightarrow> histogram \<Rightarrow> histogram" where
  "observe value_ms h =
     (let i = bucket_index value_ms
      in \<lparr>h_buckets = (h_buckets h)[i := h_buckets h ! i + 1], h_sum_ms = h_sum_ms h + value_ms,
          h_count = h_count h + 1\<rparr>)"

record scheduler_metrics =
  m_enqueued_total :: u64
  m_duplicate_enqueue_total :: u64
  m_claimed_total :: u64
  m_completed_total :: u64
  m_attempt_failed_total :: u64
  m_dead_total :: u64
  m_lease_reaped_total :: u64
  m_cron_fired_total :: u64
  m_cron_skipped_overlap_total :: u64
  m_cron_missed_tick_total :: u64
  m_kind_overflow_count :: u64
  m_queue_error_total :: u64
  m_claim_latency :: histogram
  m_run_duration_by_kind :: "(string \<times> histogram) list"
  m_run_duration_other :: histogram

definition metrics_default :: scheduler_metrics where
  "metrics_default =
     \<lparr>m_enqueued_total = 0, m_duplicate_enqueue_total = 0, m_claimed_total = 0, m_completed_total = 0,
      m_attempt_failed_total = 0, m_dead_total = 0, m_lease_reaped_total = 0, m_cron_fired_total = 0,
      m_cron_skipped_overlap_total = 0, m_cron_missed_tick_total = 0, m_kind_overflow_count = 0,
      m_queue_error_total = 0, m_claim_latency = histogram_default, m_run_duration_by_kind = [],
      m_run_duration_other = histogram_default\<rparr>"

definition record_enqueued :: "scheduler_metrics \<Rightarrow> scheduler_metrics" where
  "record_enqueued m = m\<lparr>m_enqueued_total := m_enqueued_total m + 1\<rparr>"

definition record_duplicate_enqueue :: "scheduler_metrics \<Rightarrow> scheduler_metrics" where
  "record_duplicate_enqueue m = m\<lparr>m_duplicate_enqueue_total := m_duplicate_enqueue_total m + 1\<rparr>"

definition record_claim :: "u64 \<Rightarrow> scheduler_metrics \<Rightarrow> scheduler_metrics" where
  "record_claim latency_ms m =
     m\<lparr>m_claimed_total := m_claimed_total m + 1, m_claim_latency := observe latency_ms (m_claim_latency m)\<rparr>"

definition observe_run :: "string \<Rightarrow> u64 \<Rightarrow> scheduler_metrics \<Rightarrow> scheduler_metrics" where
  "observe_run kind wall_ms m =
     (let kinds = m_run_duration_by_kind m
      in case map_of kinds kind of
           Some h \<Rightarrow> m\<lparr>m_run_duration_by_kind :=
               map (\<lambda>(k, h). (k, if k = kind then observe wall_ms h else h)) kinds\<rparr>
         | None \<Rightarrow>
             if length kinds \<ge> METRIC_KIND_COUNT_MAX
             then m\<lparr>m_kind_overflow_count := m_kind_overflow_count m + 1,
                    m_run_duration_other := observe wall_ms (m_run_duration_other m)\<rparr>
             else m\<lparr>m_run_duration_by_kind := (kind, observe wall_ms histogram_default) # kinds\<rparr>)"

definition record_completed :: "string \<Rightarrow> u64 \<Rightarrow> scheduler_metrics \<Rightarrow> scheduler_metrics" where
  "record_completed kind wall_ms m =
     observe_run kind wall_ms (m\<lparr>m_completed_total := m_completed_total m + 1\<rparr>)"

definition record_attempt_failed :: "string \<Rightarrow> u64 \<Rightarrow> scheduler_metrics \<Rightarrow> scheduler_metrics" where
  "record_attempt_failed kind wall_ms m =
     observe_run kind wall_ms (m\<lparr>m_attempt_failed_total := m_attempt_failed_total m + 1\<rparr>)"

definition record_dead :: "scheduler_metrics \<Rightarrow> scheduler_metrics" where
  "record_dead m = m\<lparr>m_dead_total := m_dead_total m + 1\<rparr>"

definition record_queue_error :: "scheduler_metrics \<Rightarrow> scheduler_metrics" where
  "record_queue_error m = m\<lparr>m_queue_error_total := m_queue_error_total m + 1\<rparr>"

definition record_lease_reaped :: "u64 \<Rightarrow> scheduler_metrics \<Rightarrow> scheduler_metrics" where
  "record_lease_reaped count m = m\<lparr>m_lease_reaped_total := m_lease_reaped_total m + count\<rparr>"

definition record_cron_tick :: "u64 \<Rightarrow> u64 \<Rightarrow> u64 \<Rightarrow> scheduler_metrics \<Rightarrow> scheduler_metrics" where
  "record_cron_tick fired skipped_overlap missed m =
     m\<lparr>m_cron_fired_total := m_cron_fired_total m + fired,
       m_cron_skipped_overlap_total := m_cron_skipped_overlap_total m + skipped_overlap,
       m_cron_missed_tick_total := m_cron_missed_tick_total m + missed\<rparr>"

record queue_depth =
  qd_queued :: u64
  qd_done :: u64
  qd_dead :: u64

definition depth_from_counts :: "u64 list \<Rightarrow> queue_depth" where
  "depth_from_counts counts = \<lparr>qd_queued = counts ! 0, qd_done = counts ! 1, qd_dead = counts ! 2\<rparr>"

section \<open>Lemmas\<close>

definition histogram_ok :: "histogram \<Rightarrow> bool" where
  "histogram_ok h \<longleftrightarrow> length (h_buckets h) = length BUCKET_BOUNDS_MS + 1 \<and> sum_list (h_buckets h) = h_count h"

lemma bucket_index_le: "bucket_index v \<le> length BUCKET_BOUNDS_MS"
  unfolding bucket_index_def by (rule length_takeWhile_le)

lemma sum_list_bump: "i < length xs \<Longrightarrow> sum_list (xs[i := xs ! i + (1 :: u64)]) = sum_list xs + 1"
  by (induction xs arbitrary: i) (auto split: nat.split)

lemma histogram_ok_default [simp]: "histogram_ok histogram_default"
  by (simp add: histogram_ok_def histogram_default_def BUCKET_BOUNDS_MS_def)

lemma histogram_ok_observe: "histogram_ok h \<Longrightarrow> histogram_ok (observe v h)"
  using bucket_index_le [of v] by (auto simp: histogram_ok_def observe_def Let_def sum_list_bump)

definition metrics_ok :: "scheduler_metrics \<Rightarrow> bool" where
  "metrics_ok m \<longleftrightarrow> length (m_run_duration_by_kind m) \<le> METRIC_KIND_COUNT_MAX \<and>
     distinct (map fst (m_run_duration_by_kind m)) \<and> histogram_ok (m_claim_latency m) \<and>
     histogram_ok (m_run_duration_other m) \<and> (\<forall>(k, h) \<in> set (m_run_duration_by_kind m). histogram_ok h)"

lemma observe_run_ok: "metrics_ok m \<Longrightarrow> metrics_ok (observe_run kind wall_ms m)"
proof -
  assume ok: "metrics_ok m"
  have "map fst (map (\<lambda>(k, h). (k, if k = kind then observe wall_ms h else h)) xs) = map fst xs" for xs
    by (induction xs) auto
  with ok show ?thesis
    by (auto simp: metrics_ok_def observe_run_def Let_def histogram_ok_observe map_of_eq_None_iff
        simp del: map_map split: option.split)
qed

lemma metrics_ok_default [simp]: "metrics_ok metrics_default"
  by (simp add: metrics_ok_def metrics_default_def)

text \<open>
  The scheduler's metrics are bounded and consistent. From the default state, every recording
  keeps at most 64 per-kind histograms, one per kind, and every histogram's count equal to the sum
  of its buckets (in the counters' own wrapping arithmetic).
\<close>

theorem metrics_bounded:
  "metrics_ok metrics_default \<and>
   (metrics_ok m \<longrightarrow>
      metrics_ok (record_enqueued m) \<and> metrics_ok (record_duplicate_enqueue m) \<and>
      metrics_ok (record_claim v m) \<and> metrics_ok (record_completed kind v m) \<and>
      metrics_ok (record_attempt_failed kind v m) \<and> metrics_ok (record_dead m) \<and>
      metrics_ok (record_queue_error m) \<and> metrics_ok (record_lease_reaped v m) \<and>
      metrics_ok (record_cron_tick v v' v'' m))"
proof -
  have "metrics_ok m \<Longrightarrow> metrics_ok (m\<lparr>m_completed_total := a\<rparr>)" "metrics_ok m \<Longrightarrow> metrics_ok (m\<lparr>m_attempt_failed_total := a\<rparr>)" for a
    by (simp_all add: metrics_ok_def)
  then show ?thesis
    by (simp add: record_completed_def record_attempt_failed_def observe_run_ok)
       (simp add: metrics_ok_def record_enqueued_def record_duplicate_enqueue_def record_claim_def
          record_dead_def record_queue_error_def record_lease_reaped_def record_cron_tick_def
          histogram_ok_observe)
qed

theorem metrics_bounded_witness:
  "metrics_ok (record_completed ''noop'' 7 metrics_default) \<and>
   h_buckets (observe 7 histogram_default) ! 3 = 1"
  using metrics_bounded [of metrics_default 7 "''noop''"]
  by (simp add: observe_def bucket_index_def BUCKET_BOUNDS_MS_def histogram_default_def Let_def)

end
