(* ===== verification/Backoff.thy ===== *)
theory Backoff
  imports Prelude
begin

text \<open>
  Retry backoff of \<open>crates/pos-sched/src/backoff.rs\<close>: the exponential window with its cap, the two
  jitter sources, and the delay a failed attempt is given. A jitter source is its state and the
  function that draws below a bound; the interface \<open>jitter_source\<close> is what the queue relies on.
\<close>

unbundle bit_operations_syntax

section \<open>The window\<close>

definition JOB_BACKOFF_BASE_MS_DEFAULT :: u64 where
  "JOB_BACKOFF_BASE_MS_DEFAULT = 2000"

definition JOB_BACKOFF_FACTOR_DEFAULT :: u32 where
  "JOB_BACKOFF_FACTOR_DEFAULT = 2"

definition JOB_BACKOFF_CAP_MS_DEFAULT :: u64 where
  "JOB_BACKOFF_CAP_MS_DEFAULT = 15 * 60 * 1000"

definition BACKOFF_EXPONENT_MAX :: u32 where
  "BACKOFF_EXPONENT_MAX = 32"

record backoff_policy =
  base_ms :: u64
  factor :: u32
  cap_ms :: u64

definition backoff_default :: backoff_policy where
  "backoff_default =
     \<lparr>base_ms = JOB_BACKOFF_BASE_MS_DEFAULT, factor = JOB_BACKOFF_FACTOR_DEFAULT,
      cap_ms = JOB_BACKOFF_CAP_MS_DEFAULT\<rparr>"

definition window_ms :: "backoff_policy \<Rightarrow> u32 \<Rightarrow> u64" where
  "window_ms p attempt_index =
     (let exponent = min (saturating_sub attempt_index 1) BACKOFF_EXPONENT_MAX;
          growth = (case checked_pow (u64_of (factor p)) (unat exponent) of
                      None \<Rightarrow> - 1 | Some g \<Rightarrow> g)
      in min (saturating_mul (base_ms p) growth) (cap_ms p))"

section \<open>Jitter\<close>

datatype jitter = SplitMixJitter u64 | NoJitter

definition splitmix_next :: "u64 \<Rightarrow> u64 \<times> u64" where
  "splitmix_next state =
     (let state' = state + 0x9E3779B97F4A7C15;
          z = state';
          z = (z XOR drop_bit 30 z) * 0xBF58476D1CE4E5B9;
          z = (z XOR drop_bit 27 z) * 0x94D049BB133111EB
      in (z XOR drop_bit 31 z, state'))"

fun sample_below :: "u64 \<Rightarrow> jitter \<Rightarrow> u64 \<times> jitter" where
  "sample_below bound (SplitMixJitter state) =
     (if bound = 0 then (0, SplitMixJitter state)
      else case splitmix_next state of (z, state') \<Rightarrow> (z mod bound, SplitMixJitter state'))"
| "sample_below bound NoJitter = (saturating_sub bound 1, NoJitter)"

definition delay_ms :: "backoff_policy \<Rightarrow> u32 \<Rightarrow> jitter \<Rightarrow> u64 \<times> jitter" where
  "delay_ms p attempt_index j = sample_below (saturating_add (window_ms p attempt_index) 1) j"

text \<open>What \<open>JitterSource\<close> promises, and what follows for any delay drawn from a window.\<close>

locale jitter_source =
  fixes sample :: "u64 \<Rightarrow> 'j \<Rightarrow> u64 \<times> 'j"
  assumes sample_in: "bound \<noteq> 0 \<Longrightarrow> fst (sample bound j) < bound"
    and sample_zero: "fst (sample 0 j) = 0"
begin

lemma sample_window: "fst (sample (saturating_add w 1) j) \<le> w"
proof -
  have "unat (saturating_add w 1) = min (unat w + 1) (2 ^ 64 - 1)"
    by (simp add: unat_saturating_add)
  then have ne: "saturating_add w 1 \<noteq> 0" and le: "unat (saturating_add w 1) \<le> Suc (unat w)"
    by (auto simp: word_unat_eq_iff)
  show ?thesis
    using sample_in [OF ne, of j] le by (simp add: word_less_nat_alt word_le_nat_alt)
qed

end

lemma word_mod_less: "b \<noteq> 0 \<Longrightarrow> a mod b < (b :: 'a::len word)"
  by (simp add: word_less_nat_alt unat_mod word_unat_eq_iff)

interpretation jitter: jitter_source sample_below
proof
  show "fst (sample_below bound j) < bound" if "bound \<noteq> 0" for bound j
    using that
    by (cases j)
       (auto simp: word_mod_less saturating_sub_def word_gt_0 [symmetric] split: prod.split,
        auto simp: word_less_nat_alt word_le_nat_alt unat_sub Suc_le_eq unat_gt_0)
  show "fst (sample_below 0 j) = 0" for j
    by (cases j) (auto simp: saturating_sub_def)
qed

section \<open>The envelope\<close>

lemma unat_min: "unat (min a b) = min (unat a) (unat (b :: 'a::len word))"
  by (simp add: min_def word_le_nat_alt)

lemma saturated_product:
  "min (min (b * min g m) m) c = min c (b * g)" if "c \<le> m" for b g m c :: nat
proof (cases "g \<le> m")
  case True
  then show ?thesis using that by (simp add: min_def)
next
  case False
  show ?thesis
  proof (cases "b = 0")
    case False
    then have "m \<le> b * m" "m \<le> b * g"
      using \<open>\<not> g \<le> m\<close> by (auto intro: order_trans [of m g])
    then show ?thesis using that \<open>\<not> g \<le> m\<close> by (auto simp: min_def)
  qed simp
qed

lemma growth_exact:
  "unat (case checked_pow (u64_of f) n of None \<Rightarrow> - 1 | Some g \<Rightarrow> g) =
     min (unat f ^ n) (2 ^ 64 - 1)" for f :: u32
proof -
  have f: "unat (u64_of f) = unat f"
    by (simp add: unsigned_ucast_eq take_bit_nat_eq_self_iff less_trans [OF unat_lt2p_num])
  show ?thesis
  proof (cases "checked_pow (u64_of f) n")
    case None
    then have "2 ^ 64 \<le> unat f ^ n"
      by (auto simp: checked_pow_def f split: if_splits)
    with None show ?thesis by (simp add: unat_minus_one_max)
  next
    case (Some g)
    then have "unat g = unat f ^ n" "unat f ^ n < 2 ^ 64"
      using unat_checked_pow [OF Some] f by (auto simp: checked_pow_def split: if_splits)
    with Some show ?thesis by simp
  qed
qed

lemma backoff_window_bound:
  "unat (window_ms p a) = min (unat (cap_ms p)) (unat (base_ms p) * unat (factor p) ^ min (unat a - 1) 32)"
proof -
  have "unat (cap_ms p) \<le> 2 ^ 64 - 1"
    using unat_lt2p_num [of "cap_ms p"] by simp
  then show ?thesis
    by (simp add: window_ms_def Let_def unat_min unat_saturating_mul growth_exact unat_saturating_sub
        BACKOFF_EXPONENT_MAX_def saturated_product)
qed

text \<open>
  C39: \<open>window_ms\<close> computes the exact envelope \<open>min(cap, base * factor ^ (attempt - 1))\<close>, the
  exponent held at 32: no saturation or overflow of the 64-bit arithmetic is visible in the result,
  for any policy and any attempt index.
\<close>

theorem backoff_window_exact:
  "unat (window_ms p a) = min (unat (cap_ms p)) (unat (base_ms p) * unat (factor p) ^ min (unat a - 1) 32)"
  by (rule backoff_window_bound)

lemma window_mono:
  assumes "a \<le> b" "0 < factor p"
  shows "window_ms p a \<le> window_ms p b"
proof -
  have "unat (factor p) ^ min (unat a - 1) 32 \<le> unat (factor p) ^ min (unat b - 1) 32"
    using assms by (intro power_increasing) (auto simp: word_le_nat_alt word_less_nat_alt)
  then show ?thesis
    unfolding word_le_nat_alt backoff_window_bound
    by (meson min.mono mult_le_mono2 order_refl)
qed

lemma delay_le_cap: "fst (delay_ms p a j) \<le> cap_ms p"
  using jitter.sample_window [of "window_ms p a" j]
  by (auto simp: delay_ms_def window_ms_def Let_def intro: order_trans)

text \<open>
  Full jitter: the delay of attempt \<open>a\<close>, drawn from any jitter source in any state, lies in
  \<open>[0, window_ms a]\<close>, never above the cap; the window does not shrink from one attempt to the
  next; and \<open>NoJitter\<close> waits the whole window whenever the window is below the last \<open>u64\<close>.
\<close>

theorem backoff_delay_in_window:
  "fst (delay_ms p a j) \<le> window_ms p a \<and> fst (delay_ms p a j) \<le> cap_ms p \<and>
   (a \<le> b \<and> 0 < factor p \<longrightarrow> window_ms p a \<le> window_ms p b) \<and>
   (window_ms p a < - 1 \<longrightarrow> fst (delay_ms p a NoJitter) = window_ms p a)"
proof -
  have "fst (delay_ms p a NoJitter) = window_ms p a" if "window_ms p a < - 1"
  proof -
    have "unat (window_ms p a) < 2 ^ 64 - 1"
      using that by (simp add: word_less_nat_alt unat_minus_one_max)
    then show ?thesis
      by (simp add: delay_ms_def word_unat_eq_iff unat_saturating_sub unat_saturating_add)
  qed
  then show ?thesis
    using jitter.sample_window [of "window_ms p a" j] delay_le_cap window_mono
    by (simp add: delay_ms_def)
qed

theorem backoff_delay_in_window_witness:
  "fst (delay_ms backoff_default 4 (SplitMixJitter 42)) \<le> window_ms backoff_default 4 \<and>
   window_ms backoff_default 4 \<le> window_ms backoff_default 20 \<and>
   fst (delay_ms backoff_default 4 NoJitter) = 16000"
proof -
  have w: "window_ms backoff_default 4 = 16000"
    by (simp add: window_ms_def backoff_default_def BACKOFF_EXPONENT_MAX_def saturating_sub_def
        checked_pow_def saturating_mul_def JOB_BACKOFF_BASE_MS_DEFAULT_def
        JOB_BACKOFF_FACTOR_DEFAULT_def JOB_BACKOFF_CAP_MS_DEFAULT_def Let_def min_def)
  have f: "0 < factor backoff_default"
    by (simp add: backoff_default_def JOB_BACKOFF_FACTOR_DEFAULT_def)
  show ?thesis
    using backoff_delay_in_window [of backoff_default 4 "SplitMixJitter 42" 20] f w by simp
qed

end
