(* ===== verification/Node.thy ===== *)
theory Node
  imports Log_Machine
begin

text \<open>
  One process working on an open project: the log, and the injected wall clock
  (\<open>crates/pos-foundation/src/clock.rs\<close>) as the sequence of its readings. Operations are functions from
  the node to a result and a node; \<open>obind\<close> is their sequencing (\<open>?\<close>), and an error keeps the state
  reached, because what was committed before it stays committed.
\<close>

section \<open>Operations with state and errors\<close>

type_synonym ('s, 'e, 'a) op = "'s \<Rightarrow> ('e + 'a) \<times> 's"

definition oret :: "'a \<Rightarrow> ('s, 'e, 'a) op" where
  "oret a s = (Inr a, s)"

definition ofail :: "'e \<Rightarrow> ('s, 'e, 'a) op" where
  "ofail e s = (Inl e, s)"

definition obind :: "('s, 'e, 'a) op \<Rightarrow> ('a \<Rightarrow> ('s, 'e, 'b) op) \<Rightarrow> ('s, 'e, 'b) op" where
  "obind m f s = (case m s of (Inl e, s') \<Rightarrow> (Inl e, s') | (Inr a, s') \<Rightarrow> f a s')"

text \<open>A step that reads the state, one that changes it, and a result lifted to a step.\<close>

definition oget :: "('s \<Rightarrow> 'a) \<Rightarrow> ('s, 'e, 'a) op" where
  "oget f s = (Inr (f s), s)"

definition omod :: "('s \<Rightarrow> 's) \<Rightarrow> ('s, 'e, unit) op" where
  "omod f s = (Inr (), f s)"

definition oread :: "('s \<Rightarrow> 'e + 'a) \<Rightarrow> ('s, 'e, 'a) op" where
  "oread f s = (f s, s)"

definition oerr :: "('e \<Rightarrow> 'f) \<Rightarrow> ('s, 'e, 'a) op \<Rightarrow> ('s, 'f, 'a) op" where
  "oerr g m s = (case m s of (r, s') \<Rightarrow> (map_err g r, s'))"

fun ofold :: "('a \<Rightarrow> 'b \<Rightarrow> ('s, 'e, 'b) op) \<Rightarrow> 'a list \<Rightarrow> 'b \<Rightarrow> ('s, 'e, 'b) op" where
  "ofold f [] acc = oret acc"
| "ofold f (x # xs) acc = obind (f x acc) (ofold f xs)"

text \<open>
  A relation between the state before and after a step, for every outcome: what an operation may do
  to the node whatever it returns.
\<close>

definition oinv :: "('s \<Rightarrow> 's \<Rightarrow> bool) \<Rightarrow> ('s, 'e, 'a) op \<Rightarrow> bool" where
  "oinv R m \<longleftrightarrow> (\<forall>s. R s (snd (m s)))"

locale op_relation =
  fixes R :: "'s \<Rightarrow> 's \<Rightarrow> bool"
  assumes R_refl: "R s s"
    and R_trans: "R s t \<Longrightarrow> R t u \<Longrightarrow> R s u"
begin

lemma oinv_oret: "oinv R (oret a)"
  by (simp add: oinv_def oret_def R_refl)

lemma oinv_ofail: "oinv R (ofail e)"
  by (simp add: oinv_def ofail_def R_refl)

lemma oinv_oget: "oinv R (oget f)"
  by (simp add: oinv_def oget_def R_refl)

lemma oinv_oread: "oinv R (oread f)"
  by (simp add: oinv_def oread_def R_refl)

lemma oinv_omod: "(\<And>s. R s (f s)) \<Longrightarrow> oinv R (omod f)"
  by (simp add: oinv_def omod_def)

lemma oinv_oerr: "oinv R m \<Longrightarrow> oinv R (oerr g m)"
  unfolding oinv_def oerr_def by (metis (mono_tags, lifting) prod.case_eq_if snd_conv)

lemma oinv_obind:
  assumes "oinv R m" "\<And>a. oinv R (f a)"
  shows "oinv R (obind m f)"
  unfolding oinv_def
proof
  fix s
  obtain r s' where m: "m s = (r, s')" by (cases "m s")
  have "R s s'"
    using assms(1) m unfolding oinv_def by (metis snd_conv)
  then show "R s (snd (obind m f s))"
    using m assms(2) R_trans by (auto simp: obind_def oinv_def split: sum.split)
qed

lemma oinv_if: "(b \<Longrightarrow> oinv R m) \<Longrightarrow> (\<not> b \<Longrightarrow> oinv R n) \<Longrightarrow> oinv R (if b then m else n)"
  by simp

lemma oinv_ofold: "(\<And>x acc. oinv R (f x acc)) \<Longrightarrow> oinv R (ofold f xs acc)"
  by (induction xs arbitrary: acc) (simp_all add: oinv_oret oinv_obind)

lemmas oinv_steps = oinv_oret oinv_ofail oinv_oget oinv_oread oinv_oerr oinv_obind oinv_if oinv_ofold

end

section \<open>The node\<close>

record 'b node =
  nd_log :: "'b project_log"
  nd_clock :: "nat \<Rightarrow> u64"
  nd_ticks :: nat

definition now_ms :: "('b, 'z) node_scheme \<Rightarrow> ('e + u64) \<times> ('b, 'z) node_scheme" where
  "now_ms nd = (Inr (nd_clock nd (nd_ticks nd)), nd\<lparr>nd_ticks := Suc (nd_ticks nd)\<rparr>)"

definition nd_store :: "('b, 'z) node_scheme \<Rightarrow> 'b log_db project_db" where
  "nd_store nd = pl_store (nd_log nd)"

definition set_store :: "'b log_db project_db \<Rightarrow> ('b, 'z) node_scheme \<Rightarrow> ('b, 'z) node_scheme" where
  "set_store st nd = nd\<lparr>nd_log := (nd_log nd)\<lparr>pl_store := st\<rparr>\<rparr>"

text \<open>
  \<open>ProjectLog::append_batch\<close> and \<open>append_batch_at_head\<close> with the clock: one reading, after the
  requests were validated.
\<close>

definition log_append_inner ::
  "event_seq option \<Rightarrow> 'b append_request list \<Rightarrow> (('b, 'z) node_scheme, log_error, event_seq list) op" where
  "log_append_inner expected requests nd =
     (let l = nd_log nd;
          nd' = (if requests \<noteq> [] \<and> validate_requests (pl_externals l) requests = Inr ()
                 then nd\<lparr>nd_ticks := Suc (nd_ticks nd)\<rparr> else nd)
      in case append_batch_inner (pl_externals l) (pl_registry l) (pl_config l)
                (nd_clock nd (nd_ticks nd)) expected requests (pl_store l) of
           (r, st) \<Rightarrow> (r, set_store st nd'))"

definition log_append :: "'b append_request \<Rightarrow> (('b, 'z) node_scheme, log_error, event_seq) op" where
  "log_append request =
     obind (log_append_inner None [request]) (\<lambda>seqs. oret (last seqs))"

definition log_append_at_head ::
  "event_seq \<Rightarrow> 'b append_request \<Rightarrow> (('b, 'z) node_scheme, log_error, event_seq) op" where
  "log_append_at_head expected request =
     obind (log_append_inner (Some expected) [request]) (\<lambda>seqs. oret (last seqs))"

section \<open>What an operation can do to the log\<close>

text \<open>
  The clock's readings fit SQLite's integers: the assumption under which stored timestamps are the
  ones read.
\<close>

definition clock_ok :: "('b, 'z) node_scheme \<Rightarrow> bool" where
  "clock_ok nd \<longleftrightarrow> (\<forall>n. uint (nd_clock nd n) \<le> i64_max)"

text \<open>The log moves by steps of its own machine; its codec, registry and the clock are fixed.\<close>

definition log_moves :: "('b, 'z) node_scheme \<Rightarrow> ('b, 'z) node_scheme \<Rightarrow> bool" where
  "log_moves nd nd' \<longleftrightarrow>
     (clock_ok nd \<longrightarrow> log_step\<^sup>*\<^sup>* (nd_log nd) (nd_log nd')) \<and> nd_clock nd' = nd_clock nd \<and>
     nd_ticks nd \<le> nd_ticks nd' \<and> pl_externals (nd_log nd') = pl_externals (nd_log nd) \<and>
     pl_registry (nd_log nd') = pl_registry (nd_log nd) \<and> pl_config (nd_log nd') = pl_config (nd_log nd)"

interpretation moves: op_relation "log_moves :: ('b, 'z) node_scheme \<Rightarrow> ('b, 'z) node_scheme \<Rightarrow> bool"
  by unfold_locales (auto simp: log_moves_def clock_ok_def)

lemma log_moves_sound:
  assumes "log_moves nd nd'" "clock_ok nd" "log_sound (nd_log nd)"
  shows "log_sound (nd_log nd') \<and> clock_ok nd' \<and> (\<exists>new. log_events (nd_log nd') = log_events (nd_log nd) @ new)"
  using assms plog.run_good_extends [of "nd_log nd" "nd_log nd'"] by (auto simp: log_moves_def clock_ok_def)

lemma now_moves: "oinv log_moves now_ms"
  by (simp add: oinv_def now_ms_def log_moves_def)

lemma append_moves:
  assumes "requests_ok (requests :: 'b append_request list)"
  shows "oinv log_moves (log_append_inner expected requests)"
  unfolding oinv_def
proof
  fix nd :: "('b, 'z) node_scheme"
  let ?l = "nd_log nd" and ?ts = "nd_clock nd (nd_ticks nd)"
  obtain r st where st: "append_batch_inner (pl_externals ?l) (pl_registry ?l) (pl_config ?l) ?ts expected
      requests (pl_store ?l) = (r, st)" by (cases "append_batch_inner (pl_externals ?l) (pl_registry ?l)
      (pl_config ?l) ?ts expected requests (pl_store ?l)")
  have "log_step ?l (?l\<lparr>pl_store := st\<rparr>)" if "clock_ok nd"
    by (rule Append [OF st assms]) (use that in \<open>simp add: clock_ok_def\<close>)
  then show "log_moves nd (snd (log_append_inner expected requests nd))"
    using st by (auto simp: log_append_inner_def log_moves_def set_store_def Let_def)
qed

lemma into_request_ok: "valid_kind_tag k \<Longrightarrow> requests_ok [\<lparr>ar_device = d, ar_actor = a, ar_kind = k, ar_body = b, ar_refs = r\<rparr>]"
  by (simp add: requests_ok_def)

lemma append_one_moves:
  assumes "valid_kind_tag (ar_kind request)"
  shows "oinv log_moves (log_append request)" "oinv log_moves (log_append_at_head expected request)"
  using assms unfolding log_append_def log_append_at_head_def
  by (auto intro!: moves.oinv_steps append_moves simp: requests_ok_def)

end
