(* ===== verification/Queue.thy ===== *)
theory Queue
  imports Job Metrics Backoff Node
begin

text \<open>
  The job queue of \<open>crates/pos-sched/src/queue.rs\<close>: enqueue, claim with a lease, heartbeat, terminal
  transitions and lease reaping. Every durable transition is an append to the project log; the only
  table written directly is \<open>sched_leases\<close>, the node-local claim ledger, which is part of the node and
  not of the log. \<open>None\<close> in place of the ledger is the state before \<open>ensure_schema\<close>.
\<close>

section \<open>State\<close>

definition SCHED_LEASE_TTL_MS_DEFAULT :: u64 where
  "SCHED_LEASE_TTL_MS_DEFAULT = 30000"

definition LEASE_REAP_BATCH_COUNT_MAX :: nat where
  "LEASE_REAP_BATCH_COUNT_MAX = 64"

definition LIVE_LEASE_COUNT_MAX :: nat where
  "LIVE_LEASE_COUNT_MAX = 1024"

record lease_row =
  lr_worker :: string
  lr_attempt_index :: i64
  lr_claimed_ts_ms :: i64
  lr_heartbeat_ts_ms :: i64
  lr_expires_ts_ms :: i64

type_synonym leases = "(bytes \<times> lease_row) list"

record queue_config =
  qc_device :: id16
  qc_backoff :: backoff_policy
  qc_lease_ttl_ms :: u64

definition for_device :: "id16 \<Rightarrow> queue_config" where
  "for_device device =
     \<lparr>qc_device = device, qc_backoff = backoff_default, qc_lease_ttl_ms = SCHED_LEASE_TTL_MS_DEFAULT\<rparr>"

record 'b sched_node = "'b node" +
  sn_leases :: "leases option"
  sn_jitter :: jitter
  sn_metrics :: scheduler_metrics

datatype enqueue_outcome = Enqueued id16 | Duplicate id16

fun outcome_job_id :: "enqueue_outcome \<Rightarrow> id16" where
  "outcome_job_id (Enqueued i) = i"
| "outcome_job_id (Duplicate i) = i"

fun is_duplicate :: "enqueue_outcome \<Rightarrow> bool" where
  "is_duplicate (Enqueued _) = False"
| "is_duplicate (Duplicate _) = True"

datatype failure_outcome = OutcomeRetrying u64 | OutcomeDead

type_synonym ('b, 'a) sched_op = "('b sched_node, sched_error, 'a) op"

definition upd_metrics :: "(scheduler_metrics \<Rightarrow> scheduler_metrics) \<Rightarrow> ('b, unit) sched_op" where
  "upd_metrics f = omod (\<lambda>nd. nd\<lparr>sn_metrics := f (sn_metrics nd)\<rparr>)"

section \<open>The lease ledger\<close>

definition set_handle :: "bool \<Rightarrow> bool \<Rightarrow> 'b sched_node \<Rightarrow> 'b sched_node" where
  "set_handle stopped poisoned nd =
     set_store ((nd_store nd)\<lparr>fail_stopped := stopped, writer_poisoned := poisoned\<rparr>) nd"

text \<open>
  \<open>ProjectDb::with_writer\<close> on the ledger: one statement in autocommit mode. An I/O-class failure
  fail-stops the project, lock weather is an error of the statement.
\<close>

definition lease_writer ::
  "string \<Rightarrow> (leases option \<Rightarrow> unit + 'a \<times> leases option) \<Rightarrow> ('b, 'a) sched_op" where
  "lease_writer context operation nd =
     (let st = nd_store nd
      in if fail_stopped st then (Inl (SchedStore FailStopped), nd)
         else if writer_poisoned st then (Inl (SchedStore FailStopped), set_handle True True nd)
         else case operation (sn_leases nd) of
                Inl _ \<Rightarrow> (Inl (SchedStore (Sqlite context)), nd)
              | Inr (a, leases) \<Rightarrow>
                  (case db_disk st of
                     DiskOk \<Rightarrow> (Inr a, nd\<lparr>sn_leases := leases\<rparr>)
                   | DiskLost \<Rightarrow> (Inl (SchedStore DurabilityLost), set_handle True False nd)
                   | DiskBusy \<Rightarrow> (Inl (SchedStore (Sqlite context)), nd)))"

text \<open>\<open>ProjectDb::write_transaction\<close> on the ledger, next to the projections it reads.\<close>

definition lease_transaction ::
  "(tables \<Rightarrow> leases option \<Rightarrow> sched_error + 'a \<times> leases option) \<Rightarrow> ('b, 'a) sched_op" where
  "lease_transaction operation nd =
     (let st = nd_store nd;
          view = \<lparr>db_content = sn_leases nd, fail_stopped = fail_stopped st,
                  writer_poisoned = writer_poisoned st, db_faults = db_faults st, db_disk = db_disk st\<rparr>
      in case write_transaction SchedStore (\<lambda>_. False) (operation (main_tables (db_content st))) view of
           (r, view') \<Rightarrow>
             (r, (set_handle (fail_stopped view') (writer_poisoned view') nd)\<lparr>sn_leases := db_content view'\<rparr>))"

definition lease_reader :: "string \<Rightarrow> (leases \<Rightarrow> 'a) \<Rightarrow> 'b sched_node \<Rightarrow> sched_error + 'a" where
  "lease_reader context f nd =
     rbind (map_err SchedStore (ensure_live (nd_store nd))) (\<lambda>_.
     case sn_leases nd of None \<Rightarrow> Inl (SchedStore (Sqlite context)) | Some ls \<Rightarrow> Inr (f ls))"

definition ensure_schema :: "('b, unit) sched_op" where
  "ensure_schema =
     lease_writer ''ensure scheduler schema'' (\<lambda>leases.
       Inr ((), Some (case leases of None \<Rightarrow> [] | Some ls \<Rightarrow> ls)))"

definition release_lease :: "id16 \<Rightarrow> ('b, unit) sched_op" where
  "release_lease job_id =
     lease_writer ''release job lease'' (\<lambda>leases.
       case leases of None \<Rightarrow> Inl () | Some ls \<Rightarrow> Inr ((), Some (tbl_del (into_bytes job_id) ls)))"

section \<open>Enqueue\<close>

definition sched_read_job :: "id16 \<Rightarrow> 'b sched_node \<Rightarrow> sched_error + job_record option" where
  "sched_read_job job_id nd = map_err SchedRead (read_job (nd_log nd) job_id)"

definition enqueued_event :: "id16 \<Rightarrow> id16 \<Rightarrow> job_spec \<Rightarrow> domain_event" where
  "enqueued_event job_id project_id spec =
     JobEnqueued (JobEnqueuedV2 (JobEnqueuedV2Fields job_id project_id (js_kind spec)
       (js_idempotency_key spec) (js_priority spec) (js_class spec) (js_payload spec)
       (js_run_at_ts_ms spec) (js_retry_count_max spec) (js_cron spec)))"

definition job_request ::
  "queue_config \<Rightarrow> 'b domain_codec \<Rightarrow> id16 \<Rightarrow> domain_event \<Rightarrow> sched_error + 'b append_request" where
  "job_request cfg dc job_id e = map_err SchedLog (into_request dc e (qc_device cfg) (System job_id))"

definition spec_job_id :: "id16 \<Rightarrow> job_spec \<Rightarrow> 'b sched_node \<Rightarrow> id16" where
  "spec_job_id project_id spec nd =
     derive_job_id (blake3 (pl_externals (nd_log nd))) project_id (js_kind spec) (js_idempotency_key spec)"

definition duplicate_enqueue :: "id16 \<Rightarrow> ('b, enqueue_outcome) sched_op" where
  "duplicate_enqueue job_id = obind (upd_metrics record_duplicate_enqueue) (\<lambda>_. oret (Duplicate job_id))"

text \<open>
  The append of \<open>enqueue\<close>: a projection failure is re-read, because a concurrent enqueue of the same
  work fails on the primary key.
\<close>

definition enqueue_append :: "id16 \<Rightarrow> 'b append_request \<Rightarrow> ('b, enqueue_outcome) sched_op" where
  "enqueue_append job_id request nd =
     (case log_append request nd of
        (Inr _, nd') \<Rightarrow> obind (upd_metrics record_enqueued) (\<lambda>_. oret (Enqueued job_id)) nd'
      | (Inl (Apply kind seq source), nd') \<Rightarrow>
          obind (oread (sched_read_job job_id)) (\<lambda>existing.
            if existing \<noteq> None then duplicate_enqueue job_id
            else ofail (SchedLog (Apply kind seq source))) nd'
      | (Inl e, nd') \<Rightarrow> (Inl (SchedLog e), nd'))"

definition enqueue ::
  "queue_config \<Rightarrow> 'b domain_codec \<Rightarrow> id16 \<Rightarrow> job_spec \<Rightarrow> ('b, enqueue_outcome) sched_op" where
  "enqueue cfg dc project_id spec =
     obind (oread (\<lambda>_. job_spec_validate spec)) (\<lambda>_.
     obind (oget (spec_job_id project_id spec)) (\<lambda>job_id.
     obind (oread (sched_read_job job_id)) (\<lambda>existing.
     if existing \<noteq> None then duplicate_enqueue job_id
     else obind (oread (\<lambda>_. job_request cfg dc job_id (enqueued_event job_id project_id spec)))
            (enqueue_append job_id))))"

definition enqueue_request ::
  "queue_config \<Rightarrow> 'b domain_codec \<Rightarrow> id16 \<Rightarrow> job_spec \<Rightarrow> ('b, id16 \<times> 'b append_request option) sched_op" where
  "enqueue_request cfg dc project_id spec =
     obind (oread (\<lambda>_. job_spec_validate spec)) (\<lambda>_.
     obind (oget (spec_job_id project_id spec)) (\<lambda>job_id.
     obind (oread (sched_read_job job_id)) (\<lambda>existing.
     if existing \<noteq> None
     then obind (upd_metrics record_duplicate_enqueue) (\<lambda>_. oret (job_id, None))
     else obind (oread (\<lambda>_. job_request cfg dc job_id (enqueued_event job_id project_id spec)))
            (\<lambda>request. oret (job_id, Some request)))))"

section \<open>Claim\<close>

record candidate =
  cd_job_id :: id16
  cd_job_kind :: string
  cd_payload :: bytes
  cd_attempt_count :: u32
  cd_attempt_count_max :: u32
  cd_enqueued_seq :: u64
  cd_run_at_ts_ms :: u64

text \<open>\<open>column <= integer\<close> on a stored cell: false on NULL, and text and blobs sort after numbers.\<close>

fun cell_le_int :: "sql_cell \<Rightarrow> i64 \<Rightarrow> bool" where
  "cell_le_int (CInteger i) n \<longleftrightarrow> i \<le> n"
| "cell_le_int _ n \<longleftrightarrow> False"

definition claimable :: "job_class \<Rightarrow> u64 \<Rightarrow> leases \<Rightarrow> sql_cell list \<times> row \<Rightarrow> bool" where
  "claimable cls now leases kr \<longleftrightarrow>
     column_cell JOBS_TABLE kr ''state'' = CText ''queued'' \<and>
     column_cell JOBS_TABLE kr ''class'' = CText (class_as_str cls) \<and>
     cell_le_int (column_cell JOBS_TABLE kr ''run_at_ts_ms'') (sat_i64 now) \<and>
     \<not> list_ex (\<lambda>(j, _). column_cell JOBS_TABLE kr ''job_id'' = CBlob j) leases"

definition claim_order :: "sql_cell list \<times> row \<Rightarrow> sql_cell list" where
  "claim_order kr =
     [column_cell JOBS_TABLE kr ''priority_rank'', column_cell JOBS_TABLE kr ''enqueued_seq'']"

definition candidate_row :: "sql_cell list \<times> row \<Rightarrow> unit + candidate" where
  "candidate_row kr =
     (let cell = column_cell JOBS_TABLE kr
      in rbind (get_blob (cell ''job_id'')) (\<lambda>job_id.
         rbind (get_text (cell ''job_kind'')) (\<lambda>job_kind.
         rbind (get_blob (cell ''payload'')) (\<lambda>payload.
         rbind (get_i64 (cell ''attempt_count'')) (\<lambda>attempt_count.
         rbind (get_i64 (cell ''attempt_count_max'')) (\<lambda>attempt_count_max.
         rbind (get_i64 (cell ''enqueued_seq'')) (\<lambda>enqueued_seq.
         rbind (get_i64 (cell ''run_at_ts_ms'')) (\<lambda>run_at_ts_ms.
         Inr \<lparr>cd_job_id = (case id_try_from job_id of None \<Rightarrow> 0 | Some i \<Rightarrow> i), cd_job_kind = job_kind,
              cd_payload = payload, cd_attempt_count = count_u32 attempt_count,
              cd_attempt_count_max = count_u32 attempt_count_max,
              cd_enqueued_seq = non_negative enqueued_seq,
              cd_run_at_ts_ms = non_negative run_at_ts_ms\<rparr>))))))))"

definition select_claimable ::
  "job_class \<Rightarrow> u64 \<Rightarrow> tables \<Rightarrow> leases option \<Rightarrow> sched_error + candidate option" where
  "select_claimable cls now ts leases =
     map_err (\<lambda>_. SchedStore (Sqlite ''select claimable job''))
       (rbind (table_rows JOBS_TABLE ts) (\<lambda>rows.
        case leases of
          None \<Rightarrow> Inl ()
        | Some ls \<Rightarrow>
            (case sort_key claim_order (filter (claimable cls now ls) rows) of
               [] \<Rightarrow> Inr None
             | kr # _ \<Rightarrow> rbind (candidate_row kr) (\<lambda>c. Inr (Some c)))))"

definition insert_lease ::
  "id16 \<Rightarrow> string \<Rightarrow> u32 \<Rightarrow> u64 \<Rightarrow> u64 \<Rightarrow> leases option \<Rightarrow> sched_error + leases option" where
  "insert_lease job_id worker attempt_index now expires leases =
     (case leases of
        None \<Rightarrow> Inl (SchedStore (Sqlite ''insert job lease''))
      | Some ls \<Rightarrow>
          if map_of ls (into_bytes job_id) \<noteq> None then Inl (SchedStore (Sqlite ''insert job lease''))
          else Inr (Some (tbl_put (into_bytes job_id)
                 \<lparr>lr_worker = worker, lr_attempt_index = i64_of attempt_index,
                  lr_claimed_ts_ms = sat_i64 now, lr_heartbeat_ts_ms = sat_i64 now,
                  lr_expires_ts_ms = sat_i64 expires\<rparr> ls)))"

definition claim_tx ::
  "id16 \<Rightarrow> job_class \<Rightarrow> string \<Rightarrow> u64 \<Rightarrow> u64 \<Rightarrow> tables \<Rightarrow> leases option
     \<Rightarrow> sched_error + claimed_job option \<times> leases option" where
  "claim_tx project_id cls worker now expires ts leases =
     rbind (select_claimable cls now ts leases) (\<lambda>selected.
     case selected of
       None \<Rightarrow> Inr (None, leases)
     | Some c \<Rightarrow>
         (let attempt_index = saturating_add (cd_attempt_count c) 1
          in rbind (insert_lease (cd_job_id c) worker attempt_index now expires leases) (\<lambda>leases'.
             rbind (map_err (\<lambda>_. InvalidSpec ''job_kind'') (job_kind_new (cd_job_kind c))) (\<lambda>kind.
             Inr (Some \<lparr>cj_job_id = cd_job_id c, cj_project_id = project_id, cj_kind = kind,
                        cj_payload = cd_payload c, cj_attempt_index = attempt_index,
                        cj_retry_count_max = cd_attempt_count_max c,
                        cj_enqueued_seq = cd_enqueued_seq c, cj_worker = worker,
                        cj_claimed_ts_ms = now,
                        cj_claim_latency_ms = saturating_sub now (cd_run_at_ts_ms c)\<rparr>, leases')))))"

definition claim ::
  "queue_config \<Rightarrow> id16 \<Rightarrow> job_class \<Rightarrow> string \<Rightarrow> ('b, claimed_job option) sched_op" where
  "claim cfg project_id cls worker =
     obind now_ms (\<lambda>now.
     obind (lease_transaction (claim_tx project_id cls worker now (saturating_add now (qc_lease_ttl_ms cfg)))) (\<lambda>claimed.
     obind (case claimed of
              None \<Rightarrow> oret ()
            | Some job \<Rightarrow> upd_metrics (record_claim (cj_claim_latency_ms job))) (\<lambda>_.
     oret claimed)))"

definition heartbeat_rows :: "claimed_job \<Rightarrow> u64 \<Rightarrow> u64 \<Rightarrow> leases \<Rightarrow> nat \<times> leases" where
  "heartbeat_rows job now expires ls =
     (case map_of ls (into_bytes (cj_job_id job)) of
        None \<Rightarrow> (0, ls)
      | Some r \<Rightarrow>
          if lr_worker r = cj_worker job \<and> lr_attempt_index r = i64_of (cj_attempt_index job)
          then (1, tbl_put (into_bytes (cj_job_id job))
                     (r\<lparr>lr_heartbeat_ts_ms := sat_i64 now, lr_expires_ts_ms := sat_i64 expires\<rparr>) ls)
          else (0, ls))"

definition heartbeat :: "queue_config \<Rightarrow> claimed_job \<Rightarrow> ('b, bool) sched_op" where
  "heartbeat cfg job =
     obind now_ms (\<lambda>now.
     obind (lease_transaction (\<lambda>_ leases.
              case leases of
                None \<Rightarrow> Inl (SchedStore (Sqlite ''heartbeat lease''))
              | Some ls \<Rightarrow>
                  (case heartbeat_rows job now (saturating_add now (qc_lease_ttl_ms cfg)) ls of
                     (changed, ls') \<Rightarrow> Inr (changed, Some ls')))) (\<lambda>changed.
     oret (changed = 1)))"

section \<open>Terminal transitions\<close>

definition append_job_fact ::
  "queue_config \<Rightarrow> 'b domain_codec \<Rightarrow> id16 \<Rightarrow> domain_event \<Rightarrow> ('b, unit) sched_op" where
  "append_job_fact cfg dc job_id e =
     obind (oread (\<lambda>_. job_request cfg dc job_id e)) (\<lambda>request.
     obind (oerr SchedLog (log_append request)) (\<lambda>_. oret ()))"

definition complete :: "queue_config \<Rightarrow> 'b domain_codec \<Rightarrow> claimed_job \<Rightarrow> u64 \<Rightarrow> ('b, unit) sched_op" where
  "complete cfg dc job wall_ms =
     obind (append_job_fact cfg dc (cj_job_id job)
              (JobCompleted (JobCompletedV2 (cj_job_id job) (cj_attempt_index job) wall_ms))) (\<lambda>_.
     obind (release_lease (cj_job_id job)) (\<lambda>_.
     upd_metrics (record_completed (cj_kind job) wall_ms)))"

record failed_attempt =
  fa_job_id :: id16
  fa_attempt_index :: u32
  fa_retry_count_max :: u32
  fa_now_ms :: u64

definition draw_delay :: "backoff_policy \<Rightarrow> u32 \<Rightarrow> ('b, u64) sched_op" where
  "draw_delay policy attempt_index nd =
     (case delay_ms policy attempt_index (sn_jitter nd) of (d, j) \<Rightarrow> (Inr d, nd\<lparr>sn_jitter := j\<rparr>))"

definition append_failure ::
  "queue_config \<Rightarrow> 'b domain_codec \<Rightarrow> failed_attempt \<Rightarrow> job_failure \<Rightarrow> ('b, failure_outcome) sched_op" where
  "append_failure cfg dc attempt failure =
     (let job_id = fa_job_id attempt; attempt_index = fa_attempt_index attempt;
          exhausted = attempt_index > fa_retry_count_max attempt
      in if jx_permanent failure \<or> exhausted
         then obind (append_job_fact cfg dc job_id
                (JobDead (JobDeadV1 job_id attempt_index
                  (if jx_permanent failure then Refused (jx_code failure)
                   else RetriesExhausted (jx_code failure))))) (\<lambda>_. oret OutcomeDead)
         else obind (draw_delay (qc_backoff cfg) attempt_index) (\<lambda>delay.
              let retry_at = saturating_add (fa_now_ms attempt) delay
              in obind (append_job_fact cfg dc job_id
                   (JobAttemptFailed (JobAttemptFailedV1 job_id attempt_index (jx_code failure)
                     (jx_detail failure) retry_at))) (\<lambda>_. oret (OutcomeRetrying retry_at))))"

definition fail_job ::
  "queue_config \<Rightarrow> 'b domain_codec \<Rightarrow> claimed_job \<Rightarrow> job_failure \<Rightarrow> u64 \<Rightarrow> ('b, failure_outcome) sched_op" where
  "fail_job cfg dc job failure wall_ms =
     obind now_ms (\<lambda>now.
     obind (append_failure cfg dc
              \<lparr>fa_job_id = cj_job_id job, fa_attempt_index = cj_attempt_index job,
               fa_retry_count_max = cj_retry_count_max job, fa_now_ms = now\<rparr> failure) (\<lambda>outcome.
     obind (release_lease (cj_job_id job)) (\<lambda>_.
     obind (upd_metrics (record_attempt_failed (cj_kind job) wall_ms)) (\<lambda>_.
     obind (if outcome = OutcomeDead then upd_metrics record_dead else oret ()) (\<lambda>_.
     oret outcome)))))"

definition supersede :: "queue_config \<Rightarrow> 'b domain_codec \<Rightarrow> id16 \<Rightarrow> id16 \<Rightarrow> ('b, unit) sched_op" where
  "supersede cfg dc job_id cron_id =
     obind (oread (sched_read_job job_id)) (\<lambda>existing.
     case existing of
       None \<Rightarrow> ofail (UnknownJob (to_hex job_id))
     | Some record \<Rightarrow>
         if is_terminal (jr_state record) then oret ()
         else obind (append_job_fact cfg dc job_id
                (JobDead (JobDeadV1 job_id (jr_attempt_count record) (SupersededByCron cron_id)))) (\<lambda>_.
              obind (release_lease job_id) (\<lambda>_. upd_metrics record_dead)))"

section \<open>Reaping\<close>

record expired_lease =
  xl_job_id :: id16
  xl_worker :: string
  xl_attempt_index :: u32

text \<open>\<open>ORDER BY lease_expires_ts_ms ASC LIMIT 64\<close>.\<close>

definition read_expired_leases :: "u64 \<Rightarrow> leases \<Rightarrow> expired_lease list" where
  "read_expired_leases now ls =
     map (\<lambda>(j, r). \<lparr>xl_job_id = (case id_try_from j of None \<Rightarrow> 0 | Some i \<Rightarrow> i), xl_worker = lr_worker r,
                    xl_attempt_index = count_u32 (lr_attempt_index r)\<rparr>)
       (take LEASE_REAP_BATCH_COUNT_MAX
          (sort_key (\<lambda>(_, r). lr_expires_ts_ms r) (filter (\<lambda>(_, r). lr_expires_ts_ms r \<le> sat_i64 now) ls)))"

definition expiry_detail :: "expired_lease \<Rightarrow> string" where
  "expiry_detail lease =
     ''worker '' @ xl_worker lease @ '' stopped heartbeating attempt '' @ dec_text (unat (xl_attempt_index lease))"

definition reap_one ::
  "queue_config \<Rightarrow> 'b domain_codec \<Rightarrow> u64 \<Rightarrow> expired_lease \<Rightarrow> u32 \<Rightarrow> ('b, u32) sched_op" where
  "reap_one cfg dc now lease reaped =
     obind (oread (sched_read_job (xl_job_id lease))) (\<lambda>existing.
     case existing of
       None \<Rightarrow> obind (release_lease (xl_job_id lease)) (\<lambda>_. oret (reaped + 1))
     | Some record \<Rightarrow>
         obind (if \<not> is_terminal (jr_state record) \<and> jr_attempt_count record < xl_attempt_index lease
                then obind (append_failure cfg dc
                       \<lparr>fa_job_id = xl_job_id lease, fa_attempt_index = xl_attempt_index lease,
                        fa_retry_count_max = jr_attempt_count_max record, fa_now_ms = now\<rparr>
                       (retriable ''lease_expired'' (expiry_detail lease))) (\<lambda>outcome.
                     if outcome = OutcomeDead then upd_metrics record_dead else oret ())
                else oret ()) (\<lambda>_.
         obind (release_lease (xl_job_id lease)) (\<lambda>_. oret (reaped + 1))))"

definition reap_expired_leases :: "queue_config \<Rightarrow> 'b domain_codec \<Rightarrow> ('b, u32) sched_op" where
  "reap_expired_leases cfg dc =
     obind now_ms (\<lambda>now.
     obind (oread (lease_reader ''read expired leases'' (read_expired_leases now))) (\<lambda>expired.
     obind (ofold (reap_one cfg dc now) expired 0) (\<lambda>reaped.
     obind (upd_metrics (record_lease_reaped (u64_of reaped))) (\<lambda>_. oret reaped))))"

section \<open>Read views\<close>

definition live_state_of :: "job_record \<Rightarrow> bool \<Rightarrow> job_live_state" where
  "live_state_of record lease_live =
     (case jr_state record of
        Done \<Rightarrow> LiveDone
      | Dead \<Rightarrow> LiveDead
      | Queued \<Rightarrow>
          if lease_live then LiveRunning
          else if jr_attempt_count record > 0 then LiveFailed else LiveQueued)"

definition lease_is_live :: "id16 \<Rightarrow> u64 \<Rightarrow> leases \<Rightarrow> bool" where
  "lease_is_live job_id now ls =
     (case map_of ls (into_bytes job_id) of None \<Rightarrow> False | Some r \<Rightarrow> non_negative (lr_expires_ts_ms r) > now)"

definition live_state :: "id16 \<Rightarrow> ('b, job_live_state option) sched_op" where
  "live_state job_id =
     obind (oread (sched_read_job job_id)) (\<lambda>existing.
     case existing of
       None \<Rightarrow> oret None
     | Some record \<Rightarrow>
         obind now_ms (\<lambda>now.
         obind (oread (lease_reader ''read job lease'' (lease_is_live job_id now))) (\<lambda>live.
         oret (Some (live_state_of record live)))))"

definition depth :: "('b, queue_depth) sched_op" where
  "depth = oread (\<lambda>nd. rbind (map_err SchedRead (count_jobs_by_state (nd_log nd))) (\<lambda>c. Inr (depth_from_counts c)))"

definition live_lease_job_ids :: "('b, id16 set) sched_op" where
  "live_lease_job_ids =
     obind now_ms (\<lambda>now.
     oread (lease_reader ''read live leases'' (\<lambda>ls.
       set (List.map_filter (\<lambda>(j, _). id_try_from j)
              (take LIVE_LEASE_COUNT_MAX (filter (\<lambda>(_, r). lr_expires_ts_ms r > sat_i64 now) ls))))))"

end
