(* ===== verification/Append_Effects.thy ===== *)
theory Append_Effects
  imports Row_Reads Node
begin

text \<open>
  What one successful append does to one projection table: the event the log stored, handed to the
  projection, and its writes executed on the table. The core projections are applied to the domain
  event that was encoded.
\<close>

lemma execute_in_own:
  assumes "rfold (\<lambda>w ts. map_err (Apply k s) (execute_in tb w ts)) ws ts = Inr ts'" "ts (tbl_name tb) = Some t"
  shows "\<exists>t'. rfold (execute_write tb) ws t = Inr t' \<and> ts' (tbl_name tb) = Some t'"
  using assms
proof (induction ws arbitrary: ts t)
  case (Cons w ws)
  then obtain us where us: "execute_in tb w ts = Inr us"
    and rest: "rfold (\<lambda>w ts. map_err (Apply k s) (execute_in tb w ts)) ws us = Inr ts'"
    by (auto simp: rbind_Inr)
  then obtain u where u: "execute_write tb w t = Inr u" "us (tbl_name tb) = Some u"
    using Cons.prems(2) by (auto simp: execute_in_def rbind_Inr)
  show ?case
    using Cons.IH [OF rest u(2)] u(1) by simp
qed simp

lemma apply_own_table:
  assumes "apply_to_tables reg ev ts = Inr ts'" "p \<in> set reg" "distinct (table_names reg)"
    and "ts (tbl_name (pr_table p)) = Some t"
  shows "\<exists>ws t'. pr_apply p ev = Inr ws \<and> rfold (execute_write (pr_table p)) ws t = Inr t' \<and>
           ts' (tbl_name (pr_table p)) = Some t'"
proof -
  let ?n = "tbl_name (pr_table p)"
  obtain as bs where reg: "reg = as @ p # bs"
    using assms(2) by (meson split_list)
  have fr: "?n \<notin> set (table_names as)" "?n \<notin> set (table_names bs)"
    using assms(3) reg by (auto simp: table_names_def)
  obtain us vs where us: "apply_to_tables as ev ts = Inr us" "apply_projection p ev us = Inr vs"
      "apply_to_tables bs ev vs = Inr ts'"
    using assms(1) reg by (auto simp: apply_to_tables_def rfold_append rbind_Inr)
  have "us ?n = Some t" "ts' ?n = vs ?n"
    using apply_to_tables_frame [OF us(1) fr(1)] apply_to_tables_frame [OF us(3) fr(2)] assms(4) by auto
  with us(2) show ?thesis
    by (auto simp: apply_projection_def rbind_Inr dest!: execute_in_own)
qed

lemma single_append:
  assumes "append_batch_inner x reg cfg ts expected [request] st = (Inr seqs, st')"
  shows "\<exists>s l. seqs = [s] \<and> s = seq_next (read_head (db_content st)) \<and>
     apply_to_tables reg (event_of s l ts request) (main_tables (db_content st)) =
       Inr (main_tables (db_content st')) \<and>
     (\<forall>h. expected = Some h \<longrightarrow> h = read_head (db_content st))"
proof -
  let ?db = "db_content st" and ?db' = "db_content st'"
  have "write_transaction StoreError log_panicked
      (append_transaction x reg cfg (db_faults st) ts expected [request]) st = (Inr seqs, st')"
    using assms by (cases "validate_requests x [request]") (simp_all add: append_batch_inner_def del: validate_requests.simps)
  note tx = write_transaction_ok [OF this, THEN conjunct1]
  obtain h' where "rfold (append_one x reg (snapshot_cadence_events cfg) (db_faults st) ts) [request]
      (read_head ?db, [], ?db) = Inr (h', seqs, ?db')"
    using tx by (auto simp: append_transaction_def Let_def rbind_Inr simp del: rfold.simps split: if_splits)
  then have one: "append_one x reg (snapshot_cadence_events cfg) (db_faults st) ts request
      (read_head ?db, [], ?db) = Inr (h', seqs, ?db')"
    by (simp add: rbind_Inr)
  have e: "\<forall>h. expected = Some h \<longrightarrow> h = read_head ?db"
    using tx by (auto simp: append_transaction_def Let_def simp del: rfold.simps split: if_splits)
  from one obtain l db1 db2 tbls db3 where
      l: "next_device_lamport (ar_device request) ?db = (l, db1)"
      and ins: "insert_event x (seq_next (read_head ?db)) l ts request db1 = Inr db2"
      and ap: "apply_to_tables reg (event_of (seq_next (read_head ?db)) l ts request) (main_tables db2) = Inr tbls"
      and db3: "db3 = write_applied_seq (seq_next (read_head ?db)) (db2\<lparr>main_tables := tbls\<rparr>)"
      and alt: "?db' = db3 \<or>
                write_snapshot x reg (seq_next (read_head ?db)) ts SNAPSHOT_KEEP_COUNT db3 = Inr ?db'"
      and s: "seqs = [] @ [seq_next (read_head ?db)]"
    by (rule append_one_Inr)
  have "main_tables db2 = main_tables ?db"
    using l ins by (auto simp: next_device_lamport_def insert_event_def Let_def split: if_splits)
  moreover have "main_tables ?db' = tbls"
    using alt db3 by (auto simp: write_applied_seq_def dest!: write_snapshot_keeps)
  ultimately show ?thesis
    using ap s e by auto
qed

lemma log_append_ok:
  assumes "log_append_inner expected [request] nd = (Inr seqs, nd')" "log_sound (nd_log nd)"
    "p \<in> set (pl_registry (nd_log nd))" "log_tables (nd_log nd) (tbl_name (pr_table p)) = Some t"
  shows "\<exists>ev ws t'. seqs = [ev_seq ev] \<and> ev_kind ev = ar_kind request \<and> ev_body ev = ar_body request \<and>
     ev_ts_ms ev = nd_clock nd (nd_ticks nd) \<and> ev_seq ev = seq_next (read_head (db_content (nd_store nd))) \<and>
     pr_apply p ev = Inr ws \<and> rfold (execute_write (pr_table p)) ws t = Inr t' \<and>
     log_tables (nd_log nd') (tbl_name (pr_table p)) = Some t' \<and>
     (\<forall>h. expected = Some h \<longrightarrow> h = read_head (db_content (nd_store nd)))"
proof -
  let ?l = "nd_log nd" and ?ts = "nd_clock nd (nd_ticks nd)"
  obtain st where st: "append_batch_inner (pl_externals ?l) (pl_registry ?l) (pl_config ?l) ?ts expected
      [request] (pl_store ?l) = (Inr seqs, st)" "pl_store (nd_log nd') = st"
    using assms(1) by (auto simp: log_append_inner_def set_store_def Let_def split: prod.splits)
  obtain s lam where s: "seqs = [s]" "s = seq_next (read_head (db_content (pl_store ?l)))"
      "apply_to_tables (pl_registry ?l) (event_of s lam ?ts request) (main_tables (db_content (pl_store ?l))) =
         Inr (main_tables (db_content st))"
      "\<forall>h. expected = Some h \<longrightarrow> h = read_head (db_content (pl_store ?l))"
    using single_append [OF st(1)] by blast
  have "distinct (table_names (pl_registry ?l))"
    using assms(2) by (simp add: log_sound_def)
  then obtain ws t' where "pr_apply p (event_of s lam ?ts request) = Inr ws"
      "rfold (execute_write (pr_table p)) ws t = Inr t'"
      "main_tables (db_content st) (tbl_name (pr_table p)) = Some t'"
    using apply_own_table [OF s(3) assms(3)] assms(4) by (auto simp: log_tables_def)
  with s st(2) show ?thesis
    by (intro exI [of _ "event_of s lam ?ts request"] exI [of _ ws] exI [of _ t'])
       (simp add: event_of_def log_tables_def nd_store_def)
qed

text \<open>The writes of a core projection for an event that was encoded from a domain event.\<close>

lemma apply_kinds_encoded:
  assumes "domain_codec_ok dc" "ev_kind ev = domain_kind_tag e" "ev_body ev = encode_body dc e"
  shows "apply_kinds dc tb kinds writes ev = Inr (if domain_kind_tag e \<in> set kinds then writes ev e else [])"
  using assms domain_decode_encode [OF assms(1), of e] by (simp add: apply_kinds_def decode_for_def)

lemma core_append:
  assumes "log_append_inner expected [request] nd = (Inr seqs, nd')" "log_sound (nd_log nd)"
    "p \<in> set (pl_registry (nd_log nd))" "log_tables (nd_log nd) (tbl_name (pr_table p)) = Some t"
    and "into_request dc e device actor = Inr request" "domain_codec_ok dc"
    and "pr_apply p = apply_kinds dc (pr_table p) kinds writes"
  shows "\<exists>ev t'. seqs = [ev_seq ev] \<and> ev_ts_ms ev = nd_clock nd (nd_ticks nd) \<and>
     ev_seq ev = seq_next (read_head (db_content (nd_store nd))) \<and>
     rfold (execute_write (pr_table p)) (if domain_kind_tag e \<in> set kinds then writes ev e else []) t = Inr t' \<and>
     log_tables (nd_log nd') (tbl_name (pr_table p)) = Some t' \<and>
     (\<forall>h. expected = Some h \<longrightarrow> h = read_head (db_content (nd_store nd)))"
proof -
  obtain ev ws t' where ev: "seqs = [ev_seq ev]" "ev_kind ev = ar_kind request" "ev_body ev = ar_body request"
     "ev_ts_ms ev = nd_clock nd (nd_ticks nd)" "ev_seq ev = seq_next (read_head (db_content (nd_store nd)))"
     "pr_apply p ev = Inr ws" "rfold (execute_write (pr_table p)) ws t = Inr t'"
     "log_tables (nd_log nd') (tbl_name (pr_table p)) = Some t'"
     "\<forall>h. expected = Some h \<longrightarrow> h = read_head (db_content (nd_store nd))"
    using log_append_ok [OF assms(1-4)] by blast
  have "ar_kind request = domain_kind_tag e" "ar_body request = encode_body dc e"
    using assms(5) by (auto simp: into_request_Inr)
  then have "ws = (if domain_kind_tag e \<in> set kinds then writes ev e else [])"
    using apply_kinds_encoded [OF assms(6), of ev e] ev(2,3,6) assms(7) by simp
  with ev show ?thesis by blast
qed

section \<open>Appends that must succeed\<close>

text \<open>
  A store with nothing in the way: live, no armed fault, a healthy disk; and a log that is not full
  and not about to write a snapshot.
\<close>

definition store_ready :: "'d project_db \<Rightarrow> bool" where
  "store_ready st \<longleftrightarrow> \<not> fail_stopped st \<and> \<not> writer_poisoned st \<and> db_faults st = None \<and> db_disk st = DiskOk"

definition log_room :: "'b project_log \<Rightarrow> bool" where
  "log_room l \<longleftrightarrow> int (Suc (length (log_events l))) \<le> i64_max \<and>
     \<not> is_multiple_of (seq_next (read_head (db_content (pl_store l)))) (snapshot_cadence_events (pl_config l))"

lemma execute_in_runs:
  assumes "rfold (execute_write tb) ws t = Inr t'" "ts (tbl_name tb) = Some t"
  shows "\<exists>ts'. rfold (\<lambda>w ts. map_err (Apply k s) (execute_in tb w ts)) ws ts = Inr ts'"
  using assms
proof (induction ws arbitrary: t ts)
  case (Cons w ws)
  then obtain u where u: "execute_write tb w t = Inr u" "rfold (execute_write tb) ws u = Inr t'"
    by (auto simp: rbind_Inr)
  obtain us where us: "execute_in tb w ts = Inr us" "us (tbl_name tb) = Some u"
    using u(1) Cons.prems(2) by (simp add: execute_in_def)
  then show ?case
    using Cons.IH [of u us] u(2) by simp
qed simp

lemma apply_all_runs:
  assumes "distinct (table_names reg)"
    "\<forall>q \<in> set reg. \<exists>ws t t'. pr_apply q ev = Inr ws \<and> ts (tbl_name (pr_table q)) = Some t \<and>
       rfold (execute_write (pr_table q)) ws t = Inr t'"
  shows "\<exists>ts'. apply_to_tables reg ev ts = Inr ts'"
  using assms
proof (induction reg arbitrary: ts)
  case (Cons q reg)
  obtain ws t t' where q: "pr_apply q ev = Inr ws" "ts (tbl_name (pr_table q)) = Some t"
      "rfold (execute_write (pr_table q)) ws t = Inr t'"
    using Cons.prems(2) by auto
  obtain us where us: "apply_projection q ev ts = Inr us"
    using execute_in_runs [where tb = "pr_table q" and ts = ts and ws = ws, OF q(3) q(2)] q(1)
    by (fastforce simp: apply_projection_def)
  have "us (tbl_name (pr_table p)) = ts (tbl_name (pr_table p))" if "p \<in> set reg" for p
  proof (rule apply_projection_frame [OF us])
    show "tbl_name (pr_table p) \<noteq> tbl_name (pr_table q)"
      using Cons.prems(1) that by (auto simp: table_names_def) (metis image_eqI)
  qed
  then obtain ts' where "apply_to_tables reg ev us = Inr ts'"
    using Cons.IH [of us] Cons.prems by (auto simp: table_names_def)
  with us show ?case by (simp add: apply_to_tables_def)
qed (simp add: apply_to_tables_def)

lemma append_runs:
  assumes "log_sound l" "store_ready (pl_store l)" "log_room l" "validate_requests (pl_externals l) [request] = Inr ()"
    "expected = None \<or> expected = Some (read_head (db_content (pl_store l)))"
    "\<And>s lam. \<exists>ts'. apply_to_tables (pl_registry l) (event_of s lam ts request) (log_tables l) = Inr ts'"
  shows "\<exists>s d. append_batch_inner (pl_externals l) (pl_registry l) (pl_config l) ts expected [request] (pl_store l) =
           (Inr [s], (pl_store l)\<lparr>db_content := d\<rparr>)"
proof -
  let ?db = "db_content (pl_store l)" and ?x = "pl_externals l" and ?reg = "pl_registry l"
  let ?s = "seq_next (read_head ?db)" and ?n = "length (events ?db)"
  obtain evs where core: "log_core ?x evs ?db" and head: "read_head ?db = word_of_nat ?n"
      and ap: "read_head ?db = read_applied_seq ?db"
    using assms(1) log_core_head log_inv_head by (fastforce simp: log_sound_def log_inv_def)
  obtain lam db1 where l: "next_device_lamport (ar_device request) ?db = (lam, db1)"
    by fastforce
  have db1: "events db1 = events ?db" "main_tables db1 = main_tables ?db"
    using l by (auto simp: next_device_lamport_def Let_def)
  have n: "int (Suc ?n) \<le> i64_max"
    using assms(3) by (simp add: log_room_def log_events_def)
  have "unat (word_of_nat ?n :: u64) = ?n"
    using n by (intro unat_word_of_nat_i64) simp
  then have s: "?s = word_of_nat (Suc ?n)"
    using n by (simp add: head seq_next_def saturating_add_def i64_max_def)
  have "sat_i64 ?s = int (Suc ?n)"
    using sat_i64_of_nat [OF n] s by simp
  moreover have "map_of (events ?db) (int (Suc ?n)) = None"
    using core contiguous_keys_le [of "events ?db" "int (Suc ?n)"]
    by (auto simp: log_core_def map_of_eq_None_iff)
  ultimately obtain db2 where ins: "insert_event ?x ?s lam ts request db1 = Inr db2"
      and db2: "main_tables db2 = main_tables ?db"
    using db1 by (simp add: insert_event_def)
  obtain ts' where tb: "apply_to_tables ?reg (event_of ?s lam ts request) (main_tables db2) = Inr ts'"
    using assms(6) db2 by (metis log_tables_def)
  have one: "append_one ?x ?reg (snapshot_cadence_events (pl_config l)) None ts request (read_head ?db, [], ?db) =
      Inr (?s, [?s], write_applied_seq ?s (db2\<lparr>main_tables := ts'\<rparr>))"
    using l ins tb assms(3)
    by (simp add: append_one_def log_room_def apply_event_def apply_event_to_schema_def event_of_def Let_def)
  have "append_transaction ?x ?reg (pl_config l) None ts expected [request] ?db =
      Inr ([?s], write_applied_seq ?s (db2\<lparr>main_tables := ts'\<rparr>))"
    using one ap assms(5) by (auto simp: append_transaction_def Let_def)
  then have "write_transaction StoreError log_panicked
      (append_transaction ?x ?reg (pl_config l) (db_faults (pl_store l)) ts expected [request]) (pl_store l) =
      (Inr [?s], (pl_store l)\<lparr>db_content := write_applied_seq ?s (db2\<lparr>main_tables := ts'\<rparr>)\<rparr>)"
    using assms(2) by (intro write_transaction_runs) (simp_all add: store_ready_def)
  then show ?thesis
    using assms(4) by (auto simp: append_batch_inner_def simp del: validate_requests.simps)
qed

lemma log_append_runs:
  assumes "log_sound (nd_log nd)" "store_ready (nd_store nd)" "log_room (nd_log nd)"
    "validate_request (pl_externals (nd_log nd)) request = Inr ()"
    "expected = None \<or> expected = Some (read_head (db_content (nd_store nd)))"
    "\<And>s lam. \<exists>ts'. apply_to_tables (pl_registry (nd_log nd))
       (event_of s lam (nd_clock nd (nd_ticks nd)) request) (log_tables (nd_log nd)) = Inr ts'"
  shows "\<exists>s nd'. log_append_inner expected [request] nd = (Inr [s], nd') \<and> store_ready (nd_store nd') \<and>
    (\<exists>d. nd' = set_store ((nd_store nd)\<lparr>db_content := d\<rparr>) (nd\<lparr>nd_ticks := Suc (nd_ticks nd)\<rparr>))"
proof -
  have v: "validate_requests (pl_externals (nd_log nd)) [request] = Inr ()"
    using assms(4) by simp
  obtain s d where "append_batch_inner (pl_externals (nd_log nd)) (pl_registry (nd_log nd)) (pl_config (nd_log nd))
      (nd_clock nd (nd_ticks nd)) expected [request] (pl_store (nd_log nd)) =
      (Inr [s], (pl_store (nd_log nd))\<lparr>db_content := d\<rparr>)"
    using append_runs [OF assms(1) _ assms(3) v, of expected "nd_clock nd (nd_ticks nd)"] assms(2,5,6)
    unfolding nd_store_def by blast
  then show ?thesis
    using assms(2) v
    by (intro exI [of _ s] exI)
       (auto simp: log_append_inner_def set_store_def nd_store_def store_ready_def Let_def simp del: validate_requests.simps)
qed

lemma append_inner_counts:
  assumes "log_append_inner expected requests nd = (Inr seqs, nd')" "log_sound (nd_log nd)" "clock_ok nd"
    "requests_ok requests" "requests \<noteq> []"
  shows "length (log_events (nd_log nd')) = length (log_events (nd_log nd)) + length requests" "log_sound (nd_log nd')"
proof -
  let ?l = "nd_log nd" and ?ts = "nd_clock nd (nd_ticks nd)"
  obtain st where st: "append_batch_inner (pl_externals ?l) (pl_registry ?l) (pl_config ?l) ?ts expected
      requests (pl_store ?l) = (Inr seqs, st)" "pl_store (nd_log nd') = st"
    using assms(1) by (auto simp: log_append_inner_def set_store_def Let_def split: prod.splits)
  have "write_transaction StoreError log_panicked (append_transaction (pl_externals ?l) (pl_registry ?l) (pl_config ?l)
      (db_faults (pl_store ?l)) ?ts expected requests) (pl_store ?l) = (Inr seqs, st)"
    using st(1) assms(5) by (cases "validate_requests (pl_externals ?l) requests")
      (simp_all add: append_batch_inner_def del: validate_requests.simps)
  note tx = write_transaction_ok [OF this, THEN conjunct1]
  have "uint ?ts \<le> i64_max"
    using assms(3) by (simp add: clock_ok_def)
  then show "length (log_events (nd_log nd')) = length (log_events (nd_log nd)) + length requests"
    using append_transaction_inv [OF tx] assms(2,4) st(2) by (auto simp: log_sound_def log_events_def)
  have "log_moves nd nd'"
    using append_moves [OF assms(4)] assms(1) unfolding oinv_def by (metis snd_conv)
  then show "log_sound (nd_log nd')"
    using log_moves_sound assms(2,3) by blast
qed

lemma log_append_counts:
  assumes "log_append request nd = (Inr s, nd')" "log_sound (nd_log nd)" "clock_ok nd" "valid_kind_tag (ar_kind request)"
  shows "length (log_events (nd_log nd')) = Suc (length (log_events (nd_log nd)))" "log_sound (nd_log nd')"
proof -
  obtain seqs where "log_append_inner None [request] nd = (Inr seqs, nd')"
    using assms(1) by (auto simp: log_append_def obind_def oret_def split: prod.splits sum.splits)
  from append_inner_counts [OF this assms(2,3)] assms(4)
  show "length (log_events (nd_log nd')) = Suc (length (log_events (nd_log nd)))" "log_sound (nd_log nd')"
    by (simp_all add: requests_ok_def)
qed

end
