(* ===== verification/Queue_Safety.thy ===== *)
theory Queue_Safety
  imports Queue Append_Effects
begin

text \<open>
  Safety of the job queue: every operation moves the log by steps of its own machine, a claim takes
  the best runnable job exactly once, an enqueued job is enqueued once for ever, and failed attempts
  are counted from durable facts.
\<close>

section \<open>Every operation moves the log by its own steps\<close>

lemma write_transaction_flags:
  assumes "write_transaction fs pk op db = (r, db')"
  shows "(fail_stopped db \<longrightarrow> fail_stopped db') \<and> (writer_poisoned db \<longrightarrow> writer_poisoned db')"
  using assms
  by (auto simp: write_transaction_def ensure_live_def commit_transaction_def
      split: if_splits sum.splits prod.splits store_error.splits disk.splits)

lemma set_handle_moves:
  assumes "fail_stopped (nd_store nd) \<longrightarrow> s" "writer_poisoned (nd_store nd) \<longrightarrow> p"
  shows "log_moves nd ((set_handle s p nd)\<lparr>sn_leases := ls\<rparr>)" "log_moves nd (set_handle s p nd)"
proof -
  have "log_step (nd_log nd) ((nd_log nd)\<lparr>pl_store := (pl_store (nd_log nd))\<lparr>fail_stopped := s, writer_poisoned := p\<rparr>\<rparr>)"
    using assms by (intro Shared) (simp_all add: nd_store_def)
  then show "log_moves nd ((set_handle s p nd)\<lparr>sn_leases := ls\<rparr>)" "log_moves nd (set_handle s p nd)"
    by (auto simp: log_moves_def set_handle_def set_store_def nd_store_def)
qed

lemma sched_fields_moves [simp]:
  "log_moves nd (nd\<lparr>sn_leases := ls\<rparr>)" "log_moves nd (nd\<lparr>sn_jitter := j\<rparr>)" "log_moves nd (nd\<lparr>sn_metrics := m\<rparr>)"
  by (simp_all add: log_moves_def)

lemma lease_writer_moves: "oinv log_moves (lease_writer ctx op)"
  unfolding oinv_def lease_writer_def Let_def
  by (auto simp: moves.R_refl intro!: set_handle_moves split: sum.split disk.split)

lemma lease_transaction_moves: "oinv log_moves (lease_transaction op)"
  unfolding oinv_def lease_transaction_def Let_def
  by (auto intro!: set_handle_moves dest!: write_transaction_flags split: prod.split)

lemma job_request_Inr:
  "job_request cfg dc job_id e =
     Inr \<lparr>ar_device = qc_device cfg, ar_actor = System job_id, ar_kind = domain_kind_tag e,
          ar_body = encode_body dc e, ar_refs = domain_refs e\<rparr>"
  by (simp add: job_request_def into_request_Inr)

lemma obind_oread_const [simp]: "obind (oread (\<lambda>_. Inr a)) f = f a"
  by (rule ext) (simp add: obind_def oread_def)

lemma oinv_case_option: "oinv R m \<Longrightarrow> (\<And>a. oinv R (f a)) \<Longrightarrow> oinv R (case x of None \<Rightarrow> m | Some a \<Rightarrow> f a)"
  by (cases x) simp_all

text \<open>
  A relation on nodes that every primitive step of the queue respects: a clock reading, a metric, a
  draw of jitter, an append, and the four ways the ledger is written. Every operation of the queue
  then respects it, whatever it returns.
\<close>

definition heartbeat_tx ::
  "queue_config \<Rightarrow> claimed_job \<Rightarrow> u64 \<Rightarrow> tables \<Rightarrow> leases option \<Rightarrow> sched_error + nat \<times> leases option" where
  "heartbeat_tx cfg job now = (\<lambda>_ leases.
     case leases of
       None \<Rightarrow> Inl (SchedStore (Sqlite ''heartbeat lease''))
     | Some ls \<Rightarrow>
         (case heartbeat_rows job now (saturating_add now (qc_lease_ttl_ms cfg)) ls of
            (changed, ls') \<Rightarrow> Inr (changed, Some ls')))"

locale queue_relation = op_relation R for R :: "'b sched_node \<Rightarrow> 'b sched_node \<Rightarrow> bool" +
  assumes R_now: "oinv R (now_ms :: ('b sched_node, sched_error, u64) op)"
    and R_metrics: "R nd (nd\<lparr>sn_metrics := m\<rparr>)"
    and R_jitter: "R nd (nd\<lparr>sn_jitter := j\<rparr>)"
    and R_append: "valid_kind_tag (ar_kind request) \<Longrightarrow> oinv R (log_append request)"
    and R_schema: "oinv R ensure_schema"
    and R_release: "oinv R (release_lease i)"
    and R_claim: "oinv R (lease_transaction (claim_tx project_id cls worker now expires))"
    and R_heartbeat: "oinv R (lease_transaction (heartbeat_tx cfg job now))"
begin

lemma R_upd_metrics: "oinv R (upd_metrics f)"
  unfolding upd_metrics_def by (rule oinv_omod) (rule R_metrics)

lemma R_draw_delay: "oinv R (draw_delay p a)"
  by (simp add: oinv_def draw_delay_def R_jitter split: prod.split)

lemma R_append_job_fact: "oinv R (append_job_fact cfg dc job_id e)"
  unfolding append_job_fact_def job_request_Inr obind_oread_const
  by (intro oinv_steps R_append) (simp add: domain_kind_tag_valid)

lemma R_enqueue_append:
  assumes "valid_kind_tag (ar_kind request)"
  shows "oinv R (enqueue_append job_id request)"
  unfolding oinv_def
proof
  fix nd :: "'b sched_node"
  have k: "oinv R (obind (upd_metrics record_enqueued) (\<lambda>_. oret (Enqueued job_id)))"
    "oinv R (obind (oread (sched_read_job job_id)) (\<lambda>existing.
       if existing \<noteq> None then duplicate_enqueue job_id else ofail (SchedLog (Apply kind seq source))))"
    for kind seq source
    unfolding duplicate_enqueue_def by (intro oinv_steps R_upd_metrics)+
  obtain r nd' where a: "log_append request nd = (r, nd')" by (cases "log_append request nd")
  then have m: "R nd nd'"
    using R_append [OF assms] unfolding oinv_def by (metis snd_conv)
  show "R nd (snd (enqueue_append job_id request nd))"
    unfolding enqueue_append_def a prod.case
    using m R_trans [OF m k(1) [unfolded oinv_def, rule_format]]
      R_trans [OF m k(2) [unfolded oinv_def, rule_format]]
    by (simp split: sum.split log_error.split)
qed

lemma R_append_failure: "oinv R (append_failure cfg dc attempt failure)"
  unfolding append_failure_def Let_def
  by (intro oinv_steps R_append_job_fact R_draw_delay)

lemmas R_steps =
  oinv_steps R_now R_upd_metrics R_release R_append_job_fact R_append_failure

lemma enqueue_R: "oinv R (enqueue cfg dc project_id spec)"
  unfolding enqueue_def duplicate_enqueue_def job_request_Inr obind_oread_const
  by (intro R_steps R_enqueue_append) (simp add: domain_kind_tag_valid)

lemma enqueue_request_R: "oinv R (enqueue_request cfg dc project_id spec)"
  unfolding enqueue_request_def by (intro R_steps)

lemma claim_R: "oinv R (claim cfg project_id cls worker)"
  unfolding claim_def by (intro R_steps R_claim oinv_case_option)

lemma heartbeat_R: "oinv R (heartbeat cfg job)"
  unfolding heartbeat_def heartbeat_tx_def [symmetric] by (intro R_steps R_heartbeat)

lemma complete_R: "oinv R (complete cfg dc job wall_ms)"
  unfolding complete_def by (intro R_steps)

lemma fail_job_R: "oinv R (fail_job cfg dc job failure wall_ms)"
  unfolding fail_job_def by (intro R_steps)

lemma supersede_R: "oinv R (supersede cfg dc job_id cron_id)"
  unfolding supersede_def by (intro R_steps oinv_case_option)

lemma reap_R: "oinv R (reap_expired_leases cfg dc)"
  unfolding reap_expired_leases_def reap_one_def by (intro R_steps oinv_case_option)

lemma live_state_R: "oinv R (live_state job_id)"
  unfolding live_state_def by (intro R_steps oinv_case_option)

lemma live_lease_job_ids_R: "oinv R live_lease_job_ids"
  unfolding live_lease_job_ids_def by (intro R_steps)

end

interpretation qlog: queue_relation "log_moves :: 'b sched_node \<Rightarrow> 'b sched_node \<Rightarrow> bool"
  by unfold_locales
     (simp_all add: now_moves append_one_moves lease_transaction_moves lease_writer_moves
       ensure_schema_def release_lease_def)

section \<open>Claims\<close>

lemma sort_key_head:
  assumes "sort_key f xs = y # ys"
  shows "y \<in> set xs \<and> (\<forall>x \<in> set xs. f y \<le> f x)"
proof -
  have "sorted (map f (y # ys))" "set (y # ys) = set xs"
    using sorted_sort_key [of f xs] set_sort [of f xs] assms by metis+
  then show ?thesis by auto
qed

lemma claimable_unleased:
  "claimable cls now ls ([CBlob (into_bytes i)], r) \<Longrightarrow> map_of ls (into_bytes i) = None"
  by (auto simp: claimable_def list_ex_iff map_of_eq_None_iff)

text \<open>The row of \<open>proj_jobs\<close> a job id names.\<close>

definition job_row_of :: "'b project_log \<Rightarrow> id16 \<Rightarrow> row option" where
  "job_row_of l i = (case log_tables l ''proj_jobs'' of None \<Rightarrow> None | Some t \<Rightarrow> map_of t [CBlob (into_bytes i)])"

lemma lease_transaction_ok:
  assumes "lease_transaction op nd = (Inr a, nd')"
  shows "op (log_tables (nd_log nd)) (sn_leases nd) = Inr (a, sn_leases nd')"
    "db_content (nd_store nd') = db_content (nd_store nd)" "sn_metrics nd' = sn_metrics nd"
    "\<not> fail_stopped (nd_store nd)"
  using assms
  by (auto simp: lease_transaction_def Let_def log_tables_def nd_store_def set_handle_def set_store_def
      split: prod.splits dest: write_transaction_ok)

lemma candidate_row_good:
  assumes "candidate_row ([CBlob (into_bytes i)], r) = Inr c"
  shows "cd_job_id c = i \<and> r ''job_kind'' = CText (cd_job_kind c) \<and>
    (\<exists>n. r ''attempt_count'' = CInteger n \<and> cd_attempt_count c = count_u32 n) \<and>
    (\<exists>n. r ''attempt_count_max'' = CInteger n \<and> cd_attempt_count_max c = count_u32 n)"
proof -
  have g: "get_i64 x = Inr n \<Longrightarrow> x = CInteger n" "get_text x = Inr s \<Longrightarrow> x = CText s" for x n s
    by (cases x; simp)+
  show ?thesis
    using assms
    by (auto simp: candidate_row_def Let_def rbind_Inr column_cell_def JOBS_TABLE_def dest!: g)
qed

lemma select_claimable_ok:
  assumes "select_claimable cls now (log_tables l) leases = Inr (Some c)" "log_sound l"
    "jobs_projection dc \<in> set (pl_registry l)"
  shows "\<exists>ls t r. leases = Some ls \<and> log_tables l ''proj_jobs'' = Some t \<and>
    map_of t [CBlob (into_bytes (cd_job_id c))] = Some r \<and>
    claimable cls now ls ([CBlob (into_bytes (cd_job_id c))], r) \<and>
    candidate_row ([CBlob (into_bytes (cd_job_id c))], r) = Inr c \<and>
    (\<forall>kr \<in> set t. claimable cls now ls kr \<longrightarrow>
       claim_order ([CBlob (into_bytes (cd_job_id c))], r) \<le> claim_order kr)"
proof -
  obtain t where t: "log_tables l ''proj_jobs'' = Some t" "table_wf JOBS_TABLE t" "rows_good job_good t"
    using jobs_table_of [OF assms(2,3)] by (auto simp: log_tables_def)
  have rows: "table_rows JOBS_TABLE (log_tables l) = Inr t"
    using t(1) by (simp add: table_rows_def JOBS_TABLE_def)
  obtain ls k r krs where ls: "leases = Some ls" "candidate_row (k, r) = Inr c"
      "sort_key claim_order (filter (claimable cls now ls) t) = (k, r) # krs"
    using assms(1) rows
    by (auto simp: select_claimable_def rbind_Inr split: option.splits list.splits)
  note h = sort_key_head [OF ls(3)]
  then have mem: "(k, r) \<in> set t" "claimable cls now ls (k, r)"
    by auto
  then have "job_good k r"
    using rows_in_table t by blast
  then obtain i where i: "k = [CBlob (into_bytes i)]"
    using job_good_key by blast
  have "cd_job_id c = i"
    using candidate_row_good ls(2) i by blast
  moreover have "map_of t k = Some r"
    using mem(1) t(2) tbl_sorted_map_of [of t k r] by (simp add: table_wf_def)
  moreover have "\<forall>kr \<in> set t. claimable cls now ls kr \<longrightarrow> claim_order (k, r) \<le> claim_order kr"
    using h by auto
  ultimately show ?thesis
    using t(1) ls mem i by blast
qed

lemma claim_ok:
  assumes "claim cfg project_id cls worker nd = (Inr (Some job), nd')" "log_sound (nd_log nd)"
    "jobs_projection dc \<in> set (pl_registry (nd_log nd))"
  shows "\<exists>ls t r n. sn_leases nd = Some ls \<and> log_tables (nd_log nd) ''proj_jobs'' = Some t \<and>
    map_of t [CBlob (into_bytes (cj_job_id job))] = Some r \<and>
    claimable cls (nd_clock nd (nd_ticks nd)) ls ([CBlob (into_bytes (cj_job_id job))], r) \<and>
    (\<forall>kr \<in> set t. claimable cls (nd_clock nd (nd_ticks nd)) ls kr \<longrightarrow>
       claim_order ([CBlob (into_bytes (cj_job_id job))], r) \<le> claim_order kr) \<and>
    r ''attempt_count'' = CInteger n \<and> cj_attempt_index job = saturating_add (count_u32 n) 1 \<and>
    sn_leases nd' = Some (tbl_put (into_bytes (cj_job_id job))
      \<lparr>lr_worker = worker, lr_attempt_index = uint (cj_attempt_index job),
       lr_claimed_ts_ms = sat_i64 (nd_clock nd (nd_ticks nd)),
       lr_heartbeat_ts_ms = sat_i64 (nd_clock nd (nd_ticks nd)),
       lr_expires_ts_ms = sat_i64 (saturating_add (nd_clock nd (nd_ticks nd)) (qc_lease_ttl_ms cfg))\<rparr> ls) \<and>
    db_content (nd_store nd') = db_content (nd_store nd)"
proof -
  let ?now = "nd_clock nd (nd_ticks nd)" and ?nd1 = "nd\<lparr>nd_ticks := Suc (nd_ticks nd)\<rparr>"
  obtain nd2 where tx: "lease_transaction (claim_tx project_id cls worker ?now
        (saturating_add ?now (qc_lease_ttl_ms cfg))) ?nd1 = (Inr (Some job), nd2)"
      and nd': "nd' = nd2\<lparr>sn_metrics := record_claim (cj_claim_latency_ms job) (sn_metrics nd2)\<rparr>"
    using assms(1)
    by (auto simp: claim_def obind_def now_ms_def oret_def upd_metrics_def omod_def
        split: prod.splits sum.splits option.splits)
  note ok = lease_transaction_ok [OF tx]
  obtain c where c: "select_claimable cls ?now (log_tables (nd_log nd)) (sn_leases nd) = Inr (Some c)"
      and ins: "insert_lease (cd_job_id c) worker (saturating_add (cd_attempt_count c) 1) ?now
        (saturating_add ?now (qc_lease_ttl_ms cfg)) (sn_leases nd) = Inr (sn_leases nd2)"
      and job: "cj_job_id job = cd_job_id c" "cj_attempt_index job = saturating_add (cd_attempt_count c) 1"
    using ok(1) by (auto simp: claim_tx_def rbind_Inr Let_def split: option.splits)
  obtain ls t r where s: "sn_leases nd = Some ls" "log_tables (nd_log nd) ''proj_jobs'' = Some t"
      "map_of t [CBlob (into_bytes (cd_job_id c))] = Some r"
      "claimable cls ?now ls ([CBlob (into_bytes (cd_job_id c))], r)"
      "candidate_row ([CBlob (into_bytes (cd_job_id c))], r) = Inr c"
      "\<forall>kr \<in> set t. claimable cls ?now ls kr \<longrightarrow>
         claim_order ([CBlob (into_bytes (cd_job_id c))], r) \<le> claim_order kr"
    using select_claimable_ok [OF c assms(2,3)] by blast
  obtain n where n: "r ''attempt_count'' = CInteger n" "cd_attempt_count c = count_u32 n"
    using candidate_row_good [OF s(5)] by blast
  have "sn_leases nd2 = Some (tbl_put (into_bytes (cd_job_id c))
      \<lparr>lr_worker = worker, lr_attempt_index = uint (saturating_add (cd_attempt_count c) 1),
       lr_claimed_ts_ms = sat_i64 ?now, lr_heartbeat_ts_ms = sat_i64 ?now,
       lr_expires_ts_ms = sat_i64 (saturating_add ?now (qc_lease_ttl_ms cfg))\<rparr> ls)"
    using ins s(1) claimable_unleased [OF s(4)] by (simp add: insert_lease_def)
  moreover have "db_content (nd_store nd') = db_content (nd_store nd)"
    using ok(2) nd' by (simp add: nd_store_def)
  ultimately show ?thesis
    using s n job nd' by simp
qed

section \<open>Enqueue exactly once\<close>

lemma jobs_name [simp]:
  "tbl_name JOBS_TABLE = ''proj_jobs''" "pr_table (jobs_projection dc) = JOBS_TABLE"
  by (simp_all add: JOBS_TABLE_def jobs_projection_def)

lemma jobs_apply: "pr_apply (jobs_projection dc) = apply_kinds dc JOBS_TABLE
    [''JobEnqueued'', ''JobAttemptFailed'', ''JobCompleted'', ''JobDead''] jobs_writes"
  by (simp add: jobs_projection_def apply_jobs_def)

text \<open>A successful append of a job fact: the writes of the jobs projection, run on \<open>proj_jobs\<close>.\<close>

lemma job_fact_effect:
  assumes "log_append (request :: 'b append_request) nd = (Inr s, nd')"
    "job_request cfg dc job_id e = Inr request" "log_sound (nd_log nd)" "jobs_projection dc \<in> set (pl_registry (nd_log nd))" "domain_codec_ok dc"
    "log_tables (nd_log nd) ''proj_jobs'' = Some t"
    "domain_kind_tag e \<in> {''JobEnqueued'', ''JobAttemptFailed'', ''JobCompleted'', ''JobDead''}"
  shows "\<exists>(ev :: 'b event) t'. ev_ts_ms ev = nd_clock nd (nd_ticks nd) \<and>
     rfold (execute_write JOBS_TABLE) (jobs_writes ev e) t = Inr t' \<and>
     log_tables (nd_log nd') ''proj_jobs'' = Some t'"
proof -
  obtain seqs where a: "log_append_inner None [request] nd = (Inr seqs, nd')"
    using assms(1) by (auto simp: log_append_def obind_def oret_def split: prod.splits sum.splits)
  have req: "into_request dc e (qc_device cfg) (System job_id) = Inr request"
    using assms(2) by (simp add: job_request_def)
  show ?thesis
    using core_append [OF a assms(3,4) _ req assms(5) jobs_apply [of dc, folded jobs_name(2) [of dc]], of t]
      assms(6,7) by auto
qed

lemma sched_read_job_row:
  assumes "log_sound (nd_log nd)" "jobs_projection dc \<in> set (pl_registry (nd_log nd))"
    "\<not> fail_stopped (nd_store nd)"
  shows "case job_row_of (nd_log nd) i of
           None \<Rightarrow> sched_read_job i nd = Inr None
         | Some r \<Rightarrow> \<exists>j. sched_read_job i nd = Inr (Some j) \<and> jr_job_id j = i \<and> job_view r j"
proof -
  obtain t where "log_tables (nd_log nd) ''proj_jobs'' = Some t"
    using jobs_table_of [OF assms(1,2)] by (auto simp: log_tables_def)
  then show ?thesis
    using read_job_sound [OF assms(1,2), of t i] assms(3)
    by (auto simp: job_row_of_def sched_read_job_def log_tables_def nd_store_def split: option.splits)
qed

lemma sched_read_live: "sched_read_job i nd = Inr oj \<Longrightarrow> \<not> fail_stopped (nd_store nd)"
  by (auto simp: sched_read_job_def read_job_def nd_store_def rbind_Inr)

definition spec_row :: "id16 \<Rightarrow> job_spec \<Rightarrow> 'b event \<Rightarrow> row" where
  "spec_row project_id spec ev =
     row_of (value_columns JOBS_TABLE)
       (job_row_values (id_blob project_id) (js_kind spec) (js_idempotency_key spec) (js_priority spec)
          (js_class spec) (js_payload spec) ev (js_run_at_ts_ms spec) (js_retry_count_max spec)
          (optional_id_blob (map_option co_cron_id (js_cron spec))))"

lemma enqueue_appends:
  assumes "enqueue cfg (dc :: 'b domain_codec) project_id spec nd = (Inr (Enqueued i), nd')"
  obtains request s nd1 where "job_spec_validate spec = Inr ()" "sched_read_job i nd = Inr None"
    "job_request cfg dc i (enqueued_event i project_id spec) = Inr request"
    "log_append request nd = (Inr s, nd1)" "nd' = nd1\<lparr>sn_metrics := record_enqueued (sn_metrics nd1)\<rparr>"
    "i = spec_job_id project_id spec nd"
proof -
  let ?i = "spec_job_id project_id spec nd"
  let ?e = "enqueued_event ?i project_id spec"
  obtain request where v: "job_spec_validate spec = Inr ()" and rd: "sched_read_job ?i nd = Inr None"
      and req: "job_request cfg dc ?i ?e = Inr request"
      and ap: "enqueue_append ?i request nd = (Inr (Enqueued i), nd')"
    using assms(1) unfolding enqueue_def duplicate_enqueue_def
    by (auto simp: obind_def oread_def oget_def oret_def upd_metrics_def omod_def job_request_Inr
        split: sum.splits if_splits option.splits)
  obtain s nd1 where app: "log_append request nd = (Inr s, nd1)"
      and nd': "nd' = nd1\<lparr>sn_metrics := record_enqueued (sn_metrics nd1)\<rparr>" and i: "i = ?i"
    using ap
    by (auto simp: enqueue_append_def duplicate_enqueue_def obind_def oread_def oret_def upd_metrics_def
        omod_def ofail_def split: prod.splits sum.splits log_error.splits if_splits option.splits)
  show thesis
    using that v rd req app nd' i by blast
qed

lemma enqueue_new:
  assumes "enqueue cfg (dc :: 'b domain_codec) project_id spec nd = (Inr (Enqueued i), nd')"
    "log_sound (nd_log nd)" "jobs_projection dc \<in> set (pl_registry (nd_log nd))" "domain_codec_ok dc"
  shows "i = spec_job_id project_id spec nd \<and> job_spec_validate spec = Inr () \<and>
    job_row_of (nd_log nd) i = None \<and>
    (\<exists>ev :: 'b event. job_row_of (nd_log nd') i = Some (spec_row project_id spec ev)) \<and>
    (\<forall>j. j \<noteq> i \<longrightarrow> job_row_of (nd_log nd') j = job_row_of (nd_log nd) j)"
proof -
  let ?i = "spec_job_id project_id spec nd"
  let ?e = "enqueued_event ?i project_id spec"
  obtain request s nd1 where v: "job_spec_validate spec = Inr ()" and rd: "sched_read_job ?i nd = Inr None"
      and req: "job_request cfg dc ?i ?e = Inr request" and app: "log_append request nd = (Inr s, nd1)"
      and nd': "nd' = nd1\<lparr>sn_metrics := record_enqueued (sn_metrics nd1)\<rparr>" and i: "i = ?i"
    using enqueue_appends [OF assms(1)] by metis
  have none: "job_row_of (nd_log nd) ?i = None"
    using sched_read_job_row [OF assms(2,3) sched_read_live [OF rd], of ?i] rd by (auto split: option.splits)
  obtain t where t: "log_tables (nd_log nd) ''proj_jobs'' = Some t"
    using jobs_table_of [OF assms(2,3)] by (auto simp: log_tables_def)
  obtain ev :: "'b event" and t' where ev: "rfold (execute_write JOBS_TABLE) (jobs_writes ev ?e) t = Inr t'"
      "log_tables (nd_log nd1) ''proj_jobs'' = Some t'"
    using job_fact_effect [OF app req assms(2-4) t] by (auto simp: enqueued_event_def)
  have put: "t' = tbl_put [CBlob (into_bytes ?i)] (spec_row project_id spec ev) t"
    using ev(1)
    by (auto simp: jobs_writes_def enqueued_event_def spec_row_def rbind_Inr execute_insert_Inr bind_values_def
        simp del: execute_write.simps)
  have "job_row_of (nd_log nd') ?i = Some (spec_row project_id spec ev)"
      "\<forall>j. j \<noteq> ?i \<longrightarrow> job_row_of (nd_log nd') j = job_row_of (nd_log nd) j"
    using ev(2) nd' t put by (simp_all add: job_row_of_def)
  with v none i show ?thesis by blast
qed

lemma job_row_persists:
  assumes "log_step\<^sup>*\<^sup>* l l'" "log_sound l" "jobs_projection dc \<in> set (pl_registry l)" "job_row_of l i = Some r"
  shows "\<exists>r'. job_row_of l' i = Some r' \<and> job_le [CBlob (into_bytes i)] r r'"
proof -
  obtain t where t: "log_tables l ''proj_jobs'' = Some t" "map_of t [CBlob (into_bytes i)] = Some r"
    using assms(4) by (auto simp: job_row_of_def split: option.splits)
  obtain t' r' where "log_tables l' ''proj_jobs'' = Some t'" "map_of t' [CBlob (into_bytes i)] = Some r'"
      "job_le [CBlob (into_bytes i)] r r'"
    using jobs_mono.row_persists [OF assms(1-3), of t "[CBlob (into_bytes i)]" r] t by auto
  then show ?thesis by (simp add: job_row_of_def)
qed

lemma log_steps_parts:
  "log_step\<^sup>*\<^sup>* l l' \<Longrightarrow> pl_externals l' = pl_externals l \<and> pl_registry l' = pl_registry l \<and> pl_config l' = pl_config l"
  by (induction rule: rtranclp_induct) (auto elim: log_step.cases)

lemma enqueue_existing:
  assumes "log_sound (nd_log nd)" "jobs_projection dc \<in> set (pl_registry (nd_log nd))"
    "\<not> fail_stopped (nd_store nd)" "job_spec_validate spec = Inr ()"
    "job_row_of (nd_log nd) (spec_job_id project_id spec nd) = Some r"
  shows "enqueue cfg dc project_id spec nd =
    (Inr (Duplicate (spec_job_id project_id spec nd)),
     nd\<lparr>sn_metrics := record_duplicate_enqueue (sn_metrics nd)\<rparr>)"
proof -
  obtain j where "sched_read_job (spec_job_id project_id spec nd) nd = Inr (Some j)"
    using sched_read_job_row [OF assms(1-3), of "spec_job_id project_id spec nd"] assms(5) by auto
  then show ?thesis
    using assms(4)
    by (simp add: enqueue_def duplicate_enqueue_def obind_def oread_def oget_def oret_def upd_metrics_def omod_def)
qed

section \<open>Failed attempts\<close>

lemma append_job_fact_ok:
  assumes "append_job_fact cfg dc job_id e nd = (Inr u, nd')"
  shows "\<exists>request s. job_request cfg dc job_id e = Inr request \<and> log_append request nd = (Inr s, nd')"
  using assms
  by (auto simp: append_job_fact_def job_request_Inr obind_def oerr_def oret_def split: prod.splits sum.splits)

text \<open>A strict update of the job's row by one fact.\<close>

lemma job_update_effect:
  assumes "append_job_fact cfg dc job_id e nd = (Inr u, nd')" "log_sound (nd_log nd)"
    "jobs_projection (dc :: 'b domain_codec) \<in> set (pl_registry (nd_log nd))" "domain_codec_ok dc"
    "domain_kind_tag e \<in> {''JobAttemptFailed'', ''JobCompleted'', ''JobDead''}"
    "\<And>ev :: 'b event. jobs_writes ev e = [UpdateOne [id_blob job_id] (assigns ev)]"
  shows "\<exists>r (ev :: 'b event). job_row_of (nd_log nd) job_id = Some r \<and>
    job_row_of (nd_log nd') job_id = Some (assign_row (assigns ev) r)"
proof -
  obtain request s where a: "job_request cfg dc job_id e = Inr request" "log_append request nd = (Inr s, nd')"
    using append_job_fact_ok [OF assms(1)] by blast
  obtain t where t: "log_tables (nd_log nd) ''proj_jobs'' = Some t"
    using jobs_table_of [OF assms(2,3)] by (auto simp: log_tables_def)
  obtain ev :: "'b event" and t' where
      ev: "rfold (execute_write JOBS_TABLE) (jobs_writes ev e) t = Inr t'"
      "log_tables (nd_log nd') ''proj_jobs'' = Some t'"
    using job_fact_effect [OF a(2,1) assms(2-4) t] assms(5) by auto
  then obtain r where r: "map_of t [CBlob (into_bytes job_id)] = Some r"
      "t' = tbl_put [CBlob (into_bytes job_id)] (assign_row (assigns ev) r) t"
    by (auto simp: assms(6) rbind_Inr execute_update_one_Inr bind_values_def simp del: execute_write.simps)
  with t ev(2) show ?thesis
    by (intro exI [of _ r] exI [of _ ev]) (simp add: job_row_of_def)
qed

lemma draw_delay_ok:
  "draw_delay p a nd = (Inr d, nd') \<Longrightarrow> d \<le> window_ms p a \<and> nd_log nd' = nd_log nd"
  using jitter.sample_window [of "window_ms p a" "sn_jitter nd"]
  by (auto simp: draw_delay_def delay_ms_def split: prod.splits)

lemma failed_writes:
  "jobs_writes ev (JobAttemptFailed (JobAttemptFailedV1 i a c d at)) =
     [UpdateOne [id_blob i] [(''attempt_count'', integer_u32 a), (''last_error_code'', Text c),
       (''last_error_detail'', Text d), (''run_at_ts_ms'', integer_u64 at)]]"
  by (simp add: jobs_writes_def)

lemma dead_writes:
  "jobs_writes ev (JobDead (JobDeadV1 i a reason)) =
     [UpdateOne [id_blob i] [(''state'', Text JOB_STATE_DEAD), (''terminal_seq'', seq_value ev),
       (''attempt_count'', integer_u32 a), (''dead_reason_code'', Text (dead_reason_code reason)),
       (''dead_reason_detail'', Text (dead_detail reason))]]"
  by (simp add: jobs_writes_def)

lemma append_failure_ok:
  assumes "append_failure cfg dc attempt failure nd = (Inr outcome, nd')" "log_sound (nd_log nd)"
    "jobs_projection (dc :: 'b domain_codec) \<in> set (pl_registry (nd_log nd))" "domain_codec_ok dc"
  shows "\<exists>r r'. job_row_of (nd_log nd) (fa_job_id attempt) = Some r \<and>
    job_row_of (nd_log nd') (fa_job_id attempt) = Some r' \<and>
    r' ''attempt_count'' = CInteger (uint (fa_attempt_index attempt)) \<and>
    (case outcome of
       OutcomeDead \<Rightarrow> (jx_permanent failure \<or> fa_attempt_index attempt > fa_retry_count_max attempt) \<and>
         r' ''state'' = CText JOB_STATE_DEAD \<and>
         r' ''dead_reason_code'' = CText (if jx_permanent failure then ''refused'' else ''retries_exhausted'')
     | OutcomeRetrying at \<Rightarrow> \<not> jx_permanent failure \<and> fa_attempt_index attempt \<le> fa_retry_count_max attempt \<and>
         r' ''state'' = r ''state'' \<and> r' ''run_at_ts_ms'' = CInteger (sat_i64 at) \<and>
         fa_now_ms attempt \<le> at \<and>
         at \<le> saturating_add (fa_now_ms attempt) (window_ms (qc_backoff cfg) (fa_attempt_index attempt)))"
proof (cases "jx_permanent failure \<or> fa_attempt_index attempt > fa_retry_count_max attempt")
  case True
  let ?reason = "if jx_permanent failure then Refused (jx_code failure) else RetriesExhausted (jx_code failure)"
  let ?e = "JobDead (JobDeadV1 (fa_job_id attempt) (fa_attempt_index attempt) ?reason)"
  have out: "outcome = OutcomeDead" and f: "append_job_fact cfg dc (fa_job_id attempt) ?e nd = (Inr (), nd')"
    using assms(1) True by (auto simp: append_failure_def Let_def obind_def oret_def split: prod.splits sum.splits)
  obtain r :: row and ev :: "'b event" where
      "job_row_of (nd_log nd) (fa_job_id attempt) = Some r"
      "job_row_of (nd_log nd') (fa_job_id attempt) = Some (assign_row
         [(''state'', Text JOB_STATE_DEAD), (''terminal_seq'', seq_value ev),
          (''attempt_count'', integer_u32 (fa_attempt_index attempt)),
          (''dead_reason_code'', Text (dead_reason_code ?reason)), (''dead_reason_detail'', Text (dead_detail ?reason))] r)"
    using job_update_effect [OF f assms(2-4) _ dead_writes] by auto
  with out True show ?thesis by auto
next
  case False
  obtain d nd1 where d: "draw_delay (qc_backoff cfg) (fa_attempt_index attempt) nd = (Inr d, nd1)"
    by (cases "draw_delay (qc_backoff cfg) (fa_attempt_index attempt) nd")
       (auto simp: draw_delay_def split: prod.splits)
  let ?at = "saturating_add (fa_now_ms attempt) d"
  let ?e = "JobAttemptFailed (JobAttemptFailedV1 (fa_job_id attempt) (fa_attempt_index attempt)
      (jx_code failure) (jx_detail failure) ?at)"
  have out: "outcome = OutcomeRetrying ?at" and f: "append_job_fact cfg dc (fa_job_id attempt) ?e nd1 = (Inr (), nd')"
    using assms(1) False d by (auto simp: append_failure_def Let_def obind_def oret_def split: prod.splits sum.splits)
  note dd = draw_delay_ok [OF d]
  obtain r :: row where
      "job_row_of (nd_log nd) (fa_job_id attempt) = Some r"
      "job_row_of (nd_log nd') (fa_job_id attempt) = Some (assign_row
         [(''attempt_count'', integer_u32 (fa_attempt_index attempt)), (''last_error_code'', Text (jx_code failure)),
          (''last_error_detail'', Text (jx_detail failure)), (''run_at_ts_ms'', integer_u64 ?at)] r)"
    using job_update_effect [OF f _ _ assms(4) _ failed_writes] dd assms(2,3) by auto
  moreover have "fa_now_ms attempt \<le> ?at"
      "?at \<le> saturating_add (fa_now_ms attempt) (window_ms (qc_backoff cfg) (fa_attempt_index attempt))"
    using dd saturating_add_ge saturating_add_mono by blast+
  ultimately show ?thesis using out False by auto
qed

end
