(* ===== verification/Queue_Live.thy ===== *)
theory Queue_Live
  imports Queue_Safety
begin

text \<open>
  Progress of the queue: on a project whose store is ready and whose registry holds the core
  projections, the appends of the queue cannot be refused, so its operations return a result.
\<close>

section \<open>Appends of scheduler facts\<close>

text \<open>The row of \<open>proj_crons\<close> a cron id names.\<close>

definition cron_row_of :: "'b project_log \<Rightarrow> id16 \<Rightarrow> row option" where
  "cron_row_of l i = (case log_tables l ''proj_crons'' of None \<Rightarrow> None | Some t \<Rightarrow> map_of t [CBlob (into_bytes i)])"

lemma execute_none [simp]: "rfold (execute_write tb) [] t = Inr t"
  by simp

text \<open>
  A fact of the scheduler touches \<open>proj_jobs\<close> and \<open>proj_crons\<close>; every other core projection ignores
  it.
\<close>

definition job_kinds :: "kind_tag list" where
  "job_kinds = [''JobEnqueued'', ''JobAttemptFailed'', ''JobCompleted'', ''JobDead'']"

definition sched_kinds :: "kind_tag list" where
  "sched_kinds = job_kinds @ [''CronRegistered'', ''CronEnablementSet'']"

lemma sched_writes_nil:
  "domain_kind_tag e \<notin> set job_kinds \<Longrightarrow> jobs_writes ev e = []"
  "domain_kind_tag e \<notin> {''CronRegistered'', ''CronEnablementSet'', ''JobEnqueued''} \<Longrightarrow> crons_writes ev e = []"
  by (cases e; simp add: job_kinds_def jobs_writes_def crons_writes_def)+

lemma core_names:
  "tbl_name AUDIT_TABLE = ''proj_audit''" "tbl_name CRONS_TABLE = ''proj_crons''" "tbl_name JOBS_TABLE = ''proj_jobs''"
  "tbl_name MODEL_CALLS_TABLE = ''proj_model_calls''" "tbl_name PROJECTS_TABLE = ''proj_projects''"
  "tbl_name RUN_STEPS_TABLE = ''proj_run_steps''" "tbl_name RUN_TOOL_GRANTS_TABLE = ''proj_run_tool_grants''"
  "tbl_name RUNS_TABLE = ''proj_runs''"
  by (simp_all add: table_defs)

lemma other_tables:
  assumes "tb \<in> {AUDIT_TABLE, MODEL_CALLS_TABLE, PROJECTS_TABLE, RUN_STEPS_TABLE, RUN_TOOL_GRANTS_TABLE, RUNS_TABLE}"
  shows "tb \<noteq> JOBS_TABLE" "tb \<noteq> CRONS_TABLE"
proof -
  have "tbl_name tb \<noteq> tbl_name JOBS_TABLE" "tbl_name tb \<noteq> tbl_name CRONS_TABLE"
    using assms by (auto simp: core_names)
  then show "tb \<noteq> JOBS_TABLE" "tb \<noteq> CRONS_TABLE" by auto
qed

lemma crons_not_jobs: "CRONS_TABLE \<noteq> JOBS_TABLE"
proof -
  have "tbl_name CRONS_TABLE \<noteq> tbl_name JOBS_TABLE" by (simp add: core_names)
  then show ?thesis by metis
qed

lemma core_apply_sched:
  assumes "domain_codec_ok dc" "domain_kind_tag e \<in> set sched_kinds"
    "ev_kind ev = domain_kind_tag e" "ev_body ev = encode_body dc e" "q \<in> set (core_registry dc)"
  shows "pr_apply q ev = Inr (if pr_table q = JOBS_TABLE then jobs_writes ev e
    else if pr_table q = CRONS_TABLE then crons_writes ev e else [])"
proof -
  have k: "domain_kind_tag e \<notin> set runs_kinds" "domain_kind_tag e \<noteq> ''ProjectCreated''"
    using assms(2) by (auto simp: sched_kinds_def job_kinds_def runs_kinds_def)
  note enc = apply_kinds_encoded [OF assms(1,3,4)]
  have j: "apply_jobs dc ev = Inr (jobs_writes ev e)" "apply_crons dc ev = Inr (crons_writes ev e)"
    using sched_writes_nil [of e ev] by (auto simp: core_applies enc job_kinds_def)
  have o: "apply_audit dc ev = Inr []" "apply_model_calls dc ev = Inr []" "apply_projects dc ev = Inr []"
      "apply_run_steps dc ev = Inr []" "apply_run_tool_grants dc ev = Inr []" "apply_runs dc ev = Inr []"
    using assms(2) k by (auto simp: core_applies enc sched_kinds_def job_kinds_def)
  show ?thesis
    using assms(5) by (auto simp: core_registry_def j o other_tables crons_not_jobs crons_not_jobs [symmetric])
qed

lemma core_apply_runs:
  assumes "log_sound l" "pl_registry l = core_registry dc" "domain_codec_ok dc"
    "domain_kind_tag e \<in> set sched_kinds" "ev_kind ev = domain_kind_tag e" "ev_body ev = encode_body dc e"
    "log_tables l ''proj_jobs'' = Some t" "\<exists>t'. rfold (execute_write JOBS_TABLE) (jobs_writes ev e) t = Inr t'"
    "log_tables l ''proj_crons'' = Some u" "\<exists>u'. rfold (execute_write CRONS_TABLE) (crons_writes ev e) u = Inr u'"
  shows "\<exists>ts'. apply_to_tables (pl_registry l) ev (log_tables l) = Inr ts'"
proof (rule apply_all_runs)
  show "distinct (table_names (pl_registry l))"
    using assms(1) by (simp add: log_sound_def)
  have n: "tbl_name CRONS_TABLE = ''proj_crons''"
    by (simp add: CRONS_TABLE_def)
  show "\<forall>q \<in> set (pl_registry l). \<exists>ws t t'. pr_apply q ev = Inr ws \<and>
      log_tables l (tbl_name (pr_table q)) = Some t \<and> rfold (execute_write (pr_table q)) ws t = Inr t'"
  proof
    fix q assume q: "q \<in> set (pl_registry l)"
    obtain v where v: "log_tables l (tbl_name (pr_table q)) = Some v"
      using sound_tables_wf [OF assms(1)] q by (auto simp: tables_wf_def)
    show "\<exists>ws t t'. pr_apply q ev = Inr ws \<and>
        log_tables l (tbl_name (pr_table q)) = Some t \<and> rfold (execute_write (pr_table q)) ws t = Inr t'"
      using core_apply_sched [OF assms(3-6), of q] q assms(2,7-10) v n
      by (cases "pr_table q = JOBS_TABLE"; cases "pr_table q = CRONS_TABLE") auto
  qed
qed

text \<open>The node can take one more event with this body.\<close>

definition node_ready :: "'b domain_codec \<Rightarrow> ('b, 'z) node_scheme \<Rightarrow> bool" where
  "node_ready dc nd \<longleftrightarrow> log_sound (nd_log nd) \<and> store_ready (nd_store nd) \<and> log_room (nd_log nd) \<and>
     domain_codec_ok dc \<and> pl_registry (nd_log nd) = core_registry dc"

definition body_fits :: "'b domain_codec \<Rightarrow> ('b, 'z) node_scheme \<Rightarrow> domain_event \<Rightarrow> bool" where
  "body_fits dc nd e \<longleftrightarrow> body_len (pl_externals (nd_log nd)) (encode_body dc e) \<le> EVENT_BODY_LEN_MAX \<and>
     length (domain_refs e) \<le> EVENT_REFS_COUNT_MAX"

lemma sched_append_runs:
  assumes "node_ready (dc :: 'b domain_codec) nd" "body_fits dc nd e" "job_request cfg dc job_id e = Inr request"
    "domain_kind_tag e \<in> set sched_kinds"
    "log_tables (nd_log nd) ''proj_jobs'' = Some t"
    "\<And>ev. \<exists>t'. rfold (execute_write JOBS_TABLE) (jobs_writes (ev :: 'b event) e) t = Inr t'"
    "log_tables (nd_log nd) ''proj_crons'' = Some u"
    "\<And>ev. \<exists>u'. rfold (execute_write CRONS_TABLE) (crons_writes (ev :: 'b event) e) u = Inr u'"
  shows "\<exists>s nd'. log_append request nd = (Inr s, nd') \<and> store_ready (nd_store nd') \<and>
    (\<exists>d. nd' = set_store ((nd_store nd)\<lparr>db_content := d\<rparr>) (nd\<lparr>nd_ticks := Suc (nd_ticks nd)\<rparr>))"
proof -
  have req: "ar_kind request = domain_kind_tag e" "ar_body request = encode_body dc e" "ar_refs request = domain_refs e"
    using assms(3) by (auto simp: job_request_Inr)
  have "\<exists>ts'. apply_to_tables (pl_registry (nd_log nd))
       (event_of s lam (nd_clock nd (nd_ticks nd)) request) (log_tables (nd_log nd)) = Inr ts'" for s lam
    using assms req
    by (intro core_apply_runs [where e = e and t = t and u = u and dc = dc])
       (simp_all add: node_ready_def event_of_def)
  moreover have "validate_request (pl_externals (nd_log nd)) request = Inr ()"
    using assms(2) req by (simp add: validate_request_def body_fits_def)
  ultimately obtain s nd' where "log_append_inner None [request] nd = (Inr [s], nd')" "store_ready (nd_store nd')"
      "\<exists>d. nd' = set_store ((nd_store nd)\<lparr>db_content := d\<rparr>) (nd\<lparr>nd_ticks := Suc (nd_ticks nd)\<rparr>)"
    using log_append_runs [of nd request None] assms(1) by (auto simp: node_ready_def)
  then show ?thesis
    by (auto simp: log_append_def obind_def oret_def)
qed

lemma ready_crons:
  assumes "node_ready dc nd"
  obtains u where "log_tables (nd_log nd) ''proj_crons'' = Some u"
proof -
  have "log_sound (nd_log nd)" "crons_projection dc \<in> set (pl_registry (nd_log nd))"
    using assms by (auto simp: node_ready_def core_registry_def crons_projection_def)
  then show thesis
    using crons_table_of that by (metis log_tables_def)
qed

lemma job_append_runs:
  assumes "node_ready (dc :: 'b domain_codec) nd" "body_fits dc nd e" "job_request cfg dc job_id e = Inr request"
    "domain_kind_tag e \<in> set job_kinds" "\<And>ev. crons_writes (ev :: 'b event) e = []"
    "log_tables (nd_log nd) ''proj_jobs'' = Some t"
    "\<And>ev. \<exists>t'. rfold (execute_write JOBS_TABLE) (jobs_writes (ev :: 'b event) e) t = Inr t'"
  shows "\<exists>s nd'. log_append request nd = (Inr s, nd') \<and> store_ready (nd_store nd') \<and>
    (\<exists>d. nd' = set_store ((nd_store nd)\<lparr>db_content := d\<rparr>) (nd\<lparr>nd_ticks := Suc (nd_ticks nd)\<rparr>))"
proof -
  obtain u where u: "log_tables (nd_log nd) ''proj_crons'' = Some u"
    by (rule ready_crons [OF assms(1)])
  have "domain_kind_tag e \<in> set sched_kinds"
    using assms(4) by (simp add: sched_kinds_def)
  then show ?thesis
    using sched_append_runs [OF assms(1-3) _ assms(6,7) u] assms(5) by simp
qed

section \<open>Enqueue and completion always succeed on a ready node\<close>

lemma node_ready_parts:
  assumes "node_ready dc nd"
  shows "log_sound (nd_log nd)" "jobs_projection dc \<in> set (pl_registry (nd_log nd))"
    "\<not> fail_stopped (nd_store nd)" "domain_codec_ok dc"
  using assms by (auto simp: node_ready_def store_ready_def core_registry_def jobs_projection_def)

lemma job_row_values_length: "length (job_row_values a b c d e f g h i j) = length (value_columns JOBS_TABLE)"
  by (simp add: job_row_values_def JOBS_TABLE_def)

lemma enqueue_runs:
  assumes ready: "node_ready dc nd" and "job_spec_validate spec = Inr ()"
    "\<forall>origin. js_cron spec = Some origin \<longrightarrow> cron_row_of (nd_log nd) (co_cron_id origin) \<noteq> None"
    "job_row_of (nd_log nd) (spec_job_id project_id spec nd) = None"
    "body_fits dc nd (enqueued_event (spec_job_id project_id spec nd) project_id spec)"
  shows "\<exists>nd'. enqueue cfg (dc :: 'b domain_codec) project_id spec nd =
    (Inr (Enqueued (spec_job_id project_id spec nd)), nd') \<and> store_ready (nd_store nd')"
proof -
  let ?i = "spec_job_id project_id spec nd"
  let ?e = "enqueued_event ?i project_id spec"
  note n = node_ready_parts [OF ready]
  have rd: "sched_read_job ?i nd = Inr None"
    using sched_read_job_row [OF n(1-3), of ?i] assms(4) by simp
  obtain t where t: "log_tables (nd_log nd) ''proj_jobs'' = Some t"
    using jobs_table_of [OF n(1,2)] by (auto simp: log_tables_def)
  obtain request where req: "job_request cfg dc ?i ?e = Inr request"
    by (simp add: job_request_Inr)
  have none: "map_of t [CBlob (into_bytes ?i)] = None"
    using assms(4) t by (simp add: job_row_of_def)
  have run: "\<exists>t'. rfold (execute_write JOBS_TABLE) (jobs_writes ev ?e) t = Inr t'" for ev :: "'b event"
    using none job_row_values_length
    by (auto simp: jobs_writes_def enqueued_event_def execute_insert_Inr rbind_Inr bind_values_def null_key_def
        JOBS_TABLE_def simp del: execute_write.simps)
  obtain u where u: "log_tables (nd_log nd) ''proj_crons'' = Some u"
    by (rule ready_crons [OF ready])
  have cron: "\<exists>u'. rfold (execute_write CRONS_TABLE) (crons_writes ev ?e) u = Inr u'" for ev :: "'b event"
  proof (cases "js_cron spec")
    case None
    then show ?thesis by (simp add: crons_writes_def enqueued_event_def)
  next
    case (Some origin)
    then obtain r where "map_of u [CBlob (into_bytes (co_cron_id origin))] = Some r"
      using assms(3) u by (auto simp: cron_row_of_def)
    then have "\<exists>u'. execute_write CRONS_TABLE (UpdateOne [id_blob (co_cron_id origin)]
        [(''last_fired_ts_ms'', integer_u64 (co_scheduled_ts_ms origin)), (''last_job_id'', id_blob ?i)]) u = Inr u'"
      by (simp only: execute_update_one_Inr) (auto simp: bind_values_def CRONS_TABLE_def)
    then show ?thesis
      using Some by (auto simp: crons_writes_def enqueued_event_def simp del: execute_write.simps)
  qed
  have "domain_kind_tag ?e \<in> set sched_kinds"
    by (simp add: enqueued_event_def sched_kinds_def job_kinds_def)
  then obtain s nd1 where ap: "log_append request nd = (Inr s, nd1)" "store_ready (nd_store nd1)"
    using sched_append_runs [OF ready assms(5) req _ t run u cron] by blast
  then have "enqueue_append ?i request nd = (Inr (Enqueued ?i), nd1\<lparr>sn_metrics := record_enqueued (sn_metrics nd1)\<rparr>)"
    by (simp add: enqueue_append_def obind_def oret_def upd_metrics_def omod_def)
  then show ?thesis
    using rd req assms(2) ap(2) by (simp add: enqueue_def obind_def oread_def oget_def nd_store_def)
qed

lemma job_update_runs:
  assumes ready: "node_ready (dc :: 'b domain_codec) nd" and "body_fits dc nd e" "domain_kind_tag e \<in> set job_kinds"
    "\<And>ev. crons_writes (ev :: 'b event) e = []"
    "\<And>ev :: 'b event. jobs_writes ev e = [UpdateOne [id_blob job_id] (assigns ev)]"
    "\<And>ev. assigns ev \<noteq> [] \<and> fst ` set (assigns ev) \<subseteq> col_name ` set (value_columns JOBS_TABLE)"
    "job_row_of (nd_log nd) job_id = Some r"
  shows "\<exists>nd' d. append_job_fact cfg dc job_id e nd = (Inr (), nd') \<and> store_ready (nd_store nd') \<and>
    nd' = set_store ((nd_store nd)\<lparr>db_content := d\<rparr>) (nd\<lparr>nd_ticks := Suc (nd_ticks nd)\<rparr>)"
proof -
  note n = node_ready_parts [OF ready]
  obtain request where req: "job_request cfg dc job_id e = Inr request"
    by (simp add: job_request_Inr)
  obtain t where t: "log_tables (nd_log nd) ''proj_jobs'' = Some t" "map_of t [CBlob (into_bytes job_id)] = Some r"
    using assms(7) by (auto simp: job_row_of_def split: option.splits)
  have run: "\<exists>t'. rfold (execute_write JOBS_TABLE) (jobs_writes ev e) t = Inr t'" for ev :: "'b event"
  proof -
    have "\<exists>t'. execute_write JOBS_TABLE (UpdateOne [id_blob job_id] (assigns ev)) t = Inr t'"
      using assms(6) [of ev] t(2) by (simp only: execute_update_one_Inr) (auto simp: bind_values_def JOBS_TABLE_def)
    then show ?thesis
      by (auto simp: assms(5) simp del: execute_write.simps)
  qed
  show ?thesis
    using job_append_runs [OF ready assms(2) req assms(3,4) t(1) run] req
    by (auto simp: append_job_fact_def obind_def oread_def oerr_def oret_def)
qed

lemma release_runs:
  assumes "store_ready (nd_store nd)" "sn_leases nd = Some ls"
  shows "release_lease job_id nd = (Inr (), nd\<lparr>sn_leases := Some (tbl_del (into_bytes job_id) ls)\<rparr>)"
  using assms by (simp add: release_lease_def lease_writer_def store_ready_def Let_def)

lemma complete_runs:
  assumes ready: "node_ready (dc :: 'b domain_codec) nd" and "sn_leases nd = Some ls"
    "job_row_of (nd_log nd) (cj_job_id job) = Some r"
    "body_fits dc nd (JobCompleted (JobCompletedV2 (cj_job_id job) (cj_attempt_index job) wall_ms))"
  shows "\<exists>nd'. complete cfg dc job wall_ms nd = (Inr (), nd') \<and>
    sn_leases nd' = Some (tbl_del (into_bytes (cj_job_id job)) ls) \<and>
    (\<exists>r'. job_row_of (nd_log nd') (cj_job_id job) = Some r' \<and> r' ''state'' = CText JOB_STATE_DONE \<and>
      r' ''attempt_count'' = CInteger (uint (cj_attempt_index job)))"
proof -
  let ?i = "cj_job_id job"
  let ?e = "JobCompleted (JobCompletedV2 ?i (cj_attempt_index job) wall_ms)"
  let ?as = "\<lambda>ev :: 'b event. [(''state'', Text JOB_STATE_DONE), (''terminal_seq'', seq_value ev),
         (''attempt_count'', integer_u32 (cj_attempt_index job)), (''wall_ms'', integer_u64 wall_ms)]"
  note n = node_ready_parts [OF ready]
  have w: "jobs_writes ev ?e = [UpdateOne [id_blob ?i] (?as ev)]" for ev :: "'b event"
    by (simp add: jobs_writes_def)
  have as: "?as ev \<noteq> [] \<and> fst ` set (?as ev) \<subseteq> col_name ` set (value_columns JOBS_TABLE)" for ev :: "'b event"
    by (simp add: JOBS_TABLE_def)
  have k: "domain_kind_tag ?e \<in> set job_kinds"
    by (simp add: job_kinds_def)
  have c: "crons_writes (ev :: 'b event) ?e = []" for ev
    by (simp add: crons_writes_def)
  obtain nd1 d where f: "append_job_fact cfg dc ?i ?e nd = (Inr (), nd1)" "store_ready (nd_store nd1)"
      "nd1 = set_store ((nd_store nd)\<lparr>db_content := d\<rparr>) (nd\<lparr>nd_ticks := Suc (nd_ticks nd)\<rparr>)"
    using job_update_runs [OF ready assms(4) k c w as assms(3)] by blast
  have eff: "\<exists>r (ev :: 'b event). job_row_of (nd_log nd) ?i = Some r \<and>
      job_row_of (nd_log nd1) ?i = Some (assign_row (?as ev) r)"
    by (rule job_update_effect [OF f(1) n(1,2,4) _ w]) simp
  then obtain r' where r': "job_row_of (nd_log nd1) ?i = Some r'" "r' ''state'' = CText JOB_STATE_DONE"
      "r' ''attempt_count'' = CInteger (uint (cj_attempt_index job))"
    by auto
  have ls: "sn_leases nd1 = Some ls"
    using f(3) assms(2) by (simp add: set_store_def)
  show ?thesis
    using f(1) release_runs [OF f(2) ls, of ?i] r'
    by (simp add: complete_def obind_def upd_metrics_def omod_def)
qed

section \<open>Claims find work when there is some\<close>

lemma claim_tx_runs:
  assumes "log_sound l" "jobs_projection dc \<in> set (pl_registry l)" "log_tables l ''proj_jobs'' = Some t"
    "\<And>k r kind. (k, r) \<in> set t \<Longrightarrow> claimable cls now ls (k, r) \<Longrightarrow> r ''job_kind'' = CText kind \<Longrightarrow> valid_job_kind kind"
  shows "(\<exists>job ls'. claim_tx project_id cls worker now expires (log_tables l) (Some ls) = Inr (job, Some ls') \<and>
    (job = None \<longleftrightarrow> (\<forall>kr \<in> set t. \<not> claimable cls now ls kr)))"
proof -
  obtain u where "log_tables l ''proj_jobs'' = Some u" "table_wf JOBS_TABLE u" "rows_good job_good u"
    using jobs_table_of [OF assms(1,2)] by (auto simp: log_tables_def)
  then have t: "table_wf JOBS_TABLE t" "rows_good job_good t"
    using assms(3) by simp_all
  have rows: "table_rows JOBS_TABLE (log_tables l) = Inr t"
    using assms(3) by (simp add: table_rows_def JOBS_TABLE_def)
  show ?thesis
  proof (cases "sort_key claim_order (filter (claimable cls now ls) t)")
    case Nil
    then have "filter (claimable cls now ls) t = []"
      by (metis set_empty set_sort)
    then show ?thesis
      using Nil rows by (simp add: claim_tx_def select_claimable_def filter_empty_conv)
  next
    case (Cons kr krs)
    obtain k r where kr: "kr = (k, r)" by (cases kr)
    have mem: "(k, r) \<in> set t" "claimable cls now ls (k, r)"
      using sort_key_head [OF Cons] kr by auto
    then have g: "job_good k r"
      using rows_in_table t by blast
    obtain i where i: "k = [CBlob (into_bytes i)]"
      using job_good_key [OF g] by blast
    obtain c kind where c: "candidate_row (k, r) = Inr c" "cd_job_id c = i" "r ''job_kind'' = CText kind" "cd_job_kind c = kind"
      using g i
      by (auto simp: job_good_def candidate_row_def column_cell_def JOBS_TABLE_def Let_def int_cell_def text_cell_def
          blob_cell_def)
    have "map_of ls (into_bytes i) = None"
      using claimable_unleased mem(2) i by blast
    then show ?thesis
      using Cons kr rows c mem assms(4) [OF mem c(3)]
      by (auto simp: claim_tx_def select_claimable_def insert_lease_def Let_def job_kind_new_def)
  qed
qed

lemma claim_runs:
  assumes ready: "node_ready dc nd" and "sn_leases nd = Some ls" "log_tables (nd_log nd) ''proj_jobs'' = Some t"
    "\<And>k r kind. (k, r) \<in> set t \<Longrightarrow> claimable cls (nd_clock nd (nd_ticks nd)) ls (k, r) \<Longrightarrow>
       r ''job_kind'' = CText kind \<Longrightarrow> valid_job_kind kind"
  shows "\<exists>job nd'. claim cfg project_id cls worker nd = (Inr job, nd') \<and>
    (job = None \<longleftrightarrow> (\<forall>kr \<in> set t. \<not> claimable cls (nd_clock nd (nd_ticks nd)) ls kr))"
proof -
  let ?now = "nd_clock nd (nd_ticks nd)" and ?nd1 = "nd\<lparr>nd_ticks := Suc (nd_ticks nd)\<rparr>"
  let ?ex = "saturating_add ?now (qc_lease_ttl_ms cfg)"
  note n = node_ready_parts [OF ready]
  obtain job ls' where tx: "claim_tx project_id cls worker ?now ?ex (log_tables (nd_log nd)) (Some ls) = Inr (job, Some ls')"
      "job = None \<longleftrightarrow> (\<forall>kr \<in> set t. \<not> claimable cls ?now ls kr)"
    using claim_tx_runs [OF n(1,2) assms(3), of cls ?now ls project_id worker ?ex] assms(4) by blast
  let ?view = "\<lparr>db_content = Some ls, fail_stopped = fail_stopped (nd_store nd),
      writer_poisoned = writer_poisoned (nd_store nd), db_faults = db_faults (nd_store nd), db_disk = db_disk (nd_store nd)\<rparr>"
  have "write_transaction SchedStore (\<lambda>_. False) (claim_tx project_id cls worker ?now ?ex (log_tables (nd_log nd))) ?view =
      (Inr job, ?view\<lparr>db_content := Some ls'\<rparr>)"
    using tx(1) ready by (intro write_transaction_runs) (simp_all add: node_ready_def store_ready_def)
  then obtain nd2 where "lease_transaction (claim_tx project_id cls worker ?now ?ex) ?nd1 = (Inr job, nd2)"
    using assms(2) by (simp add: lease_transaction_def Let_def nd_store_def log_tables_def)
  then show ?thesis
    using tx(2) by (cases job) (simp_all add: claim_def obind_def now_ms_def oret_def upd_metrics_def omod_def)
qed

section \<open>Failed attempts are recorded on a ready node\<close>

lemma ready_fields:
  fixes nd :: "'b sched_node"
  shows "node_ready dc (nd\<lparr>nd_ticks := n\<rparr>) = node_ready dc nd" "node_ready dc (nd\<lparr>sn_jitter := j\<rparr>) = node_ready dc nd"
    "body_fits dc (nd\<lparr>nd_ticks := n\<rparr>) e = body_fits dc nd e" "body_fits dc (nd\<lparr>sn_jitter := j\<rparr>) e = body_fits dc nd e"
  by (simp_all add: node_ready_def nd_store_def body_fits_def)

lemma append_failure_runs:
  assumes ready: "node_ready (dc :: 'b domain_codec) nd" and row: "job_row_of (nd_log nd) (fa_job_id a) = Some r"
    and dead: "\<And>reason. body_fits dc nd (JobDead (JobDeadV1 (fa_job_id a) (fa_attempt_index a) reason))"
    and again: "\<And>at. body_fits dc nd (JobAttemptFailed (JobAttemptFailedV1 (fa_job_id a) (fa_attempt_index a)
      (jx_code failure) (jx_detail failure) at))"
  shows "\<exists>outcome nd'. append_failure cfg dc a failure nd = (Inr outcome, nd') \<and> store_ready (nd_store nd') \<and>
    sn_leases nd' = sn_leases nd"
proof (cases "jx_permanent failure \<or> fa_attempt_index a > fa_retry_count_max a")
  case True
  let ?reason = "if jx_permanent failure then Refused (jx_code failure) else RetriesExhausted (jx_code failure)"
  let ?e = "JobDead (JobDeadV1 (fa_job_id a) (fa_attempt_index a) ?reason)"
  have "\<exists>nd' c. append_job_fact cfg dc (fa_job_id a) ?e nd = (Inr (), nd') \<and> store_ready (nd_store nd') \<and>
      nd' = set_store ((nd_store nd)\<lparr>db_content := c\<rparr>) (nd\<lparr>nd_ticks := Suc (nd_ticks nd)\<rparr>)"
    by (rule job_update_runs [OF ready dead _ _ dead_writes _ row])
       (simp_all add: job_kinds_def crons_writes_def JOBS_TABLE_def)
  then show ?thesis
    using True by (auto simp: append_failure_def Let_def obind_def oret_def set_store_def)
next
  case False
  obtain d nd1 j where d: "draw_delay (qc_backoff cfg) (fa_attempt_index a) nd = (Inr d, nd1)" "nd1 = nd\<lparr>sn_jitter := j\<rparr>"
    by (cases "delay_ms (qc_backoff cfg) (fa_attempt_index a) (sn_jitter nd)") (auto simp: draw_delay_def)
  let ?e = "JobAttemptFailed (JobAttemptFailedV1 (fa_job_id a) (fa_attempt_index a)
      (jx_code failure) (jx_detail failure) (saturating_add (fa_now_ms a) d))"
  have "node_ready dc nd1" "body_fits dc nd1 ?e"
    using ready again d(2) by (simp_all add: ready_fields)
  then have "\<exists>nd' c. append_job_fact cfg dc (fa_job_id a) ?e nd1 = (Inr (), nd') \<and> store_ready (nd_store nd') \<and>
      nd' = set_store ((nd_store nd1)\<lparr>db_content := c\<rparr>) (nd1\<lparr>nd_ticks := Suc (nd_ticks nd1)\<rparr>)"
    by (rule job_update_runs [OF _ _ _ _ failed_writes])
       (use row d(2) in \<open>simp_all add: job_kinds_def crons_writes_def JOBS_TABLE_def\<close>)
  then show ?thesis
    using False d by (auto simp: append_failure_def Let_def obind_def oret_def set_store_def)
qed

end
