(* ===== verification/Sample_Node.thy ===== *)
theory Sample_Node
  imports Queue_Live Log_Properties
begin

text \<open>
  A concrete project on which the properties of the scheduler are exercised: the core projections,
  a codec that keeps the bodies as they are, a fresh store opened by \<open>open_log\<close>, a ledger without
  leases, a constant clock and no jitter.
\<close>

datatype body = Body domain_event | BodyRefs "entity_ref list" | BodySnap snapshot_body

definition body_codec :: "body domain_codec" where
  "body_codec =
     \<lparr>dc_write = Body,
      dc_read = (\<lambda>k b. case b of Body e \<Rightarrow> if domain_kind_tag e = k then Some e else None | _ \<Rightarrow> None)\<rparr>"

definition body_externals :: "body externals" where
  "body_externals =
     \<lparr>body_len = (\<lambda>_. 64), write_refs = BodyRefs,
      read_refs = (\<lambda>b. case b of BodyRefs r \<Rightarrow> Some r | _ \<Rightarrow> None), write_snapshot_body = BodySnap,
      read_snapshot_body = (\<lambda>b. case b of BodySnap s \<Rightarrow> Some s | _ \<Rightarrow> None),
      blake3 = (\<lambda>bs. word_of_nat (nat_of_be_bytes bs))\<rparr>"

definition body_store :: "body log_db project_db" where
  "body_store = \<lparr>db_content = empty_log_db, fail_stopped = False, writer_poisoned = False,
     db_faults = None, db_disk = DiskOk\<rparr>"

definition body_log :: "body project_log" where
  "body_log =
     \<lparr>pl_externals = body_externals, pl_registry = core_registry body_codec, pl_config = sample_config,
      pl_store = snd (open_log body_externals (core_registry body_codec) sample_config body_store)\<rparr>"

definition body_node :: "body sched_node" where
  "body_node = \<lparr>nd_log = body_log, nd_clock = (\<lambda>_. 1000), nd_ticks = 0, sn_leases = Some [],
     sn_jitter = NoJitter, sn_metrics = metrics_default\<rparr>"

lemma body_codec_ok: "domain_codec_ok body_codec" "codec_ok body_externals"
  by (auto simp: domain_codec_ok_def body_codec_def codec_ok_def body_externals_def
      split: body.splits if_splits)

lemma core_registry_distinct: "distinct (table_names (core_registry dc))"
  by (simp add: core_table_names)

lemma body_store_opened:
  "\<exists>d. pl_store body_log = body_store\<lparr>db_content := d\<rparr> \<and> log_inv body_externals (core_registry body_codec) d \<and>
     events d = []"
proof -
  have "fresh_store (db_content body_store)"
    by (simp add: fresh_store_def body_store_def empty_log_db_def)
  then show ?thesis
    using open_log_fresh [of body_store sample_config body_externals "core_registry body_codec"]
      body_codec_ok(2) core_registry_distinct [of body_codec]
    by (auto simp: body_store_def sample_config_def SNAPSHOT_CADENCE_EVENTS_DEFAULT_def body_log_def)
qed

lemma body_node_fields [simp]:
  "nd_log body_node = body_log" "nd_clock body_node n = 1000" "nd_ticks body_node = 0" "sn_leases body_node = Some []"
  "pl_registry body_log = core_registry body_codec" "pl_externals body_log = body_externals"
  "nd_store body_node = pl_store body_log"
  by (simp_all add: body_node_def body_log_def nd_store_def)

lemma body_node_clock: "clock_ok body_node"
  by (simp add: clock_ok_def i64_max_def)

lemma body_node_ready: "node_ready body_codec body_node"
proof -
  obtain d where d: "pl_store body_log = body_store\<lparr>db_content := d\<rparr>"
      "log_inv body_externals (core_registry body_codec) d" "events d = []"
    using body_store_opened by blast
  have "log_sound body_log"
    using d body_codec_ok(2) core_registry_distinct [of body_codec] by (simp add: log_sound_def)
  moreover have "log_room body_log"
    using d(1,3) by (simp add: log_room_def log_events_def i64_max_def read_head_def max_seq_def body_log_def
        sample_config_def is_multiple_of_def SNAPSHOT_CADENCE_EVENTS_DEFAULT_def seq_next_def saturating_add_def)
  ultimately show ?thesis
    using d(1) body_codec_ok(1) by (simp add: node_ready_def store_ready_def body_store_def)
qed

lemma body_tables_empty:
  assumes "n \<in> set (table_names (core_registry body_codec))"
  shows "log_tables body_log n = Some []"
proof -
  obtain d evs where d: "pl_store body_log = body_store\<lparr>db_content := d\<rparr>" "events d = []"
      "log_core body_externals evs d"
      "project (core_registry body_codec) evs (fresh_tables (core_registry body_codec) (main_tables d)) = Inr (main_tables d)"
    using body_store_opened by (auto simp: log_inv_def)
  then have "fresh_tables (core_registry body_codec) (main_tables d) = main_tables d"
    by (simp add: log_core_def project_def)
  then have "main_tables d n = Some []"
    using assms by (metis fresh_tables_def)
  then show ?thesis
    using d(1) by (simp add: log_tables_def)
qed

lemma body_node_jobs: "log_tables body_log ''proj_jobs'' = Some []"
  by (rule body_tables_empty) (simp add: core_table_names)

section \<open>A job on it\<close>

definition noop_spec :: job_spec where
  "noop_spec = job_spec_new ''noop'' ''nightly''"

definition body_config :: queue_config where
  "body_config = for_device 7"

definition noop_id :: id16 where
  "noop_id = spec_job_id 9 noop_spec body_node"

definition queued_node :: "body sched_node" where
  "queued_node = snd (enqueue body_config body_codec 9 noop_spec body_node)"

lemma noop_valid: "job_spec_validate noop_spec = Inr ()" "js_cron noop_spec = None"
  by (simp_all add: job_spec_validate_def noop_spec_def job_spec_new_def JOB_IDEMPOTENCY_KEY_LEN_MAX_def
      JOB_PAYLOAD_LEN_MAX_def JOB_RETRY_COUNT_MAX_def JOB_ATTEMPT_COUNT_MAX_DEFAULT_def)

lemma body_fits_sample:
  "pl_externals (nd_log nd) = body_externals \<Longrightarrow> length (domain_refs e) \<le> EVENT_REFS_COUNT_MAX \<Longrightarrow>
   body_fits body_codec nd e"
  by (simp add: body_fits_def body_externals_def EVENT_BODY_LEN_MAX_def)

lemma queued_enqueue: "enqueue body_config body_codec 9 noop_spec body_node = (Inr (Enqueued noop_id), queued_node)"
proof -
  have "body_fits body_codec body_node (enqueued_event noop_id 9 noop_spec)"
    by (rule body_fits_sample) (simp_all add: enqueued_event_def noop_valid opt_ref_def EVENT_REFS_COUNT_MAX_def)
  then show ?thesis
    using enqueue_runs [OF body_node_ready noop_valid(1), of 9 body_config] body_node_jobs noop_valid(2)
    by (auto simp: noop_id_def job_row_of_def queued_node_def)
qed

section \<open>One event later\<close>

lemma body_append_ready:
  assumes a: "log_append request body_node = (Inr s, nd)" and k: "valid_kind_tag (ar_kind request)"
    and st: "store_ready (nd_store nd)"
  shows "node_ready body_codec nd"
proof -
  note n = node_ready_parts [OF body_node_ready]
  note c = log_append_counts [OF a n(1) body_node_clock k]
  have m: "log_moves body_node nd"
    using append_one_moves(1) [OF k] a unfolding oinv_def by (metis snd_conv)
  have len: "length (log_events (nd_log nd)) = 1"
    using c(1) body_store_opened by (auto simp: log_events_def)
  moreover have "read_head (db_content (pl_store (nd_log nd))) = word_of_nat (length (log_events (nd_log nd)))"
    using c(2) log_core_head by (fastforce simp: log_sound_def log_inv_def log_events_def)
  moreover have "pl_config (nd_log nd) = sample_config"
    using m by (simp add: log_moves_def body_log_def)
  ultimately have "log_room (nd_log nd)"
    by (simp add: log_room_def i64_max_def sample_config_def is_multiple_of_def
        SNAPSHOT_CADENCE_EVENTS_DEFAULT_def seq_next_def saturating_add_def)
  then show ?thesis
    using c(2) m st body_codec_ok(1) by (simp add: node_ready_def log_moves_def)
qed

end
