(* ===== verification/Type_Safety.thy ===== *)
theory Type_Safety
  imports Ingest_Projections Sample_Node
begin

text \<open>
  Type safety of the apply chokepoint under the registry every project opens with: no event, whatever the stored tables
  hold, is refused because a projection wrote something its table does not declare.
\<close>

lemma execute_in_data_error:
  assumes "write_ok tb w" "execute_in tb w ts = Inl e"
  shows "\<not> author_error e"
proof (cases "ts (tbl_name tb)")
  case None
  with assms(2) show ?thesis by (auto simp: execute_in_def author_error_def)
next
  case (Some t)
  with assms(2) have "execute_write tb w t = Inl e"
    by (cases "execute_write tb w t") (auto simp: execute_in_def)
  with assms(1) show ?thesis by (rule write_ok_no_author_error)
qed

lemma rfold_Inl:
  assumes "rfold f xs s = Inl e"
  shows "\<exists>x \<in> set xs. \<exists>t. f x t = Inl e"
  using assms
proof (induction xs arbitrary: s)
  case (Cons x xs)
  then show ?case by (cases "f x s") auto
qed simp

lemma map_err_Inl: "map_err f r = Inl e \<longleftrightarrow> (\<exists>e'. r = Inl e' \<and> e = f e')"
  by (cases r) auto

lemma apply_kinds_data_error:
  assumes "apply_kinds dc tb kinds writes ev = Inl e"
  shows "\<not> author_error e"
proof -
  have "decode_for dc tb ev = Inl e"
    using assms by (cases "decode_for dc tb ev") (auto simp: apply_kinds_def split: if_splits option.splits)
  then show ?thesis by (auto simp: decode_for_def map_err_Inl author_error_def)
qed

lemma full_apply_data_error:
  assumes "p \<in> set (full_registry dc)" "pr_apply p ev = Inl e"
  shows "\<not> author_error e"
  using assms unfolding full_registry_set core_projections_def ingest_projections_def
  by (auto simp: core_applies ingest_applies dest: apply_kinds_data_error split: if_splits)

lemma full_projection_typed:
  assumes "p \<in> set (full_registry dc)" "pr_apply p ev = Inr ws"
  shows "writes_ok (pr_table p) ws"
  using assms core_projection_typed ingest_projection_typed unfolding full_registry_set by blast

lemma full_apply_projection_data_error:
  assumes "p \<in> set (full_registry dc)" "apply_projection p ev ts = Inl (Apply k s e)"
  shows "\<not> author_error e"
proof (cases "pr_apply p ev")
  case (Inl e')
  with assms show ?thesis by (auto simp: apply_projection_def dest: full_apply_data_error)
next
  case (Inr ws)
  then obtain w t where w: "w \<in> set ws" "execute_in (pr_table p) w t = Inl e"
    using assms(2) rfold_Inl by (fastforce simp: apply_projection_def map_err_Inl)
  moreover have "write_ok (pr_table p) w"
    using full_projection_typed [OF assms(1) Inr] w(1) by (auto simp: writes_ok_def list_all_iff)
  ultimately show ?thesis using execute_in_data_error by blast
qed

text \<open>
  C14: The projections are well typed. Whatever write one of the fifteen projections emits for any event fits its
  declared table, in arity, in the columns it names and in the kind of each value, with no key
  column NULL; so applying an event to any content never fails with an arity mismatch, an unknown
  column or an empty assignment list.
\<close>

theorem projections_type_safe:
  assumes "p \<in> set (full_registry dc)" "pr_apply p ev = Inr ws"
  shows "writes_ok (pr_table p) ws \<and>
    \<not> (\<exists>k s e. apply_event (full_registry dc) ev db = Inl (Apply k s e) \<and> author_error e)"
proof -
  have "\<not> author_error e" if "apply_event (full_registry dc) ev db = Inl (Apply k s e)" for k s e
  proof -
    let ?r = "apply_to_tables (full_registry dc) ev (schema_tables Main db)"
    have "?r = Inl (Apply k s e)"
      using that unfolding apply_event_def apply_event_to_schema_def by (cases ?r) simp_all
    then obtain q t where "q \<in> set (full_registry dc)" "apply_projection q ev t = Inl (Apply k s e)"
      unfolding apply_to_tables_def using rfold_Inl by metis
    then show ?thesis by (rule full_apply_projection_data_error)
  qed
  with full_projection_typed [OF assms] show ?thesis by blast
qed

definition renamed_event :: "body event" where
  "renamed_event = \<lparr>ev_seq = 1, ev_device = 7, ev_lamport = 1, ev_ts_ms = 1000, ev_actor = System 1,
     ev_kind = domain_kind_tag (ProjectRenamed (ProjectRenamedV1 9 ''name'')),
     ev_body = Body (ProjectRenamed (ProjectRenamedV1 9 ''name'')), ev_refs = []\<rparr>"

lemma renamed_event_writes:
  "apply_projects body_codec renamed_event = Inr [Update [id_blob 9] [(''name'', Text ''name'')]]"
  by (simp add: apply_projects_def apply_kinds_def decode_for_def domain_decode_def renamed_event_def body_codec_def
      projects_writes_def known_kinds_def id_blob_def)

theorem projections_type_safe_witness:
  "writes_ok PROJECTS_TABLE [Update [id_blob 9] [(''name'', Text ''name'')]] \<and>
   \<not> (\<exists>k s e. apply_event (full_registry body_codec) renamed_event empty_log_db = Inl (Apply k s e) \<and> author_error e)"
  using projections_type_safe [of "\<lparr>pr_table = PROJECTS_TABLE, pr_apply = apply_projects body_codec\<rparr>" body_codec
      renamed_event "[Update [id_blob 9] [(''name'', Text ''name'')]]" empty_log_db] renamed_event_writes
  by (simp add: full_registry_set core_projections_def)

end
