(* ===== verification/Budget.thy ===== *)
theory Budget
  imports Domain_Events
begin

text \<open>
  Hard Run-budget admission of \<open>crates/pos-agents/src/budget.rs\<close>: the hard caps, the checked
  admission of a request against spent and pending usage, and the comparison of an actual usage
  with its reservation. The specification is arithmetic on the naturals, dimension by dimension.
\<close>

definition RUN_STEP_COUNT_MAX :: u32 where
  "RUN_STEP_COUNT_MAX = 10000"

definition RUN_TOOL_CALL_COUNT_MAX :: u32 where
  "RUN_TOOL_CALL_COUNT_MAX = RUN_STEP_COUNT_MAX"

definition RUN_RETRY_COUNT_MAX :: u32 where
  "RUN_RETRY_COUNT_MAX = 1000"

datatype budget_exceeded =
  BudgetExceeded (be_dimension: run_budget_dimension) (be_limit: u64) (be_spent: u64)
    (be_pending: u64) (be_requested: u64)

datatype budget_config_error =
    StepLimitTooLarge u32 u32
  | ToolCallLimitTooLarge u32 u32
  | RetryLimitTooLarge u32 u32

definition validate_budget :: "run_budget \<Rightarrow> budget_config_error + unit" where
  "validate_budget b =
     (if b_steps b > RUN_STEP_COUNT_MAX then Inl (StepLimitTooLarge (b_steps b) RUN_STEP_COUNT_MAX)
      else if b_tool_calls b > RUN_TOOL_CALL_COUNT_MAX
        then Inl (ToolCallLimitTooLarge (b_tool_calls b) RUN_TOOL_CALL_COUNT_MAX)
      else if b_retries b > RUN_RETRY_COUNT_MAX
        then Inl (RetryLimitTooLarge (b_retries b) RUN_RETRY_COUNT_MAX)
      else Inr ())"

definition check_u64 ::
  "run_budget_dimension \<Rightarrow> u64 \<Rightarrow> u64 \<Rightarrow> u64 \<Rightarrow> u64 \<Rightarrow> budget_exceeded + unit" where
  "check_u64 dimension limit spent pending requested =
     (case Option.bind (checked_add spent pending) (\<lambda>value. checked_add value requested) of
        Some value \<Rightarrow>
          if value \<le> limit then Inr ()
          else Inl (BudgetExceeded dimension limit spent pending requested)
      | None \<Rightarrow> Inl (BudgetExceeded dimension limit spent pending requested))"

definition admit ::
  "run_budget \<Rightarrow> run_usage \<Rightarrow> run_usage \<Rightarrow> run_usage \<Rightarrow> budget_exceeded + unit" where
  "admit budget spent pending requested =
     rbind (check_u64 DimTokens (b_tokens budget) (u_tokens spent) (u_tokens pending)
              (u_tokens requested)) (\<lambda>_.
     rbind (check_u64 DimUsdMicros (b_usd_micros budget) (u_usd_micros spent) (u_usd_micros pending)
              (u_usd_micros requested)) (\<lambda>_.
     rbind (check_u64 DimWallMs (b_wall_ms budget) (u_wall_ms spent) (u_wall_ms pending)
              (u_wall_ms requested)) (\<lambda>_.
     rbind (check_u64 DimStorageBytes (b_storage_bytes budget) (u_storage_bytes spent)
              (u_storage_bytes pending) (u_storage_bytes requested)) (\<lambda>_.
     rbind (check_u64 DimToolCalls (u64_of (b_tool_calls budget)) (u64_of (u_tool_calls spent))
              (u64_of (u_tool_calls pending)) (u64_of (u_tool_calls requested))) (\<lambda>_.
     rbind (check_u64 DimRetries (u64_of (b_retries budget)) (u64_of (u_retries spent))
              (u64_of (u_retries pending)) (u64_of (u_retries requested))) (\<lambda>_.
     check_u64 DimSteps (u64_of (b_steps budget)) (u64_of (u_steps spent)) (u64_of (u_steps pending))
       (u64_of (u_steps requested))))))))"

definition usage_within_reservation :: "run_usage \<Rightarrow> run_usage \<Rightarrow> bool" where
  "usage_within_reservation actual reserved \<longleftrightarrow>
     u_tokens actual \<le> u_tokens reserved \<and> u_usd_micros actual \<le> u_usd_micros reserved \<and>
     u_wall_ms actual \<le> u_wall_ms reserved \<and> u_storage_bytes actual \<le> u_storage_bytes reserved \<and>
     u_tool_calls actual \<le> u_tool_calls reserved \<and> u_retries actual \<le> u_retries reserved \<and>
     u_steps actual \<le> u_steps reserved"

definition reservation_exceeded_dimension ::
  "run_usage \<Rightarrow> run_usage \<Rightarrow> run_budget_dimension option" where
  "reservation_exceeded_dimension actual reserved =
     (if u_tokens actual > u_tokens reserved then Some DimTokens
      else if u_usd_micros actual > u_usd_micros reserved then Some DimUsdMicros
      else if u_wall_ms actual > u_wall_ms reserved then Some DimWallMs
      else if u_storage_bytes actual > u_storage_bytes reserved then Some DimStorageBytes
      else if u_tool_calls actual > u_tool_calls reserved then Some DimToolCalls
      else if u_retries actual > u_retries reserved then Some DimRetries
      else if u_steps actual > u_steps reserved then Some DimSteps
      else None)"

section \<open>Specification\<close>

text \<open>One budget dimension as a number, of a limit and of a usage.\<close>

fun limit_of :: "run_budget_dimension \<Rightarrow> run_budget \<Rightarrow> nat" where
  "limit_of DimTokens b = unat (b_tokens b)"
| "limit_of DimUsdMicros b = unat (b_usd_micros b)"
| "limit_of DimWallMs b = unat (b_wall_ms b)"
| "limit_of DimStorageBytes b = unat (b_storage_bytes b)"
| "limit_of DimToolCalls b = unat (b_tool_calls b)"
| "limit_of DimRetries b = unat (b_retries b)"
| "limit_of DimSteps b = unat (b_steps b)"

fun used_of :: "run_budget_dimension \<Rightarrow> run_usage \<Rightarrow> nat" where
  "used_of DimTokens u = unat (u_tokens u)"
| "used_of DimUsdMicros u = unat (u_usd_micros u)"
| "used_of DimWallMs u = unat (u_wall_ms u)"
| "used_of DimStorageBytes u = unat (u_storage_bytes u)"
| "used_of DimToolCalls u = unat (u_tool_calls u)"
| "used_of DimRetries u = unat (u_retries u)"
| "used_of DimSteps u = unat (u_steps u)"

definition dimension_order :: "run_budget_dimension list" where
  "dimension_order = [DimTokens, DimUsdMicros, DimWallMs, DimStorageBytes, DimToolCalls, DimRetries, DimSteps]"

definition fits :: "run_budget \<Rightarrow> run_usage \<Rightarrow> run_usage \<Rightarrow> run_usage \<Rightarrow> run_budget_dimension \<Rightarrow> bool" where
  "fits b s p r d \<longleftrightarrow> used_of d s + used_of d p + used_of d r \<le> limit_of d b"

lemma unat_u64_of_u32 [simp]: "unat (u64_of (w :: u32)) = unat w"
  by (simp add: unsigned_ucast_eq take_bit_nat_eq_self_iff less_trans [OF unat_lt2p_num])

lemma check_u64_eq:
  "check_u64 d l s p r =
     (if unat s + unat p + unat r \<le> unat l then Inr () else Inl (BudgetExceeded d l s p r))"
proof -
  have "unat l < 2 ^ 64"
    using unat_lt2p_num [of l] by simp
  then show ?thesis
    by (auto simp: check_u64_def checked_add_def unat_add_no_overflow word_le_nat_alt
        split: option.split bind_split)
qed

lemma admit_eq_find:
  "(case find (\<lambda>d. \<not> fits b s p r d) dimension_order of
      None \<Rightarrow> admit b s p r = Inr ()
    | Some d \<Rightarrow> (\<exists>e. admit b s p r = Inl e \<and> be_dimension e = d \<and> unat (be_limit e) = limit_of d b \<and>
                   unat (be_spent e) = used_of d s \<and> unat (be_pending e) = used_of d p \<and>
                   unat (be_requested e) = used_of d r))"
  by (simp add: admit_def check_u64_eq dimension_order_def fits_def)

lemma mem_dimension_order [simp]: "d \<in> set dimension_order"
  by (cases d) (simp_all add: dimension_order_def)

lemma admit_ok_iff: "admit b s p r = Inr () \<longleftrightarrow> (\<forall>d. fits b s p r d)"
proof (cases "find (\<lambda>d. \<not> fits b s p r d) dimension_order")
  case None
  then have "\<forall>d\<in>set dimension_order. fits b s p r d"
    by (auto simp: find_None_iff)
  with None admit_eq_find [of b s p r] show ?thesis by simp
next
  case (Some d)
  then have "\<not> fits b s p r d"
    by (auto simp: find_Some_iff)
  with Some admit_eq_find [of b s p r] show ?thesis by auto
qed

lemma reservation_exceeded_eq:
  "reservation_exceeded_dimension a v = find (\<lambda>d. used_of d v < used_of d a) dimension_order"
  by (simp add: reservation_exceeded_dimension_def dimension_order_def word_less_nat_alt)

lemma usage_within_iff: "usage_within_reservation a v \<longleftrightarrow> (\<forall>d. used_of d a \<le> used_of d v)"
proof -
  have "(\<forall>d. used_of d a \<le> used_of d v) \<longleftrightarrow> (\<forall>d\<in>set dimension_order. used_of d a \<le> used_of d v)"
    using mem_dimension_order by blast
  also have "\<dots> \<longleftrightarrow> usage_within_reservation a v"
    unfolding dimension_order_def usage_within_reservation_def by (auto simp: word_le_nat_alt)
  finally show ?thesis by simp
qed

section \<open>Sequences of admitted steps\<close>

text \<open>
  A Run spends usages one after the other. Each is admitted against what is already spent, and the
  actual usage is no more than the admitted one.
\<close>

definition usage_add :: "run_usage \<Rightarrow> run_usage \<Rightarrow> run_usage" where
  "usage_add a b =
     \<lparr>u_tokens = u_tokens a + u_tokens b, u_usd_micros = u_usd_micros a + u_usd_micros b,
      u_wall_ms = u_wall_ms a + u_wall_ms b, u_storage_bytes = u_storage_bytes a + u_storage_bytes b,
      u_tool_calls = u_tool_calls a + u_tool_calls b, u_retries = u_retries a + u_retries b,
      u_steps = u_steps a + u_steps b\<rparr>"

definition zero_usage :: run_usage where
  "zero_usage =
     \<lparr>u_tokens = 0, u_usd_micros = 0, u_wall_ms = 0, u_storage_bytes = 0, u_tool_calls = 0,
      u_retries = 0, u_steps = 0\<rparr>"

lemma limit_lt: "limit_of d b < 2 ^ (if d \<in> {DimToolCalls, DimRetries, DimSteps} then 32 else 64)"
  using unat_lt2p_num [where 'a = 64] unat_lt2p_num [where 'a = 32] by (cases d) simp_all

lemma used_zero [simp]: "used_of d zero_usage = 0"
  by (cases d) (simp_all add: zero_usage_def)

lemma used_add:
  assumes "used_of d a + used_of d b \<le> limit_of d l"
  shows "used_of d (usage_add a b) = used_of d a + used_of d b"
  using assms limit_lt [of d l]
  by (cases d) (simp_all add: usage_add_def unat_add_no_overflow)

inductive spends :: "run_budget \<Rightarrow> run_usage \<Rightarrow> bool" for budget where
  start: "spends budget zero_usage"
| step: "spends budget spent \<Longrightarrow> admit budget spent pending requested = Inr () \<Longrightarrow>
         usage_within_reservation actual requested \<Longrightarrow> spends budget (usage_add spent actual)"

lemma spends_within: "spends b s \<Longrightarrow> used_of d s \<le> limit_of d b"
proof (induction rule: spends.induct)
  case (step spent pending requested actual)
  then have "used_of d spent + used_of d pending + used_of d requested \<le> limit_of d b"
    by (simp add: admit_ok_iff fits_def)
  moreover have "used_of d actual \<le> used_of d requested"
    using step by (simp add: usage_within_iff)
  ultimately have "used_of d spent + used_of d actual \<le> limit_of d b"
    by linarith
  then show ?case by (simp add: used_add)
qed simp

section \<open>Properties\<close>

text \<open>
  C38: admission is exact. A request is admitted if and only if in every dimension spent + pending +
  requested, computed without wrap-around, is within the limit; otherwise the error names the first
  exceeded dimension in the fixed order tokens, usd, wall, storage, tool calls, retries, steps, and
  carries the four numbers of that dimension.
\<close>

theorem admission_exact:
  "(admit b s p r = Inr () \<longleftrightarrow> (\<forall>d. used_of d s + used_of d p + used_of d r \<le> limit_of d b)) \<and>
   (case find (\<lambda>d. \<not> fits b s p r d) dimension_order of
      None \<Rightarrow> admit b s p r = Inr ()
    | Some d \<Rightarrow> (\<exists>e. admit b s p r = Inl e \<and> be_dimension e = d \<and> unat (be_limit e) = limit_of d b \<and>
                   unat (be_spent e) = used_of d s \<and> unat (be_pending e) = used_of d p \<and>
                   unat (be_requested e) = used_of d r))"
  using admit_eq_find [of b s p r] admit_ok_iff [of b s p r] unfolding fits_def by blast

text \<open>
  A budget is never overspent. Whatever sequence of requests is admitted, each one against what
  was spent before it, and however much of each reservation is used, the spent usage stays within
  the budget in every dimension; and the usage of a step that the reservation check rejects is
  reported in the first dimension that exceeds it.
\<close>

theorem budget_never_overspent:
  "(spends b s \<longrightarrow> used_of d s \<le> limit_of d b) \<and>
   (usage_within_reservation a v \<longleftrightarrow> reservation_exceeded_dimension a v = None) \<and>
   (reservation_exceeded_dimension a v = Some d' \<longrightarrow> used_of d' v < used_of d' a)"
proof -
  have "usage_within_reservation a v \<longleftrightarrow> reservation_exceeded_dimension a v = None"
    by (auto simp: usage_within_iff reservation_exceeded_eq find_None_iff not_less)
  moreover have "reservation_exceeded_dimension a v = Some d' \<Longrightarrow> used_of d' v < used_of d' a"
    by (auto simp: reservation_exceeded_eq find_Some_iff)
  ultimately show ?thesis using spends_within by blast
qed

definition sample_budget :: run_budget where
  "sample_budget =
     \<lparr>b_tokens = 10, b_usd_micros = 20, b_wall_ms = 30, b_storage_bytes = 40, b_tool_calls = 2,
      b_retries = 1, b_steps = 2\<rparr>"

theorem budget_never_overspent_witness:
  "used_of DimTokens (usage_add zero_usage (zero_usage\<lparr>u_tokens := 7\<rparr>)) \<le> 10 \<and>
   reservation_exceeded_dimension (zero_usage\<lparr>u_steps := 2\<rparr>) zero_usage = Some DimSteps"
proof -
  have "admit sample_budget zero_usage zero_usage (zero_usage\<lparr>u_tokens := 9\<rparr>) = Inr ()"
    by (simp add: admit_def check_u64_eq sample_budget_def zero_usage_def)
  moreover have "usage_within_reservation (zero_usage\<lparr>u_tokens := 7\<rparr>) (zero_usage\<lparr>u_tokens := 9\<rparr>)"
    by (simp add: usage_within_reservation_def)
  ultimately have "spends sample_budget (usage_add zero_usage (zero_usage\<lparr>u_tokens := 7\<rparr>))"
    by (rule spends.step [OF spends.start])
  then have "used_of DimTokens (usage_add zero_usage (zero_usage\<lparr>u_tokens := 7\<rparr>)) \<le> limit_of DimTokens sample_budget"
    using budget_never_overspent by blast
  then show ?thesis
    by (simp add: sample_budget_def reservation_exceeded_dimension_def zero_usage_def)
qed

end
