(* ===== verification/Queue_Machine.thy ===== *)
theory Queue_Machine
  imports Queue_Live
begin

text \<open>
  The scheduler's node as a state machine: any number of workers, the reaper and other writers of
  the same project, in any interleaving of whole operations. The ledger of leases is in key order,
  so a job has at most one lease, and every lease is for a job the log knows.
\<close>

section \<open>The ledger\<close>

definition ledger_ok :: "'b sched_node \<Rightarrow> bool" where
  "ledger_ok nd \<longleftrightarrow>
     (case sn_leases nd of
        None \<Rightarrow> True
      | Some ls \<Rightarrow> tbl_sorted ls \<and>
          (\<forall>(k, r) \<in> set ls. \<exists>i. k = into_bytes i \<and> job_row_of (nd_log nd) i \<noteq> None))"

definition queue_inv :: "'b domain_codec \<Rightarrow> 'b sched_node \<Rightarrow> bool" where
  "queue_inv dc nd \<longleftrightarrow> log_sound (nd_log nd) \<and> clock_ok nd \<and> ledger_ok nd \<and> domain_codec_ok dc \<and>
     jobs_projection dc \<in> set (pl_registry (nd_log nd))"

definition queue_moves :: "'b domain_codec \<Rightarrow> 'b sched_node \<Rightarrow> 'b sched_node \<Rightarrow> bool" where
  "queue_moves dc nd nd' \<longleftrightarrow> log_moves nd nd' \<and> (queue_inv dc nd \<longrightarrow> ledger_ok nd')"

lemma queue_moves_inv:
  assumes "queue_moves dc nd nd'" "queue_inv dc nd"
  shows "queue_inv dc nd'"
  using assms log_moves_sound [of nd nd'] by (auto simp: queue_moves_def queue_inv_def log_moves_def)

lemma ledger_keeps:
  assumes "log_moves nd nd'" "queue_inv dc nd"
    and "sn_leases nd' = Some ls" "tbl_sorted ls"
    and "\<And>k r. (k, r) \<in> set ls \<Longrightarrow> \<exists>i. k = into_bytes i \<and> job_row_of (nd_log nd) i \<noteq> None"
  shows "ledger_ok nd'"
proof -
  have "log_step\<^sup>*\<^sup>* (nd_log nd) (nd_log nd')"
    using assms(1,2) by (simp add: log_moves_def queue_inv_def)
  then have "job_row_of (nd_log nd') i \<noteq> None" if "job_row_of (nd_log nd) i \<noteq> None" for i
    using job_row_persists [of "nd_log nd" "nd_log nd'" dc i] that assms(2) by (auto simp: queue_inv_def)
  with assms(3-5) show ?thesis
    by (fastforce simp: ledger_ok_def)
qed

lemma ledger_same:
  assumes "log_moves nd nd'" "sn_leases nd' = sn_leases nd"
  shows "queue_moves dc nd nd'"
proof (cases "sn_leases nd")
  case None
  then show ?thesis using assms by (simp add: queue_moves_def ledger_ok_def)
next
  case (Some ls)
  have "ledger_ok nd'" if "queue_inv dc nd"
    by (rule ledger_keeps [OF assms(1) that, of ls])
       (use that Some assms(2) in \<open>auto simp: queue_inv_def ledger_ok_def\<close>)
  with assms(1) show ?thesis by (simp add: queue_moves_def)
qed

lemma oinv_same:
  assumes "oinv log_moves m" "\<And>nd. sn_leases (snd (m nd)) = sn_leases nd"
  shows "oinv (queue_moves dc) m"
  unfolding oinv_def
  by (intro allI ledger_same assms(1) [unfolded oinv_def, rule_format] assms(2))

lemma append_leases: "sn_leases (snd (log_append request nd)) = sn_leases nd"
  by (auto simp: log_append_def obind_def log_append_inner_def oret_def set_store_def Let_def
      split: prod.split sum.split)

lemma lease_writer_queue:
  assumes "\<And>(nd :: 'b sched_node) a ls'. queue_inv dc nd \<Longrightarrow> op (sn_leases nd) = Inr (a, ls') \<Longrightarrow>
    ledger_ok (nd\<lparr>sn_leases := ls'\<rparr>)"
  shows "oinv (queue_moves dc) (lease_writer ctx op)"
  unfolding oinv_def
proof
  fix nd :: "'b sched_node"
  let ?nd' = "snd (lease_writer ctx op nd)"
  have m: "log_moves nd ?nd'"
    by (rule lease_writer_moves [unfolded oinv_def, rule_format])
  have "sn_leases ?nd' = sn_leases nd \<or> (\<exists>a ls'. op (sn_leases nd) = Inr (a, ls') \<and> ?nd' = nd\<lparr>sn_leases := ls'\<rparr>)"
    by (auto simp: lease_writer_def Let_def set_handle_def set_store_def split: sum.split disk.split)
  then show "queue_moves dc nd ?nd'"
    using m assms ledger_same [OF m] by (auto simp: queue_moves_def)
qed

lemma lease_transaction_queue:
  assumes "\<And>(nd :: 'b sched_node) a ls'. queue_inv dc nd \<Longrightarrow>
    op (log_tables (nd_log nd)) (sn_leases nd) = Inr (a, ls') \<Longrightarrow> ledger_ok (nd\<lparr>sn_leases := ls'\<rparr>)"
  shows "oinv (queue_moves dc) (lease_transaction op)"
  unfolding oinv_def
proof
  fix nd :: "'b sched_node"
  obtain r nd' where t: "lease_transaction op nd = (r, nd')" by fastforce
  have m: "log_moves nd nd'"
    using lease_transaction_moves [of op] t unfolding oinv_def by (metis snd_conv)
  have same: "log_tables (nd_log nd') = log_tables (nd_log nd)"
    using t by (auto simp: lease_transaction_def Let_def set_handle_def set_store_def nd_store_def log_tables_def
        split: prod.splits)
  have "sn_leases nd' = sn_leases nd \<or> (\<exists>a. op (log_tables (nd_log nd)) (sn_leases nd) = Inr (a, sn_leases nd'))"
  proof -
    let ?view = "\<lparr>db_content = sn_leases nd, fail_stopped = fail_stopped (nd_store nd),
        writer_poisoned = writer_poisoned (nd_store nd), db_faults = db_faults (nd_store nd), db_disk = db_disk (nd_store nd)\<rparr>"
    obtain view' where v: "write_transaction SchedStore (\<lambda>_. False) (op (log_tables (nd_log nd))) ?view = (r, view')"
        "sn_leases nd' = db_content view'"
      using t by (auto simp: lease_transaction_def Let_def nd_store_def log_tables_def split: prod.splits)
    then show ?thesis
      by (cases r) (auto dest: write_transaction_atomic write_transaction_ok)
  qed
  then show "queue_moves dc nd (snd (lease_transaction op nd))"
  proof
    assume "sn_leases nd' = sn_leases nd"
    then show ?thesis using t ledger_same [OF m] by simp
  next
    assume "\<exists>a. op (log_tables (nd_log nd)) (sn_leases nd) = Inr (a, sn_leases nd')"
    then have "ledger_ok nd'" if "queue_inv dc nd"
      using assms [OF that] same by (auto simp: ledger_ok_def job_row_of_def split: option.splits)
    then show ?thesis using t m by (simp add: queue_moves_def)
  qed
qed

section \<open>Every operation keeps the ledger\<close>

lemma ensure_schema_queue: "oinv (queue_moves (dc :: 'b domain_codec)) ensure_schema"
  unfolding ensure_schema_def
  by (rule lease_writer_queue) (auto simp: queue_inv_def ledger_ok_def tbl_sorted_def split: option.splits)

lemma release_queue: "oinv (queue_moves (dc :: 'b domain_codec)) (release_lease i)"
  unfolding release_lease_def
proof (rule lease_writer_queue)
  fix nd :: "'b sched_node" and a ls'
  assume inv: "queue_inv dc nd" and "(case sn_leases nd of None \<Rightarrow> Inl ()
      | Some ls \<Rightarrow> Inr ((), Some (tbl_del (into_bytes i) ls))) = Inr (a, ls')"
  then obtain ls where ls: "sn_leases nd = Some ls" "ls' = Some (tbl_del (into_bytes i) ls)"
    by (auto split: option.splits)
  have "set (tbl_del (into_bytes i) ls) \<subseteq> set ls"
    by (auto simp: tbl_del_def)
  with inv ls show "ledger_ok (nd\<lparr>sn_leases := ls'\<rparr>)"
    by (auto simp: queue_inv_def ledger_ok_def)
qed

lemma ledger_noop [simp]: "sn_leases nd = ls \<Longrightarrow> ledger_ok (nd\<lparr>sn_leases := ls\<rparr>) = ledger_ok nd"
  by (auto simp: ledger_ok_def split: option.split)

lemma ledger_put:
  assumes "queue_inv dc nd" "sn_leases nd = Some ls" "job_row_of (nd_log nd) i \<noteq> None"
  shows "ledger_ok (nd\<lparr>sn_leases := Some (tbl_put (into_bytes i) r ls)\<rparr>)"
proof -
  have "tbl_sorted ls" and ls: "\<And>k r. (k, r) \<in> set ls \<Longrightarrow> \<exists>i. k = into_bytes i \<and> job_row_of (nd_log nd) i \<noteq> None"
    using assms(1,2) by (auto simp: queue_inv_def ledger_ok_def)
  moreover have "\<exists>i. k = into_bytes i \<and> job_row_of (nd_log nd) i \<noteq> None"
    if "(k, x) \<in> set (tbl_put (into_bytes i) r ls)" for k x
    using that set_tbl_put [of "into_bytes i" r ls] ls assms(3) by auto
  ultimately show ?thesis
    by (auto simp: ledger_ok_def)
qed

lemma claim_queue: "oinv (queue_moves (dc :: 'b domain_codec)) (lease_transaction (claim_tx project_id cls worker now expires))"
proof (rule lease_transaction_queue)
  fix nd :: "'b sched_node" and a ls'
  assume inv: "queue_inv dc nd"
    and tx: "claim_tx project_id cls worker now expires (log_tables (nd_log nd)) (sn_leases nd) = Inr (a, ls')"
  show "ledger_ok (nd\<lparr>sn_leases := ls'\<rparr>)"
  proof (cases "select_claimable cls now (log_tables (nd_log nd)) (sn_leases nd)")
    case (Inr sel)
    show ?thesis
    proof (cases sel)
      case None
      then show ?thesis
        using tx Inr inv by (auto simp: claim_tx_def queue_inv_def)
    next
      case (Some c)
      then obtain ls t r where s: "sn_leases nd = Some ls" "log_tables (nd_log nd) ''proj_jobs'' = Some t"
          "map_of t [CBlob (into_bytes (cd_job_id c))] = Some r"
        using select_claimable_ok [of cls now "nd_log nd" "sn_leases nd" c dc] Inr inv by (auto simp: queue_inv_def)
      then have "job_row_of (nd_log nd) (cd_job_id c) \<noteq> None"
        by (simp add: job_row_of_def)
      moreover obtain lr where "ls' = Some (tbl_put (into_bytes (cd_job_id c)) lr ls)"
        using tx Inr Some s(1) by (auto simp: claim_tx_def insert_lease_def rbind_Inr Let_def split: if_splits)
      ultimately show ?thesis
        using ledger_put [OF inv s(1)] by simp
    qed
  qed (use tx in \<open>simp add: claim_tx_def\<close>)
qed

lemma heartbeat_queue: "oinv (queue_moves (dc :: 'b domain_codec)) (lease_transaction (heartbeat_tx cfg job now))"
proof (rule lease_transaction_queue)
  fix nd :: "'b sched_node" and a ls'
  assume inv: "queue_inv dc nd"
    and "heartbeat_tx cfg job now (log_tables (nd_log nd)) (sn_leases nd) = Inr (a, ls')"
  then obtain ls where ls: "sn_leases nd = Some ls"
      and h: "heartbeat_rows job now (saturating_add now (qc_lease_ttl_ms cfg)) ls = (a, the ls')" "ls' \<noteq> None"
    by (auto simp: heartbeat_tx_def split: option.splits prod.splits)
  show "ledger_ok (nd\<lparr>sn_leases := ls'\<rparr>)"
  proof (cases "map_of ls (into_bytes (cj_job_id job))")
    case None
    then show ?thesis using h ls inv by (auto simp: heartbeat_rows_def queue_inv_def)
  next
    case (Some r)
    then have "job_row_of (nd_log nd) (cj_job_id job) \<noteq> None"
      using inv ls map_of_SomeD by (fastforce simp: queue_inv_def ledger_ok_def)
    then show ?thesis
      using ledger_put [OF inv ls] h Some ls inv by (auto simp: heartbeat_rows_def queue_inv_def split: if_splits)
  qed
qed

interpretation qledger: queue_relation "queue_moves dc :: 'b sched_node \<Rightarrow> 'b sched_node \<Rightarrow> bool" for dc :: "'b domain_codec"
proof
  show "queue_moves dc nd nd" for nd :: "'b sched_node"
    by (auto simp: queue_moves_def moves.R_refl queue_inv_def)
  show "queue_moves dc s u" if "queue_moves dc s t" "queue_moves dc t u" for s t u :: "'b sched_node"
    using that queue_moves_inv [OF that(1)] moves.R_trans by (auto simp: queue_moves_def)
  show "oinv (queue_moves dc) (now_ms :: ('b sched_node, sched_error, u64) op)"
    by (rule oinv_same [OF now_moves]) (simp add: now_ms_def)
  show "queue_moves dc nd (nd\<lparr>sn_metrics := m\<rparr>)" "queue_moves dc nd (nd\<lparr>sn_jitter := j\<rparr>)" for nd :: "'b sched_node" and m j
    by (rule ledger_same; simp)+
  show "oinv (queue_moves dc) (log_append request)" if "valid_kind_tag (ar_kind request)" for request
    by (rule oinv_same [OF append_one_moves(1) [OF that] append_leases])
qed (rule ensure_schema_queue release_queue claim_queue heartbeat_queue)+

section \<open>The machine\<close>

inductive queue_step :: "'b domain_codec \<Rightarrow> 'b sched_node \<Rightarrow> 'b sched_node \<Rightarrow> bool" for dc where
  Schema: "ensure_schema nd = (r, nd') \<Longrightarrow> queue_step dc nd nd'"
| Enqueue: "enqueue cfg dc project_id spec nd = (r, nd') \<Longrightarrow> queue_step dc nd nd'"
| Prepare: "enqueue_request cfg dc project_id spec nd = (r, nd') \<Longrightarrow> queue_step dc nd nd'"
| Claim: "claim cfg project_id cls worker nd = (r, nd') \<Longrightarrow> queue_step dc nd nd'"
| Heartbeat: "heartbeat cfg job nd = (r, nd') \<Longrightarrow> queue_step dc nd nd'"
| Complete: "complete cfg dc job wall_ms nd = (r, nd') \<Longrightarrow> queue_step dc nd nd'"
| Fail: "fail_job cfg dc job failure wall_ms nd = (r, nd') \<Longrightarrow> queue_step dc nd nd'"
| Supersede: "supersede cfg dc job_id cron_id nd = (r, nd') \<Longrightarrow> queue_step dc nd nd'"
| Reap: "reap_expired_leases cfg dc nd = (r, nd') \<Longrightarrow> queue_step dc nd nd'"
| Log: "log_step (nd_log nd) l \<Longrightarrow> queue_step dc nd (nd\<lparr>nd_log := l\<rparr>)"

lemma log_step_moves: "log_step (nd_log nd) l \<Longrightarrow> log_moves nd (nd\<lparr>nd_log := l\<rparr>)"
  using log_steps_parts [of "nd_log nd" l] by (auto simp: log_moves_def)

lemma queue_step_moves: "queue_step dc nd nd' \<Longrightarrow> queue_moves dc nd nd'"
proof (induction rule: queue_step.induct)
  case (Log nd l)
  then show ?case by (intro ledger_same log_step_moves) simp_all
qed (use qledger.R_schema [of dc] qledger.enqueue_R [of dc] qledger.enqueue_request_R [of dc]
       qledger.claim_R [of dc] qledger.heartbeat_R [of dc] qledger.complete_R [of dc] qledger.fail_job_R [of dc]
       qledger.supersede_R [of dc] qledger.reap_R [of dc] in \<open>unfold oinv_def, metis snd_conv\<close>)+

lemma queue_run_moves: "(queue_step dc)\<^sup>*\<^sup>* nd nd' \<Longrightarrow> queue_moves dc nd nd'"
  by (induction rule: rtranclp_induct) (auto intro: qledger.R_refl qledger.R_trans queue_step_moves)

end
