(* ===== verification/Queue_Properties.thy ===== *)
theory Queue_Properties
  imports Queue_Machine Sample_Node
begin

text \<open>
  The properties of the job queue, each exercised on the sample project.
\<close>

section \<open>The sample project with one queued job\<close>

lemma body_node_inv: "queue_inv body_codec body_node"
  using node_ready_parts [OF body_node_ready] body_node_clock
  by (auto simp: queue_inv_def ledger_ok_def tbl_sorted_def)

lemma queued_run: "(queue_step body_codec)\<^sup>*\<^sup>* body_node queued_node"
  using Enqueue [OF queued_enqueue] by blast

lemma queued_inv: "queue_inv body_codec queued_node"
  using queue_run_moves [OF queued_run] queue_moves_inv body_node_inv by blast

lemma queued_parts:
  "pl_registry (nd_log queued_node) = core_registry body_codec" "pl_externals (nd_log queued_node) = body_externals"
  "nd_clock queued_node = nd_clock body_node"
  using queue_run_moves [OF queued_run] by (auto simp: queue_moves_def log_moves_def)

lemma queued_row:
  "\<exists>ev :: body event. job_row_of (nd_log queued_node) noop_id = Some (spec_row 9 noop_spec ev)"
  using enqueue_new [OF queued_enqueue] node_ready_parts [OF body_node_ready] by blast

lemma queued_append:
  "\<exists>request s nd1. log_append request body_node = (Inr s, nd1) \<and> valid_kind_tag (ar_kind request) \<and>
     queued_node = nd1\<lparr>sn_metrics := record_enqueued (sn_metrics nd1)\<rparr> \<and> store_ready (nd_store nd1) \<and>
     sn_leases nd1 = Some []"
proof -
  let ?e = "enqueued_event noop_id 9 noop_spec"
  obtain request where req: "job_request body_config body_codec noop_id ?e = Inr request"
    by (simp add: job_request_Inr)
  have fits: "body_fits body_codec body_node ?e"
    by (rule body_fits_sample) (simp_all add: enqueued_event_def noop_valid opt_ref_def EVENT_REFS_COUNT_MAX_def)
  have run: "\<exists>t'. rfold (execute_write JOBS_TABLE) (jobs_writes ev ?e) [] = Inr t'" for ev :: "body event"
    using job_row_values_length
    by (auto simp: jobs_writes_def enqueued_event_def execute_insert_Inr rbind_Inr bind_values_def null_key_def
        JOBS_TABLE_def simp del: execute_write.simps)
  obtain s nd1 d where ap: "log_append request body_node = (Inr s, nd1)" "store_ready (nd_store nd1)"
      "nd1 = set_store ((nd_store body_node)\<lparr>db_content := d\<rparr>) (body_node\<lparr>nd_ticks := Suc (nd_ticks body_node)\<rparr>)"
    using job_append_runs [OF body_node_ready fits req _ _ _ run] body_node_jobs noop_valid
    by (auto simp: enqueued_event_def job_kinds_def crons_writes_def)
  have "sched_read_job noop_id body_node = Inr None"
    using sched_read_job_row [OF node_ready_parts(1-3) [OF body_node_ready], of noop_id] body_node_jobs
    by (simp add: job_row_of_def)
  then have "queued_node = nd1\<lparr>sn_metrics := record_enqueued (sn_metrics nd1)\<rparr>"
    using ap(1) req
    by (simp add: queued_node_def enqueue_def obind_def oread_def oget_def noop_valid noop_id_def [symmetric]
        enqueue_append_def upd_metrics_def omod_def oret_def)
  moreover have "valid_kind_tag (ar_kind request)"
    using req by (auto simp: job_request_Inr domain_kind_tag_valid)
  ultimately show ?thesis
    using ap by (intro exI [of _ request] exI [of _ s] exI [of _ nd1]) (simp add: set_store_def)
qed

lemma queued_ready: "node_ready body_codec queued_node" "sn_leases queued_node = Some []"
proof -
  obtain request s nd1 where a: "log_append request body_node = (Inr s, nd1)" "valid_kind_tag (ar_kind request)"
      "queued_node = nd1\<lparr>sn_metrics := record_enqueued (sn_metrics nd1)\<rparr>" "store_ready (nd_store nd1)"
      "sn_leases nd1 = Some []"
    using queued_append by blast
  show "node_ready body_codec queued_node"
    unfolding a(3) using body_append_ready [OF a(1,2,4)] by (simp add: node_ready_def nd_store_def)
  show "sn_leases queued_node = Some []"
    unfolding a(3) using a(5) by simp
qed

lemma queued_claimable:
  assumes "job_row_of (nd_log queued_node) noop_id = Some r"
  shows "claimable Maintenance 1000 [] ([CBlob (into_bytes noop_id)], r)" "r ''job_kind'' = CText ''noop''"
proof -
  obtain ev :: "body event" where r: "r = spec_row 9 noop_spec ev"
    using queued_row assms by auto
  show "claimable Maintenance 1000 [] ([CBlob (into_bytes noop_id)], r)" "r ''job_kind'' = CText ''noop''"
    unfolding r
    by (simp_all add: claimable_def spec_row_def column_cell_def JOBS_TABLE_def job_row_values_def
        noop_spec_def job_spec_new_def sat_i64_def JOB_STATE_QUEUED_def)
qed

lemma queued_claims:
  "\<exists>job nd'. claim body_config 9 Maintenance ''w1'' queued_node = (Inr (Some job), nd')"
proof -
  obtain r where r: "job_row_of (nd_log queued_node) noop_id = Some r"
    using queued_row by blast
  then obtain t where t: "log_tables (nd_log queued_node) ''proj_jobs'' = Some t"
      "([CBlob (into_bytes noop_id)], r) \<in> set t"
    by (auto simp: job_row_of_def dest: map_of_SomeD split: option.splits)
  let ?now = "nd_clock queued_node (nd_ticks queued_node)"
  have now: "?now = 1000"
    by (simp add: queued_parts)
  have valid: "valid_job_kind kind" if "(k, x) \<in> set t" "claimable Maintenance ?now [] (k, x)" "x ''job_kind'' = CText kind" for k x kind
  proof -
    note mem = that
    obtain u where "log_tables (nd_log queued_node) ''proj_jobs'' = Some u" "table_wf JOBS_TABLE u" "rows_good job_good u"
      using jobs_table_of [OF node_ready_parts(1,2) [OF queued_ready(1)]] by (auto simp: log_tables_def)
    then have u: "table_wf JOBS_TABLE t" "rows_good job_good t"
      using t(1) by simp_all
    obtain j where j: "k = [CBlob (into_bytes j)]"
      using rows_in_table u mem(1) job_good_key by blast
    have "job_row_of (nd_log queued_node) j = Some x"
      using t(1) mem(1) u(1) j tbl_sorted_map_of [of t k x] by (simp add: job_row_of_def table_wf_def)
    moreover have "job_row_of (nd_log body_node) j = None"
      using body_node_jobs by (simp add: job_row_of_def)
    ultimately have "x = r"
      using enqueue_new [OF queued_enqueue] node_ready_parts [OF body_node_ready] r by (metis option.distinct(1) option.inject)
    then have "kind = ''noop''"
      using queued_claimable(2) [OF r] mem(3) by simp
    then show ?thesis
      by (simp add: valid_job_kind_def valid_id_text_def is_id_char_def JOB_KIND_LEN_MAX_def is_ascii_alphanumeric_def)
  qed
  show ?thesis
    using claim_runs [OF queued_ready t(1), of Maintenance body_config 9 "''w1''"] valid queued_claimable(1) [OF r] t(2) now
    by auto
qed

section \<open>Properties\<close>

text \<open>
  C4: a claim takes the best runnable job and takes it once. The claimed job is queued, of the asked
  class, due and without a lease; no claimable job has a smaller priority rank, or the same rank and
  an earlier enqueue; the attempt is the stored count plus one; the ledger gains a lease for it that
  expires one lease period after now; and the log is not written.
\<close>
theorem claim_takes_best:
  assumes "claim cfg project_id cls worker nd = (Inr (Some job), nd')" "queue_inv dc nd"
  shows "\<exists>ls t r n. sn_leases nd = Some ls \<and> map_of ls (into_bytes (cj_job_id job)) = None \<and>
    log_tables (nd_log nd) ''proj_jobs'' = Some t \<and> map_of t [CBlob (into_bytes (cj_job_id job))] = Some r \<and>
    claimable cls (nd_clock nd (nd_ticks nd)) ls ([CBlob (into_bytes (cj_job_id job))], r) \<and>
    (\<forall>kr \<in> set t. claimable cls (nd_clock nd (nd_ticks nd)) ls kr \<longrightarrow>
       claim_order ([CBlob (into_bytes (cj_job_id job))], r) \<le> claim_order kr) \<and>
    r ''attempt_count'' = CInteger n \<and> cj_attempt_index job = saturating_add (count_u32 n) 1 \<and>
    (\<exists>ls'. sn_leases nd' = Some ls' \<and>
      (\<exists>lr. map_of ls' = (map_of ls)(into_bytes (cj_job_id job) \<mapsto> lr) \<and> lr_worker lr = worker \<and>
         lr_attempt_index lr = uint (cj_attempt_index job) \<and>
         lr_expires_ts_ms lr = sat_i64 (saturating_add (nd_clock nd (nd_ticks nd)) (qc_lease_ttl_ms cfg)))) \<and>
    db_content (nd_store nd') = db_content (nd_store nd)"
  using claim_ok [OF assms(1)] claimable_unleased assms(2) by (fastforce simp: queue_inv_def)

theorem claim_takes_best_witness:
  "\<exists>job nd'. claim body_config 9 Maintenance ''w1'' queued_node = (Inr (Some job), nd') \<and>
     db_content (nd_store nd') = db_content (nd_store queued_node) \<and>
     (\<exists>ls'. sn_leases nd' = Some ls' \<and> map_of ls' (into_bytes (cj_job_id job)) \<noteq> None)"
proof -
  obtain job nd' where c: "claim body_config 9 Maintenance ''w1'' queued_node = (Inr (Some job), nd')"
    using queued_claims by blast
  show ?thesis
    using claim_takes_best [OF c queued_inv] c by (metis fun_upd_same option.distinct(1))
qed

text \<open>
  C3: work is enqueued once for ever. After a successful enqueue of a spec, and after any further
  steps of the log (appends by anyone, failures, restarts, rebuilds), an enqueue of any valid spec
  with the same kind and idempotency key reports the same job as a duplicate and writes nothing.
\<close>
theorem enqueue_exactly_once:
  assumes "enqueue cfg dc project_id spec nd = (Inr (Enqueued i), nd1)" "queue_inv dc nd"
    "log_step\<^sup>*\<^sup>* (nd_log nd1) (nd_log nd2)" "\<not> fail_stopped (nd_store nd2)"
    "job_spec_validate spec' = Inr ()" "js_kind spec' = js_kind spec"
    "js_idempotency_key spec' = js_idempotency_key spec"
  shows "enqueue cfg' dc project_id spec' nd2 =
    (Inr (Duplicate i), nd2\<lparr>sn_metrics := record_duplicate_enqueue (sn_metrics nd2)\<rparr>)"
proof -
  have q: "log_sound (nd_log nd)" "jobs_projection dc \<in> set (pl_registry (nd_log nd))" "domain_codec_ok dc"
    using assms(2) by (auto simp: queue_inv_def)
  obtain r where r: "i = spec_job_id project_id spec nd" "job_row_of (nd_log nd1) i = Some r"
    using enqueue_new [OF assms(1) q] by blast
  have m: "log_moves nd nd1"
    using qlog.enqueue_R [of cfg dc project_id spec] assms(1) unfolding oinv_def by (metis snd_conv)
  have l1: "log_sound (nd_log nd1)" "pl_registry (nd_log nd1) = pl_registry (nd_log nd)"
      "pl_externals (nd_log nd1) = pl_externals (nd_log nd)"
    using m log_moves_sound [OF m] assms(2) by (auto simp: log_moves_def queue_inv_def)
  have l2: "log_sound (nd_log nd2)" "pl_registry (nd_log nd2) = pl_registry (nd_log nd1)"
      "pl_externals (nd_log nd2) = pl_externals (nd_log nd1)"
    using plog.run_good_extends [OF assms(3) l1(1)] log_steps_parts [OF assms(3)] by auto
  obtain r' where r': "job_row_of (nd_log nd2) i = Some r'"
    using job_row_persists [OF assms(3) l1(1) _ r(2), of dc] q(2) l1(2) by auto
  have i: "spec_job_id project_id spec' nd2 = i"
    using r(1) l1(3) l2(3) assms(6,7) by (simp add: spec_job_id_def)
  show ?thesis
    using enqueue_existing [OF l2(1) _ assms(4,5), of dc project_id r'] q(2) l1(2) l2(2) r' i by simp
qed

theorem enqueue_exactly_once_witness:
  "enqueue body_config body_codec 9 noop_spec queued_node =
     (Inr (Duplicate noop_id), queued_node\<lparr>sn_metrics := record_duplicate_enqueue (sn_metrics queued_node)\<rparr>)"
  using enqueue_exactly_once [OF queued_enqueue body_node_inv, of queued_node noop_spec body_config]
    node_ready_parts(3) [OF queued_ready(1)] noop_valid by simp

text \<open>
  C5: over any run of the scheduler's operations and of other writers, in any interleaving and with
  any failures, the log stays sound and only grows, and the ledger stays in key order with every
  lease naming a job the log has: a job never has two leases, and the reaper never meets a lease
  of an unknown job.
\<close>
theorem scheduler_invariant:
  assumes "(queue_step dc)\<^sup>*\<^sup>* nd nd'" "queue_inv dc nd"
  shows "log_sound (nd_log nd') \<and> (\<exists>new. log_events (nd_log nd') = log_events (nd_log nd) @ new) \<and>
    (\<forall>ls. sn_leases nd' = Some ls \<longrightarrow> distinct (map fst ls) \<and>
       (\<forall>k \<in> fst ` set ls. \<exists>i. k = into_bytes i \<and> job_row_of (nd_log nd') i \<noteq> None))"
proof -
  have m: "queue_moves dc nd nd'"
    by (rule queue_run_moves [OF assms(1)])
  then have "ledger_ok nd'"
    using assms(2) by (simp add: queue_moves_def)
  then show ?thesis
    using log_moves_sound [of nd nd'] m assms(2)
    by (auto simp: queue_moves_def queue_inv_def ledger_ok_def tbl_sorted_def strict_sorted_iff)
qed

theorem scheduler_invariant_witness:
  "(queue_step body_codec)\<^sup>*\<^sup>* body_node queued_node \<and> log_sound (nd_log queued_node)"
  using scheduler_invariant [OF queued_run body_node_inv] queued_run by blast

text \<open>
  C20: what the log knows of a job is never lost or unsaid. If a sound log reads a job, then after any
  steps of the log it still reads it, with the same kind, key, class, payload and retry limit; a job
  that was done or dead never becomes queued again; and a dead job carries a typed reason.
\<close>
theorem job_facts_stay:
  assumes "log_step\<^sup>*\<^sup>* l l'" "log_sound l" "jobs_projection dc \<in> set (pl_registry l)"
    "read_job l i = Inr (Some j)" "\<not> fail_stopped (pl_store l')"
  shows "\<exists>j'. read_job l' i = Inr (Some j') \<and> jr_job_kind j' = jr_job_kind j \<and>
    jr_idempotency_key j' = jr_idempotency_key j \<and> class_as_str (jr_class j') = class_as_str (jr_class j) \<and>
    jr_payload j' = jr_payload j \<and> jr_attempt_count_max j' = jr_attempt_count_max j \<and>
    (is_terminal (jr_state j) \<longrightarrow> is_terminal (jr_state j')) \<and>
    (jr_state j' = Dead \<longrightarrow> (\<exists>reason. jr_dead_reason_code j' = Some (dead_reason_code reason)))"
proof -
  have live: "\<not> fail_stopped (pl_store l)"
    using assms(4) by (auto simp: read_job_def rbind_Inr)
  obtain t where t: "main_tables (db_content (pl_store l)) ''proj_jobs'' = Some t"
    by (rule jobs_table_of [OF assms(2,3)])
  obtain r where r: "job_row_of l i = Some r" "job_view r j"
    using read_job_sound [OF assms(2,3) live t, of i] assms(4) t
    by (auto simp: job_row_of_def log_tables_def split: option.splits)
  have l': "log_sound l'" "jobs_projection dc \<in> set (pl_registry l')"
    using plog.run_good_extends [OF assms(1,2)] log_steps_parts [OF assms(1)] assms(3) by auto
  obtain r' where r': "job_row_of l' i = Some r'" "job_le [CBlob (into_bytes i)] r r'"
    using job_row_persists [OF assms(1-3) r(1)] by blast
  obtain t' where t': "main_tables (db_content (pl_store l')) ''proj_jobs'' = Some t'"
    by (rule jobs_table_of [OF l'])
  obtain j' where j': "read_job l' i = Inr (Some j')" "job_view r' j'"
    using read_job_sound [OF l' assms(5) t', of i] r'(1) t' by (auto simp: job_row_of_def log_tables_def)
  have "is_terminal (jr_state j')" if "is_terminal (jr_state j)"
    using that r(2) j'(2) r'(2)
    by (cases "jr_state j"; cases "jr_state j'") (auto simp: job_view_def job_le_def JOB_STATE_QUEUED_def JOB_STATE_DONE_def JOB_STATE_DEAD_def)
  then show ?thesis
    using j' r(2) r'(2) by (auto simp: job_view_def job_le_def)
qed

theorem job_facts_stay_witness:
  "\<exists>j. read_job (nd_log queued_node) noop_id = Inr (Some j) \<and> jr_job_kind j = ''noop''"
proof -
  note n = node_ready_parts [OF queued_ready(1)]
  obtain r where r: "job_row_of (nd_log queued_node) noop_id = Some r"
    using queued_row by blast
  then obtain j where j: "sched_read_job noop_id queued_node = Inr (Some j)" "job_view r j"
    using sched_read_job_row [OF n(1-3), of noop_id] by auto
  then have rd: "read_job (nd_log queued_node) noop_id = Inr (Some j)"
    by (auto simp: sched_read_job_def)
  have "jr_job_kind j = ''noop''"
    using queued_claimable(2) [OF r] j(2) by (simp add: job_view_def)
  then show ?thesis
    using job_facts_stay [OF rtranclp.rtrancl_refl n(1,2) rd] n(3) by (auto simp: nd_store_def)
qed

text \<open>
  C16: a failed attempt is recorded as its policy says. The stored attempt count becomes the failed
  attempt's index. If the failure is permanent or the attempt is past the retry limit, the job is
  dead with the matching reason; otherwise it stays as it was and becomes due again after a delay
  within the backoff window of the attempt. In both cases the lease is gone.
\<close>
theorem failure_is_recorded:
  assumes "fail_job cfg dc job failure wall_ms nd = (Inr outcome, nd')" "queue_inv dc nd"
  shows "\<exists>r r' ls. job_row_of (nd_log nd) (cj_job_id job) = Some r \<and>
    job_row_of (nd_log nd') (cj_job_id job) = Some r' \<and>
    r' ''attempt_count'' = CInteger (uint (cj_attempt_index job)) \<and>
    sn_leases nd' = Some ls \<and> map_of ls (into_bytes (cj_job_id job)) = None \<and>
    (case outcome of
       OutcomeDead \<Rightarrow> (jx_permanent failure \<or> cj_attempt_index job > cj_retry_count_max job) \<and>
         r' ''state'' = CText JOB_STATE_DEAD \<and>
         r' ''dead_reason_code'' = CText (if jx_permanent failure then ''refused'' else ''retries_exhausted'')
     | OutcomeRetrying at \<Rightarrow> \<not> jx_permanent failure \<and> cj_attempt_index job \<le> cj_retry_count_max job \<and>
         r' ''state'' = r ''state'' \<and> r' ''run_at_ts_ms'' = CInteger (sat_i64 at) \<and>
         nd_clock nd (nd_ticks nd) \<le> at \<and>
         at \<le> saturating_add (nd_clock nd (nd_ticks nd)) (window_ms (qc_backoff cfg) (cj_attempt_index job)))"
proof -
  let ?nd1 = "nd\<lparr>nd_ticks := Suc (nd_ticks nd)\<rparr>" and ?now = "nd_clock nd (nd_ticks nd)"
  let ?a = "\<lparr>fa_job_id = cj_job_id job, fa_attempt_index = cj_attempt_index job,
      fa_retry_count_max = cj_retry_count_max job, fa_now_ms = ?now\<rparr>"
  obtain nd2 nd3 where f: "append_failure cfg dc ?a failure ?nd1 = (Inr outcome, nd2)"
      and rel: "release_lease (cj_job_id job) nd2 = (Inr (), nd3)"
      and nd': "nd_log nd' = nd_log nd3" "sn_leases nd' = sn_leases nd3"
    using assms(1)
    by (auto simp: fail_job_def obind_def now_ms_def oret_def upd_metrics_def omod_def
        split: prod.splits sum.splits if_splits)
  have "nd_log nd3 = nd_log nd2" "\<exists>ls. sn_leases nd3 = Some ls \<and> map_of ls (into_bytes (cj_job_id job)) = None"
    using rel by (auto simp: release_lease_def lease_writer_def Let_def split: if_splits sum.splits disk.splits option.splits)
  then show ?thesis
    using append_failure_ok [OF f] assms(2) nd' by (cases outcome) (auto simp: queue_inv_def)
qed

definition noop_claim :: claimed_job where
  "noop_claim = \<lparr>cj_job_id = noop_id, cj_project_id = 9, cj_kind = ''noop'', cj_payload = [], cj_attempt_index = 1,
     cj_retry_count_max = 3, cj_enqueued_seq = 1, cj_worker = ''w1'', cj_claimed_ts_ms = 1000, cj_claim_latency_ms = 1000\<rparr>"

lemma queued_fits: "length (domain_refs e) \<le> 62 \<Longrightarrow> pl_externals (nd_log nd) = body_externals \<Longrightarrow> body_fits body_codec nd e"
  by (rule body_fits_sample) (simp_all add: queued_parts EVENT_REFS_COUNT_MAX_def)

lemma dead_refs: "length (domain_refs (JobDead (JobDeadV1 i a reason))) \<le> 62"
  by (cases reason) simp_all

lemma queued_failure_runs:
  "\<exists>outcome nd'. append_failure body_config body_codec \<lparr>fa_job_id = noop_id, fa_attempt_index = 1,
      fa_retry_count_max = 3, fa_now_ms = now\<rparr> failure (queued_node\<lparr>nd_ticks := n\<rparr>) = (Inr outcome, nd') \<and>
      store_ready (nd_store nd') \<and> sn_leases nd' = Some []"
proof -
  obtain r where "job_row_of (nd_log queued_node) noop_id = Some r"
    using queued_row by blast
  then show ?thesis
    using append_failure_runs [of body_codec "queued_node\<lparr>nd_ticks := n\<rparr>" "\<lparr>fa_job_id = noop_id, fa_attempt_index = 1,
        fa_retry_count_max = 3, fa_now_ms = now\<rparr>" r failure body_config] queued_ready
      queued_fits [of _ "queued_node\<lparr>nd_ticks := n\<rparr>"] queued_parts dead_refs
    by (simp add: ready_fields)
qed

lemma queued_fails:
  "\<exists>outcome nd'. fail_job body_config body_codec noop_claim (retriable ''io'' ''disk'') 5 queued_node = (Inr outcome, nd')"
proof -
  obtain outcome nd' where a: "append_failure body_config body_codec \<lparr>fa_job_id = noop_id, fa_attempt_index = 1,
      fa_retry_count_max = 3, fa_now_ms = 1000\<rparr> (retriable ''io'' ''disk'')
      (queued_node\<lparr>nd_ticks := Suc (nd_ticks queued_node)\<rparr>) = (Inr outcome, nd')"
      "store_ready (nd_store nd')" "sn_leases nd' = Some []"
    using queued_failure_runs by blast
  then show ?thesis
    using release_runs [OF a(2,3), of noop_id]
    by (simp add: fail_job_def obind_def now_ms_def noop_claim_def queued_parts oret_def upd_metrics_def omod_def)
qed

theorem failure_is_recorded_witness:
  "\<exists>outcome nd' r'. fail_job body_config body_codec noop_claim (retriable ''io'' ''disk'') 5 queued_node = (Inr outcome, nd') \<and>
     job_row_of (nd_log nd') noop_id = Some r' \<and> r' ''attempt_count'' = CInteger 1"
proof -
  obtain outcome nd' where f: "fail_job body_config body_codec noop_claim (retriable ''io'' ''disk'') 5 queued_node = (Inr outcome, nd')"
    using queued_fails by blast
  then show ?thesis
    using failure_is_recorded [OF f queued_inv] by (auto simp: noop_claim_def)
qed










end
