(* ===== verification/Cron_Driver.thy ===== *)
theory Cron_Driver
  imports Queue Cron
begin

text \<open>
  The cron driver of \<open>crates/pos-sched/src/cron.rs\<close>: registration of schedules as log events, and the
  tick that turns due firings into jobs. The driver keeps no state: the watermark of a schedule and
  its live jobs are read from the projections.
\<close>

record cron_spec =
  cs_cron_id :: id16
  cs_job_kind :: string
  cs_expr :: string
  cs_tz :: string
  cs_overlap_policy :: cron_overlap_policy
  cs_enabled :: bool
  cs_priority :: job_priority
  cs_class :: job_class
  cs_payload :: bytes

definition CRON_ID_DOMAIN :: bytes where
  "CRON_ID_DOMAIN = string_bytes ''projectos/cron-id/v1''"

definition derive_cron_id :: "(bytes \<Rightarrow> digest32) \<Rightarrow> id16 \<Rightarrow> string \<Rightarrow> id16" where
  "derive_cron_id hash project_id name =
     from_bytes (take 16 (digest_bytes (hash (CRON_ID_DOMAIN @ into_bytes project_id @ string_bytes name))))"

record cron_tick_report =
  tr_fired :: "id16 list"
  tr_skipped_overlap_count :: u32
  tr_superseded_count :: u32
  tr_missed_tick_count :: u32

definition tick_report_default :: cron_tick_report where
  "tick_report_default =
     \<lparr>tr_fired = [], tr_skipped_overlap_count = 0, tr_superseded_count = 0, tr_missed_tick_count = 0\<rparr>"

definition cron_schedule_of :: "'z jiff \<Rightarrow> string \<Rightarrow> string \<Rightarrow> sched_error + 'z cron_schedule" where
  "cron_schedule_of jz expr tz = map_err InvalidSchedule (cron_schedule_new jz expr tz)"

definition registered_event :: "id16 \<Rightarrow> cron_spec \<Rightarrow> domain_event" where
  "registered_event project_id spec =
     CronRegistered (CronRegisteredV1 (CronRegisteredV1Fields (cs_cron_id spec) project_id (cs_job_kind spec)
       (cs_expr spec) (cs_tz spec) (cs_overlap_policy spec) (cs_enabled spec) (cs_priority spec)
       (cs_class spec) (cs_payload spec)))"

definition register ::
  "'z jiff \<Rightarrow> queue_config \<Rightarrow> 'b domain_codec \<Rightarrow> id16 \<Rightarrow> cron_spec \<Rightarrow> ('b, unit) sched_op" where
  "register jz cfg dc project_id spec =
     obind (oread (\<lambda>_. cron_schedule_of jz (cs_expr spec) (cs_tz spec))) (\<lambda>_.
     append_job_fact cfg dc (cs_cron_id spec) (registered_event project_id spec))"

definition live_jobs_of :: "cron_record \<Rightarrow> 'b sched_node \<Rightarrow> sched_error + id16 list" where
  "live_jobs_of cron nd =
     rbind (map_err SchedRead (list_jobs (nd_log nd)
              \<lparr>jf_state = Some Queued, jf_class = None, jf_cron_id = Some (cn_cron_id cron),
               jf_row_count_max = None\<rparr>)) (\<lambda>jobs.
     Inr (map jr_job_id jobs))"

definition cron_key :: "id16 \<Rightarrow> u64 \<Rightarrow> string" where
  "cron_key cron_id scheduled_ts_ms = ''cron:'' @ to_hex cron_id @ '':'' @ dec_text (unat scheduled_ts_ms)"

definition firing_spec :: "cron_record \<Rightarrow> string \<Rightarrow> u64 \<Rightarrow> job_spec" where
  "firing_spec cron kind scheduled_ts_ms =
     (job_spec_new kind (cron_key (cn_cron_id cron) scheduled_ts_ms))
       \<lparr>js_class := cn_class cron, js_priority := cn_priority cron, js_payload := cn_payload cron,
        js_run_at_ts_ms := scheduled_ts_ms,
        js_cron := Some (JobCronOriginFields (cn_cron_id cron) scheduled_ts_ms)\<rparr>"

definition supersede_one ::
  "queue_config \<Rightarrow> 'b domain_codec \<Rightarrow> id16 \<Rightarrow> id16 \<Rightarrow> cron_tick_report \<Rightarrow> ('b, cron_tick_report) sched_op" where
  "supersede_one cfg dc cron_id job_id report =
     obind (supersede cfg dc job_id cron_id) (\<lambda>_.
     oret (report\<lparr>tr_superseded_count := tr_superseded_count report + 1\<rparr>))"

definition fire ::
  "queue_config \<Rightarrow> 'b domain_codec \<Rightarrow> id16 \<Rightarrow> cron_record \<Rightarrow> u64 \<Rightarrow> cron_tick_report \<Rightarrow> ('b, cron_tick_report) sched_op" where
  "fire cfg dc project_id cron scheduled_ts_ms report =
     obind (oread (\<lambda>_. map_err (\<lambda>_. InvalidSpec ''job_kind'') (job_kind_new (cn_job_kind cron)))) (\<lambda>kind.
     obind (enqueue cfg dc project_id (firing_spec cron kind scheduled_ts_ms)) (\<lambda>outcome.
     oret (if is_duplicate outcome then report
           else report\<lparr>tr_fired := tr_fired report @ [outcome_job_id outcome]\<rparr>)))"

definition tick_one ::
  "'z jiff \<Rightarrow> queue_config \<Rightarrow> 'b domain_codec \<Rightarrow> id16 \<Rightarrow> u64 \<Rightarrow> cron_record \<Rightarrow> cron_tick_report
     \<Rightarrow> ('b, cron_tick_report) sched_op" where
  "tick_one jz cfg dc project_id now cron report =
     obind (oread (\<lambda>_. cron_schedule_of jz (cn_expr cron) (cn_tz cron))) (\<lambda>schedule.
     case due_firing jz schedule (watermark_ts_ms cron) now of
       None \<Rightarrow> oret report
     | Some due \<Rightarrow>
         (let report1 = report\<lparr>tr_missed_tick_count := tr_missed_tick_count report + df_missed_count due\<rparr>
          in obind (oread (live_jobs_of cron)) (\<lambda>live.
             if cn_overlap_policy cron = Skip \<and> live \<noteq> []
             then oret (report1\<lparr>tr_skipped_overlap_count := tr_skipped_overlap_count report1 + 1\<rparr>)
             else obind (if cn_overlap_policy cron = CancelPrevious
                         then ofold (supersede_one cfg dc (cn_cron_id cron)) live report1
                         else oret report1)
                    (fire cfg dc project_id cron (df_scheduled_ts_ms due)))))"

definition tick_enabled ::
  "'z jiff \<Rightarrow> queue_config \<Rightarrow> 'b domain_codec \<Rightarrow> id16 \<Rightarrow> u64 \<Rightarrow> cron_record \<Rightarrow> cron_tick_report
     \<Rightarrow> ('b, cron_tick_report) sched_op" where
  "tick_enabled jz cfg dc project_id now cron report =
     (if cn_enabled cron then tick_one jz cfg dc project_id now cron report else oret report)"

definition tick ::
  "'z jiff \<Rightarrow> queue_config \<Rightarrow> 'b domain_codec \<Rightarrow> id16 \<Rightarrow> ('b, cron_tick_report) sched_op" where
  "tick jz cfg dc project_id =
     obind now_ms (\<lambda>now.
     obind (oread (\<lambda>nd. map_err SchedRead (list_crons (nd_log nd)))) (\<lambda>crons.
     obind (ofold (tick_enabled jz cfg dc project_id now) crons tick_report_default) (\<lambda>report.
     obind (upd_metrics (record_cron_tick (word_of_nat (length (tr_fired report)))
              (ucast (tr_skipped_overlap_count report)) (ucast (tr_missed_tick_count report)))) (\<lambda>_.
     oret report))))"

definition preview_registered ::
  "'z jiff \<Rightarrow> id16 \<Rightarrow> i64 \<Rightarrow> u32 \<Rightarrow> 'b sched_node \<Rightarrow> sched_error + i64 list option" where
  "preview_registered jz cron_id after_ts_ms count nd =
     rbind (map_err SchedRead (read_cron (nd_log nd) cron_id)) (\<lambda>existing.
     case existing of
       None \<Rightarrow> Inr None
     | Some cron \<Rightarrow>
         rbind (cron_schedule_of jz (cn_expr cron) (cn_tz cron)) (\<lambda>schedule.
         Inr (Some (preview jz schedule after_ts_ms count))))"

end
