(* ===== verification/Cron_Search.thy ===== *)
theory Cron_Search
  imports Cron
begin

unbundle bit_operations_syntax

text \<open>
  Correctness of the cron parser and of the next-firing search: the bit sets are the sets the text
  denotes, and the search that skips whole days and hours finds what a minute-by-minute scan finds.
\<close>

section \<open>Fields\<close>

lemma mark_steps_bit:
  assumes "0 < step" "final < 64" "final < v + fuel" "v \<le> 255"
  shows "bit (mark_steps fuel v final step bits) i \<longleftrightarrow>
    bit bits i \<or> (v \<le> i \<and> i \<le> final \<and> step dvd (i - v))"
  using assms(3,4)
proof (induction fuel arbitrary: v bits)
  case (Suc fuel)
  show ?case
  proof (cases "v \<le> final")
    case True
    let ?w = "min 255 (v + step)"
    have w: "final < ?w + fuel" "?w \<le> 255"
      using Suc.prems assms(1,2) by auto
    have b: "bit (bits OR 2 ^ v) i \<longleftrightarrow> bit bits i \<or> i = v" for i
      using True assms(2) by (auto simp: bit_or_iff bit_exp_iff)
    have "(i = v \<or> ?w \<le> i \<and> i \<le> final \<and> step dvd (i - ?w)) \<longleftrightarrow> (v \<le> i \<and> i \<le> final \<and> step dvd (i - v))"
    proof (cases "v + step \<le> i \<and> i \<le> final")
      case True
      then have "?w = v + step"
        using assms(2) by simp
      moreover have "i - v = (i - (v + step)) + step"
        using True by simp
      then have "step dvd (i - (v + step)) \<longleftrightarrow> step dvd (i - v)"
        by (simp only: dvd_add_triv_right_iff)
      ultimately show ?thesis
        using True by auto
    next
      case False
      then have "\<not> (?w \<le> i \<and> i \<le> final)"
        using assms(2) by auto
      moreover have "i = v" if "v \<le> i" "i \<le> final" "step dvd (i - v)"
        using that False assms(1) dvd_imp_le [of step "i - v"] by linarith
      ultimately show ?thesis
        using \<open>v \<le> final\<close> by auto
    qed
    then show ?thesis
      using True by (simp add: Suc.IH [OF w] b)
  next
    case False
    then show ?thesis by auto
  qed
qed auto

lemma split_once_parts: "split_once d s = Some (a, b) \<Longrightarrow> s = a @ d # b"
  by (induction s arbitrary: a) (auto split: if_splits)

lemma parse_range_Inr:
  assumes "parse_range t field lo hi = Inr (first, final)" "lo \<le> hi"
  shows "lo \<le> first \<and> first \<le> final \<and> final \<le> hi"
  using assms by (auto simp: parse_range_def rbind_Inr split: if_splits prod.splits)

lemma item_range_Inr:
  assumes "item_range field lo hi part = Inr (first, final, step)" "lo \<le> hi"
  shows "lo \<le> first \<and> first \<le> final \<and> final \<le> hi \<and> 0 < step"
  using assms parse_range_Inr by (auto simp: item_range_def rbind_Inr split: if_splits option.splits prod.splits)

text \<open>The values one item of a field selects.\<close>

definition item_selects :: "string \<Rightarrow> nat \<Rightarrow> nat \<Rightarrow> string \<Rightarrow> nat \<Rightarrow> bool" where
  "item_selects field lo hi part i \<longleftrightarrow>
     (\<exists>first final step. item_range field lo hi part = Inr (first, final, step) \<and>
        first \<le> i \<and> i \<le> final \<and> step dvd (i - first))"

lemma parse_item_bit:
  assumes "parse_item field lo hi part bits = Inr bits'" "lo \<le> hi" "hi < 64"
  shows "bit bits' i \<longleftrightarrow> bit bits i \<or> item_selects field lo hi part i"
proof -
  obtain first final step where r: "item_range field lo hi part = Inr (first, final, step)"
      and b: "bits' = mark_steps MARK_ROUNDS first final step bits"
    using assms(1) by (auto simp: parse_item_def rbind_Inr)
  have "lo \<le> first \<and> first \<le> final \<and> final \<le> hi \<and> 0 < step"
    using item_range_Inr [OF r assms(2)] .
  then show ?thesis
    unfolding b using assms(3) r
    by (subst mark_steps_bit) (auto simp: MARK_ROUNDS_def item_selects_def)
qed

lemma parse_items_bit:
  assumes "rfold (parse_item field lo hi) parts bits = Inr bits'" "lo \<le> hi" "hi < 64"
  shows "(bit bits' i \<longleftrightarrow> bit bits i \<or> (\<exists>part \<in> set parts. item_selects field lo hi part i)) \<and>
    (\<forall>part \<in> set parts. \<exists>r. item_range field lo hi part = Inr r)"
  using assms(1)
proof (induction parts arbitrary: bits)
  case (Cons p ps)
  then obtain b1 where b1: "parse_item field lo hi p bits = Inr b1" "rfold (parse_item field lo hi) ps b1 = Inr bits'"
    by (auto simp: rbind_Inr)
  moreover have "\<exists>r. item_range field lo hi p = Inr r"
    using b1(1) by (auto simp: parse_item_def rbind_Inr)
  ultimately show ?case
    using Cons.IH [OF b1(2)] parse_item_bit [OF b1(1) assms(2,3)] by auto
qed simp

lemma parse_field_bit:
  assumes "parse_field t field lo hi = Inr bits" "lo \<le> hi" "hi < 64"
  shows "bit bits i \<longleftrightarrow> (\<exists>part \<in> set (split_char (CHR '','') t). item_selects field lo hi part i)"
    "bit bits i \<Longrightarrow> lo \<le> i \<and> i \<le> hi" "\<exists>i. bit bits i"
    "\<forall>part \<in> set (split_char (CHR '','') t). \<exists>r. item_range field lo hi part = Inr r"
proof -
  have r: "rfold (parse_item field lo hi) (split_char (CHR '','') t) 0 = Inr bits" "bits \<noteq> 0"
    using assms(1) by (auto simp: parse_field_def rbind_Inr split: if_splits)
  show b: "bit bits i \<longleftrightarrow> (\<exists>part \<in> set (split_char (CHR '','') t). item_selects field lo hi part i)" for i
    using parse_items_bit [OF r(1) assms(2,3), of i] by simp
  show "lo \<le> i \<and> i \<le> hi" if "bit bits i"
    using that b [of i] item_range_Inr [OF _ assms(2)] by (fastforce simp: item_selects_def)
  show "\<exists>i. bit bits i"
    using r(2) by (metis bit_eqI bit_0_eq bot_apply bot_bool_def)
  show "\<forall>part \<in> set (split_char (CHR '','') t). \<exists>r. item_range field lo hi part = Inr r"
    using parse_items_bit [OF r(1) assms(2,3)] by simp
qed

lemma bit_set_bit: "bit_set bits v \<longleftrightarrow> 0 \<le> v \<and> bit bits (nat v)"
proof -
  have "drop_bit n bits AND 1 = 1 \<longleftrightarrow> bit bits n" for n
    by (simp add: bit_iff_odd_drop_bit and_one_eq odd_iff_mod_2_eq_one)
  moreover have "bit bits n \<Longrightarrow> n < 64" for n
    using bit_imp_le_length [of bits n] by simp
  then have "bit bits (nat v) \<Longrightarrow> 0 \<le> v \<Longrightarrow> v < 64"
    by fastforce
  ultimately show ?thesis
    by (auto simp: bit_set_def)
qed

section \<open>The search\<close>

text \<open>The reference: try one civil minute after another.\<close>

definition fires_at :: "'z jiff \<Rightarrow> 'z cron_schedule \<Rightarrow> int \<Rightarrow> civil \<Rightarrow> int option" where
  "fires_at jz s after c =
     (if matches_date (jz_weekday jz) (sc_expr s) (cv_date c) \<and> matches_hour (sc_expr s) (cv_hour c) \<and>
         matches_minute (sc_expr s) (cv_minute c)
      then fires jz s after c else None)"

fun scan_fire :: "'z jiff \<Rightarrow> 'z cron_schedule \<Rightarrow> int \<Rightarrow> nat \<Rightarrow> civil \<Rightarrow> int option" where
  "scan_fire jz s after 0 c = None"
| "scan_fire jz s after (Suc n) c =
     (case fires_at jz s after c of
        Some t \<Rightarrow> Some t
      | None \<Rightarrow> Option.bind (jz_add_minute jz c) (scan_fire jz s after n))"

text \<open>A whole minute of a valid date.\<close>

definition whole_minute :: "'z jiff \<Rightarrow> civil \<Rightarrow> bool" where
  "whole_minute jz c \<longleftrightarrow>
     (\<exists>date h m. c = at_time date h m \<and> jz_valid jz c \<and> 0 \<le> h \<and> h \<le> 23 \<and> 0 \<le> m \<and> m \<le> 59)"

lemma at_time_fields [simp]:
  "cv_date (at_time d h m) = d" "cv_hour (at_time d h m) = h" "cv_minute (at_time d h m) = m"
  by (simp_all add: at_time_def)

lemma whole_minute_at_time [simp]:
  "whole_minute jz (at_time d h m) \<longleftrightarrow> jz_valid jz (at_time d h m) \<and> 0 \<le> h \<and> h \<le> 23 \<and> 0 \<le> m \<and> m \<le> 59"
  unfolding whole_minute_def by (metis at_time_fields)

lemma whole_minute_cases:
  assumes "whole_minute jz c"
  obtains d h m where "c = at_time d h m" "whole_minute jz (at_time d h m)"
  using assms unfolding whole_minute_def by blast

lemma same_day:
  assumes "jiff_ok jz" "whole_minute jz (at_time d h m)" "0 \<le> h'" "h' \<le> 23" "0 \<le> m'" "m' \<le> 59"
  shows "jz_valid jz (at_time d h' m')"
  using assms unfolding jiff_ok_def whole_minute_at_time by (metis at_time_fields(1))

lemma next_day:
  assumes "jiff_ok jz" "whole_minute jz (at_time d h m)" "jz_add_day jz d = Some d'"
  shows "jz_valid jz (at_time d' 0 0)"
  using assms unfolding jiff_ok_def whole_minute_at_time by (metis at_time_fields(1))

lemma next_hour_at:
  assumes "jiff_ok jz" "whole_minute jz (at_time d h m)"
  shows "start_of_next_hour jz (at_time d h m) =
    (if h < 23 then Some (at_time d (h + 1) 0) else start_of_next_day jz (at_time d h m))"
  using same_day [OF assms, of "h + 1" 0] assms(2) by (auto simp: start_of_next_hour_def datetime_new_def)

lemma add_minute_law:
  assumes "jiff_ok jz" "whole_minute jz (at_time d h m)"
  shows "jz_add_minute jz (at_time d h m) =
    (if m < 59 then Some (at_time d h (m + 1)) else start_of_next_hour jz (at_time d h m))"
proof -
  have "jz_add_minute jz (at_time d h m) =
      (if m < 59 then Some (at_time d h (m + 1)) else if h < 23 then Some (at_time d (h + 1) 0)
       else map_option (\<lambda>d. at_time d 0 0) (jz_add_day jz d))"
    using assms unfolding jiff_ok_def whole_minute_at_time by blast
  then show ?thesis
    using next_hour_at [OF assms] by (simp add: start_of_next_day_def)
qed

lemma next_day_whole:
  assumes "jiff_ok jz" "whole_minute jz c" "start_of_next_day jz c = Some c'"
  shows "whole_minute jz c'"
proof -
  obtain d h m where c: "c = at_time d h m" "whole_minute jz (at_time d h m)"
    using assms(2) by (rule whole_minute_cases)
  obtain d' where "jz_add_day jz d = Some d'" "c' = at_time d' 0 0"
    using assms(3) c(1) by (auto simp: start_of_next_day_def)
  then show ?thesis
    using next_day [OF assms(1) c(2)] by simp
qed

lemma next_hour_whole:
  assumes "jiff_ok jz" "whole_minute jz c" "start_of_next_hour jz c = Some c'"
  shows "whole_minute jz c'"
proof -
  obtain d h m where c: "c = at_time d h m" "whole_minute jz (at_time d h m)"
    using assms(2) by (rule whole_minute_cases)
  show ?thesis
    using next_hour_at [OF assms(1) c(2)] assms(3) c same_day [OF assms(1) c(2), of "h + 1" 0]
      next_day_whole [OF assms(1,2)] by (auto split: if_splits)
qed

lemma add_minute_whole:
  assumes "jiff_ok jz" "whole_minute jz c" "jz_add_minute jz c = Some c'"
  shows "whole_minute jz c'"
proof -
  obtain d h m where c: "c = at_time d h m" "whole_minute jz (at_time d h m)"
    using assms(2) by (rule whole_minute_cases)
  show ?thesis
    using add_minute_law [OF assms(1) c(2)] assms(3) c same_day [OF assms(1) c(2), of h "m + 1"]
      next_hour_whole [OF assms(1,2)] by (auto split: if_splits)
qed

text \<open>Skipping: the rest of an hour, then of a day, in which nothing fires.\<close>

lemma skip_hour:
  assumes "jiff_ok jz" "\<And>m. fires_at jz s after (at_time d h m) = None" "whole_minute jz (at_time d h m)"
  shows "scan_fire jz s after (nat (60 - m) + n) (at_time d h m) =
      Option.bind (start_of_next_hour jz (at_time d h m)) (scan_fire jz s after n)"
  using assms(3)
proof (induction "nat (59 - m)" arbitrary: m)
  case 0
  then have "m = 59" by simp
  then show ?case
    using add_minute_law [OF assms(1) 0(2)] assms(2) by simp
next
  case (Suc k)
  have m: "m < 59"
    using Suc.hyps(2) by simp
  have w: "whole_minute jz (at_time d h (m + 1))"
    using same_day [OF assms(1) Suc.prems, of h "m + 1"] Suc.prems m by simp
  have "nat (60 - m) + n = Suc (nat (60 - (m + 1)) + n)"
    using m by simp
  moreover have "start_of_next_hour jz (at_time d h (m + 1)) = start_of_next_hour jz (at_time d h m)"
    by (simp add: start_of_next_hour_def start_of_next_day_def)
  moreover have "k = nat (59 - (m + 1))"
    using Suc.hyps(2) by simp
  ultimately show ?case
    using Suc.hyps(1) [OF _ w] add_minute_law [OF assms(1) Suc.prems] m assms(2) by (simp del: whole_minute_at_time)
qed

lemma skip_day:
  assumes "jiff_ok jz" "\<And>h m. fires_at jz s after (at_time d h m) = None" "whole_minute jz (at_time d h m)"
  shows "\<exists>k > 0. \<forall>n. scan_fire jz s after (k + n) (at_time d h m) =
      Option.bind (start_of_next_day jz (at_time d h m)) (scan_fire jz s after n)"
  using assms(3)
proof (induction "nat (23 - h)" arbitrary: h m)
  case 0
  then have "h = 23" by simp
  then have "scan_fire jz s after (nat (60 - m) + n) (at_time d h m) =
      Option.bind (start_of_next_day jz (at_time d h m)) (scan_fire jz s after n)" for n
    using skip_hour [OF assms(1) assms(2) 0(2), of n] next_hour_at [OF assms(1) 0(2)] by simp
  moreover have "nat (60 - m) > 0"
    using 0 by simp
  ultimately show ?case by blast
next
  case (Suc j)
  have h: "h < 23" "j = nat (23 - (h + 1))"
    using Suc.hyps(2) by simp_all
  have w: "whole_minute jz (at_time d (h + 1) 0)"
    using same_day [OF assms(1) Suc.prems, of "h + 1" 0] Suc.prems h by simp
  obtain k where k: "\<forall>n. scan_fire jz s after (k + n) (at_time d (h + 1) 0) =
      Option.bind (start_of_next_day jz (at_time d (h + 1) 0)) (scan_fire jz s after n)"
    using Suc.hyps(1) [OF h(2) w] by blast
  have "scan_fire jz s after (nat (60 - m) + k + n) (at_time d h m) =
      Option.bind (start_of_next_day jz (at_time d h m)) (scan_fire jz s after n)" for n
    using skip_hour [OF assms(1) assms(2) Suc.prems, of "k + n"] next_hour_at [OF assms(1) Suc.prems] h k
    by (simp add: add.assoc start_of_next_day_def)
  moreover have "nat (60 - m) + k > 0"
    using Suc.prems by simp
  ultimately show ?case by blast
qed

text \<open>One step of the search against as many minutes of the scan as it skips.\<close>

lemma search_step:
  assumes "jiff_ok jz" "whole_minute jz c" "fires_at jz s after c = None"
  shows "\<exists>next k. k > 0 \<and> (\<forall>n. search_fire jz s after (Suc n) c = Option.bind next (search_fire jz s after n)) \<and>
    (\<forall>n. scan_fire jz s after (k + n) c = Option.bind next (scan_fire jz s after n)) \<and>
    (\<forall>c'. next = Some c' \<longrightarrow> whole_minute jz c')"
proof -
  obtain d h m where c: "c = at_time d h m" "whole_minute jz (at_time d h m)"
    using assms(2) by (rule whole_minute_cases)
  consider (day) "\<not> matches_date (jz_weekday jz) (sc_expr s) d"
    | (hour) "matches_date (jz_weekday jz) (sc_expr s) d" "\<not> matches_hour (sc_expr s) h"
    | (minute) "matches_date (jz_weekday jz) (sc_expr s) d" "matches_hour (sc_expr s) h"
    by blast
  then show ?thesis
  proof cases
    case day
    then obtain k where "k > 0" "\<forall>n. scan_fire jz s after (k + n) c =
        Option.bind (start_of_next_day jz c) (scan_fire jz s after n)"
      using skip_day [OF assms(1) _ c(2), of s after] c(1) by (auto simp: fires_at_def)
    then show ?thesis
      using day c(1) next_day_whole [OF assms(1,2)]
      by (intro exI [of _ "start_of_next_day jz c"] exI [of _ k]) simp
  next
    case hour
    then have "scan_fire jz s after (nat (60 - m) + n) c =
        Option.bind (start_of_next_hour jz c) (scan_fire jz s after n)" for n
      using skip_hour [OF assms(1) _ c(2), of s after n] c(1) by (simp add: fires_at_def)
    moreover have "nat (60 - m) > 0"
      using c(2) by simp
    ultimately show ?thesis
      using hour c(1) next_hour_whole [OF assms(1,2)]
      by (intro exI [of _ "start_of_next_hour jz c"] exI [of _ "nat (60 - m)"]) simp
  next
    case minute
    then show ?thesis
      using assms(3) c(1) add_minute_whole [OF assms(1,2)]
      by (intro exI [of _ "jz_add_minute jz c"] exI [of _ 1]) (auto simp: fires_at_def)
  qed
qed

lemma search_fires: "fires_at jz s after c = Some t \<Longrightarrow> search_fire jz s after (Suc n) c = Some t"
  by (auto simp: fires_at_def split: if_splits)

lemma search_scan:
  assumes "jiff_ok jz" "whole_minute jz c" "search_fire jz s after n c = Some t"
  shows "\<exists>k. scan_fire jz s after k c = Some t"
  using assms(2,3)
proof (induction n arbitrary: c)
  case (Suc n)
  show ?case
  proof (cases "fires_at jz s after c")
    case (Some u)
    then show ?thesis
      using Suc.prems(2) search_fires [OF Some, of n] by (intro exI [of _ 1]) simp
  next
    case None
    obtain nx k where step: "\<forall>n. search_fire jz s after (Suc n) c = Option.bind nx (search_fire jz s after n)"
        "\<forall>n. scan_fire jz s after (k + n) c = Option.bind nx (scan_fire jz s after n)"
        "\<forall>c'. nx = Some c' \<longrightarrow> whole_minute jz c'"
      using search_step [OF assms(1) Suc.prems(1) None] by blast
    then obtain c' where c': "nx = Some c'" "search_fire jz s after n c' = Some t"
      using Suc.prems(2) by (metis bind_eq_Some_conv)
    then obtain j where "scan_fire jz s after j c' = Some t"
      using Suc.IH step(3) by blast
    then show ?thesis
      using step(2) c'(1) by (intro exI [of _ "k + j"]) simp
  qed
qed simp

lemma search_mono: "search_fire jz s after n c = Some t \<Longrightarrow> n \<le> n' \<Longrightarrow> search_fire jz s after n' c = Some t"
proof (induction n arbitrary: c n')
  case (Suc n)
  then obtain p where "n' = Suc p" "n \<le> p"
    by (cases n') auto
  then show ?case
    using Suc.prems(1) Suc.IH by (auto simp: bind_eq_Some_conv split: if_splits option.splits)
qed simp

lemma scan_mono: "scan_fire jz s after n c = Some t \<Longrightarrow> n \<le> n' \<Longrightarrow> scan_fire jz s after n' c = Some t"
proof (induction n arbitrary: c n')
  case (Suc n)
  then obtain p where "n' = Suc p" "n \<le> p"
    by (cases n') auto
  then show ?case
    using Suc.prems(1) Suc.IH by (auto simp: bind_eq_Some_conv split: option.splits)
qed simp

lemma scan_search:
  assumes "jiff_ok jz" "whole_minute jz c" "scan_fire jz s after n c = Some t"
  shows "search_fire jz s after n c = Some t"
  using assms(2,3)
proof (induction n arbitrary: c rule: less_induct)
  case (less n)
  then obtain m where n: "n = Suc m" by (cases n) auto
  show ?case
  proof (cases "fires_at jz s after c")
    case (Some u)
    then show ?thesis using less.prems(2) search_fires [OF Some] n by simp
  next
    case None
    obtain nx k where step: "k > 0" "\<forall>n. search_fire jz s after (Suc n) c = Option.bind nx (search_fire jz s after n)"
        "\<forall>n. scan_fire jz s after (k + n) c = Option.bind nx (scan_fire jz s after n)"
        "\<forall>c'. nx = Some c' \<longrightarrow> whole_minute jz c'"
      using search_step [OF assms(1) less.prems(1) None] by blast
    have "scan_fire jz s after (k + (n - k)) c = Some t"
      using scan_mono [OF less.prems(2)] by simp
    then obtain c' where c': "nx = Some c'" "scan_fire jz s after (n - k) c' = Some t"
      using step(3) by (metis bind_eq_Some_conv)
    then have "search_fire jz s after (n - k) c' = Some t"
      using less.IH [of "n - k" c'] step(1,4) n by simp
    then have "search_fire jz s after (Suc (n - k)) c = Some t"
      using step(2) c'(1) by simp
    then show ?thesis
      by (rule search_mono) (use step(1) n in simp)
  qed
qed

text \<open>What the scan finds, in words: the first civil minute that fires.\<close>

fun nth_minute :: "'z jiff \<Rightarrow> nat \<Rightarrow> civil \<Rightarrow> civil option" where
  "nth_minute jz 0 c = Some c"
| "nth_minute jz (Suc n) c = Option.bind (jz_add_minute jz c) (nth_minute jz n)"

lemma scan_first:
  "scan_fire jz s after n c = Some t \<longleftrightarrow>
     (\<exists>k < n. \<exists>c'. nth_minute jz k c = Some c' \<and> fires_at jz s after c' = Some t \<and>
        (\<forall>j < k. \<forall>c'. nth_minute jz j c = Some c' \<longrightarrow> fires_at jz s after c' = None))"
proof (induction n arbitrary: c)
  case (Suc n)
  show ?case
  proof (cases "fires_at jz s after c")
    case (Some u)
    have "k = 0" if "\<forall>j < k. \<forall>c'. nth_minute jz j c = Some c' \<longrightarrow> fires_at jz s after c' = None" for k
      using that Some by (cases k) auto
    then show ?thesis
      using Some by (fastforce intro: exI [of _ 0])
  next
    case None
    have "(\<exists>k < Suc n. P k) \<longleftrightarrow> P 0 \<or> (\<exists>k < n. P (Suc k))" for P
      by (metis gr0_implies_Suc less_Suc_eq_0_disj)
    then show ?thesis
      using None Suc.IH by (cases "jz_add_minute jz c") (auto simp: All_less_Suc2)
  qed
qed simp

lemma fires_after: "fires_at jz s after c = Some t \<Longrightarrow> after < t"
  by (auto simp: fires_at_def fires_def split: if_splits option.splits)

lemma next_fire_start:
  assumes "jiff_ok jz"
  shows "next_fire_after jz s after =
    (case jz_civil_of jz (sc_tz s) after of
       None \<Rightarrow> None
     | Some c \<Rightarrow> Option.bind (jz_add_minute jz (at_time (cv_date c) (cv_hour c) (cv_minute c)))
         (search_fire jz s after CRON_SEARCH_STEP_COUNT_MAX))"
    "jz_civil_of jz (sc_tz s) after = Some c \<Longrightarrow> whole_minute jz (at_time (cv_date c) (cv_hour c) (cv_minute c))"
proof -
  have v: "jz_valid jz (at_time (cv_date c) (cv_hour c) (cv_minute c)) \<and> 0 \<le> cv_hour c \<and> cv_hour c \<le> 23 \<and>
      0 \<le> cv_minute c \<and> cv_minute c \<le> 59" if "jz_civil_of jz (sc_tz s) after = Some c" for c
    using assms that unfolding jiff_ok_def by blast
  then show "next_fire_after jz s after =
    (case jz_civil_of jz (sc_tz s) after of
       None \<Rightarrow> None
     | Some c \<Rightarrow> Option.bind (jz_add_minute jz (at_time (cv_date c) (cv_hour c) (cv_minute c)))
         (search_fire jz s after CRON_SEARCH_STEP_COUNT_MAX))"
    by (auto simp: next_fire_after_def start_of_minute_def datetime_new_def split: option.split)
  show "jz_civil_of jz (sc_tz s) after = Some c \<Longrightarrow> whole_minute jz (at_time (cv_date c) (cv_hour c) (cv_minute c))"
    using v by simp
qed

lemma next_fire_later: "next_fire_after jz s after = Some t \<Longrightarrow> after < t"
proof -
  have "search_fire jz s after n c = Some t \<Longrightarrow> after < t" for n c
    by (induction n arbitrary: c) (auto simp: fires_def bind_eq_Some_conv split: if_splits option.splits)
  then show "next_fire_after jz s after = Some t \<Longrightarrow> after < t"
    by (auto simp: next_fire_after_def bind_eq_Some_conv)
qed

end
