(* ===== verification/Cron_Safety.thy ===== *)
theory Cron_Safety
  imports Cron_Driver Cron_Search Queue_Machine
begin

text \<open>
  Safety of the cron driver: its operations are operations of the queue's machine, a firing is one
  job for ever, and a firing moves the schedule's watermark.
\<close>

section \<open>The driver moves the node like the queue does\<close>

context queue_relation
begin

lemma register_R: "oinv R (register jz cfg dc project_id spec)"
  unfolding register_def by (intro R_steps)

lemma supersede_one_R: "oinv R (supersede_one cfg dc cron_id job_id report)"
  unfolding supersede_one_def by (intro R_steps supersede_R)

lemma fire_R: "oinv R (fire cfg dc project_id cron scheduled report)"
  unfolding fire_def by (intro R_steps enqueue_R)

lemma tick_one_R: "oinv R (tick_one jz cfg dc project_id now cron report)"
  unfolding tick_one_def Let_def by (intro R_steps oinv_case_option supersede_one_R fire_R)

lemma tick_R: "oinv R (tick jz cfg dc project_id)"
  unfolding tick_def tick_enabled_def by (intro R_steps tick_one_R)

end

section \<open>The key of a firing\<close>

lemma cron_key_inject: "cron_key c t = cron_key c' t' \<longleftrightarrow> c = c' \<and> t = t'"
  by (auto simp: cron_key_def append_eq_append_conv length_to_hex word_unat_eq_iff)

section \<open>Registration\<close>

lemma crons_apply: "pr_apply (crons_projection dc) = apply_kinds dc CRONS_TABLE
    [''CronRegistered'', ''CronEnablementSet'', ''JobEnqueued''] crons_writes"
  by (simp add: crons_projection_def apply_crons_def)

lemma crons_name [simp]:
  "tbl_name CRONS_TABLE = ''proj_crons''" "pr_table (crons_projection dc) = CRONS_TABLE"
  by (simp_all add: CRONS_TABLE_def crons_projection_def)

lemma cron_fact_effect:
  assumes "log_append (request :: 'b append_request) nd = (Inr s, nd')"
    "job_request cfg dc job_id e = Inr request" "log_sound (nd_log nd)"
    "crons_projection dc \<in> set (pl_registry (nd_log nd))" "domain_codec_ok dc"
    "log_tables (nd_log nd) ''proj_crons'' = Some t"
    "domain_kind_tag e \<in> {''CronRegistered'', ''CronEnablementSet'', ''JobEnqueued''}"
  shows "\<exists>(ev :: 'b event) t'. ev_ts_ms ev = nd_clock nd (nd_ticks nd) \<and>
     rfold (execute_write CRONS_TABLE) (crons_writes ev e) t = Inr t' \<and>
     log_tables (nd_log nd') ''proj_crons'' = Some t'"
proof -
  obtain seqs where a: "log_append_inner None [request] nd = (Inr seqs, nd')"
    using assms(1) by (auto simp: log_append_def obind_def oret_def split: prod.splits sum.splits)
  have req: "into_request dc e (qc_device cfg) (System job_id) = Inr request"
    using assms(2) by (simp add: job_request_def)
  show ?thesis
    using core_append [OF a assms(3,4) _ req assms(5) crons_apply [of dc, folded crons_name(2) [of dc]], of t]
      assms(6,7) by auto
qed

text \<open>Registering a schedule, again too, leaves it without a watermark.\<close>

lemma register_clears_watermark:
  assumes "register jz cfg (dc :: 'b domain_codec) project_id spec nd = (Inr (), nd')" "log_sound (nd_log nd)"
    "crons_projection dc \<in> set (pl_registry (nd_log nd))" "domain_codec_ok dc"
  shows "\<exists>r. cron_row_of (nd_log nd') (cs_cron_id spec) = Some r \<and> r ''last_fired_ts_ms'' = CNull \<and>
    r ''registered_ts_ms'' = CInteger (sat_i64 (nd_clock nd (nd_ticks nd)))"
proof -
  let ?e = "registered_event project_id spec"
  have f: "append_job_fact cfg dc (cs_cron_id spec) ?e nd = (Inr (), nd')"
    using assms(1) by (auto simp: register_def obind_def oread_def split: sum.splits)
  obtain request s where a: "job_request cfg dc (cs_cron_id spec) ?e = Inr request" "log_append request nd = (Inr s, nd')"
    using append_job_fact_ok [OF f] by blast
  obtain t where t: "log_tables (nd_log nd) ''proj_crons'' = Some t"
    using crons_table_of [OF assms(2,3)] by (auto simp: log_tables_def)
  obtain ev :: "'b event" and t' where ev: "ev_ts_ms ev = nd_clock nd (nd_ticks nd)"
      "rfold (execute_write CRONS_TABLE) (crons_writes ev ?e) t = Inr t'" "log_tables (nd_log nd') ''proj_crons'' = Some t'"
    using cron_fact_effect [OF a(2,1) assms(2-4) t] by (auto simp: registered_event_def)
  then obtain r where "map_of t' [CBlob (into_bytes (cs_cron_id spec))] = Some r" "r ''last_fired_ts_ms'' = CNull"
      "r ''registered_ts_ms'' = CInteger (sat_i64 (nd_clock nd (nd_ticks nd)))"
    by (auto simp: crons_writes_def registered_event_def rbind_Inr res_simps sql_upsert_def bind_values_def CRONS_TABLE_def null_key_def)
  then show ?thesis
    using ev(3) by (simp add: cron_row_of_def)
qed

text \<open>The job of a firing carries its instant into the schedule's watermark.\<close>

lemma firing_watermark:
  assumes "enqueue cfg (dc :: 'b domain_codec) project_id spec nd = (Inr (Enqueued i), nd')" "log_sound (nd_log nd)"
    "crons_projection dc \<in> set (pl_registry (nd_log nd))" "domain_codec_ok dc" "js_cron spec = Some origin"
  shows "\<exists>r. cron_row_of (nd_log nd') (co_cron_id origin) = Some r \<and>
    r ''last_fired_ts_ms'' = CInteger (sat_i64 (co_scheduled_ts_ms origin)) \<and> r ''last_job_id'' = CBlob (into_bytes i)"
proof -
  let ?e = "enqueued_event i project_id spec"
  obtain request s nd1 where a: "job_request cfg dc i ?e = Inr request" "log_append request nd = (Inr s, nd1)"
      "nd' = nd1\<lparr>sn_metrics := record_enqueued (sn_metrics nd1)\<rparr>"
    using enqueue_appends [OF assms(1)] by metis
  obtain t where t: "log_tables (nd_log nd) ''proj_crons'' = Some t"
    using crons_table_of [OF assms(2,3)] by (auto simp: log_tables_def)
  obtain ev :: "'b event" and t' where ev: "rfold (execute_write CRONS_TABLE) (crons_writes ev ?e) t = Inr t'"
      "log_tables (nd_log nd1) ''proj_crons'' = Some t'"
    using cron_fact_effect [OF a(2,1) assms(2-4) t] by (auto simp: enqueued_event_def)
  let ?as = "[(''last_fired_ts_ms'', integer_u64 (co_scheduled_ts_ms origin)), (''last_job_id'', id_blob i)]"
  have "crons_writes ev ?e = [UpdateOne [id_blob (co_cron_id origin)] ?as]"
    using assms(5) by (simp add: crons_writes_def enqueued_event_def)
  then have "execute_write CRONS_TABLE (UpdateOne [id_blob (co_cron_id origin)] ?as) t = Inr t'"
    using ev(1) by (simp del: execute_write.simps add: rbind_Inr)
  then obtain r0 where "t' = tbl_put (bind_values [id_blob (co_cron_id origin)]) (assign_row ?as r0) t"
    unfolding execute_update_one_Inr by blast
  then obtain r where "map_of t' [CBlob (into_bytes (co_cron_id origin))] = Some r"
      "r ''last_fired_ts_ms'' = CInteger (sat_i64 (co_scheduled_ts_ms origin))" "r ''last_job_id'' = CBlob (into_bytes i)"
    by (simp add: bind_values_def)
  then show ?thesis
    using ev(2) a(3) by (simp add: cron_row_of_def)
qed

section \<open>A firing is one job\<close>

lemma log_append_failed:
  assumes "log_append request nd = (Inl e, nd')"
  shows "db_content (nd_store nd') = db_content (nd_store nd)"
  using assms
  by (auto simp: log_append_def obind_def oret_def log_append_inner_def append_batch_inner_def Let_def nd_store_def
      set_store_def split: prod.splits sum.splits if_splits dest: write_transaction_atomic)

lemma read_some_row:
  assumes "sched_read_job i nd = Inr (Some j)" "log_sound (nd_log nd)" "jobs_projection dc \<in> set (pl_registry (nd_log nd))"
  shows "job_row_of (nd_log nd) i \<noteq> None"
  using sched_read_job_row [OF assms(2,3) sched_read_live [OF assms(1)], of i] assms(1) by (auto split: option.splits)

lemma enqueue_duplicate:
  assumes "enqueue cfg (dc :: 'b domain_codec) project_id spec nd = (Inr (Duplicate i), nd')" "queue_inv dc nd"
  shows "i = spec_job_id project_id spec nd" "job_spec_validate spec = Inr ()"
    "job_row_of (nd_log nd') i \<noteq> None" "db_content (nd_store nd') = db_content (nd_store nd)"
proof -
  let ?i = "spec_job_id project_id spec nd"
  note q = assms(2) [unfolded queue_inv_def]
  obtain ex where ex: "sched_read_job ?i nd = Inr ex" and v: "job_spec_validate spec = Inr ()"
    using assms(1) by (auto simp: enqueue_def obind_def oread_def oget_def split: sum.splits)
  have "i = ?i \<and> job_row_of (nd_log nd') ?i \<noteq> None \<and> db_content (nd_store nd') = db_content (nd_store nd)"
  proof (cases ex)
    case (Some j)
    then have "nd' = nd\<lparr>sn_metrics := record_duplicate_enqueue (sn_metrics nd)\<rparr>" "i = ?i"
      using assms(1) ex v
      by (auto simp: enqueue_def duplicate_enqueue_def obind_def oread_def oget_def upd_metrics_def omod_def oret_def)
    then show ?thesis
      using read_some_row [of ?i nd j dc] ex Some q by (simp add: nd_store_def)
  next
    case None
    obtain request where req: "job_request cfg dc ?i (enqueued_event ?i project_id spec) = Inr request"
      by (simp add: job_request_Inr)
    have kind: "valid_kind_tag (ar_kind request)"
      using req by (auto simp: job_request_Inr domain_kind_tag_valid)
    have "enqueue_append ?i request nd = (Inr (Duplicate i), nd')"
      using assms(1) ex None v req by (simp add: enqueue_def obind_def oread_def oget_def)
    then obtain e nd1 j where ap: "log_append request nd = (Inl e, nd1)" and j: "sched_read_job ?i nd1 = Inr (Some j)"
        and nd': "nd' = nd1\<lparr>sn_metrics := record_duplicate_enqueue (sn_metrics nd1)\<rparr>" "i = ?i"
      by (auto simp: enqueue_append_def duplicate_enqueue_def obind_def oread_def upd_metrics_def omod_def oret_def ofail_def
          split: prod.splits sum.splits log_error.splits if_splits)
    have m: "log_moves nd nd1"
      using append_one_moves(1) [OF kind] ap unfolding oinv_def by (metis snd_conv)
    have "log_sound (nd_log nd1)" "jobs_projection dc \<in> set (pl_registry (nd_log nd1))"
      using log_moves_sound [OF m] m q by (auto simp: log_moves_def)
    then show ?thesis
      using read_some_row [OF j] log_append_failed [OF ap] nd' by (simp add: nd_store_def)
  qed
  with v show "i = ?i" "job_spec_validate spec = Inr ()"
    "job_row_of (nd_log nd') i \<noteq> None" "db_content (nd_store nd') = db_content (nd_store nd)"
    by auto
qed

lemma enqueue_known:
  assumes "enqueue cfg (dc :: 'b domain_codec) project_id spec nd = (Inr outcome, nd')" "queue_inv dc nd"
  shows "outcome_job_id outcome = spec_job_id project_id spec nd" "job_spec_validate spec = Inr ()"
    "job_row_of (nd_log nd') (spec_job_id project_id spec nd) \<noteq> None"
  using assms enqueue_duplicate [of cfg dc project_id spec nd _ nd'] enqueue_new [of cfg dc project_id spec nd _ nd']
  by (cases outcome; fastforce simp: queue_inv_def)+

text \<open>
  What a tick of one schedule that fired did: the job of the due firing is new, and the schedule's
  watermark is the firing's instant.
\<close>

lemma tick_one_fired:
  assumes "tick_one jz cfg (dc :: 'b domain_codec) project_id now cron report nd = (Inr report', nd')" "queue_inv dc nd"
    "crons_projection dc \<in> set (pl_registry (nd_log nd))" "tr_fired report' \<noteq> tr_fired report"
  shows "\<exists>schedule due i r. cron_schedule_of jz (cn_expr cron) (cn_tz cron) = Inr schedule \<and>
    due_firing jz schedule (watermark_ts_ms cron) now = Some due \<and> tr_fired report' = tr_fired report @ [i] \<and>
    job_row_of (nd_log nd') i \<noteq> None \<and> cron_row_of (nd_log nd') (cn_cron_id cron) = Some r \<and>
    r ''last_fired_ts_ms'' = CInteger (sat_i64 (df_scheduled_ts_ms due)) \<and> r ''last_job_id'' = CBlob (into_bytes i)"
proof -
  obtain schedule due where sd: "cron_schedule_of jz (cn_expr cron) (cn_tz cron) = Inr schedule"
      "due_firing jz schedule (watermark_ts_ms cron) now = Some due"
    using assms(1,4) by (auto simp: tick_one_def obind_def oread_def oret_def split: sum.splits option.splits)
  let ?r1 = "report\<lparr>tr_missed_tick_count := tr_missed_tick_count report + df_missed_count due\<rparr>"
  obtain live where live: "live_jobs_of cron nd = Inr live"
    using assms(1) sd by (auto simp: tick_one_def obind_def oread_def Let_def split: sum.splits)
  let ?pre = "if cn_overlap_policy cron = CancelPrevious
      then ofold (supersede_one cfg dc (cn_cron_id cron)) live ?r1 else oret ?r1"
  have "\<not> (cn_overlap_policy cron = Skip \<and> live \<noteq> [])"
    using assms(1,4) sd live by (cases "live = []") (auto simp: tick_one_def obind_def oread_def oret_def Let_def)
  then obtain r2 nd2 where pre: "?pre nd = (Inr r2, nd2)"
      and f: "fire cfg dc project_id cron (df_scheduled_ts_ms due) r2 nd2 = (Inr report', nd')"
    using assms(1) sd live by (auto simp: tick_one_def obind_def oread_def Let_def split: prod.splits sum.splits)
  have keep: "tr_fired r = tr_fired s" if "ofold (supersede_one cfg dc c) js s n = (Inr r, n')" for c js s n r n'
    using that
  proof (induction js arbitrary: s n)
    case (Cons a js)
    then show ?case
      by (auto simp: obind_def supersede_one_def oret_def split: prod.splits sum.splits)
  qed (simp add: oret_def)
  have fired: "tr_fired r2 = tr_fired report"
    using pre keep [of "cn_cron_id cron" live ?r1 nd r2 nd2] by (auto simp: oret_def split: if_splits)
  have "oinv (queue_moves dc) ?pre"
    by (intro qledger.R_steps qledger.supersede_one_R)
  then have m: "queue_moves dc nd nd2"
    using pre unfolding oinv_def by (metis snd_conv)
  then have inv: "queue_inv dc nd2" "crons_projection dc \<in> set (pl_registry (nd_log nd2))"
    using queue_moves_inv [OF m assms(2)] assms(3) by (auto simp: queue_moves_def log_moves_def)
  obtain kind outcome where e: "enqueue cfg dc project_id (firing_spec cron kind (df_scheduled_ts_ms due)) nd2 = (Inr outcome, nd')"
      "report' = (if is_duplicate outcome then r2 else r2\<lparr>tr_fired := tr_fired r2 @ [outcome_job_id outcome]\<rparr>)"
    using f by (auto simp: fire_def obind_def oread_def oret_def split: prod.splits sum.splits)
  obtain i where i: "outcome = Enqueued i"
    using e(2) assms(4) fired by (cases outcome) auto
  have "log_sound (nd_log nd2)" "domain_codec_ok dc"
    using inv(1) by (auto simp: queue_inv_def)
  note wm = firing_watermark [OF e(1) [unfolded i] this(1) inv(2) this(2)]
  have "js_cron (firing_spec cron kind (df_scheduled_ts_ms due)) = Some (JobCronOriginFields (cn_cron_id cron) (df_scheduled_ts_ms due))"
    by (simp add: firing_spec_def)
  from wm [OF this] show ?thesis
    using sd e(2) i fired enqueue_known [OF e(1) inv(1)] by (intro exI [of _ schedule] exI [of _ due] exI [of _ i]) auto
qed

end
