(* ===== verification/Cron_Properties.thy ===== *)
theory Cron_Properties
  imports Cron_Search
begin

text \<open>
  The properties of cron schedules, exercised on a small calendar: years of twelve months of
  thirty-one days, and one zone in which civil time is the instant.
\<close>

section \<open>Firings in sequence\<close>

lemma preview_runs_sorted:
  "sorted_wrt (<) (cursor # preview_runs jz s n cursor) \<and> length (preview_runs jz s n cursor) \<le> n"
proof (induction n arbitrary: cursor)
  case (Suc n)
  show ?case
  proof (cases "next_fire_after jz s cursor")
    case (Some t)
    then show ?thesis
      using Suc.IH [of t] next_fire_later [OF Some] by (auto dest: less_trans)
  qed simp
qed simp

lemma due_scan_chain:
  assumes "due_scan jz s now n (cursor, l, k) = (latest, count)" "unat k + n < 2 ^ 32"
  shows "\<exists>j \<le> n. unat count = unat k + j \<and> length (preview_runs jz s j cursor) = j \<and>
    latest = (if j = 0 then l else Some (last (preview_runs jz s j cursor))) \<and>
    (\<forall>t \<in> set (preview_runs jz s j cursor). t \<le> now) \<and>
    (j < n \<longrightarrow> (\<forall>t. next_fire_after jz s (last (cursor # preview_runs jz s j cursor)) = Some t \<longrightarrow> now < t))"
  using assms
proof (induction n arbitrary: cursor l k)
  case (Suc n)
  show ?case
  proof (cases "\<exists>t. next_fire_after jz s cursor = Some t \<and> t \<le> now")
    case True
    then obtain t where t: "next_fire_after jz s cursor = Some t" "t \<le> now"
      by blast
    have k: "unat (k + 1) = Suc (unat k)"
      using Suc.prems(2) unat_add_no_overflow [of k 1] by simp
    then have "due_scan jz s now n (t, Some t, k + 1) = (latest, count)" "unat (k + 1) + n < 2 ^ 32"
      using Suc.prems t by auto
    from Suc.IH [OF this] obtain j where "j \<le> n" "unat count = unat (k + 1) + j"
        "length (preview_runs jz s j t) = j"
        "latest = (if j = 0 then Some t else Some (last (preview_runs jz s j t)))"
        "\<forall>u \<in> set (preview_runs jz s j t). u \<le> now"
        "j < n \<longrightarrow> (\<forall>u. next_fire_after jz s (last (t # preview_runs jz s j t)) = Some u \<longrightarrow> now < u)"
      by blast
    then show ?thesis
      using t k by (intro exI [of _ "Suc j"]) auto
  next
    case False
    then have "latest = l" "count = k"
      using Suc.prems(1) by (auto split: option.splits if_splits)
    with False show ?thesis
      by (intro exI [of _ 0]) (auto simp: not_le)
  qed
qed (auto intro: exI [of _ 0])

lemma due_firing_chain:
  "case due_firing jz s watermark now of
     None \<Rightarrow> (\<forall>t. next_fire_after jz s (sat_i64 watermark) = Some t \<longrightarrow> sat_i64 now < t)
   | Some due \<Rightarrow>
       (let runs = preview_runs jz s (Suc (unat (df_missed_count due))) (sat_i64 watermark)
        in length runs = Suc (unat (df_missed_count due)) \<and> (\<forall>t \<in> set runs. sat_i64 watermark < t \<and> t \<le> sat_i64 now) \<and>
           int (unat (df_scheduled_ts_ms due)) = last runs \<and>
           (Suc (unat (df_missed_count due)) < CRON_CATCHUP_SCAN_COUNT_MAX \<longrightarrow>
              (\<forall>t. next_fire_after jz s (last runs) = Some t \<longrightarrow> sat_i64 now < t)))"
proof -
  obtain latest count where ds: "due_scan jz s (sat_i64 now) CRON_CATCHUP_SCAN_COUNT_MAX (sat_i64 watermark, None, 0) = (latest, count)"
    by (cases "due_scan jz s (sat_i64 now) CRON_CATCHUP_SCAN_COUNT_MAX (sat_i64 watermark, None, 0)")
  let ?runs = "\<lambda>j. preview_runs jz s j (sat_i64 watermark)"
  obtain j where j: "j \<le> CRON_CATCHUP_SCAN_COUNT_MAX" "unat count = j" "length (?runs j) = j"
      "latest = (if j = 0 then None else Some (last (?runs j)))" "\<forall>t \<in> set (?runs j). t \<le> sat_i64 now"
      "j < CRON_CATCHUP_SCAN_COUNT_MAX \<longrightarrow>
         (\<forall>t. next_fire_after jz s (last (sat_i64 watermark # ?runs j)) = Some t \<longrightarrow> sat_i64 now < t)"
    using due_scan_chain [OF ds] by (auto simp: CRON_CATCHUP_SCAN_COUNT_MAX_def)
  show ?thesis
  proof (cases j)
    case 0
    then show ?thesis
      using j ds by (simp add: due_firing_def CRON_CATCHUP_SCAN_COUNT_MAX_def)
  next
    case (Suc i)
    have ne: "?runs j \<noteq> []"
      using j(3) Suc by auto
    have gt: "\<forall>t \<in> set (?runs j). sat_i64 watermark < t"
      using preview_runs_sorted [of "sat_i64 watermark" jz s j] by simp
    have "0 \<le> sat_i64 watermark"
      by (simp add: sat_i64_nonneg)
    then have r: "0 \<le> last (?runs j)"
      using gt last_in_set [OF ne] by (meson less_imp_le order_trans)
    moreover have "last (?runs j) \<le> i64_max"
      using j(5) last_in_set [OF ne] sat_i64_le [of now] by (meson order_trans)
    ultimately have "uint (word_of_int (last (?runs j)) :: u64) = last (?runs j)"
      by (simp add: uint_word_of_int take_bit_int_eq_self i64_max_def)
    with r have t: "try_u64 (last (?runs j)) = Some (word_of_int (last (?runs j)))"
        "int (unat (word_of_int (last (?runs j)) :: u64)) = last (?runs j)"
      by (simp_all add: try_u64_def)
    have c: "unat (saturating_sub count 1) = i"
      using j(2) Suc by (simp add: unat_saturating_sub)
    show ?thesis
      using j ds Suc ne gt t c by (simp add: due_firing_def Let_def)
  qed
qed

section \<open>A sample calendar\<close>

definition sample_day :: "int \<Rightarrow> civil_date" where
  "sample_day n = \<lparr>da_year = n div 372, da_month = n mod 372 div 31 + 1, da_day = n mod 31 + 1\<rparr>"

definition day_number :: "civil_date \<Rightarrow> int" where
  "day_number d = da_year d * 372 + (da_month d - 1) * 31 + (da_day d - 1)"

definition sample_jiff :: "unit jiff" where
  "sample_jiff =
     \<lparr>jz_get_zone = (\<lambda>name. if name = ''UTC'' then Some () else None),
      jz_civil_of = (\<lambda>_ ts. let minutes = ts div 60000 in
         Some \<lparr>cv_date = sample_day (minutes div 1440), cv_hour = minutes mod 1440 div 60, cv_minute = minutes mod 60,
               cv_second = ts mod 60000 div 1000, cv_nanosecond = ts mod 1000 * 1000000\<rparr>),
      jz_weekday = (\<lambda>d. day_number d mod 7), jz_valid = (\<lambda>_. True),
      jz_add_minute = (\<lambda>c. Some (
         if cv_minute c < 59 then at_time (cv_date c) (cv_hour c) (cv_minute c + 1)
         else if cv_hour c < 23 then at_time (cv_date c) (cv_hour c + 1) 0
         else at_time (sample_day (day_number (cv_date c) + 1)) 0 0)),
      jz_add_day = (\<lambda>d. Some (sample_day (day_number d + 1))),
      jz_resolve = (\<lambda>_ c. Some ((day_number (cv_date c) * 1440 + cv_hour c * 60 + cv_minute c) * 60000))\<rparr>"


definition sample_schedule :: "unit cron_schedule" where
  "sample_schedule = \<lparr>sc_expr = \<lparr>ce_minutes = 1, ce_hours = 8, ce_days_of_month = 0xfffffffe, ce_months = 0x1ffe,
     ce_days_of_week = 127, ce_day_of_month_restricted = False, ce_day_of_week_restricted = False\<rparr>,
     sc_tz = (), sc_tz_name = ''UTC''\<rparr>"

lemma sample_parse: "cron_schedule_new sample_jiff ''0 3 * * *'' ''UTC'' = Inr sample_schedule"
  by code_simp

lemma sample_due:
  "due_firing sample_jiff sample_schedule 1000 20000000 = Some \<lparr>df_scheduled_ts_ms = 10800000, df_missed_count = 0\<rparr>"
  by code_simp

section \<open>Properties\<close>

text \<open>
  C24: a parsed cron field selects what its text says. When a field with a range inside 0..63 parses,
  every item of its comma-separated list is a range with a positive step, a value is in the bit set
  exactly when some item selects it (it lies in the item's range, a whole number of steps from the
  start), every selected value lies in the field's range, and at least one value is selected.
\<close>
theorem cron_field_exact:
  assumes "parse_field t field lo hi = Inr bits" "lo \<le> hi" "hi < 64"
  shows "(\<forall>i. bit_set bits (int i) \<longleftrightarrow>
      (\<exists>part \<in> set (split_char (CHR '','') t). \<exists>first final step.
         item_range field lo hi part = Inr (first, final, step) \<and> first \<le> i \<and> i \<le> final \<and> step dvd (i - first))) \<and>
    (\<forall>part \<in> set (split_char (CHR '','') t). \<exists>first final step.
       item_range field lo hi part = Inr (first, final, step) \<and> lo \<le> first \<and> first \<le> final \<and> final \<le> hi \<and> 0 < step) \<and>
    (\<forall>i. bit_set bits (int i) \<longrightarrow> lo \<le> i \<and> i \<le> hi) \<and> (\<exists>i. bit_set bits (int i))"
  using parse_field_bit [OF assms] item_range_Inr [OF _ assms(2)]
  by (simp add: bit_set_bit item_selects_def) fastforce

theorem cron_field_exact_witness:
  "parse_field ''10-50/20,7'' ''minute'' 0 59 = Inr 0x0004000040000480 \<and> bit_set 0x0004000040000480 (int 30)"
proof -
  have p: "parse_field ''10-50/20,7'' ''minute'' 0 59 = Inr 0x0004000040000480"
    by code_simp
  have i: "item_range ''minute'' 0 59 ''10-50/20'' = Inr (10, 50, 20)" and s: "split_char (CHR '','') ''10-50/20,7'' = [''10-50/20'', ''7'']"
    by code_simp+
  show ?thesis
    using cron_field_exact [OF p, THEN conjunct1, THEN spec, of 30] p i s by auto
qed



text \<open>
  C23: a tick owes the latest firing it can see. The scan of missed firings starts at the watermark
  and collapses them into one: the scheduled instant is the last of the firings it visited, at or
  before now, the missed ones are the others, and unless the scan used all its
  \<open>CRON_CATCHUP_SCAN_COUNT_MAX\<close> rounds, no later firing is due. Nothing is owed exactly when no
  firing is due after the watermark.
\<close>
theorem due_firing_exact:
  "case due_firing jz s watermark now of
     None \<Rightarrow> (\<forall>t. next_fire_after jz s (sat_i64 watermark) = Some t \<longrightarrow> sat_i64 now < t)
   | Some due \<Rightarrow>
       (let runs = preview_runs jz s (Suc (unat (df_missed_count due))) (sat_i64 watermark)
        in length runs = Suc (unat (df_missed_count due)) \<and> (\<forall>t \<in> set runs. sat_i64 watermark < t \<and> t \<le> sat_i64 now) \<and>
           int (unat (df_scheduled_ts_ms due)) = last runs \<and>
           (Suc (unat (df_missed_count due)) < CRON_CATCHUP_SCAN_COUNT_MAX \<longrightarrow>
              (\<forall>t. next_fire_after jz s (last runs) = Some t \<longrightarrow> sat_i64 now < t)))"
  by (rule due_firing_chain)

theorem due_firing_exact_witness:
  "due_firing sample_jiff sample_schedule 0 200000000 = Some \<lparr>df_scheduled_ts_ms = 183600000, df_missed_count = 2\<rparr> \<and>
   (case next_fire_after sample_jiff sample_schedule 183600000 of None \<Rightarrow> True | Some t \<Rightarrow> 200000000 < t)"
proof -
  have d: "due_firing sample_jiff sample_schedule 0 200000000 = Some \<lparr>df_scheduled_ts_ms = 183600000, df_missed_count = 2\<rparr>"
    by code_simp
  have s: "sat_i64 200000000 = 200000000"
    by (simp add: sat_i64_def i64_max_def)
  show ?thesis
    using due_firing_exact [of sample_jiff sample_schedule 0 200000000] d s
    by (simp add: Let_def CRON_CATCHUP_SCAN_COUNT_MAX_def split: option.split)
qed

text \<open>
  A preview is bounded and in order: at most \<open>CRON_PREVIEW_COUNT_MAX\<close> runs and at most as many as
  asked for, strictly increasing and after the given instant.
\<close>
theorem preview_bounded:
  "length (preview jz s after count) \<le> unat (min count CRON_PREVIEW_COUNT_MAX) \<and>
   length (preview jz s after count) \<le> 32 \<and> sorted_wrt (<) (after # preview jz s after count)"
proof -
  have "unat (min count CRON_PREVIEW_COUNT_MAX) \<le> 32"
    by (simp add: min_def CRON_PREVIEW_COUNT_MAX_def word_le_nat_alt)
  then show ?thesis
    using preview_runs_sorted [of after jz s "unat (min count CRON_PREVIEW_COUNT_MAX)"]
    by (simp add: preview_def)
qed

end
