(* ===== verification/Cron_Firing.thy ===== *)
theory Cron_Firing
  imports Cron_Safety Cron_Properties Queue_Properties
begin

text \<open>
  The properties of the cron driver, exercised on the sample project with one registered schedule.
\<close>

section \<open>A registered schedule\<close>

definition digest_spec :: cron_spec where
  "digest_spec = \<lparr>cs_cron_id = 5, cs_job_kind = ''digest'', cs_expr = ''0 3 * * *'', cs_tz = ''UTC'',
     cs_overlap_policy = QueueFiring, cs_enabled = True, cs_priority = Normal, cs_class = Maintenance, cs_payload = []\<rparr>"

definition digest_cron :: cron_record where
  "digest_cron = CronRecordFields 5 9 ''digest'' ''0 3 * * *'' ''UTC'' QueueFiring True Normal Maintenance [] 1 1000 None None"

definition cron_node :: "body sched_node" where
  "cron_node = snd (register sample_jiff body_config body_codec 9 digest_spec body_node)"

lemma registered:
  "\<exists>request s. register sample_jiff body_config body_codec 9 digest_spec body_node = (Inr (), cron_node) \<and>
     log_append request body_node = (Inr s, cron_node) \<and> valid_kind_tag (ar_kind request) \<and>
     job_request body_config body_codec 5 (registered_event 9 digest_spec) = Inr request \<and>
     store_ready (nd_store cron_node) \<and> sn_leases cron_node = Some []"
proof -
  let ?e = "registered_event 9 digest_spec"
  obtain request where req: "job_request body_config body_codec 5 ?e = Inr request"
    by (simp add: job_request_Inr)
  have fits: "body_fits body_codec body_node ?e"
    by (rule queued_fits) (simp_all add: registered_event_def)
  have jobs: "\<exists>t'. rfold (execute_write JOBS_TABLE) (jobs_writes ev ?e) [] = Inr t'" for ev :: "body event"
    by (simp add: jobs_writes_def registered_event_def)
  have crons: "\<exists>u'. rfold (execute_write CRONS_TABLE) (crons_writes ev ?e) [] = Inr u'" for ev :: "body event"
    by (simp add: crons_writes_def registered_event_def rbind_Inr res_simps sql_upsert_def bind_values_def
        CRONS_TABLE_def null_key_def)
  have u: "log_tables body_log ''proj_crons'' = Some []"
    by (rule body_tables_empty) (simp add: core_table_names)
  have kind: "domain_kind_tag ?e \<in> set sched_kinds"
    by (simp add: registered_event_def sched_kinds_def)
  obtain s nd1 d where ap: "log_append request body_node = (Inr s, nd1)" "store_ready (nd_store nd1)"
      "nd1 = set_store ((nd_store body_node)\<lparr>db_content := d\<rparr>) (body_node\<lparr>nd_ticks := Suc (nd_ticks body_node)\<rparr>)"
    using sched_append_runs [OF body_node_ready fits req kind _ jobs _ crons] body_node_jobs u by auto
  have "register sample_jiff body_config body_codec 9 digest_spec body_node = (Inr (), nd1)"
    using ap(1) req sample_parse
    by (simp add: register_def cron_schedule_of_def digest_spec_def obind_def oread_def append_job_fact_def oerr_def oret_def)
  moreover have "valid_kind_tag (ar_kind request)"
    using req by (auto simp: job_request_Inr domain_kind_tag_valid)
  moreover have "sn_leases nd1 = Some []"
    using ap(3) by (simp add: set_store_def)
  ultimately show ?thesis
    using ap req by (auto simp: cron_node_def)
qed

lemma cron_node_ready: "node_ready body_codec cron_node" "sn_leases cron_node = Some []"
  using registered body_append_ready by blast+

lemma cron_node_inv: "queue_inv body_codec cron_node" "pl_externals (nd_log cron_node) = body_externals"
proof -
  have r: "register sample_jiff body_config body_codec 9 digest_spec body_node = (Inr (), cron_node)"
    using registered by blast
  then have m: "queue_moves body_codec body_node cron_node"
    using qledger.register_R [of body_codec sample_jiff body_config body_codec 9 digest_spec] unfolding oinv_def by (metis snd_conv)
  then show "queue_inv body_codec cron_node" "pl_externals (nd_log cron_node) = body_externals"
    using queue_moves_inv [OF m body_node_inv] by (auto simp: queue_moves_def log_moves_def)
qed

lemma cron_node_crons: "crons_projection body_codec \<in> set (pl_registry (nd_log cron_node))"
    "cron_row_of (nd_log cron_node) 5 \<noteq> None"
proof -
  show c: "crons_projection body_codec \<in> set (pl_registry (nd_log cron_node))"
    using cron_node_ready(1) by (simp add: node_ready_def core_registry_def crons_projection_def)
  have "crons_projection body_codec \<in> set (pl_registry (nd_log body_node))"
    by (simp add: core_registry_def crons_projection_def)
  moreover have "register sample_jiff body_config body_codec 9 digest_spec body_node = (Inr (), cron_node)"
    using registered by blast
  ultimately show "cron_row_of (nd_log cron_node) 5 \<noteq> None"
    using register_clears_watermark [of sample_jiff body_config body_codec 9 digest_spec body_node cron_node]
      node_ready_parts [OF body_node_ready] by (auto simp: digest_spec_def)
qed

lemma cron_node_jobs: "log_tables (nd_log cron_node) ''proj_jobs'' = Some []"
proof -
  obtain request s where a: "log_append request body_node = (Inr s, cron_node)"
      "job_request body_config body_codec 5 (registered_event 9 digest_spec) = Inr request"
    using registered by blast
  then obtain seqs where "log_append_inner None [request] body_node = (Inr seqs, cron_node)"
    by (auto simp: log_append_def obind_def oret_def split: prod.splits sum.splits)
  moreover have "into_request body_codec (registered_event 9 digest_spec) (qc_device body_config) (System 5) = Inr request"
    using a(2) by (simp add: job_request_def)
  moreover have "pr_apply (jobs_projection body_codec) = apply_kinds body_codec (pr_table (jobs_projection body_codec))
      [''JobEnqueued'', ''JobAttemptFailed'', ''JobCompleted'', ''JobDead''] jobs_writes"
    by (simp add: jobs_apply)
  ultimately show ?thesis
    using core_append [where expected = None and request = request and nd = body_node and seqs = seqs and nd' = cron_node
        and p = "jobs_projection body_codec" and t = "[]" and dc = body_codec and e = "registered_event 9 digest_spec"
        and device = "qc_device body_config" and actor = "System 5"
        and kinds = "[''JobEnqueued'', ''JobAttemptFailed'', ''JobCompleted'', ''JobDead'']" and writes = jobs_writes]
      body_node_jobs node_ready_parts [OF body_node_ready] body_codec_ok
    by (auto simp: registered_event_def)
qed

section \<open>A tick of it\<close>

lemma digest_due: "due_firing sample_jiff sample_schedule (watermark_ts_ms digest_cron) 20000000 =
    Some \<lparr>df_scheduled_ts_ms = 10800000, df_missed_count = 0\<rparr>"
  using sample_due by (simp add: watermark_ts_ms_def digest_cron_def)

lemma digest_fire:
  "\<exists>i nd'. fire body_config body_codec 9 digest_cron 10800000 report cron_node =
     (Inr (report\<lparr>tr_fired := tr_fired report @ [i]\<rparr>), nd') \<and> store_ready (nd_store nd')"
proof -
  let ?spec = "firing_spec digest_cron ''digest'' 10800000"
  let ?i = "spec_job_id 9 ?spec cron_node"
  have key: "cron_key 5 10800000 \<noteq> []" "length (cron_key 5 10800000) \<le> 128"
    by (simp_all add: cron_key_def length_to_hex dec_text.simps)
  have v: "job_spec_validate ?spec = Inr ()"
    using key by (simp add: job_spec_validate_def firing_spec_def job_spec_new_def digest_cron_def
        JOB_IDEMPOTENCY_KEY_LEN_MAX_def JOB_PAYLOAD_LEN_MAX_def JOB_RETRY_COUNT_MAX_def)
  have c: "\<forall>origin. js_cron ?spec = Some origin \<longrightarrow> cron_row_of (nd_log cron_node) (co_cron_id origin) \<noteq> None"
    using cron_node_crons(2) by (simp add: firing_spec_def digest_cron_def)
  have f: "body_fits body_codec cron_node (enqueued_event ?i 9 ?spec)"
    by (rule queued_fits) (simp_all add: cron_node_inv enqueued_event_def firing_spec_def opt_ref_def)
  obtain nd' where e: "enqueue body_config body_codec 9 ?spec cron_node = (Inr (Enqueued ?i), nd')" "store_ready (nd_store nd')"
    using enqueue_runs [OF cron_node_ready(1) v c _ f] cron_node_jobs by (auto simp: job_row_of_def)
  have "job_kind_new (cn_job_kind digest_cron) = Inr ''digest''"
    by (simp add: job_kind_new_def valid_job_kind_def valid_id_text_def is_id_char_def JOB_KIND_LEN_MAX_def
        is_ascii_alphanumeric_def digest_cron_def)
  then show ?thesis
    using e by (intro exI [of _ ?i] exI [of _ nd']) (simp add: fire_def obind_def oread_def oret_def)
qed

lemma digest_tick:
  "\<exists>i nd'. tick_one sample_jiff body_config body_codec 9 20000000 digest_cron tick_report_default cron_node =
     (Inr (tick_report_default\<lparr>tr_fired := [i]\<rparr>), nd')"
proof -
  note n = node_ready_parts [OF cron_node_ready(1)]
  obtain live where live: "live_jobs_of digest_cron cron_node = Inr live"
    using list_jobs_sound [OF n(1,2)] n(3) by (auto simp: live_jobs_of_def nd_store_def) (metis map_err.simps(2) rbind.simps(2))
  have s: "cron_schedule_of sample_jiff (cn_expr digest_cron) (cn_tz digest_cron) = Inr sample_schedule"
    using sample_parse by (simp add: cron_schedule_of_def digest_cron_def)
  obtain i nd' where f: "fire body_config body_codec 9 digest_cron 10800000 tick_report_default cron_node =
      (Inr (tick_report_default\<lparr>tr_fired := tr_fired tick_report_default @ [i]\<rparr>), nd')"
    using digest_fire by blast
  have r: "tick_report_default\<lparr>tr_missed_tick_count := tr_missed_tick_count tick_report_default + 0\<rparr> = tick_report_default"
    by (simp add: tick_report_default_def)
  have p: "cn_overlap_policy digest_cron = QueueFiring"
    by (simp add: digest_cron_def)
  show ?thesis
    using s digest_due live f r p
    by (simp add: tick_one_def obind_def oread_def oret_def Let_def tick_report_default_def)
qed

section \<open>Properties\<close>

text \<open>
  C21: a tick fires a schedule once and moves on. When the tick of one schedule reports a new job, the
  schedule's expression and zone are valid, a firing was due, exactly one job was added to the report
  and it is in the log, the schedule's watermark is now the firing's instant, and whatever a later
  tick with that watermark owes is strictly later.
\<close>
theorem cron_tick_advances:
  assumes "tick_one jz cfg dc project_id now cron report nd = (Inr report', nd')" "queue_inv dc nd"
    "crons_projection dc \<in> set (pl_registry (nd_log nd))" "tr_fired report' \<noteq> tr_fired report"
  shows "\<exists>schedule due i r. cron_schedule_of jz (cn_expr cron) (cn_tz cron) = Inr schedule \<and>
    due_firing jz schedule (watermark_ts_ms cron) now = Some due \<and> tr_fired report' = tr_fired report @ [i] \<and>
    job_row_of (nd_log nd') i \<noteq> None \<and> cron_row_of (nd_log nd') (cn_cron_id cron) = Some r \<and>
    r ''last_fired_ts_ms'' = CInteger (sat_i64 (df_scheduled_ts_ms due)) \<and>
    (\<forall>now' due'. due_firing jz schedule (df_scheduled_ts_ms due) now' = Some due' \<longrightarrow>
       df_scheduled_ts_ms due < df_scheduled_ts_ms due')"
proof -
  have due_i64: "uint (df_scheduled_ts_ms d) \<le> i64_max" if d: "due_firing jz schedule a b = Some d" for schedule a b d
  proof -
    let ?runs = "preview_runs jz schedule (Suc (unat (df_missed_count d))) (sat_i64 a)"
    have "length ?runs = Suc (unat (df_missed_count d))" "\<forall>t \<in> set ?runs. t \<le> sat_i64 b" "uint (df_scheduled_ts_ms d) = last ?runs"
      using due_firing_chain [of jz schedule a b] d by (auto simp: Let_def)
    then show ?thesis
      using sat_i64_le [of b] by (metis last_in_set length_0_conv nat.distinct(1) order_trans)
  qed
  have later: "a < df_scheduled_ts_ms d" if d: "due_firing jz schedule a b = Some d" "uint a \<le> i64_max" for schedule a b d
  proof -
    let ?runs = "preview_runs jz schedule (Suc (unat (df_missed_count d))) (sat_i64 a)"
    have "length ?runs = Suc (unat (df_missed_count d))" "\<forall>t \<in> set ?runs. sat_i64 a < t" "uint (df_scheduled_ts_ms d) = last ?runs"
      using due_firing_chain [of jz schedule a b] d(1) by (auto simp: Let_def)
    then have "sat_i64 a < uint (df_scheduled_ts_ms d)"
      by (metis last_in_set length_0_conv nat.distinct(1))
    then show ?thesis
      using d(2) by (simp add: sat_i64_def word_less_def)
  qed
  obtain schedule due i r where t: "cron_schedule_of jz (cn_expr cron) (cn_tz cron) = Inr schedule"
      "due_firing jz schedule (watermark_ts_ms cron) now = Some due" "tr_fired report' = tr_fired report @ [i]"
      "job_row_of (nd_log nd') i \<noteq> None" "cron_row_of (nd_log nd') (cn_cron_id cron) = Some r"
      "r ''last_fired_ts_ms'' = CInteger (sat_i64 (df_scheduled_ts_ms due))"
    using tick_one_fired [OF assms] by blast
  then show ?thesis
    using later [OF _ due_i64 [OF t(2)]] by blast
qed

theorem cron_tick_advances_witness:
  "\<exists>i nd'. tick_one sample_jiff body_config body_codec 9 20000000 digest_cron tick_report_default cron_node =
     (Inr (tick_report_default\<lparr>tr_fired := [i]\<rparr>), nd') \<and> job_row_of (nd_log nd') i \<noteq> None"
proof -
  obtain i nd' where t: "tick_one sample_jiff body_config body_codec 9 20000000 digest_cron tick_report_default cron_node =
     (Inr (tick_report_default\<lparr>tr_fired := [i]\<rparr>), nd')"
    using digest_tick by blast
  show ?thesis
    using cron_tick_advances [OF t cron_node_inv(1) cron_node_crons(1)] t by (auto simp: tick_report_default_def)
qed

text \<open>
  C22: an instant of a schedule is one job. The key of a firing's job determines the schedule and the
  instant, and once a firing has been turned into a job, firing the same instant of the schedule
  again, after any further steps of the log, adds nothing to the report and writes nothing.
\<close>
theorem cron_instant_fires_once:
  assumes "fire cfg dc project_id cron scheduled report nd = (Inr report', nd1)" "queue_inv dc nd"
    "log_step\<^sup>*\<^sup>* (nd_log nd1) (nd_log nd2)" "\<not> fail_stopped (nd_store nd2)"
  shows "fire cfg' dc project_id cron scheduled again nd2 =
      (Inr again, nd2\<lparr>sn_metrics := record_duplicate_enqueue (sn_metrics nd2)\<rparr>) \<and>
    (cron_key c t = cron_key c' t' \<longleftrightarrow> c = c' \<and> t = t')"
proof -
  obtain kind outcome where k: "job_kind_new (cn_job_kind cron) = Inr kind"
      and e: "enqueue cfg dc project_id (firing_spec cron kind scheduled) nd = (Inr outcome, nd1)"
    using assms(1) by (auto simp: fire_def obind_def oread_def oret_def split: prod.splits sum.splits)
  let ?spec = "firing_spec cron kind scheduled"
  note q = assms(2) [unfolded queue_inv_def]
  have m: "log_moves nd nd1"
    using qlog.enqueue_R [of cfg dc project_id ?spec] e unfolding oinv_def by (metis snd_conv)
  have l1: "log_sound (nd_log nd1)" "jobs_projection dc \<in> set (pl_registry (nd_log nd1))"
      "pl_externals (nd_log nd1) = pl_externals (nd_log nd)"
    using log_moves_sound [OF m] m q by (auto simp: log_moves_def)
  have l2: "log_sound (nd_log nd2)" "jobs_projection dc \<in> set (pl_registry (nd_log nd2))"
      "pl_externals (nd_log nd2) = pl_externals (nd_log nd1)"
    using plog.run_good_extends [OF assms(3) l1(1)] log_steps_parts [OF assms(3)] l1(2) by auto
  have i: "spec_job_id project_id ?spec nd2 = spec_job_id project_id ?spec nd"
    using l1(3) l2(3) by (simp add: spec_job_id_def)
  obtain r where "job_row_of (nd_log nd1) (spec_job_id project_id ?spec nd) = Some r"
    using enqueue_known(3) [OF e assms(2)] by blast
  then obtain r' where r': "job_row_of (nd_log nd2) (spec_job_id project_id ?spec nd2) = Some r'"
    using job_row_persists [OF assms(3) l1(1,2)] i by metis
  have "enqueue cfg' dc project_id ?spec nd2 = (Inr (Duplicate (spec_job_id project_id ?spec nd2)),
      nd2\<lparr>sn_metrics := record_duplicate_enqueue (sn_metrics nd2)\<rparr>)"
    by (rule enqueue_existing [OF l2(1,2) assms(4) enqueue_known(2) [OF e assms(2)] r'])
  then show ?thesis
    using k cron_key_inject by (simp add: fire_def obind_def oread_def oret_def)
qed

theorem cron_instant_fires_once_witness:
  "\<exists>report' nd1. fire body_config body_codec 9 digest_cron 10800000 tick_report_default cron_node = (Inr report', nd1) \<and>
     fst (fire body_config body_codec 9 digest_cron 10800000 report' nd1) = Inr report'"
proof -
  obtain report' nd1 where f: "fire body_config body_codec 9 digest_cron 10800000 tick_report_default cron_node = (Inr report', nd1)"
      "\<not> fail_stopped (nd_store nd1)"
    using digest_fire by (fastforce simp: store_ready_def)
  show ?thesis
    using cron_instant_fires_once [OF f(1) cron_node_inv(1) rtranclp.rtrancl_refl f(2)] f by fastforce
qed

text \<open>
  Registering a schedule starts it afresh. After a successful registration, a first one or the
  re-registration of a schedule that already fired, the expression is one the parser accepts and the
  stored row has no last firing: the schedule's watermark is the moment of the registration.
\<close>
theorem registration_resets_watermark:
  assumes "register jz cfg dc project_id spec nd = (Inr (), nd')" "queue_inv dc nd"
    "crons_projection dc \<in> set (pl_registry (nd_log nd))"
  shows "(\<exists>schedule. cron_schedule_of jz (cs_expr spec) (cs_tz spec) = Inr schedule) \<and>
    (\<exists>r. cron_row_of (nd_log nd') (cs_cron_id spec) = Some r \<and> r ''last_fired_ts_ms'' = CNull \<and>
      r ''registered_ts_ms'' = CInteger (sat_i64 (nd_clock nd (nd_ticks nd))))"
proof -
  have "\<exists>schedule. cron_schedule_of jz (cs_expr spec) (cs_tz spec) = Inr schedule"
    using assms(1) by (auto simp: register_def obind_def oread_def split: sum.splits)
  moreover have "\<exists>r. cron_row_of (nd_log nd') (cs_cron_id spec) = Some r \<and> r ''last_fired_ts_ms'' = CNull \<and>
      r ''registered_ts_ms'' = CInteger (sat_i64 (nd_clock nd (nd_ticks nd)))"
    using register_clears_watermark [OF assms(1)] assms(2,3) by (simp add: queue_inv_def)
  ultimately show ?thesis by blast
qed

theorem registration_resets_watermark_witness:
  "\<exists>r. cron_row_of (nd_log cron_node) 5 = Some r \<and> r ''last_fired_ts_ms'' = CNull \<and> r ''registered_ts_ms'' = CInteger 1000"
proof -
  have r: "register sample_jiff body_config body_codec 9 digest_spec body_node = (Inr (), cron_node)"
    using registered by blast
  have "crons_projection body_codec \<in> set (pl_registry (nd_log body_node))"
    by (simp add: core_registry_def crons_projection_def)
  then show ?thesis
    using registration_resets_watermark [OF r body_node_inv] by (simp add: digest_spec_def sat_i64_def i64_max_def)
qed

end
