(* ===== verification/Pool.thy ===== *)
theory Pool
  imports Cron_Driver
begin

text \<open>
  The worker pool of \<open>crates/pos-sched/src/pool.rs\<close>: the handler and project registries, the
  round-robin claim, the run of one job, and the maintenance sweep. The pool's tasks share the queue
  (its jitter and metrics), the clock and the registries; each project has its log and its ledger.
  A task body is a function on the pool; the tasks' interleaving is the machine of \<open>Pool_Safety\<close>.
\<close>

section \<open>Configuration\<close>

definition HANDLER_REGISTRY_COUNT_MAX :: nat where
  "HANDLER_REGISTRY_COUNT_MAX = 64"

definition PROJECT_REGISTRY_COUNT_MAX :: nat where
  "PROJECT_REGISTRY_COUNT_MAX = 64"

record class_config =
  cc_class :: job_class
  cc_worker_count_max :: u16

definition class_defaults :: "class_config list" where
  "class_defaults =
     [\<lparr>cc_class = Foreground, cc_worker_count_max = 4\<rparr>, \<lparr>cc_class = Ingest, cc_worker_count_max = 2\<rparr>,
      \<lparr>cc_class = Maintenance, cc_worker_count_max = 1\<rparr>]"

record worker_pool_config =
  wc_classes :: "class_config list"
  wc_idle_poll_interval_ms :: u64
  wc_heartbeat_interval_ms :: u64
  wc_reap_interval_ms :: u64
  wc_cron_tick_interval_ms :: u64

definition worker_pool_config_default :: worker_pool_config where
  "worker_pool_config_default =
     \<lparr>wc_classes = class_defaults, wc_idle_poll_interval_ms = 250, wc_heartbeat_interval_ms = 5000,
      wc_reap_interval_ms = 5000, wc_cron_tick_interval_ms = 30000\<rparr>"

section \<open>Handlers\<close>

text \<open>
  A handler is code of its embedder: what its \<open>run\<close> returns for a job, \<open>None\<close> when it panics.
\<close>

type_synonym job_handler = "claimed_job \<Rightarrow> (job_failure + unit) option"

datatype handler_registry_error = HandlerDuplicate string | HandlerFull nat

type_synonym handler_registry = "(string \<times> job_handler) list"

definition handler_register ::
  "string \<Rightarrow> job_handler \<Rightarrow> handler_registry \<Rightarrow> handler_registry_error + handler_registry" where
  "handler_register kind handler reg =
     (if map_of reg kind \<noteq> None then Inl (HandlerDuplicate kind)
      else if length reg \<ge> HANDLER_REGISTRY_COUNT_MAX then Inl (HandlerFull HANDLER_REGISTRY_COUNT_MAX)
      else Inr (tbl_put kind handler reg))"

definition handler_get :: "handler_registry \<Rightarrow> string \<Rightarrow> job_handler option" where
  "handler_get reg kind = map_of reg kind"

section \<open>The pool\<close>

record 'b pool_project =
  pp_log :: "'b project_log"
  pp_leases :: "leases option"

record 'b pool =
  po_projects :: "(bytes \<times> 'b pool_project) list"
  po_handlers :: handler_registry
  po_clock :: "nat \<Rightarrow> u64"
  po_ticks :: nat
  po_jitter :: jitter
  po_metrics :: scheduler_metrics
  po_cursors :: "job_class \<Rightarrow> u64"
  po_last_error :: "(string \<times> sched_error) option"
  po_shutdown :: bool

text \<open>
  An operation of the queue on one project: the node of that project with the shared clock, jitter
  and metrics, and the parts written back.
\<close>

definition project_node :: "'b pool_project \<Rightarrow> 'b pool \<Rightarrow> 'b sched_node" where
  "project_node p po =
     \<lparr>nd_log = pp_log p, nd_clock = po_clock po, nd_ticks = po_ticks po, sn_leases = pp_leases p,
      sn_jitter = po_jitter po, sn_metrics = po_metrics po\<rparr>"

definition put_node :: "bytes \<Rightarrow> 'b sched_node \<Rightarrow> 'b pool \<Rightarrow> 'b pool" where
  "put_node key nd po =
     po\<lparr>po_projects := tbl_put key \<lparr>pp_log = nd_log nd, pp_leases = sn_leases nd\<rparr> (po_projects po),
        po_ticks := nd_ticks nd, po_jitter := sn_jitter nd, po_metrics := sn_metrics nd\<rparr>"

definition on_project :: "bytes \<Rightarrow> ('b, 'a) sched_op \<Rightarrow> 'b pool \<Rightarrow> (sched_error + 'a) option \<times> 'b pool" where
  "on_project key m po =
     (case map_of (po_projects po) key of
        None \<Rightarrow> (None, po)
      | Some p \<Rightarrow> (case m (project_node p po) of (r, nd) \<Rightarrow> (Some r, put_node key nd po)))"

definition note_error :: "string \<Rightarrow> sched_error \<Rightarrow> 'b pool \<Rightarrow> 'b pool" where
  "note_error operation e po =
     po\<lparr>po_metrics := record_queue_error (po_metrics po), po_last_error := Some (operation, e)\<rparr>"

definition pool_now :: "'b pool \<Rightarrow> u64 \<times> 'b pool" where
  "pool_now po = (po_clock po (po_ticks po), po\<lparr>po_ticks := Suc (po_ticks po)\<rparr>)"

section \<open>Projects\<close>

text \<open>\<open>ProjectRegistry::register\<close>: the lease table is created before the bound is looked at.\<close>

definition project_register ::
  "id16 \<Rightarrow> 'b pool_project \<Rightarrow> 'b pool \<Rightarrow> (sched_error + unit) \<times> 'b pool" where
  "project_register project_id p po =
     (case ensure_schema (project_node p po) of
        (Inl e, nd) \<Rightarrow> (Inl e, po)
      | (Inr _, nd) \<Rightarrow>
          if length (po_projects po) \<ge> PROJECT_REGISTRY_COUNT_MAX \<and>
             map_of (po_projects po) (into_bytes project_id) = None
          then (Inl (InvalidSpec ''project''), po)
          else (Inr (), put_node (into_bytes project_id) nd po))"

definition project_unregister :: "id16 \<Rightarrow> 'b pool \<Rightarrow> 'b pool" where
  "project_unregister project_id po = po\<lparr>po_projects := tbl_del (into_bytes project_id) (po_projects po)\<rparr>"

definition project_get :: "id16 \<Rightarrow> 'b pool \<Rightarrow> 'b pool_project option" where
  "project_get project_id po = map_of (po_projects po) (into_bytes project_id)"

definition project_snapshot :: "'b pool \<Rightarrow> (id16 \<times> bytes) list" where
  "project_snapshot po = map (\<lambda>(key, _). (from_bytes key, key)) (po_projects po)"

section \<open>Claims\<close>

text \<open>The order of visits of one pass: from the cursor, wrapping around.\<close>

definition visit_order :: "u64 \<Rightarrow> 'a list \<Rightarrow> 'a list" where
  "visit_order start xs =
     map (\<lambda>offset. xs ! (unat (start + word_of_nat offset) mod length xs)) [0..<length xs]"

fun claim_pass ::
  "queue_config \<Rightarrow> job_class \<Rightarrow> string \<Rightarrow> (id16 \<times> bytes) list \<Rightarrow> 'b pool \<Rightarrow> (bytes \<times> claimed_job) option \<times> 'b pool" where
  "claim_pass cfg cls worker [] po = (None, po)"
| "claim_pass cfg cls worker ((project_id, key) # rest) po =
     (case on_project key (claim cfg project_id cls worker) po of
        (Some (Inr (Some job)), po') \<Rightarrow> (Some (key, job), po')
      | (Some (Inl e), po') \<Rightarrow> claim_pass cfg cls worker rest (note_error ''claim'' e po')
      | (_, po') \<Rightarrow> claim_pass cfg cls worker rest po')"

definition claim_round_robin ::
  "queue_config \<Rightarrow> job_class \<Rightarrow> string \<Rightarrow> 'b pool \<Rightarrow> (bytes \<times> claimed_job) option \<times> 'b pool" where
  "claim_round_robin cfg cls worker po =
     (let projects = project_snapshot po
      in if projects = [] then (None, po)
         else let start = po_cursors po cls
              in claim_pass cfg cls worker (visit_order start projects)
                   (po\<lparr>po_cursors := (po_cursors po)(cls := start + 1)\<rparr>))"

section \<open>Running one job\<close>

text \<open>
  The heartbeat task: one round per elapsed interval until the lease is lost or an error is noted;
  the rounds are what the clock gave it before the handler returned and the task was aborted.
\<close>

fun heartbeats :: "queue_config \<Rightarrow> bytes \<Rightarrow> claimed_job \<Rightarrow> nat \<Rightarrow> 'b pool \<Rightarrow> 'b pool" where
  "heartbeats cfg key job 0 po = po"
| "heartbeats cfg key job (Suc n) po =
     (case on_project key (heartbeat cfg job) po of
        (Some (Inr True), po') \<Rightarrow> heartbeats cfg key job n po'
      | (Some (Inl e), po') \<Rightarrow> note_error ''heartbeat'' e po'
      | (_, po') \<Rightarrow> po')"

definition finish_op ::
  "queue_config \<Rightarrow> 'b domain_codec \<Rightarrow> claimed_job \<Rightarrow> job_failure + unit \<Rightarrow> u64 \<Rightarrow> ('b, unit) sched_op" where
  "finish_op cfg dc job outcome wall_ms =
     (case outcome of
        Inr _ \<Rightarrow> complete cfg dc job wall_ms
      | Inl failure \<Rightarrow> obind (fail_job cfg dc job failure wall_ms) (\<lambda>_. oret ()))"

definition finish_job ::
  "queue_config \<Rightarrow> 'b domain_codec \<Rightarrow> bytes \<Rightarrow> claimed_job \<Rightarrow> job_failure + unit \<Rightarrow> u64 \<Rightarrow> 'b pool \<Rightarrow> 'b pool" where
  "finish_job cfg dc key job outcome wall_ms po =
     (case on_project key (finish_op cfg dc job outcome wall_ms) po of
        (Some (Inl e), po') \<Rightarrow> note_error ''finish job'' e po'
      | (_, po') \<Rightarrow> po')"

definition handler_outcome :: "job_handler \<Rightarrow> claimed_job \<Rightarrow> job_failure + unit" where
  "handler_outcome handler job =
     (case handler job of
        Some outcome \<Rightarrow> outcome
      | None \<Rightarrow> Inl (retriable ''handler_panicked'' ''the handler panicked; the attempt was recorded and will retry''))"

definition run_job :: "queue_config \<Rightarrow> 'b domain_codec \<Rightarrow> bytes \<Rightarrow> claimed_job \<Rightarrow> nat \<Rightarrow> 'b pool \<Rightarrow> 'b pool" where
  "run_job cfg dc key job beats po =
     (case handler_get (po_handlers po) (cj_kind job) of
        None \<Rightarrow>
          finish_job cfg dc key job
            (Inl (permanent_failure ''no_handler'' (''no handler is registered for job kind '' @ cj_kind job))) 0 po
      | Some handler \<Rightarrow>
          (case pool_now po of (started, po1) \<Rightarrow>
           case pool_now (heartbeats cfg key job beats po1) of (ended, po2) \<Rightarrow>
             finish_job cfg dc key job (handler_outcome handler job) (saturating_sub ended started) po2))"

text \<open>One turn of a class worker, and one sweep of the maintenance task.\<close>

definition worker_turn :: "queue_config \<Rightarrow> 'b domain_codec \<Rightarrow> job_class \<Rightarrow> string \<Rightarrow> nat \<Rightarrow> 'b pool \<Rightarrow> 'b pool" where
  "worker_turn cfg dc cls worker beats po =
     (if po_shutdown po then po
      else case claim_round_robin cfg cls worker po of
             (Some (key, job), po') \<Rightarrow> run_job cfg dc key job beats po'
           | (None, po') \<Rightarrow> po')"

definition sweep_project ::
  "'z jiff \<Rightarrow> queue_config \<Rightarrow> 'b domain_codec \<Rightarrow> bool \<Rightarrow> id16 \<times> bytes \<Rightarrow> 'b pool \<Rightarrow> 'b pool" where
  "sweep_project jz cfg dc run_cron pk po =
     (case pk of (project_id, key) \<Rightarrow>
        let po1 = (case on_project key (reap_expired_leases cfg dc) po of
                     (Some (Inl e), po') \<Rightarrow> note_error ''reap'' e po'
                   | (_, po') \<Rightarrow> po')
        in if run_cron
           then (case on_project key (tick jz cfg dc project_id) po1 of
                   (Some (Inl e), po') \<Rightarrow> note_error ''cron tick'' e po'
                 | (_, po') \<Rightarrow> po')
           else po1)"

definition sweep_projects :: "'z jiff \<Rightarrow> queue_config \<Rightarrow> 'b domain_codec \<Rightarrow> bool \<Rightarrow> 'b pool \<Rightarrow> 'b pool" where
  "sweep_projects jz cfg dc run_cron po = fold (sweep_project jz cfg dc run_cron) (project_snapshot po) po"

text \<open>
  The maintenance loop's clockwork: the sweep period, and the time since the last cron tick after one
  more period, with whether this sweep ticks.
\<close>

definition sweep_period_ms :: "worker_pool_config \<Rightarrow> u64" where
  "sweep_period_ms cfg = max (min (wc_reap_interval_ms cfg) (wc_cron_tick_interval_ms cfg)) 1"

definition advance_cron :: "worker_pool_config \<Rightarrow> nat \<Rightarrow> bool \<times> nat" where
  "advance_cron cfg since =
     (let since' = since + unat (sweep_period_ms cfg)
      in if unat (wc_cron_tick_interval_ms cfg) \<le> since' then (True, 0) else (False, since'))"

definition pool_shutdown :: "'b pool \<Rightarrow> 'b pool" where
  "pool_shutdown po = po\<lparr>po_shutdown := True\<rparr>"

end
