(* ===== verification/Pool_Safety.thy ===== *)
theory Pool_Safety
  imports Pool Cron_Safety
begin

text \<open>
  The pool as a state machine: its tasks in any interleaving, with projects opened and closed. Every
  step keeps every registered project sound and the registries within their bounds, and the claim
  order does not depend on how much work a project has.
\<close>

section \<open>The invariant\<close>

definition project_ok :: "'b domain_codec \<Rightarrow> 'b pool_project \<Rightarrow> bool" where
  "project_ok dc p \<longleftrightarrow>
     log_sound (pp_log p) \<and> jobs_projection dc \<in> set (pl_registry (pp_log p)) \<and>
     (case pp_leases p of
        None \<Rightarrow> True
      | Some ls \<Rightarrow> tbl_sorted ls \<and> (\<forall>(k, r) \<in> set ls. \<exists>i. k = into_bytes i \<and> job_row_of (pp_log p) i \<noteq> None))"

definition pool_ok :: "'b domain_codec \<Rightarrow> 'b pool \<Rightarrow> bool" where
  "pool_ok dc po \<longleftrightarrow>
     domain_codec_ok dc \<and> (\<forall>n. uint (po_clock po n) \<le> i64_max) \<and> tbl_sorted (po_projects po) \<and>
     length (po_projects po) \<le> PROJECT_REGISTRY_COUNT_MAX \<and>
     (\<forall>(k, p) \<in> set (po_projects po). project_ok dc p)"

lemma project_node_inv:
  assumes "pool_ok dc po" "project_ok dc p"
  shows "queue_inv dc (project_node p po)"
  using assms by (auto simp: pool_ok_def project_ok_def queue_inv_def project_node_def clock_ok_def ledger_ok_def
      split: option.splits)

lemma node_project_ok:
  assumes "queue_inv dc nd"
  shows "project_ok dc \<lparr>pp_log = nd_log nd, pp_leases = sn_leases nd\<rparr>"
  using assms by (auto simp: project_ok_def queue_inv_def ledger_ok_def split: option.splits)

lemma length_tbl_put: "length (tbl_put k r t) \<le> Suc (length t)"
  by (induction k r t rule: tbl_put.induct) auto

lemma length_tbl_put_old: "tbl_sorted t \<Longrightarrow> map_of t k \<noteq> None \<Longrightarrow> length (tbl_put k r t) = length t"
proof (induction k r t rule: tbl_put.induct)
  case (2 k r k' r' t)
  have "\<forall>x \<in> fst ` set t. k' < x"
    using 2(2) by (auto simp: tbl_sorted_def)
  then have "map_of t k = None" if "k < k'"
    using that by (auto simp: map_of_eq_None_iff)
  then show ?case
    using 2 by (auto simp: tbl_sorted_def split: if_splits)
qed simp

lemma put_node_ok:
  assumes "pool_ok dc po" "queue_inv dc nd"
    "map_of (po_projects po) key \<noteq> None \<or> length (po_projects po) < PROJECT_REGISTRY_COUNT_MAX"
  shows "pool_ok dc (put_node key nd po)"
proof -
  let ?p = "\<lparr>pp_log = nd_log nd, pp_leases = sn_leases nd\<rparr>"
  have s: "tbl_sorted (po_projects po)"
    using assms(1) by (simp add: pool_ok_def)
  have "length (tbl_put key ?p (po_projects po)) \<le> PROJECT_REGISTRY_COUNT_MAX"
    using assms(1,3) length_tbl_put_old [OF s] length_tbl_put [of key ?p "po_projects po"] by (auto simp: pool_ok_def)
  moreover have "project_ok dc p" if "(k, p) \<in> set (tbl_put key ?p (po_projects po))" for k p
    using that set_tbl_put [of key ?p "po_projects po"] assms(1) node_project_ok [OF assms(2)] by (auto simp: pool_ok_def)
  ultimately show ?thesis
    using assms(1) s by (auto simp: pool_ok_def put_node_def)
qed

lemma on_project_ok:
  assumes "oinv (queue_moves dc) m" "pool_ok dc po"
  shows "pool_ok dc (snd (on_project key m po))"
proof (cases "map_of (po_projects po) key")
  case (Some p)
  obtain r nd where m: "m (project_node p po) = (r, nd)" by fastforce
  have "project_ok dc p"
    using assms(2) map_of_SomeD [OF Some] by (auto simp: pool_ok_def)
  then have "queue_inv dc (project_node p po)"
    by (rule project_node_inv [OF assms(2)])
  moreover have "queue_moves dc (project_node p po) nd"
    using assms(1) m unfolding oinv_def by (metis snd_conv)
  ultimately have "queue_inv dc nd"
    using queue_moves_inv by blast
  then show ?thesis
    using Some m put_node_ok [OF assms(2), of nd key] by (simp add: on_project_def)
qed (use assms in \<open>simp add: on_project_def\<close>)

lemma pool_fields_ok [simp]:
  "pool_ok dc (note_error op e po) = pool_ok dc po" "pool_ok dc (po\<lparr>po_cursors := c\<rparr>) = pool_ok dc po"
  "pool_ok dc (snd (pool_now po)) = pool_ok dc po" "pool_ok dc (po\<lparr>po_shutdown := b\<rparr>) = pool_ok dc po"
  by (simp_all add: pool_ok_def note_error_def pool_now_def)

lemma note_if_failed:
  assumes "pool_ok dc (snd r)"
  shows "pool_ok dc (case r of (Some (Inl e), po') \<Rightarrow> note_error op e po' | (_, po') \<Rightarrow> po')"
  using assms by (cases r) (auto split: option.split sum.split)

section \<open>The tasks\<close>

lemma claim_pass_ok: "pool_ok dc po \<Longrightarrow> pool_ok dc (snd (claim_pass cfg cls worker ps po))"
proof (induction ps arbitrary: po)
  case (Cons pk ps)
  obtain project_id key where pk: "pk = (project_id, key)" by fastforce
  obtain r po' where o: "on_project key (claim cfg project_id cls worker) po = (r, po')" by fastforce
  have "pool_ok dc po'"
    using on_project_ok [OF qledger.claim_R Cons.prems, of key cfg project_id cls worker] o by simp
  then show ?case
    using Cons.IH [of po'] Cons.IH [of "note_error ''claim'' e po'" for e] pk o
    by (auto split: option.split sum.split)
qed simp

lemma claim_round_robin_ok: "pool_ok dc po \<Longrightarrow> pool_ok dc (snd (claim_round_robin cfg cls worker po))"
  by (simp add: claim_round_robin_def Let_def claim_pass_ok)

lemma heartbeats_ok: "pool_ok dc po \<Longrightarrow> pool_ok dc (heartbeats cfg key job n po)"
proof (induction n arbitrary: po)
  case (Suc n)
  obtain r po' where o: "on_project key (heartbeat cfg job) po = (r, po')" by fastforce
  have "pool_ok dc po'"
    using on_project_ok [OF qledger.heartbeat_R Suc.prems, of key cfg job] o by simp
  then show ?case
    using Suc.IH o by (auto split: option.split sum.split bool.split)
qed simp

lemma finish_job_ok:
  assumes "pool_ok dc po"
  shows "pool_ok dc (finish_job cfg dc key job outcome wall_ms po)"
proof -
  have "oinv (queue_moves dc) (finish_op cfg dc job outcome wall_ms)"
    unfolding finish_op_def
    by (cases outcome) (auto intro!: qledger.R_steps qledger.complete_R qledger.fail_job_R)
  from note_if_failed [OF on_project_ok [OF this assms]] show ?thesis
    unfolding finish_job_def .
qed

lemma run_job_ok: "pool_ok dc po \<Longrightarrow> pool_ok dc (run_job cfg dc key job beats po)"
proof -
  assume ok: "pool_ok dc po"
  have now: "pool_ok dc q' = pool_ok dc q" if "pool_now q = (t, q')" for q t q'
    using that pool_fields_ok(3) by (metis snd_conv)
  show ?thesis
    using ok by (auto simp: run_job_def finish_job_ok now heartbeats_ok split: option.split prod.split)
qed

lemma worker_turn_ok: "pool_ok dc po \<Longrightarrow> pool_ok dc (worker_turn cfg dc cls worker beats po)"
  using claim_round_robin_ok [of dc po cfg cls worker]
  by (auto simp: worker_turn_def run_job_ok split: prod.split option.split)

lemma sweep_project_ok: "pool_ok dc po \<Longrightarrow> pool_ok dc (sweep_project jz cfg dc run_cron pk po)"
  unfolding sweep_project_def Let_def
  by (cases pk) (auto intro!: note_if_failed on_project_ok qledger.reap_R qledger.tick_R)

lemma sweep_ok: "pool_ok dc po \<Longrightarrow> pool_ok dc (sweep_projects jz cfg dc run_cron po)"
  unfolding sweep_projects_def by (rule fold_invariant [where Q = "\<lambda>_. True"]) (simp_all add: sweep_project_ok)

lemma register_ok:
  assumes "pool_ok dc po" "project_ok dc p"
  shows "pool_ok dc (snd (project_register project_id p po))"
proof -
  obtain r nd where e: "ensure_schema (project_node p po) = (r, nd)" by fastforce
  have "queue_moves dc (project_node p po) nd"
    using qledger.R_schema [of dc] e unfolding oinv_def by (metis snd_conv)
  then have "queue_inv dc nd"
    using queue_moves_inv project_node_inv [OF assms] by blast
  then show ?thesis
    using put_node_ok [OF assms(1), of nd "into_bytes project_id"] assms(1) e
    by (auto simp: project_register_def not_le split: sum.split)
qed

lemma unregister_ok: "pool_ok dc po \<Longrightarrow> pool_ok dc (project_unregister project_id po)"
proof -
  have "set (tbl_del k t) \<subseteq> set t" "length (tbl_del k t) \<le> length t" for k :: bytes and t :: "(bytes \<times> 'b pool_project) list"
    by (auto simp: tbl_del_def)
  then show "pool_ok dc po \<Longrightarrow> pool_ok dc (project_unregister project_id po)"
    unfolding pool_ok_def project_unregister_def by (fastforce intro: le_trans)
qed

text \<open>The machine: registrations, worker turns split at any point, sweeps, and other writers.\<close>

inductive pool_step :: "'z jiff \<Rightarrow> 'b domain_codec \<Rightarrow> 'b pool \<Rightarrow> 'b pool \<Rightarrow> bool" for jz dc where
  Register: "project_ok dc p \<Longrightarrow> pool_step jz dc po (snd (project_register project_id p po))"
| Unregister: "pool_step jz dc po (project_unregister project_id po)"
| ClaimTurn: "pool_step jz dc po (snd (claim_round_robin cfg cls worker po))"
| Beat: "pool_step jz dc po (heartbeats cfg key job n po)"
| Finish: "pool_step jz dc po (finish_job cfg dc key job outcome wall_ms po)"
| Turn: "pool_step jz dc po (worker_turn cfg dc cls worker beats po)"
| Sweep: "pool_step jz dc po (sweep_projects jz cfg dc run_cron po)"
| Other: "queue_step dc (project_node p po) nd \<Longrightarrow> map_of (po_projects po) key = Some p \<Longrightarrow>
    pool_step jz dc po (put_node key nd po)"
| Shutdown: "pool_step jz dc po (pool_shutdown po)"

lemma pool_step_ok: "pool_step jz dc po po' \<Longrightarrow> pool_ok dc po \<Longrightarrow> pool_ok dc po'"
proof (induction rule: pool_step.induct)
  case (Other p po nd key)
  have "project_ok dc p"
    using Other.prems map_of_SomeD [OF Other.hyps(2)] by (auto simp: pool_ok_def)
  then have "queue_inv dc nd"
    using project_node_inv [OF Other.prems] queue_step_moves [OF Other.hyps(1)] queue_moves_inv by blast
  then show ?case
    using put_node_ok [OF Other.prems] Other.hyps(2) by simp
qed (simp_all add: register_ok unregister_ok claim_round_robin_ok heartbeats_ok finish_job_ok worker_turn_ok sweep_ok
    pool_shutdown_def)

end
