(* ===== verification/Pool_Properties.thy ===== *)
theory Pool_Properties
  imports Pool_Safety Cron_Firing
begin

text \<open>
  The properties of the worker pool, exercised on a pool that serves the sample project.
\<close>

section \<open>Round robin\<close>





section \<open>A sample pool\<close>

definition sample_pool :: "body pool" where
  "sample_pool = \<lparr>po_projects = [(into_bytes 9, \<lparr>pp_log = nd_log queued_node, pp_leases = Some []\<rparr>)], po_handlers = [],
     po_clock = (\<lambda>_. 1000), po_ticks = 0, po_jitter = NoJitter, po_metrics = metrics_default, po_cursors = (\<lambda>_. 0),
     po_last_error = None, po_shutdown = False\<rparr>"

lemma sample_pool_ok: "pool_ok body_codec sample_pool"
  using node_ready_parts [OF queued_ready(1)]
  by (simp add: pool_ok_def sample_pool_def project_ok_def tbl_sorted_def PROJECT_REGISTRY_COUNT_MAX_def i64_max_def)

section \<open>Properties\<close>

text \<open>
  C18: the pool keeps every project sound. Over any run of the pool's tasks (claims, heartbeats,
  finished jobs, whole worker turns, sweeps with or without cron ticks), of registrations and
  closings of projects, and of other writers, in any order, the pool never serves more than 64
  projects, and every project it serves has a sound log and a ledger whose leases are distinct and
  name jobs of that log.
\<close>
theorem pool_keeps_projects_sound:
  assumes "(pool_step jz dc)\<^sup>*\<^sup>* po po'" "pool_ok dc po"
  shows "length (po_projects po') \<le> 64 \<and>
    (\<forall>(k, p) \<in> set (po_projects po'). log_sound (pp_log p) \<and>
      (\<forall>ls. pp_leases p = Some ls \<longrightarrow> distinct (map fst ls) \<and>
        (\<forall>k \<in> fst ` set ls. \<exists>i. k = into_bytes i \<and> job_row_of (pp_log p) i \<noteq> None)))"
proof -
  have "pool_ok dc po'"
    using assms by (induction rule: rtranclp_induct) (auto intro: pool_step_ok)
  then show ?thesis
    by (fastforce simp: pool_ok_def project_ok_def PROJECT_REGISTRY_COUNT_MAX_def tbl_sorted_def strict_sorted_iff)
qed

theorem pool_keeps_projects_sound_witness:
  "length (po_projects (worker_turn body_config body_codec Maintenance ''w1'' 2 sample_pool)) \<le> 64"
  using pool_keeps_projects_sound [OF r_into_rtranclp, OF Turn [of sample_jiff body_codec sample_pool body_config Maintenance "''w1''" 2]
      sample_pool_ok] by blast



end
