(* ===== verification/Batch_Effects.thy ===== *)
theory Batch_Effects
  imports Append_Effects
begin

text \<open>
  What a successful conditional append of several domain events does to the rows of the core
  projections, and that a refused one does nothing. The rows of a table are seen as a map from keys;
  every form of write is a partial function on that map.
\<close>

section \<open>Writes on the map of rows\<close>

type_synonym row_map = "sql_cell list \<rightharpoonup> row"

fun write_map :: "table_def \<Rightarrow> row_write \<Rightarrow> row_map \<Rightarrow> row_map option" where
  "write_map tb (Insert k vs) m =
     (if m (bind_values k) = None then Some (m(bind_values k \<mapsto> row_of (value_columns tb) vs)) else None)"
| "write_map tb (Upsert k vs) m = Some (m(bind_values k \<mapsto> row_of (value_columns tb) vs))"
| "write_map tb (Update k as) m =
     Some (case m (bind_values k) of None \<Rightarrow> m | Some r \<Rightarrow> m(bind_values k \<mapsto> assign_row as r))"
| "write_map tb (UpdateOne k as) m =
     map_option (\<lambda>r. m(bind_values k \<mapsto> assign_row as r)) (m (bind_values k))"
| "write_map tb (UpdateOneWhenNull k c as) m =
     (case m (bind_values k) of None \<Rightarrow> None
      | Some r \<Rightarrow> if r c = CNull then Some (m(bind_values k \<mapsto> assign_row as r)) else None)"
| "write_map tb (Increment k c d) m =
     Some (m(bind_values k \<mapsto> (case m (bind_values k) of None \<Rightarrow> (\<lambda>_. CNull)(c := CInteger d)
                               | Some r \<Rightarrow> r(c := sql_add (r c) d))))"
| "write_map tb (IncrementOne k c d) m =
     map_option (\<lambda>r. m(bind_values k \<mapsto> r(c := sql_add (r c) d))) (m (bind_values k))"
| "write_map tb (IncrementManyOne k ds) m =
     map_option (\<lambda>r. m(bind_values k \<mapsto> add_deltas ds r)) (m (bind_values k))"
| "write_map tb (Delete k) m = Some (m(bind_values k := None))"

fun writes_map :: "table_def \<Rightarrow> row_write list \<Rightarrow> row_map \<Rightarrow> row_map option" where
  "writes_map tb [] m = Some m"
| "writes_map tb (w # ws) m = Option.bind (write_map tb w m) (writes_map tb ws)"

lemma execute_write_map: "execute_write tb w t = Inr t' \<Longrightarrow> write_map tb w (map_of t) = Some (map_of t')"
  by (cases w) (auto simp: rbind_Inr update_one_Inr sql_insert_def sql_upsert_def sql_update_def sql_delete_def
      split: option.splits if_splits)

lemma execute_writes_map:
  "rfold (execute_write tb) ws t = Inr t' \<Longrightarrow> writes_map tb ws (map_of t) = Some (map_of t')"
  by (induction ws arbitrary: t) (auto simp: rbind_Inr dest!: execute_write_map)

section \<open>A batch and the events it stores\<close>

definition rows_of :: "'b project_log \<Rightarrow> string \<Rightarrow> row_map" where
  "rows_of l name = (case log_tables l name of None \<Rightarrow> Map.empty | Some t \<Rightarrow> map_of t)"

lemma append_loop_tables:
  assumes "rfold (append_one x reg cadence faults ts) requests (h, seqs, db) = Inr (h', seqs', db')"
  shows "\<exists>evs. list_all2 (\<lambda>r ev. ev_kind ev = ar_kind r \<and> ev_body ev = ar_body r) requests evs \<and>
     rfold (apply_to_tables reg) evs (main_tables db) = Inr (main_tables db')"
  using assms
proof (induction requests arbitrary: h seqs db)
  case (Cons request requests)
  from Cons.prems obtain h1 seqs1 db1 where one: "append_one x reg cadence faults ts request (h, seqs, db) = Inr (h1, seqs1, db1)"
    and rest: "rfold (append_one x reg cadence faults ts) requests (h1, seqs1, db1) = Inr (h', seqs', db')"
    by (auto simp: rbind_Inr)
  from one obtain l da db2 tbls db3 where
      l: "next_device_lamport (ar_device request) db = (l, da)"
      and ins: "insert_event x (seq_next h) l ts request da = Inr db2"
      and ap: "apply_to_tables reg (event_of (seq_next h) l ts request) (main_tables db2) = Inr tbls"
      and db3: "db3 = write_applied_seq (seq_next h) (db2\<lparr>main_tables := tbls\<rparr>)"
      and alt: "db1 = db3 \<or> write_snapshot x reg (seq_next h) ts SNAPSHOT_KEEP_COUNT db3 = Inr db1"
    by (rule append_one_Inr)
  have "main_tables db2 = main_tables db"
    using l ins by (auto simp: next_device_lamport_def insert_event_def Let_def split: if_splits)
  moreover have "main_tables db1 = tbls"
    using alt db3 by (auto simp: write_applied_seq_def dest!: write_snapshot_keeps)
  moreover obtain evs where "list_all2 (\<lambda>r ev. ev_kind ev = ar_kind r \<and> ev_body ev = ar_body r) requests evs"
      "rfold (apply_to_tables reg) evs (main_tables db1) = Inr (main_tables db')"
    using Cons.IH [OF rest] by blast
  ultimately show ?case
    using ap by (intro exI [of _ "event_of (seq_next h) l ts request # evs"]) (auto simp: event_of_def)
qed simp

lemma append_inner_cases:
  assumes "log_append_inner expected requests nd = (r, nd')"
  obtains st where "append_batch_inner (pl_externals (nd_log nd)) (pl_registry (nd_log nd)) (pl_config (nd_log nd))
       (nd_clock nd (nd_ticks nd)) expected requests (nd_store nd) = (r, st)" "nd_store nd' = st"
    "pl_registry (nd_log nd') = pl_registry (nd_log nd)" "pl_externals (nd_log nd') = pl_externals (nd_log nd)"
  using assms by (auto simp: log_append_inner_def set_store_def nd_store_def Let_def split: prod.splits)

lemma append_refused:
  assumes "log_append_inner expected requests nd = (Inl e, nd')"
  shows "db_content (nd_store nd') = db_content (nd_store nd)"
proof -
  let ?x = "pl_externals (nd_log nd)"
  obtain st where st: "append_batch_inner ?x (pl_registry (nd_log nd)) (pl_config (nd_log nd))
       (nd_clock nd (nd_ticks nd)) expected requests (nd_store nd) = (Inl e, st)" "nd_store nd' = st"
    by (rule append_inner_cases [OF assms])
  show ?thesis
  proof (cases "validate_requests ?x requests")
    case (Inl err)
    with st show ?thesis
      by (simp add: append_batch_inner_def del: validate_requests.simps split: if_splits)
  next
    case (Inr u)
    then have "write_transaction StoreError log_panicked (append_transaction ?x (pl_registry (nd_log nd))
        (pl_config (nd_log nd)) (db_faults (nd_store nd)) (nd_clock nd (nd_ticks nd)) expected requests)
        (nd_store nd) = (Inl e, st)"
      using st(1) by (simp add: append_batch_inner_def del: validate_requests.simps split: if_splits)
    from write_transaction_atomic [OF this] st(2) show ?thesis by simp
  qed
qed

lemma append_stored:
  assumes "log_append_inner expected requests nd = (Inr seqs, nd')" "requests \<noteq> []"
  shows "\<exists>evs. list_all2 (\<lambda>r ev. ev_kind ev = ar_kind r \<and> ev_body ev = ar_body r) requests evs \<and>
     rfold (apply_to_tables (pl_registry (nd_log nd))) evs (log_tables (nd_log nd)) = Inr (log_tables (nd_log nd')) \<and>
     (\<forall>h. expected = Some h \<longrightarrow> h = read_head (db_content (nd_store nd)))"
proof -
  let ?x = "pl_externals (nd_log nd)" and ?reg = "pl_registry (nd_log nd)" and ?st = "nd_store nd"
  obtain st where st: "append_batch_inner ?x ?reg (pl_config (nd_log nd)) (nd_clock nd (nd_ticks nd)) expected
       requests ?st = (Inr seqs, st)" "nd_store nd' = st"
    by (rule append_inner_cases [OF assms(1)])
  have "write_transaction StoreError log_panicked (append_transaction ?x ?reg (pl_config (nd_log nd))
      (db_faults ?st) (nd_clock nd (nd_ticks nd)) expected requests) ?st = (Inr seqs, st)"
    using st(1) assms(2) by (cases "validate_requests ?x requests")
      (simp_all add: append_batch_inner_def del: validate_requests.simps)
  note tx = write_transaction_ok [OF this, THEN conjunct1]
  obtain h' where f: "rfold (append_one ?x ?reg (snapshot_cadence_events (pl_config (nd_log nd))) (db_faults ?st)
      (nd_clock nd (nd_ticks nd))) requests (read_head (db_content ?st), [], db_content ?st) = Inr (h', seqs, db_content st)"
    using tx by (auto simp: append_transaction_def Let_def rbind_Inr split: if_splits)
  have "\<forall>h. expected = Some h \<longrightarrow> h = read_head (db_content ?st)"
    using tx by (auto simp: append_transaction_def Let_def split: if_splits)
  with append_loop_tables [OF f] st(2) show ?thesis
    by (simp add: log_tables_def nd_store_def)
qed

section \<open>Domain events and the core projections\<close>

fun facts_map ::
  "table_def \<Rightarrow> ('b event \<Rightarrow> domain_event \<Rightarrow> row_write list) \<Rightarrow> ('b event \<times> domain_event) list
     \<Rightarrow> row_map \<Rightarrow> row_map option" where
  "facts_map tb writes [] m = Some m"
| "facts_map tb writes ((ev, e) # facts) m = Option.bind (writes_map tb (writes ev e) m) (facts_map tb writes facts)"

lemma project_rows:
  assumes "rfold (apply_to_tables reg) evs ts = Inr ts'" "p \<in> set reg" "distinct (table_names reg)"
    "ts (tbl_name (pr_table p)) = Some t" "pr_apply p = apply_kinds dc (pr_table p) kinds writes"
    "domain_codec_ok dc" "list_all2 (\<lambda>e ev. ev_kind ev = domain_kind_tag e \<and> ev_body ev = encode_body dc e) es evs"
    "\<And>ev e. domain_kind_tag e \<notin> set kinds \<Longrightarrow> writes ev e = []"
  shows "\<exists>t'. ts' (tbl_name (pr_table p)) = Some t' \<and>
     facts_map (pr_table p) writes (zip evs es) (map_of t) = Some (map_of t')"
  using assms(1,4,7)
proof (induction evs arbitrary: es ts t)
  case (Cons ev evs)
  obtain e es' where es: "es = e # es'" "ev_kind ev = domain_kind_tag e" "ev_body ev = encode_body dc e"
      "list_all2 (\<lambda>e ev. ev_kind ev = domain_kind_tag e \<and> ev_body ev = encode_body dc e) es' evs"
    using Cons.prems(3) by (cases es) auto
  obtain us where us: "apply_to_tables reg ev ts = Inr us" "rfold (apply_to_tables reg) evs us = Inr ts'"
    using Cons.prems(1) by (auto simp: rbind_Inr)
  obtain ws u where u: "pr_apply p ev = Inr ws" "rfold (execute_write (pr_table p)) ws t = Inr u"
      "us (tbl_name (pr_table p)) = Some u"
    using apply_own_table [OF us(1) assms(2,3) Cons.prems(2)] by blast
  have "ws = writes ev e"
    using u(1) apply_kinds_encoded [OF assms(6) es(2,3)] assms(5,8) by (simp split: if_splits)
  then have "writes_map (pr_table p) (writes ev e) (map_of t) = Some (map_of u)"
    using execute_writes_map u(2) by blast
  with Cons.IH [OF us(2) u(3) es(4)] es(1) show ?case by auto
qed simp

lemma batch_stored:
  assumes "log_append_inner expected requests nd = (Inr seqs, nd')" "log_sound (nd_log nd)" "es \<noteq> []"
    "list_all2 (\<lambda>e r. \<exists>device actor. into_request dc e device actor = Inr r) es requests" "domain_codec_ok dc"
  shows "\<exists>evs. length evs = length es \<and> (\<forall>p kinds writes. p \<in> set (pl_registry (nd_log nd)) \<longrightarrow>
     pr_apply p = apply_kinds dc (pr_table p) kinds writes \<longrightarrow>
     (\<forall>ev e. domain_kind_tag e \<notin> set kinds \<longrightarrow> writes ev e = []) \<longrightarrow>
     facts_map (pr_table p) writes (zip evs es) (rows_of (nd_log nd) (tbl_name (pr_table p))) =
       Some (rows_of (nd_log nd') (tbl_name (pr_table p))))"
proof -
  have "requests \<noteq> []"
    using assms(3,4) by auto
  then obtain evs where evs: "list_all2 (\<lambda>r ev. ev_kind ev = ar_kind r \<and> ev_body ev = ar_body r) requests evs"
      "rfold (apply_to_tables (pl_registry (nd_log nd))) evs (log_tables (nd_log nd)) = Inr (log_tables (nd_log nd'))"
    using append_stored [OF assms(1)] by blast
  have enc: "list_all2 (\<lambda>e ev. ev_kind ev = domain_kind_tag e \<and> ev_body ev = encode_body dc e) es evs"
    by (rule list_all2_trans [OF _ assms(4) evs(1)]) (auto simp: into_request_Inr)
  show ?thesis
  proof (intro exI [of _ evs] conjI allI impI)
    show "length evs = length es"
      using enc by (simp add: list_all2_lengthD)
  next
    fix p kinds writes
    assume p: "p \<in> set (pl_registry (nd_log nd))" "pr_apply p = apply_kinds dc (pr_table p) kinds writes"
      "\<forall>ev e. domain_kind_tag e \<notin> set kinds \<longrightarrow> writes ev e = []"
    obtain t where t: "log_tables (nd_log nd) (tbl_name (pr_table p)) = Some t"
      using sound_tables_wf [OF assms(2)] p(1) by (auto simp: tables_wf_def)
    have "distinct (table_names (pl_registry (nd_log nd)))"
      using assms(2) by (simp add: log_sound_def)
    from project_rows [OF evs(2) p(1) this t p(2) assms(5) enc] p(3)
    obtain t' where "log_tables (nd_log nd') (tbl_name (pr_table p)) = Some t'"
        "facts_map (pr_table p) writes (zip evs es) (map_of t) = Some (map_of t')" by blast
    with t show "facts_map (pr_table p) writes (zip evs es) (rows_of (nd_log nd) (tbl_name (pr_table p))) =
       Some (rows_of (nd_log nd') (tbl_name (pr_table p)))"
      by (simp add: rows_of_def)
  qed
qed

lemma facts_stored:
  assumes "log_append_inner expected requests nd = (Inr seqs, nd')" "log_sound (nd_log nd)" "es \<noteq> []"
    "rcollect (\<lambda>e. into_request dc e device actor) es = Inr requests" "domain_codec_ok dc"
  shows "\<exists>evs. length evs = length es \<and> (\<forall>p kinds writes. p \<in> set (pl_registry (nd_log nd)) \<longrightarrow>
     pr_apply p = apply_kinds dc (pr_table p) kinds writes \<longrightarrow>
     (\<forall>ev e. domain_kind_tag e \<notin> set kinds \<longrightarrow> writes ev e = []) \<longrightarrow>
     facts_map (pr_table p) writes (zip evs es) (rows_of (nd_log nd) (tbl_name (pr_table p))) =
       Some (rows_of (nd_log nd') (tbl_name (pr_table p))))"
proof (rule batch_stored [OF assms(1-3) _ assms(5)])
  show "list_all2 (\<lambda>e r. \<exists>device actor. into_request dc e device actor = Inr r) es requests"
    using rcollect_Inr_map [OF assms(4)] by (rule list_all2_mono) blast
qed

end
