(* ===== verification/Run_State.thy ===== *)
theory Run_State
  imports Row_Reads
begin

text \<open>
  Typed reads over the Run projections, \<open>crates/pos-domain/src/run_state.rs\<close>: a Run decoded from its
  row of \<open>proj_runs\<close> and its grants, and one committed step decoded from \<open>proj_run_steps\<close>. Decoding
  refuses rows whose columns contradict each other; the reason of a refusal keeps its fixed text, and
  the name of the column where the source formats the value found.
\<close>

section \<open>Records\<close>

datatype run_status =
    StRequested | StPreflight | StRunning | StWaitingApproval | StWaitingInput | StValidating | StPaused
  | StDone | StFailed | StCanceled

definition run_status_parse :: "string \<Rightarrow> run_status option" where
  "run_status_parse value =
     (if value = ''requested'' then Some StRequested
      else if value = ''preflight'' then Some StPreflight
      else if value = ''running'' then Some StRunning
      else if value = ''waiting_approval'' then Some StWaitingApproval
      else if value = ''waiting_input'' then Some StWaitingInput
      else if value = ''validating'' then Some StValidating
      else if value = ''paused'' then Some StPaused
      else if value = ''done'' \<or> value = ''completed'' then Some StDone
      else if value = ''failed'' then Some StFailed
      else if value = ''canceled'' then Some StCanceled
      else None)"

definition run_is_terminal :: "run_status \<Rightarrow> bool" where
  "run_is_terminal s \<longleftrightarrow> s = StDone \<or> s = StFailed \<or> s = StCanceled"

datatype pending_run_control = ControlPause | ControlCancel

definition control_parse :: "string option \<Rightarrow> pending_run_control option" where
  "control_parse value =
     (if value = Some ''pause'' then Some ControlPause
      else if value = Some ''cancel'' then Some ControlCancel else None)"

datatype run_pause_state =
    StateBudget run_budget_dimension u64 u64 u64 u64
  | StateRequested string
  | StateToolWeather string
  | StateReservationExceeded run_budget_dimension

datatype (plugins only: code size) run_state = RunStateFields
  (st_run_id: id16)
  (st_project_id: "id16 option")
  (st_status: run_status)
  (st_worker: string)
  (st_runtime_id: string)
  (st_executor: string)
  (st_autonomy_level: u8)
  (st_started_seq: event_seq)
  (st_finished_seq: "event_seq option")
  (st_committed_step_count: u32)
  (st_checkpointed_step_count: u32)
  (st_budget: run_budget)
  (st_spent: run_usage)
  (st_tainted: bool)
  (st_tool_grants: "run_tool_grant list")
  (st_parent_run_id: "id16 option")
  (st_lineage_depth: u8)
  (st_validation: "run_validation_ref option")
  (st_pending_control: "pending_run_control option")
  (st_pending_control_reason: "string option")
  (st_pause: "run_pause_state option")

datatype (plugins only: code size) run_effect_state = RunEffectStateFields
  (ef_recorded_seq: event_seq)
  (ef_output_digest: digest32)
  (ef_spent: run_usage)

datatype (plugins only: code size) run_checkpoint_state = RunCheckpointStateFields
  (ck_checkpoint_id: id16)
  (ck_state_digest: digest32)
  (ck_saved_seq: event_seq)

datatype (plugins only: code size) run_step_state = RunStepStateFields
  (ss_run_id: id16)
  (ss_step_index: u32)
  (ss_summary: string)
  (ss_phase: string)
  (ss_digest: "digest32 option")
  (ss_tool_call: "run_tool_call option")
  (ss_reserved: run_usage)
  (ss_committed_seq: event_seq)
  (ss_effect: "run_effect_state option")
  (ss_checkpoint: "run_checkpoint_state option")

datatype run_read_error = RunReadStore store_error | RunCorrupt string string

section \<open>Conversions\<close>

definition run_required_id :: "bytes \<Rightarrow> string \<Rightarrow> string \<Rightarrow> run_read_error + id16" where
  "run_required_id value table field = ok_or (RunCorrupt table field) (id_try_from value)"

definition run_optional_id :: "bytes option \<Rightarrow> string \<Rightarrow> string \<Rightarrow> run_read_error + id16 option" where
  "run_optional_id value table field = rtranspose (\<lambda>v. run_required_id v table field) value"

definition required_digest :: "bytes \<Rightarrow> string \<Rightarrow> run_read_error + digest32" where
  "required_digest value field = ok_or (RunCorrupt ''proj_run_steps'' field) (digest_try_from value)"

definition run_to_u64 :: "i64 \<Rightarrow> string \<Rightarrow> string \<Rightarrow> run_read_error + u64" where
  "run_to_u64 value table field = ok_or (RunCorrupt table field) (try_u64 value)"

definition run_to_u32 :: "i64 \<Rightarrow> string \<Rightarrow> string \<Rightarrow> run_read_error + u32" where
  "run_to_u32 value table field = ok_or (RunCorrupt table field) (try_u32 value)"

definition run_to_u8 :: "i64 \<Rightarrow> string \<Rightarrow> string \<Rightarrow> run_read_error + u8" where
  "run_to_u8 value table field = ok_or (RunCorrupt table field) (try_u8 value)"

definition budget_from :: "i64 list \<Rightarrow> string \<Rightarrow> run_read_error + run_budget" where
  "budget_from values table =
     rbind (run_to_u64 (values ! 0) table ''budget_tokens'') (\<lambda>tokens.
     rbind (run_to_u64 (values ! 1) table ''budget_usd_micros'') (\<lambda>usd_micros.
     rbind (run_to_u64 (values ! 2) table ''budget_wall_ms'') (\<lambda>wall_ms.
     rbind (run_to_u64 (values ! 3) table ''budget_storage_bytes'') (\<lambda>storage_bytes.
     rbind (run_to_u32 (values ! 4) table ''budget_tool_calls'') (\<lambda>tool_calls.
     rbind (run_to_u32 (values ! 5) table ''budget_retries'') (\<lambda>retries.
     rbind (run_to_u32 (values ! 6) table ''budget_steps'') (\<lambda>steps.
     Inr \<lparr>b_tokens = tokens, b_usd_micros = usd_micros, b_wall_ms = wall_ms, b_storage_bytes = storage_bytes,
          b_tool_calls = tool_calls, b_retries = retries, b_steps = steps\<rparr>)))))))"

definition usage_from :: "i64 list \<Rightarrow> string \<Rightarrow> run_read_error + run_usage" where
  "usage_from values table =
     rbind (run_to_u64 (values ! 0) table ''tokens'') (\<lambda>tokens.
     rbind (run_to_u64 (values ! 1) table ''usd_micros'') (\<lambda>usd_micros.
     rbind (run_to_u64 (values ! 2) table ''wall_ms'') (\<lambda>wall_ms.
     rbind (run_to_u64 (values ! 3) table ''storage_bytes'') (\<lambda>storage_bytes.
     rbind (run_to_u32 (values ! 4) table ''tool_calls'') (\<lambda>tool_calls.
     rbind (run_to_u32 (values ! 5) table ''retries'') (\<lambda>retries.
     rbind (run_to_u32 (values ! 6) table ''steps'') (\<lambda>steps.
     Inr \<lparr>u_tokens = tokens, u_usd_micros = usd_micros, u_wall_ms = wall_ms, u_storage_bytes = storage_bytes,
          u_tool_calls = tool_calls, u_retries = retries, u_steps = steps\<rparr>)))))))"

section \<open>Runs\<close>

datatype (plugins only: code size) run_raw = RunRawFields
  (rr_project_id: "bytes option")
  (rr_status: string)
  (rr_worker: string)
  (rr_runtime_id: string)
  (rr_executor: string)
  (rr_autonomy_level: i64)
  (rr_started_seq: i64)
  (rr_finished_seq: "i64 option")
  (rr_committed_step_count: i64)
  (rr_checkpointed_step_count: i64)
  (rr_budget: "i64 list")
  (rr_spent: "i64 list")
  (rr_tainted: i64)
  (rr_parent_run_id: "bytes option")
  (rr_lineage_depth: i64)
  (rr_validation_id: "bytes option")
  (rr_validation_status: "string option")
  (rr_pending_control: "string option")
  (rr_pending_control_reason: "string option")
  (rr_pause_kind: "string option")
  (rr_pause_detail: "string option")
  (rr_pause_dimension: "string option")
  (rr_pause_limit: "i64 option")
  (rr_pause_spent: "i64 option")
  (rr_pause_pending: "i64 option")
  (rr_pause_requested: "i64 option")

definition RUN_COLUMNS :: "string list" where
  "RUN_COLUMNS =
     [''project_id'', ''status'', ''worker'', ''runtime_id'', ''executor'', ''autonomy_level'',
      ''started_seq'', ''finished_seq'', ''committed_step_count'', ''checkpointed_step_count'',
      ''budget_tokens'', ''budget_usd_micros'', ''budget_wall_ms'', ''budget_storage_bytes'',
      ''budget_tool_calls'', ''budget_retries'', ''budget_steps'',
      ''spent_tokens'', ''spent_usd_micros'', ''spent_wall_ms'', ''spent_storage_bytes'',
      ''spent_tool_calls'', ''spent_retries'', ''spent_steps'', ''tainted'', ''parent_run_id'',
      ''lineage_depth'', ''validation_id'', ''validation_status'', ''pending_control'', ''control_reason'',
      ''pause_kind'', ''pause_detail'', ''pause_dimension'', ''pause_limit'', ''pause_spent'', ''pause_pending'',
      ''pause_requested'']"

definition run_row :: "sql_cell list \<Rightarrow> unit + run_raw" where
  "run_row c =
     rbind (get_opt get_blob (c ! 0)) (\<lambda>project_id.
     rbind (get_text (c ! 1)) (\<lambda>status.
     rbind (get_text (c ! 2)) (\<lambda>worker.
     rbind (get_text (c ! 3)) (\<lambda>runtime_id.
     rbind (get_text (c ! 4)) (\<lambda>executor.
     rbind (get_i64 (c ! 5)) (\<lambda>autonomy_level.
     rbind (get_i64 (c ! 6)) (\<lambda>started_seq.
     rbind (get_opt get_i64 (c ! 7)) (\<lambda>finished_seq.
     rbind (get_i64 (c ! 8)) (\<lambda>committed_step_count.
     rbind (get_i64 (c ! 9)) (\<lambda>checkpointed_step_count.
     rbind (rcollect get_i64 (take 7 (drop 10 c))) (\<lambda>budget.
     rbind (rcollect get_i64 (take 7 (drop 17 c))) (\<lambda>spent.
     rbind (get_i64 (c ! 24)) (\<lambda>tainted.
     rbind (get_opt get_blob (c ! 25)) (\<lambda>parent_run_id.
     rbind (get_i64 (c ! 26)) (\<lambda>lineage_depth.
     rbind (get_opt get_blob (c ! 27)) (\<lambda>validation_id.
     rbind (get_opt get_text (c ! 28)) (\<lambda>validation_status.
     rbind (get_opt get_text (c ! 29)) (\<lambda>pending_control.
     rbind (get_opt get_text (c ! 30)) (\<lambda>pending_control_reason.
     rbind (get_opt get_text (c ! 31)) (\<lambda>pause_kind.
     rbind (get_opt get_text (c ! 32)) (\<lambda>pause_detail.
     rbind (get_opt get_text (c ! 33)) (\<lambda>pause_dimension.
     rbind (get_opt get_i64 (c ! 34)) (\<lambda>pause_limit.
     rbind (get_opt get_i64 (c ! 35)) (\<lambda>pause_spent.
     rbind (get_opt get_i64 (c ! 36)) (\<lambda>pause_pending.
     rbind (get_opt get_i64 (c ! 37)) (\<lambda>pause_requested.
     Inr (RunRawFields project_id status worker runtime_id executor autonomy_level started_seq finished_seq
            committed_step_count checkpointed_step_count budget spent tainted parent_run_id lineage_depth
            validation_id validation_status pending_control pending_control_reason pause_kind pause_detail
            pause_dimension pause_limit pause_spent pause_pending pause_requested)))))))))))))))))))))))))))"

text \<open>The typed pause columns: all of them agree with one pause cause, or none is set.\<close>

definition pause_metric_count :: "run_raw \<Rightarrow> nat" where
  "pause_metric_count raw =
     length (filter (\<lambda>m. m \<noteq> None)
       [rr_pause_limit raw, rr_pause_spent raw, rr_pause_pending raw, rr_pause_requested raw])"

definition parse_pause_budget :: "run_raw \<Rightarrow> run_budget_dimension option \<Rightarrow> run_read_error + run_pause_state" where
  "parse_pause_budget raw dimension =
     (case (dimension, rr_pause_limit raw, rr_pause_spent raw, rr_pause_pending raw, rr_pause_requested raw) of
        (Some d, Some limit, Some spent, Some pending, Some requested) \<Rightarrow>
          if rr_pause_detail raw \<noteq> None
          then Inl (RunCorrupt ''proj_runs'' ''budget pause cannot carry free-form detail'')
          else rbind (run_to_u64 limit ''proj_runs'' ''pause_limit'') (\<lambda>limit'.
               rbind (run_to_u64 spent ''proj_runs'' ''pause_spent'') (\<lambda>spent'.
               rbind (run_to_u64 pending ''proj_runs'' ''pause_pending'') (\<lambda>pending'.
               rbind (run_to_u64 requested ''proj_runs'' ''pause_requested'') (\<lambda>requested'.
               Inr (StateBudget d limit' spent' pending' requested')))))
      | _ \<Rightarrow> Inl (RunCorrupt ''proj_runs'' ''budget pause is missing a dimension or measurement''))"

definition parse_pause_text ::
  "run_raw \<Rightarrow> run_budget_dimension option \<Rightarrow> string \<Rightarrow> string \<Rightarrow> run_read_error + string" where
  "parse_pause_text raw dimension measured missing =
     (if dimension \<noteq> None \<or> pause_metric_count raw \<noteq> 0 then Inl (RunCorrupt ''proj_runs'' measured)
      else ok_or (RunCorrupt ''proj_runs'' missing) (rr_pause_detail raw))"

definition parse_pause :: "run_raw \<Rightarrow> run_read_error + run_pause_state option" where
  "parse_pause raw =
     rbind (rtranspose (\<lambda>value. ok_or (RunCorrupt ''proj_runs'' ''pause_dimension'') (dimension_parse value))
              (rr_pause_dimension raw)) (\<lambda>dimension.
     case rr_pause_kind raw of
       None \<Rightarrow>
         if rr_pause_detail raw = None \<and> dimension = None \<and> pause_metric_count raw = 0 then Inr None
         else Inl (RunCorrupt ''proj_runs'' ''pause detail exists without pause_kind'')
     | Some kind \<Rightarrow>
         rbind (if kind = ''budget'' then parse_pause_budget raw dimension
                else if kind = ''requested'' then
                  rbind (parse_pause_text raw dimension ''requested pause cannot carry budget measurements''
                           ''requested pause has no reason'') (\<lambda>reason. Inr (StateRequested reason))
                else if kind = ''tool_weather'' then
                  rbind (parse_pause_text raw dimension ''tool-weather pause cannot carry budget measurements''
                           ''tool-weather pause has no code'') (\<lambda>code. Inr (StateToolWeather code))
                else if kind = ''reservation_exceeded'' then
                  (case dimension of
                     None \<Rightarrow> Inl (RunCorrupt ''proj_runs'' ''reservation pause has no dimension'')
                   | Some d \<Rightarrow>
                       if rr_pause_detail raw \<noteq> None \<or> pause_metric_count raw \<noteq> 0
                       then Inl (RunCorrupt ''proj_runs'' ''reservation pause has unexpected detail or measurements'')
                       else Inr (StateReservationExceeded d))
                else Inl (RunCorrupt ''proj_runs'' ''pause_kind'')) (\<lambda>pause. Inr (Some pause)))"

definition parse_validation :: "run_raw \<Rightarrow> run_read_error + run_validation_ref option" where
  "parse_validation raw =
     (case (rr_validation_id raw, rr_validation_status raw) of
        (None, None) \<Rightarrow> Inr None
      | (Some validation_id, Some status) \<Rightarrow>
          rbind (ok_or (RunCorrupt ''proj_runs'' ''validation_status'') (validation_parse status)) (\<lambda>status'.
          rbind (run_required_id validation_id ''proj_runs'' ''validation_id'') (\<lambda>vid.
          Inr (Some (RunValidationRefFields vid status'))))
      | _ \<Rightarrow> Inl (RunCorrupt ''proj_runs'' ''validation id and status must be populated together''))"

definition parse_tainted :: "i64 \<Rightarrow> run_read_error + bool" where
  "parse_tainted value =
     (if value = 0 then Inr False else if value = 1 then Inr True else Inl (RunCorrupt ''proj_runs'' ''tainted''))"

definition parse_run :: "id16 \<Rightarrow> run_raw \<Rightarrow> run_tool_grant list \<Rightarrow> run_read_error + run_state" where
  "parse_run run_id raw tool_grants =
     rbind (ok_or (RunCorrupt ''proj_runs'' ''status'') (run_status_parse (rr_status raw))) (\<lambda>status.
     let pending_control = control_parse (rr_pending_control raw)
     in if rr_pending_control raw \<noteq> None \<and> pending_control = None
          then Inl (RunCorrupt ''proj_runs'' ''pending_control'')
        else if (pending_control \<noteq> None) \<noteq> (rr_pending_control_reason raw \<noteq> None)
          then Inl (RunCorrupt ''proj_runs'' ''pending control and control reason must be populated together'')
        else
     rbind (parse_pause raw) (\<lambda>pause.
     rbind (parse_validation raw) (\<lambda>validation.
     if (status = StPaused) \<noteq> (pause \<noteq> None)
       then Inl (RunCorrupt ''proj_runs'' ''status disagrees with typed pause columns'')
     else
     rbind (run_optional_id (rr_project_id raw) ''proj_runs'' ''project_id'') (\<lambda>project_id.
     rbind (run_to_u8 (rr_autonomy_level raw) ''proj_runs'' ''autonomy_level'') (\<lambda>autonomy_level.
     rbind (run_to_u64 (rr_started_seq raw) ''proj_runs'' ''started_seq'') (\<lambda>started_seq.
     rbind (rtranspose (\<lambda>v. run_to_u64 v ''proj_runs'' ''finished_seq'') (rr_finished_seq raw)) (\<lambda>finished_seq.
     rbind (run_to_u32 (rr_committed_step_count raw) ''proj_runs'' ''committed_step_count'') (\<lambda>committed.
     rbind (run_to_u32 (rr_checkpointed_step_count raw) ''proj_runs'' ''checkpointed_step_count'') (\<lambda>checkpointed.
     rbind (budget_from (rr_budget raw) ''proj_runs'') (\<lambda>budget.
     rbind (usage_from (rr_spent raw) ''proj_runs'') (\<lambda>spent.
     rbind (parse_tainted (rr_tainted raw)) (\<lambda>tainted.
     rbind (run_optional_id (rr_parent_run_id raw) ''proj_runs'' ''parent_run_id'') (\<lambda>parent_run_id.
     rbind (run_to_u8 (rr_lineage_depth raw) ''proj_runs'' ''lineage_depth'') (\<lambda>lineage_depth.
     Inr (RunStateFields run_id project_id status (rr_worker raw) (rr_runtime_id raw) (rr_executor raw)
            autonomy_level started_seq finished_seq committed checkpointed budget spent tainted tool_grants
            parent_run_id lineage_depth validation pending_control (rr_pending_control_reason raw)
            pause)))))))))))))))"

definition read_tool_grants :: "'b project_log \<Rightarrow> id16 \<Rightarrow> run_read_error + run_tool_grant list" where
  "read_tool_grants l run_id =
     rbind (map_err RunReadStore (with_reader ''read Run tool grants'' (\<lambda>db.
              rbind (table_rows RUN_TOOL_GRANTS_TABLE (main_tables db)) (\<lambda>t.
              rcollect (\<lambda>kr.
                rbind (get_text (column_cell RUN_TOOL_GRANTS_TABLE kr ''tool_id'')) (\<lambda>tool_id.
                rbind (get_text (column_cell RUN_TOOL_GRANTS_TABLE kr ''mode'')) (\<lambda>mode. Inr (tool_id, mode))))
                (sort_key (\<lambda>kr. column_cell RUN_TOOL_GRANTS_TABLE kr ''tool_id'')
                  (filter (\<lambda>kr. column_cell RUN_TOOL_GRANTS_TABLE kr ''run_id'' = CBlob (into_bytes run_id)) t))))
              (pl_store l))) (\<lambda>rows.
     rcollect (\<lambda>(tool_id, mode).
       rbind (ok_or (RunCorrupt ''proj_run_tool_grants'' ''mode'') (grant_mode_parse mode)) (\<lambda>mode'.
       Inr (RunToolGrantFields tool_id mode'))) rows)"

definition read_run :: "'b project_log \<Rightarrow> id16 \<Rightarrow> run_read_error + run_state option" where
  "read_run l run_id =
     rbind (map_err RunReadStore (with_reader ''read Run projection'' (\<lambda>db.
              rbind (table_rows RUNS_TABLE (main_tables db)) (\<lambda>t.
              case filter (\<lambda>kr. column_cell RUNS_TABLE kr ''run_id'' = CBlob (into_bytes run_id)) t of
                [] \<Rightarrow> Inr None
              | kr # _ \<Rightarrow> rbind (run_row (select_columns RUNS_TABLE RUN_COLUMNS kr)) (\<lambda>raw. Inr (Some raw))))
              (pl_store l))) (\<lambda>raw.
     case raw of
       None \<Rightarrow> Inr None
     | Some raw' \<Rightarrow>
         rbind (read_tool_grants l run_id) (\<lambda>tool_grants.
         rbind (parse_run run_id raw' tool_grants) (\<lambda>state. Inr (Some state))))"

section \<open>Steps\<close>

datatype (plugins only: code size) step_raw = StepRawFields
  (sr_summary: string)
  (sr_phase: string)
  (sr_digest: "bytes option")
  (sr_tool_id: "string option")
  (sr_tool_descriptor_version: "i64 option")
  (sr_tool_call_id: "bytes option")
  (sr_idempotency_key: "string option")
  (sr_input: "bytes option")
  (sr_reserved: "i64 list")
  (sr_committed_seq: i64)
  (sr_effect_recorded_seq: "i64 option")
  (sr_output_digest: "bytes option")
  (sr_spent: "i64 list")
  (sr_checkpoint_id: "bytes option")
  (sr_checkpoint_digest: "bytes option")
  (sr_checkpoint_seq: "i64 option")

definition STEP_COLUMNS :: "string list" where
  "STEP_COLUMNS =
     [''summary'', ''phase'', ''step_digest'', ''tool_id'', ''tool_descriptor_version'', ''tool_call_id'',
      ''idempotency_key'', ''input'', ''reserved_tokens'', ''reserved_usd_micros'', ''reserved_wall_ms'',
      ''reserved_storage_bytes'', ''reserved_tool_calls'', ''reserved_retries'', ''reserved_steps'',
      ''committed_seq'', ''effect_recorded_seq'', ''output_digest'', ''spent_tokens'', ''spent_usd_micros'',
      ''spent_wall_ms'', ''spent_storage_bytes'', ''spent_tool_calls'', ''spent_retries'', ''spent_steps'',
      ''checkpoint_id'', ''checkpoint_digest'', ''checkpoint_seq'']"

definition step_row :: "sql_cell list \<Rightarrow> unit + step_raw" where
  "step_row c =
     rbind (get_text (c ! 0)) (\<lambda>summary.
     rbind (get_text (c ! 1)) (\<lambda>phase.
     rbind (get_opt get_blob (c ! 2)) (\<lambda>digest.
     rbind (get_opt get_text (c ! 3)) (\<lambda>tool_id.
     rbind (get_opt get_i64 (c ! 4)) (\<lambda>tool_descriptor_version.
     rbind (get_opt get_blob (c ! 5)) (\<lambda>tool_call_id.
     rbind (get_opt get_text (c ! 6)) (\<lambda>idempotency_key.
     rbind (get_opt get_blob (c ! 7)) (\<lambda>input.
     rbind (rcollect get_i64 (take 7 (drop 8 c))) (\<lambda>reserved.
     rbind (get_i64 (c ! 15)) (\<lambda>committed_seq.
     rbind (get_opt get_i64 (c ! 16)) (\<lambda>effect_recorded_seq.
     rbind (get_opt get_blob (c ! 17)) (\<lambda>output_digest.
     rbind (rcollect get_i64 (take 7 (drop 18 c))) (\<lambda>spent.
     rbind (get_opt get_blob (c ! 25)) (\<lambda>checkpoint_id.
     rbind (get_opt get_blob (c ! 26)) (\<lambda>checkpoint_digest.
     rbind (get_opt get_i64 (c ! 27)) (\<lambda>checkpoint_seq.
     Inr (StepRawFields summary phase digest tool_id tool_descriptor_version tool_call_id idempotency_key input
            reserved committed_seq effect_recorded_seq output_digest spent checkpoint_id checkpoint_digest
            checkpoint_seq)))))))))))))))))"

definition parse_step_call :: "step_raw \<Rightarrow> run_read_error + run_tool_call option" where
  "parse_step_call raw =
     (case (sr_tool_id raw, sr_tool_descriptor_version raw, sr_tool_call_id raw, sr_idempotency_key raw,
            sr_input raw) of
        (None, None, None, None, None) \<Rightarrow> Inr None
      | (Some tool_id, Some descriptor_version, Some call_id, Some idempotency_key, Some input) \<Rightarrow>
          rbind (ok_or (RunCorrupt ''proj_run_steps'' ''tool_descriptor_version'') (try_u16 descriptor_version)) (\<lambda>version.
          rbind (run_required_id call_id ''proj_run_steps'' ''tool_call_id'') (\<lambda>cid.
          Inr (Some (RunToolCallFields tool_id version cid idempotency_key input))))
      | _ \<Rightarrow> Inl (RunCorrupt ''proj_run_steps'' ''tool call columns are only partially populated''))"

definition parse_step_effect :: "step_raw \<Rightarrow> run_read_error + run_effect_state option" where
  "parse_step_effect raw =
     (case (sr_effect_recorded_seq raw, sr_output_digest raw) of
        (None, None) \<Rightarrow> Inr None
      | (Some seq, Some digest) \<Rightarrow>
          rbind (run_to_u64 seq ''proj_run_steps'' ''effect_recorded_seq'') (\<lambda>seq'.
          rbind (required_digest digest ''output_digest'') (\<lambda>digest'.
          rbind (usage_from (sr_spent raw) ''proj_run_steps'') (\<lambda>spent.
          Inr (Some (RunEffectStateFields seq' digest' spent)))))
      | _ \<Rightarrow> Inl (RunCorrupt ''proj_run_steps'' ''effect receipt columns are only partially populated''))"

definition parse_step_checkpoint :: "step_raw \<Rightarrow> run_read_error + run_checkpoint_state option" where
  "parse_step_checkpoint raw =
     (case (sr_checkpoint_id raw, sr_checkpoint_digest raw, sr_checkpoint_seq raw) of
        (None, None, None) \<Rightarrow> Inr None
      | (Some cid, Some digest, Some seq) \<Rightarrow>
          rbind (run_required_id cid ''proj_run_steps'' ''checkpoint_id'') (\<lambda>cid'.
          rbind (required_digest digest ''checkpoint_digest'') (\<lambda>digest'.
          rbind (run_to_u64 seq ''proj_run_steps'' ''checkpoint_seq'') (\<lambda>seq'.
          Inr (Some (RunCheckpointStateFields cid' digest' seq')))))
      | _ \<Rightarrow> Inl (RunCorrupt ''proj_run_steps'' ''checkpoint columns are only partially populated''))"

definition parse_step :: "id16 \<Rightarrow> u32 \<Rightarrow> step_raw \<Rightarrow> run_read_error + run_step_state" where
  "parse_step run_id step_index raw =
     rbind (parse_step_call raw) (\<lambda>tool_call.
     rbind (parse_step_effect raw) (\<lambda>effect.
     rbind (parse_step_checkpoint raw) (\<lambda>checkpoint.
     rbind (rtranspose (\<lambda>v. required_digest v ''step_digest'') (sr_digest raw)) (\<lambda>digest.
     rbind (usage_from (sr_reserved raw) ''proj_run_steps'') (\<lambda>reserved.
     rbind (run_to_u64 (sr_committed_seq raw) ''proj_run_steps'' ''committed_seq'') (\<lambda>committed_seq.
     Inr (RunStepStateFields run_id step_index (sr_summary raw) (sr_phase raw) digest tool_call reserved
            committed_seq effect checkpoint)))))))"

definition read_run_step :: "'b project_log \<Rightarrow> id16 \<Rightarrow> u32 \<Rightarrow> run_read_error + run_step_state option" where
  "read_run_step l run_id step_index =
     rbind (map_err RunReadStore (with_reader ''read Run step projection'' (\<lambda>db.
              rbind (table_rows RUN_STEPS_TABLE (main_tables db)) (\<lambda>t.
              case filter (\<lambda>kr. column_cell RUN_STEPS_TABLE kr ''run_id'' = CBlob (into_bytes run_id) \<and>
                                column_cell RUN_STEPS_TABLE kr ''step_index'' = CInteger (i64_of step_index)) t of
                [] \<Rightarrow> Inr None
              | kr # _ \<Rightarrow> rbind (step_row (select_columns RUN_STEPS_TABLE STEP_COLUMNS kr)) (\<lambda>raw. Inr (Some raw))))
              (pl_store l))) (\<lambda>raw.
     rtranspose (parse_step run_id step_index) raw)"

end
