(* ===== verification/Tools.thy ===== *)
theory Tools
  imports Domain_Events "HOL-Library.List_Lexorder" "HOL-Library.Char_ord"
begin

text \<open>
  The capability- and taint-enforcing tool registry, \<open>crates/pos-agents/src/tools.rs\<close>: bounded tool
  ids, capability scopes, descriptors, the per-Run allowlist, gate receipts, and the two ways to an
  \<open>AuthorizedToolCall\<close>: \<open>authorize\<close> for a new call and \<open>rehydrate\<close> for a committed one. A \<open>BTreeMap\<close>
  is a key-sorted association list.
\<close>

section \<open>Bounds\<close>

definition TOOL_REGISTRY_COUNT_MAX :: nat where
  "TOOL_REGISTRY_COUNT_MAX = 256"

definition RUN_TOOL_GRANT_COUNT_MAX :: nat where
  "RUN_TOOL_GRANT_COUNT_MAX = 64"

definition TOOL_INPUT_BYTES_MAX :: nat where
  "TOOL_INPUT_BYTES_MAX = 65536"

definition TOOL_ID_LEN_MAX :: nat where
  "TOOL_ID_LEN_MAX = 64"

definition CAPABILITY_TARGET_LEN_MAX :: nat where
  "CAPABILITY_TARGET_LEN_MAX = 128"

definition GATE_REASON_LEN_MAX :: nat where
  "GATE_REASON_LEN_MAX = 512"

section \<open>Types\<close>

type_synonym tool_id = string

datatype tool_registry_error =
    InvalidToolId string
  | InvalidCapabilityTarget string string
  | InvalidDescriptorVersion string
  | InvalidInputBound string u32 nat
  | DuplicateTool string
  | DuplicateGrant string
  | TooManyTools nat
  | TooManyGrants nat
  | InvalidAutonomyLevel u8
  | InvalidGateReason

definition tool_id_new :: "string \<Rightarrow> tool_registry_error + tool_id" where
  "tool_id_new value = (if valid_id_text TOOL_ID_LEN_MAX value then Inr value else Inl (InvalidToolId value))"

datatype capability_scope =
    ReadEvidence | ReadOperations | WriteProposal | WritePlan | WriteIncident | ExecLocal | ExecCloud
  | ChangeProduction | Egress string | SecretUse string

definition bounded_target :: "string \<Rightarrow> string \<Rightarrow> tool_registry_error + string" where
  "bounded_target kind value =
     (if visible_text CAPABILITY_TARGET_LEN_MAX value then Inr value
      else Inl (InvalidCapabilityTarget kind value))"

definition scope_egress :: "string \<Rightarrow> tool_registry_error + capability_scope" where
  "scope_egress target = rbind (bounded_target ''egress'' target) (\<lambda>t. Inr (Egress t))"

definition scope_secret_use :: "string \<Rightarrow> tool_registry_error + capability_scope" where
  "scope_secret_use reference = rbind (bounded_target ''secret reference'' reference) (\<lambda>t. Inr (SecretUse t))"

fun is_egress :: "capability_scope \<Rightarrow> bool" where
  "is_egress (Egress _) = True"
| "is_egress _ = False"

fun is_always_gated :: "capability_scope \<Rightarrow> bool" where
  "is_always_gated ChangeProduction = True"
| "is_always_gated (Egress _) = True"
| "is_always_gated _ = False"

datatype tool_policy_mode = PolicyAllow | PolicyGate | PolicyBlock

datatype tool_effect_class = ReadOnly | Idempotent | NonIdempotent

fun effect_class_as_str :: "tool_effect_class \<Rightarrow> string" where
  "effect_class_as_str ReadOnly = ''read_only''"
| "effect_class_as_str Idempotent = ''idempotent''"
| "effect_class_as_str NonIdempotent = ''non_idempotent''"

datatype (plugins only: code size) tool_descriptor = ToolDescriptorFields
  (td_id: tool_id)
  (td_version: u16)
  (td_scope: capability_scope)
  (td_mode: tool_policy_mode)
  (td_effect: tool_effect_class)
  (td_max_input_bytes: u32)

definition tool_descriptor_new ::
  "tool_id \<Rightarrow> u16 \<Rightarrow> capability_scope \<Rightarrow> tool_policy_mode \<Rightarrow> tool_effect_class \<Rightarrow> u32
     \<Rightarrow> tool_registry_error + tool_descriptor" where
  "tool_descriptor_new tool version scope mode effect max_input_bytes =
     (if version = 0 then Inl (InvalidDescriptorVersion tool)
      else if max_input_bytes = 0 \<or> unat max_input_bytes > TOOL_INPUT_BYTES_MAX
        then Inl (InvalidInputBound tool max_input_bytes TOOL_INPUT_BYTES_MAX)
      else Inr (ToolDescriptorFields tool version scope mode effect max_input_bytes))"

type_synonym autonomy_level = u8

definition autonomy_new :: "u8 \<Rightarrow> tool_registry_error + autonomy_level" where
  "autonomy_new value = (if value \<le> 4 then Inr value else Inl (InvalidAutonomyLevel value))"

section \<open>Registries keyed by id\<close>

text \<open>The loop of \<open>BTreeMap::insert(..).is_some()\<close> that refuses the first repeated key.\<close>

fun insert_all :: "('k::linorder \<Rightarrow> 'e) \<Rightarrow> ('k \<times> 'v) list \<Rightarrow> ('k \<times> 'v) list \<Rightarrow> 'e + ('k \<times> 'v) list" where
  "insert_all dup [] m = Inr m"
| "insert_all dup ((k, v) # es) m =
     (if map_of m k \<noteq> None then Inl (dup k) else insert_all dup es (tbl_put k v m))"

datatype tool_grant_mode = GrantAllow | GrantGate | GrantBlock

type_synonym run_tool_grants = "(tool_id \<times> tool_grant_mode) list"

definition run_tool_grants_new ::
  "(tool_id \<times> tool_grant_mode) list \<Rightarrow> tool_registry_error + run_tool_grants" where
  "run_tool_grants_new entries =
     (if length entries > RUN_TOOL_GRANT_COUNT_MAX then Inl (TooManyGrants RUN_TOOL_GRANT_COUNT_MAX)
      else insert_all DuplicateGrant entries [])"

fun mode_from_domain :: "run_tool_grant_mode \<Rightarrow> tool_grant_mode" where
  "mode_from_domain Allow = GrantAllow"
| "mode_from_domain Gate = GrantGate"
| "mode_from_domain Block = GrantBlock"

fun mode_to_domain :: "tool_grant_mode \<Rightarrow> run_tool_grant_mode" where
  "mode_to_domain GrantAllow = Allow"
| "mode_to_domain GrantGate = Gate"
| "mode_to_domain GrantBlock = Block"

definition grants_from_domain :: "run_tool_grant list \<Rightarrow> tool_registry_error + run_tool_grants" where
  "grants_from_domain entries =
     rbind (rcollect (\<lambda>g. rbind (tool_id_new (tg_tool_id g)) (\<lambda>id. Inr (id, mode_from_domain (tg_mode g)))) entries)
       run_tool_grants_new"

definition domain_grants :: "run_tool_grants \<Rightarrow> run_tool_grant list" where
  "domain_grants grants = map (\<lambda>(id, mode). RunToolGrantFields id (mode_to_domain mode)) grants"

section \<open>Receipts, requests, authorized calls\<close>

datatype (plugins only: code size) gate_receipt = GateReceiptFields
  (gr_receipt_id: id16)
  (gr_run_id: id16)
  (gr_call_id: id16)
  (gr_tool_id: tool_id)
  (gr_approved_by: id16)
  (gr_reason: string)
  (gr_expires_ts_ms: u64)

definition gate_receipt_new ::
  "id16 \<Rightarrow> id16 \<Rightarrow> id16 \<Rightarrow> tool_id \<Rightarrow> id16 \<Rightarrow> string \<Rightarrow> u64 \<Rightarrow> tool_registry_error + gate_receipt" where
  "gate_receipt_new receipt_id run_id call_id tool_id approved_by reason expires_ts_ms =
     (if reason = [] \<or> length reason > GATE_REASON_LEN_MAX \<or> any_control reason then Inl InvalidGateReason
      else Inr (GateReceiptFields receipt_id run_id call_id tool_id approved_by reason expires_ts_ms))"

datatype (plugins only: code size) tool_call_request = ToolCallRequestFields
  (tq_tool_id: tool_id)
  (tq_call_id: id16)
  (tq_input: bytes)

datatype (plugins only: code size) authorization_context = AuthorizationContextFields
  (ac_run_id: id16)
  (ac_step_index: u32)
  (ac_tainted: bool)
  (ac_autonomy_level: autonomy_level)
  (ac_grants: run_tool_grants)
  (ac_receipt: "gate_receipt option")
  (ac_now_ts_ms: u64)

datatype authorization_error =
    UnknownTool string
  | OutsideAllowlist string
  | Blocked string
  | GateRequired string
  | ReceiptMismatch string
  | ReceiptExpired string u64
  | InputTooLarge string nat u32
  | DescriptorVersionChanged string u16 u16

datatype (plugins only: code size) authorized_tool_call = AuthorizedToolCallFields
  (at_run_id: id16)
  (at_step_index: u32)
  (at_descriptor: tool_descriptor)
  (at_call_id: id16)
  (at_idempotency_key: string)
  (at_input: bytes)

definition at_tool_id :: "authorized_tool_call \<Rightarrow> tool_id" where
  "at_tool_id call = td_id (at_descriptor call)"

definition at_effect_class :: "authorized_tool_call \<Rightarrow> tool_effect_class" where
  "at_effect_class call = td_effect (at_descriptor call)"

definition domain_call :: "authorized_tool_call \<Rightarrow> run_tool_call" where
  "domain_call call =
     RunToolCallFields (td_id (at_descriptor call)) (td_version (at_descriptor call)) (at_call_id call)
       (at_idempotency_key call) (at_input call)"

section \<open>The registry\<close>

type_synonym tool_registry = "(tool_id \<times> tool_descriptor) list"

definition tool_registry_new :: "tool_descriptor list \<Rightarrow> tool_registry_error + tool_registry" where
  "tool_registry_new descriptors =
     (if length descriptors > TOOL_REGISTRY_COUNT_MAX then Inl (TooManyTools TOOL_REGISTRY_COUNT_MAX)
      else insert_all DuplicateTool (map (\<lambda>d. (td_id d, d)) descriptors) [])"

definition tool_descriptors :: "tool_registry \<Rightarrow> tool_descriptor list" where
  "tool_descriptors reg = map snd reg"

definition validate_receipt :: "tool_call_request \<Rightarrow> authorization_context \<Rightarrow> authorization_error + unit" where
  "validate_receipt request context =
     (let id = tq_tool_id request
      in case ac_receipt context of
           None \<Rightarrow> Inl (GateRequired id)
         | Some receipt \<Rightarrow>
             if gr_run_id receipt \<noteq> ac_run_id context \<or> gr_call_id receipt \<noteq> tq_call_id request \<or>
                gr_tool_id receipt \<noteq> tq_tool_id request
             then Inl (ReceiptMismatch id)
             else if gr_expires_ts_ms receipt < ac_now_ts_ms context
               then Inl (ReceiptExpired id (gr_expires_ts_ms receipt))
             else Inr ())"

definition idempotency_key :: "id16 \<Rightarrow> u32 \<Rightarrow> id16 \<Rightarrow> string" where
  "idempotency_key run_id step_index call_id =
     to_hex run_id @ CHR '':'' # dec_text (unat step_index) @ CHR '':'' # to_hex call_id"

definition gate_required :: "tool_descriptor \<Rightarrow> tool_grant_mode \<Rightarrow> bool \<Rightarrow> bool" where
  "gate_required descriptor grant tainted \<longleftrightarrow>
     td_mode descriptor = PolicyGate \<or> grant = GrantGate \<or> is_always_gated (td_scope descriptor) \<or>
     td_effect descriptor = NonIdempotent \<or>
     tainted \<and> (is_egress (td_scope descriptor) \<or> td_effect descriptor \<noteq> ReadOnly)"

definition authorize ::
  "tool_registry \<Rightarrow> tool_call_request \<Rightarrow> authorization_context \<Rightarrow> authorization_error + authorized_tool_call" where
  "authorize reg request context =
     (let id = tq_tool_id request
      in rbind (ok_or (UnknownTool id) (map_of reg id)) (\<lambda>descriptor.
         rbind (ok_or (OutsideAllowlist id) (map_of (ac_grants context) id)) (\<lambda>grant.
         if td_mode descriptor = PolicyBlock \<or> grant = GrantBlock then Inl (Blocked id)
         else if length (tq_input request) > unat (td_max_input_bytes descriptor)
           then Inl (InputTooLarge id (length (tq_input request)) (td_max_input_bytes descriptor))
         else rbind (if gate_required descriptor grant (ac_tainted context)
                     then validate_receipt request context else Inr ()) (\<lambda>_.
              Inr (AuthorizedToolCallFields (ac_run_id context) (ac_step_index context) descriptor
                     (tq_call_id request)
                     (idempotency_key (ac_run_id context) (ac_step_index context) (tq_call_id request))
                     (tq_input request))))))"

definition rehydrate ::
  "tool_registry \<Rightarrow> id16 \<Rightarrow> u32 \<Rightarrow> run_tool_call \<Rightarrow> authorization_error + authorized_tool_call" where
  "rehydrate reg run_id step_index call =
     rbind (map_err (\<lambda>_. UnknownTool (tc_tool_id call)) (tool_id_new (tc_tool_id call))) (\<lambda>id.
     rbind (ok_or (UnknownTool (tc_tool_id call)) (map_of reg id)) (\<lambda>descriptor.
     if td_version descriptor \<noteq> tc_descriptor_version call
       then Inl (DescriptorVersionChanged (tc_tool_id call) (tc_descriptor_version call) (td_version descriptor))
     else if length (tc_input call) > unat (td_max_input_bytes descriptor)
       then Inl (InputTooLarge (tc_tool_id call) (length (tc_input call)) (td_max_input_bytes descriptor))
     else Inr (AuthorizedToolCallFields run_id step_index descriptor (tc_call_id call)
                 (tc_idempotency_key call) (tc_input call))))"

section \<open>Lemmas\<close>

lemma insert_all_present:
  "k \<in> fst ` set es \<Longrightarrow> map_of m k \<noteq> None \<Longrightarrow> \<exists>e. insert_all dup es m = Inl e"
proof (induction dup es m rule: insert_all.induct)
  case (2 dup k' v es m)
  show ?case
  proof (cases "map_of m k'")
    case None
    with 2(3) have "k \<noteq> k'" by auto
    with 2 None show ?thesis by auto
  qed simp
qed simp

lemma insert_all_Inr:
  assumes "insert_all dup es m = Inr m'" "tbl_sorted m"
  shows "tbl_sorted m' \<and> distinct (map fst es) \<and> map_of m' = map_of m ++ map_of es"
  using assms
proof (induction dup es m rule: insert_all.induct)
  case (2 dup k v es m)
  then have fresh: "map_of m k = None" and rest: "insert_all dup es (tbl_put k v m) = Inr m'"
    by (auto split: if_splits)
  have IH: "tbl_sorted m' \<and> distinct (map fst es) \<and> map_of m' = map_of (tbl_put k v m) ++ map_of es"
    by (rule "2.IH") (use fresh rest 2(3) in auto)
  have "k \<notin> fst ` set es"
    using insert_all_present [of k es "tbl_put k v m" dup] rest by auto
  moreover from this have "map_of es k = None"
    by (simp add: map_of_eq_None_iff)
  ultimately show ?case
    using IH by (auto simp: map_add_def fun_eq_iff split: option.splits)
qed (auto simp: tbl_sorted_def)

lemma insert_all_distinct:
  "distinct (map fst es) \<Longrightarrow> fst ` set es \<inter> dom (map_of m) = {} \<Longrightarrow> \<exists>m'. insert_all dup es m = Inr m'"
proof (induction dup es m rule: insert_all.induct)
  case (2 dup k v es m)
  then have fresh: "map_of m k = None" and dj: "fst ` set es \<inter> dom (map_of (tbl_put k v m)) = {}"
    by (auto simp: dom_fun_upd)
  have "\<exists>m'. insert_all dup es (tbl_put k v m) = Inr m'"
    by (rule "2.IH") (use fresh dj "2.prems" in \<open>simp_all del: map_of_tbl_put\<close>)
  with fresh show ?case by simp
qed simp

text \<open>
  A receipt that names this run, this call and this tool and has not expired: what every gated call
  must present.
\<close>

definition exact_receipt :: "tool_call_request \<Rightarrow> authorization_context \<Rightarrow> bool" where
  "exact_receipt request context \<longleftrightarrow>
     (\<exists>r. ac_receipt context = Some r \<and> gr_run_id r = ac_run_id context \<and> gr_call_id r = tq_call_id request \<and>
          gr_tool_id r = tq_tool_id request \<and> ac_now_ts_ms context \<le> gr_expires_ts_ms r)"

lemma validate_receipt_ok: "validate_receipt request context = Inr () \<longleftrightarrow> exact_receipt request context"
  by (auto simp: validate_receipt_def exact_receipt_def Let_def not_less split: option.split)

lemma authorize_Inr:
  "authorize reg request context = Inr call \<longleftrightarrow>
     (\<exists>d g. map_of reg (tq_tool_id request) = Some d \<and> map_of (ac_grants context) (tq_tool_id request) = Some g \<and>
       td_mode d \<noteq> PolicyBlock \<and> g \<noteq> GrantBlock \<and> length (tq_input request) \<le> unat (td_max_input_bytes d) \<and>
       (gate_required d g (ac_tainted context) \<longrightarrow> exact_receipt request context) \<and>
       call = AuthorizedToolCallFields (ac_run_id context) (ac_step_index context) d (tq_call_id request)
                (idempotency_key (ac_run_id context) (ac_step_index context) (tq_call_id request)) (tq_input request))"
  by (auto simp: authorize_def Let_def rbind_Inr validate_receipt_ok not_less)

lemma idempotency_key_inject [simp]:
  "idempotency_key r s c = idempotency_key r' s' c' \<longleftrightarrow> r = r' \<and> s = s' \<and> c = c'"
proof
  assume eq: "idempotency_key r s c = idempotency_key r' s' c'"
  then have r: "to_hex r = to_hex r'" and rest: "dec_text (unat s) @ CHR '':'' # to_hex c = dec_text (unat s') @ CHR '':'' # to_hex c'"
    by (auto simp: idempotency_key_def append_eq_append_conv)
  have "length (dec_text (unat s)) = length (dec_text (unat s'))"
    using arg_cong [OF rest, of length] by simp
  with rest have "dec_text (unat s) = dec_text (unat s')" "to_hex c = to_hex c'"
    by (auto simp: append_eq_append_conv)
  with r show "r = r' \<and> s = s' \<and> c = c'" by (simp add: word_unat_eq_iff)
qed simp

text \<open>A committed call comes back as the call that was authorized, under the same registry.\<close>

lemma rehydrate_authorized:
  assumes "authorize reg request context = Inr call" "valid_id_text TOOL_ID_LEN_MAX (tq_tool_id request)"
    and "\<And>k d. map_of reg k = Some d \<Longrightarrow> td_id d = k"
  shows "rehydrate reg (at_run_id call) (at_step_index call) (domain_call call) = Inr call"
  using assms by (auto simp: authorize_Inr rehydrate_def domain_call_def tool_id_new_def not_less)

lemma registry_keys:
  assumes "tool_registry_new ds = Inr reg" "map_of reg k = Some d"
  shows "td_id d = k \<and> d \<in> set ds"
proof -
  have "map_of reg = map_of (map (\<lambda>d. (td_id d, d)) ds)"
    using insert_all_Inr [of DuplicateTool "map (\<lambda>d. (td_id d, d)) ds" "[]" reg] assms(1)
    by (simp add: tool_registry_new_def tbl_sorted_def split: if_splits)
  with assms(2) have "(k, d) \<in> set (map (\<lambda>d. (td_id d, d)) ds)"
    by (intro map_of_SomeD) simp
  then show ?thesis by auto
qed

text \<open>Grants survive the trip through the event body and the projection rows, which keep id order.\<close>

lemma mode_domain_id [simp]: "mode_from_domain (mode_to_domain m) = m"
  by (cases m) simp_all

lemma sorted_insert_all:
  "tbl_sorted (m @ es) \<Longrightarrow> insert_all dup es m = Inr (m @ es)"
proof (induction dup es m rule: insert_all.induct)
  case (2 dup k v es m)
  have lt: "\<forall>x \<in> fst ` set m. x < k"
    using 2(2) by (auto simp: tbl_sorted_def sorted_wrt_append)
  then have "map_of m k = None"
    by (auto simp: map_of_eq_None_iff)
  moreover have "tbl_put k v m = m @ [(k, v)]"
    using lt by (induction m) (auto simp: not_less less_imp_le)
  ultimately show ?case using 2 by simp
qed simp

lemma grants_roundtrip:
  assumes "run_tool_grants_new es = Inr grants" "\<forall>e \<in> set es. valid_id_text TOOL_ID_LEN_MAX (fst e)"
  shows "grants_from_domain (domain_grants grants) = Inr grants"
proof -
  have s: "tbl_sorted grants" "map_of grants = map_of es"  and d: "distinct (map fst es)"
    using insert_all_Inr [of DuplicateGrant es "[]" grants] assms(1)
    by (auto simp: run_tool_grants_new_def tbl_sorted_def split: if_splits)
  have dg: "distinct (map fst grants)"
    using s(1) by (auto simp: tbl_sorted_def strict_sorted_iff)
  have "set grants = set es"
    using s(2) d dg map_of_eq_Some_iff by (metis (no_types, lifting) subsetI subset_antisym surj_pair)
  then have valid: "\<And>e. e \<in> set grants \<Longrightarrow> valid_id_text TOOL_ID_LEN_MAX (fst e)" and "length grants = length es"
    using assms(2) d dg distinct_card [of grants] distinct_card [of es] by (auto simp: distinct_map)
  then have len: "length grants \<le> RUN_TOOL_GRANT_COUNT_MAX"
    using assms(1) by (simp add: run_tool_grants_new_def split: if_splits)
  have "rcollect (\<lambda>g. rbind (tool_id_new (tg_tool_id g)) (\<lambda>id. Inr (id, mode_from_domain (tg_mode g))))
      (domain_grants grants) = Inr grants"
    unfolding domain_grants_def using valid by (induction grants) (auto simp: tool_id_new_def, blast)
  then show ?thesis
    using sorted_insert_all [of "[]" grants DuplicateGrant] s(1) len
    by (simp add: grants_from_domain_def run_tool_grants_new_def)
qed

end
