(* ===== verification/Runtimes.thy ===== *)
theory Runtimes
  imports Tools
begin

text \<open>
  The two registries a Run is started from: the fixed roster of worker charters
  (\<open>crates/pos-agents/src/roster.rs\<close>) and the runtime registry (\<open>crates/pos-agents/src/runtime.rs\<close>)
  that resolves a runtime id and an executor to a healthy descriptor.
\<close>

section \<open>Roster\<close>

datatype roster_charter =
    Navigator | Analyst | Archivist | Planner | Foreman | Scout | Sentinel | IncidentCommander
  | Investigator | Verifier | Scribe | Echo

definition charter_FOUNDATION :: "roster_charter list" where
  "charter_FOUNDATION =
     [Navigator, Analyst, Archivist, Planner, Foreman, Scout, Sentinel, IncidentCommander, Investigator,
      Verifier, Scribe]"

definition charter_ALL :: "roster_charter list" where
  "charter_ALL =
     [Navigator, Analyst, Archivist, Planner, Foreman, Scout, Sentinel, IncidentCommander, Investigator,
      Verifier, Scribe, Echo]"

fun charter_as_str :: "roster_charter \<Rightarrow> string" where
  "charter_as_str Navigator = ''Navigator''"
| "charter_as_str Analyst = ''Analyst''"
| "charter_as_str Archivist = ''Archivist''"
| "charter_as_str Planner = ''Planner''"
| "charter_as_str Foreman = ''Foreman''"
| "charter_as_str Scout = ''Scout''"
| "charter_as_str Sentinel = ''Sentinel''"
| "charter_as_str IncidentCommander = ''Incident Commander''"
| "charter_as_str Investigator = ''Investigator''"
| "charter_as_str Verifier = ''Verifier''"
| "charter_as_str Scribe = ''Scribe''"
| "charter_as_str Echo = ''Echo''"

fun roster_contains :: "roster_charter \<Rightarrow> bool" where
  "roster_contains Navigator = True"
| "roster_contains Analyst = True"
| "roster_contains Archivist = True"
| "roster_contains Planner = True"
| "roster_contains Foreman = True"
| "roster_contains Scout = True"
| "roster_contains Sentinel = True"
| "roster_contains IncidentCommander = True"
| "roster_contains Investigator = True"
| "roster_contains Verifier = True"
| "roster_contains Scribe = True"
| "roster_contains Echo = True"

section \<open>Runtimes\<close>

definition RUNTIME_REGISTRY_COUNT_MAX :: nat where
  "RUNTIME_REGISTRY_COUNT_MAX = 256"

definition RUNTIME_ID_LEN_MAX :: nat where
  "RUNTIME_ID_LEN_MAX = 64"

type_synonym runtime_id = string

datatype runtime_registry_error =
    RuntimeInvalidId string
  | RuntimeDuplicate string
  | RuntimeTooMany nat
  | RuntimeUnknown string
  | RuntimeUnsupportedExecutor string run_executor
  | RuntimeUnavailable string

definition runtime_id_new :: "string \<Rightarrow> runtime_registry_error + runtime_id" where
  "runtime_id_new value =
     (if valid_id_text RUNTIME_ID_LEN_MAX value then Inr value else Inl (RuntimeInvalidId value))"

datatype runtime_auth_state = AuthNotRequired | AuthReady | AuthMissing

datatype runtime_health = Healthy | Degraded | Unavailable

datatype (plugins only: code size) runtime_control_capabilities = RuntimeControlCapabilities
  (rc_status: bool)
  (rc_cancel: bool)
  (rc_pause: bool)
  (rc_checkpoint: bool)
  (rc_structured_events: bool)

datatype (plugins only: code size) runtime_descriptor = RuntimeDescriptorFields
  (rd_id: runtime_id)
  (rd_kind: run_runtime_kind)
  (rd_contract_version: u16)
  (rd_supported_executors: "run_executor list")
  (rd_auth: runtime_auth_state)
  (rd_health: runtime_health)
  (rd_controls: runtime_control_capabilities)

definition runtime_native :: "runtime_registry_error + runtime_descriptor" where
  "runtime_native =
     rbind (runtime_id_new ''projectos.native'') (\<lambda>rid.
     Inr (RuntimeDescriptorFields rid Native 1 [Device] AuthNotRequired Healthy
            (RuntimeControlCapabilities True True True True True)))"

definition runtime_reference :: "runtime_descriptor \<Rightarrow> run_runtime_ref" where
  "runtime_reference d = RunRuntimeRefFields (rd_kind d) (rd_id d) (rd_contract_version d)"

type_synonym runtime_registry = "(runtime_id \<times> runtime_descriptor) list"

definition runtime_registry_new :: "runtime_descriptor list \<Rightarrow> runtime_registry_error + runtime_registry" where
  "runtime_registry_new descriptors =
     (if length descriptors > RUNTIME_REGISTRY_COUNT_MAX then Inl (RuntimeTooMany RUNTIME_REGISTRY_COUNT_MAX)
      else insert_all RuntimeDuplicate (map (\<lambda>d. (rd_id d, d)) descriptors) [])"

definition native_only :: "runtime_registry_error + runtime_registry" where
  "native_only = rbind runtime_native (\<lambda>d. runtime_registry_new [d])"

definition runtime_resolve ::
  "runtime_registry \<Rightarrow> runtime_id \<Rightarrow> run_executor \<Rightarrow> runtime_registry_error + runtime_descriptor" where
  "runtime_resolve reg rid executor =
     rbind (ok_or (RuntimeUnknown rid) (map_of reg rid)) (\<lambda>descriptor.
     if rd_health descriptor = Unavailable then Inl (RuntimeUnavailable rid)
     else if executor \<notin> set (rd_supported_executors descriptor)
       then Inl (RuntimeUnsupportedExecutor rid executor)
     else Inr descriptor)"

section \<open>Lemmas\<close>

lemma roster_complete: "roster_contains c" "c \<in> set charter_ALL"
  by (cases c; simp add: charter_ALL_def)+

lemma charter_as_str_inject [simp]: "charter_as_str c = charter_as_str d \<longleftrightarrow> c = d"
  by (cases c; cases d) simp_all

lemma runtime_resolve_Inr:
  "runtime_resolve reg rid executor = Inr d \<longleftrightarrow>
     map_of reg rid = Some d \<and> rd_health d \<noteq> Unavailable \<and> executor \<in> set (rd_supported_executors d)"
  by (auto simp: runtime_resolve_def rbind_Inr)

lemma native_resolves:
  "\<exists>reg d. native_only = Inr reg \<and> runtime_resolve reg ''projectos.native'' Device = Inr d \<and>
     runtime_resolve reg ''projectos.native'' Cloud =
       Inl (RuntimeUnsupportedExecutor ''projectos.native'' Cloud)"
  by (simp add: native_only_def runtime_native_def runtime_id_new_def valid_id_text_def RUNTIME_ID_LEN_MAX_def
      is_id_char_def is_ascii_alphanumeric_def runtime_registry_new_def RUNTIME_REGISTRY_COUNT_MAX_def
      runtime_resolve_def)

end
