(* ===== verification/Harness.thy ===== *)
theory Harness
  imports Run_State Runtimes Budget Node
begin

text \<open>
  The durable Run harness, \<open>crates/pos-agents/src/harness.rs\<close>. Every operation reads the Run's
  projection rows, decides, reads the log head, and appends one batch on the condition that the head
  has not moved; four attempts at most. \<open>h_before_head\<close> and \<open>h_before_append\<close> are what other holders of the same
  log do at the two points where they can get in: after the rows were read and before the head is, and
  between the head and the append. The tracing spans of the source are not part of the model: they never reach
  the log.
\<close>

section \<open>Bounds\<close>

definition CONDITIONAL_APPEND_RETRY_MAX :: nat where
  "CONDITIONAL_APPEND_RETRY_MAX = 4"

definition RUN_TEXT_LEN_MAX :: nat where
  "RUN_TEXT_LEN_MAX = 512"

definition MEDIA_TYPE_LEN_MAX :: nat where
  "MEDIA_TYPE_LEN_MAX = 128"

definition RUN_LINEAGE_DEPTH_MAX :: u8 where
  "RUN_LINEAGE_DEPTH_MAX = 8"

section \<open>Inputs and outcomes\<close>

datatype (plugins only: code size) run_start_spec = RunStartSpecFields
  (sp_run_id: id16)
  (sp_worker: roster_charter)
  (sp_runtime_id: runtime_id)
  (sp_executor: run_executor)
  (sp_trigger: run_trigger)
  (sp_autonomy_level: autonomy_level)
  (sp_budget: run_budget)
  (sp_tool_grants: run_tool_grants)
  (sp_parent_run_id: "id16 option")
  (sp_checkpoint: "run_checkpoint_ref option")
  (sp_validation: "run_validation_ref option")
  (sp_execution_lease: "run_execution_lease_ref option")
  (sp_tainted: bool)

datatype (plugins only: code size) step_plan = StepPlanFields
  (pl_step_index: u32)
  (pl_phase: run_step_phase)
  (pl_summary: string)
  (pl_digest: digest32)
  (pl_tool_call: tool_call_request)
  (pl_reserved: run_usage)

datatype (plugins only: code size) artifact_report = ArtifactReportFields
  (af_artifact_id: id16)
  (af_content_hash: digest32)
  (af_media_type: string)
  (af_size_bytes: u64)

datatype (plugins only: code size) validation_report = ValidationReportFields
  (vp_validation_id: id16)
  (vp_status: run_validation_status)
  (vp_summary: string)

datatype (plugins only: code size) tool_effect_report = ToolEffectReportFields
  (rp_output_digest: digest32)
  (rp_checkpoint_digest: digest32)
  (rp_spent: run_usage)
  (rp_artifact: "artifact_report option")
  (rp_validation: "validation_report option")

datatype (plugins only: code size) step_preparation =
    PrepEffect authorized_tool_call
  | PrepPaused budget_exceeded
  | PrepControlApplied run_status
  | PrepReconciliationRequired id16 u32 id16

datatype (plugins only: code size) harness_error =
    HarnessLog log_error
  | HarnessRead run_read_error
  | HarnessBudgetConfig budget_config_error
  | HarnessRuntime runtime_registry_error
  | HarnessToolRegistry tool_registry_error
  | HarnessAuthorization authorization_error
  | RunNotFound id16
  | InvalidRunState id16 string
  | InvalidStepPlan string
  | StepPlanChanged id16 u32
  | EffectReportChanged id16 u32
  | ConditionalAppendContention id16
  | InvalidControlReason
  | InvalidQuestion
  | InvalidArtifact
  | InvalidValidation

fun harness_error_code :: "harness_error \<Rightarrow> string" where
  "harness_error_code (HarnessLog _) = ''log_failure''"
| "harness_error_code (HarnessRead _) = ''state_corrupt''"
| "harness_error_code (HarnessBudgetConfig _) = ''invalid_input''"
| "harness_error_code (HarnessRuntime _) = ''invalid_input''"
| "harness_error_code (HarnessToolRegistry _) = ''invalid_input''"
| "harness_error_code (InvalidStepPlan _) = ''invalid_input''"
| "harness_error_code InvalidControlReason = ''invalid_input''"
| "harness_error_code InvalidQuestion = ''invalid_input''"
| "harness_error_code InvalidArtifact = ''invalid_input''"
| "harness_error_code InvalidValidation = ''invalid_input''"
| "harness_error_code (HarnessAuthorization _) = ''policy_denied''"
| "harness_error_code (RunNotFound _) = ''run_not_found''"
| "harness_error_code (ConditionalAppendContention _) = ''state_changed''"
| "harness_error_code (InvalidRunState _ _) = ''run_conflict''"
| "harness_error_code (StepPlanChanged _ _) = ''run_conflict''"
| "harness_error_code (EffectReportChanged _ _) = ''run_conflict''"

record 'b harness =
  h_device :: id16
  h_project_id :: id16
  h_tools :: tool_registry
  h_runtimes :: runtime_registry
  h_before_head :: "'b node \<Rightarrow> 'b node"
  h_before_append :: "'b node \<Rightarrow> 'b node"

type_synonym ('b, 'a) harness_op = "('b node, harness_error, 'a) op"

section \<open>Checks\<close>

definition validate_text :: "string \<Rightarrow> bool" where
  "validate_text value \<longleftrightarrow> visible_text RUN_TEXT_LEN_MAX value"

definition validate_step_plan :: "step_plan \<Rightarrow> harness_error + unit" where
  "validate_step_plan plan =
     (if \<not> validate_text (pl_summary plan) then Inl (InvalidStepPlan ''summary'')
      else if u_steps (pl_reserved plan) \<noteq> 1 \<or> u_tool_calls (pl_reserved plan) \<noteq> 1
        then Inl (InvalidStepPlan ''a tool step reserves exactly one step and one tool call'')
      else Inr ())"

definition validate_effect_report :: "tool_effect_report \<Rightarrow> harness_error + unit" where
  "validate_effect_report report =
     (if u_steps (rp_spent report) \<noteq> 1 \<or> u_tool_calls (rp_spent report) \<noteq> 1
        then Inl (InvalidStepPlan ''a tool effect records exactly one step and one tool call'')
      else if (case rp_artifact report of None \<Rightarrow> False
               | Some artifact \<Rightarrow> \<not> visible_text MEDIA_TYPE_LEN_MAX (af_media_type artifact))
        then Inl InvalidArtifact
      else if (case rp_validation report of None \<Rightarrow> False
               | Some validation \<Rightarrow> \<not> validate_text (vp_summary validation))
        then Inl InvalidValidation
      else Inr ())"

definition validate_run_counts :: "run_state \<Rightarrow> harness_error + unit" where
  "validate_run_counts state =
     (if st_committed_step_count state \<ge> st_checkpointed_step_count state \<and>
         st_committed_step_count state - st_checkpointed_step_count state \<le> 1
      then Inr ()
      else Inl (InvalidRunState (st_run_id state) ''expected a gap of zero or one''))"

definition is_running :: "run_status \<Rightarrow> bool" where
  "is_running s \<longleftrightarrow> s = StPreflight \<or> s = StRunning \<or> s = StValidating"

definition require_running :: "run_state \<Rightarrow> harness_error + unit" where
  "require_running state =
     (if is_running (st_status state) then Inr ()
      else Inl (InvalidRunState (st_run_id state) ''step preparation requires running''))"

definition validate_durable_plan :: "id16 \<Rightarrow> step_plan \<Rightarrow> run_step_state \<Rightarrow> harness_error + unit" where
  "validate_durable_plan run_id plan step =
     (case ss_tool_call step of
        None \<Rightarrow> Inl (StepPlanChanged run_id (ss_step_index step))
      | Some call \<Rightarrow>
          if pl_step_index plan = ss_step_index step \<and> pl_summary plan = ss_summary step \<and>
             phase_as_str (pl_phase plan) = ss_phase step \<and> ss_digest step = Some (pl_digest plan) \<and>
             pl_reserved plan = ss_reserved step \<and> tq_tool_id (pl_tool_call plan) = tc_tool_id call \<and>
             tq_call_id (pl_tool_call plan) = tc_call_id call \<and> tq_input (pl_tool_call plan) = tc_input call
          then Inr ()
          else Inl (StepPlanChanged run_id (ss_step_index step)))"

definition validate_effect_target :: "authorized_tool_call \<Rightarrow> run_step_state \<Rightarrow> harness_error + unit" where
  "validate_effect_target call step =
     (case ss_tool_call step of
        None \<Rightarrow> Inl (StepPlanChanged (at_run_id call) (at_step_index call))
      | Some durable \<Rightarrow>
          if tc_call_id durable = at_call_id call \<and> tc_idempotency_key durable = at_idempotency_key call \<and>
             tc_tool_id durable = at_tool_id call
          then Inr ()
          else Inl (StepPlanChanged (at_run_id call) (at_step_index call)))"

definition validate_existing_effect ::
  "authorized_tool_call \<Rightarrow> tool_effect_report \<Rightarrow> run_step_state \<Rightarrow> harness_error + unit" where
  "validate_existing_effect call report step =
     (if (case ss_effect step of None \<Rightarrow> False
          | Some effect \<Rightarrow> ef_output_digest effect = rp_output_digest report \<and> ef_spent effect = rp_spent report)
      then Inr ()
      else Inl (EffectReportChanged (at_run_id call) (at_step_index call)))"

section \<open>Events\<close>

definition checkpoint_id :: "id16 \<Rightarrow> id16" where
  "checkpoint_id call_id =
     (let bytes = into_bytes call_id in from_bytes (bytes[0 := xor (bytes ! 0) 0xc3]))"

definition saturating_usage_add :: "run_usage \<Rightarrow> run_usage \<Rightarrow> run_usage" where
  "saturating_usage_add a b =
     \<lparr>u_tokens = saturating_add (u_tokens a) (u_tokens b),
      u_usd_micros = saturating_add (u_usd_micros a) (u_usd_micros b),
      u_wall_ms = saturating_add (u_wall_ms a) (u_wall_ms b),
      u_storage_bytes = saturating_add (u_storage_bytes a) (u_storage_bytes b),
      u_tool_calls = saturating_add (u_tool_calls a) (u_tool_calls b),
      u_retries = saturating_add (u_retries a) (u_retries b),
      u_steps = saturating_add (u_steps a) (u_steps b)\<rparr>"

definition effect_events ::
  "authorized_tool_call \<Rightarrow> tool_effect_report \<Rightarrow> run_state \<Rightarrow> run_step_state \<Rightarrow> domain_event list" where
  "effect_events call report state step =
     [RunToolEffectRecorded (RunToolEffectRecordedV1 (at_run_id call) (at_step_index call) (at_call_id call)
        (at_idempotency_key call) (rp_output_digest report) (rp_spent report))] @
     (case rp_artifact report of
        None \<Rightarrow> []
      | Some artifact \<Rightarrow>
          [RunArtifactRecorded (RunArtifactRecordedV1 (at_run_id call) (at_step_index call)
             (af_artifact_id artifact) (af_content_hash artifact) (af_media_type artifact)
             (af_size_bytes artifact))]) @
     (case rp_validation report of
        None \<Rightarrow> []
      | Some validation \<Rightarrow>
          [RunValidationRecorded (RunValidationRecordedV1 (at_run_id call) (at_step_index call)
             (vp_validation_id validation) (vp_status validation) (vp_summary validation))]) @
     [RunCheckpointSaved (RunCheckpointSavedV1 (at_run_id call) (at_step_index call)
        (checkpoint_id (at_call_id call)) (rp_checkpoint_digest report))] @
     (case reservation_exceeded_dimension (rp_spent report) (ss_reserved step) of
        None \<Rightarrow> []
      | Some dimension \<Rightarrow>
          [RunPaused (RunPausedV1 (at_run_id call) (saturating_add (at_step_index call) 1)
             (PauseReservationExceeded dimension)
             (saturating_usage_add (st_spent state) (rp_spent report)))])"

definition control_events :: "run_state \<Rightarrow> pending_run_control \<Rightarrow> domain_event list" where
  "control_events state control =
     (case control of
        ControlPause \<Rightarrow>
          [RunPaused (RunPausedV1 (st_run_id state) (st_checkpointed_step_count state)
             (PauseRequested (case st_pending_control_reason state of
                                Some reason \<Rightarrow> reason | None \<Rightarrow> ''pause requested''))
             (st_spent state))]
      | ControlCancel \<Rightarrow>
          [RunCanceled (RunCanceledV1 (st_run_id state) (st_checkpointed_step_count state)),
           RunFinished (RunFinishedV2 (st_run_id state) Canceled (st_checkpointed_step_count state)
             (st_spent state) None)])"

definition step_events ::
  "run_state \<Rightarrow> step_plan \<Rightarrow> authorized_tool_call \<Rightarrow> gate_receipt option \<Rightarrow> domain_event list" where
  "step_events state plan call receipt =
     (case receipt of
        None \<Rightarrow> []
      | Some r \<Rightarrow>
          [RunGateApproved (RunGateApprovedV1 (st_run_id state) (gr_receipt_id r) (gr_call_id r)
             (gr_approved_by r) (gr_reason r) (gr_expires_ts_ms r))]) @
     [RunStepCommitted (RunStepCommittedV2 (RunStepCommittedV2Fields (st_run_id state) (pl_step_index plan)
        (pl_phase plan) (pl_summary plan) (pl_digest plan) (Some (domain_call call)) (pl_reserved plan)))]"

definition budget_pause_event :: "run_state \<Rightarrow> budget_exceeded \<Rightarrow> domain_event" where
  "budget_pause_event state exceeded =
     RunPaused (RunPausedV1 (st_run_id state) (st_checkpointed_step_count state)
       (PauseBudget (be_dimension exceeded) (be_limit exceeded) (be_spent exceeded) (be_pending exceeded)
          (be_requested exceeded)) (st_spent state))"

section \<open>Reads and conditional appends\<close>

definition harness_state :: "id16 \<Rightarrow> ('b, run_state option) harness_op" where
  "harness_state run_id = oread (\<lambda>nd. map_err HarnessRead (read_run (nd_log nd) run_id))"

definition state_required :: "id16 \<Rightarrow> ('b, run_state) harness_op" where
  "state_required run_id = obind (harness_state run_id) (\<lambda>s. oread (\<lambda>_. ok_or (RunNotFound run_id) s))"

definition step_required :: "id16 \<Rightarrow> u32 \<Rightarrow> ('b, run_step_state) harness_op" where
  "step_required run_id step_index =
     obind (oread (\<lambda>nd. map_err HarnessRead (read_run_step (nd_log nd) run_id step_index))) (\<lambda>s.
     oread (\<lambda>_. ok_or (InvalidRunState run_id ''committed step is absent from its projection'') s))"

definition harness_head :: "('b, event_seq) harness_op" where
  "harness_head =
     oread (\<lambda>nd. map_err (HarnessLog \<circ> StoreError)
                  (with_reader ''read log head'' (\<lambda>db. Inr (log_head db)) (nd_store nd)))"

definition append_at_current_head ::
  "'b harness \<Rightarrow> 'b domain_codec \<Rightarrow> actor \<Rightarrow> domain_event list \<Rightarrow> ('b, event_seq list) harness_op" where
  "append_at_current_head h dc actor facts =
     obind (oread (\<lambda>_. map_err HarnessLog (rcollect (\<lambda>e. into_request dc e (h_device h) actor) facts))) (\<lambda>requests.
     obind (omod (h_before_head h)) (\<lambda>_.
     obind harness_head (\<lambda>head.
     obind (omod (h_before_append h)) (\<lambda>_.
     oerr HarnessLog (log_append_inner (Some head) requests)))))"

text \<open>The match of the retry loops: a moved head is the value \<open>False\<close>, another failure is an error.\<close>

definition append_or_conflict ::
  "'b harness \<Rightarrow> 'b domain_codec \<Rightarrow> actor \<Rightarrow> domain_event list \<Rightarrow> ('b, bool) harness_op" where
  "append_or_conflict h dc actor facts nd =
     (case append_at_current_head h dc actor facts nd of
        (Inr _, nd') \<Rightarrow> (Inr True, nd')
      | (Inl (HarnessLog (HeadChanged _ _)), nd') \<Rightarrow> (Inr False, nd')
      | (Inl e, nd') \<Rightarrow> (Inl e, nd'))"

fun retry :: "nat \<Rightarrow> id16 \<Rightarrow> ('b, 'a option) harness_op \<Rightarrow> ('b, 'a) harness_op" where
  "retry 0 run_id body = ofail (ConditionalAppendContention run_id)"
| "retry (Suc n) run_id body =
     obind body (\<lambda>r. case r of Some a \<Rightarrow> oret a | None \<Rightarrow> retry n run_id body)"

definition retried :: "id16 \<Rightarrow> ('b, 'a option) harness_op \<Rightarrow> ('b, 'a) harness_op" where
  "retried = retry CONDITIONAL_APPEND_RETRY_MAX"

text \<open>What follows an attempt in the loops: on success the fresh state is the result.\<close>

definition then_state :: "id16 \<Rightarrow> bool \<Rightarrow> ('b, run_state option) harness_op" where
  "then_state run_id appended =
     (if appended then obind (state_required run_id) (\<lambda>s. oret (Some s)) else oret None)"

section \<open>Starting a Run\<close>

definition lineage_depth :: "run_start_spec \<Rightarrow> ('b, u8) harness_op" where
  "lineage_depth spec =
     (case sp_parent_run_id spec of
        None \<Rightarrow> oret 0
      | Some parent_run_id \<Rightarrow>
          if parent_run_id = sp_run_id spec
          then ofail (InvalidRunState (sp_run_id spec) ''a Run cannot be its own parent'')
          else obind (state_required parent_run_id) (\<lambda>parent.
               obind (oread (\<lambda>_. ok_or (InvalidRunState (sp_run_id spec) ''parent lineage depth overflowed'')
                                    (checked_add (st_lineage_depth parent) 1))) (\<lambda>depth.
               if depth > RUN_LINEAGE_DEPTH_MAX
               then ofail (InvalidRunState (sp_run_id spec) ''lineage depth exceeds the cap'')
               else oret depth)))"

definition started_event :: "'b harness \<Rightarrow> run_start_spec \<Rightarrow> runtime_descriptor \<Rightarrow> u8 \<Rightarrow> domain_event" where
  "started_event h spec runtime depth =
     RunStarted (RunStartedV2 (RunStartedV2Fields (sp_run_id spec) (h_project_id h)
       (charter_as_str (sp_worker spec)) (runtime_reference runtime) (sp_executor spec) (sp_trigger spec)
       (sp_autonomy_level spec) (sp_budget spec) (domain_grants (sp_tool_grants spec)) (sp_parent_run_id spec)
       depth (sp_checkpoint spec) (sp_validation spec) (sp_execution_lease spec) (sp_tainted spec)))"

definition start_run :: "'b harness \<Rightarrow> 'b domain_codec \<Rightarrow> run_start_spec \<Rightarrow> actor \<Rightarrow> ('b, run_state) harness_op" where
  "start_run h dc spec actor =
     obind (oread (\<lambda>_. map_err HarnessBudgetConfig (validate_budget (sp_budget spec)))) (\<lambda>_.
     if \<not> roster_contains (sp_worker spec)
     then ofail (InvalidRunState (sp_run_id spec) ''worker charter is not in the foundation roster'')
     else
     obind (oread (\<lambda>_. map_err HarnessRuntime (runtime_resolve (h_runtimes h) (sp_runtime_id spec) (sp_executor spec)))) (\<lambda>runtime.
     obind (lineage_depth spec) (\<lambda>depth.
     obind (append_at_current_head h dc actor [started_event h spec runtime depth]) (\<lambda>_.
     state_required (sp_run_id spec)))))"

section \<open>Controls\<close>

definition settle_control_once ::
  "'b harness \<Rightarrow> 'b domain_codec \<Rightarrow> run_state \<Rightarrow> pending_run_control \<Rightarrow> ('b, bool) harness_op" where
  "settle_control_once h dc state control =
     (if st_committed_step_count state \<noteq> st_checkpointed_step_count state then oret False
      else append_or_conflict h dc (Agent (st_run_id state)) (control_events state control))"

definition settle_after_checkpoint :: "'b harness \<Rightarrow> 'b domain_codec \<Rightarrow> id16 \<Rightarrow> ('b, unit) harness_op" where
  "settle_after_checkpoint h dc run_id =
     retried run_id
       (obind (state_required run_id) (\<lambda>state.
        case st_pending_control state of
          None \<Rightarrow> oret (Some ())
        | Some control \<Rightarrow>
            obind (settle_control_once h dc state control) (\<lambda>settled.
            oret (if settled then Some () else None))))"

definition request_control ::
  "'b harness \<Rightarrow> 'b domain_codec \<Rightarrow> id16 \<Rightarrow> string \<Rightarrow> actor \<Rightarrow> pending_run_control \<Rightarrow> ('b, run_state) harness_op" where
  "request_control h dc run_id reason actor control =
     (if \<not> validate_text reason then ofail InvalidControlReason
      else retried run_id
       (obind (state_required run_id) (\<lambda>state.
        if run_is_terminal (st_status state)
          then ofail (InvalidRunState run_id ''terminal Runs reject new controls'')
        else if st_status state = StPaused \<and> control = ControlPause then oret (Some state)
        else if st_pending_control state = Some control then oret (Some state)
        else if st_pending_control state \<noteq> None
          then ofail (InvalidRunState run_id ''a different control is already pending'')
        else
        obind (append_or_conflict h dc actor
                 [case control of
                    ControlPause \<Rightarrow> RunPauseRequested (RunPauseRequestedV1 run_id reason)
                  | ControlCancel \<Rightarrow> RunCancelRequested (RunCancelRequestedV1 run_id reason)]) (\<lambda>appended.
        if \<not> appended then oret None
        else obind (state_required run_id) (\<lambda>requested.
             obind (if st_committed_step_count requested = st_checkpointed_step_count requested
                    then settle_after_checkpoint h dc run_id else oret ()) (\<lambda>_.
             obind (state_required run_id) (\<lambda>s. oret (Some s))))))))"

definition request_pause ::
  "'b harness \<Rightarrow> 'b domain_codec \<Rightarrow> id16 \<Rightarrow> string \<Rightarrow> actor \<Rightarrow> ('b, run_state) harness_op" where
  "request_pause h dc run_id reason actor = request_control h dc run_id reason actor ControlPause"

definition request_cancel ::
  "'b harness \<Rightarrow> 'b domain_codec \<Rightarrow> id16 \<Rightarrow> string \<Rightarrow> actor \<Rightarrow> ('b, run_state) harness_op" where
  "request_cancel h dc run_id reason actor = request_control h dc run_id reason actor ControlCancel"

definition resume_run :: "'b harness \<Rightarrow> 'b domain_codec \<Rightarrow> id16 \<Rightarrow> actor \<Rightarrow> ('b, run_state) harness_op" where
  "resume_run h dc run_id actor =
     retried run_id
       (obind (state_required run_id) (\<lambda>state.
        if st_status state \<noteq> StPaused \<or> st_pending_control state \<noteq> None
        then ofail (InvalidRunState run_id ''resume requires a fully paused Run with no pending control'')
        else obind (append_or_conflict h dc actor
                      [RunResumed (RunResumedV1 run_id (st_checkpointed_step_count state))])
               (then_state run_id)))"

definition finish_run :: "'b harness \<Rightarrow> 'b domain_codec \<Rightarrow> id16 \<Rightarrow> run_outcome \<Rightarrow> actor \<Rightarrow> ('b, run_state) harness_op" where
  "finish_run h dc run_id outcome actor =
     retried run_id
       (obind (state_required run_id) (\<lambda>state.
        obind (oread (\<lambda>_. validate_run_counts state)) (\<lambda>_.
        if run_is_terminal (st_status state) then oret (Some state)
        else if st_committed_step_count state \<noteq> st_checkpointed_step_count state
          then ofail (InvalidRunState run_id ''finish requires every committed step to be checkpointed'')
        else case st_pending_control state of
          Some control \<Rightarrow>
            obind (settle_control_once h dc state control) (then_state run_id)
        | None \<Rightarrow>
            if st_status state = StPaused
            then ofail (InvalidRunState run_id ''a paused Run must resume or cancel before it can finish'')
            else obind (append_or_conflict h dc actor
                          [RunFinished (RunFinishedV2 run_id outcome (st_checkpointed_step_count state)
                             (st_spent state) (st_validation state))])
                   (then_state run_id))))"

definition raise_taint :: "'b harness \<Rightarrow> 'b domain_codec \<Rightarrow> id16 \<Rightarrow> string \<Rightarrow> ('b, run_state) harness_op" where
  "raise_taint h dc run_id source =
     (if \<not> validate_text source then ofail InvalidQuestion
      else retried run_id
       (obind (state_required run_id) (\<lambda>state.
        if st_tainted state then oret (Some state)
        else obind (append_or_conflict h dc (Agent run_id) [RunTaintRaised (RunTaintRaisedV1 run_id source)])
               (then_state run_id))))"

definition ask_question ::
  "'b harness \<Rightarrow> 'b domain_codec \<Rightarrow> id16 \<Rightarrow> id16 \<Rightarrow> string \<Rightarrow> ('b, run_state) harness_op" where
  "ask_question h dc run_id question_id prompt =
     (if \<not> validate_text prompt then ofail InvalidQuestion
      else obind (state_required run_id) (\<lambda>state.
           obind (oread (\<lambda>_. require_running state)) (\<lambda>_.
           if st_committed_step_count state \<noteq> st_checkpointed_step_count state
           then ofail (InvalidRunState run_id ''questions land only at a completed step boundary'')
           else obind (append_at_current_head h dc (Agent run_id)
                         [RunQuestionAsked (RunQuestionAskedV1 run_id question_id prompt)]) (\<lambda>_.
                state_required run_id))))"

definition answer_question ::
  "'b harness \<Rightarrow> 'b domain_codec \<Rightarrow> id16 \<Rightarrow> id16 \<Rightarrow> id16 \<Rightarrow> string \<Rightarrow> ('b, run_state) harness_op" where
  "answer_question h dc run_id question_id answered_by answer =
     (if \<not> validate_text answer then ofail InvalidQuestion
      else obind (state_required run_id) (\<lambda>state.
           if st_status state \<noteq> StWaitingInput
           then ofail (InvalidRunState run_id ''answer requires a Run waiting for input'')
           else obind (append_at_current_head h dc (User answered_by)
                         [RunQuestionAnswered (RunQuestionAnsweredV1 run_id question_id answered_by answer)]) (\<lambda>_.
                state_required run_id)))"

section \<open>Steps\<close>

definition resume_committed_step :: "'b harness \<Rightarrow> run_state \<Rightarrow> step_plan \<Rightarrow> ('b, step_preparation) harness_op" where
  "resume_committed_step h state plan =
     (let run_id = st_run_id state; step_index = st_checkpointed_step_count state
      in obind (step_required run_id step_index) (\<lambda>step.
         obind (oread (\<lambda>_. validate_durable_plan run_id plan step)) (\<lambda>_.
         if ss_effect step \<noteq> None \<or> ss_checkpoint step \<noteq> None
         then ofail (InvalidRunState run_id ''outstanding-step counters disagree with receipt/checkpoint columns'')
         else case ss_tool_call step of
           None \<Rightarrow> ofail (InvalidRunState run_id ''m0-s12 committed step has no tool call'')
         | Some call \<Rightarrow>
             obind (oread (\<lambda>_. map_err HarnessAuthorization (rehydrate (h_tools h) run_id step_index call))) (\<lambda>authorized.
             oret (if at_effect_class authorized = NonIdempotent
                   then PrepReconciliationRequired run_id step_index (at_call_id authorized)
                   else PrepEffect authorized)))))"

definition authorize_step ::
  "'b harness \<Rightarrow> run_state \<Rightarrow> step_plan \<Rightarrow> gate_receipt option \<Rightarrow> ('b, authorized_tool_call) harness_op" where
  "authorize_step h state plan receipt =
     obind (oread (\<lambda>_. map_err HarnessToolRegistry (grants_from_domain (st_tool_grants state)))) (\<lambda>grants.
     obind (oread (\<lambda>_. map_err (\<lambda>_. InvalidRunState (st_run_id state) ''autonomy level is outside 0..=4'')
                         (autonomy_new (st_autonomy_level state)))) (\<lambda>level.
     obind now_ms (\<lambda>now.
     oread (\<lambda>_. map_err HarnessAuthorization
       (authorize (h_tools h) (pl_tool_call plan)
         (AuthorizationContextFields (st_run_id state) (pl_step_index plan) (st_tainted state) level grants
            receipt now))))))"

text \<open>The body of the preparation loop in its three parts: a pending control at a boundary, the next or the outstanding step.\<close>

definition commit_step ::
  "'b harness \<Rightarrow> 'b domain_codec \<Rightarrow> run_state \<Rightarrow> step_plan \<Rightarrow> gate_receipt option
     \<Rightarrow> ('b, step_preparation option) harness_op" where
  "commit_step h dc state plan receipt =
     (case admit (st_budget state) (st_spent state) usage_default (pl_reserved plan) of
       Inl exceeded \<Rightarrow>
         obind (append_or_conflict h dc (Agent (st_run_id state)) [budget_pause_event state exceeded]) (\<lambda>appended.
         oret (if appended then Some (PrepPaused exceeded) else None))
     | Inr _ \<Rightarrow>
         obind (authorize_step h state plan receipt) (\<lambda>authorized.
         obind (append_or_conflict h dc (Agent (st_run_id state)) (step_events state plan authorized receipt)) (\<lambda>appended.
         oret (if appended then Some (PrepEffect authorized) else None))))"

definition plan_step ::
  "'b harness \<Rightarrow> 'b domain_codec \<Rightarrow> run_state \<Rightarrow> step_plan \<Rightarrow> gate_receipt option
     \<Rightarrow> ('b, step_preparation option) harness_op" where
  "plan_step h dc state plan receipt =
     obind (oread (\<lambda>_. require_running state)) (\<lambda>_.
     if st_committed_step_count state > st_checkpointed_step_count state
     then obind (resume_committed_step h state plan) (\<lambda>p. oret (Some p))
     else if pl_step_index plan \<noteq> st_committed_step_count state
     then ofail (InvalidStepPlan ''step index is not the next durable index'')
     else commit_step h dc state plan receipt)"

definition apply_control ::
  "'b harness \<Rightarrow> 'b domain_codec \<Rightarrow> id16 \<Rightarrow> run_state \<Rightarrow> pending_run_control
     \<Rightarrow> ('b, step_preparation option) harness_op" where
  "apply_control h dc run_id state control =
     obind (settle_control_once h dc state control) (\<lambda>settled.
     if settled
     then obind (state_required run_id) (\<lambda>s. oret (Some (PrepControlApplied (st_status s))))
     else oret None)"

definition prepare_once ::
  "'b harness \<Rightarrow> 'b domain_codec \<Rightarrow> id16 \<Rightarrow> step_plan \<Rightarrow> gate_receipt option
     \<Rightarrow> ('b, step_preparation option) harness_op" where
  "prepare_once h dc run_id plan receipt =
     obind (state_required run_id) (\<lambda>state.
     obind (oread (\<lambda>_. validate_run_counts state)) (\<lambda>_.
     if st_pending_control state \<noteq> None \<and> st_committed_step_count state = st_checkpointed_step_count state
     then apply_control h dc run_id state (the (st_pending_control state))
     else plan_step h dc state plan receipt))"

definition prepare_step ::
  "'b harness \<Rightarrow> 'b domain_codec \<Rightarrow> id16 \<Rightarrow> step_plan \<Rightarrow> gate_receipt option \<Rightarrow> ('b, step_preparation) harness_op" where
  "prepare_step h dc run_id plan receipt =
     obind (oread (\<lambda>_. validate_step_plan plan)) (\<lambda>_.
     retried run_id (prepare_once h dc run_id plan receipt))"

definition record_once ::
  "'b harness \<Rightarrow> 'b domain_codec \<Rightarrow> authorized_tool_call \<Rightarrow> tool_effect_report
     \<Rightarrow> ('b, run_checkpoint_state option) harness_op" where
  "record_once h dc call report =
     obind (state_required (at_run_id call)) (\<lambda>state.
     obind (step_required (at_run_id call) (at_step_index call)) (\<lambda>step.
     obind (oread (\<lambda>_. validate_effect_target call step)) (\<lambda>_.
     case ss_checkpoint step of
       Some checkpoint \<Rightarrow>
         obind (oread (\<lambda>_. validate_existing_effect call report step)) (\<lambda>_. oret (Some checkpoint))
     | None \<Rightarrow>
         if ss_effect step \<noteq> None
         then ofail (InvalidRunState (at_run_id call) ''effect receipt exists without its atomic checkpoint'')
         else
         obind (append_or_conflict h dc (Agent (at_run_id call)) (effect_events call report state step)) (\<lambda>appended.
         if \<not> appended then oret None
         else obind (step_required (at_run_id call) (at_step_index call)) (\<lambda>after.
              obind (oread (\<lambda>_. ok_or (InvalidRunState (at_run_id call)
                                  ''effect batch committed without a checkpoint projection'') (ss_checkpoint after))) (\<lambda>checkpoint.
              obind (settle_after_checkpoint h dc (at_run_id call)) (\<lambda>_. oret (Some checkpoint))))))))"

definition record_effect ::
  "'b harness \<Rightarrow> 'b domain_codec \<Rightarrow> authorized_tool_call \<Rightarrow> tool_effect_report
     \<Rightarrow> ('b, run_checkpoint_state) harness_op" where
  "record_effect h dc call report =
     obind (oread (\<lambda>_. validate_effect_report report)) (\<lambda>_.
     retried (at_run_id call) (record_once h dc call report))"

end
