(* ===== verification/Run_Rows.thy ===== *)
theory Run_Rows
  imports Batch_Effects Harness
begin

text \<open>
  The rows behind a Run: what a successful read says about them, the invariant the harness keeps on
  them, and the abstract Run machine their counters and status stand for.
\<close>

section \<open>The run projections\<close>

definition runs_projection :: "'b domain_codec \<Rightarrow> 'b projection" where
  "runs_projection dc = \<lparr>pr_table = RUNS_TABLE, pr_apply = apply_runs dc\<rparr>"

definition run_steps_projection :: "'b domain_codec \<Rightarrow> 'b projection" where
  "run_steps_projection dc = \<lparr>pr_table = RUN_STEPS_TABLE, pr_apply = apply_run_steps dc\<rparr>"

definition run_grants_projection :: "'b domain_codec \<Rightarrow> 'b projection" where
  "run_grants_projection dc = \<lparr>pr_table = RUN_TOOL_GRANTS_TABLE, pr_apply = apply_run_tool_grants dc\<rparr>"

definition run_registry :: "'b domain_codec \<Rightarrow> 'b project_log \<Rightarrow> bool" where
  "run_registry dc l \<longleftrightarrow>
     {runs_projection dc, run_steps_projection dc, run_grants_projection dc} \<subseteq> set (pl_registry l)"

abbreviation run_key :: "id16 \<Rightarrow> sql_cell list" where
  "run_key i \<equiv> [CBlob (into_bytes i)]"

abbreviation step_key :: "id16 \<Rightarrow> int \<Rightarrow> sql_cell list" where
  "step_key i n \<equiv> [CBlob (into_bytes i), CInteger n]"

definition run_rows :: "'b project_log \<Rightarrow> row_map" where
  "run_rows l = rows_of l ''proj_runs''"

definition step_rows :: "'b project_log \<Rightarrow> row_map" where
  "step_rows l = rows_of l ''proj_run_steps''"

lemma run_table_names [simp]:
  "tbl_name RUNS_TABLE = ''proj_runs''" "tbl_name RUN_STEPS_TABLE = ''proj_run_steps''"
  "tbl_name RUN_TOOL_GRANTS_TABLE = ''proj_run_tool_grants''"
  by (simp_all add: RUNS_TABLE_def RUN_STEPS_TABLE_def RUN_TOOL_GRANTS_TABLE_def)

lemma run_writes_nil:
  "domain_kind_tag e \<notin> set runs_kinds \<Longrightarrow> runs_writes ev e = []"
  "domain_kind_tag e \<notin> {''RunStepCommitted'', ''RunToolEffectRecorded'', ''RunCheckpointSaved'',
     ''RunArtifactRecorded'', ''RunValidationRecorded''} \<Longrightarrow> run_steps_writes ev e = []"
  by (cases e; simp add: runs_kinds_def runs_writes_def run_steps_writes_def)+

lemma run_table_of:
  assumes "log_sound l" "run_registry dc l"
  obtains t u g where "main_tables (db_content (pl_store l)) ''proj_runs'' = Some t" "table_wf RUNS_TABLE t"
    "main_tables (db_content (pl_store l)) ''proj_run_steps'' = Some u" "table_wf RUN_STEPS_TABLE u"
    "main_tables (db_content (pl_store l)) ''proj_run_tool_grants'' = Some g" "table_wf RUN_TOOL_GRANTS_TABLE g"
    "run_rows l = map_of t" "step_rows l = map_of u"
proof -
  have "\<exists>t. log_tables l (tbl_name (pr_table p)) = Some t \<and> table_wf (pr_table p) t" if "p \<in> set (pl_registry l)" for p
    using sound_tables_wf [OF assms(1)] that by (auto simp: tables_wf_def)
  from this [of "runs_projection dc"] this [of "run_steps_projection dc"] this [of "run_grants_projection dc"]
  show thesis
    using that assms(2)
    by (auto simp: run_registry_def runs_projection_def run_steps_projection_def run_grants_projection_def
        run_rows_def step_rows_def rows_of_def log_tables_def)
qed

section \<open>Reads\<close>

lemma run_columns [simp]:
  "select_columns RUNS_TABLE RUN_COLUMNS ([c], r) = map r RUN_COLUMNS"
  "column_cell RUNS_TABLE ([c], r) ''run_id'' = c"
  by (simp_all add: select_columns_def RUN_COLUMNS_def column_cell_def RUNS_TABLE_def)

lemma step_columns [simp]:
  "select_columns RUN_STEPS_TABLE STEP_COLUMNS ([c, d], r) = map r STEP_COLUMNS"
  "column_cell RUN_STEPS_TABLE ([c, d], r) ''run_id'' = c"
  "column_cell RUN_STEPS_TABLE ([c, d], r) ''step_index'' = d"
  by (simp_all add: select_columns_def STEP_COLUMNS_def column_cell_def RUN_STEPS_TABLE_def)

lemma run_query:
  assumes "table_wf RUNS_TABLE t"
  shows "filter (\<lambda>kr. column_cell RUNS_TABLE kr ''run_id'' = CBlob (into_bytes i)) t =
    (case map_of t (run_key i) of None \<Rightarrow> [] | Some r \<Rightarrow> [(run_key i, r)])"
proof (rule filter_key)
  show "tbl_sorted t"
    using assms by (simp add: table_wf_def)
  fix k r
  assume "(k, r) \<in> set t"
  then have "length k = 1"
    using assms by (auto simp: table_wf_def RUNS_TABLE_def)
  then show "(column_cell RUNS_TABLE (k, r) ''run_id'' = CBlob (into_bytes i)) = (k = run_key i)"
    by (cases k) auto
qed

lemma step_query:
  assumes "table_wf RUN_STEPS_TABLE t"
  shows "filter (\<lambda>kr. column_cell RUN_STEPS_TABLE kr ''run_id'' = CBlob (into_bytes i) \<and>
                      column_cell RUN_STEPS_TABLE kr ''step_index'' = CInteger n) t =
    (case map_of t (step_key i n) of None \<Rightarrow> [] | Some r \<Rightarrow> [(step_key i n, r)])"
proof (rule filter_key)
  show "tbl_sorted t"
    using assms by (simp add: table_wf_def)
  fix k r
  assume "(k, r) \<in> set t"
  then have "length k = 2"
    using assms by (auto simp: table_wf_def RUN_STEPS_TABLE_def)
  then obtain a b where "k = [a, b]"
    by (metis Suc_1 length_0_conv length_Suc_conv numeral_1_eq_Suc_0 One_nat_def)
  then show "(column_cell RUN_STEPS_TABLE (k, r) ''run_id'' = CBlob (into_bytes i) \<and>
      column_cell RUN_STEPS_TABLE (k, r) ''step_index'' = CInteger n) = (k = step_key i n)"
    by auto
qed

lemma read_run_Some:
  assumes "read_run l i = Inr (Some s)" "log_sound l" "run_registry dc l"
  shows "\<exists>r raw gs. run_rows l (run_key i) = Some r \<and> run_row (map r RUN_COLUMNS) = Inr raw \<and>
    parse_run i raw gs = Inr s"
proof -
  obtain t where t: "main_tables (db_content (pl_store l)) ''proj_runs'' = Some t" "table_wf RUNS_TABLE t"
      "run_rows l = map_of t"
    by (rule run_table_of [OF assms(2,3)])
  then show ?thesis
    using assms(1) by (auto simp: read_run_def rbind_Inr table_rows_def run_query split: option.splits)
qed

lemma read_step_Some:
  assumes "read_run_step l i n = Inr (Some s)" "log_sound l" "run_registry dc l"
  shows "\<exists>r raw. step_rows l (step_key i (uint n)) = Some r \<and> step_row (map r STEP_COLUMNS) = Inr raw \<and>
    parse_step i n raw = Inr s"
proof -
  obtain u where u: "main_tables (db_content (pl_store l)) ''proj_run_steps'' = Some u"
      "table_wf RUN_STEPS_TABLE u" "step_rows l = map_of u"
    by (rule run_table_of [OF assms(2,3)])
  then show ?thesis
    using assms(1)
    by (auto simp: read_run_step_def rbind_Inr table_rows_def step_query split: option.splits)
qed

text \<open>The columns of a run row a decoded state speaks about.\<close>

definition run_sees :: "row \<Rightarrow> run_state \<Rightarrow> bool" where
  "run_sees r s \<longleftrightarrow>
     r ''committed_step_count'' = CInteger (uint (st_committed_step_count s)) \<and>
     r ''checkpointed_step_count'' = CInteger (uint (st_checkpointed_step_count s)) \<and>
     (\<exists>t. r ''status'' = CText t \<and> run_status_parse t = Some (st_status s)) \<and>
     (r ''pending_control'' = CNull \<longleftrightarrow> st_pending_control s = None) \<and>
     (r ''pause_kind'' = CNull \<longleftrightarrow> st_pause s = None) \<and> (st_status s = StPaused \<longleftrightarrow> st_pause s \<noteq> None)"

lemma get_cells_eq:
  "get_i64 c = Inr i \<longleftrightarrow> c = CInteger i" "get_text c = Inr s \<longleftrightarrow> c = CText s" "get_blob c = Inr b \<longleftrightarrow> c = CBlob b"
  by (cases c; auto)+

lemma get_opt_null: "get_opt f c = Inr v \<Longrightarrow> c = CNull \<longleftrightarrow> v = None"
  by (cases c) (auto simp: rbind_Inr)

lemma try_u32_Some: "try_u32 i = Some v \<longleftrightarrow> i = uint v"
proof
  assume "try_u32 i = Some v"
  then show "i = uint v"
    by (auto simp: try_u32_def try_unsigned_def uint_word_of_int_eq take_bit_int_eq_self split: if_splits)
next
  assume "i = uint v"
  then show "try_u32 i = Some v"
    using uint_lt2p_num [of v] by (simp add: try_u32_def try_unsigned_def)
qed

lemma control_parse_None: "control_parse c = None \<and> \<not> (c \<noteq> None \<and> control_parse c = None) \<longleftrightarrow> c = None"
  by (auto simp: control_parse_def)

lemma parse_pause_kind: "parse_pause raw = Inr p \<Longrightarrow> rr_pause_kind raw = None \<longleftrightarrow> p = None"
  by (cases "rr_pause_kind raw") (auto simp: parse_pause_def rbind_Inr split: if_split_asm)

lemma rbind_InrE: "rbind m f = Inr b \<Longrightarrow> (\<And>a. m = Inr a \<Longrightarrow> f a = Inr b \<Longrightarrow> P) \<Longrightarrow> P"
  by (auto simp: rbind_Inr)

lemma run_column_cells:
  "map r RUN_COLUMNS ! 1 = r ''status''" "map r RUN_COLUMNS ! 8 = r ''committed_step_count''"
  "map r RUN_COLUMNS ! 9 = r ''checkpointed_step_count''" "map r RUN_COLUMNS ! 29 = r ''pending_control''"
  "map r RUN_COLUMNS ! 31 = r ''pause_kind''"
  by (simp_all add: RUN_COLUMNS_def)

lemma step_column_cells:
  "map q STEP_COLUMNS ! 16 = q ''effect_recorded_seq''" "map q STEP_COLUMNS ! 27 = q ''checkpoint_seq''"
  by (simp_all add: STEP_COLUMNS_def)

lemma run_row_cells:
  assumes "run_row (map r RUN_COLUMNS) = Inr raw"
  shows "r ''committed_step_count'' = CInteger (rr_committed_step_count raw)"
    "r ''checkpointed_step_count'' = CInteger (rr_checkpointed_step_count raw)"
    "r ''status'' = CText (rr_status raw)"
    "r ''pending_control'' = CNull \<longleftrightarrow> rr_pending_control raw = None"
    "r ''pause_kind'' = CNull \<longleftrightarrow> rr_pause_kind raw = None"
  using assms unfolding run_row_def
  by (elim rbind_InrE, simp only: run_column_cells get_cells_eq, use get_opt_null in force)+

lemma parse_run_sees:
  assumes "run_row (map r RUN_COLUMNS) = Inr raw" "parse_run i raw gs = Inr s"
  shows "run_sees r s \<and> st_run_id s = i"
proof -
  note c = run_row_cells [OF assms(1)]
  obtain p where p: "parse_pause raw = Inr p" "st_pause s = p" "(st_status s = StPaused) = (p \<noteq> None)"
      "run_status_parse (rr_status raw) = Some (st_status s)" "st_run_id s = i"
      "st_pending_control s = control_parse (rr_pending_control raw)"
      "\<not> (rr_pending_control raw \<noteq> None \<and> control_parse (rr_pending_control raw) = None)"
      "try_u32 (rr_committed_step_count raw) = Some (st_committed_step_count s)"
      "try_u32 (rr_checkpointed_step_count raw) = Some (st_checkpointed_step_count s)"
    using assms(2) by (auto simp: parse_run_def rbind_Inr Let_def run_to_u32_def split: if_splits)
  have "rr_pending_control raw = None \<longleftrightarrow> st_pending_control s = None"
    using p(6,7) control_parse_None [of "rr_pending_control raw"] by auto
  with c p parse_pause_kind [OF p(1)] show ?thesis
    by (auto simp: run_sees_def try_u32_Some)
qed

lemma read_run_sees:
  assumes "read_run l i = Inr (Some s)" "log_sound l" "run_registry dc l"
  shows "\<exists>r. run_rows l (run_key i) = Some r \<and> run_sees r s \<and> st_run_id s = i"
  using read_run_Some [OF assms] parse_run_sees by blast

text \<open>The columns of a step row a decoded step speaks about.\<close>

definition step_sees :: "row \<Rightarrow> run_step_state \<Rightarrow> bool" where
  "step_sees q s \<longleftrightarrow>
     (q ''effect_recorded_seq'' = CNull \<longleftrightarrow> ss_effect s = None) \<and>
     (q ''checkpoint_seq'' = CNull \<longleftrightarrow> ss_checkpoint s = None)"

lemma step_row_cells:
  assumes "step_row (map q STEP_COLUMNS) = Inr raw"
  shows "q ''effect_recorded_seq'' = CNull \<longleftrightarrow> sr_effect_recorded_seq raw = None"
    "q ''checkpoint_seq'' = CNull \<longleftrightarrow> sr_checkpoint_seq raw = None"
  using assms unfolding step_row_def
  by (elim rbind_InrE, simp only: step_column_cells get_cells_eq, use get_opt_null in force)+

lemma read_step_sees:
  assumes "read_run_step l i n = Inr (Some s)" "log_sound l" "run_registry dc l"
  shows "\<exists>q. step_rows l (step_key i (uint n)) = Some q \<and> step_sees q s"
proof -
  obtain q raw where q: "step_rows l (step_key i (uint n)) = Some q" "step_row (map q STEP_COLUMNS) = Inr raw"
      "parse_step i n raw = Inr s"
    using read_step_Some [OF assms] by blast
  have "sr_effect_recorded_seq raw = None \<longleftrightarrow> ss_effect s = None"
    "sr_checkpoint_seq raw = None \<longleftrightarrow> ss_checkpoint s = None"
    using q(3) by (auto simp: parse_step_def parse_step_effect_def parse_step_checkpoint_def rbind_Inr
        split: option.splits)
  with q step_row_cells [OF q(2)] show ?thesis
    by (auto simp: step_sees_def)
qed

end
