(* ===== verification/Run_Machine.thy ===== *)
theory Run_Machine
  imports Run_Rows
begin

text \<open>
  The abstract Run machine and the invariant that ties the rows to it. A Run alternates between
  working and one outstanding step; it may wait for an answer, be parked, and end. The invariant
  says of every Run that its steps are exactly the committed ones, that the checkpointed ones carry
  receipt and checkpoint and the outstanding one carries neither, and that status and pause columns
  agree.
\<close>

section \<open>The machine\<close>

datatype run_phase = Working | Outstanding | Waiting | Parked | Ended

inductive run_machine :: "(nat \<times> run_phase) option \<Rightarrow> (nat \<times> run_phase) option \<Rightarrow> bool" where
  Start: "run_machine None (Some (0, Working))"
| Commit: "run_machine (Some (k, Working)) (Some (k, Outstanding))"
| Receipt: "run_machine (Some (k, Outstanding)) (Some (Suc k, Working))"
| Overrun: "run_machine (Some (k, Outstanding)) (Some (Suc k, Parked))"
| Ask: "run_machine (Some (k, Working)) (Some (k, Waiting))"
| Answer: "run_machine (Some (k, Waiting)) (Some (k, Working))"
| Park: "p \<in> {Working, Waiting, Parked} \<Longrightarrow> run_machine (Some (k, p)) (Some (k, Parked))"
| Resume: "run_machine (Some (k, Parked)) (Some (k, Working))"
| Finish: "p \<in> {Working, Waiting, Parked} \<Longrightarrow> run_machine (Some (k, p)) (Some (k, Ended))"

inductive_cases run_machine_from_ended: "run_machine (Some (k, Ended)) x"
inductive_cases run_machine_from_some: "run_machine (Some (k, p)) x"

lemma run_machine_ended: "run_machine\<^sup>*\<^sup>* x y \<Longrightarrow> x = Some (k, Ended) \<Longrightarrow> y = x"
  by (induction rule: converse_rtranclp_induct) (auto elim: run_machine_from_ended)

lemma run_machine_grows:
  "run_machine\<^sup>*\<^sup>* x y \<Longrightarrow> x = Some (k, p) \<Longrightarrow> \<exists>k' p'. y = Some (k', p') \<and> k \<le> k'"
proof (induction rule: rtranclp_induct)
  case (step y z)
  then show ?case by (auto elim: run_machine_from_some)
qed simp

section \<open>Rows and the machine\<close>

fun status_phase :: "run_status \<Rightarrow> run_phase" where
  "status_phase StPreflight = Working"
| "status_phase StRunning = Working"
| "status_phase StValidating = Working"
| "status_phase StRequested = Waiting"
| "status_phase StWaitingApproval = Waiting"
| "status_phase StWaitingInput = Waiting"
| "status_phase StPaused = Parked"
| "status_phase StDone = Ended"
| "status_phase StFailed = Ended"
| "status_phase StCanceled = Ended"

fun count_of :: "sql_cell \<Rightarrow> nat" where
  "count_of (CInteger i) = nat i"
| "count_of _ = 0"

definition row_status :: "row \<Rightarrow> run_status option" where
  "row_status r = (case r ''status'' of CText t \<Rightarrow> run_status_parse t | _ \<Rightarrow> None)"

definition abs_row :: "row \<Rightarrow> nat \<times> run_phase" where
  "abs_row r =
     (let k = count_of (r ''checkpointed_step_count'')
      in (k, if count_of (r ''committed_step_count'') = k then status_phase (the (row_status r)) else Outstanding))"

definition run_abs :: "row_map \<Rightarrow> id16 \<Rightarrow> (nat \<times> run_phase) option" where
  "run_abs R i = map_option abs_row (R (run_key i))"

definition proto :: "row \<Rightarrow> (int \<Rightarrow> row option) \<Rightarrow> bool" where
  "proto r q \<longleftrightarrow>
     (\<exists>c k st. r ''committed_step_count'' = CInteger (int c) \<and> r ''checkpointed_step_count'' = CInteger (int k) \<and>
        k \<le> c \<and> c \<le> Suc k \<and> row_status r = Some st \<and> (st = StPaused \<longleftrightarrow> r ''pause_kind'' \<noteq> CNull) \<and>
        (c = Suc k \<longrightarrow> is_running st) \<and> (run_is_terminal st \<longrightarrow> r ''pending_control'' = CNull) \<and>
        (\<forall>n. q n \<noteq> None \<longleftrightarrow> 0 \<le> n \<and> n < int c) \<and>
        (\<forall>n s. q n = Some s \<longrightarrow>
           (s ''effect_recorded_seq'' = CNull \<longleftrightarrow> int k \<le> n) \<and> (s ''checkpoint_seq'' = CNull \<longleftrightarrow> int k \<le> n)))"

definition run_inv :: "row_map \<Rightarrow> row_map \<Rightarrow> bool" where
  "run_inv R S \<longleftrightarrow>
     (\<forall>i. case R (run_key i) of
            None \<Rightarrow> \<forall>n. S (step_key i n) = None
          | Some r \<Rightarrow> proto r (\<lambda>n. S (step_key i n)))"

lemma run_invD:
  "run_inv R S \<Longrightarrow> R (run_key i) = Some r \<Longrightarrow> proto r (\<lambda>n. S (step_key i n))"
  "run_inv R S \<Longrightarrow> R (run_key i) = None \<Longrightarrow> S (step_key i n) = None"
  by (auto simp: run_inv_def dest: spec [of _ i])

text \<open>A batch for one Run that keeps the invariant and moves the machine by at most one step.\<close>

definition facts_good :: "row_map \<Rightarrow> row_map \<Rightarrow> domain_event list \<Rightarrow> 'b itself \<Rightarrow> bool" where
  "facts_good R S facts ty \<longleftrightarrow>
     (\<forall>(evs :: 'b event list) R' S'. length evs = length facts \<longrightarrow>
        facts_map RUNS_TABLE runs_writes (zip evs facts) R = Some R' \<longrightarrow>
        facts_map RUN_STEPS_TABLE run_steps_writes (zip evs facts) S = Some S' \<longrightarrow>
        run_inv R' S' \<and> (\<forall>i. run_machine\<^sup>*\<^sup>* (run_abs R i) (run_abs R' i)))"

lemma facts_goodI:
  assumes "run_inv R S"
    "\<And>(evs :: 'b event list) R' S'. length evs = length facts \<Longrightarrow>
        facts_map RUNS_TABLE runs_writes (zip evs facts) R = Some R' \<Longrightarrow>
        facts_map RUN_STEPS_TABLE run_steps_writes (zip evs facts) S = Some S' \<Longrightarrow>
        \<exists>r'. R' = R(run_key i \<mapsto> r') \<and> proto r' (\<lambda>n. S' (step_key i n)) \<and>
             (\<forall>j n. j \<noteq> i \<longrightarrow> S' (step_key j n) = S (step_key j n)) \<and>
             run_machine\<^sup>*\<^sup>* (run_abs R i) (Some (abs_row r'))"
  shows "facts_good R S facts TYPE('b)"
  unfolding facts_good_def
proof (intro allI impI)
  fix evs :: "'b event list" and R' S'
  assume "length evs = length facts" "facts_map RUNS_TABLE runs_writes (zip evs facts) R = Some R'"
    "facts_map RUN_STEPS_TABLE run_steps_writes (zip evs facts) S = Some S'"
  then obtain r' where r': "R' = R(run_key i \<mapsto> r')" "proto r' (\<lambda>n. S' (step_key i n))"
      "\<forall>j n. j \<noteq> i \<longrightarrow> S' (step_key j n) = S (step_key j n)" "run_machine\<^sup>*\<^sup>* (run_abs R i) (Some (abs_row r'))"
    using assms(2) by meson
  have "run_inv R' S'"
    unfolding run_inv_def
  proof
    fix j
    have same: "(\<lambda>n. S' (step_key j n)) = (\<lambda>n. S (step_key j n))" if "j \<noteq> i"
      using r'(3) that by blast
    show "case R' (run_key j) of None \<Rightarrow> \<forall>n. S' (step_key j n) = None | Some r \<Rightarrow> proto r (\<lambda>n. S' (step_key j n))"
    proof (cases "j = i")
      case False
      then show ?thesis
        using r'(1) spec [OF assms(1) [unfolded run_inv_def], of j] same fun_cong [OF same] by (auto split: option.split)
    qed (use r' in simp)
  qed
  moreover have "run_machine\<^sup>*\<^sup>* (run_abs R j) (run_abs R' j)" for j
    using r'(1,4) by (cases "j = i") (simp_all add: run_abs_def)
  ultimately show "run_inv R' S' \<and> (\<forall>i. run_machine\<^sup>*\<^sup>* (run_abs R i) (run_abs R' i))"
    by blast
qed

section \<open>Batches on the run row alone\<close>

lemma proto_counts:
  assumes "proto r q"
  shows "\<exists>c k. r ''committed_step_count'' = CInteger (int c) \<and> r ''checkpointed_step_count'' = CInteger (int k)"
  using assms by (auto simp: proto_def)

lemma proto_same_counts:
  assumes "proto r q" "r' ''committed_step_count'' = r ''committed_step_count''"
    "r' ''checkpointed_step_count'' = r ''checkpointed_step_count''" "row_status r' = Some st"
    "st = StPaused \<longleftrightarrow> r' ''pause_kind'' \<noteq> CNull" "run_is_terminal st \<longrightarrow> r' ''pending_control'' = CNull"
    "is_running st \<or> r ''committed_step_count'' = r ''checkpointed_step_count''"
  shows "proto r' q"
proof -
  obtain c k where p: "r ''committed_step_count'' = CInteger (int c)" "r ''checkpointed_step_count'' = CInteger (int k)"
      "k \<le> c" "c \<le> Suc k" "\<forall>n. q n \<noteq> None \<longleftrightarrow> 0 \<le> n \<and> n < int c"
      "\<forall>n s. q n = Some s \<longrightarrow> (s ''effect_recorded_seq'' = CNull \<longleftrightarrow> int k \<le> n) \<and>
         (s ''checkpoint_seq'' = CNull \<longleftrightarrow> int k \<le> n)"
    using assms(1) unfolding proto_def by blast
  have "c = Suc k \<longrightarrow> is_running st"
    using assms(7) p(1,2) by auto
  with assms(2-6) p show ?thesis
    unfolding proto_def by (intro exI [of _ c] exI [of _ k] exI [of _ st] conjI) simp_all
qed

lemma abs_row_at_boundary:
  "r ''committed_step_count'' = r ''checkpointed_step_count'' \<Longrightarrow> row_status r = Some st \<Longrightarrow>
   abs_row r = (count_of (r ''checkpointed_step_count''), status_phase st)"
  by (simp add: abs_row_def Let_def)

lemma abs_row_same:
  assumes "r' ''committed_step_count'' = r ''committed_step_count''"
    "r' ''checkpointed_step_count'' = r ''checkpointed_step_count''" "r' ''status'' = r ''status''"
  shows "abs_row r' = abs_row r"
  unfolding abs_row_def row_status_def assms by simp

text \<open>One update of the run row that leaves the counters alone.\<close>

lemma run_only_good:
  assumes inv: "run_inv R S" and r: "R (run_key i) = Some r"
    and upd: "\<And>(evs :: 'b event list) R' S'. length evs = length facts \<Longrightarrow>
        facts_map RUNS_TABLE runs_writes (zip evs facts) R = Some R' \<Longrightarrow>
        facts_map RUN_STEPS_TABLE run_steps_writes (zip evs facts) S = Some S' \<Longrightarrow>
        S' = S \<and> (\<exists>r' st'. R' = R(run_key i \<mapsto> r') \<and> row_status r' = Some st' \<and>
          r' ''committed_step_count'' = r ''committed_step_count'' \<and>
          r' ''checkpointed_step_count'' = r ''checkpointed_step_count'' \<and>
          (st' = StPaused \<longleftrightarrow> r' ''pause_kind'' \<noteq> CNull) \<and> (run_is_terminal st' \<longrightarrow> r' ''pending_control'' = CNull) \<and>
          (r' ''status'' = r ''status'' \<or>
           r ''committed_step_count'' = r ''checkpointed_step_count'' \<and> row_status r = Some st \<and>
           (\<forall>k. run_machine\<^sup>*\<^sup>* (Some (k, status_phase st)) (Some (k, status_phase st')))))"
  shows "facts_good R S facts TYPE('b)"
proof (rule facts_goodI [OF inv])
  fix evs :: "'b event list" and R' S'
  assume "length evs = length facts" "facts_map RUNS_TABLE runs_writes (zip evs facts) R = Some R'"
    "facts_map RUN_STEPS_TABLE run_steps_writes (zip evs facts) S = Some S'"
  from upd [OF this] obtain r' st' where u: "S' = S" "R' = R(run_key i \<mapsto> r')" "row_status r' = Some st'"
      "r' ''committed_step_count'' = r ''committed_step_count''"
      "r' ''checkpointed_step_count'' = r ''checkpointed_step_count''"
      "st' = StPaused \<longleftrightarrow> r' ''pause_kind'' \<noteq> CNull" "run_is_terminal st' \<longrightarrow> r' ''pending_control'' = CNull"
      "r' ''status'' = r ''status'' \<or> r ''committed_step_count'' = r ''checkpointed_step_count'' \<and>
         row_status r = Some st \<and> (\<forall>k. run_machine\<^sup>*\<^sup>* (Some (k, status_phase st)) (Some (k, status_phase st')))"
    by blast
  have p: "proto r (\<lambda>n. S (step_key i n))"
    by (rule run_invD(1) [OF inv r])
  have run: "is_running st' \<or> r ''committed_step_count'' = r ''checkpointed_step_count''"
  proof (cases "r ''committed_step_count'' = r ''checkpointed_step_count''")
    case False
    with u(8) have "row_status r = Some st'"
      using u(3) by (simp add: row_status_def)
    with p False show ?thesis
      by (auto simp: proto_def le_Suc_eq)
  qed simp
  have "proto r' (\<lambda>n. S (step_key i n))"
    by (rule proto_same_counts [OF p u(4,5,3,6,7) run])
  moreover have "run_machine\<^sup>*\<^sup>* (Some (abs_row r)) (Some (abs_row r'))"
  proof (cases "r' ''status'' = r ''status''")
    case True
    then show ?thesis using abs_row_same [OF u(4,5)] by simp
  next
    case False
    then show ?thesis
      using u abs_row_at_boundary [of r st] abs_row_at_boundary [of r' st'] by auto
  qed
  ultimately show "\<exists>r'. R' = R(run_key i \<mapsto> r') \<and> proto r' (\<lambda>n. S' (step_key i n)) \<and>
      (\<forall>j n. j \<noteq> i \<longrightarrow> S' (step_key j n) = S (step_key j n)) \<and> run_machine\<^sup>*\<^sup>* (run_abs R i) (Some (abs_row r'))"
    using u(1,2) r by (auto simp: run_abs_def)
qed

section \<open>The batches of the harness\<close>

lemma status_words [simp]:
  "run_status_parse ''paused'' = Some StPaused" "run_status_parse ''running'' = Some StRunning"
  "run_status_parse ''preflight'' = Some StPreflight" "run_status_parse ''validating'' = Some StValidating"
  "run_status_parse ''canceled'' = Some StCanceled" "run_status_parse ''done'' = Some StDone"
  "run_status_parse ''failed'' = Some StFailed" "run_status_parse ''waiting_input'' = Some StWaitingInput"
  by (simp_all add: run_status_parse_def)

lemma terminal_words [simp]:
  "run_is_terminal StDone" "run_is_terminal StFailed" "run_is_terminal StCanceled"
  "\<not> run_is_terminal StPaused" "\<not> run_is_terminal StRunning" "\<not> run_is_terminal StPreflight"
  "\<not> run_is_terminal StValidating" "\<not> run_is_terminal StWaitingInput"
  by (simp_all add: run_is_terminal_def)

lemma row_status_text [simp]: "r ''status'' = CText t \<Longrightarrow> row_status r = run_status_parse t"
  by (simp add: row_status_def)

lemmas fact_simps = facts_map.simps writes_map.simps write_map.simps runs_writes_def run_steps_writes_def
  id_blob_def integer_u32_def integer_u64_def seq_value_def bind_values_def

lemma active_phase: "\<not> run_is_terminal st \<Longrightarrow> status_phase st \<in> {Working, Waiting, Parked}"
  by (cases st) (simp_all add: run_is_terminal_def)

lemma one_event: "length evs = length [f] \<Longrightarrow> \<exists>ev. evs = [ev]"
  by (simp add: length_Suc_conv)

lemma update_good:
  fixes as :: "'b event \<Rightarrow> assignments"
  assumes "run_inv R S" "R (run_key i) = Some r"
    and w: "\<And>ev. runs_writes (ev :: 'b event) f = [UpdateOne [id_blob i] (as ev)]"
      "\<And>ev. run_steps_writes (ev :: 'b event) f = []"
    and st: "\<And>ev. row_status (assign_row (as ev) r) = Some st'"
    and counts: "\<And>ev. assign_row (as ev) r ''committed_step_count'' = r ''committed_step_count''"
      "\<And>ev. assign_row (as ev) r ''checkpointed_step_count'' = r ''checkpointed_step_count''"
    and pause: "\<And>ev. st' = StPaused \<longleftrightarrow> assign_row (as ev) r ''pause_kind'' \<noteq> CNull"
    and control: "\<And>ev. run_is_terminal st' \<Longrightarrow> assign_row (as ev) r ''pending_control'' = CNull"
    and move: "\<And>ev. assign_row (as ev) r ''status'' = r ''status'' \<or>
        r ''committed_step_count'' = r ''checkpointed_step_count'' \<and> row_status r = Some st \<and>
        (\<forall>k. run_machine\<^sup>*\<^sup>* (Some (k, status_phase st)) (Some (k, status_phase st')))"
  shows "facts_good R S [f] TYPE('b)"
proof (rule run_only_good [OF assms(1,2), where st = st])
  fix evs :: "'b event list" and R' S'
  assume e: "length evs = length [f]" and m: "facts_map RUNS_TABLE runs_writes (zip evs [f]) R = Some R'"
      "facts_map RUN_STEPS_TABLE run_steps_writes (zip evs [f]) S = Some S'"
  obtain ev where ev: "evs = [ev]" using one_event [OF e] by blast
  let ?r' = "assign_row (as ev) r"
  have "R' = R(run_key i \<mapsto> ?r')" "S' = S"
    using m assms(2) w by (simp_all add: ev bind_values_def)
  then show "S' = S \<and> (\<exists>r' st'. R' = R(run_key i \<mapsto> r') \<and> row_status r' = Some st' \<and>
          r' ''committed_step_count'' = r ''committed_step_count'' \<and>
          r' ''checkpointed_step_count'' = r ''checkpointed_step_count'' \<and>
          (st' = StPaused \<longleftrightarrow> r' ''pause_kind'' \<noteq> CNull) \<and> (run_is_terminal st' \<longrightarrow> r' ''pending_control'' = CNull) \<and>
          (r' ''status'' = r ''status'' \<or>
           r ''committed_step_count'' = r ''checkpointed_step_count'' \<and> row_status r = Some st \<and>
           (\<forall>k. run_machine\<^sup>*\<^sup>* (Some (k, status_phase st)) (Some (k, status_phase st')))))"
    using st counts pause control move by (intro conjI exI [of _ ?r'] exI [of _ st']) auto
qed

lemma machine_to_parked: "\<not> run_is_terminal st \<Longrightarrow> run_machine\<^sup>*\<^sup>* (Some (k, status_phase st)) (Some (k, Parked))"
  and machine_to_ended: "\<not> run_is_terminal st \<Longrightarrow> run_machine\<^sup>*\<^sup>* (Some (k, status_phase st)) (Some (k, Ended))"
  using active_phase by (blast intro: run_machine.intros)+

lemmas machine_moves = r_into_rtranclp [of run_machine, OF run_machine.Ask]
  r_into_rtranclp [of run_machine, OF run_machine.Answer] r_into_rtranclp [of run_machine, OF run_machine.Resume]

lemma usage_keeps [simp]:
  "c \<in> {''status'', ''committed_step_count'', ''checkpointed_step_count'', ''pending_control'', ''pause_kind''} \<Longrightarrow>
   assign_row (usage_assignments u) r c = r c"
  by (auto simp: usage_assignments_def)

lemma assign_append: "assign_row (xs @ ys) r = assign_row ys (assign_row xs r)"
  by (induction xs arbitrary: r) auto

lemma pause_keeps [simp]:
  "c \<in> {''status'', ''committed_step_count'', ''checkpointed_step_count'', ''pending_control''} \<Longrightarrow>
   assign_row (pause_assignments cause) r c = r c"
  "assign_row (pause_assignments cause) r ''pause_kind'' \<noteq> CNull"
  by (cases cause; auto)+

lemmas update_simps = runs_writes_def run_steps_writes_def clear_pause_assignments_def row_status_def assign_append

lemma pause_good:
  assumes "run_inv R S" "R (run_key i) = Some r" "row_status r = Some st" "\<not> run_is_terminal st"
    "r ''committed_step_count'' = r ''checkpointed_step_count''"
  shows "facts_good R S [RunPaused (RunPausedV1 i n cause spent)] TYPE('b)"
  by (rule update_good [OF assms(1,2), where st = st and st' = StPaused and
        as = "\<lambda>_. [(''status'', Text ''paused''), (''pending_control'', Null), (''control_reason'', Null)] @
              pause_assignments cause @ usage_assignments spent"])
     (use assms(3-5) machine_to_parked [OF assms(4)] in \<open>simp_all add: update_simps\<close>)

lemma resume_good:
  assumes "run_inv R S" "R (run_key i) = Some r" "row_status r = Some StPaused"
    "r ''committed_step_count'' = r ''checkpointed_step_count''"
  shows "facts_good R S [RunResumed (RunResumedV1 i n)] TYPE('b)"
  by (rule update_good [OF assms(1,2), where st = StPaused and st' = StRunning and
        as = "\<lambda>_. [(''status'', Text ''running''), (''pending_control'', Null), (''control_reason'', Null)] @
              clear_pause_assignments"])
     (use assms(3,4) in \<open>simp_all add: update_simps machine_moves\<close>)

lemma finish_good:
  assumes "run_inv R S" "R (run_key i) = Some r" "row_status r = Some st" "\<not> run_is_terminal st"
    "r ''committed_step_count'' = r ''checkpointed_step_count''" "r ''pending_control'' = CNull" "r ''pause_kind'' = CNull"
  shows "facts_good R S [RunFinished (RunFinishedV2 i outcome n spent validation)] TYPE('b)"
proof -
  obtain st' where st': "run_status_parse (as_status_str outcome) = Some st'" "run_is_terminal st'"
    by (cases outcome) auto
  then have e: "status_phase st' = Ended" "st' \<noteq> StPaused"
    by (auto simp: run_is_terminal_def)
  show ?thesis
    by (rule update_good [OF assms(1,2), where st = st and st' = st' and
          as = "\<lambda>ev. [(''status'', Text (as_status_str outcome)), (''finished_seq'', seq_value ev)] @
            usage_assignments spent @
            (case validation of None \<Rightarrow> []
             | Some v \<Rightarrow> [(''validation_id'', id_blob (vr_validation_id v)),
                         (''validation_status'', Text (validation_as_str (vr_status v)))])"])
       (use assms(3-7) st' e machine_to_ended [OF assms(4)] in \<open>simp_all add: update_simps split: option.split\<close>)
qed

lemma ask_good:
  assumes "run_inv R S" "R (run_key i) = Some r" "row_status r = Some st" "is_running st"
    "r ''committed_step_count'' = r ''checkpointed_step_count''" "r ''pause_kind'' = CNull"
  shows "facts_good R S [RunQuestionAsked (RunQuestionAskedV1 i question_id prompt)] TYPE('b)"
proof -
  have "status_phase st = Working"
    using assms(4) by (auto simp: is_running_def)
  then show ?thesis
    by (intro update_good [OF assms(1,2), where st = st and st' = StWaitingInput and
          as = "\<lambda>_. [(''status'', Text ''waiting_input''), (''question_id'', id_blob question_id),
              (''question_prompt'', Text prompt)]"])
       (use assms(3-6) in \<open>simp_all add: update_simps machine_moves\<close>)
qed

lemma answer_good:
  assumes "run_inv R S" "R (run_key i) = Some r" "row_status r = Some StWaitingInput"
    "r ''committed_step_count'' = r ''checkpointed_step_count''" "r ''pause_kind'' = CNull"
  shows "facts_good R S [RunQuestionAnswered (RunQuestionAnsweredV1 i question_id answered_by answer)] TYPE('b)"
  by (rule update_good [OF assms(1,2), where st = StWaitingInput and st' = StRunning and
        as = "\<lambda>_. [(''status'', Text ''running''), (''question_id'', Null), (''question_prompt'', Null)]"])
     (use assms(3-5) in \<open>simp_all add: update_simps machine_moves\<close>)

text \<open>Raising the taint and asking for a control leave the machine where it is.\<close>

lemma taint_good:
  assumes "run_inv R S" "R (run_key i) = Some r" "row_status r = Some st"
    "st = StPaused \<longleftrightarrow> r ''pause_kind'' \<noteq> CNull" "run_is_terminal st \<Longrightarrow> r ''pending_control'' = CNull"
  shows "facts_good R S [RunTaintRaised (RunTaintRaisedV1 i source)] TYPE('b)"
  by (rule update_good [OF assms(1,2), where st = st and st' = st and as = "\<lambda>_. [(''tainted'', Integer 1)]"])
     (use assms(3-5) in \<open>simp_all add: update_simps\<close>)

lemma control_good:
  assumes "run_inv R S" "R (run_key i) = Some r" "row_status r = Some st"
    "st = StPaused \<longleftrightarrow> r ''pause_kind'' \<noteq> CNull" "\<not> run_is_terminal st"
  shows "facts_good R S [RunPauseRequested (RunPauseRequestedV1 i reason)] TYPE('b)"
    "facts_good R S [RunCancelRequested (RunCancelRequestedV1 i reason)] TYPE('b)"
proof -
  show "facts_good R S [RunPauseRequested (RunPauseRequestedV1 i reason)] TYPE('b)"
    by (rule update_good [OF assms(1,2), where st = st and st' = st and
          as = "\<lambda>_. [(''pending_control'', Text ''pause''), (''control_reason'', Text reason)]"])
       (use assms(3-5) in \<open>simp_all add: update_simps\<close>)
  show "facts_good R S [RunCancelRequested (RunCancelRequestedV1 i reason)] TYPE('b)"
    by (rule update_good [OF assms(1,2), where st = st and st' = st and
          as = "\<lambda>_. [(''pending_control'', Text ''cancel''), (''control_reason'', Text reason)]"])
       (use assms(3-5) in \<open>simp_all add: update_simps\<close>)
qed

lemma cancel_good:
  assumes "run_inv R S" "R (run_key i) = Some r" "row_status r = Some st" "\<not> run_is_terminal st"
    "r ''committed_step_count'' = r ''checkpointed_step_count''"
  shows "facts_good R S [RunCanceled (RunCanceledV1 i n), RunFinished (RunFinishedV2 i Canceled n spent None)] TYPE('b)"
proof (rule run_only_good [OF assms(1,2), where st = st])
  let ?facts = "[RunCanceled (RunCanceledV1 i n), RunFinished (RunFinishedV2 i Canceled n spent None)]"
  fix evs :: "'b event list" and R' S'
  assume e: "length evs = length ?facts"
    and m: "facts_map RUNS_TABLE runs_writes (zip evs ?facts) R = Some R'"
      "facts_map RUN_STEPS_TABLE run_steps_writes (zip evs ?facts) S = Some S'"
  obtain ev ev' where ev: "evs = [ev, ev']"
    using e by (auto simp: length_Suc_conv)
  define r' where "r' = assign_row ([(''status'', Text ''canceled''), (''finished_seq'', seq_value ev')] @ usage_assignments spent)
     (assign_row ([(''status'', Text ''canceled''), (''pending_control'', Null), (''control_reason'', Null),
               (''finished_seq'', seq_value ev)] @ clear_pause_assignments) r)"
  have "R' = R(run_key i \<mapsto> r')" "S' = S"
    using m assms(2) by (simp_all add: ev fact_simps r'_def)
  moreover have "r' ''status'' = CText ''canceled''" "r' ''pause_kind'' = CNull" "r' ''pending_control'' = CNull"
      "r' ''committed_step_count'' = r ''committed_step_count''"
      "r' ''checkpointed_step_count'' = r ''checkpointed_step_count''"
    by (simp_all add: r'_def update_simps)
  ultimately show "S' = S \<and> (\<exists>r' st'. R' = R(run_key i \<mapsto> r') \<and> row_status r' = Some st' \<and>
          r' ''committed_step_count'' = r ''committed_step_count'' \<and>
          r' ''checkpointed_step_count'' = r ''checkpointed_step_count'' \<and>
          (st' = StPaused \<longleftrightarrow> r' ''pause_kind'' \<noteq> CNull) \<and> (run_is_terminal st' \<longrightarrow> r' ''pending_control'' = CNull) \<and>
          (r' ''status'' = r ''status'' \<or>
           r ''committed_step_count'' = r ''checkpointed_step_count'' \<and> row_status r = Some st \<and>
           (\<forall>k. run_machine\<^sup>*\<^sup>* (Some (k, status_phase st)) (Some (k, status_phase st')))))"
    using assms(3,5) machine_to_ended [OF assms(4)]
    by (intro conjI exI [of _ r'] exI [of _ StCanceled]) simp_all
qed

section \<open>Starting, committing, recording\<close>

lemma start_good:
  assumes "run_inv R S"
  shows "facts_good R S [RunStarted (RunStartedV2 b)] TYPE('b)"
proof (rule facts_goodI [OF assms])
  fix evs :: "'b event list" and R' S'
  assume e: "length evs = length [RunStarted (RunStartedV2 b)]"
    and m: "facts_map RUNS_TABLE runs_writes (zip evs [RunStarted (RunStartedV2 b)]) R = Some R'"
      "facts_map RUN_STEPS_TABLE run_steps_writes (zip evs [RunStarted (RunStartedV2 b)]) S = Some S'"
  obtain ev where ev: "evs = [ev]" using one_event [OF e] by blast
  define r' where "r' = row_of (value_columns RUNS_TABLE) (run_values_v2 b ev)"
  have R': "R (run_key (rs_run_id b)) = None" "R' = R(run_key (rs_run_id b) \<mapsto> r')" "S' = S"
    using m by (auto simp: ev fact_simps r'_def split: if_splits)
  have r': "r' ''committed_step_count'' = CInteger (int 0)" "r' ''checkpointed_step_count'' = CInteger (int 0)"
      "r' ''status'' = CText ''preflight''" "r' ''pause_kind'' = CNull"
    by (simp_all add: r'_def RUNS_TABLE_def run_values_v2_def budget_values_def usage_values_def)
  have "proto r' (\<lambda>n. S' (step_key (rs_run_id b) n))"
    unfolding proto_def using r' R' run_invD(2) [OF assms R'(1)]
    by (intro exI [of _ 0] exI [of _ StPreflight]) simp
  moreover have "run_machine\<^sup>*\<^sup>* (run_abs R (rs_run_id b)) (Some (abs_row r'))"
    using R'(1) r' run_machine.Start by (auto simp: run_abs_def abs_row_def)
  ultimately show "\<exists>r'. R' = R(run_key (rs_run_id b) \<mapsto> r') \<and> proto r' (\<lambda>n. S' (step_key (rs_run_id b) n)) \<and>
      (\<forall>j n. j \<noteq> rs_run_id b \<longrightarrow> S' (step_key j n) = S (step_key j n)) \<and>
      run_machine\<^sup>*\<^sup>* (run_abs R (rs_run_id b)) (Some (abs_row r'))"
    using R' by blast
qed

end
