(* ===== verification/Run_Steps.thy ===== *)
theory Run_Steps
  imports Run_Machine
begin

text \<open>
  The two batches that move a Run's step counters: the commit of a step, with or without its gate
  approval, and the receipt of its effect with the checkpoint.
\<close>

section \<open>Committing a step\<close>

lemma phase_status_running:
  "\<exists>st. run_status_parse (phase_status p) = Some st \<and> is_running st \<and> st \<noteq> StPaused \<and> \<not> run_is_terminal st"
  by (cases p) (simp_all add: is_running_def)

text \<open>The rows after the batch: the counter one further, the phase as status, one step row without receipts.\<close>

lemma step_commit_rows:
  fixes evs :: "'b event list"
  assumes "length evs = length (gates @ [RunStepCommitted (RunStepCommittedV2 b)])"
    "facts_map RUNS_TABLE runs_writes (zip evs (gates @ [RunStepCommitted (RunStepCommittedV2 b)])) R = Some R'"
    "facts_map RUN_STEPS_TABLE run_steps_writes (zip evs (gates @ [RunStepCommitted (RunStepCommittedV2 b)])) S = Some S'"
    "\<forall>g \<in> set gates. \<exists>x. g = RunGateApproved x" "rsc_run_id b = i" "rsc_step_index b = (w :: u32)"
    "R (run_key i) = Some r" "r ''committed_step_count'' = CInteger (uint w)"
  obtains q where "S (step_key i (uint w)) = None" "S' = S(step_key i (uint w) \<mapsto> q)"
    "q ''effect_recorded_seq'' = CNull" "q ''checkpoint_seq'' = CNull"
    "R' = R(run_key i \<mapsto> r(''status'' := CText (phase_status (rsc_phase b)), ''committed_step_count'' := CInteger (uint w + 1)))"
proof -
  obtain evs' ev where ev: "evs = evs' @ [ev]" "length evs' = length gates"
    using assms(1) by (cases evs rule: rev_cases) auto
  have skip: "facts_map tb writes (zip es gs @ rest) n = facts_map tb writes rest n"
    if "length es = length gs" "\<forall>g \<in> set gs. \<forall>ev. writes ev g = []" for tb writes es gs rest n
    using that by (induction es gs rule: list_induct2) simp_all
  have gate: "runs_writes ev (RunGateApproved x) = []" "run_steps_writes ev (RunGateApproved x) = []"
    for ev :: "'b event" and x
    by (simp_all add: runs_writes_def run_steps_writes_def)
  have gates: "\<forall>g \<in> set gates. \<forall>ev :: 'b event. runs_writes ev g = []" "\<forall>g \<in> set gates. \<forall>ev :: 'b event. run_steps_writes ev g = []"
    using assms(4) gate by (metis, metis)
  define q where "q = row_of (value_columns RUN_STEPS_TABLE) (step_values (rsc_summary b) (phase_as_str (rsc_phase b))
      (Some (rsc_digest b)) (rsc_tool_call b) (rsc_reserved b) ev)"
  have u: "in_i64 (uint w + 1)"
    using uint_lt2p_num [of w] uint_ge_0 [of w] by (simp add: in_i64_def i64_min_def i64_max_def)
  have "zip evs (gates @ [RunStepCommitted (RunStepCommittedV2 b)]) =
      zip evs' gates @ [(ev, RunStepCommitted (RunStepCommittedV2 b))]"
    using ev by simp
  then have mR: "facts_map RUNS_TABLE runs_writes [(ev, RunStepCommitted (RunStepCommittedV2 b))] R = Some R'"
    and mS: "facts_map RUN_STEPS_TABLE run_steps_writes [(ev, RunStepCommitted (RunStepCommittedV2 b))] S = Some S'"
    using assms(2,3) skip [OF ev(2) gates(1)] skip [OF ev(2) gates(2)] by metis+
  have q: "q ''effect_recorded_seq'' = CNull" "q ''checkpoint_seq'' = CNull"
    by (cases "rsc_tool_call b";
        simp add: q_def RUN_STEPS_TABLE_def step_values_def usage_values_def)+
  show thesis
    by (rule that [OF _ _ q]) (use mR mS assms(5-8) u in \<open>simp_all add: fact_simps q_def split: if_splits\<close>)
qed

lemma step_good:
  assumes "run_inv R S" "R (run_key i) = Some r" "row_status r = Some st" "is_running st"
    "r ''committed_step_count'' = CInteger (uint w)" "r ''checkpointed_step_count'' = CInteger (uint w)"
    "rsc_run_id b = i" "rsc_step_index b = (w :: u32)" "\<forall>g \<in> set gates. \<exists>x. g = RunGateApproved x"
  shows "facts_good R S (gates @ [RunStepCommitted (RunStepCommittedV2 b)]) TYPE('b)"
proof (rule facts_goodI [OF assms(1)])
  let ?facts = "gates @ [RunStepCommitted (RunStepCommittedV2 b)]"
  fix evs :: "'b event list" and R' S'
  assume m: "length evs = length ?facts"
      "facts_map RUNS_TABLE runs_writes (zip evs ?facts) R = Some R'"
      "facts_map RUN_STEPS_TABLE run_steps_writes (zip evs ?facts) S = Some S'"
  obtain st' where st': "run_status_parse (phase_status (rsc_phase b)) = Some st'" "is_running st'" "st' \<noteq> StPaused"
      "\<not> run_is_terminal st'"
    using phase_status_running by blast
  let ?s = "r(''status'' := CText (phase_status (rsc_phase b)))"
  define r' where "r' = ?s(''committed_step_count'' := CInteger (uint w + 1))"
  obtain q where R': "S (step_key i (uint w)) = None" "S' = S(step_key i (uint w) \<mapsto> q)" "R' = R(run_key i \<mapsto> r')"
    and q: "q ''effect_recorded_seq'' = CNull" "q ''checkpoint_seq'' = CNull"
    unfolding r'_def by (rule step_commit_rows [OF m assms(9,7,8,2,5)])
  have p: "proto r (\<lambda>n. S (step_key i n))"
    by (rule run_invD(1) [OF assms(1,2)])
  have pause: "r ''pause_kind'' = CNull" "\<forall>n. S (step_key i n) \<noteq> None \<longleftrightarrow> 0 \<le> n \<and> n < uint w"
      "\<forall>n s. S (step_key i n) = Some s \<longrightarrow>
         (s ''effect_recorded_seq'' = CNull \<longleftrightarrow> uint w \<le> n) \<and> (s ''checkpoint_seq'' = CNull \<longleftrightarrow> uint w \<le> n)"
    using p assms(3-6) by (auto simp: proto_def is_running_def)
  have r': "r' ''committed_step_count'' = CInteger (uint w + 1)"
      "r' ''checkpointed_step_count'' = CInteger (uint w)" "row_status r' = Some st'" "r' ''pause_kind'' = CNull"
    using assms(6) st'(1) pause(1) by (simp_all add: r'_def row_status_def)
  have "proto r' (\<lambda>n. S' (step_key i n))"
    unfolding proto_def
  proof (rule exI [of _ "Suc (unat w)"], rule exI [of _ "unat w"], rule exI [of _ st'], intro conjI)
    show "\<forall>n. S' (step_key i n) \<noteq> None \<longleftrightarrow> 0 \<le> n \<and> n < int (Suc (unat w))"
      using pause(2) R'(2) by auto
    show "\<forall>n s. S' (step_key i n) = Some s \<longrightarrow>
        (s ''effect_recorded_seq'' = CNull \<longleftrightarrow> int (unat w) \<le> n) \<and> (s ''checkpoint_seq'' = CNull \<longleftrightarrow> int (unat w) \<le> n)"
      using pause(3) R'(2) q by auto
  qed (use r' st' in simp_all)
  moreover have "run_machine\<^sup>*\<^sup>* (run_abs R i) (Some (abs_row r'))"
  proof -
    have "abs_row r = (unat w, Working)"
      using assms(3-6) by (auto simp: abs_row_def is_running_def)
    moreover have "nat (uint w + 1) = Suc (unat w)"
      using uint_ge_0 [of w] by (simp add: nat_add_distrib)
    then have "abs_row r' = (unat w, Outstanding)"
      using r' by (simp add: abs_row_def)
    ultimately show ?thesis
      using assms(2) run_machine.Commit by (auto simp: run_abs_def)
  qed
  ultimately show "\<exists>r'. R' = R(run_key i \<mapsto> r') \<and> proto r' (\<lambda>n. S' (step_key i n)) \<and>
      (\<forall>j n. j \<noteq> i \<longrightarrow> S' (step_key j n) = S (step_key j n)) \<and> run_machine\<^sup>*\<^sup>* (run_abs R i) (Some (abs_row r'))"
    using R' by (intro exI [of _ r']) auto
qed

section \<open>Recording an effect\<close>

lemma facts_map_split:
  assumes "facts_map tb writes (zip evs (xs @ ys)) m = Some m'" "length evs = length (xs @ ys)"
  obtains es fs n where "evs = es @ fs" "length es = length xs" "length fs = length ys"
    "facts_map tb writes (zip es xs) m = Some n" "facts_map tb writes (zip fs ys) n = Some m'"
proof -
  have app: "facts_map tb writes (as @ bs) m = Option.bind (facts_map tb writes as m) (facts_map tb writes bs)" for as bs m
    by (induction as arbitrary: m) (auto split: bind_split)
  let ?es = "take (length xs) evs" and ?fs = "drop (length xs) evs"
  have "zip evs (xs @ ys) = zip ?es xs @ zip ?fs ys"
    by (simp add: zip_append2)
  then obtain n where "facts_map tb writes (zip ?es xs) m = Some n" "facts_map tb writes (zip ?fs ys) n = Some m'"
    using assms(1) by (auto simp: app bind_eq_Some_conv)
  then show thesis
    using assms(2) that [of ?es ?fs n] by simp
qed

text \<open>The columns of the run row the protocol is about, through one effect batch.\<close>

definition same_protocol :: "row \<Rightarrow> row \<Rightarrow> bool" where
  "same_protocol r r' \<longleftrightarrow>
     (\<forall>c \<in> {''status'', ''committed_step_count'', ''checkpointed_step_count'', ''pending_control'', ''pause_kind''}. r' c = r c)"

lemma same_protocol_refl [simp]: "same_protocol r r"
  by (simp add: same_protocol_def)

lemma deltas_keep: "c \<notin> fst ` set ds \<Longrightarrow> add_deltas ds r c = r c"
proof -
  have "fold (\<lambda>(c, d) r'. r'(c := sql_add (r c) d)) ds r0 c = r0 c" if "c \<notin> fst ` set ds" for r0
    using that by (induction ds arbitrary: r0) auto
  then show "c \<notin> fst ` set ds \<Longrightarrow> add_deltas ds r c = r c"
    by (simp add: add_deltas_def)
qed

lemma effect_pieces:
  fixes ev :: "'b event"
  shows "facts_map RUNS_TABLE runs_writes [(ev, RunToolEffectRecorded (RunToolEffectRecordedV1 i n a b c spent))] R = Some R' \<Longrightarrow>
      R (run_key i) = Some r \<Longrightarrow> \<exists>r'. R' = R(run_key i \<mapsto> r') \<and> same_protocol r r'"
    "facts_map RUNS_TABLE runs_writes [(ev, RunArtifactRecorded x)] R = Some R' \<Longrightarrow> R' = R"
    "facts_map RUNS_TABLE runs_writes [(ev, RunValidationRecorded (RunValidationRecordedV1 i n v st t))] R = Some R' \<Longrightarrow>
      R (run_key i) = Some r \<Longrightarrow> \<exists>r'. R' = R(run_key i \<mapsto> r') \<and> same_protocol r r'"
    "facts_map RUNS_TABLE runs_writes [(ev, RunCheckpointSaved (RunCheckpointSavedV1 i n cp d))] R = Some R' \<Longrightarrow>
      R (run_key i) = Some r \<Longrightarrow>
      \<exists>r'. R' = R(run_key i \<mapsto> r') \<and>
        same_protocol (r(''checkpointed_step_count'' := sql_add (r ''checkpointed_step_count'') 1)) r'"
    "facts_map RUNS_TABLE runs_writes [(ev, RunPaused (RunPausedV1 i n cause spent))] R = Some R' \<Longrightarrow>
      R (run_key i) = Some r \<Longrightarrow>
      \<exists>r'. R' = R(run_key i \<mapsto> r') \<and> r' ''committed_step_count'' = r ''committed_step_count'' \<and>
        r' ''checkpointed_step_count'' = r ''checkpointed_step_count'' \<and>
        r' ''status'' = CText ''paused'' \<and> r' ''pending_control'' = CNull \<and> r' ''pause_kind'' \<noteq> CNull"
proof -
  assume "facts_map RUNS_TABLE runs_writes [(ev, RunToolEffectRecorded (RunToolEffectRecordedV1 i n a b c spent))] R = Some R'"
    "R (run_key i) = Some r"
  then have "R' = R(run_key i \<mapsto> add_deltas (usage_deltas spent) r)"
    by (simp add: fact_simps)
  moreover have "same_protocol r (add_deltas (usage_deltas spent) r)"
    by (simp add: same_protocol_def deltas_keep usage_deltas_def)
  ultimately show "\<exists>r'. R' = R(run_key i \<mapsto> r') \<and> same_protocol r r'" by blast
next
  assume "facts_map RUNS_TABLE runs_writes [(ev, RunArtifactRecorded x)] R = Some R'"
  then show "R' = R" by (simp add: fact_simps)
next
  let ?as = "[(''validation_id'', id_blob v), (''validation_status'', Text (validation_as_str st))]"
  assume "facts_map RUNS_TABLE runs_writes [(ev, RunValidationRecorded (RunValidationRecordedV1 i n v st t))] R = Some R'"
    "R (run_key i) = Some r"
  then have "R' = R(run_key i \<mapsto> assign_row ?as r)"
    by (simp add: fact_simps)
  moreover have "same_protocol r (assign_row ?as r)"
    by (simp add: same_protocol_def)
  ultimately show "\<exists>r'. R' = R(run_key i \<mapsto> r') \<and> same_protocol r r'" by blast
next
  let ?r = "r(''checkpointed_step_count'' := sql_add (r ''checkpointed_step_count'') 1)"
  let ?as = "[(''checkpoint_id'', id_blob cp), (''checkpoint_step_index'', integer_u32 n)]"
  assume "facts_map RUNS_TABLE runs_writes [(ev, RunCheckpointSaved (RunCheckpointSavedV1 i n cp d))] R = Some R'"
    "R (run_key i) = Some r"
  then have "R' = R(run_key i \<mapsto> assign_row ?as ?r)"
    by (simp add: fact_simps)
  moreover have "same_protocol ?r (assign_row ?as ?r)"
    by (simp add: same_protocol_def)
  ultimately show "\<exists>r'. R' = R(run_key i \<mapsto> r') \<and> same_protocol ?r r'" by blast
next
  let ?as = "[(''status'', Text ''paused''), (''pending_control'', Null), (''control_reason'', Null)] @
              pause_assignments cause @ usage_assignments spent"
  assume "facts_map RUNS_TABLE runs_writes [(ev, RunPaused (RunPausedV1 i n cause spent))] R = Some R'"
    "R (run_key i) = Some r"
  then have "R' = R(run_key i \<mapsto> assign_row ?as r)"
    by (simp add: fact_simps)
  moreover have "assign_row ?as r ''committed_step_count'' = r ''committed_step_count''"
      "assign_row ?as r ''checkpointed_step_count'' = r ''checkpointed_step_count''"
      "assign_row ?as r ''status'' = CText ''paused''" "assign_row ?as r ''pending_control'' = CNull"
      "assign_row ?as r ''pause_kind'' \<noteq> CNull"
    by (simp_all add: assign_append)
  ultimately show "\<exists>r'. R' = R(run_key i \<mapsto> r') \<and> r' ''committed_step_count'' = r ''committed_step_count'' \<and>
        r' ''checkpointed_step_count'' = r ''checkpointed_step_count'' \<and>
        r' ''status'' = CText ''paused'' \<and> r' ''pending_control'' = CNull \<and> r' ''pause_kind'' \<noteq> CNull"
    by blast
qed

lemma effect_step_pieces:
  fixes ev :: "'b event"
  assumes "S (step_key i (uint n)) = Some q"
  shows "facts_map RUN_STEPS_TABLE run_steps_writes [(ev, RunToolEffectRecorded (RunToolEffectRecordedV1 i n a b c spent))] S = Some S' \<Longrightarrow>
      \<exists>q'. S' = S(step_key i (uint n) \<mapsto> q') \<and> q' ''effect_recorded_seq'' \<noteq> CNull"
    "facts_map RUN_STEPS_TABLE run_steps_writes [(ev, RunArtifactRecorded (RunArtifactRecordedV1 i n aid ah mt sz))] S = Some S' \<Longrightarrow>
      \<exists>q'. S' = S(step_key i (uint n) \<mapsto> q') \<and> q' ''effect_recorded_seq'' = q ''effect_recorded_seq''"
    "facts_map RUN_STEPS_TABLE run_steps_writes [(ev, RunValidationRecorded (RunValidationRecordedV1 i n v st t))] S = Some S' \<Longrightarrow>
      \<exists>q'. S' = S(step_key i (uint n) \<mapsto> q') \<and> q' ''effect_recorded_seq'' = q ''effect_recorded_seq''"
    "facts_map RUN_STEPS_TABLE run_steps_writes [(ev, RunCheckpointSaved (RunCheckpointSavedV1 i n cp d))] S = Some S' \<Longrightarrow>
      \<exists>q'. S' = S(step_key i (uint n) \<mapsto> q') \<and> q' ''effect_recorded_seq'' = q ''effect_recorded_seq'' \<and>
        q' ''checkpoint_seq'' \<noteq> CNull"
    "facts_map RUN_STEPS_TABLE run_steps_writes [(ev, RunPaused x)] S = Some S' \<Longrightarrow> S' = S"
proof -
  let ?as = "[(''effect_recorded_seq'', seq_value ev), (''output_digest'', Blob (digest_bytes c))] @ usage_assignments spent"
  assume "facts_map RUN_STEPS_TABLE run_steps_writes [(ev, RunToolEffectRecorded (RunToolEffectRecordedV1 i n a b c spent))] S = Some S'"
  then have "S' = S(step_key i (uint n) \<mapsto> assign_row ?as q)"
    using assms by (simp add: fact_simps split: if_splits)
  moreover have "assign_row ?as q ''effect_recorded_seq'' \<noteq> CNull"
    by (simp add: usage_assignments_def seq_value_def)
  ultimately show "\<exists>q'. S' = S(step_key i (uint n) \<mapsto> q') \<and> q' ''effect_recorded_seq'' \<noteq> CNull" by blast
next
  let ?as = "[(''artifact_id'', id_blob aid), (''artifact_hash'', Blob (digest_bytes ah)),
              (''artifact_media_type'', Text mt), (''artifact_size_bytes'', integer_u64 sz)]"
  assume "facts_map RUN_STEPS_TABLE run_steps_writes [(ev, RunArtifactRecorded (RunArtifactRecordedV1 i n aid ah mt sz))] S = Some S'"
  then have "S' = S(step_key i (uint n) \<mapsto> assign_row ?as q)"
    using assms by (simp add: fact_simps split: if_splits)
  then show "\<exists>q'. S' = S(step_key i (uint n) \<mapsto> q') \<and> q' ''effect_recorded_seq'' = q ''effect_recorded_seq''"
    by (intro exI [of _ "assign_row ?as q"]) simp
next
  let ?as = "[(''validation_id'', id_blob v), (''validation_status'', Text (validation_as_str st)), (''validation_summary'', Text t)]"
  assume "facts_map RUN_STEPS_TABLE run_steps_writes [(ev, RunValidationRecorded (RunValidationRecordedV1 i n v st t))] S = Some S'"
  then have "S' = S(step_key i (uint n) \<mapsto> assign_row ?as q)"
    using assms by (simp add: fact_simps split: if_splits)
  then show "\<exists>q'. S' = S(step_key i (uint n) \<mapsto> q') \<and> q' ''effect_recorded_seq'' = q ''effect_recorded_seq''"
    by (intro exI [of _ "assign_row ?as q"]) simp
next
  let ?as = "[(''checkpoint_id'', id_blob cp), (''checkpoint_digest'', Blob (digest_bytes d)), (''checkpoint_seq'', seq_value ev)]"
  assume "facts_map RUN_STEPS_TABLE run_steps_writes [(ev, RunCheckpointSaved (RunCheckpointSavedV1 i n cp d))] S = Some S'"
  then have "S' = S(step_key i (uint n) \<mapsto> assign_row ?as q)"
    using assms by (simp add: fact_simps split: if_splits)
  moreover have "assign_row ?as q ''effect_recorded_seq'' = q ''effect_recorded_seq''" "assign_row ?as q ''checkpoint_seq'' \<noteq> CNull"
    by (simp_all add: seq_value_def)
  ultimately show "\<exists>q'. S' = S(step_key i (uint n) \<mapsto> q') \<and> q' ''effect_recorded_seq'' = q ''effect_recorded_seq'' \<and>
        q' ''checkpoint_seq'' \<noteq> CNull" by blast
next
  assume "facts_map RUN_STEPS_TABLE run_steps_writes [(ev, RunPaused x)] S = Some S'"
  then show "S' = S" by (simp add: fact_simps)
qed

text \<open>The optional pieces of the batch: nothing, or one event.\<close>

lemma facts_map_option:
  fixes evs :: "'b event list"
  assumes "facts_map tb writes (zip evs (case x of None \<Rightarrow> [] | Some a \<Rightarrow> [f a])) m = Some m'"
    "length evs = length (case x of None \<Rightarrow> [] | Some a \<Rightarrow> [f a])"
  shows "x = None \<and> m' = m \<or> (\<exists>a ev. x = Some a \<and> facts_map tb writes [(ev, f a)] m = Some m')"
  using assms by (cases x) (auto simp: length_Suc_conv)

lemma facts_map_five:
  assumes "facts_map tb writes (zip evs (a @ b @ c @ d @ e)) m = Some m'" "length evs = length (a @ b @ c @ d @ e)"
  obtains e1 e2 e3 e4 e5 m1 m2 m3 m4 where
    "length e1 = length a" "facts_map tb writes (zip e1 a) m = Some m1"
    "length e2 = length b" "facts_map tb writes (zip e2 b) m1 = Some m2"
    "length e3 = length c" "facts_map tb writes (zip e3 c) m2 = Some m3"
    "length e4 = length d" "facts_map tb writes (zip e4 d) m3 = Some m4"
    "length e5 = length e" "facts_map tb writes (zip e5 e) m4 = Some m'"
proof -
  obtain e1 r1 m1 where 1: "length e1 = length a" "facts_map tb writes (zip e1 a) m = Some m1"
    and r1: "facts_map tb writes (zip r1 (b @ c @ d @ e)) m1 = Some m'" "length r1 = length (b @ c @ d @ e)"
    using facts_map_split [OF assms] by metis
  obtain e2 r2 m2 where 2: "length e2 = length b" "facts_map tb writes (zip e2 b) m1 = Some m2"
    and r2: "facts_map tb writes (zip r2 (c @ d @ e)) m2 = Some m'" "length r2 = length (c @ d @ e)"
    using facts_map_split [OF r1] by metis
  obtain e3 r3 m3 where 3: "length e3 = length c" "facts_map tb writes (zip e3 c) m2 = Some m3"
    and r3: "facts_map tb writes (zip r3 (d @ e)) m3 = Some m'" "length r3 = length (d @ e)"
    using facts_map_split [OF r2] by metis
  show thesis
    using facts_map_split [OF r3] 1 2 3 that by metis
qed

lemma effect_fold:
  fixes evs :: "'b event list"
  assumes "facts_map tb writes (zip evs (effect_events call report state step)) m = Some m'"
    "length evs = length (effect_events call report state step)"
  obtains ev ev' m1 m2 m3 m4 where
    "facts_map tb writes [(ev, RunToolEffectRecorded (RunToolEffectRecordedV1 (at_run_id call) (at_step_index call)
       (at_call_id call) (at_idempotency_key call) (rp_output_digest report) (rp_spent report)))] m = Some m1"
    "rp_artifact report = None \<and> m2 = m1 \<or> (\<exists>ev aid ah mt sz. facts_map tb writes [(ev, RunArtifactRecorded
       (RunArtifactRecordedV1 (at_run_id call) (at_step_index call) aid ah mt sz))] m1 = Some m2)"
    "rp_validation report = None \<and> m3 = m2 \<or> (\<exists>ev v st t. facts_map tb writes [(ev, RunValidationRecorded
       (RunValidationRecordedV1 (at_run_id call) (at_step_index call) v st t))] m2 = Some m3)"
    "facts_map tb writes [(ev', RunCheckpointSaved (RunCheckpointSavedV1 (at_run_id call) (at_step_index call)
       (checkpoint_id (at_call_id call)) (rp_checkpoint_digest report)))] m3 = Some m4"
    "reservation_exceeded_dimension (rp_spent report) (ss_reserved step) = None \<and> m' = m4 \<or>
     (\<exists>ev d. reservation_exceeded_dimension (rp_spent report) (ss_reserved step) = Some d \<and>
       facts_map tb writes [(ev, RunPaused (RunPausedV1 (at_run_id call) (saturating_add (at_step_index call) 1)
         (PauseReservationExceeded d) (saturating_usage_add (st_spent state) (rp_spent report))))] m4 = Some m')"
proof -
  obtain e1 e2 e3 e4 e5 m1 m2 m3 m4 where len: "length e1 = length [x1 :: domain_event]" "length e4 = length [x4 :: domain_event]"
    and 1: "facts_map tb writes (zip e1 [RunToolEffectRecorded (RunToolEffectRecordedV1 (at_run_id call)
       (at_step_index call) (at_call_id call) (at_idempotency_key call) (rp_output_digest report) (rp_spent report))]) m = Some m1"
    and 2: "facts_map tb writes (zip e2 (case rp_artifact report of None \<Rightarrow> [] | Some a \<Rightarrow> [RunArtifactRecorded
       (RunArtifactRecordedV1 (at_run_id call) (at_step_index call) (af_artifact_id a) (af_content_hash a)
         (af_media_type a) (af_size_bytes a))])) m1 = Some m2"
      "length e2 = length (case rp_artifact report of None \<Rightarrow> [] | Some a \<Rightarrow> [RunArtifactRecorded
       (RunArtifactRecordedV1 (at_run_id call) (at_step_index call) (af_artifact_id a) (af_content_hash a)
         (af_media_type a) (af_size_bytes a))])"
    and 3: "facts_map tb writes (zip e3 (case rp_validation report of None \<Rightarrow> [] | Some v \<Rightarrow> [RunValidationRecorded
       (RunValidationRecordedV1 (at_run_id call) (at_step_index call) (vp_validation_id v) (vp_status v)
         (vp_summary v))])) m2 = Some m3"
      "length e3 = length (case rp_validation report of None \<Rightarrow> [] | Some v \<Rightarrow> [RunValidationRecorded
       (RunValidationRecordedV1 (at_run_id call) (at_step_index call) (vp_validation_id v) (vp_status v)
         (vp_summary v))])"
    and 4: "facts_map tb writes (zip e4 [RunCheckpointSaved (RunCheckpointSavedV1 (at_run_id call)
       (at_step_index call) (checkpoint_id (at_call_id call)) (rp_checkpoint_digest report))]) m3 = Some m4"
    and 5: "facts_map tb writes (zip e5 (case reservation_exceeded_dimension (rp_spent report) (ss_reserved step) of
         None \<Rightarrow> []
       | Some d \<Rightarrow> [RunPaused (RunPausedV1 (at_run_id call) (saturating_add (at_step_index call) 1)
           (PauseReservationExceeded d) (saturating_usage_add (st_spent state) (rp_spent report)))])) m4 = Some m'"
      "length e5 = length (case reservation_exceeded_dimension (rp_spent report) (ss_reserved step) of None \<Rightarrow> []
       | Some d \<Rightarrow> [RunPaused (RunPausedV1 (at_run_id call) (saturating_add (at_step_index call) 1)
           (PauseReservationExceeded d) (saturating_usage_add (st_spent state) (rp_spent report)))])"
    by (rule facts_map_five [OF assms [unfolded effect_events_def]]) (rule that, simp_all)
  obtain ev where "e1 = [ev]" using len(1) by (auto simp: length_Suc_conv)
  moreover obtain ev' where "e4 = [ev']" using len(2) by (auto simp: length_Suc_conv)
  ultimately have 14: "facts_map tb writes [(ev, RunToolEffectRecorded (RunToolEffectRecordedV1 (at_run_id call)
       (at_step_index call) (at_call_id call) (at_idempotency_key call) (rp_output_digest report) (rp_spent report)))] m = Some m1"
      "facts_map tb writes [(ev', RunCheckpointSaved (RunCheckpointSavedV1 (at_run_id call)
       (at_step_index call) (checkpoint_id (at_call_id call)) (rp_checkpoint_digest report)))] m3 = Some m4"
    using 1 4 by (simp_all only: zip_Cons_Cons zip_Nil)
  show thesis
    by (rule that [OF 14(1) _ _ 14(2)])
      (use facts_map_option [OF 2] in blast, use facts_map_option [OF 3] in blast, use facts_map_option [OF 5] in blast)
qed

lemma effect_steps:
  fixes evs :: "'b event list"
  assumes "facts_map RUN_STEPS_TABLE run_steps_writes (zip evs (effect_events call report state step)) S = Some S'"
    "length evs = length (effect_events call report state step)"
    "S (step_key (at_run_id call) (uint (at_step_index call))) = Some q"
  shows "\<exists>q'. S' = S(step_key (at_run_id call) (uint (at_step_index call)) \<mapsto> q') \<and>
    q' ''effect_recorded_seq'' \<noteq> CNull \<and> q' ''checkpoint_seq'' \<noteq> CNull"
proof -
  let ?k = "step_key (at_run_id call) (uint (at_step_index call))"
  obtain ev ev' m1 m2 m3 m4 where
      f1: "facts_map RUN_STEPS_TABLE run_steps_writes [(ev :: 'b event, RunToolEffectRecorded (RunToolEffectRecordedV1 (at_run_id call) (at_step_index call)
        (at_call_id call) (at_idempotency_key call) (rp_output_digest report) (rp_spent report)))] S = Some m1"
    and f2: "rp_artifact report = None \<and> m2 = m1 \<or> (\<exists>(ev :: 'b event) aid ah mt sz. facts_map RUN_STEPS_TABLE run_steps_writes
        [(ev, RunArtifactRecorded (RunArtifactRecordedV1 (at_run_id call) (at_step_index call) aid ah mt sz))] m1 = Some m2)"
    and f3: "rp_validation report = None \<and> m3 = m2 \<or> (\<exists>(ev :: 'b event) v st t. facts_map RUN_STEPS_TABLE run_steps_writes
        [(ev, RunValidationRecorded (RunValidationRecordedV1 (at_run_id call) (at_step_index call) v st t))] m2 = Some m3)"
    and f4: "facts_map RUN_STEPS_TABLE run_steps_writes [(ev' :: 'b event, RunCheckpointSaved (RunCheckpointSavedV1 (at_run_id call)
        (at_step_index call) (checkpoint_id (at_call_id call)) (rp_checkpoint_digest report)))] m3 = Some m4"
    and f5: "S' = m4 \<or> (\<exists>(ev :: 'b event) x. facts_map RUN_STEPS_TABLE run_steps_writes [(ev, RunPaused x)] m4 = Some S')"
    by (rule effect_fold [OF assms(1,2)]) (rule that, assumption+, blast)
  obtain q1 where q1: "m1 = S(?k \<mapsto> q1)" "q1 ''effect_recorded_seq'' \<noteq> CNull"
    using effect_step_pieces(1) [OF assms(3) f1] by blast
  have "\<exists>q2. m2 = S(?k \<mapsto> q2) \<and> q2 ''effect_recorded_seq'' \<noteq> CNull"
    using f2 effect_step_pieces(2) [of m1 "at_run_id call" "at_step_index call" q1] q1 by (elim disjE exE) fastforce+
  then obtain q2 where q2: "m2 = S(?k \<mapsto> q2)" "q2 ''effect_recorded_seq'' \<noteq> CNull" by blast
  have "\<exists>q3. m3 = S(?k \<mapsto> q3) \<and> q3 ''effect_recorded_seq'' \<noteq> CNull"
    using f3 effect_step_pieces(3) [of m2 "at_run_id call" "at_step_index call" q2] q2 by (elim disjE exE) fastforce+
  then obtain q3 where q3: "m3 = S(?k \<mapsto> q3)" "q3 ''effect_recorded_seq'' \<noteq> CNull" by blast
  obtain q4 where "m4 = S(?k \<mapsto> q4)" "q4 ''effect_recorded_seq'' \<noteq> CNull" "q4 ''checkpoint_seq'' \<noteq> CNull"
    using effect_step_pieces(4) [OF _ f4, of q3] q3 by (auto simp del: facts_map.simps)
  moreover have "S' = m4"
    using f5 effect_step_pieces(5) [of m4 "at_run_id call" "at_step_index call" q4] calculation(1) by auto
  ultimately show ?thesis by blast
qed

lemma effect_runs:
  fixes evs :: "'b event list"
  assumes "facts_map RUNS_TABLE runs_writes (zip evs (effect_events call report state step)) R = Some R'"
    "length evs = length (effect_events call report state step)" "R (run_key (at_run_id call)) = Some r"
  shows "\<exists>r'. R' = R(run_key (at_run_id call) \<mapsto> r') \<and> r' ''committed_step_count'' = r ''committed_step_count'' \<and>
    r' ''checkpointed_step_count'' = sql_add (r ''checkpointed_step_count'') 1 \<and>
    (if reservation_exceeded_dimension (rp_spent report) (ss_reserved step) = None
     then \<forall>c \<in> {''status'', ''pending_control'', ''pause_kind''}. r' c = r c
     else r' ''status'' = CText ''paused'' \<and> r' ''pending_control'' = CNull \<and> r' ''pause_kind'' \<noteq> CNull)"
proof -
  let ?k = "run_key (at_run_id call)" and ?over = "reservation_exceeded_dimension (rp_spent report) (ss_reserved step)"
  let ?p = "r(''checkpointed_step_count'' := sql_add (r ''checkpointed_step_count'') 1)"
  obtain ev ev' m1 m2 m3 m4 where
      f1: "facts_map RUNS_TABLE runs_writes [(ev :: 'b event, RunToolEffectRecorded (RunToolEffectRecordedV1 (at_run_id call) (at_step_index call)
        (at_call_id call) (at_idempotency_key call) (rp_output_digest report) (rp_spent report)))] R = Some m1"
    and f2: "rp_artifact report = None \<and> m2 = m1 \<or> (\<exists>(ev :: 'b event) aid ah mt sz. facts_map RUNS_TABLE runs_writes
        [(ev, RunArtifactRecorded (RunArtifactRecordedV1 (at_run_id call) (at_step_index call) aid ah mt sz))] m1 = Some m2)"
    and f3: "rp_validation report = None \<and> m3 = m2 \<or> (\<exists>(ev :: 'b event) v st t. facts_map RUNS_TABLE runs_writes
        [(ev, RunValidationRecorded (RunValidationRecordedV1 (at_run_id call) (at_step_index call) v st t))] m2 = Some m3)"
    and f4: "facts_map RUNS_TABLE runs_writes [(ev' :: 'b event, RunCheckpointSaved (RunCheckpointSavedV1 (at_run_id call)
        (at_step_index call) (checkpoint_id (at_call_id call)) (rp_checkpoint_digest report)))] m3 = Some m4"
    and f5: "?over = None \<and> R' = m4 \<or> (\<exists>(ev :: 'b event) n c s. ?over \<noteq> None \<and>
        facts_map RUNS_TABLE runs_writes [(ev, RunPaused (RunPausedV1 (at_run_id call) n c s))] m4 = Some R')"
    by (rule effect_fold [OF assms(1,2)]) (rule that, assumption+, blast)
  obtain r1 where r1: "m1 = R(?k \<mapsto> r1)" "same_protocol r r1"
    using effect_pieces(1) [OF f1 assms(3)] by blast
  have m2: "m2 = R(?k \<mapsto> r1)"
    using f2 effect_pieces(2) r1(1) by blast
  have "\<exists>r3. m3 = R(?k \<mapsto> r3) \<and> same_protocol r r3"
    using f3 effect_pieces(3) [of _ "at_run_id call" "at_step_index call" _ _ _ m2 m3 r1] m2 r1(2)
    by (elim disjE exE) (fastforce simp: same_protocol_def)+
  then obtain r3 where r3: "m3 = R(?k \<mapsto> r3)" "same_protocol r r3" by blast
  obtain r4 where "m4 = m3(?k \<mapsto> r4)"
      "same_protocol (r3(''checkpointed_step_count'' := sql_add (r3 ''checkpointed_step_count'') 1)) r4"
    using effect_pieces(4) [OF f4, of r3] r3(1) by (auto simp del: facts_map.simps)
  then have r4: "m4 = R(?k \<mapsto> r4)" "same_protocol ?p r4"
    using r3 by (simp_all add: same_protocol_def)
  show ?thesis
  proof (cases "?over")
    case None
    then show ?thesis
      using f5 r4 by (intro exI [of _ r4]) (simp add: same_protocol_def)
  next
    case (Some d)
    then obtain ev' :: "'b event" and n c s where
        "facts_map RUNS_TABLE runs_writes [(ev', RunPaused (RunPausedV1 (at_run_id call) n c s))] m4 = Some R'"
      using f5 by (metis option.distinct(1))
    from effect_pieces(5) [OF this, of r4] r4(1)
    obtain r5 where "R' = R(?k \<mapsto> r5)" "r5 ''committed_step_count'' = r4 ''committed_step_count''"
        "r5 ''checkpointed_step_count'' = r4 ''checkpointed_step_count''" "r5 ''status'' = CText ''paused''"
        "r5 ''pending_control'' = CNull" "r5 ''pause_kind'' \<noteq> CNull"
      by (auto simp del: facts_map.simps)
    then show ?thesis
      using Some r4(2) by (intro exI [of _ r5]) (simp add: same_protocol_def)
  qed
qed

lemma effect_good:
  assumes "run_inv R S" "R (run_key (at_run_id call)) = Some r"
    "S (step_key (at_run_id call) (uint (at_step_index call))) = Some q" "q ''effect_recorded_seq'' = CNull"
  shows "facts_good R S (effect_events call report state step) TYPE('b)"
proof (rule facts_goodI [OF assms(1), where i = "at_run_id call"])
  let ?i = "at_run_id call" and ?n = "uint (at_step_index call)"
  let ?over = "reservation_exceeded_dimension (rp_spent report) (ss_reserved step)"
  fix evs :: "'b event list" and R' S'
  assume e: "length evs = length (effect_events call report state step)"
    and m: "facts_map RUNS_TABLE runs_writes (zip evs (effect_events call report state step)) R = Some R'"
      "facts_map RUN_STEPS_TABLE run_steps_writes (zip evs (effect_events call report state step)) S = Some S'"
  obtain c k st where p: "r ''committed_step_count'' = CInteger (int c)" "r ''checkpointed_step_count'' = CInteger (int k)"
      "k \<le> c" "c \<le> Suc k" "row_status r = Some st" "st = StPaused \<longleftrightarrow> r ''pause_kind'' \<noteq> CNull"
      "c = Suc k \<longrightarrow> is_running st"
      "\<forall>n. S (step_key ?i n) \<noteq> None \<longleftrightarrow> 0 \<le> n \<and> n < int c"
      "\<forall>n s. S (step_key ?i n) = Some s \<longrightarrow> (s ''effect_recorded_seq'' = CNull \<longleftrightarrow> int k \<le> n) \<and>
         (s ''checkpoint_seq'' = CNull \<longleftrightarrow> int k \<le> n)"
    using run_invD(1) [OF assms(1,2)] unfolding proto_def by blast
  have "?n < int c" "int k \<le> ?n"
    using p(8,9) assms(3,4) by auto
  with p(3,4) have n: "?n = int k" "c = Suc k" by auto
  obtain q' where q': "S' = S(step_key ?i ?n \<mapsto> q')" "q' ''effect_recorded_seq'' \<noteq> CNull" "q' ''checkpoint_seq'' \<noteq> CNull"
    using effect_steps [OF m(2) e assms(3)] by blast
  obtain r' where r': "R' = R(run_key ?i \<mapsto> r')" "r' ''committed_step_count'' = r ''committed_step_count''"
      "r' ''checkpointed_step_count'' = sql_add (r ''checkpointed_step_count'') 1"
      "if ?over = None then \<forall>c \<in> {''status'', ''pending_control'', ''pause_kind''}. r' c = r c
       else r' ''status'' = CText ''paused'' \<and> r' ''pending_control'' = CNull \<and> r' ''pause_kind'' \<noteq> CNull"
    using effect_runs [OF m(1) e assms(2)] by blast
  have "in_i64 (int k + 1)"
    using n(1) uint_lt2p_num [of "at_step_index call"] by (simp add: in_i64_def i64_min_def i64_max_def)
  then have counts: "r' ''committed_step_count'' = CInteger (int (Suc k))" "r' ''checkpointed_step_count'' = CInteger (int (Suc k))"
    using r'(2,3) p(1,2) n(2) by (simp_all add: add.commute)
  obtain st' where st': "row_status r' = Some st'" "st' = StPaused \<longleftrightarrow> r' ''pause_kind'' \<noteq> CNull" "\<not> run_is_terminal st'"
      "status_phase st' = (if ?over = None then Working else Parked)"
  proof (cases "?over = None")
    case True
    then show ?thesis
      using r'(4) p(5,6,7) n(2) that [of st] by (auto simp: row_status_def is_running_def)
  next
    case False
    then show ?thesis using r'(4) that [of StPaused] by simp
  qed
  have "proto r' (\<lambda>n. S' (step_key ?i n))"
    unfolding proto_def
  proof (rule exI [of _ "Suc k"], rule exI [of _ "Suc k"], rule exI [of _ st'], intro conjI)
    show "\<forall>n. S' (step_key ?i n) \<noteq> None \<longleftrightarrow> 0 \<le> n \<and> n < int (Suc k)"
      using p(8) q'(1) n by auto
    show "\<forall>j s. S' (step_key ?i j) = Some s \<longrightarrow>
        (s ''effect_recorded_seq'' = CNull \<longleftrightarrow> int (Suc k) \<le> j) \<and> (s ''checkpoint_seq'' = CNull \<longleftrightarrow> int (Suc k) \<le> j)"
      using p(9) q' n(1) by auto
  qed (use counts st' in simp_all)
  moreover have "abs_row r = (k, Outstanding)" "abs_row r' = (Suc k, status_phase st')"
    using p(1,2,5) n(2) counts st'(1) by (simp_all add: abs_row_def nat_add_distrib)
  then have "run_machine\<^sup>*\<^sup>* (run_abs R ?i) (Some (abs_row r'))"
    using assms(2) st'(4) run_machine.Receipt run_machine.Overrun by (auto simp: run_abs_def)
  ultimately show "\<exists>r'. R' = R(run_key ?i \<mapsto> r') \<and> proto r' (\<lambda>n. S' (step_key ?i n)) \<and>
      (\<forall>j n. j \<noteq> ?i \<longrightarrow> S' (step_key j n) = S (step_key j n)) \<and> run_machine\<^sup>*\<^sup>* (run_abs R ?i) (Some (abs_row r'))"
    using r'(1) q'(1) by (intro exI [of _ r']) simp
qed

end
