(* ===== verification/Harness_Safety.thy ===== *)
theory Harness_Safety
  imports Run_Steps
begin

text \<open>
  The harness implements the Run machine. Every operation of \<open>RunHarness\<close>, whatever it returns,
  keeps the invariant of the run rows and moves every Run by steps of the machine, while other holders
  of the log work on other Runs at any time and on the same Run between the head and the append.
\<close>

section \<open>Equal heads, equal rows\<close>

lemma contiguous_word_head:
  assumes "log_sound l" "log_sound l'" "read_head (db_content (pl_store l)) = read_head (db_content (pl_store l'))"
  shows "length (log_events l) = length (log_events l')"
proof -
  have "read_head (db_content (pl_store l)) = word_of_nat (length (log_events l)) \<and> int (length (log_events l)) \<le> i64_max"
    if "log_sound l" for l :: "'x project_log"
    using that log_core_head by (fastforce simp: log_sound_def log_inv_def log_events_def log_core_def)
  from this [OF assms(1)] this [OF assms(2)] assms(3) show ?thesis
    by (metis unat_word_of_nat_i64)
qed

lemma same_head_same_rows:
  assumes "log_moves nd nd'" "clock_ok nd" "log_sound (nd_log nd)"
    "read_head (db_content (nd_store nd)) = read_head (db_content (nd_store nd'))"
    "name \<in> set (table_names (pl_registry (nd_log nd)))"
  shows "rows_of (nd_log nd') name = rows_of (nd_log nd) name"
proof -
  let ?reg = "pl_registry (nd_log nd)" and ?x = "pl_externals (nd_log nd)"
  let ?db = "db_content (nd_store nd)" and ?db' = "db_content (nd_store nd')"
  have s': "log_sound (nd_log nd')" and fixed: "pl_registry (nd_log nd') = ?reg" "pl_externals (nd_log nd') = ?x"
    and "\<exists>new. log_events (nd_log nd') = log_events (nd_log nd) @ new"
    using log_moves_sound [OF assms(1-3)] assms(1) by (auto simp: log_moves_def)
  moreover have "length (log_events (nd_log nd)) = length (log_events (nd_log nd'))"
    by (rule contiguous_word_head [OF assms(3) s']) (use assms(4) in \<open>simp add: nd_store_def\<close>)
  ultimately have ev: "events ?db' = events ?db"
    by (auto simp: log_events_def nd_store_def)
  obtain evs where e: "rcollect (decode_event_row ?x) (events ?db) = Inr evs"
      "project ?reg evs (fresh_tables ?reg (main_tables ?db)) = Inr (main_tables ?db)"
    using assms(3) by (auto simp: log_sound_def log_inv_def log_core_def nd_store_def)
  obtain evs' where e': "rcollect (decode_event_row ?x) (events ?db') = Inr evs'"
      "project ?reg evs' (fresh_tables ?reg (main_tables ?db')) = Inr (main_tables ?db')"
    using s' fixed by (auto simp: log_sound_def log_inv_def log_core_def nd_store_def)
  have "agree ?reg (fresh_tables ?reg (main_tables ?db)) (fresh_tables ?reg (main_tables ?db'))"
    by (auto simp: agree_def fresh_tables_def)
  from project_agree [OF e(2) this] e' e(1) ev have "agree ?reg (main_tables ?db) (main_tables ?db')"
    by simp
  then have "main_tables ?db name = main_tables ?db' name"
    using assms(5) by (auto simp: agree_def set_table_names)
  then show ?thesis
    by (simp add: rows_of_def log_tables_def nd_store_def)
qed

section \<open>What the harness may do to the Runs\<close>

abbreviation run_of :: "'b node \<Rightarrow> id16 \<Rightarrow> (nat \<times> run_phase) option" where
  "run_of nd i \<equiv> run_abs (run_rows (nd_log nd)) i"

definition runs_ok :: "'b domain_codec \<Rightarrow> 'b node \<Rightarrow> bool" where
  "runs_ok dc nd \<longleftrightarrow> clock_ok nd \<and> log_sound (nd_log nd) \<and> run_registry dc (nd_log nd) \<and>
     run_inv (run_rows (nd_log nd)) (step_rows (nd_log nd))"

definition runs_move :: "'b domain_codec \<Rightarrow> 'b node \<Rightarrow> 'b node \<Rightarrow> bool" where
  "runs_move dc nd nd' \<longleftrightarrow> log_moves nd nd' \<and>
     (runs_ok dc nd \<longrightarrow> runs_ok dc nd' \<and> (\<forall>i. run_machine\<^sup>*\<^sup>* (run_of nd i) (run_of nd' i)))"

interpretation runs: op_relation "runs_move dc" for dc
proof
  fix nd nd' nd'' :: "'a node"
  show "runs_move dc nd nd"
    by (simp add: runs_move_def moves.R_refl)
  assume "runs_move dc nd nd'" "runs_move dc nd' nd''"
  then show "runs_move dc nd nd''"
    unfolding runs_move_def by (meson moves.R_trans rtranclp_trans)
qed

text \<open>A Run's rows are left alone.\<close>

definition run_apart :: "id16 \<Rightarrow> 'b node \<Rightarrow> 'b node \<Rightarrow> bool" where
  "run_apart i nd nd' \<longleftrightarrow>
     run_rows (nd_log nd') (run_key i) = run_rows (nd_log nd) (run_key i) \<and>
     (\<forall>n. step_rows (nd_log nd') (step_key i n) = step_rows (nd_log nd) (step_key i n))"

text \<open>
  The discipline of the other holders of the log: they move Runs by the machine too, and the Run an
  operation works on is theirs only between the head and the append.
\<close>

definition others_fair :: "'b domain_codec \<Rightarrow> 'b harness \<Rightarrow> id16 \<Rightarrow> bool" where
  "others_fair dc h i \<longleftrightarrow>
     (\<forall>nd. runs_move dc nd (h_before_head h nd) \<and> (runs_ok dc nd \<longrightarrow> run_apart i nd (h_before_head h nd)) \<and>
           runs_move dc nd (h_before_append h nd))"

section \<open>The conditional append\<close>

text \<open>The facts are a good batch in every state in which the Run's own rows are the ones that were read.\<close>

definition good_here :: "'b node \<Rightarrow> id16 \<Rightarrow> domain_event list \<Rightarrow> bool" where
  "good_here nd i facts \<longleftrightarrow>
     (\<forall>R S. run_inv R S \<longrightarrow> R (run_key i) = run_rows (nd_log nd) (run_key i) \<longrightarrow>
        (\<forall>n. S (step_key i n) = step_rows (nd_log nd) (step_key i n)) \<longrightarrow> facts_good R S facts TYPE('b))"

lemma domain_requests_ok:
  assumes "rcollect (\<lambda>e. into_request dc e device actor) es = Inr requests"
  shows "requests_ok requests"
proof -
  have "list_all2 (\<lambda>e r. into_request dc e device actor = Inr r) es requests"
    by (rule rcollect_Inr_map [OF assms])
  then have "list_all2 (\<lambda>e r. ar_kind r = domain_kind_tag e) es requests"
    by (rule list_all2_mono) (auto simp: into_request_Inr)
  then show ?thesis
    by (induction es requests rule: list_all2_induct) (auto simp: requests_ok_def domain_kind_tag_valid)
qed

text \<open>What a successful append leaves in the two tables.\<close>

lemma append_facts:
  fixes nd :: "'b node"
  assumes "log_append_inner expected requests nd = (Inr seqs, nd')" "log_sound (nd_log nd)" "run_registry dc (nd_log nd)"
    "rcollect (\<lambda>e. into_request dc e device actor) es = Inr requests" "domain_codec_ok dc" "es \<noteq> []"
  obtains evs :: "'b event list" where "length evs = length es"
    "facts_map RUNS_TABLE runs_writes (zip evs es) (run_rows (nd_log nd)) = Some (run_rows (nd_log nd'))"
    "facts_map RUN_STEPS_TABLE run_steps_writes (zip evs es) (step_rows (nd_log nd)) = Some (step_rows (nd_log nd'))"
proof -
  let ?steps = "[''RunStepCommitted'', ''RunToolEffectRecorded'', ''RunCheckpointSaved'', ''RunArtifactRecorded'',
    ''RunValidationRecorded'']"
  obtain evs where e: "length evs = length es" and f: "\<And>p kinds writes. p \<in> set (pl_registry (nd_log nd)) \<Longrightarrow>
       pr_apply p = apply_kinds dc (pr_table p) kinds writes \<Longrightarrow>
       \<forall>ev e. domain_kind_tag e \<notin> set kinds \<longrightarrow> writes ev e = [] \<Longrightarrow>
       facts_map (pr_table p) writes (zip evs es) (rows_of (nd_log nd) (tbl_name (pr_table p))) =
       Some (rows_of (nd_log nd') (tbl_name (pr_table p)))"
    using facts_stored [OF assms(1,2,6,4,5)] by metis
  have nil: "\<forall>(ev :: 'b event) e. domain_kind_tag e \<notin> set runs_kinds \<longrightarrow> runs_writes ev e = []"
      "\<forall>(ev :: 'b event) e. domain_kind_tag e \<notin> set ?steps \<longrightarrow> run_steps_writes ev e = []"
    by (simp_all add: run_writes_nil)
  have "facts_map RUNS_TABLE runs_writes (zip evs es) (run_rows (nd_log nd)) = Some (run_rows (nd_log nd'))"
    using f [of "runs_projection dc" runs_kinds runs_writes] assms(3) nil(1)
    by (simp add: run_registry_def runs_projection_def apply_runs_def run_rows_def)
  moreover have "facts_map RUN_STEPS_TABLE run_steps_writes (zip evs es) (step_rows (nd_log nd)) = Some (step_rows (nd_log nd'))"
    using f [of "run_steps_projection dc" ?steps run_steps_writes] assms(3) nil(2)
    by (simp add: run_registry_def run_steps_projection_def apply_run_steps_def step_rows_def)
  ultimately show thesis
    using that e by blast
qed

lemma append_head:
  assumes "log_append_inner (Some head) requests nd = (Inr seqs, nd')" "requests \<noteq> []"
  shows "head = read_head (db_content (nd_store nd))"
  using append_stored [OF assms] by blast

lemma append_good_moves:
  fixes nd :: "'b node"
  assumes "rcollect (\<lambda>e. into_request dc e device actor) es = Inr requests" "domain_codec_ok dc" "es \<noteq> []"
    "runs_ok dc nd \<Longrightarrow> head = read_head (db_content (nd_store nd)) \<Longrightarrow>
       facts_good (run_rows (nd_log nd)) (step_rows (nd_log nd)) es TYPE('b)"
  shows "runs_move dc nd (snd (log_append_inner (Some head) requests nd))"
proof -
  obtain r nd' where a: "log_append_inner (Some head) requests nd = (r, nd')"
    by (cases "log_append_inner (Some head) requests nd")
  have "log_moves nd (snd (log_append_inner (Some head) requests nd))"
    using append_moves [OF domain_requests_ok [OF assms(1)]] unfolding oinv_def by blast
  with a have m: "log_moves nd nd'" by simp
  have "run_inv (run_rows (nd_log nd')) (step_rows (nd_log nd')) \<and>
      (\<forall>i. run_machine\<^sup>*\<^sup>* (run_of nd i) (run_of nd' i))" if ok: "runs_ok dc nd"
  proof (cases r)
    case (Inl e)
    with append_refused a have "db_content (nd_store nd') = db_content (nd_store nd)" by blast
    then have "run_rows (nd_log nd') = run_rows (nd_log nd)" "step_rows (nd_log nd') = step_rows (nd_log nd)"
      by (simp_all add: run_rows_def step_rows_def rows_of_def log_tables_def nd_store_def)
    with ok show ?thesis by (simp add: runs_ok_def)
  next
    case (Inr seqs)
    then have a': "log_append_inner (Some head) requests nd = (Inr seqs, nd')" using a by simp
    have "requests \<noteq> []"
      using rcollect_Inr_map [OF assms(1)] assms(3) by auto
    note good = assms(4) [OF ok append_head [OF a' this]]
    have sound: "log_sound (nd_log nd)" and reg: "run_registry dc (nd_log nd)"
      using ok by (simp_all add: runs_ok_def)
    from append_facts [OF a' sound reg assms(1-3)] good show ?thesis
      unfolding facts_good_def by blast
  qed
  then show ?thesis
    using a m log_moves_sound [OF m] by (auto simp: runs_move_def runs_ok_def run_registry_def log_moves_def)
qed

text \<open>The state of the log when the append runs: if the head is still the one read, so are the Run's rows.\<close>

lemma fair_window:
  assumes "others_fair dc h i" "runs_ok dc nd"
    "read_head (db_content (nd_store (h_before_head h nd))) =
     read_head (db_content (nd_store (h_before_append h (h_before_head h nd))))"
  shows "runs_ok dc (h_before_append h (h_before_head h nd)) \<and> run_apart i nd (h_before_append h (h_before_head h nd))"
proof -
  define n1 n2 where n: "n1 = h_before_head h nd" "n2 = h_before_append h n1"
  have m: "runs_move dc nd n1" "run_apart i nd n1" "runs_move dc n1 n2"
    using assms(1,2) by (simp_all add: others_fair_def n)
  then have ok: "runs_ok dc n1" "runs_ok dc n2" "log_moves n1 n2"
    using assms(2) by (auto simp: runs_move_def)
  have "rows_of (nd_log n2) name = rows_of (nd_log n1) name" if "name \<in> set (table_names (pl_registry (nd_log n1)))" for name
    using same_head_same_rows [OF ok(3) _ _ _ that] ok(1) assms(3) by (simp add: runs_ok_def n)
  moreover have "{''proj_runs'', ''proj_run_steps''} \<subseteq> set (table_names (pl_registry (nd_log n1)))"
    using ok(1) by (force simp: runs_ok_def run_registry_def set_table_names runs_projection_def run_steps_projection_def)
  ultimately have "run_rows (nd_log n2) = run_rows (nd_log n1)" "step_rows (nd_log n2) = step_rows (nd_log n1)"
    by (auto simp: run_rows_def step_rows_def)
  with m(2) ok(2) show ?thesis by (simp add: run_apart_def n)
qed

lemma append_shape:
  assumes "rcollect (\<lambda>e. into_request dc e (h_device h) actor) facts = Inr requests"
  shows "append_at_current_head h dc actor facts nd =
    (case harness_head (h_before_head h nd) of
       (Inl e, n) \<Rightarrow> (Inl e, n)
     | (Inr head, n) \<Rightarrow> oerr HarnessLog (log_append_inner (Some head) requests) (h_before_append h n))"
  using assms by (auto simp: append_at_current_head_def obind_def oread_def omod_def harness_head_def with_reader_def
      split: sum.split prod.split)

lemma harness_head_eq:
  "harness_head nd = (r, nd') \<Longrightarrow> nd' = nd \<and> (\<forall>head. r = Inr head \<longrightarrow> head = read_head (db_content (nd_store nd)))"
  by (auto simp: harness_head_def oread_def with_reader_def log_head_def read_head_def rbind_Inr split: sum.splits)

lemma append_at_head_moves:
  fixes nd :: "'b node"
  assumes "others_fair dc h i" "domain_codec_ok dc" "facts \<noteq> []" "runs_ok dc nd \<Longrightarrow> good_here nd i facts"
  shows "runs_move dc nd (snd (append_at_current_head h dc actor facts nd))"
proof (cases "rcollect (\<lambda>e. into_request dc e (h_device h) actor) facts")
  case (Inl e)
  then show ?thesis
    by (simp add: append_at_current_head_def obind_def oread_def runs.R_refl)
next
  case (Inr requests)
  define n1 n2 where n: "n1 = h_before_head h nd" "n2 = h_before_append h n1"
  have fair: "runs_move dc nd n1" "runs_move dc n1 n2"
    using assms(1) by (simp_all add: others_fair_def n)
  let ?append = "\<lambda>n. snd (log_append_inner (Some (read_head (db_content (nd_store n1)))) requests n)"
  have shape: "snd (append_at_current_head h dc actor facts nd) \<in> {n1, ?append n2}"
    using harness_head_eq [of n1]
    by (cases "harness_head n1") (auto simp: append_shape [OF Inr] oerr_def n split: sum.split prod.split)
  have lm: "log_moves n2 (?append n2)"
    using append_moves [OF domain_requests_ok [OF Inr]] unfolding oinv_def by blast
  show ?thesis
  proof (cases "runs_ok dc nd")
    case False
    then show ?thesis
      using shape fair lm moves.R_trans unfolding runs_move_def by (metis insertE singletonD)
  next
    case True
    have "runs_move dc n2 (?append n2)"
    proof (rule append_good_moves [OF Inr assms(2,3)])
      assume "read_head (db_content (nd_store n1)) = read_head (db_content (nd_store n2))"
      then show "facts_good (run_rows (nd_log n2)) (step_rows (nd_log n2)) facts TYPE('b)"
        using fair_window [OF assms(1) True] assms(4) [OF True] by (simp add: good_here_def runs_ok_def run_apart_def n)
    qed
    then show ?thesis
      using shape fair runs.R_trans by (metis insertE singletonD)
  qed
qed

lemma append_at_head_stored:
  fixes nd :: "'b node"
  assumes "append_at_current_head h dc actor facts nd = (Inr seqs, nd')"
    "others_fair dc h i" "domain_codec_ok dc" "facts \<noteq> []" "runs_ok dc nd"
  obtains evs :: "'b event list" and n where "runs_ok dc n" "run_apart i nd n" "length evs = length facts"
    "facts_map RUNS_TABLE runs_writes (zip evs facts) (run_rows (nd_log n)) = Some (run_rows (nd_log nd'))"
    "facts_map RUN_STEPS_TABLE run_steps_writes (zip evs facts) (step_rows (nd_log n)) = Some (step_rows (nd_log nd'))"
proof -
  obtain requests where rq: "rcollect (\<lambda>e. into_request dc e (h_device h) actor) facts = Inr requests"
    using assms(1) by (auto simp: append_at_current_head_def obind_def oread_def split: sum.splits)
  define n1 n2 where n: "n1 = h_before_head h nd" "n2 = h_before_append h n1"
  have a: "log_append_inner (Some (read_head (db_content (nd_store n1)))) requests n2 = (Inr seqs, nd')"
    using assms(1) harness_head_eq [of n1]
    by (cases "harness_head n1") (auto simp: append_shape [OF rq] oerr_def n split: sum.splits prod.splits)
  have "requests \<noteq> []"
    using rcollect_Inr_map [OF rq] assms(4) by auto
  from append_head [OF a this] have w: "runs_ok dc n2" "run_apart i nd n2"
    using fair_window [OF assms(2,5)] by (simp_all add: n)
  show thesis
    by (rule append_facts [OF a _ _ rq assms(3,4)]) (use w that in \<open>auto simp: runs_ok_def\<close>)
qed

lemma append_or_conflict_state: "snd (append_or_conflict h dc actor facts nd) = snd (append_at_current_head h dc actor facts nd)"
  by (auto simp: append_or_conflict_def split: prod.split sum.split harness_error.split log_error.split)

section \<open>Sequencing\<close>

lemma move_obind:
  assumes "runs_move dc nd (snd (m nd))" "\<And>a nd'. m nd = (Inr a, nd') \<Longrightarrow> runs_move dc nd' (snd (f a nd'))"
  shows "runs_move dc nd (snd (obind m f nd))"
  using assms runs.R_trans by (cases "m nd") (fastforce simp: obind_def split: sum.split)

lemma move_oread:
  assumes "\<And>a. g nd = Inr a \<Longrightarrow> runs_move dc nd (snd (f a nd))"
  shows "runs_move dc nd (snd (obind (oread g) f nd))"
  using assms by (auto simp: obind_def oread_def runs.R_refl split: sum.split)

lemma move_ends:
  "runs_move dc nd (snd (oret a nd))" "runs_move dc nd (snd (ofail e nd))" "runs_move dc nd (snd (oread g nd))"
  by (simp_all add: oret_def ofail_def oread_def runs.R_refl)

lemma move_retry: "oinv (runs_move dc) body \<Longrightarrow> oinv (runs_move dc) (retry n i body)"
  by (induction n) (auto intro!: runs.oinv_steps split: option.split)

lemma move_retried: "oinv (runs_move dc) body \<Longrightarrow> oinv (runs_move dc) (retried i body)"
  by (simp add: retried_def move_retry)

text \<open>What a read of the Run's state tells about its row.\<close>

definition sees :: "'b domain_codec \<Rightarrow> 'b node \<Rightarrow> id16 \<Rightarrow> run_state \<Rightarrow> bool" where
  "sees dc nd i s \<longleftrightarrow> (runs_ok dc nd \<longrightarrow> (\<exists>r. run_rows (nd_log nd) (run_key i) = Some r \<and> run_sees r s \<and> st_run_id s = i))"

lemma state_required_same: "state_required i nd = (r, nd') \<Longrightarrow> nd' = nd"
  by (auto simp: state_required_def harness_state_def obind_def oread_def split: sum.splits)

lemma state_required_sees: "state_required i nd = (Inr s, nd') \<Longrightarrow> sees dc nd i s"
  using read_run_sees [of "nd_log nd" i s dc]
  by (auto simp: state_required_def harness_state_def obind_def oread_def sees_def runs_ok_def
      split: sum.splits option.splits)

lemma move_state:
  assumes "\<And>s. sees dc nd i s \<Longrightarrow> runs_move dc nd (snd (f s nd))"
  shows "runs_move dc nd (snd (obind (state_required i) f nd))"
proof (rule move_obind)
  show "runs_move dc nd (snd (state_required i nd))"
    using state_required_same by (metis prod.collapse runs.R_refl)
qed (use assms state_required_same state_required_sees in blast)

lemma move_state_end: "runs_move dc nd (snd (state_required i nd))"
  using state_required_same by (metis prod.collapse runs.R_refl)

lemma move_then_state: "runs_move dc nd (snd (then_state i b nd))"
  by (auto simp: then_state_def intro!: move_state move_ends)

lemma step_required_same: "step_required i n nd = (r, nd') \<Longrightarrow> nd' = nd"
  by (auto simp: step_required_def obind_def oread_def split: sum.splits)

lemma move_step:
  assumes "\<And>s. (runs_ok dc nd \<Longrightarrow> \<exists>q. step_rows (nd_log nd) (step_key i (uint n)) = Some q \<and> step_sees q s) \<Longrightarrow>
      runs_move dc nd (snd (f s nd))"
  shows "runs_move dc nd (snd (obind (step_required i n) f nd))"
proof (rule move_obind)
  show "runs_move dc nd (snd (step_required i n nd))"
    using step_required_same by (metis prod.collapse runs.R_refl)
  fix s nd'
  assume s: "step_required i n nd = (Inr s, nd')"
  then have "read_run_step (nd_log nd) i n = Inr (Some s)"
    by (auto simp: step_required_def obind_def oread_def split: sum.splits option.splits)
  then have "runs_ok dc nd \<Longrightarrow> \<exists>q. step_rows (nd_log nd) (step_key i (uint n)) = Some q \<and> step_sees q s"
    using read_step_sees by (auto simp: runs_ok_def)
  then show "runs_move dc nd' (snd (f s nd'))"
    using assms step_required_same [OF s] by blast
qed

section \<open>The batches, from what was read\<close>

lemma seen_here:
  assumes "sees dc nd i s" "runs_ok dc (nd :: 'b node)"
    "\<And>R S r. run_inv R S \<Longrightarrow> R (run_key i) = Some r \<Longrightarrow> row_status r = Some (st_status s) \<Longrightarrow>
       r ''committed_step_count'' = CInteger (uint (st_committed_step_count s)) \<Longrightarrow>
       r ''checkpointed_step_count'' = CInteger (uint (st_checkpointed_step_count s)) \<Longrightarrow>
       (r ''pending_control'' = CNull \<longleftrightarrow> st_pending_control s = None) \<Longrightarrow>
       (st_status s = StPaused \<longleftrightarrow> r ''pause_kind'' \<noteq> CNull) \<Longrightarrow>
       (run_is_terminal (st_status s) \<Longrightarrow> st_pending_control s = None) \<Longrightarrow>
       (\<not> is_running (st_status s) \<Longrightarrow> st_committed_step_count s = st_checkpointed_step_count s) \<Longrightarrow>
       facts_good R S facts TYPE('b)"
  shows "good_here nd i facts"
  unfolding good_here_def
proof (intro allI impI)
  fix R S
  assume R: "run_inv R S" "R (run_key i) = run_rows (nd_log nd) (run_key i)"
  obtain r where r: "R (run_key i) = Some r" "run_sees r s"
    using assms(1,2) R(2) by (auto simp: sees_def)
  have p: "proto r (\<lambda>n. S (step_key i n))"
    by (rule run_invD(1) [OF R(1) r(1)])
  have status: "row_status r = Some (st_status s)"
    using r(2) by (auto simp: run_sees_def row_status_def)
  have "st_committed_step_count s = st_checkpointed_step_count s" if "\<not> is_running (st_status s)"
  proof -
    obtain c k st where "r ''committed_step_count'' = CInteger (int c)" "r ''checkpointed_step_count'' = CInteger (int k)"
        "k \<le> c" "c \<le> Suc k" "row_status r = Some st" "c = Suc k \<longrightarrow> is_running st"
      using p unfolding proto_def by blast
    then have "uint (st_committed_step_count s) = uint (st_checkpointed_step_count s)"
      using r(2) status that by (auto simp: run_sees_def le_Suc_eq)
    then show ?thesis by (rule unsigned_word_eqI)
  qed
  moreover have "st_pending_control s = None" if "run_is_terminal (st_status s)"
    using p r(2) status that by (auto simp: run_sees_def proto_def)
  ultimately show "facts_good R S facts TYPE('b)"
    using assms(3) [OF R(1) r(1) status] r(2) by (auto simp: run_sees_def)
qed

lemma control_here:
  assumes "sees dc nd i s" "runs_ok dc nd" "st_pending_control s = Some control"
    "st_committed_step_count s = st_checkpointed_step_count s" "st_run_id s = i"
  shows "good_here nd i (control_events s control)"
proof (rule seen_here [OF assms(1,2)])
  fix R S r
  assume r: "run_inv R S" "R (run_key i) = Some r" "row_status r = Some (st_status s)"
    "r ''committed_step_count'' = CInteger (uint (st_committed_step_count s))"
    "r ''checkpointed_step_count'' = CInteger (uint (st_checkpointed_step_count s))"
    "run_is_terminal (st_status s) \<Longrightarrow> st_pending_control s = None"
  have live: "\<not> run_is_terminal (st_status s)"
    using r(6) assms(3) by auto
  show "facts_good R S (control_events s control) TYPE('a)"
    using pause_good [OF r(1-3) live] cancel_good [OF r(1-3) live] r(4,5) assms(4,5)
    by (cases control) (simp_all add: control_events_def)
qed

lemma append_moves_seen:
  assumes "others_fair dc h i" "domain_codec_ok dc" "facts \<noteq> []" "runs_ok dc nd \<Longrightarrow> good_here nd i facts"
  shows "runs_move dc nd (snd (append_or_conflict h dc actor facts nd))"
  using append_at_head_moves [OF assms] append_or_conflict_state by metis

lemma sees_id: "sees dc nd i s \<Longrightarrow> runs_ok dc nd \<Longrightarrow> st_run_id s = i"
  by (auto simp: sees_def)

lemma settle_once_moves:
  assumes "others_fair dc h i" "domain_codec_ok dc" "sees dc nd i s" "st_pending_control s = Some control"
  shows "runs_move dc nd (snd (settle_control_once h dc s control nd))"
proof (cases "st_committed_step_count s = st_checkpointed_step_count s")
  case True
  have "control_events s control \<noteq> []"
    by (cases control) (simp_all add: control_events_def)
  moreover have "runs_ok dc nd \<Longrightarrow> good_here nd i (control_events s control)"
    by (rule control_here [OF assms(3) _ assms(4) True]) (use sees_id [OF assms(3)] in auto)
  ultimately show ?thesis
    using True by (simp add: settle_control_once_def append_moves_seen [OF assms(1,2)])
qed (simp add: settle_control_once_def move_ends)

lemma settle_moves:
  assumes "others_fair dc h i" "domain_codec_ok dc"
  shows "oinv (runs_move dc) (settle_after_checkpoint h dc i)"
  unfolding settle_after_checkpoint_def
proof (rule move_retried, unfold oinv_def, rule allI, rule move_state)
  fix nd s
  assume s: "sees dc nd i s"
  show "runs_move dc nd (snd ((case st_pending_control s of None \<Rightarrow> oret (Some ())
      | Some control \<Rightarrow> obind (settle_control_once h dc s control) (\<lambda>settled. oret (if settled then Some () else None))) nd))"
    using settle_once_moves [OF assms s]
    by (cases "st_pending_control s") (auto intro!: move_obind move_ends)
qed

end
