(* ===== verification/Harness_Machine.thy ===== *)
theory Harness_Machine
  imports Harness_Safety
begin

text \<open>
  Every operation of \<open>RunHarness\<close> moves the Runs by the machine, and the reachable states of a log
  the harness works on.
\<close>

section \<open>Every operation\<close>

lemma start_moves:
  assumes "others_fair dc h (sp_run_id spec)" "domain_codec_ok dc"
  shows "oinv (runs_move dc) (start_run h dc spec actor)"
proof -
  have "oinv (runs_move dc) (lineage_depth spec)"
    unfolding oinv_def
    by (auto simp: lineage_depth_def split: option.split intro!: move_ends move_state move_oread)
  moreover have "oinv (runs_move dc) (append_at_current_head h dc actor [started_event h spec runtime depth])" for runtime depth
    unfolding oinv_def
    by (intro allI append_at_head_moves [OF assms]) (simp_all add: good_here_def started_event_def start_good)
  moreover have "oinv (runs_move dc) (state_required i)" for i
    by (simp add: oinv_def move_state_end)
  ultimately show ?thesis
    unfolding start_run_def by (intro runs.oinv_steps)
qed

lemma request_control_moves:
  assumes "others_fair dc h i" "domain_codec_ok dc"
  shows "oinv (runs_move dc) (request_control h dc i reason actor control)"
proof -
  let ?fact = "case control of ControlPause \<Rightarrow> RunPauseRequested (RunPauseRequestedV1 i reason)
      | ControlCancel \<Rightarrow> RunCancelRequested (RunCancelRequestedV1 i reason)"
  have a: "runs_move dc nd (snd (append_or_conflict h dc actor [?fact] nd))"
    if s: "sees dc nd i s" "\<not> run_is_terminal (st_status s)" for nd s
  proof (rule append_moves_seen [OF assms])
    show "good_here nd i [?fact]" if "runs_ok dc nd"
      by (rule seen_here [OF s(1) that], cases control) (use s(2) in \<open>auto intro: control_good\<close>)
  qed simp
  have "oinv (runs_move dc) (settle_after_checkpoint h dc i)"
    by (rule settle_moves [OF assms])
  then have "runs_move dc nd (snd ((if b then settle_after_checkpoint h dc i else oret ()) nd))" for nd b
    by (simp add: oinv_def move_ends)
  with a show ?thesis
    unfolding request_control_def
    by (intro runs.oinv_if runs.oinv_ofail move_retried)
       (auto simp: oinv_def intro!: move_state move_ends move_obind)
qed

lemma resume_moves:
  assumes "others_fair dc h i" "domain_codec_ok dc"
  shows "oinv (runs_move dc) (resume_run h dc i actor)"
proof -
  have "runs_move dc nd (snd (append_or_conflict h dc actor [RunResumed (RunResumedV1 i n)] nd))"
    if s: "sees dc nd i s" "st_status s = StPaused" for nd s n
  proof (rule append_moves_seen [OF assms])
    show "good_here nd i [RunResumed (RunResumedV1 i n)]" if "runs_ok dc nd"
      by (rule seen_here [OF s(1) that], erule (1) resume_good) (use s(2) in \<open>simp_all add: is_running_def\<close>)
  qed simp
  then show ?thesis
    unfolding resume_run_def
    by (intro move_retried) (auto simp: oinv_def intro!: move_state move_ends move_obind move_then_state)
qed

lemma finish_moves:
  assumes "others_fair dc h i" "domain_codec_ok dc"
  shows "oinv (runs_move dc) (finish_run h dc i outcome actor)"
proof -
  have "runs_move dc nd (snd (append_or_conflict h dc actor [RunFinished (RunFinishedV2 i outcome n spent v)] nd))"
    if s: "sees dc nd i s" "\<not> run_is_terminal (st_status s)" "st_status s \<noteq> StPaused" "st_pending_control s = None"
      "st_committed_step_count s = st_checkpointed_step_count s" for nd s n spent v
  proof (rule append_moves_seen [OF assms])
    show "good_here nd i [RunFinished (RunFinishedV2 i outcome n spent v)]" if "runs_ok dc nd"
      by (rule seen_here [OF s(1) that], erule (2) finish_good) (use s(2-) in simp_all)
  qed simp
  with settle_once_moves [OF assms] show ?thesis
    unfolding finish_run_def
    by (intro move_retried)
       (auto simp: oinv_def split: option.split intro!: move_state move_oread move_ends move_obind move_then_state)
qed

lemma taint_moves:
  assumes "others_fair dc h i" "domain_codec_ok dc"
  shows "oinv (runs_move dc) (raise_taint h dc i source)"
proof -
  have "runs_move dc nd (snd (append_or_conflict h dc actor [RunTaintRaised (RunTaintRaisedV1 i source)] nd))"
    if s: "sees dc nd i s" for nd s actor
  proof (rule append_moves_seen [OF assms])
    show "good_here nd i [RunTaintRaised (RunTaintRaisedV1 i source)]" if "runs_ok dc nd"
      by (rule seen_here [OF s that], erule (2) taint_good) simp_all
  qed simp
  then show ?thesis
    unfolding raise_taint_def
    by (intro runs.oinv_if runs.oinv_ofail move_retried)
       (auto simp: oinv_def intro!: move_state move_ends move_obind move_then_state)
qed

lemma ask_moves:
  assumes "others_fair dc h i" "domain_codec_ok dc"
  shows "oinv (runs_move dc) (ask_question h dc i question_id prompt)"
proof -
  have "runs_move dc nd (snd (append_at_current_head h dc actor [RunQuestionAsked (RunQuestionAskedV1 i question_id prompt)] nd))"
    if s: "sees dc nd i s" "require_running s = Inr ()" "st_committed_step_count s = st_checkpointed_step_count s" for nd s actor
  proof (rule append_at_head_moves [OF assms])
    show "good_here nd i [RunQuestionAsked (RunQuestionAskedV1 i question_id prompt)]" if "runs_ok dc nd"
      by (rule seen_here [OF s(1) that], erule (2) ask_good)
         (use s(2,3) in \<open>auto simp: require_running_def is_running_def split: if_splits\<close>)
  qed simp
  then show ?thesis
    unfolding ask_question_def oinv_def
    by (auto intro!: move_state move_oread move_ends move_obind move_state_end)
qed

lemma answer_moves:
  assumes "others_fair dc h i" "domain_codec_ok dc"
  shows "oinv (runs_move dc) (answer_question h dc i question_id answered_by answer)"
proof -
  have "runs_move dc nd (snd (append_at_current_head h dc actor
      [RunQuestionAnswered (RunQuestionAnsweredV1 i question_id answered_by answer)] nd))"
    if s: "sees dc nd i s" "st_status s = StWaitingInput" for nd s actor
  proof (rule append_at_head_moves [OF assms])
    show "good_here nd i [RunQuestionAnswered (RunQuestionAnsweredV1 i question_id answered_by answer)]" if "runs_ok dc nd"
      by (rule seen_here [OF s(1) that], erule (1) answer_good) (use s(2) in \<open>simp_all add: is_running_def\<close>)
  qed simp
  then show ?thesis
    unfolding answer_question_def oinv_def
    by (auto intro!: move_state move_oread move_ends move_obind move_state_end)
qed

text \<open>Preparing a step.\<close>

lemma sees_tick: "sees dc nd i s \<Longrightarrow> sees dc (nd\<lparr>nd_ticks := t\<rparr>) i s"
  by (simp add: sees_def runs_ok_def clock_ok_def)

lemma authorize_ticks:
  "authorize_step h s plan receipt nd = (r, nd') \<Longrightarrow> nd' = nd \<or> nd' = nd\<lparr>nd_ticks := Suc (nd_ticks nd)\<rparr>"
  by (auto simp: authorize_step_def obind_def oread_def now_ms_def split: sum.splits)

lemma move_authorize:
  assumes "\<And>call nd'. sees dc nd' i s \<Longrightarrow> runs_move dc nd' (snd (f call nd'))" "sees dc nd i s"
  shows "runs_move dc nd (snd (obind (authorize_step h s plan receipt) f nd))"
proof (rule move_obind)
  have "runs_move dc nd (nd\<lparr>nd_ticks := Suc (nd_ticks nd)\<rparr>)"
    by (simp add: runs_move_def log_moves_def runs_ok_def clock_ok_def)
  then show "runs_move dc nd (snd (authorize_step h s plan receipt nd))"
    using authorize_ticks by (metis prod.collapse runs.R_refl)
qed (use authorize_ticks sees_tick assms in blast)

lemma resume_step_same: "snd (resume_committed_step h s plan nd) = nd"
  by (auto simp: resume_committed_step_def step_required_def obind_def oread_def oret_def ofail_def Let_def
      split: sum.split option.split)

lemma plan_commit_moves:
  assumes "others_fair dc h i" "domain_codec_ok dc" "sees dc nd i s" "require_running s = Inr ()"
    "st_committed_step_count s = st_checkpointed_step_count s" "pl_step_index plan = st_committed_step_count s"
  shows "runs_move dc nd (snd (append_or_conflict h dc actor (step_events s plan call receipt) nd))"
proof (rule append_moves_seen [OF assms(1,2)])
  assume ok: "runs_ok dc nd"
  have running: "is_running (st_status s)"
    using assms(4) by (simp add: require_running_def split: if_splits)
  have i: "st_run_id s = i"
    by (rule sees_id [OF assms(3) ok])
  show "good_here nd i (step_events s plan call receipt)"
    unfolding step_events_def
    by (rule seen_here [OF assms(3) ok], erule (2) step_good)
       (use running assms(5,6) i in \<open>auto split: option.split\<close>)
qed (simp add: step_events_def)

lemma budget_pause_moves:
  assumes "others_fair dc h i" "domain_codec_ok dc" "sees dc nd i s" "require_running s = Inr ()"
    "st_committed_step_count s = st_checkpointed_step_count s"
  shows "runs_move dc nd (snd (append_or_conflict h dc actor [budget_pause_event s exceeded] nd))"
proof (rule append_moves_seen [OF assms(1,2)])
  assume ok: "runs_ok dc nd"
  have "is_running (st_status s)"
    using assms(4) by (simp add: require_running_def split: if_splits)
  then have live: "\<not> run_is_terminal (st_status s)"
    by (auto simp: is_running_def)
  have i: "st_run_id s = i"
    by (rule sees_id [OF assms(3) ok])
  show "good_here nd i [budget_pause_event s exceeded]"
    unfolding budget_pause_event_def i
    by (rule seen_here [OF assms(3) ok], erule (2) pause_good) (use live assms(5) in simp_all)
qed simp

lemma commit_step_moves:
  assumes "others_fair dc h i" "domain_codec_ok dc" "sees dc nd i s" "require_running s = Inr ()"
    "st_committed_step_count s = st_checkpointed_step_count s" "pl_step_index plan = st_committed_step_count s"
  shows "runs_move dc nd (snd (commit_step h dc s plan receipt nd))"
  using plan_commit_moves [OF assms(1,2) _ assms(4-6)] budget_pause_moves [OF assms(1-5)] assms(3)
  by (auto simp: commit_step_def split: sum.split intro!: move_obind move_ends move_authorize)

lemma prepare_once_moves:
  assumes "others_fair dc h i" "domain_codec_ok dc"
  shows "oinv (runs_move dc) (prepare_once h dc i plan receipt)"
  unfolding oinv_def prepare_once_def
proof (rule allI, rule move_state, rule move_oread)
  fix nd s u
  assume s: "sees dc nd i s" and "validate_run_counts s = Inr u"
  then have counts: "st_committed_step_count s = st_checkpointed_step_count s"
    if "\<not> st_committed_step_count s > st_checkpointed_step_count s"
    using that by (auto simp: validate_run_counts_def split: if_splits)
  have "runs_move dc nd (snd (apply_control h dc i s control nd))" if "st_pending_control s = Some control" for control
    using settle_once_moves [OF assms s that] by (auto simp: apply_control_def intro!: move_obind move_state move_ends)
  moreover have "runs_move dc nd (snd (plan_step h dc s plan receipt nd))"
    using commit_step_moves [OF assms s] counts resume_step_same [of h s plan nd]
    by (auto simp: plan_step_def runs.R_refl intro!: move_oread move_ends move_obind)
  ultimately show "runs_move dc nd (snd ((if st_pending_control s \<noteq> None \<and>
      st_committed_step_count s = st_checkpointed_step_count s
      then apply_control h dc i s (the (st_pending_control s)) else plan_step h dc s plan receipt) nd))"
    by auto
qed

lemma prepare_moves:
  assumes "others_fair dc h i" "domain_codec_ok dc"
  shows "oinv (runs_move dc) (prepare_step h dc i plan receipt)"
  unfolding prepare_step_def
  by (intro runs.oinv_steps move_retried prepare_once_moves [OF assms])

text \<open>Recording an effect.\<close>

lemma effect_append_moves:
  assumes "others_fair dc h (at_run_id call)" "domain_codec_ok dc" "sees dc nd (at_run_id call) s"
    "runs_ok dc nd \<Longrightarrow> \<exists>q. step_rows (nd_log nd) (step_key (at_run_id call) (uint (at_step_index call))) = Some q \<and>
       step_sees q step"
    "ss_effect step = None"
  shows "runs_move dc nd (snd (append_or_conflict h dc actor (effect_events call report s step) nd))"
proof (rule append_moves_seen [OF assms(1,2)])
  assume ok: "runs_ok dc nd"
  obtain r q where "run_rows (nd_log nd) (run_key (at_run_id call)) = Some r"
      "step_rows (nd_log nd) (step_key (at_run_id call) (uint (at_step_index call))) = Some q"
      "q ''effect_recorded_seq'' = CNull"
    using assms(3,4) ok assms(5) by (auto simp: sees_def step_sees_def)
  then show "good_here nd (at_run_id call) (effect_events call report s step)"
    unfolding good_here_def by (auto intro: effect_good)
qed (simp add: effect_events_def)

lemma record_once_moves:
  assumes "others_fair dc h (at_run_id call)" "domain_codec_ok dc"
  shows "oinv (runs_move dc) (record_once h dc call report)"
  unfolding oinv_def record_once_def
proof (rule allI, rule move_state, rule move_step, rule move_oread)
  fix nd s step u
  assume s: "sees dc nd (at_run_id call) s"
    and q: "runs_ok dc nd \<Longrightarrow> \<exists>q. step_rows (nd_log nd) (step_key (at_run_id call) (uint (at_step_index call))) = Some q \<and>
       step_sees q step"
  have "oinv (runs_move dc) (settle_after_checkpoint h dc (at_run_id call))"
    by (rule settle_moves [OF assms])
  then show "runs_move dc nd (snd ((case ss_checkpoint step of
       Some checkpoint \<Rightarrow>
         obind (oread (\<lambda>_. validate_existing_effect call report step)) (\<lambda>_. oret (Some checkpoint))
     | None \<Rightarrow>
         if ss_effect step \<noteq> None
         then ofail (InvalidRunState (at_run_id call) ''effect receipt exists without its atomic checkpoint'')
         else
         obind (append_or_conflict h dc (Agent (at_run_id call)) (effect_events call report s step)) (\<lambda>appended.
         if \<not> appended then oret None
         else obind (step_required (at_run_id call) (at_step_index call)) (\<lambda>after.
              obind (oread (\<lambda>_. ok_or (InvalidRunState (at_run_id call)
                                  ''effect batch committed without a checkpoint projection'') (ss_checkpoint after))) (\<lambda>checkpoint.
              obind (settle_after_checkpoint h dc (at_run_id call)) (\<lambda>_. oret (Some checkpoint)))))) nd))"
    using effect_append_moves [OF assms s q]
    by (auto simp: oinv_def split: option.split intro!: move_obind move_ends move_oread move_step)
qed

lemma record_moves:
  assumes "others_fair dc h (at_run_id call)" "domain_codec_ok dc"
  shows "oinv (runs_move dc) (record_effect h dc call report)"
  unfolding record_effect_def
  by (intro runs.oinv_steps move_retried record_once_moves [OF assms])

section \<open>The harness as a state machine\<close>

text \<open>
  One call of the harness on a node, by whatever handle: the tools and runtimes it was built with and
  what the others do meanwhile may differ from call to call.
\<close>

inductive harness_step :: "'b domain_codec \<Rightarrow> 'b node \<Rightarrow> 'b node \<Rightarrow> bool" for dc :: "'b domain_codec" where
  StartRun: "others_fair dc h (sp_run_id spec) \<Longrightarrow> harness_step dc nd (snd (start_run h dc spec actor nd))"
| PrepareStep: "others_fair dc h i \<Longrightarrow> harness_step dc nd (snd (prepare_step h dc i plan receipt nd))"
| RecordEffect: "others_fair dc h (at_run_id call) \<Longrightarrow> harness_step dc nd (snd (record_effect h dc call report nd))"
| RequestControl: "others_fair dc h i \<Longrightarrow> harness_step dc nd (snd (request_control h dc i reason actor control nd))"
| ResumeRun: "others_fair dc h i \<Longrightarrow> harness_step dc nd (snd (resume_run h dc i actor nd))"
| FinishRun: "others_fair dc h i \<Longrightarrow> harness_step dc nd (snd (finish_run h dc i outcome actor nd))"
| RaiseTaint: "others_fair dc h i \<Longrightarrow> harness_step dc nd (snd (raise_taint h dc i source nd))"
| AskQuestion: "others_fair dc h i \<Longrightarrow> harness_step dc nd (snd (ask_question h dc i question_id prompt nd))"
| AnswerQuestion: "others_fair dc h i \<Longrightarrow>
    harness_step dc nd (snd (answer_question h dc i question_id answered_by answer nd))"

lemma harness_step_moves:
  assumes "harness_step dc nd nd'" "domain_codec_ok dc"
  shows "runs_move dc nd nd'"
  using assms
proof (induction rule: harness_step.induct)
  case (StartRun h spec nd actor)
  then show ?case using start_moves unfolding oinv_def by blast
next
  case (PrepareStep h i nd plan receipt)
  then show ?case using prepare_moves unfolding oinv_def by blast
next
  case (RecordEffect h call nd report)
  then show ?case using record_moves unfolding oinv_def by blast
next
  case (RequestControl h i nd reason actor control)
  then show ?case using request_control_moves unfolding oinv_def by blast
next
  case (ResumeRun h i nd actor)
  then show ?case using resume_moves unfolding oinv_def by blast
next
  case (FinishRun h i nd outcome actor)
  then show ?case using finish_moves unfolding oinv_def by blast
next
  case (RaiseTaint h i nd source)
  then show ?case using taint_moves unfolding oinv_def by blast
next
  case (AskQuestion h i nd question_id prompt)
  then show ?case using ask_moves unfolding oinv_def by blast
next
  case (AnswerQuestion h i nd question_id answered_by answer)
  then show ?case using answer_moves unfolding oinv_def by blast
qed

lemma harness_steps_move:
  assumes "(harness_step dc)\<^sup>*\<^sup>* nd nd'" "domain_codec_ok dc"
  shows "runs_move dc nd nd'"
  using assms
proof (induction rule: rtranclp_induct)
  case (step nd' nd'')
  then show ?case using harness_step_moves runs.R_trans by blast
qed (rule runs.R_refl)

end
