(* ===== verification/Run_Live.thy ===== *)
theory Run_Live
  imports Harness_Machine Sample_Node
begin

text \<open>
  Run events on a node that can take them: a well-typed write whose effect on the map of rows is
  defined always executes, so an append of a Run event succeeds when the rows it needs are there.
\<close>

section \<open>Writes that must succeed\<close>

lemma typed_write_runs:
  assumes ok: "write_ok tb w" and m: "write_map tb w (map_of t) = Some m"
  shows "\<exists>t'. execute_write tb w t = Inr t' \<and> map_of t' = m"
proof -
  have arity: "\<And>k. key_ok (key_columns tb) k \<Longrightarrow>
      require_arity tb ''key'' (length k) (length (key_columns tb)) = Inr ()"
    by (simp add: res_simps key_ok_length)
  have vals: "\<And>vs. values_ok (value_columns tb) vs \<Longrightarrow>
      require_arity tb ''values'' (length vs) (length (value_columns tb)) = Inr ()"
    by (auto simp: res_simps values_ok_def dest: list_all2_lengthD)
  have cols: "\<And>as :: assignments. list_all (assignment_ok (value_columns tb)) as \<Longrightarrow>
      require_value_columns tb (map fst as) = Inr ()"
    using assignments_declared by (force simp: res_simps)
  have ctrs: "\<And>ds. list_all (\<lambda>(c, d). counter_ok (value_columns tb) c \<and> in_i64 d) ds \<Longrightarrow>
      require_value_columns tb (map fst ds) = Inr ()"
    using counters_declared by (force simp: res_simps)
  have gcol: "\<And>c. c \<in> col_name ` set (value_columns tb) \<Longrightarrow> require_value_column tb c = Inr ()"
    by (simp add: require_value_column_def)
  then have ctr: "\<And>c. counter_ok (value_columns tb) c \<Longrightarrow> require_value_column tb c = Inr ()"
    using counter_declared by blast
  have "\<exists>t'. execute_write tb w t = Inr t'"
    using ok m key_ok_not_null
    by (cases w)
       (auto simp: arity vals cols ctrs ctr gcol require_assignments_def update_one_def require_one_changed_def
          sql_insert_def sql_upsert_def sql_update_def Let_def split: option.splits if_splits)
  then obtain t' where t': "execute_write tb w t = Inr t'" by blast
  with execute_write_map [OF t'] m show ?thesis by auto
qed

lemma typed_writes_run:
  "writes_ok tb ws \<Longrightarrow> writes_map tb ws (map_of t) = Some m \<Longrightarrow> \<exists>t'. rfold (execute_write tb) ws t = Inr t' \<and> map_of t' = m"
proof (induction ws arbitrary: t)
  case (Cons w ws)
  obtain m1 where m1: "write_map tb w (map_of t) = Some m1" "writes_map tb ws m1 = Some m"
    using Cons.prems(2) by (auto split: bind_splits)
  obtain t1 where t1: "execute_write tb w t = Inr t1" "map_of t1 = m1"
    using typed_write_runs [OF _ m1(1)] Cons.prems(1) by auto
  with Cons.IH [of t1] m1(2) Cons.prems(1) show ?case by simp
qed simp

section \<open>Events that must apply\<close>

text \<open>The rows of a table in a set of tables.\<close>

definition rows_in :: "tables \<Rightarrow> string \<Rightarrow> row_map" where
  "rows_in ts name = (case ts name of None \<Rightarrow> Map.empty | Some t \<Rightarrow> map_of t)"

lemma rows_of_in: "rows_of l name = rows_in (log_tables l) name"
  by (simp add: rows_of_def rows_in_def)

text \<open>A Run event applies to the core tables when its writes are defined on the three run tables.\<close>

lemma run_event_applies:
  fixes ev :: "'b event"
  assumes "tables_wf (core_registry dc) ts" "domain_codec_ok dc" "ev_kind ev = domain_kind_tag e"
    "ev_body ev = encode_body dc e" "domain_kind_tag e \<in> set runs_kinds \<union> {''RunArtifactRecorded''}"
    "writes_map RUNS_TABLE (runs_writes ev e) (rows_in ts ''proj_runs'') = Some R"
    "writes_map RUN_STEPS_TABLE (run_steps_writes ev e) (rows_in ts ''proj_run_steps'') = Some S"
    "writes_map RUN_TOOL_GRANTS_TABLE (run_tool_grants_writes ev e) (rows_in ts ''proj_run_tool_grants'') = Some G"
  shows "\<exists>ts'. apply_to_tables (core_registry dc) ev ts = Inr ts' \<and> tables_wf (core_registry dc) ts' \<and>
    rows_in ts' ''proj_runs'' = R \<and> rows_in ts' ''proj_run_steps'' = S \<and> rows_in ts' ''proj_run_tool_grants'' = G"
proof -
  let ?p = "runs_projection dc" and ?q = "run_steps_projection dc" and ?g = "run_grants_projection dc"
  note enc = apply_kinds_encoded [OF assms(2-4)]
  have nil: "domain_kind_tag e \<noteq> ''RunStarted'' \<Longrightarrow> run_tool_grants_writes ev e = []"
    by (cases e; simp add: run_tool_grants_writes_def)
  have none: "apply_audit dc ev = Inr []" "apply_crons dc ev = Inr []" "apply_jobs dc ev = Inr []"
      "apply_model_calls dc ev = Inr []" "apply_projects dc ev = Inr []"
    using assms(5) by (auto simp: core_applies enc job_kinds_def runs_kinds_def)
  have some: "pr_apply ?p ev = Inr (runs_writes ev e)" "pr_apply ?q ev = Inr (run_steps_writes ev e)"
      "pr_apply ?g ev = Inr (run_tool_grants_writes ev e)"
    using nil run_writes_nil [of e ev]
    by (auto simp: core_applies enc runs_projection_def run_steps_projection_def run_grants_projection_def)
  have reg: "{?p, ?q, ?g} \<subseteq> set (core_registry dc)"
    by (simp add: core_registry_def runs_projection_def run_steps_projection_def run_grants_projection_def)
  have tabs: "\<exists>t. ts (tbl_name (pr_table q)) = Some t" if "q \<in> set (core_registry dc)" for q
    using assms(1) that by (auto simp: tables_wf_def)
  have run: "\<exists>t'. rfold (execute_write (pr_table q)) ws t = Inr t' \<and> map_of t' = m"
    if "pr_apply q ev = Inr ws" "q \<in> {?p, ?q, ?g}" "writes_map (pr_table q) ws (rows_in ts (tbl_name (pr_table q))) = Some m"
      "ts (tbl_name (pr_table q)) = Some t" for q ws m t
  proof -
    have "writes_ok (pr_table q) ws"
      using that(1,2) some core_writes_ok
      by (auto simp: runs_projection_def run_steps_projection_def run_grants_projection_def)
    then show ?thesis using typed_writes_run that(3,4) by (simp add: rows_in_def)
  qed
  have maps: "writes_map (pr_table ?p) (runs_writes ev e) (rows_in ts (tbl_name (pr_table ?p))) = Some R"
      "writes_map (pr_table ?q) (run_steps_writes ev e) (rows_in ts (tbl_name (pr_table ?q))) = Some S"
      "writes_map (pr_table ?g) (run_tool_grants_writes ev e) (rows_in ts (tbl_name (pr_table ?g))) = Some G"
    using assms(6-8) by (simp_all add: runs_projection_def run_steps_projection_def run_grants_projection_def)
  have "\<exists>ts'. apply_to_tables (core_registry dc) ev ts = Inr ts'"
  proof (rule apply_all_runs [OF core_registry_distinct], rule ballI)
    fix q
    assume q: "q \<in> set (core_registry dc)"
    then obtain t where t: "ts (tbl_name (pr_table q)) = Some t" using tabs by blast
    have "pr_apply q ev = Inr [] \<or> q \<in> {?p, ?q, ?g}"
      using q unfolding core_registry_def runs_projection_def run_steps_projection_def run_grants_projection_def
      by (auto simp: none)
    then show "\<exists>ws t t'. pr_apply q ev = Inr ws \<and> ts (tbl_name (pr_table q)) = Some t \<and>
        rfold (execute_write (pr_table q)) ws t = Inr t'"
      using run [OF some(1) _ maps(1)] run [OF some(2) _ maps(2)] run [OF some(3) _ maps(3)] some t by auto
  qed
  then obtain ts' where ts': "apply_to_tables (core_registry dc) ev ts = Inr ts'" by blast
  have "rows_in ts' (tbl_name (pr_table q)) = m"
    if own: "pr_apply q ev = Inr ws" "q \<in> {?p, ?q, ?g}" "writes_map (pr_table q) ws (rows_in ts (tbl_name (pr_table q))) = Some m"
    for q ws m
  proof -
    have q: "q \<in> set (core_registry dc)" using own(2) reg by blast
    then obtain t where t: "ts (tbl_name (pr_table q)) = Some t" using tabs by blast
    obtain t' where "rfold (execute_write (pr_table q)) ws t = Inr t'" "ts' (tbl_name (pr_table q)) = Some t'"
      using apply_own_table [OF ts' q core_registry_distinct t] own(1) by auto
    with run [OF own t] show ?thesis by (auto simp: rows_in_def)
  qed
  from this [OF some(1) _ maps(1)] this [OF some(2) _ maps(2)] this [OF some(3) _ maps(3)]
  have "rows_in ts' ''proj_runs'' = R" "rows_in ts' ''proj_run_steps'' = S" "rows_in ts' ''proj_run_tool_grants'' = G"
    by (simp_all add: runs_projection_def run_steps_projection_def run_grants_projection_def)
  with ts' apply_to_tables_wf [OF ts' assms(1) core_registry_distinct] show ?thesis by blast
qed

section \<open>A batch that applies is stored\<close>

fun batch_applies :: "'b registry \<Rightarrow> u64 \<Rightarrow> 'b append_request list \<Rightarrow> tables \<Rightarrow> bool" where
  "batch_applies reg ts [] tabs \<longleftrightarrow> True"
| "batch_applies reg ts (r # rs) tabs \<longleftrightarrow>
     (\<forall>s l. \<exists>tabs'. apply_to_tables reg (event_of s l ts r) tabs = Inr tabs' \<and> batch_applies reg ts rs tabs')"

definition batch_room :: "u64 \<Rightarrow> nat \<Rightarrow> nat \<Rightarrow> bool" where
  "batch_room cadence n k \<longleftrightarrow> int (n + k) \<le> i64_max \<and> (\<forall>j. n < j \<and> j \<le> n + k \<longrightarrow> \<not> is_multiple_of (word_of_nat j) cadence)"

lemma append_one_applies:
  assumes "log_inv x reg db" "batch_room cadence (length (events db)) (Suc k)"
    "\<And>s l. \<exists>tabs'. apply_to_tables reg (event_of s l ts request) (main_tables db) = Inr tabs' \<and> P tabs'"
  shows "\<exists>h' seqs' db'. append_one x reg cadence None ts request (read_head db, seqs, db) = Inr (h', seqs', db') \<and>
    P (main_tables db')"
proof -
  let ?n = "length (events db)" and ?s = "seq_next (read_head db)"
  obtain evs where core: "log_core x evs db" and head: "read_head db = word_of_nat ?n"
    using assms(1) log_core_head by (fastforce simp: log_inv_def)
  obtain lam db1 where l: "next_device_lamport (ar_device request) db = (lam, db1)"
    by fastforce
  have db1: "events db1 = events db" "main_tables db1 = main_tables db"
    using l by (auto simp: next_device_lamport_def Let_def)
  have "?n < Suc ?n \<and> Suc ?n \<le> ?n + Suc k" by simp
  with assms(2) have n: "int (Suc ?n) \<le> i64_max" "\<not> is_multiple_of (word_of_nat (Suc ?n)) cadence"
    unfolding batch_room_def by (linarith, blast)
  have "unat (word_of_nat ?n :: u64) = ?n"
    using n(1) by (intro unat_word_of_nat_i64) simp
  then have s: "?s = word_of_nat (Suc ?n)"
    using n(1) by (simp add: head seq_next_def saturating_add_def i64_max_def)
  have "sat_i64 ?s = int (Suc ?n)"
    using sat_i64_of_nat [OF n(1)] s by simp
  moreover have "map_of (events db) (int (Suc ?n)) = None"
    using core contiguous_keys_le [of "events db" "int (Suc ?n)"]
    by (auto simp: log_core_def map_of_eq_None_iff)
  ultimately obtain db2 where ins: "insert_event x ?s lam ts request db1 = Inr db2"
      and db2: "main_tables db2 = main_tables db"
    using db1 by (simp add: insert_event_def)
  obtain tabs' where tb: "apply_to_tables reg (event_of ?s lam ts request) (main_tables db2) = Inr tabs'" "P tabs'"
    using assms(3) db2 by metis
  have "append_one x reg cadence None ts request (read_head db, seqs, db) =
      Inr (?s, seqs @ [?s], write_applied_seq ?s (db2\<lparr>main_tables := tabs'\<rparr>))"
    using l ins tb(1) n(2) s
    by (simp add: append_one_def apply_event_def apply_event_to_schema_def event_of_def Let_def)
  with tb(2) show ?thesis by simp
qed

lemma append_loop_runs:
  assumes "log_inv x reg db" "codec_ok x" "requests_ok requests" "uint ts \<le> i64_max"
    "batch_room cadence (length (events db)) (length requests)" "batch_applies reg ts requests (main_tables db)"
  shows "\<exists>r. rfold (append_one x reg cadence None ts) requests (read_head db, seqs, db) = Inr r"
  using assms(1,3,5,6)
proof (induction requests arbitrary: db seqs)
  case (Cons request requests)
  obtain h1 seqs1 db1 where one: "append_one x reg cadence None ts request (read_head db, seqs, db) = Inr (h1, seqs1, db1)"
      "batch_applies reg ts requests (main_tables db1)"
    using append_one_applies [OF Cons.prems(1), of cadence "length requests" ts request "batch_applies reg ts requests" seqs]
      Cons.prems(3,4) by auto
  have "valid_kind_tag (ar_kind request)" "requests_ok requests"
    using Cons.prems(2) by (simp_all add: requests_ok_def)
  note inv = append_one_inv [OF Cons.prems(1) assms(2) this(1) assms(4) one(1)]
  have "batch_room cadence (length (events db1)) (length requests)"
    using Cons.prems(3) inv by (simp add: batch_room_def)
  with Cons.IH [of db1 seqs1] inv one \<open>requests_ok requests\<close> show ?case by auto
qed simp

lemma batch_runs:
  assumes "log_sound (nd_log nd)" "store_ready (nd_store nd)" "clock_ok nd" "requests_ok requests" "requests \<noteq> []"
    "validate_requests (pl_externals (nd_log nd)) requests = Inr ()"
    "batch_room (snapshot_cadence_events (pl_config (nd_log nd))) (length (log_events (nd_log nd))) (length requests)"
    "batch_applies (pl_registry (nd_log nd)) (nd_clock nd (nd_ticks nd)) requests (log_tables (nd_log nd))"
  shows "\<exists>seqs nd'. log_append_inner (Some (read_head (db_content (nd_store nd)))) requests nd = (Inr seqs, nd') \<and>
    store_ready (nd_store nd')"
proof -
  let ?l = "nd_log nd" and ?ts = "nd_clock nd (nd_ticks nd)" and ?db = "db_content (nd_store nd)"
  have inv: "log_inv (pl_externals ?l) (pl_registry ?l) ?db" "codec_ok (pl_externals ?l)"
    using assms(1) by (simp_all add: log_sound_def nd_store_def)
  obtain h seqs db' where "rfold (append_one (pl_externals ?l) (pl_registry ?l) (snapshot_cadence_events (pl_config ?l)) None ?ts)
      requests (read_head ?db, [], ?db) = Inr (h, seqs, db')"
    using append_loop_runs [OF inv assms(4), of ?ts "snapshot_cadence_events (pl_config ?l)" "[]"] assms(3,7,8)
    by (auto simp: clock_ok_def log_events_def log_tables_def nd_store_def)
  then have tx: "append_transaction (pl_externals ?l) (pl_registry ?l) (pl_config ?l) None ?ts
      (Some (read_head ?db)) requests ?db = Inr (seqs, db')"
    using log_inv_head [OF inv(1)] by (simp add: append_transaction_def Let_def)
  have "write_transaction StoreError log_panicked (append_transaction (pl_externals ?l) (pl_registry ?l) (pl_config ?l)
      (db_faults (nd_store nd)) ?ts (Some (read_head ?db)) requests) (nd_store nd) = (Inr seqs, (nd_store nd)\<lparr>db_content := db'\<rparr>)"
    using assms(2) tx by (intro write_transaction_runs) (simp_all add: store_ready_def)
  then show ?thesis
    using assms(2,5,6)
    by (auto simp: log_append_inner_def append_batch_inner_def set_store_def nd_store_def store_ready_def Let_def
        simp del: validate_requests.simps)
qed

section \<open>Run events in turn\<close>

fun facts_run :: "domain_event list \<Rightarrow> row_map \<Rightarrow> row_map \<Rightarrow> row_map \<Rightarrow> 'b itself \<Rightarrow> bool" where
  "facts_run [] R S G ty \<longleftrightarrow> True"
| "facts_run (e # es) R S G ty \<longleftrightarrow>
     (\<forall>ev :: 'b event. \<exists>R' S' G'. writes_map RUNS_TABLE (runs_writes ev e) R = Some R' \<and>
        writes_map RUN_STEPS_TABLE (run_steps_writes ev e) S = Some S' \<and>
        writes_map RUN_TOOL_GRANTS_TABLE (run_tool_grants_writes ev e) G = Some G' \<and> facts_run es R' S' G' ty)"

abbreviation domain_request :: "'b domain_codec \<Rightarrow> id16 \<Rightarrow> actor \<Rightarrow> domain_event \<Rightarrow> 'b append_request" where
  "domain_request dc device actor e \<equiv>
     \<lparr>ar_device = device, ar_actor = actor, ar_kind = domain_kind_tag e, ar_body = encode_body dc e, ar_refs = domain_refs e\<rparr>"

lemma facts_apply:
  assumes "facts_run es (rows_in tabs ''proj_runs'') (rows_in tabs ''proj_run_steps'') (rows_in tabs ''proj_run_tool_grants'') TYPE('b)"
    "tables_wf (core_registry dc) tabs" "domain_codec_ok (dc :: 'b domain_codec)"
    "\<forall>e \<in> set es. domain_kind_tag e \<in> set runs_kinds \<union> {''RunArtifactRecorded''}"
  shows "batch_applies (core_registry dc) ts (map (domain_request dc device actor) es) tabs"
  using assms(1,2,4)
proof (induction es arbitrary: tabs)
  case (Cons e es)
  show ?case
  proof (simp only: list.map batch_applies.simps, intro allI)
    fix s l
    let ?ev = "event_of s l ts (domain_request dc device actor e) :: 'b event"
    obtain R S G where m: "writes_map RUNS_TABLE (runs_writes ?ev e) (rows_in tabs ''proj_runs'') = Some R"
        "writes_map RUN_STEPS_TABLE (run_steps_writes ?ev e) (rows_in tabs ''proj_run_steps'') = Some S"
        "writes_map RUN_TOOL_GRANTS_TABLE (run_tool_grants_writes ?ev e) (rows_in tabs ''proj_run_tool_grants'') = Some G"
        "facts_run es R S G TYPE('b)"
      using Cons.prems(1) by (simp only: facts_run.simps) blast
    obtain tabs' where "apply_to_tables (core_registry dc) ?ev tabs = Inr tabs'" "tables_wf (core_registry dc) tabs'"
        "rows_in tabs' ''proj_runs'' = R" "rows_in tabs' ''proj_run_steps'' = S" "rows_in tabs' ''proj_run_tool_grants'' = G"
      using run_event_applies [OF Cons.prems(2) assms(3) _ _ _ m(1-3)] Cons.prems(3) by (auto simp: event_of_def)
    with Cons.IH [of tabs'] m(4) Cons.prems(3)
    show "\<exists>tabs'. apply_to_tables (core_registry dc) ?ev tabs = Inr tabs' \<and>
        batch_applies (core_registry dc) ts (map (domain_request dc device actor) es) tabs'"
      by auto
  qed
qed simp

text \<open>A healthy node with room: what a quiet handle needs to append a batch.\<close>

definition batch_ready :: "'b domain_codec \<Rightarrow> 'b node \<Rightarrow> nat \<Rightarrow> bool" where
  "batch_ready dc nd k \<longleftrightarrow> log_sound (nd_log nd) \<and> store_ready (nd_store nd) \<and> clock_ok nd \<and> domain_codec_ok dc \<and>
     pl_registry (nd_log nd) = core_registry dc \<and>
     batch_room (snapshot_cadence_events (pl_config (nd_log nd))) (length (log_events (nd_log nd))) k"

lemma into_request_runs: "into_request dc e device actor = Inr (domain_request dc device actor e)"
  using domain_kind_tag_valid [of e] by (simp add: into_request_def kind_tag_new_def)

lemma collect_requests:
  "rcollect (\<lambda>e. into_request dc e device actor) es = Inr (map (domain_request dc device actor) es)"
  by (induction es) (simp_all add: into_request_runs)


section \<open>Handles nobody interferes with\<close>

definition quiet :: "'b harness \<Rightarrow> bool" where
  "quiet h \<longleftrightarrow> h_before_head h = (\<lambda>nd. nd) \<and> h_before_append h = (\<lambda>nd. nd)"

lemma quiet_fair: "quiet h \<Longrightarrow> others_fair dc h i"
  by (simp add: quiet_def others_fair_def run_apart_def runs.R_refl)

lemma stored_rows:
  fixes nd :: "'b node"
  assumes "log_append_inner expected (map (domain_request dc device actor) es) nd = (Inr seqs, nd')" "es \<noteq> []"
    "log_sound (nd_log nd)" "pl_registry (nd_log nd) = core_registry dc" "domain_codec_ok dc"
  obtains evs :: "'b event list" where "length evs = length es"
    "facts_map RUNS_TABLE runs_writes (zip evs es) (run_rows (nd_log nd)) = Some (run_rows (nd_log nd'))"
    "facts_map RUN_STEPS_TABLE run_steps_writes (zip evs es) (step_rows (nd_log nd)) = Some (step_rows (nd_log nd'))"
    "facts_map RUN_TOOL_GRANTS_TABLE run_tool_grants_writes (zip evs es) (rows_of (nd_log nd) ''proj_run_tool_grants'') =
       Some (rows_of (nd_log nd') ''proj_run_tool_grants'')"
proof -
  obtain evs where l: "length evs = length es" and f: "\<And>p kinds writes. p \<in> set (pl_registry (nd_log nd)) \<Longrightarrow>
       pr_apply p = apply_kinds dc (pr_table p) kinds writes \<Longrightarrow>
       \<forall>ev e. domain_kind_tag e \<notin> set kinds \<longrightarrow> writes ev e = [] \<Longrightarrow>
       facts_map (pr_table p) writes (zip evs es) (rows_of (nd_log nd) (tbl_name (pr_table p))) =
       Some (rows_of (nd_log nd') (tbl_name (pr_table p)))"
    using facts_stored [OF assms(1,3,2) collect_requests assms(5)] by auto
  have nil: "\<forall>(ev :: 'b event) e. domain_kind_tag e \<notin> set runs_kinds \<longrightarrow> runs_writes ev e = []"
      "\<forall>(ev :: 'b event) e. domain_kind_tag e \<notin> set [''RunStepCommitted'', ''RunToolEffectRecorded'',
        ''RunCheckpointSaved'', ''RunArtifactRecorded'', ''RunValidationRecorded''] \<longrightarrow> run_steps_writes ev e = []"
      "\<forall>(ev :: 'b event) e. domain_kind_tag e \<notin> set [''RunStarted''] \<longrightarrow> run_tool_grants_writes ev e = []"
    by (simp_all add: run_writes_nil, simp add: run_tool_grants_writes_def split: domain_event.split)
  have reg: "runs_projection dc \<in> set (pl_registry (nd_log nd))" "run_steps_projection dc \<in> set (pl_registry (nd_log nd))"
      "run_grants_projection dc \<in> set (pl_registry (nd_log nd))"
    by (simp_all add: assms(4) core_registry_def runs_projection_def run_steps_projection_def run_grants_projection_def)
  show thesis
    using f [OF reg(1) _ nil(1)] f [OF reg(2) _ nil(2)] f [OF reg(3) _ nil(3)] that [of evs] l
    by (simp add: runs_projection_def run_steps_projection_def run_grants_projection_def apply_runs_def
        apply_run_steps_def apply_run_tool_grants_def run_rows_def step_rows_def)
qed

text \<open>
  A batch whose writes are defined is stored by a quiet handle on a healthy node, and leaves the node
  healthy with that many events more.
\<close>

lemma quiet_batch_runs:
  fixes nd :: "'b node"
  assumes "batch_ready dc nd (length es)" "quiet h" "es \<noteq> []" "\<forall>e \<in> set es. body_fits dc nd e"
    "\<forall>e \<in> set es. domain_kind_tag e \<in> set runs_kinds \<union> {''RunArtifactRecorded''}"
    "facts_run es (run_rows (nd_log nd)) (step_rows (nd_log nd)) (rows_of (nd_log nd) ''proj_run_tool_grants'') TYPE('b)"
  obtains seqs nd' and evs :: "'b event list" where "append_at_current_head h dc actor es nd = (Inr seqs, nd')"
    "store_ready (nd_store nd')" "log_moves nd nd'" "log_sound (nd_log nd')"
    "length (log_events (nd_log nd')) = length (log_events (nd_log nd)) + length es" "length evs = length es"
    "facts_map RUNS_TABLE runs_writes (zip evs es) (run_rows (nd_log nd)) = Some (run_rows (nd_log nd'))"
    "facts_map RUN_STEPS_TABLE run_steps_writes (zip evs es) (step_rows (nd_log nd)) = Some (step_rows (nd_log nd'))"
    "facts_map RUN_TOOL_GRANTS_TABLE run_tool_grants_writes (zip evs es) (rows_of (nd_log nd) ''proj_run_tool_grants'') =
       Some (rows_of (nd_log nd') ''proj_run_tool_grants'')"
proof -
  let ?head = "read_head (db_content (nd_store nd))" and ?rs = "map (domain_request dc (h_device h) actor) es"
  have n: "log_sound (nd_log nd)" "store_ready (nd_store nd)" "clock_ok nd" "pl_registry (nd_log nd) = core_registry dc"
      "domain_codec_ok dc" "batch_room (snapshot_cadence_events (pl_config (nd_log nd))) (length (log_events (nd_log nd))) (length ?rs)"
    using assms(1) by (simp_all add: batch_ready_def)
  have v: "validate_requests (pl_externals (nd_log nd)) ?rs = Inr ()"
    using assms(4) by (induction es) (simp_all add: validate_request_def body_fits_def)
  have "tables_wf (core_registry dc) (log_tables (nd_log nd))"
    using sound_tables_wf [OF n(1)] n(4) by simp
  from facts_apply [OF _ this n(5) assms(5)] assms(6) n(4)
  have ap: "batch_applies (pl_registry (nd_log nd)) (nd_clock nd (nd_ticks nd)) ?rs (log_tables (nd_log nd))"
    by (simp add: run_rows_def step_rows_def rows_of_in)
  have ok: "requests_ok ?rs" "?rs \<noteq> []"
    using assms(3) by (simp_all add: requests_ok_def list_all_iff domain_kind_tag_valid)
  obtain seqs nd' where a: "log_append_inner (Some ?head) ?rs nd = (Inr seqs, nd')" "store_ready (nd_store nd')"
    using batch_runs [OF n(1-3) ok v n(6) ap] by blast
  have m: "log_moves nd nd'"
    using append_moves [OF ok(1), of "Some ?head"] a(1) unfolding oinv_def by (metis snd_conv)
  have "harness_head nd = (Inr ?head, nd)"
    using n(2) by (simp add: harness_head_def oread_def with_reader_def store_ready_def ensure_live_def log_head_def read_head_def)
  then have app: "append_at_current_head h dc actor es nd = (Inr seqs, nd')"
    using append_shape [OF collect_requests [of dc "h_device h" actor es], of nd] a assms(2) by (simp add: quiet_def oerr_def)
  note c = append_inner_counts [OF a(1) n(1,3) ok]
  show thesis
    by (rule stored_rows [OF a(1) assms(3) n(1,4,5)]) (rule that [OF app a(2) m c(2)], use c(1) in simp_all)
qed

end
