(* ===== verification/Sample_Run.thy ===== *)
theory Sample_Run
  imports Run_Live
begin

text \<open>
  A concrete Run on the sample project: a handle on which nobody interferes, one native runtime, one
  read-only tool, a Run that may call it, and the first step of that Run.
\<close>

section \<open>Small healthy logs\<close>

definition small_node :: "body node \<Rightarrow> nat \<Rightarrow> bool" where
  "small_node nd m \<longleftrightarrow> log_sound (nd_log nd) \<and> store_ready (nd_store nd) \<and> clock_ok nd \<and>
     pl_registry (nd_log nd) = core_registry body_codec \<and> pl_config (nd_log nd) = sample_config \<and>
     pl_externals (nd_log nd) = body_externals \<and> length (log_events (nd_log nd)) = m"

lemma small_room:
  assumes "n < 10000"
  shows "\<not> is_multiple_of (word_of_nat (Suc n) :: u64) 10000 \<or> Suc n = 10000"
proof -
  have "unat (word_of_nat (Suc n) :: u64) = Suc n"
    using assms by (intro unat_word_of_nat_i64) (simp add: i64_max_def)
  then have "unat ((word_of_nat (Suc n) :: u64) mod 10000) = Suc n mod 10000"
    by (simp only: unat_mod) simp
  moreover have "(10000 :: u64) \<noteq> 0" by simp
  ultimately show ?thesis
    using assms unfolding is_multiple_of_def by (metis Suc_leI le_neq_implies_less mod_less nat.distinct(1) unat_0)
qed

lemma small_ready:
  assumes "small_node nd m" "m + k < 10000"
  shows "batch_ready body_codec nd k"
proof -
  have "\<not> is_multiple_of (word_of_nat j :: u64) 10000" if "m < j" "j \<le> m + k" for j
    using small_room [of "j - 1"] that assms(2) by auto
  then show ?thesis
    using assms body_codec_ok(1)
    by (simp add: batch_ready_def small_node_def batch_room_def sample_config_def SNAPSHOT_CADENCE_EVENTS_DEFAULT_def i64_max_def)
qed

lemma small_after:
  assumes "small_node nd m" "log_moves nd nd'" "log_sound (nd_log nd')" "store_ready (nd_store nd')"
    "length (log_events (nd_log nd')) = length (log_events (nd_log nd)) + k"
  shows "small_node nd' (m + k)"
  using assms by (simp add: small_node_def log_moves_def clock_ok_def)

lemma small_runs_ok: "small_node nd m \<Longrightarrow> run_inv (run_rows (nd_log nd)) (step_rows (nd_log nd)) \<Longrightarrow> runs_ok body_codec nd"
  by (simp add: small_node_def runs_ok_def run_registry_def core_registry_def runs_projection_def
      run_steps_projection_def run_grants_projection_def)

section \<open>The Run\<close>

definition native_runtime :: runtime_descriptor where
  "native_runtime = RuntimeDescriptorFields ''projectos.native'' Native 1 [Device] AuthNotRequired Healthy
     (RuntimeControlCapabilities True True True True True)"

definition search_tool :: tool_descriptor where
  "search_tool = ToolDescriptorFields ''search'' 1 ReadEvidence PolicyAllow ReadOnly 64"

definition sample_harness :: "body harness" where
  "sample_harness = \<lparr>h_device = 7, h_project_id = 9, h_tools = [(''search'', search_tool)],
     h_runtimes = [(''projectos.native'', native_runtime)], h_before_head = (\<lambda>nd. nd), h_before_append = (\<lambda>nd. nd)\<rparr>"

definition sample_budget :: run_budget where
  "sample_budget = \<lparr>b_tokens = 100, b_usd_micros = 100, b_wall_ms = 100, b_storage_bytes = 100, b_tool_calls = 10,
     b_retries = 10, b_steps = 10\<rparr>"

definition sample_spec :: run_start_spec where
  "sample_spec = RunStartSpecFields 5 Echo ''projectos.native'' Device TriggerUser 0 sample_budget
     [(''search'', GrantAllow)] None None None None False"

definition run_node :: "body node" where
  "run_node = \<lparr>nd_log = body_log, nd_clock = (\<lambda>_. 1000), nd_ticks = 0\<rparr>"

definition started_node :: "body node" where
  "started_node = snd (start_run sample_harness body_codec sample_spec (System 1) run_node)"

lemma sample_quiet: "quiet sample_harness" "h_device sample_harness = 7"
  by (simp_all add: quiet_def sample_harness_def)

lemma run_node_small: "small_node run_node 0"
  using body_node_ready body_store_opened
  by (auto simp: small_node_def run_node_def node_ready_def nd_store_def clock_ok_def i64_max_def log_events_def body_log_def)

lemma run_node_rows:
  "run_rows (nd_log run_node) = Map.empty" "step_rows (nd_log run_node) = Map.empty"
  "rows_of (nd_log run_node) ''proj_run_tool_grants'' = Map.empty"
  using body_tables_empty by (simp_all add: run_node_def run_rows_def step_rows_def rows_of_def core_table_names)

lemma run_node_ok: "runs_ok body_codec run_node"
  by (rule small_runs_ok [OF run_node_small]) (simp add: run_inv_def run_node_rows)

lemma started_ok: "runs_ok body_codec started_node"
proof -
  have "oinv (runs_move body_codec) (start_run sample_harness body_codec sample_spec (System 1))"
    by (rule start_moves [OF quiet_fair [OF sample_quiet(1)] body_codec_ok(1)])
  then have "runs_move body_codec run_node started_node"
    by (simp add: oinv_def started_node_def)
  with run_node_ok show ?thesis by (simp add: runs_move_def)
qed

text \<open>The started event applies to the empty tables.\<close>

definition sample_started :: domain_event where
  "sample_started = started_event sample_harness sample_spec native_runtime 0"

lemma sample_started_eq:
  "sample_started = RunStarted (RunStartedV2 (RunStartedV2Fields 5 9 ''Echo'' (RunRuntimeRefFields Native ''projectos.native'' 1)
     Device TriggerUser 0 sample_budget [RunToolGrantFields ''search'' (mode_to_domain GrantAllow)] None 0 None None None False))"
  "domain_kind_tag sample_started = ''RunStarted''"
  by (simp_all add: sample_started_def started_event_def sample_spec_def sample_harness_def native_runtime_def
      runtime_reference_def domain_grants_def)

abbreviation started_row :: "body event \<Rightarrow> row" where
  "started_row ev \<equiv> row_of (value_columns RUNS_TABLE) (run_values_v2
     (RunStartedV2Fields 5 9 ''Echo'' (RunRuntimeRefFields Native ''projectos.native'' 1)
       Device TriggerUser 0 sample_budget [RunToolGrantFields ''search'' (mode_to_domain GrantAllow)] None 0 None None None False) ev)"

lemma started_rows:
  obtains ev :: "body event" where "small_node started_node 1"
    "run_rows (nd_log started_node) = [run_key 5 \<mapsto> started_row ev]" "step_rows (nd_log started_node) = Map.empty"
    "rows_of (nd_log started_node) ''proj_run_tool_grants'' = [[CBlob (into_bytes 5), CText ''search''] \<mapsto>
       row_of (value_columns RUN_TOOL_GRANTS_TABLE) [Text (grant_mode_as_str (mode_to_domain GrantAllow)), seq_value ev]]"
proof -
  have ready: "batch_ready body_codec run_node (length [sample_started])"
    by (rule small_ready [OF run_node_small]) simp
  have fits: "\<forall>e \<in> set [sample_started]. body_fits body_codec run_node e"
    using run_node_small body_fits_sample [of run_node sample_started]
    by (simp add: small_node_def sample_started_eq opt_ref_def run_refs_def EVENT_REFS_COUNT_MAX_def)
  have kinds: "\<forall>e \<in> set [sample_started]. domain_kind_tag e \<in> set runs_kinds \<union> {''RunArtifactRecorded''}"
    by (simp add: sample_started_eq(2) runs_kinds_def)
  have run: "facts_run [sample_started] (run_rows (nd_log run_node)) (step_rows (nd_log run_node))
      (rows_of (nd_log run_node) ''proj_run_tool_grants'') TYPE(body)"
    by (simp add: run_node_rows sample_started_eq(1) fact_simps run_tool_grants_writes_def)
  have ne: "[sample_started] \<noteq> []" by simp
  obtain s nd' evs where a: "append_at_current_head sample_harness body_codec (System 1) [sample_started] run_node = (Inr s, nd')"
      "store_ready (nd_store nd')" "log_moves run_node nd'" "log_sound (nd_log nd')"
      "length (log_events (nd_log nd')) = length (log_events (nd_log run_node)) + length [sample_started]"
    and evs: "length (evs :: body event list) = length [sample_started]"
    and f: "facts_map RUNS_TABLE runs_writes (zip evs [sample_started]) Map.empty = Some (run_rows (nd_log nd'))"
      "facts_map RUN_STEPS_TABLE run_steps_writes (zip evs [sample_started]) Map.empty = Some (step_rows (nd_log nd'))"
      "facts_map RUN_TOOL_GRANTS_TABLE run_tool_grants_writes (zip evs [sample_started]) Map.empty =
       Some (rows_of (nd_log nd') ''proj_run_tool_grants'')"
    by (rule quiet_batch_runs [OF ready sample_quiet(1) ne fits kinds run, unfolded run_node_rows]) (rule that, assumption+)
  have pre: "validate_budget (sp_budget sample_spec) = Inr ()"
      "runtime_resolve (h_runtimes sample_harness) (sp_runtime_id sample_spec) (sp_executor sample_spec) = Inr native_runtime"
      "lineage_depth sample_spec run_node = (Inr 0, run_node)" "roster_contains (sp_worker sample_spec)"
    by (simp_all add: sample_spec_def validate_budget_def sample_budget_def RUN_STEP_COUNT_MAX_def RUN_TOOL_CALL_COUNT_MAX_def
        RUN_RETRY_COUNT_MAX_def runtime_resolve_def sample_harness_def native_runtime_def lineage_depth_def oret_def)
  have "snd (state_required i nd') = nd'" for i
    using state_required_same by (metis prod.collapse)
  then have nd': "nd' = started_node"
    unfolding started_node_def start_run_def using pre a(1)
    by (simp add: obind_def oread_def sample_started_def)
  obtain ev where ev: "evs = [ev]" using one_event [OF evs] by blast
  have "small_node started_node (0 + length [sample_started])"
    unfolding nd' [symmetric] by (rule small_after [OF run_node_small a(3,4,2,5)])
  then show thesis
    by (intro that [of ev], simp, use f(1) in \<open>simp add: nd' ev, simp add: sample_started_eq(1) fact_simps\<close>,
        use f(2) in \<open>simp add: nd' ev, simp add: sample_started_eq(1) fact_simps\<close>,
        use f(3) in \<open>simp add: nd' ev, simp add: sample_started_eq(1) fact_simps run_tool_grants_writes_def\<close>)
qed

section \<open>What the harness reads of it\<close>

lemma single_row_table:
  assumes "table_wf tb t" "map_of t = [k \<mapsto> r]"
  shows "t = [(k, r)]"
proof -
  have d: "distinct (map fst t)"
    using assms(1) by (auto simp: table_wf_def tbl_sorted_def strict_sorted_iff)
  have "fst ` set t = {k}"
    using arg_cong [OF assms(2), of dom] by (simp add: dom_map_of_conv_image_fst)
  then have "length t = 1"
    using distinct_card [OF d] by simp
  then obtain a b where "t = [(a, b)]"
    by (cases t) auto
  then show ?thesis
    using fun_cong [OF assms(2), of k] by (auto split: if_splits)
qed

definition sample_state :: "u64 \<Rightarrow> run_status \<Rightarrow> u32 \<Rightarrow> u32 \<Rightarrow> run_usage \<Rightarrow> run_state" where
  "sample_state seq st c k spent = RunStateFields 5 (Some 9) st ''Echo'' ''projectos.native'' ''device'' 0 seq None c k
     sample_budget spent False [RunToolGrantFields ''search'' (mode_to_domain GrantAllow)] None 0 None None None None"

text \<open>The cells a read of the Run decodes, while it neither waits nor is parked.\<close>

definition sample_cells :: "event_seq \<Rightarrow> string \<Rightarrow> u32 \<Rightarrow> u32 \<Rightarrow> run_usage \<Rightarrow> sql_cell list" where
  "sample_cells s text c k spent =
     [CBlob (into_bytes 9), CText text, CText ''Echo'', CText ''projectos.native'', CText ''device'', CInteger 0,
      CInteger (sat_i64 s), CNull, CInteger (uint c), CInteger (uint k),
      CInteger 100, CInteger 100, CInteger 100, CInteger 100, CInteger 10, CInteger 10, CInteger 10] @
     [CInteger (uint (u_tokens spent)), CInteger (uint (u_usd_micros spent)), CInteger (uint (u_wall_ms spent)),
      CInteger (uint (u_storage_bytes spent)), CInteger (uint (u_tool_calls spent)), CInteger (uint (u_retries spent)),
      CInteger (uint (u_steps spent)), CInteger 0, CNull, CInteger 0,
      CNull, CNull, CNull, CNull, CNull, CNull, CNull, CNull, CNull, CNull, CNull]"

lemma try_uint [simp]: "try_u64 (uint w) = Some w" "try_u32 (uint v) = Some v"
  by (simp_all add: try_u64_def try_u32_Some)

lemma sample_cells_parse:
  assumes "run_status_parse text = Some st" "st \<noteq> StPaused"
  shows "\<exists>raw. run_row (sample_cells s text c k spent) = Inr raw \<and>
    parse_run 5 raw [RunToolGrantFields ''search'' (mode_to_domain GrantAllow)] =
      Inr (sample_state (word_of_int (sat_i64 s)) st c k spent)"
proof -
  have t: "try_u64 (sat_i64 s) = Some (word_of_int (sat_i64 s))"
    using sat_i64_nonneg by (simp add: try_u64_def)
  have n: "try_u64 100 = Some 100" "try_u32 10 = Some 10" "try_u8 0 = Some 0"
    by (simp_all add: try_u64_def try_u32_def try_u8_def try_unsigned_def)
  show ?thesis
    unfolding sample_cells_def append.simps
    using assms t n
    by (simp add: run_row_def parse_run_def parse_pause_def parse_validation_def pause_metric_count_def control_parse_def
        run_optional_id_def run_required_id_def run_to_u8_def run_to_u32_def run_to_u64_def budget_from_def usage_from_def
        parse_tainted_def sample_state_def sample_budget_def)
qed

lemma single_grant_read:
  assumes "rows_of (nd_log nd) ''proj_run_tool_grants'' = [[CBlob (into_bytes 5), CText ''search''] \<mapsto> g]"
    "g ''mode'' = CText ''allow''" "small_node nd m"
  shows "read_tool_grants (nd_log nd) 5 = Inr [RunToolGrantFields ''search'' (mode_to_domain GrantAllow)]"
proof -
  have ok: "log_sound (nd_log nd)" "run_registry body_codec (nd_log nd)" "store_ready (nd_store nd)"
    using assms(3) by (simp_all add: small_node_def run_registry_def core_registry_def runs_projection_def
      run_steps_projection_def run_grants_projection_def)
  obtain t where t: "main_tables (db_content (pl_store (nd_log nd))) ''proj_run_tool_grants'' = Some t"
      "table_wf RUN_TOOL_GRANTS_TABLE t"
    by (rule run_table_of [OF ok(1,2)])
  then have "t = [([CBlob (into_bytes 5), CText ''search''], g)]"
    using single_row_table [OF t(2)] assms(1) by (simp add: rows_of_def log_tables_def)
  with t(1) ok(3) assms(2) show ?thesis
    by (simp add: read_tool_grants_def with_reader_def ensure_live_def store_ready_def nd_store_def table_rows_def
        column_cell_def RUN_TOOL_GRANTS_TABLE_def grant_mode_parse_def parse_word_def grant_mode_ALL_def)
qed

lemma sample_reads:
  assumes "small_node nd m" "run_rows (nd_log nd) (run_key 5) = Some r" "map r RUN_COLUMNS = sample_cells s text c k spent"
    "run_status_parse text = Some st" "st \<noteq> StPaused"
    "read_tool_grants (nd_log nd) 5 = Inr [RunToolGrantFields ''search'' (mode_to_domain GrantAllow)]"
  shows "state_required 5 nd = (Inr (sample_state (word_of_int (sat_i64 s)) st c k spent), nd)"
proof -
  have ok: "log_sound (nd_log nd)" "run_registry body_codec (nd_log nd)" "store_ready (nd_store nd)"
    using assms(1) by (simp_all add: small_node_def run_registry_def core_registry_def runs_projection_def
      run_steps_projection_def run_grants_projection_def)
  obtain t where t: "main_tables (db_content (pl_store (nd_log nd))) ''proj_runs'' = Some t"
      "table_wf RUNS_TABLE t" "run_rows (nd_log nd) = map_of t"
    by (rule run_table_of [OF ok(1,2)])
  obtain raw where raw: "run_row (sample_cells s text c k spent) = Inr raw"
      "parse_run 5 raw [RunToolGrantFields ''search'' (mode_to_domain GrantAllow)] =
        Inr (sample_state (word_of_int (sat_i64 s)) st c k spent)"
    using sample_cells_parse [OF assms(4,5)] by blast
  have "read_run (nd_log nd) 5 = Inr (Some (sample_state (word_of_int (sat_i64 s)) st c k spent))"
    using t ok(3) assms(2,3,6) run_query [OF t(2), of 5] raw
    by (simp add: read_run_def with_reader_def ensure_live_def store_ready_def nd_store_def table_rows_def)
  then show ?thesis
    by (simp add: state_required_def harness_state_def obind_def oread_def)
qed

section \<open>The first step\<close>

definition one_call :: run_usage where
  "one_call = usage_default\<lparr>u_steps := 1, u_tool_calls := 1\<rparr>"

definition search_plan :: step_plan where
  "search_plan = StepPlanFields 0 Tool ''look'' 3 (ToolCallRequestFields ''search'' 11 [1, 2, 3]) one_call"

definition search_call :: authorized_tool_call where
  "search_call = AuthorizedToolCallFields 5 0 search_tool 11 (idempotency_key 5 0 11) [1, 2, 3]"

definition planned_node :: "body node" where
  "planned_node = snd (prepare_step sample_harness body_codec 5 search_plan None started_node)"

lemma plan_admitted: "validate_step_plan search_plan = Inr ()"
  "admit sample_budget usage_default usage_default (pl_reserved search_plan) = Inr ()"
  by (simp_all add: validate_step_plan_def search_plan_def one_call_def validate_text_def visible_text_def RUN_TEXT_LEN_MAX_def
      usage_default_def admit_def check_u64_def sample_budget_def checked_add_def)

lemma search_id: "valid_id_text TOOL_ID_LEN_MAX ''search''"
  by (simp add: valid_id_text_def TOOL_ID_LEN_MAX_def is_id_char_def is_ascii_alphanumeric_def)

lemma search_authorized:
  "authorize_step sample_harness (sample_state seq st c k spent) search_plan None nd =
     (Inr search_call, nd\<lparr>nd_ticks := Suc (nd_ticks nd)\<rparr>)"
  by (simp add: authorize_step_def obind_def oread_def sample_state_def grants_from_domain_def tool_id_new_def search_id
      run_tool_grants_new_def autonomy_new_def now_ms_def authorize_def sample_harness_def search_plan_def search_tool_def
      search_call_def gate_required_def RUN_TOOL_GRANT_COUNT_MAX_def)

definition search_event :: domain_event where
  "search_event = RunStepCommitted (RunStepCommittedV2 (RunStepCommittedV2Fields 5 0 Tool ''look'' 3
     (Some (domain_call search_call)) one_call))"

lemma step_events_search: "step_events (sample_state seq st c k spent) search_plan search_call None = [search_event]"
  by (simp add: step_events_def sample_state_def search_plan_def search_event_def)

lemma started_cells: "map (started_row ev) RUN_COLUMNS = sample_cells (ev_seq ev) ''preflight'' 0 0 usage_default"
  by (simp add: sample_cells_def RUN_COLUMNS_def RUNS_TABLE_def run_values_v2_def budget_values_def usage_values_def id_blob_def
      seq_value_def integer_u64_def integer_u32_def sample_budget_def usage_default_def bool_integer_def optional_id_blob_def
      sat_i64_def i64_max_def)

text \<open>The rows the first step leaves.\<close>

abbreviation planned_row :: "body event \<Rightarrow> row" where
  "planned_row ev \<equiv> (started_row ev)(''status'' := CText ''running'', ''committed_step_count'' := CInteger 1)"

abbreviation search_row :: "body event \<Rightarrow> row" where
  "search_row ev \<equiv> row_of (value_columns RUN_STEPS_TABLE)
     (step_values ''look'' ''tool'' (Some 3) (Some (domain_call search_call)) one_call ev)"

lemma ready_state:
  "validate_run_counts (sample_state seq StPreflight 0 0 spent) = Inr ()"
  "require_running (sample_state seq StPreflight 0 0 spent) = Inr ()"
  "st_pending_control (sample_state seq st c k spent) = None" "st_committed_step_count (sample_state seq st c k spent) = c"
  "st_checkpointed_step_count (sample_state seq st c k spent) = k"
  by (simp_all add: sample_state_def validate_run_counts_def require_running_def is_running_def)

lemma plan_index: "pl_step_index search_plan = 0"
  by (simp add: search_plan_def)

lemma small_tick: "small_node nd m \<Longrightarrow> small_node (nd\<lparr>nd_ticks := t\<rparr>) m"
  by (simp add: small_node_def clock_ok_def nd_store_def)

lemma prepare_search:
  obtains ev ev' :: "body event" where
    "prepare_step sample_harness body_codec 5 search_plan None started_node = (Inr (PrepEffect search_call), planned_node)"
    "small_node planned_node 2" "run_rows (nd_log planned_node) = [run_key 5 \<mapsto> planned_row ev]"
    "step_rows (nd_log planned_node) = [step_key 5 0 \<mapsto> search_row ev']"
    "read_tool_grants (nd_log planned_node) 5 = Inr [RunToolGrantFields ''search'' (mode_to_domain GrantAllow)]"
    "rows_of (nd_log planned_node) ''proj_run_tool_grants'' = rows_of (nd_log started_node) ''proj_run_tool_grants''"
proof -
  obtain ev where sn: "small_node started_node 1"
    and rows: "run_rows (nd_log started_node) = [run_key 5 \<mapsto> started_row ev]" "step_rows (nd_log started_node) = Map.empty"
      "rows_of (nd_log started_node) ''proj_run_tool_grants'' = [[CBlob (into_bytes 5), CText ''search''] \<mapsto>
       row_of (value_columns RUN_TOOL_GRANTS_TABLE) [Text (grant_mode_as_str (mode_to_domain GrantAllow)), seq_value ev]]"
    by (rule started_rows)
  have mode: "row_of (value_columns RUN_TOOL_GRANTS_TABLE) [Text (grant_mode_as_str (mode_to_domain GrantAllow)), seq_value ev] ''mode'' = CText ''allow''"
    by (simp add: RUN_TOOL_GRANTS_TABLE_def)
  note grants = single_grant_read [OF rows(3) mode sn]
  define n where "n = started_node\<lparr>nd_ticks := Suc (nd_ticks started_node)\<rparr>"
  have n: "small_node n 1" "nd_log n = nd_log started_node"
    using small_tick [OF sn] by (simp_all add: n_def)
  have ready: "batch_ready body_codec n (length [search_event])"
    by (rule small_ready [OF n(1)]) simp
  have fits: "\<forall>e \<in> set [search_event]. body_fits body_codec n e"
    using n(1) body_fits_sample [of n search_event]
    by (simp add: small_node_def search_event_def run_refs_def opt_ref_def EVENT_REFS_COUNT_MAX_def)
  have kinds: "\<forall>e \<in> set [search_event]. domain_kind_tag e \<in> set runs_kinds \<union> {''RunArtifactRecorded''}"
    by (simp add: search_event_def runs_kinds_def)
  have run: "facts_run [search_event] (run_rows (nd_log n)) (step_rows (nd_log n))
      (rows_of (nd_log n) ''proj_run_tool_grants'') TYPE(body)"
    by (simp add: n(2) rows search_event_def fact_simps run_tool_grants_writes_def)
  have ne: "[search_event] \<noteq> []" by simp
  obtain s nd' evs where a: "append_at_current_head sample_harness body_codec (Agent 5) [search_event] n = (Inr s, nd')"
      "store_ready (nd_store nd')" "log_moves n nd'" "log_sound (nd_log nd')"
      "length (log_events (nd_log nd')) = length (log_events (nd_log n)) + length [search_event]"
    and evs: "length (evs :: body event list) = length [search_event]"
    and f: "facts_map RUNS_TABLE runs_writes (zip evs [search_event]) (run_rows (nd_log n)) = Some (run_rows (nd_log nd'))"
      "facts_map RUN_STEPS_TABLE run_steps_writes (zip evs [search_event]) (step_rows (nd_log n)) = Some (step_rows (nd_log nd'))"
      "facts_map RUN_TOOL_GRANTS_TABLE run_tool_grants_writes (zip evs [search_event]) (rows_of (nd_log n) ''proj_run_tool_grants'') =
       Some (rows_of (nd_log nd') ''proj_run_tool_grants'')"
    by (rule quiet_batch_runs [OF ready sample_quiet(1) ne fits kinds run]) (rule that, assumption+)
  obtain ev' where ev': "evs = [ev']" using one_event [OF evs] by blast
  have read: "state_required 5 started_node =
      (Inr (sample_state (word_of_int (sat_i64 (ev_seq ev))) StPreflight 0 0 usage_default), started_node)"
    by (rule sample_reads [OF sn _ started_cells _ _ grants]) (simp_all add: rows(1))
  have "commit_step sample_harness body_codec (sample_state seq StPreflight 0 0 usage_default) search_plan None started_node =
      (Inr (Some (PrepEffect search_call)), nd')" for seq
    using a(1) plan_admitted(2) search_authorized [of seq StPreflight 0 0 usage_default started_node]
      step_events_search [of seq StPreflight 0 0 usage_default]
    by (simp add: commit_step_def obind_def append_or_conflict_def n_def oret_def sample_state_def)
  then have "prepare_once sample_harness body_codec 5 search_plan None started_node = (Inr (Some (PrepEffect search_call)), nd')"
    by (simp add: prepare_once_def plan_step_def obind_def oread_def read ready_state plan_index)
  then have p: "prepare_step sample_harness body_codec 5 search_plan None started_node = (Inr (PrepEffect search_call), nd')"
    by (simp add: prepare_step_def obind_def oread_def plan_admitted retried_def CONDITIONAL_APPEND_RETRY_MAX_def
        numeral_eq_Suc oret_def)
  then have nd': "nd' = planned_node" by (simp add: planned_node_def)
  have g: "rows_of (nd_log planned_node) ''proj_run_tool_grants'' = rows_of (nd_log started_node) ''proj_run_tool_grants''"
    using f(3) by (simp add: ev' nd' n(2) search_event_def fact_simps run_tool_grants_writes_def)
  have sp: "small_node planned_node 2"
    using small_after [OF n(1) a(3,4,2,5)] by (simp add: nd' numeral_2_eq_2)
  show thesis
  proof (rule that [of ev ev'])
    show "run_rows (nd_log planned_node) = [run_key 5 \<mapsto> planned_row ev]"
      using f(1) by (simp add: ev' nd' n(2) rows(1) search_event_def fact_simps RUNS_TABLE_def run_values_v2_def budget_values_def usage_values_def)
    show "step_rows (nd_log planned_node) = [step_key 5 0 \<mapsto> search_row ev']"
      using f(2) by (simp add: ev' nd' n(2) rows(2) search_event_def fact_simps)
    show "read_tool_grants (nd_log planned_node) 5 = Inr [RunToolGrantFields ''search'' (mode_to_domain GrantAllow)]"
      by (rule single_grant_read [OF rows(3) [folded g] mode sp])
  qed (use p nd' sp g in simp_all)
qed

section \<open>The effect of the first step\<close>

definition search_report :: tool_effect_report where
  "search_report = ToolEffectReportFields 21 22 one_call None None"

definition recorded_node :: "body node" where
  "recorded_node = snd (record_effect sample_harness body_codec search_call search_report planned_node)"

definition search_events :: "domain_event list" where
  "search_events =
     [RunToolEffectRecorded (RunToolEffectRecordedV1 5 0 11 (idempotency_key 5 0 11) 21 one_call),
      RunCheckpointSaved (RunCheckpointSavedV1 5 0 (checkpoint_id 11) 22)]"

lemma call_fields:
  "at_run_id search_call = 5" "at_step_index search_call = 0" "at_call_id search_call = 11"
  "at_idempotency_key search_call = idempotency_key 5 0 11"
  "domain_call search_call = RunToolCallFields ''search'' 1 11 (idempotency_key 5 0 11) [1, 2, 3]"
  by (simp_all add: search_call_def search_tool_def domain_call_def)

abbreviation search_step :: "event_seq \<Rightarrow> run_effect_state option \<Rightarrow> run_checkpoint_state option \<Rightarrow> run_step_state" where
  "search_step seq effect checkpoint \<equiv>
     RunStepStateFields 5 0 ''look'' ''tool'' (Some 3) (Some (domain_call search_call)) one_call seq effect checkpoint"

lemma search_effects: "effect_events search_call search_report st (search_step seq None None) = search_events"
  by (simp add: effect_events_def search_report_def search_events_def call_fields reservation_exceeded_dimension_def one_call_def
      usage_default_def)

text \<open>The cells a read of the step decodes.\<close>

definition step_cells :: "event_seq \<Rightarrow> sql_cell list \<Rightarrow> sql_cell list \<Rightarrow> run_usage \<Rightarrow> sql_cell list" where
  "step_cells s effect checkpoint spent =
     [CText ''look'', CText ''tool'', CBlob (digest_bytes 3), CText ''search'', CInteger 1, CBlob (into_bytes 11),
      CText (idempotency_key 5 0 11), CBlob [1, 2, 3],
      CInteger 0, CInteger 0, CInteger 0, CInteger 0, CInteger 1, CInteger 0, CInteger 1, CInteger (sat_i64 s)] @ effect @
     [CInteger (uint (u_tokens spent)), CInteger (uint (u_usd_micros spent)), CInteger (uint (u_wall_ms spent)),
      CInteger (uint (u_storage_bytes spent)), CInteger (uint (u_tool_calls spent)), CInteger (uint (u_retries spent)),
      CInteger (uint (u_steps spent))] @ checkpoint"

lemma step_parse:
  "\<exists>raw. step_row (step_cells s [CNull, CNull] [CNull, CNull, CNull] spent) = Inr raw \<and>
     parse_step 5 0 raw = Inr (search_step (word_of_int (sat_i64 s)) None None)"
  "\<exists>raw. step_row (step_cells s [CInteger (sat_i64 e), CBlob (digest_bytes 21)]
       [CBlob (into_bytes cid), CBlob (digest_bytes 22), CInteger (sat_i64 p)] spent) = Inr raw \<and>
     parse_step 5 0 raw = Inr (search_step (word_of_int (sat_i64 s))
       (Some (RunEffectStateFields (word_of_int (sat_i64 e)) 21 spent))
       (Some (RunCheckpointStateFields cid 22 (word_of_int (sat_i64 p)))))"
proof -
  have t: "try_u64 (sat_i64 s) = Some (word_of_int (sat_i64 s))" for s
    using sat_i64_nonneg by (simp add: try_u64_def)
  have n: "try_u64 0 = Some 0" "try_u32 0 = Some 0" "try_u32 1 = Some 1" "try_u16 1 = Some 1"
    by (simp_all add: try_u64_def try_u32_def try_u16_def try_unsigned_def)
  note defs = step_cells_def step_row_def parse_step_def parse_step_call_def parse_step_effect_def parse_step_checkpoint_def
    run_required_id_def required_digest_def run_to_u64_def run_to_u32_def usage_from_def call_fields one_call_def usage_default_def
  show "\<exists>raw. step_row (step_cells s [CNull, CNull] [CNull, CNull, CNull] spent) = Inr raw \<and>
     parse_step 5 0 raw = Inr (search_step (word_of_int (sat_i64 s)) None None)"
    using t [of s] n by (simp add: defs)
  show "\<exists>raw. step_row (step_cells s [CInteger (sat_i64 e), CBlob (digest_bytes 21)]
       [CBlob (into_bytes cid), CBlob (digest_bytes 22), CInteger (sat_i64 p)] spent) = Inr raw \<and>
     parse_step 5 0 raw = Inr (search_step (word_of_int (sat_i64 s))
       (Some (RunEffectStateFields (word_of_int (sat_i64 e)) 21 spent))
       (Some (RunCheckpointStateFields cid 22 (word_of_int (sat_i64 p)))))"
    using t [of s] t [of e] t [of p] n by (simp add: defs)
qed

lemma step_reads:
  assumes "small_node nd m" "step_rows (nd_log nd) (step_key 5 0) = Some q" "step_row (map q STEP_COLUMNS) = Inr raw"
    "parse_step 5 0 raw = Inr step"
  shows "step_required 5 0 nd = (Inr step, nd)"
proof -
  have ok: "log_sound (nd_log nd)" "run_registry body_codec (nd_log nd)" "store_ready (nd_store nd)"
    using assms(1) by (simp_all add: small_node_def run_registry_def core_registry_def runs_projection_def
      run_steps_projection_def run_grants_projection_def)
  obtain t where t: "main_tables (db_content (pl_store (nd_log nd))) ''proj_run_steps'' = Some t"
      "table_wf RUN_STEPS_TABLE t" "step_rows (nd_log nd) = map_of t"
    by (rule run_table_of [OF ok(1,2)])
  have "read_run_step (nd_log nd) 5 0 = Inr (Some step)"
    using t ok(3) assms(2-4) step_query [OF t(2), of 5 0]
    by (simp add: read_run_step_def with_reader_def ensure_live_def store_ready_def nd_store_def table_rows_def)
  then show ?thesis
    by (simp add: step_required_def obind_def oread_def)
qed

lemma planned_cells: "map (planned_row ev) RUN_COLUMNS = sample_cells (ev_seq ev) ''running'' 1 0 usage_default"
  using started_cells [of ev] by (simp add: sample_cells_def RUN_COLUMNS_def)

lemma search_row_cells: "map (search_row ev) STEP_COLUMNS = step_cells (ev_seq ev) [CNull, CNull] [CNull, CNull, CNull] usage_default"
  by (simp add: step_cells_def STEP_COLUMNS_def RUN_STEPS_TABLE_def step_values_def usage_values_def call_fields id_blob_def
      seq_value_def integer_u64_def integer_u32_def one_call_def usage_default_def sat_i64_def i64_max_def)

text \<open>The rows after the receipt and the checkpoint.\<close>

abbreviation recorded_row :: "body event \<Rightarrow> row" where
  "recorded_row ev \<equiv>
     assign_row [(''checkpoint_id'', id_blob (checkpoint_id 11)), (''checkpoint_step_index'', integer_u32 0)]
       ((add_deltas (usage_deltas one_call) (planned_row ev))(''checkpointed_step_count'' := CInteger 1))"

abbreviation effect_row :: "body event \<Rightarrow> body event \<Rightarrow> body event \<Rightarrow> row" where
  "effect_row ev e1 e2 \<equiv>
     assign_row [(''checkpoint_id'', id_blob (checkpoint_id 11)), (''checkpoint_digest'', Blob (digest_bytes 22)),
                 (''checkpoint_seq'', seq_value e2)]
       (assign_row ([(''effect_recorded_seq'', seq_value e1), (''output_digest'', Blob (digest_bytes 21))] @
                    usage_assignments one_call) (search_row ev))"

lemma recorded_cells: "map (recorded_row ev) RUN_COLUMNS = sample_cells (ev_seq ev) ''running'' 1 1 one_call"
  using planned_cells [of ev]
  by (simp add: sample_cells_def RUN_COLUMNS_def add_deltas_def usage_deltas_def one_call_def usage_default_def sat_i64_def
      i64_max_def in_i64_def i64_min_def)

lemma effect_row_cells:
  "map (effect_row ev e1 e2) STEP_COLUMNS = step_cells (ev_seq ev) [CInteger (sat_i64 (ev_seq e1)), CBlob (digest_bytes 21)]
     [CBlob (into_bytes (checkpoint_id 11)), CBlob (digest_bytes 22), CInteger (sat_i64 (ev_seq e2))] one_call"
  using search_row_cells [of ev]
  by (simp add: step_cells_def STEP_COLUMNS_def usage_assignments_def id_blob_def seq_value_def integer_u64_def integer_u32_def
      one_call_def usage_default_def sat_i64_def i64_max_def)

lemma effect_writes:
  fixes e :: "body event"
  shows "writes_map RUNS_TABLE (runs_writes e (RunToolEffectRecorded (RunToolEffectRecordedV1 5 0 c k o1 u))) [run_key 5 \<mapsto> r] =
      Some [run_key 5 \<mapsto> add_deltas (usage_deltas u) r]"
    "writes_map RUNS_TABLE (runs_writes e (RunCheckpointSaved (RunCheckpointSavedV1 5 0 p d))) [run_key 5 \<mapsto> r] =
      Some [run_key 5 \<mapsto> assign_row [(''checkpoint_id'', id_blob p), (''checkpoint_step_index'', integer_u32 0)]
        (r(''checkpointed_step_count'' := sql_add (r ''checkpointed_step_count'') 1))]"
    "q ''effect_recorded_seq'' = CNull \<Longrightarrow>
      writes_map RUN_STEPS_TABLE (run_steps_writes e (RunToolEffectRecorded (RunToolEffectRecordedV1 5 0 c k o1 u))) [step_key 5 0 \<mapsto> q] =
      Some [step_key 5 0 \<mapsto> assign_row ([(''effect_recorded_seq'', seq_value e), (''output_digest'', Blob (digest_bytes o1))] @
        usage_assignments u) q]"
    "q ''checkpoint_seq'' = CNull \<Longrightarrow>
      writes_map RUN_STEPS_TABLE (run_steps_writes e (RunCheckpointSaved (RunCheckpointSavedV1 5 0 p d))) [step_key 5 0 \<mapsto> q] =
      Some [step_key 5 0 \<mapsto> assign_row [(''checkpoint_id'', id_blob p), (''checkpoint_digest'', Blob (digest_bytes d)),
        (''checkpoint_seq'', seq_value e)] q]"
    "run_tool_grants_writes e (RunToolEffectRecorded x) = []" "run_tool_grants_writes e (RunCheckpointSaved y) = []"
  by (simp_all add: fact_simps run_tool_grants_writes_def)

lemma receipt_keeps:
  "assign_row ([(''effect_recorded_seq'', v), (''output_digest'', w)] @ usage_assignments u) q ''checkpoint_seq'' = q ''checkpoint_seq''"
  by (simp add: usage_assignments_def)

lemma search_events_run:
  assumes "q ''effect_recorded_seq'' = CNull" "q ''checkpoint_seq'' = CNull"
  shows "facts_run search_events [run_key 5 \<mapsto> r] [step_key 5 0 \<mapsto> q] G TYPE(body)"
proof -
  have c: "assign_row ([(''effect_recorded_seq'', v), (''output_digest'', w)] @ usage_assignments u) q ''checkpoint_seq'' = CNull" for v w u
    by (simp only: receipt_keeps assms(2))
  show ?thesis
    unfolding search_events_def facts_run.simps
    by (simp only: effect_writes(1,2,5,6) effect_writes(3,4) assms(1) c writes_map.simps(1)
        option.inject ex_simps simp_thms)
qed

lemma search_events_rows:
  fixes e1 e2 :: "body event"
  assumes "q ''effect_recorded_seq'' = CNull" "q ''checkpoint_seq'' = CNull" "r ''checkpointed_step_count'' = CInteger 0"
  shows "facts_map RUNS_TABLE runs_writes (zip [e1, e2] search_events) [run_key 5 \<mapsto> r] =
      Some [run_key 5 \<mapsto> assign_row [(''checkpoint_id'', id_blob (checkpoint_id 11)), (''checkpoint_step_index'', integer_u32 0)]
        ((add_deltas (usage_deltas one_call) r)(''checkpointed_step_count'' := CInteger 1))]"
    "facts_map RUN_STEPS_TABLE run_steps_writes (zip [e1, e2] search_events) [step_key 5 0 \<mapsto> q] =
      Some [step_key 5 0 \<mapsto> assign_row [(''checkpoint_id'', id_blob (checkpoint_id 11)), (''checkpoint_digest'', Blob (digest_bytes 22)),
                 (''checkpoint_seq'', seq_value e2)]
       (assign_row ([(''effect_recorded_seq'', seq_value e1), (''output_digest'', Blob (digest_bytes 21))] @
                    usage_assignments one_call) q)]"
    "facts_map RUN_TOOL_GRANTS_TABLE run_tool_grants_writes (zip [e1, e2] search_events) G = Some G"
proof -
  have c: "assign_row ([(''effect_recorded_seq'', v), (''output_digest'', w)] @ usage_assignments u) q ''checkpoint_seq'' = CNull" for v w u
    by (simp only: receipt_keeps assms(2))
  have k: "sql_add (add_deltas (usage_deltas one_call) r ''checkpointed_step_count'') 1 = CInteger 1"
    using assms(3) by (simp add: deltas_keep usage_deltas_def)
  note defs = search_events_def zip_Cons_Cons zip_Nil facts_map.simps bind.bind_lunit
  show "facts_map RUNS_TABLE runs_writes (zip [e1, e2] search_events) [run_key 5 \<mapsto> r] =
      Some [run_key 5 \<mapsto> assign_row [(''checkpoint_id'', id_blob (checkpoint_id 11)), (''checkpoint_step_index'', integer_u32 0)]
        ((add_deltas (usage_deltas one_call) r)(''checkpointed_step_count'' := CInteger 1))]"
    by (simp only: defs effect_writes(1,2) k)
  show "facts_map RUN_STEPS_TABLE run_steps_writes (zip [e1, e2] search_events) [step_key 5 0 \<mapsto> q] =
      Some [step_key 5 0 \<mapsto> assign_row [(''checkpoint_id'', id_blob (checkpoint_id 11)), (''checkpoint_digest'', Blob (digest_bytes 22)),
                 (''checkpoint_seq'', seq_value e2)]
       (assign_row ([(''effect_recorded_seq'', seq_value e1), (''output_digest'', Blob (digest_bytes 21))] @
                    usage_assignments one_call) q)]"
    by (simp only: defs effect_writes(3,4) assms(1) c simp_thms)
  show "facts_map RUN_TOOL_GRANTS_TABLE run_tool_grants_writes (zip [e1, e2] search_events) G = Some G"
    by (simp only: defs effect_writes(5,6) writes_map.simps(1))
qed

lemma record_search:
  obtains cp where
    "record_effect sample_harness body_codec search_call search_report planned_node = (Inr cp, recorded_node)"
    "small_node recorded_node 4"
proof -
  obtain ev ev' where sp: "small_node planned_node 2" and rows: "run_rows (nd_log planned_node) = [run_key 5 \<mapsto> planned_row ev]"
      "step_rows (nd_log planned_node) = [step_key 5 0 \<mapsto> search_row ev']"
    and grants: "read_tool_grants (nd_log planned_node) 5 = Inr [RunToolGrantFields ''search'' (mode_to_domain GrantAllow)]"
    and same: "rows_of (nd_log planned_node) ''proj_run_tool_grants'' = rows_of (nd_log started_node) ''proj_run_tool_grants''"
    by (rule prepare_search)
  obtain ev0 :: "body event" where g: "rows_of (nd_log started_node) ''proj_run_tool_grants'' = [[CBlob (into_bytes 5), CText ''search''] \<mapsto>
       row_of (value_columns RUN_TOOL_GRANTS_TABLE) [Text (grant_mode_as_str (mode_to_domain GrantAllow)), seq_value ev0]]"
    by (rule started_rows)
  have mode: "row_of (value_columns RUN_TOOL_GRANTS_TABLE) [Text (grant_mode_as_str (mode_to_domain GrantAllow)), seq_value ev0] ''mode'' = CText ''allow''"
    by (simp add: RUN_TOOL_GRANTS_TABLE_def)
  have ready: "batch_ready body_codec planned_node (length search_events)"
    by (rule small_ready [OF sp]) (simp add: search_events_def)
  have fits: "\<forall>e \<in> set search_events. body_fits body_codec planned_node e"
    using sp body_fits_sample [of planned_node]
    by (simp add: small_node_def search_events_def run_refs_def opt_ref_def EVENT_REFS_COUNT_MAX_def)
  have kinds: "\<forall>e \<in> set search_events. domain_kind_tag e \<in> set runs_kinds \<union> {''RunArtifactRecorded''}" and ne: "search_events \<noteq> []"
    by (simp_all add: search_events_def runs_kinds_def)
  have null: "search_row ev' ''effect_recorded_seq'' = CNull" "search_row ev' ''checkpoint_seq'' = CNull"
      "planned_row ev ''checkpointed_step_count'' = CInteger 0"
    by (simp_all add: RUN_STEPS_TABLE_def step_values_def usage_values_def call_fields RUNS_TABLE_def run_values_v2_def
        budget_values_def)
  have run: "facts_run search_events (run_rows (nd_log planned_node)) (step_rows (nd_log planned_node))
      (rows_of (nd_log planned_node) ''proj_run_tool_grants'') TYPE(body)"
    unfolding rows by (rule search_events_run) (rule null)+
  obtain s nd' evs where a: "append_at_current_head sample_harness body_codec (Agent 5) search_events planned_node = (Inr s, nd')"
      "store_ready (nd_store nd')" "log_moves planned_node nd'" "log_sound (nd_log nd')"
      "length (log_events (nd_log nd')) = length (log_events (nd_log planned_node)) + length search_events"
    and evs: "length (evs :: body event list) = length search_events"
    and f: "facts_map RUNS_TABLE runs_writes (zip evs search_events) (run_rows (nd_log planned_node)) = Some (run_rows (nd_log nd'))"
      "facts_map RUN_STEPS_TABLE run_steps_writes (zip evs search_events) (step_rows (nd_log planned_node)) = Some (step_rows (nd_log nd'))"
      "facts_map RUN_TOOL_GRANTS_TABLE run_tool_grants_writes (zip evs search_events) (rows_of (nd_log planned_node) ''proj_run_tool_grants'') =
       Some (rows_of (nd_log nd') ''proj_run_tool_grants'')"
    by (rule quiet_batch_runs [OF ready sample_quiet(1) ne fits kinds run]) (rule that, assumption+)
  obtain e1 e2 where e: "evs = [e1, e2]" using evs by (auto simp: search_events_def length_Suc_conv)
  have r': "run_rows (nd_log nd') = [run_key 5 \<mapsto> recorded_row ev]" "step_rows (nd_log nd') = [step_key 5 0 \<mapsto> effect_row ev' e1 e2]"
      "rows_of (nd_log nd') ''proj_run_tool_grants'' = rows_of (nd_log planned_node) ''proj_run_tool_grants''"
    using f unfolding e rows search_events_rows(1) [of "search_row ev'" "planned_row ev", OF null]
      search_events_rows(2) [of "search_row ev'" "planned_row ev", OF null] search_events_rows(3) [of "search_row ev'" "planned_row ev", OF null]
    by (simp_all only: option.inject)
  have sn: "small_node nd' 4"
    using small_after [OF sp a(3,4,2,5)] by (simp add: search_events_def)
  have grants': "read_tool_grants (nd_log nd') 5 = Inr [RunToolGrantFields ''search'' (mode_to_domain GrantAllow)]"
    by (rule single_grant_read [OF g [folded same, folded r'(3)] mode sn])
  have st: "state_required 5 planned_node =
      (Inr (sample_state (word_of_int (sat_i64 (ev_seq ev))) StRunning 1 0 usage_default), planned_node)"
    by (rule sample_reads [OF sp _ planned_cells _ _ grants]) (simp_all add: rows(1))
  have st': "state_required 5 nd' = (Inr (sample_state (word_of_int (sat_i64 (ev_seq ev))) StRunning 1 1 one_call), nd')"
    by (rule sample_reads [OF sn _ recorded_cells _ _ grants']) (simp_all add: r'(1))
  have step: "step_required 5 0 planned_node = (Inr (search_step (word_of_int (sat_i64 (ev_seq ev'))) None None), planned_node)"
    using step_parse(1) [of "ev_seq ev'" usage_default] step_reads [OF sp, of "search_row ev'"] rows(2) search_row_cells [of ev'] by auto
  obtain cp effect where step': "step_required 5 0 nd' =
      (Inr (search_step (word_of_int (sat_i64 (ev_seq ev'))) effect (Some cp)), nd')"
  proof -
    obtain raw step where raw: "step_row (map (effect_row ev' e1 e2) STEP_COLUMNS) = Inr raw" "parse_step 5 0 raw = Inr step"
      and shape: "\<exists>effect cp. step = search_step (word_of_int (sat_i64 (ev_seq ev'))) effect (Some cp)"
      using step_parse(2) [of "ev_seq ev'" "ev_seq e1" "checkpoint_id 11" "ev_seq e2" one_call]
      unfolding effect_row_cells [where ev = ev' and ?e1.0 = e1 and ?e2.0 = e2] by blast
    have "step_rows (nd_log nd') (step_key 5 0) = Some (effect_row ev' e1 e2)"
      unfolding r'(2) by (simp only: fun_upd_same)
    from step_reads [OF sn this raw] shape that show thesis by blast
  qed
  have settle: "settle_after_checkpoint sample_harness body_codec 5 nd' = (Inr (), nd')"
    by (simp add: settle_after_checkpoint_def retried_def CONDITIONAL_APPEND_RETRY_MAX_def numeral_eq_Suc obind_def st' ready_state oret_def)
  have "append_or_conflict sample_harness body_codec (Agent 5) search_events planned_node = (Inr True, nd')"
    by (simp add: append_or_conflict_def a(1))
  moreover have "validate_effect_target search_call (search_step n None None) = Inr ()" for n
    by (simp add: validate_effect_target_def search_call_def search_tool_def domain_call_def at_tool_id_def)
  ultimately have "record_once sample_harness body_codec search_call search_report planned_node = (Inr (Some cp), nd')"
    by (simp add: record_once_def call_fields(1-4) obind_def oread_def st step search_effects step' settle oret_def)
  then have "record_effect sample_harness body_codec search_call search_report planned_node = (Inr cp, nd')"
    by (simp add: record_effect_def obind_def oread_def validate_effect_report_def search_report_def one_call_def retried_def
        CONDITIONAL_APPEND_RETRY_MAX_def numeral_eq_Suc oret_def)
  then show thesis
    using that sn by (simp add: recorded_node_def)
qed

end
