(* ===== verification/Harness_Properties.thy ===== *)
theory Harness_Properties
  imports Sample_Run
begin

text \<open>
  The properties of the Run harness: it refines the Run machine, it hands out a tool call only when
  the intent to make it is durable, and it records the effect of a step once.
\<close>

section \<open>What a returned result says about the last attempt\<close>

lemma obind_Inr: "obind m f s = (Inr b, s') \<longleftrightarrow> (\<exists>a t. m s = (Inr a, t) \<and> f a t = (Inr b, s'))"
  by (auto simp: obind_def split: prod.splits sum.splits)

lemma oread_Inr: "oread g s = (Inr b, s') \<longleftrightarrow> g s = Inr b \<and> s' = s"
  by (auto simp: oread_def)

lemma retry_result:
  assumes "retry n i body nd = (Inr a, nd')" "oinv (runs_move dc) body"
  shows "\<exists>nd1. runs_move dc nd nd1 \<and> body nd1 = (Inr (Some a), nd')"
  using assms(1)
proof (induction n arbitrary: nd)
  case (Suc n)
  then obtain r nd1 where r: "body nd = (Inr r, nd1)"
      "(case r of Some a \<Rightarrow> oret a | None \<Rightarrow> retry n i body) nd1 = (Inr a, nd')"
    by (auto simp: obind_Inr)
  have m: "runs_move dc nd nd1"
    using assms(2) r(1) unfolding oinv_def by (metis snd_conv)
  show ?case
  proof (cases r)
    case None
    then show ?thesis
      using r(2) Suc.IH [of nd1] runs.R_trans [OF m] by auto
  next
    case (Some b)
    then show ?thesis
      using r runs.R_refl [of dc nd] by (auto simp: oret_def)
  qed
qed (simp add: ofail_def)

section \<open>Handing out a call\<close>

text \<open>The Run has an outstanding step: its row is there, without receipt and checkpoint.\<close>

definition step_outstanding :: "'b node \<Rightarrow> id16 \<Rightarrow> u32 \<Rightarrow> bool" where
  "step_outstanding nd i n \<longleftrightarrow> run_of nd i = Some (unat n, Outstanding) \<and>
     (\<exists>q. step_rows (nd_log nd) (step_key i (uint n)) = Some q \<and> q ''effect_recorded_seq'' = CNull \<and> q ''checkpoint_seq'' = CNull)"

lemma commit_outstanding:
  fixes nd :: "'b node"
  assumes "append_or_conflict h dc actor (step_events s plan call receipt) nd = (Inr True, nd')"
    "others_fair dc h i" "domain_codec_ok dc" "runs_ok dc nd" "sees dc nd i s" "require_running s = Inr ()"
    "st_committed_step_count s = st_checkpointed_step_count s" "pl_step_index plan = st_committed_step_count s"
  shows "step_outstanding nd' i (pl_step_index plan)"
proof -
  let ?w = "pl_step_index plan"
  let ?b = "RunStepCommittedV2Fields (st_run_id s) ?w (pl_phase plan) (pl_summary plan) (pl_digest plan)
      (Some (domain_call call)) (pl_reserved plan)"
  obtain gates where gates: "step_events s plan call receipt = gates @ [RunStepCommitted (RunStepCommittedV2 ?b)]"
      "\<forall>g \<in> set gates. \<exists>x. g = RunGateApproved x"
    by (cases receipt) (auto simp: step_events_def)
  obtain seqs where a: "append_at_current_head h dc actor (step_events s plan call receipt) nd = (Inr seqs, nd')"
    using assms(1) by (auto simp: append_or_conflict_def split: prod.splits sum.splits harness_error.splits log_error.splits)
  obtain evs :: "'b event list" and n where n: "runs_ok dc n" "run_apart i nd n"
    and f: "length evs = length (gates @ [RunStepCommitted (RunStepCommittedV2 ?b)])"
      "facts_map RUNS_TABLE runs_writes (zip evs (gates @ [RunStepCommitted (RunStepCommittedV2 ?b)])) (run_rows (nd_log n)) =
       Some (run_rows (nd_log nd'))"
      "facts_map RUN_STEPS_TABLE run_steps_writes (zip evs (gates @ [RunStepCommitted (RunStepCommittedV2 ?b)])) (step_rows (nd_log n)) =
       Some (step_rows (nd_log nd'))"
    by (rule append_at_head_stored [OF a assms(2,3) _ assms(4)]) (simp_all add: gates(1))
  obtain r where r: "run_rows (nd_log n) (run_key i) = Some r" "run_sees r s" "st_run_id s = i"
    using assms(4,5) n(2) by (auto simp: sees_def run_apart_def)
  have i: "rsc_run_id ?b = i" "rsc_step_index ?b = ?w"
    using r(3) by simp_all
  have c: "r ''committed_step_count'' = CInteger (uint ?w)" "r ''checkpointed_step_count'' = CInteger (uint ?w)"
    using r(2) assms(7,8) by (simp_all add: run_sees_def)
  have k: "nat (uint ?w + 1) \<noteq> nat (uint ?w)" "nat (uint ?w) = unat ?w"
    using uint_ge_0 [of ?w] by (simp_all add: nat_add_distrib)
  show ?thesis
    by (rule step_commit_rows [OF f gates(2) i r(1) c(1)])
       (use c(2) k in \<open>simp add: step_outstanding_def run_abs_def abs_row_def Let_def\<close>)
qed

lemma resume_outstanding:
  assumes "resume_committed_step h s plan nd = (Inr (PrepEffect call), nd')" "runs_ok dc nd" "sees dc nd i s"
    "validate_run_counts s = Inr ()" "st_committed_step_count s > st_checkpointed_step_count s"
  shows "nd' = nd \<and> at_run_id call = i \<and> at_step_index call = st_checkpointed_step_count s \<and>
    step_outstanding nd i (st_checkpointed_step_count s)"
proof -
  have i: "st_run_id s = i"
    by (rule sees_id [OF assms(3,2)])
  obtain step c where step: "read_run_step (nd_log nd) i (st_checkpointed_step_count s) = Inr (Some step)"
      "ss_effect step = None" "ss_checkpoint step = None" "nd' = nd"
      "rehydrate (h_tools h) i (st_checkpointed_step_count s) c = Inr call"
    using assms(1) i
    by (auto simp: resume_committed_step_def step_required_def Let_def obind_Inr oread_Inr oret_def ofail_def
        split: if_splits option.splits)
  obtain q where q: "step_rows (nd_log nd) (step_key i (uint (st_checkpointed_step_count s))) = Some q" "step_sees q step"
    using read_step_sees [OF step(1)] assms(2) by (auto simp: runs_ok_def)
  obtain r where r: "run_rows (nd_log nd) (run_key i) = Some r" "run_sees r s"
    using assms(2,3) by (auto simp: sees_def)
  have "uint (st_committed_step_count s) \<noteq> uint (st_checkpointed_step_count s)"
    using assms(5) by (simp add: word_less_def)
  then have "nat (uint (st_committed_step_count s)) \<noteq> nat (uint (st_checkpointed_step_count s))"
    using uint_ge_0 by (metis eq_nat_nat_iff)
  moreover have "at_run_id call = i \<and> at_step_index call = st_checkpointed_step_count s"
    using step(5) by (auto simp: rehydrate_def rbind_Inr split: if_splits)
  ultimately show ?thesis
    using q r step(2-4) by (simp add: step_outstanding_def step_sees_def run_sees_def run_abs_def abs_row_def)
qed

lemma commit_step_effect:
  assumes "commit_step h dc s plan receipt nd = (Inr (Some (PrepEffect call)), nd')" "others_fair dc h i"
    "domain_codec_ok dc" "runs_ok dc nd" "sees dc nd i s" "require_running s = Inr ()"
    "st_committed_step_count s = st_checkpointed_step_count s" "pl_step_index plan = st_committed_step_count s"
  shows "at_run_id call = i \<and> step_outstanding nd' i (at_step_index call)"
proof -
  obtain nd2 where a: "authorize_step h s plan receipt nd = (Inr call, nd2)"
      "append_or_conflict h dc (Agent (st_run_id s)) (step_events s plan call receipt) nd2 = (Inr True, nd')"
    using assms(1) by (auto simp: commit_step_def obind_Inr oret_def split: if_splits sum.splits)
  have nd2: "runs_ok dc nd2" "sees dc nd2 i s"
    using authorize_ticks [OF a(1)] sees_tick [OF assms(5)] assms(4,5) by (auto simp: runs_ok_def clock_ok_def)
  have "at_run_id call = st_run_id s \<and> at_step_index call = pl_step_index plan"
    using a(1) by (auto simp: authorize_step_def obind_Inr oread_Inr authorize_Inr now_ms_def)
  with commit_outstanding [OF a(2) assms(2,3) nd2 assms(6-8)] sees_id [OF assms(5,4)] show ?thesis by simp
qed

lemma prepare_once_effect:
  assumes "prepare_once h dc i plan receipt nd = (Inr (Some (PrepEffect call)), nd')"
    "others_fair dc h i" "domain_codec_ok dc" "runs_ok dc nd"
  shows "at_run_id call = i \<and> step_outstanding nd' i (at_step_index call)"
proof -
  obtain s nd1 where s: "state_required i nd = (Inr s, nd1)" and counts: "validate_run_counts s = Inr ()"
    and rest: "(if st_pending_control s \<noteq> None \<and> st_committed_step_count s = st_checkpointed_step_count s
       then apply_control h dc i s (the (st_pending_control s)) else plan_step h dc s plan receipt) nd1 =
       (Inr (Some (PrepEffect call)), nd')"
    using assms(1) by (auto simp: prepare_once_def obind_Inr oread_Inr)
  have nd1: "nd1 = nd" and sees: "sees dc nd i s"
    using state_required_same [OF s] state_required_sees [OF s] by auto
  have "apply_control h dc i s c nd \<noteq> (Inr (Some (PrepEffect call)), nd')" for c
    by (auto simp: apply_control_def obind_Inr oret_def split: if_splits)
  with rest nd1 have "plan_step h dc s plan receipt nd = (Inr (Some (PrepEffect call)), nd')"
    by (auto split: if_splits)
  then have running: "require_running s = Inr ()" and or: "(if st_committed_step_count s > st_checkpointed_step_count s
     then obind (resume_committed_step h s plan) (\<lambda>p. oret (Some p))
     else if pl_step_index plan \<noteq> st_committed_step_count s
     then ofail (InvalidStepPlan ''step index is not the next durable index'')
     else commit_step h dc s plan receipt) nd = (Inr (Some (PrepEffect call)), nd')"
    by (auto simp: plan_step_def obind_Inr oread_Inr)
  show ?thesis
  proof (cases "st_committed_step_count s > st_checkpointed_step_count s")
    case True
    then have "resume_committed_step h s plan nd = (Inr (PrepEffect call), nd')"
      using or by (auto simp: obind_Inr oret_def)
    from resume_outstanding [OF this assms(4) sees counts True] show ?thesis by simp
  next
    case False
    then have "st_committed_step_count s = st_checkpointed_step_count s"
      using counts by (auto simp: validate_run_counts_def split: if_splits)
    with False or show ?thesis
      using commit_step_effect [OF _ assms(2-4) sees running] by (auto simp: ofail_def split: if_splits)
  qed
qed

section \<open>Recorded effects stay\<close>

definition step_recorded :: "'b node \<Rightarrow> id16 \<Rightarrow> u32 \<Rightarrow> bool" where
  "step_recorded nd i n \<longleftrightarrow>
     (\<exists>q. step_rows (nd_log nd) (step_key i (uint n)) = Some q \<and> q ''effect_recorded_seq'' \<noteq> CNull \<and> q ''checkpoint_seq'' \<noteq> CNull)"

lemma unat_less_int: "unat n < k \<longleftrightarrow> uint n < int k"
proof -
  have "int (unat n) = uint n" by simp
  then show ?thesis by linarith
qed

lemma recorded_bound:
  assumes "runs_ok dc nd" "step_rows (nd_log nd) (step_key i (uint n)) = Some q" "q ''checkpoint_seq'' \<noteq> CNull"
  shows "\<exists>k p. run_of nd i = Some (k, p) \<and> unat n < k"
proof -
  have inv: "run_inv (run_rows (nd_log nd)) (step_rows (nd_log nd))"
    using assms(1) by (simp add: runs_ok_def)
  obtain r where r: "run_rows (nd_log nd) (run_key i) = Some r"
    using run_invD(2) [OF inv, of i "uint n"] assms(2) by fastforce
  from run_invD(1) [OF inv r] obtain k where "r ''checkpointed_step_count'' = CInteger (int k)" "\<not> int k \<le> uint n"
    using assms(2,3) unfolding proto_def by blast
  then show ?thesis
    using r by (auto simp: run_abs_def abs_row_def Let_def unat_less_int)
qed

lemma bound_recorded:
  assumes "runs_ok dc nd" "run_of nd i = Some (k, p)" "unat n < k"
  shows "step_recorded nd i n"
proof -
  have inv: "run_inv (run_rows (nd_log nd)) (step_rows (nd_log nd))"
    using assms(1) by (simp add: runs_ok_def)
  obtain r where r: "run_rows (nd_log nd) (run_key i) = Some r" "abs_row r = (k, p)"
    using assms(2) by (auto simp: run_abs_def)
  from run_invD(1) [OF inv r(1)] obtain c k' where ck: "r ''checkpointed_step_count'' = CInteger (int k')" "k' \<le> c"
      "\<forall>n. step_rows (nd_log nd) (step_key i n) \<noteq> None \<longleftrightarrow> 0 \<le> n \<and> n < int c"
      "\<forall>n s. step_rows (nd_log nd) (step_key i n) = Some s \<longrightarrow>
         (s ''effect_recorded_seq'' = CNull \<longleftrightarrow> int k' \<le> n) \<and> (s ''checkpoint_seq'' = CNull \<longleftrightarrow> int k' \<le> n)"
    unfolding proto_def by blast
  have "k' = k"
    using r(2) ck(1) by (auto simp: abs_row_def Let_def)
  moreover have "uint n < int k"
    using assms(3) by (simp only: unat_less_int)
  moreover have "step_rows (nd_log nd) (step_key i (uint n)) \<noteq> None"
    using ck(2,3) \<open>k' = k\<close> \<open>uint n < int k\<close> uint_ge_0 [of n] by auto
  ultimately show ?thesis
    using ck(4) unfolding step_recorded_def by fastforce
qed

lemma recorded_stays:
  assumes "runs_move dc nd nd'" "runs_ok dc nd" "step_recorded nd i n"
  shows "step_recorded nd' i n"
proof -
  obtain k p where k: "run_of nd i = Some (k, p)" "unat n < k"
    using recorded_bound [OF assms(2)] assms(3) unfolding step_recorded_def by blast
  have ok: "runs_ok dc nd'" "run_machine\<^sup>*\<^sup>* (run_of nd i) (run_of nd' i)"
    using assms(1,2) by (simp_all add: runs_move_def)
  obtain k' p' where "run_of nd' i = Some (k', p')" "k \<le> k'"
    using run_machine_grows [OF ok(2) k(1)] by blast
  with bound_recorded [OF ok(1)] k(2) show ?thesis by auto
qed

lemma checkpointed_recorded:
  assumes "runs_ok dc nd" "step_required i n nd = (Inr step, nd')" "ss_checkpoint step \<noteq> None"
  shows "step_recorded nd i n"
proof -
  have "read_run_step (nd_log nd) i n = Inr (Some step)"
    using assms(2) by (auto simp: step_required_def obind_Inr oread_Inr split: option.splits)
  then obtain q where q: "step_rows (nd_log nd) (step_key i (uint n)) = Some q" "step_sees q step"
    using read_step_sees assms(1) unfolding runs_ok_def by blast
  then have "q ''checkpoint_seq'' \<noteq> CNull"
    using assms(3) by (simp add: step_sees_def)
  from recorded_bound [OF assms(1) q(1) this] show ?thesis
    using bound_recorded [OF assms(1)] by blast
qed

lemma record_once_recorded:
  assumes "record_once h dc call report nd = (Inr (Some cp), nd')" "others_fair dc h (at_run_id call)" "domain_codec_ok dc"
    "runs_ok dc nd"
  shows "step_recorded nd' (at_run_id call) (at_step_index call)"
proof -
  let ?i = "at_run_id call" and ?n = "at_step_index call"
  obtain s step where st: "state_required ?i nd = (Inr s, nd)" "step_required ?i ?n nd = (Inr step, nd)"
    and rest: "(case ss_checkpoint step of
       Some checkpoint \<Rightarrow> obind (oread (\<lambda>_. validate_existing_effect call report step)) (\<lambda>_. oret (Some checkpoint))
     | None \<Rightarrow>
         if ss_effect step \<noteq> None
         then ofail (InvalidRunState ?i ''effect receipt exists without its atomic checkpoint'')
         else
         obind (append_or_conflict h dc (Agent ?i) (effect_events call report s step)) (\<lambda>appended.
         if \<not> appended then oret None
         else obind (step_required ?i ?n) (\<lambda>after.
              obind (oread (\<lambda>_. ok_or (InvalidRunState ?i
                                  ''effect batch committed without a checkpoint projection'') (ss_checkpoint after))) (\<lambda>checkpoint.
              obind (settle_after_checkpoint h dc ?i) (\<lambda>_. oret (Some checkpoint)))))) nd = (Inr (Some cp), nd')"
    using assms(1) state_required_same step_required_same
    unfolding record_once_def obind_Inr [of "state_required ?i"] obind_Inr [of "step_required ?i ?n"] obind_Inr [of "oread g" for g] oread_Inr
    by blast
  show ?thesis
  proof (cases "ss_checkpoint step")
    case (Some cp')
    then have "nd' = nd"
      using rest by (auto simp: obind_Inr oread_Inr oret_def)
    with checkpointed_recorded [OF assms(4) st(2)] Some show ?thesis by simp
  next
    case None
    then obtain nd1 after cp' where a: "append_or_conflict h dc (Agent ?i) (effect_events call report s step) nd = (Inr True, nd1)"
        "step_required ?i ?n nd1 = (Inr after, nd1)" "ss_checkpoint after = Some cp'"
        "settle_after_checkpoint h dc ?i nd1 = (Inr (), nd')" "ss_effect step = None"
      using rest
      by (auto simp: obind_Inr oread_Inr oret_def ofail_def split: if_splits option.splits dest: step_required_same)
    have s: "sees dc nd ?i s"
      by (rule state_required_sees [OF st(1)])
    have q: "\<exists>q. step_rows (nd_log nd) (step_key ?i (uint ?n)) = Some q \<and> step_sees q step"
      using st(2) read_step_sees assms(4)
      by (auto simp: step_required_def obind_Inr oread_Inr runs_ok_def split: option.splits)
    have m: "runs_move dc nd nd1"
      using effect_append_moves [OF assms(2,3) s q a(5)] a(1) by (metis snd_conv)
    have m': "runs_move dc nd1 nd'"
      using settle_moves [OF assms(2,3)] a(4) unfolding oinv_def by (metis snd_conv)
    have ok: "runs_ok dc nd1"
      using m assms(4) by (simp add: runs_move_def)
    from recorded_stays [OF m' ok checkpointed_recorded [OF ok a(2)]] a(3) show ?thesis by simp
  qed
qed

text \<open>On a recorded step a report is compared with the receipt and never appended.\<close>

lemma record_recorded:
  assumes "runs_ok dc nd" "step_recorded nd (at_run_id call) (at_step_index call)"
  shows "snd (record_once h dc call report nd) = nd" "\<exists>r. fst (record_once h dc call report nd) = r \<and> r \<noteq> Inr None"
proof -
  let ?i = "at_run_id call" and ?n = "at_step_index call"
  have cp: "ss_checkpoint step \<noteq> None" if "step_required ?i ?n nd = (Inr step, nd')" for step nd'
  proof -
    have "read_run_step (nd_log nd) ?i ?n = Inr (Some step)"
      using that by (auto simp: step_required_def obind_Inr oread_Inr split: option.splits)
    with assms read_step_sees show ?thesis
      by (fastforce simp: runs_ok_def step_recorded_def step_sees_def)
  qed
  have "record_once h dc call report nd \<in> {(Inl e, nd) | e. True} \<union> {(Inr (Some c), nd) | c. True}"
  proof (cases "state_required ?i nd")
    case (Pair r1 n1)
    note st = Pair state_required_same [OF Pair]
    show ?thesis
    proof (cases "step_required ?i ?n nd")
      case (Pair r2 n2)
      note step = Pair step_required_same [OF Pair]
      show ?thesis
      proof (cases r2)
        case (Inr step')
        then obtain c where "ss_checkpoint step' = Some c" using cp step by fastforce
        with st step Inr show ?thesis
          by (auto simp: record_once_def obind_def oread_def oret_def split: sum.split)
      qed (use st step in \<open>auto simp: record_once_def obind_def split: sum.split\<close>)
    qed
  qed
  then show "snd (record_once h dc call report nd) = nd" "\<exists>r. fst (record_once h dc call report nd) = r \<and> r \<noteq> Inr None"
    by auto
qed

section \<open>Properties\<close>

text \<open>
  C6: The harness refines the Run machine. Over any sequence of harness calls, by any handles, with
  other holders of the log working on other Runs at any moment and on the same Run between the head and
  the append, every Run moves by steps of the machine: started once, one outstanding step at a time,
  a receipt before the next commit, parked and resumed only at step boundaries, ended for good.
\<close>

theorem harness_refines_machine:
  assumes "(harness_step dc)\<^sup>*\<^sup>* nd nd'" "domain_codec_ok dc" "runs_ok dc nd"
  shows "run_machine\<^sup>*\<^sup>* (run_of nd i) (run_of nd' i)"
  using harness_steps_move [OF assms(1,2)] assms(3) by (simp add: runs_move_def)

text \<open>
  C7: The invariant of the Run rows. After any sequence of harness calls the log is sound and, for every
  Run, committed and checkpointed counts differ by at most one, the steps present are exactly the
  committed ones, exactly the checkpointed ones carry an effect receipt and a checkpoint, a Run with an
  outstanding step is running, the pause columns are set exactly when it is paused, and an ended Run has
  no pending control.
\<close>

theorem harness_keeps_run_rows:
  assumes "(harness_step dc)\<^sup>*\<^sup>* nd nd'" "domain_codec_ok dc" "runs_ok dc nd"
  shows "log_sound (nd_log nd') \<and> run_inv (run_rows (nd_log nd')) (step_rows (nd_log nd'))"
  using harness_steps_move [OF assms(1,2)] assms(3) by (simp add: runs_move_def runs_ok_def)

text \<open>
  C8: No call without a durable intent. When \<open>prepare_step\<close> hands out a tool call, the log it leaves
  behind has the Run's step row for that call, without a receipt, and the Run is outstanding at that step.
\<close>

theorem call_needs_durable_intent:
  assumes "prepare_step h dc i plan receipt nd = (Inr (PrepEffect call), nd')"
    "others_fair dc h i" "domain_codec_ok dc" "runs_ok dc nd"
  shows "at_run_id call = i \<and> step_outstanding nd' i (at_step_index call) \<and> runs_ok dc nd'"
proof -
  have "retried i (prepare_once h dc i plan receipt) nd = (Inr (PrepEffect call), nd')"
    using assms(1) by (auto simp: prepare_step_def obind_Inr oread_Inr)
  then obtain nd1 where nd1: "runs_move dc nd nd1" "prepare_once h dc i plan receipt nd1 = (Inr (Some (PrepEffect call)), nd')"
    using retry_result [OF _ prepare_once_moves [OF assms(2,3)]] unfolding retried_def by blast
  then have ok: "runs_ok dc nd1"
    using assms(4) by (simp add: runs_move_def)
  moreover have "runs_move dc nd1 nd'"
    using prepare_once_moves [OF assms(2,3)] nd1(2) unfolding oinv_def by (metis snd_conv)
  ultimately show ?thesis
    using prepare_once_effect [OF nd1(2) assms(2,3) ok] by (simp add: runs_move_def)
qed

lemma retried_decided:
  assumes "snd (body nd) = nd" "fst (body nd) \<noteq> Inr None"
  shows "snd (retried i body nd) = nd"
  using assms
  by (cases "body nd") (auto simp: retried_def CONDITIONAL_APPEND_RETRY_MAX_def eval_nat_numeral obind_def oret_def
      split: sum.split option.split)

text \<open>
  C9: An effect is recorded once. After \<open>record_effect\<close> has returned a checkpoint for a call, and after any
  further harness calls, the step still carries its receipt and checkpoint, and recording any report for
  that call again, from any handle, appends nothing: it is compared with the receipt.
\<close>

theorem effect_recorded_once:
  assumes "record_effect h dc call report nd = (Inr cp, nd')" "others_fair dc h (at_run_id call)"
    "domain_codec_ok dc" "runs_ok dc nd" "(harness_step dc)\<^sup>*\<^sup>* nd' nd''"
  shows "step_recorded nd'' (at_run_id call) (at_step_index call) \<and> snd (record_effect h' dc call report' nd'') = nd''"
proof -
  have "retried (at_run_id call) (record_once h dc call report) nd = (Inr cp, nd')"
    using assms(1) by (auto simp: record_effect_def obind_Inr oread_Inr)
  then obtain nd1 where nd1: "runs_move dc nd nd1" "record_once h dc call report nd1 = (Inr (Some cp), nd')"
    using retry_result [OF _ record_once_moves [OF assms(2,3)]] unfolding retried_def by blast
  have ok: "runs_ok dc nd1"
    using nd1(1) assms(4) by (simp add: runs_move_def)
  have "runs_move dc nd1 nd'"
    using record_once_moves [OF assms(2,3)] nd1(2) unfolding oinv_def by (metis snd_conv)
  then have ok': "runs_ok dc nd'"
    using ok by (simp add: runs_move_def)
  have m: "runs_move dc nd' nd''"
    by (rule harness_steps_move [OF assms(5,3)])
  have rec: "step_recorded nd'' (at_run_id call) (at_step_index call)"
    by (rule recorded_stays [OF m ok' record_once_recorded [OF nd1(2) assms(2,3) ok]])
  have ok'': "runs_ok dc nd''"
    using m ok' by (simp add: runs_move_def)
  have "snd (retried (at_run_id call) (record_once h' dc call report') nd'') = nd''"
    using record_recorded [OF ok'' rec] by (intro retried_decided) auto
  then show ?thesis
    using rec by (auto simp: record_effect_def obind_def oread_def split: sum.split)
qed

section \<open>Witnesses\<close>

lemma sample_fair: "others_fair body_codec sample_harness i"
  by (rule quiet_fair [OF sample_quiet(1)])

lemma sample_steps:
  "(harness_step body_codec)\<^sup>*\<^sup>* run_node started_node" "(harness_step body_codec)\<^sup>*\<^sup>* run_node planned_node"
  "(harness_step body_codec)\<^sup>*\<^sup>* planned_node recorded_node"
proof -
  have a: "harness_step body_codec run_node started_node"
    unfolding started_node_def by (rule harness_step.StartRun [OF sample_fair])
  have b: "harness_step body_codec started_node planned_node"
    unfolding planned_node_def by (rule harness_step.PrepareStep [OF sample_fair])
  have c: "harness_step body_codec planned_node recorded_node"
    unfolding recorded_node_def by (rule harness_step.RecordEffect [OF sample_fair])
  show "(harness_step body_codec)\<^sup>*\<^sup>* run_node started_node" "(harness_step body_codec)\<^sup>*\<^sup>* run_node planned_node"
    "(harness_step body_codec)\<^sup>*\<^sup>* planned_node recorded_node"
    using a b c by (auto intro: rtranclp.rtrancl_into_rtrancl)
qed

lemma planned_ok: "runs_ok body_codec planned_node"
  using harness_steps_move [OF sample_steps(2) body_codec_ok(1)] run_node_ok by (simp add: runs_move_def)

text \<open>A Run that is started and commits its first step.\<close>

theorem harness_refines_machine_witness:
  "run_of run_node 5 = None \<and> run_machine\<^sup>*\<^sup>* (run_of run_node 5) (run_of planned_node 5) \<and>
   run_of planned_node 5 = Some (0, Outstanding)"
proof -
  obtain ev :: "body event" where "run_rows (nd_log planned_node) = [run_key 5 \<mapsto> planned_row ev]"
    by (rule prepare_search)
  then have "run_of planned_node 5 = Some (0, Outstanding)"
    by (simp add: run_abs_def abs_row_def RUNS_TABLE_def run_values_v2_def budget_values_def usage_values_def integer_u32_def integer_u64_def)
  then show ?thesis
    using harness_refines_machine [OF sample_steps(2) body_codec_ok(1) run_node_ok, of 5] run_node_rows
    by (simp add: run_abs_def)
qed

theorem harness_keeps_run_rows_witness:
  "log_sound (nd_log planned_node) \<and> run_inv (run_rows (nd_log planned_node)) (step_rows (nd_log planned_node))"
  by (rule harness_keeps_run_rows [OF sample_steps(2) body_codec_ok(1) run_node_ok])

theorem call_needs_durable_intent_witness:
  "at_run_id search_call = 5 \<and> step_outstanding planned_node 5 (at_step_index search_call) \<and> runs_ok body_codec planned_node"
proof -
  have "prepare_step sample_harness body_codec 5 search_plan None started_node = (Inr (PrepEffect search_call), planned_node)"
    by (rule prepare_search)
  from call_needs_durable_intent [OF this sample_fair body_codec_ok(1) started_ok] show ?thesis .
qed

theorem effect_recorded_once_witness:
  "step_recorded recorded_node (at_run_id search_call) (at_step_index search_call) \<and>
   snd (record_effect sample_harness body_codec search_call search_report recorded_node) = recorded_node"
proof -
  obtain cp where "record_effect sample_harness body_codec search_call search_report planned_node = (Inr cp, recorded_node)"
    by (rule record_search)
  from effect_recorded_once [OF this sample_fair body_codec_ok(1) planned_ok rtranclp.rtrancl_refl] show ?thesis .
qed

end
