(* ===== verification/Tool_Properties.thy ===== *)
theory Tool_Properties
  imports Sample_Run
begin

text \<open>The properties of tool authorization: when a call is authorized, and that a committed call is rehydrated as it was.\<close>


text \<open>
  C40: A committed call comes back as it was authorized. Under a registry of valid descriptors, the stored
  form of an authorized call is rehydrated to the same call; two authorized calls share an idempotency
  key only when they agree on the Run, the step and the call id.
\<close>

theorem call_rehydrates:
  assumes "tool_registry_new ds = Inr reg" "\<And>d. d \<in> set ds \<Longrightarrow> valid_id_text TOOL_ID_LEN_MAX (td_id d)"
    "authorize reg request context = Inr call" "authorize reg' request' context' = Inr call'"
  shows "rehydrate reg (at_run_id call) (at_step_index call) (domain_call call) = Inr call \<and>
    (at_idempotency_key call = at_idempotency_key call' \<longleftrightarrow>
       at_run_id call = at_run_id call' \<and> at_step_index call = at_step_index call' \<and> at_call_id call = at_call_id call')"
proof -
  obtain d where "map_of reg (tq_tool_id request) = Some d"
    using assms(3) by (auto simp: authorize_Inr)
  then have "valid_id_text TOOL_ID_LEN_MAX (tq_tool_id request)"
    using registry_keys [OF assms(1)] assms(2) by metis
  then have "rehydrate reg (at_run_id call) (at_step_index call) (domain_call call) = Inr call"
    using rehydrate_authorized [OF assms(3)] registry_keys [OF assms(1)] by blast
  then show ?thesis
    using assms(3,4) by (auto simp: authorize_Inr)
qed

definition search_request :: tool_call_request where
  "search_request = ToolCallRequestFields ''search'' 11 [1, 2, 3]"

text \<open>A grant that asks for a gate, and a receipt for the call that expires in the next millisecond.\<close>

definition gated_context :: "u32 \<Rightarrow> authorization_context" where
  "gated_context step = AuthorizationContextFields 5 step False (projr (autonomy_new 0)) [(''search'', GrantGate)]
     (Some (GateReceiptFields 31 5 11 ''search'' 8 ''checked'' 1001)) 1000"



lemma search_authorize:
  "authorize [(''search'', search_tool)] search_request (gated_context step) =
     Inr (AuthorizedToolCallFields 5 step search_tool 11 (idempotency_key 5 step 11) [1, 2, 3])"
  by (simp add: authorize_Inr exact_receipt_def search_request_def gated_context_def search_tool_def)

lemma search_registry: "tool_registry_new [search_tool] = Inr [(''search'', search_tool)]"
  by (simp add: tool_registry_new_def TOOL_REGISTRY_COUNT_MAX_def search_tool_def)

theorem call_rehydrates_witness:
  "rehydrate [(''search'', search_tool)] 5 0 (domain_call search_call) = Inr search_call \<and>
   idempotency_key 5 0 11 \<noteq> idempotency_key 5 1 11"
  using call_rehydrates [OF search_registry _ search_authorize [of 0] search_authorize [of 1]] search_id
  by (simp add: search_call_def search_tool_def)

end
