(* ===== verification/Evidence_State.thy ===== *)
theory Evidence_State
  imports Job_State Ingest_Projections
begin

text \<open>
  Typed reads over the ingestion projections, \<open>crates/pos-domain/src/evidence_state.rs\<close>: evidence, stage,
  chunk, embedding, transcript and source-health records decoded from their rows, the bounded listings,
  and the proof that an evidence row maintained by the projections always decodes. The reason of a refusal
  keeps its fixed text. Where SQL leaves the order of equal sort keys open, rows stay in key order.
\<close>

section \<open>Records\<close>

definition EVIDENCE_LIST_ROW_COUNT_MAX :: u32 where
  "EVIDENCE_LIST_ROW_COUNT_MAX = 500"

datatype stage_state = StageRunning | StageDone | StageRetrying | StageDead

fun stage_state_as_str :: "stage_state \<Rightarrow> string" where
  "stage_state_as_str StageRunning = ''running''"
| "stage_state_as_str StageDone = ''done''"
| "stage_state_as_str StageRetrying = ''retrying''"
| "stage_state_as_str StageDead = ''dead''"

definition stage_state_parse :: "string \<Rightarrow> stage_state option" where
  "stage_state_parse value =
     (if value = ''running'' then Some StageRunning
      else if value = ''done'' then Some StageDone
      else if value = ''retrying'' then Some StageRetrying
      else if value = ''dead'' then Some StageDead
      else None)"

datatype (plugins only: code size) evidence_record = EvidenceRecordFields
  (er_evidence_id: id16)
  (er_source_id: id16)
  (er_source_kind: string)
  (er_external: external_ref)
  (er_media_kind: media_kind)
  (er_shape: evidence_shape)
  (er_content_blob: digest32)
  (er_byte_size: u64)
  (er_occurred_ts_ms: u64)
  (er_author: "string option")
  (er_title: "string option")
  (er_thread_ref: "string option")
  (er_status: evidence_status)
  (er_pass: u32)
  (er_text_blob: "digest32 option")
  (er_text_byte_size: "u64 option")
  (er_segments_blob: "digest32 option")
  (er_segment_count: "u64 option")
  (er_canary_level: canary_level)
  (er_chunk_count: u64)
  (er_chunk_pass: "u32 option")
  (er_added_seq: event_seq)
  (er_updated_seq: event_seq)

datatype (plugins only: code size) stage_record = StageRecordFields
  (sgr_evidence_id: id16)
  (sgr_stage: ingest_stage)
  (sgr_pass: u32)
  (sgr_state: stage_state)
  (sgr_attempt_index: u32)
  (sgr_job_id: "id16 option")
  (sgr_started_seq: event_seq)
  (sgr_settled_seq: "event_seq option")
  (sgr_wall_ms: "u64 option")
  (sgr_bytes_read: "u64 option")
  (sgr_item_count: "u64 option")
  (sgr_last_error_code: "string option")
  (sgr_last_error_detail: "string option")

datatype (plugins only: code size) chunk_record = ChunkRecordFields
  (ckr_chunk_id: id16)
  (ckr_evidence_id: id16)
  (ckr_ordinal: u32)
  (ckr_kind: chunk_kind)
  (ckr_byte_start: u64)
  (ckr_byte_end: u64)
  (ckr_locator: locator)
  (ckr_content_hash: digest32)
  (ckr_token_count_estimate: u32)
  (ckr_pass: u32)

datatype (plugins only: code size) source_health_record = SourceHealthRecordFields
  (shr_source_id: id16)
  (shr_stage: ingest_stage)
  (shr_ok_count: u64)
  (shr_failed_count: u64)
  (shr_dead_count: u64)
  (shr_item_count: u64)
  (shr_bytes_total: u64)
  (shr_wall_ms_total: u64)
  (shr_last_success_ts_ms: "u64 option")
  (shr_last_failure_ts_ms: "u64 option")
  (shr_last_error_code: "string option")

record evidence_list_filter =
  ef_source_id :: "id16 option"
  ef_status :: "evidence_status option"
  ef_row_count_max :: "u32 option"

datatype evidence_read_error = EvidenceReadStore store_error | EvidenceCorrupt string string

section \<open>Conversions\<close>

definition ev_id_bytes :: "string \<Rightarrow> bytes \<Rightarrow> evidence_read_error + id16" where
  "ev_id_bytes table bytes = ok_or (EvidenceCorrupt table ''id column'') (id_try_from bytes)"

definition ev_hash_bytes :: "string \<Rightarrow> bytes \<Rightarrow> evidence_read_error + digest32" where
  "ev_hash_bytes table bytes = ok_or (EvidenceCorrupt table ''hash column'') (digest_try_from bytes)"

definition pass_value :: "i64 \<Rightarrow> u32" where
  "pass_value value = (case try_u32 value of None \<Rightarrow> 0 | Some v \<Rightarrow> v)"

definition dim_value :: "i64 \<Rightarrow> u16" where
  "dim_value value = (case try_u16 value of None \<Rightarrow> 0 | Some v \<Rightarrow> v)"

definition enrichment_value :: "i64 \<Rightarrow> u16" where
  "enrichment_value value = (case try_u16 value of None \<Rightarrow> 0 | Some v \<Rightarrow> v)"

section \<open>Evidence\<close>

definition EVIDENCE_COLUMNS :: "string list" where
  "EVIDENCE_COLUMNS =
     [''evidence_id'', ''source_id'', ''source_kind'', ''external_id'', ''external_url'', ''external_version'',
      ''media_kind'', ''content_blob'', ''byte_size'', ''occurred_ts_ms'', ''author'', ''title'', ''thread_ref'',
      ''added_seq'', ''shape'', ''status'', ''pass'', ''text_blob'', ''text_byte_size'', ''segments_blob'',
      ''segment_count'', ''canary_level'', ''chunk_count'', ''chunk_pass'', ''updated_seq'']"

datatype (plugins only: code size) evidence_raw = EvidenceRaw
  bytes bytes string string "string option" "string option" string bytes i64 i64
  "string option" "string option" "string option" i64 string string i64 "bytes option" "i64 option"
  "bytes option" "i64 option" "string option" i64 "i64 option" i64

definition evidence_raw_of :: "sql_cell list \<Rightarrow> unit + evidence_raw" where
  "evidence_raw_of c =
     rbind (get_blob (c ! 0)) (\<lambda>evidence_id.
     rbind (get_blob (c ! 1)) (\<lambda>source_id.
     rbind (get_text (c ! 2)) (\<lambda>source_kind.
     rbind (get_text (c ! 3)) (\<lambda>ext_id.
     rbind (get_opt get_text (c ! 4)) (\<lambda>ext_url.
     rbind (get_opt get_text (c ! 5)) (\<lambda>ext_version.
     rbind (get_text (c ! 6)) (\<lambda>media_kind.
     rbind (get_blob (c ! 7)) (\<lambda>content_blob.
     rbind (get_i64 (c ! 8)) (\<lambda>byte_size.
     rbind (get_i64 (c ! 9)) (\<lambda>occurred_ts_ms.
     rbind (get_opt get_text (c ! 10)) (\<lambda>author.
     rbind (get_opt get_text (c ! 11)) (\<lambda>title.
     rbind (get_opt get_text (c ! 12)) (\<lambda>thread_ref.
     rbind (get_i64 (c ! 13)) (\<lambda>added_seq.
     rbind (get_text (c ! 14)) (\<lambda>shape.
     rbind (get_text (c ! 15)) (\<lambda>status.
     rbind (get_i64 (c ! 16)) (\<lambda>pass.
     rbind (get_opt get_blob (c ! 17)) (\<lambda>text_blob.
     rbind (get_opt get_i64 (c ! 18)) (\<lambda>text_byte_size.
     rbind (get_opt get_blob (c ! 19)) (\<lambda>segments_blob.
     rbind (get_opt get_i64 (c ! 20)) (\<lambda>segment_count.
     rbind (get_opt get_text (c ! 21)) (\<lambda>canary_level.
     rbind (get_i64 (c ! 22)) (\<lambda>chunk_count.
     rbind (get_opt get_i64 (c ! 23)) (\<lambda>chunk_pass.
     rbind (get_i64 (c ! 24)) (\<lambda>updated_seq.
     Inr (EvidenceRaw evidence_id source_id source_kind ext_id ext_url ext_version media_kind content_blob
            byte_size occurred_ts_ms author title thread_ref added_seq shape status pass text_blob
            text_byte_size segments_blob segment_count canary_level chunk_count chunk_pass
            updated_seq))))))))))))))))))))))))))"

fun evidence_into_record :: "evidence_raw \<Rightarrow> evidence_read_error + evidence_record" where
  "evidence_into_record (EvidenceRaw evidence_id source_id source_kind ext_id ext_url ext_version media_kind
      content_blob byte_size occurred_ts_ms author title thread_ref added_seq shape status pass text_blob
      text_byte_size segments_blob segment_count canary_level chunk_count chunk_pass updated_seq) =
     rbind (ev_id_bytes ''proj_evidence'' evidence_id) (\<lambda>evidence_id'.
     rbind (ev_id_bytes ''proj_evidence'' source_id) (\<lambda>source_id'.
     rbind (ok_or (EvidenceCorrupt ''proj_evidence'' ''unknown media kind'') (media_parse media_kind)) (\<lambda>media.
     rbind (ok_or (EvidenceCorrupt ''proj_evidence'' ''unknown shape'') (shape_parse shape)) (\<lambda>shape'.
     rbind (ev_hash_bytes ''proj_evidence'' content_blob) (\<lambda>content.
     rbind (ok_or (EvidenceCorrupt ''proj_evidence'' ''unknown status'') (evidence_status_parse status)) (\<lambda>status'.
     rbind (rtranspose (ev_hash_bytes ''proj_evidence'') text_blob) (\<lambda>text.
     rbind (rtranspose (ev_hash_bytes ''proj_evidence'') segments_blob) (\<lambda>segments.
     rbind (ok_or (EvidenceCorrupt ''proj_evidence'' ''unknown canary level'')
              (case canary_level of None \<Rightarrow> Some Clean | Some level \<Rightarrow> canary_parse level)) (\<lambda>canary.
     Inr (EvidenceRecordFields evidence_id' source_id' source_kind (ExternalRefFields ext_id ext_url ext_version)
            media shape' content (non_negative byte_size) (non_negative occurred_ts_ms) author title thread_ref
            status' (pass_value pass) text (map_option non_negative text_byte_size) segments
            (map_option non_negative segment_count) canary (non_negative chunk_count)
            (map_option pass_value chunk_pass) (non_negative added_seq) (non_negative updated_seq)))))))))))"

definition read_evidence :: "'b project_log \<Rightarrow> id16 \<Rightarrow> evidence_read_error + evidence_record option" where
  "read_evidence l evidence_id =
     rbind (map_err EvidenceReadStore (with_reader ''read evidence row'' (\<lambda>db.
              rbind (table_rows EVIDENCE_TABLE (main_tables db)) (\<lambda>t.
              case filter (\<lambda>kr. column_cell EVIDENCE_TABLE kr ''evidence_id'' = CBlob (into_bytes evidence_id)) t of
                [] \<Rightarrow> Inr None
              | kr # _ \<Rightarrow>
                  rbind (evidence_raw_of (select_columns EVIDENCE_TABLE EVIDENCE_COLUMNS kr)) (\<lambda>raw. Inr (Some raw))))
              (pl_store l))) (\<lambda>raw.
     rtranspose evidence_into_record raw)"

text \<open>\<open>ORDER BY occurred_ts_ms DESC, evidence_id ASC\<close> over rows in primary-key order.\<close>

definition latest_occurrence_first :: "table \<Rightarrow> table" where
  "latest_occurrence_first rows =
     rev (sort_key (\<lambda>kr. column_cell EVIDENCE_TABLE kr ''occurred_ts_ms'') (rev rows))"

definition evidence_filter_matches :: "evidence_list_filter \<Rightarrow> sql_cell list \<times> row \<Rightarrow> bool" where
  "evidence_filter_matches f kr \<longleftrightarrow>
     (case ef_source_id f of
        None \<Rightarrow> True | Some i \<Rightarrow> column_cell EVIDENCE_TABLE kr ''source_id'' = CBlob (into_bytes i)) \<and>
     (case ef_status f of
        None \<Rightarrow> True | Some s \<Rightarrow> column_cell EVIDENCE_TABLE kr ''status'' = CText (evidence_status_as_str s))"

definition evidence_list_limit :: "evidence_list_filter \<Rightarrow> u32" where
  "evidence_list_limit f =
     min (case ef_row_count_max f of None \<Rightarrow> EVIDENCE_LIST_ROW_COUNT_MAX | Some n \<Rightarrow> n) EVIDENCE_LIST_ROW_COUNT_MAX"

definition list_evidence ::
  "'b project_log \<Rightarrow> evidence_list_filter \<Rightarrow> evidence_read_error + evidence_record list" where
  "list_evidence l f =
     rbind (map_err EvidenceReadStore (with_reader ''list evidence rows'' (\<lambda>db.
              rbind (table_rows EVIDENCE_TABLE (main_tables db)) (\<lambda>t.
              rcollect (\<lambda>kr. evidence_raw_of (select_columns EVIDENCE_TABLE EVIDENCE_COLUMNS kr))
                (take (unat (evidence_list_limit f))
                  (latest_occurrence_first (filter (evidence_filter_matches f) t))))) (pl_store l))) (\<lambda>raws.
     rcollect evidence_into_record raws)"

section \<open>Stages\<close>

definition STAGE_COLUMNS :: "string list" where
  "STAGE_COLUMNS =
     [''evidence_id'', ''stage'', ''pass'', ''state'', ''attempt_index'', ''job_id'', ''started_seq'', ''settled_seq'',
      ''wall_ms'', ''bytes_read'', ''item_count'', ''last_error_code'', ''last_error_detail'']"

datatype (plugins only: code size) stage_raw = StageRawRow
  bytes string i64 string i64 "bytes option" i64 "i64 option" "i64 option" "i64 option" "i64 option"
  "string option" "string option"

definition stage_raw_of :: "sql_cell list \<Rightarrow> unit + stage_raw" where
  "stage_raw_of c =
     rbind (get_blob (c ! 0)) (\<lambda>evidence_id.
     rbind (get_text (c ! 1)) (\<lambda>stage.
     rbind (get_i64 (c ! 2)) (\<lambda>pass.
     rbind (get_text (c ! 3)) (\<lambda>state.
     rbind (get_i64 (c ! 4)) (\<lambda>attempt_index.
     rbind (get_opt get_blob (c ! 5)) (\<lambda>job_id.
     rbind (get_i64 (c ! 6)) (\<lambda>started_seq.
     rbind (get_opt get_i64 (c ! 7)) (\<lambda>settled_seq.
     rbind (get_opt get_i64 (c ! 8)) (\<lambda>wall_ms.
     rbind (get_opt get_i64 (c ! 9)) (\<lambda>bytes_read.
     rbind (get_opt get_i64 (c ! 10)) (\<lambda>item_count.
     rbind (get_opt get_text (c ! 11)) (\<lambda>last_error_code.
     rbind (get_opt get_text (c ! 12)) (\<lambda>last_error_detail.
     Inr (StageRawRow evidence_id stage pass state attempt_index job_id started_seq settled_seq wall_ms
            bytes_read item_count last_error_code last_error_detail))))))))))))))"

fun stage_into_record :: "stage_raw \<Rightarrow> evidence_read_error + stage_record" where
  "stage_into_record (StageRawRow evidence_id stage pass state attempt_index job_id started_seq settled_seq wall_ms
      bytes_read item_count last_error_code last_error_detail) =
     rbind (ev_id_bytes ''proj_evidence_stages'' evidence_id) (\<lambda>evidence_id'.
     rbind (ok_or (EvidenceCorrupt ''proj_evidence_stages'' ''unknown stage'') (stage_parse stage)) (\<lambda>stage'.
     rbind (ok_or (EvidenceCorrupt ''proj_evidence_stages'' ''unknown stage state'') (stage_state_parse state)) (\<lambda>state'.
     rbind (rtranspose (ev_id_bytes ''proj_evidence_stages'') job_id) (\<lambda>job_id'.
     Inr (StageRecordFields evidence_id' stage' (pass_value pass) state' (pass_value attempt_index) job_id'
            (non_negative started_seq) (map_option non_negative settled_seq) (map_option non_negative wall_ms)
            (map_option non_negative bytes_read) (map_option non_negative item_count) last_error_code
            last_error_detail)))))"

definition list_stages :: "'b project_log \<Rightarrow> id16 \<Rightarrow> evidence_read_error + stage_record list" where
  "list_stages l evidence_id =
     rbind (map_err EvidenceReadStore (with_reader ''list stage rows'' (\<lambda>db.
              rbind (table_rows EVIDENCE_STAGES_TABLE (main_tables db)) (\<lambda>t.
              rcollect (\<lambda>kr. stage_raw_of (select_columns EVIDENCE_STAGES_TABLE STAGE_COLUMNS kr))
                (filter (\<lambda>kr. column_cell EVIDENCE_STAGES_TABLE kr ''evidence_id'' = CBlob (into_bytes evidence_id)) t)))
              (pl_store l))) (\<lambda>raws.
     rbind (rcollect stage_into_record raws) (\<lambda>records.
     Inr (sort_key (\<lambda>s. stage_rank (sgr_stage s)) records)))"

section \<open>Chunks\<close>

definition CHUNK_COLUMNS :: "string list" where
  "CHUNK_COLUMNS =
     [''chunk_id'', ''evidence_id'', ''ordinal'', ''kind'', ''byte_start'', ''byte_end'', ''locator_kind'',
      ''locator_start'', ''locator_end'', ''content_hash'', ''token_count_estimate'', ''pass'']"

datatype (plugins only: code size) chunk_raw = ChunkRaw
  bytes bytes i64 string i64 i64 string i64 i64 bytes i64 i64

definition chunk_raw_of :: "sql_cell list \<Rightarrow> unit + chunk_raw" where
  "chunk_raw_of c =
     rbind (get_blob (c ! 0)) (\<lambda>chunk_id.
     rbind (get_blob (c ! 1)) (\<lambda>evidence_id.
     rbind (get_i64 (c ! 2)) (\<lambda>ordinal.
     rbind (get_text (c ! 3)) (\<lambda>kind.
     rbind (get_i64 (c ! 4)) (\<lambda>byte_start.
     rbind (get_i64 (c ! 5)) (\<lambda>byte_end.
     rbind (get_text (c ! 6)) (\<lambda>locator_kind.
     rbind (get_i64 (c ! 7)) (\<lambda>locator_start.
     rbind (get_i64 (c ! 8)) (\<lambda>locator_end.
     rbind (get_blob (c ! 9)) (\<lambda>content_hash.
     rbind (get_i64 (c ! 10)) (\<lambda>token_count_estimate.
     rbind (get_i64 (c ! 11)) (\<lambda>pass.
     Inr (ChunkRaw chunk_id evidence_id ordinal kind byte_start byte_end locator_kind locator_start locator_end
            content_hash token_count_estimate pass)))))))))))))"

fun chunk_into_record :: "chunk_raw \<Rightarrow> evidence_read_error + chunk_record" where
  "chunk_into_record (ChunkRaw chunk_id evidence_id ordinal kind byte_start byte_end locator_kind locator_start
      locator_end content_hash token_count_estimate pass) =
     rbind (ev_id_bytes ''proj_chunks'' chunk_id) (\<lambda>chunk_id'.
     rbind (ev_id_bytes ''proj_chunks'' evidence_id) (\<lambda>evidence_id'.
     rbind (ok_or (EvidenceCorrupt ''proj_chunks'' ''unknown chunk kind'') (chunk_kind_parse kind)) (\<lambda>kind'.
     rbind (ok_or (EvidenceCorrupt ''proj_chunks'' ''unknown locator kind'')
              (locator_from_columns locator_kind (non_negative locator_start) (non_negative locator_end))) (\<lambda>locator.
     rbind (ev_hash_bytes ''proj_chunks'' content_hash) (\<lambda>content_hash'.
     Inr (ChunkRecordFields chunk_id' evidence_id' (pass_value ordinal) kind' (non_negative byte_start)
            (non_negative byte_end) locator content_hash' (pass_value token_count_estimate) (pass_value pass)))))))"

text \<open>
  The pass a listing selects: the one asked for, or the evidence row's \<open>chunk_pass\<close>, where no row and a
  NULL both select nothing.
\<close>

definition chunk_pass_cell :: "id16 \<Rightarrow> u32 option \<Rightarrow> tables \<Rightarrow> unit + sql_cell" where
  "chunk_pass_cell evidence_id pass ts =
     (case pass of
        Some p \<Rightarrow> Inr (CInteger (uint p))
      | None \<Rightarrow>
          rbind (table_rows EVIDENCE_TABLE ts) (\<lambda>t.
          case filter (\<lambda>kr. column_cell EVIDENCE_TABLE kr ''evidence_id'' = CBlob (into_bytes evidence_id)) t of
            [] \<Rightarrow> Inr CNull
          | kr # _ \<Rightarrow> Inr (column_cell EVIDENCE_TABLE kr ''chunk_pass'')))"

definition list_chunks ::
  "'b project_log \<Rightarrow> id16 \<Rightarrow> u32 option \<Rightarrow> u32 \<Rightarrow> evidence_read_error + chunk_record list" where
  "list_chunks l evidence_id pass row_count_max =
     rbind (map_err EvidenceReadStore (with_reader ''list chunk rows'' (\<lambda>db.
              rbind (chunk_pass_cell evidence_id pass (main_tables db)) (\<lambda>selected.
              rbind (table_rows CHUNKS_TABLE (main_tables db)) (\<lambda>t.
              rcollect (\<lambda>kr. chunk_raw_of (select_columns CHUNKS_TABLE CHUNK_COLUMNS kr))
                (take (unat (min row_count_max EVIDENCE_LIST_ROW_COUNT_MAX))
                  (sort_key (\<lambda>kr. column_cell CHUNKS_TABLE kr ''ordinal'')
                    (filter (\<lambda>kr. column_cell CHUNKS_TABLE kr ''evidence_id'' = CBlob (into_bytes evidence_id) \<and>
                                  selected \<noteq> CNull \<and> column_cell CHUNKS_TABLE kr ''pass'' = selected) t)))))) (pl_store l)))
     (rcollect chunk_into_record)"

text \<open>\<open>SELECT count(DISTINCT content_hash), count(*) FROM proj_chunks\<close>.\<close>

definition count_chunks_by_content :: "'b project_log \<Rightarrow> evidence_read_error + u64 \<times> u64" where
  "count_chunks_by_content l =
     map_err EvidenceReadStore (with_reader ''count chunk content'' (\<lambda>db.
       rbind (table_rows CHUNKS_TABLE (main_tables db)) (\<lambda>t.
       Inr (word_of_nat (length (remdups (filter (\<lambda>c. c \<noteq> CNull) (map (\<lambda>kr. column_cell CHUNKS_TABLE kr ''content_hash'') t)))),
            word_of_nat (length t)))) (pl_store l))"

section \<open>Embeddings\<close>

datatype (plugins only: code size) chunk_embedding_record = ChunkEmbeddingRecordFields
  (cer_chunk_id: id16)
  (cer_evidence_id: id16)
  (cer_model_id: string)
  (cer_enrichment_version: u16)
  (cer_dim: u16)
  (cer_vectors_blob: digest32)
  (cer_row: u32)
  (cer_content_hash: digest32)
  (cer_token_count: u32)
  (cer_truncated: bool)
  (cer_pass: u32)

definition embedding_byte_range :: "chunk_embedding_record \<Rightarrow> u64 \<times> u64" where
  "embedding_byte_range c =
     (let width = ucast (cer_dim c) * 4; start = ucast (cer_row c) * width in (start, start + width))"

definition EMBEDDING_COLUMNS :: "string list" where
  "EMBEDDING_COLUMNS =
     [''chunk_id'', ''evidence_id'', ''model_id'', ''enrichment_version'', ''dim'', ''vectors_blob'', ''row'',
      ''content_hash'', ''token_count'', ''truncated'', ''pass'']"

datatype (plugins only: code size) embedding_raw = EmbeddingRaw
  bytes bytes string i64 i64 bytes i64 bytes i64 i64 i64

definition embedding_raw_of :: "sql_cell list \<Rightarrow> unit + embedding_raw" where
  "embedding_raw_of c =
     rbind (get_blob (c ! 0)) (\<lambda>chunk_id.
     rbind (get_blob (c ! 1)) (\<lambda>evidence_id.
     rbind (get_text (c ! 2)) (\<lambda>model_id.
     rbind (get_i64 (c ! 3)) (\<lambda>enrichment_version.
     rbind (get_i64 (c ! 4)) (\<lambda>dim.
     rbind (get_blob (c ! 5)) (\<lambda>vectors_blob.
     rbind (get_i64 (c ! 6)) (\<lambda>row.
     rbind (get_blob (c ! 7)) (\<lambda>content_hash.
     rbind (get_i64 (c ! 8)) (\<lambda>token_count.
     rbind (get_i64 (c ! 9)) (\<lambda>truncated.
     rbind (get_i64 (c ! 10)) (\<lambda>pass.
     Inr (EmbeddingRaw chunk_id evidence_id model_id enrichment_version dim vectors_blob row content_hash
            token_count truncated pass))))))))))))"

fun embedding_into_record :: "embedding_raw \<Rightarrow> evidence_read_error + chunk_embedding_record" where
  "embedding_into_record (EmbeddingRaw chunk_id evidence_id model_id enrichment_version dim vectors_blob row
      content_hash token_count truncated pass) =
     rbind (ev_id_bytes ''proj_chunk_embedding'' chunk_id) (\<lambda>chunk_id'.
     rbind (ev_id_bytes ''proj_chunk_embedding'' evidence_id) (\<lambda>evidence_id'.
     rbind (ev_hash_bytes ''proj_chunk_embedding'' vectors_blob) (\<lambda>vectors.
     rbind (ev_hash_bytes ''proj_chunk_embedding'' content_hash) (\<lambda>content.
     Inr (ChunkEmbeddingRecordFields chunk_id' evidence_id' model_id (enrichment_value enrichment_version)
            (dim_value dim) vectors (pass_value row) content (pass_value token_count) (truncated \<noteq> 0)
            (pass_value pass))))))"

definition list_chunk_embeddings ::
  "'b project_log \<Rightarrow> id16 \<Rightarrow> string \<Rightarrow> u16 \<Rightarrow> u32 \<Rightarrow> evidence_read_error + chunk_embedding_record list" where
  "list_chunk_embeddings l evidence_id model_id enrichment_version row_count_max =
     rbind (map_err EvidenceReadStore (with_reader ''list chunk embeddings'' (\<lambda>db.
              rbind (table_rows CHUNK_EMBEDDING_TABLE (main_tables db)) (\<lambda>t.
              rcollect (\<lambda>kr. embedding_raw_of (select_columns CHUNK_EMBEDDING_TABLE EMBEDDING_COLUMNS kr))
                (take (unat (min row_count_max EVIDENCE_LIST_ROW_COUNT_MAX))
                  (sort_key (\<lambda>kr. [column_cell CHUNK_EMBEDDING_TABLE kr ''vectors_blob'', column_cell CHUNK_EMBEDDING_TABLE kr ''row''])
                    (filter (\<lambda>kr. column_cell CHUNK_EMBEDDING_TABLE kr ''evidence_id'' = CBlob (into_bytes evidence_id) \<and>
                                  column_cell CHUNK_EMBEDDING_TABLE kr ''model_id'' = CText model_id \<and>
                                  column_cell CHUNK_EMBEDDING_TABLE kr ''enrichment_version'' = CInteger (uint enrichment_version)) t)))))
              (pl_store l)))
     (rcollect embedding_into_record)"

definition find_embedding_by_content ::
  "'b project_log \<Rightarrow> digest32 \<Rightarrow> string \<Rightarrow> u16 \<Rightarrow> evidence_read_error + chunk_embedding_record option" where
  "find_embedding_by_content l content_hash model_id enrichment_version =
     rbind (map_err EvidenceReadStore (with_reader ''find embedding by content'' (\<lambda>db.
              rbind (table_rows CHUNK_EMBEDDING_TABLE (main_tables db)) (\<lambda>t.
              case sort_key (\<lambda>kr. column_cell CHUNK_EMBEDDING_TABLE kr ''created_seq'')
                     (filter (\<lambda>kr. column_cell CHUNK_EMBEDDING_TABLE kr ''content_hash'' = CBlob (digest_bytes content_hash) \<and>
                                   column_cell CHUNK_EMBEDDING_TABLE kr ''model_id'' = CText model_id \<and>
                                   column_cell CHUNK_EMBEDDING_TABLE kr ''enrichment_version'' = CInteger (uint enrichment_version)) t) of
                [] \<Rightarrow> Inr None
              | kr # _ \<Rightarrow>
                  rbind (embedding_raw_of (select_columns CHUNK_EMBEDDING_TABLE EMBEDDING_COLUMNS kr)) (\<lambda>raw. Inr (Some raw))))
              (pl_store l)))
     (rtranspose embedding_into_record)"

text \<open>\<open>MAX(column)\<close>: NULLs do not count, and the maximum of nothing is NULL.\<close>

definition sql_max :: "sql_cell list \<Rightarrow> sql_cell" where
  "sql_max cells = foldr max cells CNull"

datatype (plugins only: code size) embedding_model_row = EmbeddingModelRowFields
  (emr_model_id: string)
  (emr_enrichment_version: u16)
  (emr_dim: u16)
  (emr_vector_count: u64)
  (emr_last_seq: u64)

definition embedding_group :: "sql_cell list \<times> row \<Rightarrow> sql_cell list" where
  "embedding_group kr =
     map (column_cell CHUNK_EMBEDDING_TABLE kr) [''model_id'', ''enrichment_version'', ''dim'']"

definition embedding_model_row_of :: "table \<Rightarrow> sql_cell list \<Rightarrow> unit + embedding_model_row" where
  "embedding_model_row_of t g =
     (let rows = filter (\<lambda>kr. embedding_group kr = g) t
      in rbind (get_text (g ! 0)) (\<lambda>model_id.
         rbind (get_i64 (g ! 1)) (\<lambda>enrichment_version.
         rbind (get_i64 (g ! 2)) (\<lambda>dim.
         rbind (get_i64 (sql_max (map (\<lambda>kr. column_cell CHUNK_EMBEDDING_TABLE kr ''created_seq'') rows))) (\<lambda>last_seq.
         Inr (EmbeddingModelRowFields model_id (enrichment_value enrichment_version) (dim_value dim)
                (word_of_nat (length rows)) (non_negative last_seq)))))))"

definition list_embedding_models :: "'b project_log \<Rightarrow> evidence_read_error + embedding_model_row list" where
  "list_embedding_models l =
     map_err EvidenceReadStore (with_reader ''list embedding models'' (\<lambda>db.
       rbind (table_rows CHUNK_EMBEDDING_TABLE (main_tables db)) (\<lambda>t.
       rcollect (embedding_model_row_of t) (sort (remdups (map embedding_group t))))) (pl_store l))"

section \<open>Transcripts\<close>

datatype (plugins only: code size) transcript_segment_record = TranscriptSegmentRecordFields
  (tsr_segment_index: u32)
  (tsr_start_ms: u64)
  (tsr_end_ms: u64)
  (tsr_starts_turn: bool)
  (tsr_speaker_index: u32)
  (tsr_asr_text: string)
  (tsr_edited_text: "string option")

definition rendered_text :: "transcript_segment_record \<Rightarrow> string" where
  "rendered_text s = (case tsr_edited_text s of None \<Rightarrow> tsr_asr_text s | Some edited \<Rightarrow> edited)"

definition is_edited :: "transcript_segment_record \<Rightarrow> bool" where
  "is_edited s \<longleftrightarrow> tsr_edited_text s \<noteq> None"

definition TRANSCRIPT_SEGMENT_COLUMNS :: "string list" where
  "TRANSCRIPT_SEGMENT_COLUMNS =
     [''segment_index'', ''start_ms'', ''end_ms'', ''starts_turn'', ''speaker_index'', ''asr_text'', ''edited_text'']"

definition transcript_segment_row :: "sql_cell list \<Rightarrow> unit + transcript_segment_record" where
  "transcript_segment_row c =
     rbind (get_i64 (c ! 0)) (\<lambda>segment_index.
     rbind (get_i64 (c ! 1)) (\<lambda>start_ms.
     rbind (get_i64 (c ! 2)) (\<lambda>end_ms.
     rbind (get_i64 (c ! 3)) (\<lambda>starts_turn.
     rbind (get_i64 (c ! 4)) (\<lambda>speaker_index.
     rbind (get_text (c ! 5)) (\<lambda>asr_text.
     rbind (get_opt get_text (c ! 6)) (\<lambda>edited_text.
     Inr (TranscriptSegmentRecordFields (pass_value segment_index) (non_negative start_ms) (non_negative end_ms)
            (starts_turn \<noteq> 0) (pass_value speaker_index) asr_text edited_text))))))))"

text \<open>\<open>column >= integer\<close> on a stored cell: false on NULL, and text and blobs sort after numbers.\<close>

fun cell_ge_int :: "sql_cell \<Rightarrow> i64 \<Rightarrow> bool" where
  "cell_ge_int CNull n \<longleftrightarrow> False"
| "cell_ge_int (CInteger i) n \<longleftrightarrow> n \<le> i"
| "cell_ge_int _ n \<longleftrightarrow> True"

definition transcript_rows :: "id16 \<Rightarrow> u32 \<Rightarrow> table \<Rightarrow> table" where
  "transcript_rows evidence_id pass =
     filter (\<lambda>kr. column_cell TRANSCRIPT_SEGMENT_TABLE kr ''evidence_id'' = CBlob (into_bytes evidence_id) \<and>
                  column_cell TRANSCRIPT_SEGMENT_TABLE kr ''pass'' = CInteger (uint pass))"

definition list_transcript_segments ::
  "'b project_log \<Rightarrow> id16 \<Rightarrow> u32 \<Rightarrow> u32 option \<Rightarrow> u32 \<Rightarrow> evidence_read_error + transcript_segment_record list" where
  "list_transcript_segments l evidence_id pass after_segment_index row_count_max =
     (let after = (case after_segment_index of None \<Rightarrow> 0 | Some index \<Rightarrow> saturating_add index 1)
      in map_err EvidenceReadStore (with_reader ''list transcript segments'' (\<lambda>db.
           rbind (table_rows TRANSCRIPT_SEGMENT_TABLE (main_tables db)) (\<lambda>t.
           rcollect (\<lambda>kr. transcript_segment_row (select_columns TRANSCRIPT_SEGMENT_TABLE TRANSCRIPT_SEGMENT_COLUMNS kr))
             (take (unat (min row_count_max EVIDENCE_LIST_ROW_COUNT_MAX))
               (sort_key (\<lambda>kr. column_cell TRANSCRIPT_SEGMENT_TABLE kr ''segment_index'')
                 (filter (\<lambda>kr. cell_ge_int (column_cell TRANSCRIPT_SEGMENT_TABLE kr ''segment_index'') (uint after))
                   (transcript_rows evidence_id pass t)))))) (pl_store l)))"

definition read_transcript_progress ::
  "'b project_log \<Rightarrow> id16 \<Rightarrow> u32 \<Rightarrow> evidence_read_error + (u32 \<times> u64) option" where
  "read_transcript_progress l evidence_id pass =
     map_err EvidenceReadStore (with_reader ''read transcript progress'' (\<lambda>db.
       rbind (table_rows TRANSCRIPT_SEGMENT_TABLE (main_tables db)) (\<lambda>t.
       let rows = transcript_rows evidence_id pass t
       in rbind (get_opt get_i64 (sql_max (map (\<lambda>kr. column_cell TRANSCRIPT_SEGMENT_TABLE kr ''segment_index'') rows))) (\<lambda>index.
          rbind (get_opt get_i64 (sql_max (map (\<lambda>kr. column_cell TRANSCRIPT_SEGMENT_TABLE kr ''end_ms'') rows))) (\<lambda>end_ms.
          Inr (case (index, end_ms) of
                 (Some i, Some e) \<Rightarrow> Some (pass_value i, non_negative e)
               | _ \<Rightarrow> None))))) (pl_store l))"

definition list_transcript_speakers ::
  "'b project_log \<Rightarrow> id16 \<Rightarrow> evidence_read_error + (u32 \<times> string) list" where
  "list_transcript_speakers l evidence_id =
     map_err EvidenceReadStore (with_reader ''list transcript speakers'' (\<lambda>db.
       rbind (table_rows TRANSCRIPT_SPEAKER_TABLE (main_tables db)) (\<lambda>t.
       rcollect (\<lambda>kr.
           rbind (get_i64 (column_cell TRANSCRIPT_SPEAKER_TABLE kr ''speaker_index'')) (\<lambda>index.
           rbind (get_text (column_cell TRANSCRIPT_SPEAKER_TABLE kr ''name'')) (\<lambda>name.
           Inr (pass_value index, name))))
         (sort_key (\<lambda>kr. column_cell TRANSCRIPT_SPEAKER_TABLE kr ''speaker_index'')
           (filter (\<lambda>kr. column_cell TRANSCRIPT_SPEAKER_TABLE kr ''evidence_id'' = CBlob (into_bytes evidence_id)) t))))
       (pl_store l))"

section \<open>Source health\<close>

definition SOURCE_HEALTH_COLUMNS :: "string list" where
  "SOURCE_HEALTH_COLUMNS =
     [''source_id'', ''stage'', ''ok_count'', ''failed_count'', ''dead_count'', ''item_count'', ''bytes_total'',
      ''wall_ms_total'', ''last_success_ts_ms'', ''last_failure_ts_ms'', ''last_error_code'']"

datatype (plugins only: code size) source_health_raw = SourceHealthRaw
  bytes string "i64 option" "i64 option" "i64 option" "i64 option" "i64 option" "i64 option" "i64 option" "i64 option"
  "string option"

definition source_health_raw_of :: "sql_cell list \<Rightarrow> unit + source_health_raw" where
  "source_health_raw_of c =
     rbind (get_blob (c ! 0)) (\<lambda>source_id.
     rbind (get_text (c ! 1)) (\<lambda>stage.
     rbind (get_opt get_i64 (c ! 2)) (\<lambda>ok_count.
     rbind (get_opt get_i64 (c ! 3)) (\<lambda>failed_count.
     rbind (get_opt get_i64 (c ! 4)) (\<lambda>dead_count.
     rbind (get_opt get_i64 (c ! 5)) (\<lambda>item_count.
     rbind (get_opt get_i64 (c ! 6)) (\<lambda>bytes_total.
     rbind (get_opt get_i64 (c ! 7)) (\<lambda>wall_ms_total.
     rbind (get_opt get_i64 (c ! 8)) (\<lambda>last_success_ts_ms.
     rbind (get_opt get_i64 (c ! 9)) (\<lambda>last_failure_ts_ms.
     rbind (get_opt get_text (c ! 10)) (\<lambda>last_error_code.
     Inr (SourceHealthRaw source_id stage ok_count failed_count dead_count item_count bytes_total wall_ms_total
            last_success_ts_ms last_failure_ts_ms last_error_code))))))))))))"

definition counter_value :: "i64 option \<Rightarrow> u64" where
  "counter_value v = (case v of None \<Rightarrow> 0 | Some i \<Rightarrow> non_negative i)"

fun source_health_into_record :: "source_health_raw \<Rightarrow> evidence_read_error + source_health_record" where
  "source_health_into_record (SourceHealthRaw source_id stage ok_count failed_count dead_count item_count bytes_total
      wall_ms_total last_success_ts_ms last_failure_ts_ms last_error_code) =
     rbind (ev_id_bytes ''proj_source_health'' source_id) (\<lambda>source_id'.
     rbind (ok_or (EvidenceCorrupt ''proj_source_health'' ''unknown stage'') (stage_parse stage)) (\<lambda>stage'.
     Inr (SourceHealthRecordFields source_id' stage' (counter_value ok_count) (counter_value failed_count)
            (counter_value dead_count) (counter_value item_count) (counter_value bytes_total)
            (counter_value wall_ms_total) (map_option non_negative last_success_ts_ms)
            (map_option non_negative last_failure_ts_ms) last_error_code)))"

text \<open>Sorted by \<open>(source_id bytes, stage rank)\<close>; every id has sixteen bytes, so one byte string orders both.\<close>

definition list_source_health ::
  "'b project_log \<Rightarrow> id16 option \<Rightarrow> evidence_read_error + source_health_record list" where
  "list_source_health l source_id =
     rbind (map_err EvidenceReadStore (with_reader ''list source health'' (\<lambda>db.
              rbind (table_rows SOURCE_HEALTH_TABLE (main_tables db)) (\<lambda>t.
              rcollect (\<lambda>kr. source_health_raw_of (select_columns SOURCE_HEALTH_TABLE SOURCE_HEALTH_COLUMNS kr))
                (filter (\<lambda>kr. case source_id of
                                None \<Rightarrow> True
                              | Some i \<Rightarrow> column_cell SOURCE_HEALTH_TABLE kr ''source_id'' = CBlob (into_bytes i)) t)))
              (pl_store l))) (\<lambda>raws.
     rbind (rcollect source_health_into_record raws) (\<lambda>records.
     Inr (sort_key (\<lambda>r. into_bytes (shr_source_id r) @ [stage_rank (shr_stage r)]) records)))"

section \<open>The rows the projections maintain\<close>

definition evidence_projection :: "'b domain_codec \<Rightarrow> 'b projection" where
  "evidence_projection dc = \<lparr>pr_table = EVIDENCE_TABLE, pr_apply = apply_evidence dc\<rparr>"

definition hash_cell :: "sql_cell \<Rightarrow> bool" where
  "hash_cell c \<longleftrightarrow> (\<exists>d. c = CBlob (digest_bytes d))"

text \<open>Every column decodes, and the row remembers a text blob exactly when it remembers a segment index.\<close>

definition evidence_good :: "sql_cell list \<Rightarrow> row \<Rightarrow> bool" where
  "evidence_good k r \<longleftrightarrow>
     list_all id_cell k \<and> length k = 1 \<and> id_cell (r ''source_id'') \<and> text_cell (r ''source_kind'') \<and>
     text_cell (r ''external_id'') \<and> opt_cell text_cell (r ''external_url'') \<and> opt_cell text_cell (r ''external_version'') \<and>
     word_cell media_as_str (r ''media_kind'') \<and> hash_cell (r ''content_blob'') \<and> int_cell (r ''byte_size'') \<and>
     int_cell (r ''occurred_ts_ms'') \<and> opt_cell text_cell (r ''author'') \<and> opt_cell text_cell (r ''title'') \<and>
     opt_cell text_cell (r ''thread_ref'') \<and> int_cell (r ''added_seq'') \<and> word_cell shape_as_str (r ''shape'') \<and>
     word_cell evidence_status_as_str (r ''status'') \<and> (\<exists>p :: u32. r ''pass'' = CInteger (uint p)) \<and>
     opt_cell hash_cell (r ''text_blob'') \<and> opt_cell int_cell (r ''text_byte_size'') \<and>
     opt_cell hash_cell (r ''segments_blob'') \<and> opt_cell int_cell (r ''segment_count'') \<and>
     opt_cell (word_cell canary_as_str) (r ''canary_level'') \<and> int_cell (r ''chunk_count'') \<and>
     opt_cell int_cell (r ''chunk_pass'') \<and> int_cell (r ''updated_seq'') \<and>
     (r ''text_blob'' = CNull \<longleftrightarrow> r ''segments_blob'' = CNull)"

lemma ingest_cells [simp]:
  "bind_value (hash_blob d) = CBlob (digest_bytes d)" "hash_cell (CBlob (digest_bytes d))"
  "opt_cell text_cell (bind_value (optional_text t))"
  by (auto simp: hash_blob_def hash_cell_def optional_text_def split: option.split)

lemma output_keeps:
  "evidence_good k r \<Longrightarrow> evidence_good k (assign_row (output_assignments out pass) r)"
  by (cases out) (auto simp: evidence_good_def simp del: shape_as_str.simps canary_as_str.simps)

lemma evidence_write_keeps: "w \<in> set (evidence_writes ev e) \<Longrightarrow> write_keeps EVIDENCE_TABLE evidence_good w"
proof (cases e)
  case (EvidenceAdded b)
  then show "w \<in> set (evidence_writes ev e) \<Longrightarrow> ?thesis"
    by (cases b) (auto simp: evidence_writes_def evidence_good_def EVIDENCE_TABLE_def bind_values_def
        simp del: media_as_str.simps shape_as_str.simps evidence_status_as_str.simps intro: exI [of _ 0])
next
  case (IngestStageFinished b)
  then show "w \<in> set (evidence_writes ev e) \<Longrightarrow> ?thesis"
    by (cases b) (auto simp: evidence_writes_def assign_row_append intro!: output_keeps,
      auto simp: evidence_good_def simp del: evidence_status_as_str.simps)
next
  case (IngestStageFailed b)
  then show "w \<in> set (evidence_writes ev e) \<Longrightarrow> ?thesis"
    by (cases b) (auto simp: evidence_writes_def evidence_good_def simp del: evidence_status_as_str.simps split: if_splits)
next
  case (EvidenceReprocessRequested b)
  then show "w \<in> set (evidence_writes ev e) \<Longrightarrow> ?thesis"
    by (cases b) (auto simp: evidence_writes_def evidence_good_def)
qed (simp_all add: evidence_writes_def)

interpretation evidence_rows: row_invariant "evidence_projection dc" evidence_good for dc :: "'b domain_codec"
  by unfold_locales
     (auto simp: evidence_projection_def apply_evidence_def intro: evidence_write_keeps elim!: core_keeps)

section \<open>Maintained rows decode\<close>

lemma evidence_words [simp]:
  "media_parse (media_as_str m) = Some m" "shape_parse (shape_as_str s) = Some s"
  "canary_parse (canary_as_str c) = Some c" "evidence_status_parse (evidence_status_as_str t) = Some t"
  using media_words.parse_as_str shape_words.parse_as_str canary_words.parse_as_str status_words.parse_as_str
  by (simp_all add: media_parse_def shape_parse_def canary_parse_def evidence_status_parse_def)

lemma ev_conversions [simp]:
  "ev_id_bytes tb (into_bytes i) = Inr i" "ev_hash_bytes tb (digest_bytes d) = Inr d" "pass_value (uint p) = p"
  "pass_value 0 = 0"
  by (simp_all add: ev_id_bytes_def ev_hash_bytes_def pass_value_def)

lemma ev_hash_option [simp]: "rtranspose (ev_hash_bytes tb) (map_option digest_bytes od) = Inr od"
  by (cases od) simp_all

lemma get_word_cells:
  "opt_cell hash_cell c \<Longrightarrow> \<exists>od. get_opt get_blob c = Inr (map_option digest_bytes od) \<and> (od = None \<longleftrightarrow> c = CNull)"
  "opt_cell (word_cell f) c \<Longrightarrow> \<exists>ow. get_opt get_text c = Inr (map_option f ow)"
  by (auto simp: cell_preds hash_cell_def intro: exI [of _ None] exI [of _ "Some _"])

lemma evidence_columns [simp]:
  "select_columns EVIDENCE_TABLE EVIDENCE_COLUMNS ([c], r) =
     [c, r ''source_id'', r ''source_kind'', r ''external_id'', r ''external_url'', r ''external_version'',
      r ''media_kind'', r ''content_blob'', r ''byte_size'', r ''occurred_ts_ms'', r ''author'', r ''title'',
      r ''thread_ref'', r ''added_seq'', r ''shape'', r ''status'', r ''pass'', r ''text_blob'', r ''text_byte_size'',
      r ''segments_blob'', r ''segment_count'', r ''canary_level'', r ''chunk_count'', r ''chunk_pass'', r ''updated_seq'']"
  "column_cell EVIDENCE_TABLE ([c], r) ''evidence_id'' = c"
  by (simp_all add: select_columns_def EVIDENCE_COLUMNS_def column_cell_def EVIDENCE_TABLE_def)

text \<open>What a decoded record says about the row it was read from.\<close>

definition evidence_view :: "row \<Rightarrow> evidence_record \<Rightarrow> bool" where
  "evidence_view r e \<longleftrightarrow>
     r ''source_id'' = CBlob (into_bytes (er_source_id e)) \<and> r ''source_kind'' = CText (er_source_kind e) \<and>
     r ''external_id'' = CText (external_id (er_external e)) \<and> r ''media_kind'' = CText (media_as_str (er_media_kind e)) \<and>
     r ''content_blob'' = CBlob (digest_bytes (er_content_blob e)) \<and> r ''shape'' = CText (shape_as_str (er_shape e)) \<and>
     r ''status'' = CText (evidence_status_as_str (er_status e)) \<and> r ''pass'' = CInteger (uint (er_pass e)) \<and>
     (er_text_blob e = None \<longleftrightarrow> er_segments_blob e = None)"

lemma evidence_good_decodes:
  assumes "evidence_good [CBlob (into_bytes i)] r"
  shows "\<exists>raw e. evidence_raw_of (select_columns EVIDENCE_TABLE EVIDENCE_COLUMNS ([CBlob (into_bytes i)], r)) = Inr raw \<and>
           evidence_into_record raw = Inr e \<and> er_evidence_id e = i \<and> evidence_view r e"
proof -
  note g = assms [unfolded evidence_good_def]
  obtain src knd ext med ct bs oc sq sh st ps cc us where
    c1: "r ''source_id'' = CBlob (into_bytes src)" "r ''source_kind'' = CText knd" "r ''external_id'' = CText ext"
      "r ''media_kind'' = CText (media_as_str med)" "r ''content_blob'' = CBlob (digest_bytes ct)"
      "r ''byte_size'' = CInteger bs" "r ''occurred_ts_ms'' = CInteger oc" "r ''added_seq'' = CInteger sq"
      "r ''shape'' = CText (shape_as_str sh)" "r ''status'' = CText (evidence_status_as_str st)"
      "r ''pass'' = CInteger (uint (ps :: u32))" "r ''chunk_count'' = CInteger cc" "r ''updated_seq'' = CInteger us"
    using g unfolding int_cell_def text_cell_def word_cell_def id_cell_def hash_cell_def by meson
  obtain url ver au ti th tbs sc cp where
    c2: "get_opt get_text (r ''external_url'') = Inr url" "get_opt get_text (r ''external_version'') = Inr ver"
      "get_opt get_text (r ''author'') = Inr au" "get_opt get_text (r ''title'') = Inr ti"
      "get_opt get_text (r ''thread_ref'') = Inr th" "get_opt get_i64 (r ''text_byte_size'') = Inr tbs"
      "get_opt get_i64 (r ''segment_count'') = Inr sc" "get_opt get_i64 (r ''chunk_pass'') = Inr cp"
    using g get_cells(4,5) by meson
  obtain tb sb can where
    c3: "get_opt get_blob (r ''text_blob'') = Inr (map_option digest_bytes tb)" "tb = None \<longleftrightarrow> r ''text_blob'' = CNull"
      "get_opt get_blob (r ''segments_blob'') = Inr (map_option digest_bytes sb)" "sb = None \<longleftrightarrow> r ''segments_blob'' = CNull"
      "get_opt get_text (r ''canary_level'') = Inr (map_option canary_as_str can)"
    using g get_word_cells by meson
  have "tb = None \<longleftrightarrow> sb = None"
    using g c3 by simp
  then show ?thesis
    unfolding evidence_columns evidence_view_def
    by (cases can) (simp_all add: evidence_raw_of_def c1 c2 c3 del: media_as_str.simps shape_as_str.simps
        evidence_status_as_str.simps canary_as_str.simps)
qed

section \<open>Reads of a sound log\<close>

lemma evidence_table_of:
  assumes "log_sound l" "evidence_projection dc \<in> set (pl_registry l)"
  obtains t where "main_tables (db_content (pl_store l)) ''proj_evidence'' = Some t" "table_wf EVIDENCE_TABLE t"
    "rows_good evidence_good t"
proof -
  have n: "tbl_name (pr_table (evidence_projection dc)) = ''proj_evidence''" "pr_table (evidence_projection dc) = EVIDENCE_TABLE"
    by (simp_all add: evidence_projection_def EVIDENCE_TABLE_def)
  obtain t where t: "log_tables l ''proj_evidence'' = Some t" "table_wf EVIDENCE_TABLE t"
    using sound_tables_wf [OF assms(1)] assms(2) n by (auto simp: tables_wf_def)
  with evidence_rows.sound_rows [OF assms] n have "rows_good evidence_good t" by simp
  with t that show thesis by (simp add: log_tables_def)
qed

lemma read_evidence_sound:
  assumes "log_sound l" "evidence_projection dc \<in> set (pl_registry l)" "\<not> fail_stopped (pl_store l)"
    and "main_tables (db_content (pl_store l)) ''proj_evidence'' = Some t"
  shows "case map_of t [CBlob (into_bytes i)] of
           None \<Rightarrow> read_evidence l i = Inr None
         | Some r \<Rightarrow> \<exists>e. read_evidence l i = Inr (Some e) \<and> er_evidence_id e = i \<and> evidence_view r e"
proof -
  let ?c = "CBlob (into_bytes i)"
  let ?P = "\<lambda>kr. column_cell EVIDENCE_TABLE kr ''evidence_id'' = ?c"
  have wf: "tbl_sorted t" "\<And>k r. (k, r) \<in> set t \<Longrightarrow> length k = 1" and good: "rows_good evidence_good t"
    using evidence_table_of [OF assms(1,2)] assms(4) by (auto simp: table_wf_def EVIDENCE_TABLE_def)
  have "?P (k, r) \<longleftrightarrow> k = [?c]" if "(k, r) \<in> set t" for k r
    using wf(2) [OF that] by (cases k) auto
  then have rows: "filter ?P t = (case map_of t [?c] of None \<Rightarrow> [] | Some r \<Rightarrow> [([?c], r)])"
    using filter_single_key [OF wf(1), where P = ?P and c = ?c] by blast
  have tab: "table_rows EVIDENCE_TABLE (main_tables (db_content (pl_store l))) = Inr t"
    using assms(4) by (simp add: table_rows_def EVIDENCE_TABLE_def)
  show ?thesis
  proof (cases "map_of t [?c]")
    case None
    then show ?thesis
      using rows tab assms(3) by (simp add: read_evidence_def with_reader_live)
  next
    case (Some r)
    then obtain raw e where "evidence_raw_of (select_columns EVIDENCE_TABLE EVIDENCE_COLUMNS ([?c], r)) = Inr raw"
        "evidence_into_record raw = Inr e" "er_evidence_id e = i" "evidence_view r e"
      using evidence_good_decodes rows_goodD [OF good] by blast
    with Some rows tab assms(3) show ?thesis
      by (simp add: read_evidence_def with_reader_live del: evidence_columns)
  qed
qed

end
