(* ===== verification/Evidence_Facts.thy ===== *)
theory Evidence_Facts
  imports Evidence_State Run_Live
begin

text \<open>
  What the log keeps about evidence. The provenance columns of an evidence row are written by
  \<open>EvidenceAdded\<close> alone; every later event touches derived columns only. Evidence rows, chunk rows
  and transcript segments are never deleted, so what a citation names stays resolvable.
\<close>

definition chunks_projection :: "'b domain_codec \<Rightarrow> 'b projection" where
  "chunks_projection dc = \<lparr>pr_table = CHUNKS_TABLE, pr_apply = apply_chunks dc\<rparr>"

definition PROVENANCE :: "string list" where
  "PROVENANCE =
     [''source_id'', ''source_kind'', ''external_id'', ''external_url'', ''external_version'', ''media_kind'',
      ''content_blob'', ''byte_size'', ''occurred_ts_ms'', ''author'', ''title'', ''thread_ref'', ''added_seq'']"

definition evidence_le :: "sql_cell list \<Rightarrow> row \<Rightarrow> row \<Rightarrow> bool" where
  "evidence_le k r r' \<longleftrightarrow> list_all (\<lambda>c. r' c = r c) PROVENANCE"

lemma evidence_write_progress: "w \<in> set (evidence_writes ev e) \<Longrightarrow> write_progress EVIDENCE_TABLE evidence_le w"
proof (cases e)
  case (EvidenceAdded b)
  then show "w \<in> set (evidence_writes ev e) \<Longrightarrow> ?thesis"
    by (cases b) (auto simp: evidence_writes_def)
next
  case (IngestStageFinished b)
  show "w \<in> set (evidence_writes ev e) \<Longrightarrow> ?thesis"
  proof (cases b)
    case (IngestStageFinishedV1 f)
    then show "w \<in> set (evidence_writes ev e) \<Longrightarrow> ?thesis"
      using IngestStageFinished by (cases "isf_output f") (auto simp: evidence_writes_def evidence_le_def PROVENANCE_def)
  qed
next
  case (IngestStageFailed b)
  then show "w \<in> set (evidence_writes ev e) \<Longrightarrow> ?thesis"
    by (cases b) (auto simp: evidence_writes_def evidence_le_def PROVENANCE_def split: if_splits)
next
  case (EvidenceReprocessRequested b)
  then show "w \<in> set (evidence_writes ev e) \<Longrightarrow> ?thesis"
    by (cases b) (auto simp: evidence_writes_def evidence_le_def PROVENANCE_def)
qed (simp_all add: evidence_writes_def)

interpretation evidence_mono: row_progress "evidence_projection dc" evidence_le for dc :: "'b domain_codec"
proof
  show "evidence_le k r r" for k r
    by (simp add: evidence_le_def PROVENANCE_def)
  show "evidence_le k r s \<Longrightarrow> evidence_le k s u \<Longrightarrow> evidence_le k r u" for k r s u
    by (simp add: evidence_le_def PROVENANCE_def)
  show "write_progress (pr_table (evidence_projection dc)) evidence_le w"
    if "pr_apply (evidence_projection dc) ev = Inr ws" "w \<in> set ws" for ev :: "'b event" and ws w
    using that by (auto simp: evidence_projection_def apply_evidence_def intro: evidence_write_progress elim!: core_progress)
qed

lemma chunk_write_progress: "w \<in> set (chunks_writes ev e) \<Longrightarrow> write_progress CHUNKS_TABLE (\<lambda>_ _ _. True) w"
  by (auto simp: chunks_writes_def chunk_row_def split: domain_event.splits evidence_chunked_body.splits prod.splits)

interpretation chunks_stay: row_progress "chunks_projection dc" "\<lambda>_ _ _. True" for dc :: "'b domain_codec"
proof
  show "write_progress (pr_table (chunks_projection dc)) (\<lambda>_ _ _. True) w"
    if "pr_apply (chunks_projection dc) ev = Inr ws" "w \<in> set ws" for ev :: "'b event" and ws w
    using that by (auto simp: chunks_projection_def apply_chunks_def intro: chunk_write_progress elim!: core_progress)
qed simp_all

lemma projection_tables:
  "tbl_name (pr_table (evidence_projection dc)) = ''proj_evidence''" "tbl_name (pr_table (chunks_projection dc)) = ''proj_chunks''"
  by (simp_all add: evidence_projection_def chunks_projection_def ingest_table_defs)

text \<open>
  C34: Evidence is immutable. Whatever happens to a sound log afterwards (appends of any events, rebuilds,
  restores, verifications, crashes, reopenings), an evidence row keeps its source, external reference,
  media kind, content address, size, dates and authorship, and no chunk a citation could name disappears.
\<close>

theorem evidence_is_immutable:
  assumes "log_step\<^sup>*\<^sup>* l l'" "log_sound l" "evidence_projection dc \<in> set (pl_registry l)"
    "chunks_projection dc \<in> set (pl_registry l)" "rows_of l ''proj_evidence'' k = Some r"
  shows "\<exists>r'. rows_of l' ''proj_evidence'' k = Some r' \<and> list_all (\<lambda>c. r' c = r c) PROVENANCE \<and>
    dom (rows_of l ''proj_chunks'') \<subseteq> dom (rows_of l' ''proj_chunks'')"
proof -
  obtain t where t: "log_tables l ''proj_evidence'' = Some t" "map_of t k = Some r"
    using assms(5) by (auto simp: rows_of_def split: option.splits)
  obtain r' where "rows_of l' ''proj_evidence'' k = Some r'" "list_all (\<lambda>c. r' c = r c) PROVENANCE"
    using evidence_mono.row_persists [OF assms(1-3), of t k r] t by (auto simp: projection_tables rows_of_def evidence_le_def)
  moreover have "dom (rows_of l ''proj_chunks'') \<subseteq> dom (rows_of l' ''proj_chunks'')"
  proof
    fix c
    assume "c \<in> dom (rows_of l ''proj_chunks'')"
    then obtain u q where "log_tables l ''proj_chunks'' = Some u" "map_of u c = Some q"
      by (auto simp: rows_of_def split: option.splits)
    then show "c \<in> dom (rows_of l' ''proj_chunks'')"
      using chunks_stay.row_persists [OF assms(1,2,4), of u c q] by (auto simp: projection_tables rows_of_def)
  qed
  ultimately show ?thesis by blast
qed

section \<open>A project with one evidence item\<close>

definition ingest_log :: "body project_log" where
  "ingest_log =
     \<lparr>pl_externals = body_externals, pl_registry = full_registry body_codec, pl_config = sample_config,
      pl_store = snd (open_log body_externals (full_registry body_codec) sample_config body_store)\<rparr>"

definition ingest_node :: "body node" where
  "ingest_node = \<lparr>nd_log = ingest_log, nd_clock = (\<lambda>_. 1000), nd_ticks = 0\<rparr>"

definition note_body :: evidence_added_body where
  "note_body = EvidenceAddedV1 (EvidenceAddedV1Fields 21 22 ''upload''
     (ExternalRefFields ''note.md'' None None) PlainText ShapeDocument 99 120 900 None None None)"

definition note_added :: domain_event where
  "note_added = EvidenceAdded note_body"

definition note_request :: "body append_request" where
  "note_request = \<lparr>ar_device = 7, ar_actor = System 1, ar_kind = domain_kind_tag note_added,
     ar_body = encode_body body_codec note_added, ar_refs = domain_refs note_added\<rparr>"

definition noted_node :: "body node" where
  "noted_node = snd (log_append_inner None [note_request] ingest_node)"

definition rebuilt_log :: "body project_log" where
  "rebuilt_log = (nd_log noted_node)\<lparr>pl_store := snd (rebuild_projections body_externals (full_registry body_codec)
     (pl_config (nd_log noted_node)) (pl_store (nd_log noted_node)))\<rparr>"

lemma ingest_log_opened:
  "\<exists>d. pl_store ingest_log = body_store\<lparr>db_content := d\<rparr> \<and> log_inv body_externals (full_registry body_codec) d \<and>
     events d = []"
proof -
  have "fresh_store (db_content body_store)"
    by (simp add: fresh_store_def body_store_def empty_log_db_def)
  then show ?thesis
    using open_log_fresh [of body_store sample_config body_externals "full_registry body_codec"]
      body_codec_ok(2) full_registry_distinct [of body_codec]
    by (auto simp: body_store_def sample_config_def SNAPSHOT_CADENCE_EVENTS_DEFAULT_def ingest_log_def)
qed

lemma ingest_log_ready: "log_sound ingest_log" "store_ready (pl_store ingest_log)" "log_room ingest_log"
  "n \<in> set (table_names (full_registry body_codec)) \<Longrightarrow> log_tables ingest_log n = Some []"
proof -
  obtain d where d: "pl_store ingest_log = body_store\<lparr>db_content := d\<rparr>"
      "log_inv body_externals (full_registry body_codec) d" "events d = []"
    using ingest_log_opened by blast
  obtain evs where evs: "log_core body_externals evs d"
      "project (full_registry body_codec) evs (fresh_tables (full_registry body_codec) (main_tables d)) = Inr (main_tables d)"
    using d(2) unfolding log_inv_def by blast
  show "log_sound ingest_log"
    using d body_codec_ok(2) full_registry_distinct [of body_codec] by (simp add: log_sound_def ingest_log_def)
  show "store_ready (pl_store ingest_log)"
    using d(1) by (simp add: store_ready_def body_store_def)
  show "log_room ingest_log"
    using d(1,3) by (simp add: log_room_def log_events_def i64_max_def read_head_def max_seq_def ingest_log_def
        sample_config_def is_multiple_of_def SNAPSHOT_CADENCE_EVENTS_DEFAULT_def seq_next_def saturating_add_def)
  have "fresh_tables (full_registry body_codec) (main_tables d) = main_tables d"
    using d(3) evs by (simp add: log_core_def project_def)
  then have "n \<in> set (table_names (full_registry body_codec)) \<Longrightarrow> main_tables d n = Some []"
    by (metis fresh_tables_def)
  then show "n \<in> set (table_names (full_registry body_codec)) \<Longrightarrow> log_tables ingest_log n = Some []"
    using d(1) by (simp add: log_tables_def)
qed

lemma note_applies:
  assumes "ev_kind ev = domain_kind_tag note_added" "ev_body ev = encode_body body_codec note_added"
    "q \<in> set (full_registry body_codec)"
  shows "\<exists>ws t'. pr_apply q ev = Inr ws \<and> rfold (execute_write (pr_table q)) ws [] = Inr t'"
proof -
  note enc = apply_kinds_encoded [OF body_codec_ok(1) assms(1,2)]
  have k: "domain_kind_tag note_added = ''EvidenceAdded''"
    by (simp add: note_added_def)
  have "apply_evidence body_codec ev = Inr [added_row ev note_body]"
    by (simp add: apply_evidence_def enc k) (simp add: note_added_def evidence_writes_def)
  moreover have "apply_source_health body_codec ev = Inr (success_writes ev (stage_key 22 StageRaw) 120 1 0)"
    by (simp add: apply_source_health_def enc k) (simp add: note_added_def note_body_def source_health_writes_def)
  moreover have "\<exists>t'. rfold (execute_write SOURCE_HEALTH_TABLE) (success_writes ev (stage_key 22 StageRaw) 120 1 0) [] = Inr t'"
    using typed_writes_run [OF health_pieces_ok(1) [of ev 22 StageRaw 120 1 0], of "[]"] by (auto simp: success_writes_def)
  moreover have "\<exists>t'. rfold (execute_write EVIDENCE_TABLE) [added_row ev note_body] [] = Inr t'"
    using typed_writes_run [of EVIDENCE_TABLE "[added_row ev note_body]" "[]"] evidence_bodies_ok(1) [of ev note_body]
    by (auto simp: note_body_def)
  ultimately show ?thesis
    using assms(3) unfolding full_registry_set core_projections_def ingest_projections_def
    by (auto simp: core_applies ingest_applies enc k job_kinds_def runs_kinds_def simp del: rfold.simps(2))
qed

lemma noted_append: "\<exists>s. log_append_inner None [note_request] ingest_node = (Inr [s], noted_node)"
proof -
  have v: "validate_request (pl_externals (nd_log ingest_node)) note_request = Inr ()"
    by (simp add: validate_request_def ingest_node_def ingest_log_def body_externals_def note_request_def note_added_def note_body_def
        EVENT_BODY_LEN_MAX_def EVENT_REFS_COUNT_MAX_def entref_def)
  have "\<exists>ts'. apply_to_tables (full_registry body_codec) (event_of s lam 1000 note_request) (log_tables ingest_log) = Inr ts'"
    for s lam
  proof (rule apply_all_runs [OF full_registry_distinct], rule ballI)
    fix q
    assume q: "q \<in> set (full_registry body_codec)"
    then have "log_tables ingest_log (tbl_name (pr_table q)) = Some []"
      by (intro ingest_log_ready(4)) (auto simp: set_table_names)
    with note_applies [OF _ _ q, of "event_of s lam 1000 note_request"]
    show "\<exists>ws t t'. pr_apply q (event_of s lam 1000 note_request) = Inr ws \<and>
        log_tables ingest_log (tbl_name (pr_table q)) = Some t \<and> rfold (execute_write (pr_table q)) ws t = Inr t'"
      by (auto simp: event_of_def note_request_def)
  qed
  then show ?thesis
    using log_append_runs [of ingest_node note_request None] ingest_log_ready(1-3) v
    by (fastforce simp: ingest_node_def ingest_log_def nd_store_def noted_node_def)
qed

lemma noted_parts: "log_sound (nd_log noted_node)" "pl_registry (nd_log noted_node) = full_registry body_codec"
  "pl_externals (nd_log noted_node) = body_externals"
proof -
  have "log_moves ingest_node noted_node"
    unfolding noted_node_def
    by (rule append_moves [unfolded oinv_def, rule_format]) (simp add: requests_ok_def note_request_def domain_kind_tag_valid)
  then show "log_sound (nd_log noted_node)" "pl_registry (nd_log noted_node) = full_registry body_codec"
    "pl_externals (nd_log noted_node) = body_externals"
    using log_moves_sound [of ingest_node noted_node] ingest_log_ready(1)
    by (auto simp: log_moves_def ingest_node_def ingest_log_def clock_ok_def i64_max_def)
qed

lemma noted_row: "\<exists>r. rows_of (nd_log noted_node) ''proj_evidence'' [CBlob (into_bytes 21)] = Some r \<and> r ''byte_size'' = CInteger 120"
proof -
  obtain s where a: "log_append_inner None [note_request] ingest_node = (Inr [s], noted_node)"
    using noted_append by blast
  have p: "evidence_projection body_codec \<in> set (full_registry body_codec)"
    by (simp add: full_registry_set ingest_projections_def evidence_projection_def)
  have t: "log_tables ingest_log ''proj_evidence'' = Some []"
    by (rule ingest_log_ready(4)) (simp add: full_table_names)
  obtain ev ws t' where ev: "ev_kind ev = domain_kind_tag note_added" "ev_body ev = encode_body body_codec note_added"
      "apply_evidence body_codec ev = Inr ws" "rfold (execute_write EVIDENCE_TABLE) ws [] = Inr t'"
      "log_tables (nd_log noted_node) ''proj_evidence'' = Some t'"
    using log_append_ok [OF a, of "evidence_projection body_codec" "[]"] ingest_log_ready(1) p t
    by (auto simp: ingest_node_def ingest_log_def [symmetric] projection_tables note_request_def)
       (auto simp: evidence_projection_def ingest_log_def)
  have "ws = [added_row ev note_body]"
    using ev(1-3) apply_kinds_encoded [OF body_codec_ok(1) ev(1,2)]
    by (auto simp: apply_evidence_def note_added_def evidence_writes_def)
  then have "write_map EVIDENCE_TABLE (added_row ev note_body) Map.empty = Some (map_of t')"
    using execute_writes_map [OF ev(4)] by (auto split: bind_splits)
  then show ?thesis
    using ev(5) by (auto simp: rows_of_def note_body_def EVIDENCE_TABLE_def id_blob_def integer_u64_def sat_i64_def i64_max_def
        bind_values_def dest!: sym [of _ "map_of t'"])
qed

theorem evidence_is_immutable_witness:
  "\<exists>r r'. rows_of (nd_log noted_node) ''proj_evidence'' [CBlob (into_bytes 21)] = Some r \<and>
     rows_of rebuilt_log ''proj_evidence'' [CBlob (into_bytes 21)] = Some r' \<and>
     list_all (\<lambda>c. r' c = r c) PROVENANCE \<and> r ''byte_size'' = CInteger 120"
proof -
  obtain r where r: "rows_of (nd_log noted_node) ''proj_evidence'' [CBlob (into_bytes 21)] = Some r" "r ''byte_size'' = CInteger 120"
    using noted_row by blast
  have "log_step (nd_log noted_node) rebuilt_log"
    unfolding rebuilt_log_def using noted_parts by (intro log_step.Rebuild) (simp add: prod_eq_iff)
  from evidence_is_immutable [OF r_into_rtranclp [of log_step, OF this] noted_parts(1) _ _ r(1), of body_codec] r(2) noted_parts(2)
  show ?thesis
    using r(1) by (auto simp: full_registry_set ingest_projections_def evidence_projection_def chunks_projection_def)
qed

end
