(* ===== verification/Byte_Reader.thy ===== *)
theory Byte_Reader
  imports Node
begin

text \<open>
  \<open>std::io::Read\<close> over finite content, as the streams of \<open>pos-ingest\<close> and the blob store of \<open>pos-store\<close> use it.
\<close>

section \<open>Readers\<close>

text \<open>
  A reader over finite content: how many bytes the next \<open>read\<close> calls return is not under the program's
  control, so it is part of the reader (\<open>None\<close> is an I/O error). A call returns at most what was asked, at
  most what is left, and nothing only when nothing is left or nothing was asked.
\<close>

record byte_reader =
  rd_rest :: bytes
  rd_reads :: "nat \<Rightarrow> nat option"
  rd_calls :: nat

definition reader_read :: "nat \<Rightarrow> byte_reader \<Rightarrow> bytes option \<times> byte_reader" where
  "reader_read len r =
     (let r' = r\<lparr>rd_calls := Suc (rd_calls r)\<rparr>
      in case rd_reads r (rd_calls r) of
           None \<Rightarrow> (None, r')
         | Some k \<Rightarrow>
             let n = min (max 1 k) len
             in (Some (take n (rd_rest r)), r'\<lparr>rd_rest := drop n (rd_rest r)\<rparr>))"

definition reader_live :: "byte_reader \<Rightarrow> bool" where
  "reader_live r \<longleftrightarrow> (\<forall>n. rd_reads r n \<noteq> None)"

lemma reader_read_some:
  assumes "reader_read len r = (Some bs, r')"
  shows "bs @ rd_rest r' = rd_rest r" "length bs \<le> len" "rd_reads r' = rd_reads r" "0 < len \<Longrightarrow> bs = [] \<Longrightarrow> rd_rest r = []"
  using assms by (auto simp: reader_read_def Let_def split: option.splits)

end
