(* ===== verification/Blob_Store.thy ===== *)
theory Blob_Store
  imports Byte_Reader "HOL-Library.Char_ord"
begin

text \<open>
  The content-addressed blob store of \<open>crates/pos-store/src/cas.rs\<close>: streaming writes into a temporary file,
  atomic publication at the content's address, deduplication, and the verify sweep. The files below the
  \<open>blobs\<close> directory are a table from path components to contents; a directory is where such a path leads. What
  the file system does is part of the store: \<open>cas_io\<close> tells whether the next call succeeds, \<open>cas_partial\<close> how
  much of a failing write reached the file. A streamed read of a whole file counts as one call. The hash
  function is a parameter. Errors keep their context; \<open>CasAborted\<close> is the death of the process.
\<close>

section \<open>State\<close>

definition CAS_WRITE_BUFFER_CAP :: nat where
  "CAS_WRITE_BUFFER_CAP = 8 * 1024 * 1024"

definition CAS_READ_CHUNK_LEN :: nat where
  "CAS_READ_CHUNK_LEN = 64 * 1024"

definition VERIFY_DEFECT_REPORT_MAX :: nat where
  "VERIFY_DEFECT_REPORT_MAX = 64"

definition TEMP_DIRECTORY_NAME :: string where
  "TEMP_DIRECTORY_NAME = ''tmp''"

type_synonym path = "string list"
type_synonym files = "(path \<times> bytes) list"

record blob_store =
  cas_files :: files
  cas_faults :: "fault_plan option"
  cas_process :: string
  cas_sequence :: nat
  cas_io :: "nat \<Rightarrow> bool"
  cas_partial :: "nat \<Rightarrow> nat"
  cas_calls :: nat

datatype cas_error =
    CasIo string
  | BlobMissing digest32
  | BlobCorrupt path digest32 digest32
  | CasInjectedFault fault_point
  | CasAborted

type_synonym 'a cas_op = "(blob_store, cas_error, 'a) op"

section \<open>The file system\<close>

definition fs_call :: "string \<Rightarrow> (blob_store \<Rightarrow> 'a \<times> blob_store) \<Rightarrow> 'a cas_op" where
  "fs_call context f s =
     (let s' = s\<lparr>cas_calls := Suc (cas_calls s)\<rparr>
      in if cas_io s (cas_calls s) then (case f s' of (a, t) \<Rightarrow> (Inr a, t)) else (Inl (CasIo context), s'))"

definition fs_touch :: "string \<Rightarrow> unit cas_op" where
  "fs_touch context = fs_call context (\<lambda>s. ((), s))"

definition upd_files :: "(files \<Rightarrow> files) \<Rightarrow> blob_store \<Rightarrow> blob_store" where
  "upd_files f s = s\<lparr>cas_files := f (cas_files s)\<rparr>"

text \<open>\<open>let _ = fs::remove_file(..)\<close>: a failure is not reported.\<close>

definition try_remove :: "path \<Rightarrow> unit cas_op" where
  "try_remove p s =
     (let s' = s\<lparr>cas_calls := Suc (cas_calls s)\<rparr>
      in (Inr (), if cas_io s (cas_calls s) then upd_files (tbl_del p) s' else s'))"

text \<open>A write through an open handle: the file grows, by a part only when the call fails.\<close>

definition extend_file :: "path \<Rightarrow> bytes \<Rightarrow> files \<Rightarrow> files" where
  "extend_file p bs fs = (case map_of fs p of None \<Rightarrow> fs | Some c \<Rightarrow> tbl_put p (c @ bs) fs)"

definition fs_write :: "path \<Rightarrow> bytes \<Rightarrow> unit cas_op" where
  "fs_write p bs s =
     (let s' = s\<lparr>cas_calls := Suc (cas_calls s)\<rparr>
      in if cas_io s (cas_calls s) then (Inr (), upd_files (extend_file p bs) s')
         else (Inl (CasIo ''write blob temp file''),
               upd_files (extend_file p (take (cas_partial s (cas_calls s)) bs)) s'))"

definition rename_file :: "path \<Rightarrow> path \<Rightarrow> files \<Rightarrow> files" where
  "rename_file p q fs = (case map_of fs p of None \<Rightarrow> fs | Some c \<Rightarrow> tbl_put q c (tbl_del p fs))"

definition cas_trip :: "fault_point \<Rightarrow> unit cas_op" where
  "cas_trip point =
     oread (\<lambda>s. map_err (\<lambda>e. if e = Aborted then CasAborted else CasInjectedFault point) (trip (cas_faults s) point))"

definition sync_directory :: "unit cas_op" where
  "sync_directory = obind (fs_touch ''open directory for sync'') (\<lambda>_. fs_touch ''sync directory'')"

section \<open>Addresses\<close>

definition blob_hex :: "digest32 \<Rightarrow> string" where
  "blob_hex d = concat (map hex_byte (digest_bytes d))"

definition blob_from_hex :: "string \<Rightarrow> digest32 option" where
  "blob_from_hex text = (if length text \<noteq> 64 then None else Option.bind (hex_pairs text) digest_try_from)"

definition blob_path :: "digest32 \<Rightarrow> path" where
  "blob_path d = (let hex = blob_hex d in [take 2 hex, take 2 (drop 2 hex), hex])"

definition blob_contains :: "digest32 \<Rightarrow> blob_store \<Rightarrow> bool" where
  "blob_contains d s \<longleftrightarrow> map_of (cas_files s) (blob_path d) \<noteq> None"

section \<open>Opening\<close>

definition writer_prefix :: "blob_store \<Rightarrow> string" where
  "writer_prefix s = ''write-'' @ cas_process s @ ''-''"

definition starts_with :: "string \<Rightarrow> string \<Rightarrow> bool" where
  "starts_with prefix text \<longleftrightarrow> take (length prefix) text = prefix"

definition temp_names :: "files \<Rightarrow> string list" where
  "temp_names fs = map (\<lambda>(p, _). p ! 1) (filter (\<lambda>(p, _). length p = 2 \<and> p ! 0 = TEMP_DIRECTORY_NAME) fs)"

definition sweep_entry :: "string \<Rightarrow> unit \<Rightarrow> unit cas_op" where
  "sweep_entry name _ =
     obind (fs_touch ''sweep blob temp directory'') (\<lambda>_.
     obind (oget writer_prefix) (\<lambda>active_process_prefix.
     if starts_with active_process_prefix name then oret ()
     else try_remove [TEMP_DIRECTORY_NAME, name]))"

definition cas_open :: "unit cas_op" where
  "cas_open =
     obind (fs_touch ''create blob directories'') (\<lambda>_.
     obind (fs_touch ''sweep blob temp directory'') (\<lambda>_.
     obind (oget (\<lambda>s. temp_names (cas_files s))) (\<lambda>entries.
     ofold sweep_entry entries ())))"

section \<open>Writing\<close>

record blob_writer =
  bw_temp :: path
  bw_hashed :: bytes
  bw_buffer :: bytes
  bw_buffered_len_max :: nat

definition blob_writer_new :: "blob_writer cas_op" where
  "blob_writer_new =
     obind (oget (\<lambda>s. [TEMP_DIRECTORY_NAME, writer_prefix s @ dec_text (cas_sequence s)])) (\<lambda>temp_path.
     obind (omod (\<lambda>s. s\<lparr>cas_sequence := Suc (cas_sequence s)\<rparr>)) (\<lambda>_.
     fs_call ''create blob temp file'' (\<lambda>s.
       (\<lparr>bw_temp = temp_path, bw_hashed = [], bw_buffer = [], bw_buffered_len_max = 0\<rparr>,
        upd_files (tbl_put temp_path []) s))))"

definition flush_buffer :: "blob_writer \<Rightarrow> blob_writer cas_op" where
  "flush_buffer w =
     (if bw_buffer w = [] then oret w
      else obind (fs_write (bw_temp w) (bw_buffer w)) (\<lambda>_.
           oret (w\<lparr>bw_hashed := bw_hashed w @ bw_buffer w, bw_buffer := []\<rparr>)))"

definition append_piece :: "bytes \<Rightarrow> blob_writer \<Rightarrow> blob_writer cas_op" where
  "append_piece piece w =
     obind (if length (bw_buffer w) + length piece > CAS_WRITE_BUFFER_CAP then flush_buffer w else oret w) (\<lambda>w'.
     oret (w'\<lparr>bw_buffer := bw_buffer w' @ piece,
              bw_buffered_len_max := max (bw_buffered_len_max w') (length (bw_buffer w' @ piece))\<rparr>))"

text \<open>\<open>slice::chunks\<close>.\<close>

function byte_chunks :: "nat \<Rightarrow> bytes \<Rightarrow> bytes list" where
  "byte_chunks n bs = (if bs = [] \<or> n = 0 then [] else take n bs # byte_chunks n (drop n bs))"
  by pat_completeness auto
termination
  by (relation "measure (\<lambda>(n, bs). length bs)") auto

declare byte_chunks.simps [simp del]

definition writer_append :: "bytes \<Rightarrow> blob_writer \<Rightarrow> blob_writer cas_op" where
  "writer_append content w = ofold append_piece (byte_chunks CAS_WRITE_BUFFER_CAP content) w"

text \<open>\<open>Drop\<close> of a writer that still owns its file; a dead process runs no destructor.\<close>

definition or_drop :: "blob_writer \<Rightarrow> 'a cas_op \<Rightarrow> 'a cas_op" where
  "or_drop w m s =
     (case m s of
        (Inl e, s') \<Rightarrow> (Inl e, if e = CasAborted then s' else snd (try_remove (bw_temp w) s'))
      | (Inr a, s') \<Rightarrow> (Inr a, s'))"

definition publish :: "blob_writer \<Rightarrow> digest32 \<Rightarrow> digest32 cas_op" where
  "publish w hash =
     obind (oget (blob_contains hash)) (\<lambda>present.
     if present then obind (try_remove (bw_temp w)) (\<lambda>_. oret hash)
     else obind (fs_touch ''create blob fan-out directory'') (\<lambda>_.
          obind (fs_call ''publish blob'' (\<lambda>s. ((), upd_files (rename_file (bw_temp w) (blob_path hash)) s))) (\<lambda>_.
          obind (cas_trip CasRenamed) (\<lambda>_.
          obind sync_directory (\<lambda>_. oret hash)))))"

definition writer_finish :: "(bytes \<Rightarrow> digest32) \<Rightarrow> blob_writer \<Rightarrow> digest32 cas_op" where
  "writer_finish h w =
     obind (or_drop w (flush_buffer w)) (\<lambda>w'.
     obind (fs_touch ''sync blob temp file'') (\<lambda>_.
     obind (cas_trip CasTempWritten) (\<lambda>_.
     publish w' (h (bw_hashed w')))))"

definition write_bytes :: "(bytes \<Rightarrow> digest32) \<Rightarrow> bytes \<Rightarrow> digest32 cas_op" where
  "write_bytes h content =
     obind blob_writer_new (\<lambda>w. obind (or_drop w (writer_append content w)) (writer_finish h))"

function write_loop :: "blob_writer \<Rightarrow> byte_reader \<Rightarrow> blob_writer cas_op" where
  "write_loop w r s =
     (case reader_read CAS_READ_CHUNK_LEN r of
        (None, _) \<Rightarrow> (Inl (CasIo ''read blob input stream''), s)
      | (Some bs, r') \<Rightarrow>
          if bs = [] then (Inr w, s)
          else (case writer_append bs w s of
                  (Inl e, s') \<Rightarrow> (Inl e, s')
                | (Inr w', s') \<Rightarrow> write_loop w' r' s'))"
  by pat_completeness auto
termination
proof (relation "measure (\<lambda>(w, r, s). length (rd_rest r))", goal_cases)
  case (2 w r s x r' bs y s' w')
  then have "bs @ rd_rest r' = rd_rest r"
    using reader_read_some(1) by metis
  with 2 show ?case by (auto simp flip: \<open>bs @ rd_rest r' = rd_rest r\<close>)
qed simp

declare write_loop.simps [simp del]

definition write_stream :: "(bytes \<Rightarrow> digest32) \<Rightarrow> byte_reader \<Rightarrow> digest32 cas_op" where
  "write_stream h r =
     obind blob_writer_new (\<lambda>w. obind (or_drop w (write_loop w r)) (writer_finish h))"

section \<open>Reading and verifying\<close>

definition open_blob :: "digest32 \<Rightarrow> bytes cas_op" where
  "open_blob d =
     obind (fs_call ''open blob'' (\<lambda>s. (map_of (cas_files s) (blob_path d), s))) (\<lambda>content.
     case content of None \<Rightarrow> ofail (BlobMissing d) | Some c \<Rightarrow> oret c)"

text \<open>The hash of the content at a path; a directory opens but does not read.\<close>

definition is_directory :: "path \<Rightarrow> files \<Rightarrow> bool" where
  "is_directory p fs \<longleftrightarrow> list_ex (\<lambda>(q, _). length p < length q \<and> take (length p) q = p) fs"

definition rehash_file :: "(bytes \<Rightarrow> digest32) \<Rightarrow> path \<Rightarrow> digest32 cas_op" where
  "rehash_file h p =
     obind (fs_call ''open blob for verification'' (\<lambda>s. ((map_of (cas_files s) p, is_directory p (cas_files s)), s))) (\<lambda>found.
     case found of
       (None, False) \<Rightarrow> ofail (CasIo ''open blob for verification'')
     | (None, True) \<Rightarrow> ofail (CasIo ''read blob for verification'')
     | (Some c, _) \<Rightarrow> obind (fs_touch ''read blob for verification'') (\<lambda>_. oret (h c)))"

definition verify_blob :: "(bytes \<Rightarrow> digest32) \<Rightarrow> digest32 \<Rightarrow> unit cas_op" where
  "verify_blob h d =
     obind (rehash_file h (blob_path d)) (\<lambda>actual.
     if actual = d then oret () else ofail (BlobCorrupt (blob_path d) d actual))"

definition claimed_hash :: "path \<Rightarrow> digest32 option" where
  "claimed_hash p =
     (if length p < 3 then None
      else case blob_from_hex (p ! 2) of
             None \<Rightarrow> None
           | Some d \<Rightarrow>
               if starts_with (p ! 0) (blob_hex d) \<and> starts_with (p ! 1) (drop 2 (blob_hex d)) then Some d else None)"

text \<open>
  The entries the two-level walk visits, in path order: what lies two or three names deep outside the
  temporary directory. Each directory listing is a call.
\<close>

definition blob_entries :: "files \<Rightarrow> (path \<times> digest32 option) list" where
  "blob_entries fs =
     map (\<lambda>p. (p, claimed_hash p))
       (sort (remdups (map (take 3) (filter (\<lambda>p. 2 \<le> length p \<and> p ! 0 \<noteq> TEMP_DIRECTORY_NAME) (map fst fs)))))"

definition sorted_blob_files :: "(path \<times> digest32 option) list cas_op" where
  "sorted_blob_files = fs_call ''list blob directory'' (\<lambda>s. (blob_entries (cas_files s), s))"

record cas_verify_report =
  vr_blob_count :: nat
  vr_corrupt_count :: nat
  vr_misplaced_count :: nat
  vr_temp_leftover_count :: nat
  vr_defect_paths :: "path list"
  vr_defect_paths_truncated :: bool

definition cas_is_clean :: "cas_verify_report \<Rightarrow> bool" where
  "cas_is_clean r \<longleftrightarrow> vr_corrupt_count r = 0 \<and> vr_misplaced_count r = 0"

definition record_defect :: "path \<Rightarrow> cas_verify_report \<Rightarrow> cas_verify_report" where
  "record_defect p r =
     (if length (vr_defect_paths r) < VERIFY_DEFECT_REPORT_MAX then r\<lparr>vr_defect_paths := vr_defect_paths r @ [p]\<rparr>
      else r\<lparr>vr_defect_paths_truncated := True\<rparr>)"

definition count_temp_leftovers :: "nat cas_op" where
  "count_temp_leftovers = fs_call ''list blob temp directory'' (\<lambda>s. (length (temp_names (cas_files s)), s))"

definition verify_entry ::
  "(bytes \<Rightarrow> digest32) \<Rightarrow> path \<times> digest32 option \<Rightarrow> cas_verify_report \<Rightarrow> cas_verify_report cas_op" where
  "verify_entry h entry report =
     (case entry of (p, claimed) \<Rightarrow>
        let report = report\<lparr>vr_blob_count := vr_blob_count report + 1\<rparr>
        in case claimed of
             None \<Rightarrow> oret (record_defect p (report\<lparr>vr_misplaced_count := vr_misplaced_count report + 1\<rparr>))
           | Some expected \<Rightarrow>
               obind (rehash_file h p) (\<lambda>actual.
               oret (if actual \<noteq> expected
                     then record_defect p (report\<lparr>vr_corrupt_count := vr_corrupt_count report + 1\<rparr>)
                     else report)))"

definition cas_verify :: "(bytes \<Rightarrow> digest32) \<Rightarrow> cas_verify_report cas_op" where
  "cas_verify h =
     obind count_temp_leftovers (\<lambda>leftovers.
     obind sorted_blob_files (\<lambda>entries.
     ofold (verify_entry h) entries
       \<lparr>vr_blob_count = 0, vr_corrupt_count = 0, vr_misplaced_count = 0, vr_temp_leftover_count = leftovers,
        vr_defect_paths = [], vr_defect_paths_truncated = False\<rparr>))"

text \<open>The export copies every entry below another root, whose files are the accumulator.\<close>

definition copy_entry :: "path \<times> digest32 option \<Rightarrow> nat \<times> files \<Rightarrow> (nat \<times> files) cas_op" where
  "copy_entry entry acc =
     (case (entry, acc) of ((p, _), (copied, destination)) \<Rightarrow>
        obind (fs_touch ''create export fan-out directory'') (\<lambda>_.
        obind (fs_call ''copy blob into export'' (\<lambda>s. (map_of (cas_files s) p, s))) (\<lambda>content.
        case content of
          None \<Rightarrow> ofail (CasIo ''copy blob into export'')
        | Some c \<Rightarrow> oret (copied + 1, tbl_put p c destination))))"

definition copy_all_into :: "files \<Rightarrow> (nat \<times> files) cas_op" where
  "copy_all_into destination =
     obind (fs_touch ''create export blob directories'') (\<lambda>_.
     obind sorted_blob_files (\<lambda>entries.
     ofold copy_entry entries (0, destination)))"

section \<open>What is published stays, and is what its address says\<close>

definition published :: "blob_store \<Rightarrow> digest32 \<Rightarrow> bytes option" where
  "published s d = map_of (cas_files s) (blob_path d)"

definition blobs_ok :: "(bytes \<Rightarrow> digest32) \<Rightarrow> blob_store \<Rightarrow> bool" where
  "blobs_ok h s \<longleftrightarrow> tbl_sorted (cas_files s) \<and> (\<forall>d c. published s d = Some c \<longrightarrow> h c = d)"

text \<open>Nothing but temporary files and blobs at addresses.\<close>

definition is_temp :: "path \<Rightarrow> bool" where
  "is_temp p \<longleftrightarrow> length p = 2 \<and> p ! 0 = TEMP_DIRECTORY_NAME"

definition placed :: "blob_store \<Rightarrow> bool" where
  "placed s \<longleftrightarrow> (\<forall>p. map_of (cas_files s) p \<noteq> None \<longrightarrow> is_temp p \<or> (\<exists>d. p = blob_path d))"

text \<open>What the work before publication does: no address is touched.\<close>

definition temp_moves :: "blob_store \<Rightarrow> blob_store \<Rightarrow> bool" where
  "temp_moves s s' \<longleftrightarrow>
     (tbl_sorted (cas_files s) \<longrightarrow> tbl_sorted (cas_files s')) \<and> (placed s \<longrightarrow> placed s') \<and> published s' = published s"

interpretation temp: op_relation temp_moves
  by unfold_locales (auto simp: temp_moves_def)

lemma blob_hex_inject [simp]: "blob_hex d = blob_hex e \<longleftrightarrow> d = e"
  unfolding blob_hex_def by (metis hex_pairs_concat digest_try_from_bytes option.inject)

lemma blob_path_inject [simp]: "blob_path d = blob_path e \<longleftrightarrow> d = e"
  by (auto simp: blob_path_def Let_def)

lemma blob_path_deep [simp]: "length (blob_path d) = 3"
  by (simp add: blob_path_def Let_def)

lemma blob_path_not_temp: "is_temp p \<Longrightarrow> blob_path d \<noteq> p"
  using blob_path_deep [of d] by (fastforce simp: is_temp_def)

lemma published_same: "cas_files s' = cas_files s \<Longrightarrow> published s' = published s"
  by (simp add: published_def fun_eq_iff)

lemma files_same_moves: "cas_files s' = cas_files s \<Longrightarrow> temp_moves s s'"
  by (simp add: temp_moves_def placed_def published_def fun_eq_iff)

lemma temp_change_moves:
  assumes "is_temp p" "cas_files s' = tbl_put p c (cas_files s) \<or> cas_files s' = tbl_del p (cas_files s)"
  shows "temp_moves s s'"
  using assms blob_path_not_temp [OF assms(1)]
  by (auto simp: temp_moves_def placed_def published_def fun_eq_iff split: if_splits) blast+

lemma fs_call_moves: "(\<And>s. temp_moves s (snd (f s))) \<Longrightarrow> oinv temp_moves (fs_call ctx f)"
proof -
  assume f: "\<And>s. temp_moves s (snd (f s))"
  have "temp_moves s (snd (f (s\<lparr>cas_calls := n\<rparr>)))" for s n
    using f [of "s\<lparr>cas_calls := n\<rparr>"] files_same_moves [of "s\<lparr>cas_calls := n\<rparr>" s] temp.R_trans by fastforce
  then show ?thesis
    by (simp add: oinv_def fs_call_def Let_def files_same_moves split_beta)
qed

lemma fs_touch_moves: "oinv temp_moves (fs_touch ctx)"
  unfolding fs_touch_def by (rule fs_call_moves) (simp add: temp.R_refl)

lemma try_remove_moves: "is_temp p \<Longrightarrow> oinv temp_moves (try_remove p)"
  by (auto simp: oinv_def try_remove_def Let_def upd_files_def intro: files_same_moves temp_change_moves)

lemma extend_moves:
  "is_temp p \<Longrightarrow> cas_files s' = extend_file p bs (cas_files s) \<Longrightarrow> temp_moves s s'"
  by (auto simp: extend_file_def intro: files_same_moves temp_change_moves split: option.splits)

lemma fs_write_moves: "is_temp p \<Longrightarrow> oinv temp_moves (fs_write p bs)"
  by (auto simp: oinv_def fs_write_def Let_def upd_files_def intro: extend_moves)

lemma cas_trip_moves: "oinv temp_moves (cas_trip point)"
  unfolding cas_trip_def by (rule temp.oinv_oread)

lemma or_drop_moves:
  assumes "is_temp (bw_temp w)" "oinv temp_moves m"
  shows "oinv temp_moves (or_drop w m)"
  unfolding oinv_def
proof
  fix s
  obtain r s' where m: "m s = (r, s')" by (cases "m s")
  have "temp_moves s s'"
    using assms(2) m unfolding oinv_def by (metis snd_conv)
  moreover have "temp_moves s' (snd (try_remove (bw_temp w) s'))"
    using try_remove_moves [OF assms(1)] by (simp add: oinv_def)
  ultimately show "temp_moves s (snd (or_drop w m s))"
    using m temp.R_trans [of s s'] by (cases r) (auto simp: or_drop_def)
qed

lemmas cas_basic = temp.oinv_steps fs_touch_moves cas_trip_moves

lemma cas_open_moves: "oinv temp_moves cas_open"
  unfolding cas_open_def sweep_entry_def
  by (intro cas_basic try_remove_moves) (simp add: is_temp_def)

section \<open>Writers\<close>

text \<open>The temporary file holds what was hashed; the buffer stays within its cap.\<close>

definition writer_ok :: "blob_writer \<Rightarrow> blob_store \<Rightarrow> bool" where
  "writer_ok w s \<longleftrightarrow>
     is_temp (bw_temp w) \<and> map_of (cas_files s) (bw_temp w) = Some (bw_hashed w) \<and>
     length (bw_buffer w) \<le> CAS_WRITE_BUFFER_CAP \<and> bw_buffered_len_max w \<le> CAS_WRITE_BUFFER_CAP"

definition writer_content :: "blob_writer \<Rightarrow> bytes" where
  "writer_content w = bw_hashed w @ bw_buffer w"

definition writes :: "blob_writer \<Rightarrow> bytes \<Rightarrow> blob_writer cas_op \<Rightarrow> bool" where
  "writes w bs m \<longleftrightarrow>
     (\<forall>s. writer_ok w s \<longrightarrow> temp_moves s (snd (m s)) \<and>
        (\<forall>w' s'. m s = (Inr w', s') \<longrightarrow>
           writer_ok w' s' \<and> bw_temp w' = bw_temp w \<and> writer_content w' = writer_content w @ bs))"

lemma writes_moves: "writes w bs m \<Longrightarrow> writer_ok w s \<Longrightarrow> m s = (r, s') \<Longrightarrow> temp_moves s s'"
  unfolding writes_def by (metis snd_conv)

lemma writes_ok:
  "writes w bs m \<Longrightarrow> writer_ok w s \<Longrightarrow> m s = (Inr w', s') \<Longrightarrow>
     writer_ok w' s' \<and> bw_temp w' = bw_temp w \<and> writer_content w' = writer_content w @ bs"
  unfolding writes_def by metis

lemma writes_bind:
  assumes "writes w bs m" "\<And>w'. writes w' cs (f w')"
  shows "writes w (bs @ cs) (obind m f)"
  unfolding writes_def
proof (intro allI impI)
  fix s
  assume w: "writer_ok w s"
  obtain r s' where m: "m s = (r, s')" by (cases "m s")
  note mv = writes_moves [OF assms(1) w m]
  show "temp_moves s (snd (obind m f s)) \<and> (\<forall>w' t. obind m f s = (Inr w', t) \<longrightarrow>
      writer_ok w' t \<and> bw_temp w' = bw_temp w \<and> writer_content w' = writer_content w @ bs @ cs)"
  proof (cases r)
    case (Inl e)
    then show ?thesis using m mv by (simp add: obind_def)
  next
    case (Inr w1)
    obtain r' t where f: "f w1 s' = (r', t)" by (cases "f w1 s'")
    have o: "writer_ok w1 s' \<and> bw_temp w1 = bw_temp w \<and> writer_content w1 = writer_content w @ bs"
      using writes_ok [OF assms(1) w] m Inr by simp
    have mt: "temp_moves s t"
      using temp.R_trans [OF mv] writes_moves [OF assms(2) _ f] o by blast
    have eq: "obind m f s = (r', t)"
      using m f Inr by (simp add: obind_def)
    show ?thesis
      unfolding eq
    proof (intro conjI allI impI)
      fix w' t'
      assume "(r', t) = (Inr w', t')"
      then have "f w1 s' = (Inr w', t')" using f by simp
      from writes_ok [OF assms(2) _ this] o
      show "writer_ok w' t'" "bw_temp w' = bw_temp w" "writer_content w' = writer_content w @ bs @ cs" by simp_all
    qed (simp add: mt)
  qed
qed

lemma writes_ret: "writes w [] (oret w)"
  by (simp add: writes_def oret_def temp.R_refl)

lemma fs_write_cases:
  "fs_write p bs s = (Inr u, s') \<Longrightarrow> cas_files s' = extend_file p bs (cas_files s)"
  by (auto simp: fs_write_def Let_def upd_files_def split: if_splits)

lemma flush_writes: "writes w [] (flush_buffer w)"
proof (cases "bw_buffer w = []")
  case True
  then show ?thesis by (simp add: flush_buffer_def writes_ret)
next
  case False
  show ?thesis
    unfolding writes_def
  proof (intro allI impI)
    fix s
    assume w: "writer_ok w s"
    obtain r s' where m: "fs_write (bw_temp w) (bw_buffer w) s = (r, s')" by (cases "fs_write (bw_temp w) (bw_buffer w) s")
    have "temp_moves s s'"
      using fs_write_moves [of "bw_temp w" "bw_buffer w"] w m unfolding oinv_def writer_ok_def by (metis snd_conv)
    moreover have "map_of (cas_files s') (bw_temp w) = Some (bw_hashed w @ bw_buffer w)" if "r = Inr ()"
      using fs_write_cases [OF m [unfolded that]] w by (simp add: writer_ok_def extend_file_def)
    ultimately show "temp_moves s (snd (flush_buffer w s)) \<and> (\<forall>w' t. flush_buffer w s = (Inr w', t) \<longrightarrow>
        writer_ok w' t \<and> bw_temp w' = bw_temp w \<and> writer_content w' = writer_content w @ [])"
      using False m w by (cases r) (auto simp: flush_buffer_def obind_def oret_def writer_ok_def writer_content_def)
  qed
qed

lemma flush_empties: "flush_buffer w s = (Inr w', s') \<Longrightarrow> bw_buffer w' = []"
  by (auto simp: flush_buffer_def obind_def oret_def split: if_splits prod.splits sum.splits)

lemma piece_writes:
  assumes "length piece \<le> CAS_WRITE_BUFFER_CAP"
  shows "writes w piece (append_piece piece w)"
proof -
  let ?b = "if length (bw_buffer w) + length piece > CAS_WRITE_BUFFER_CAP then flush_buffer w else oret w"
  have b: "writes w [] ?b"
    using flush_writes writes_ret by simp
  show ?thesis
    unfolding writes_def
  proof (intro allI impI)
    fix s
    assume w: "writer_ok w s"
    obtain r s' where m: "?b s = (r, s')" by (cases "?b s")
    have fits: "length (bw_buffer w1) + length piece \<le> CAS_WRITE_BUFFER_CAP" if "r = Inr w1" for w1
      using m that assms flush_empties by (auto simp: oret_def split: if_splits)
    show "temp_moves s (snd (append_piece piece w s)) \<and> (\<forall>w' t. append_piece piece w s = (Inr w', t) \<longrightarrow>
        writer_ok w' t \<and> bw_temp w' = bw_temp w \<and> writer_content w' = writer_content w @ piece)"
    proof (cases r)
      case (Inl e)
      then show ?thesis
        using m writes_moves [OF b w m] by (simp add: append_piece_def obind_def)
    next
      case (Inr w1)
      then have "writer_ok w1 s' \<and> bw_temp w1 = bw_temp w \<and> writer_content w1 = writer_content w"
        using writes_ok [OF b w] m by simp
      then show ?thesis
        using m writes_moves [OF b w m] Inr fits [OF Inr]
        by (auto simp: append_piece_def obind_def oret_def writer_ok_def writer_content_def)
    qed
  qed
qed

lemma byte_chunks_concat: "0 < n \<Longrightarrow> concat (byte_chunks n bs) = bs"
  by (induction n bs rule: byte_chunks.induct) (subst byte_chunks.simps, auto)

lemma byte_chunks_length: "c \<in> set (byte_chunks n bs) \<Longrightarrow> length c \<le> n"
  by (induction n bs rule: byte_chunks.induct) (subst (asm) byte_chunks.simps, auto split: if_splits)

lemma pieces_write:
  "(\<And>c. c \<in> set cs \<Longrightarrow> length c \<le> CAS_WRITE_BUFFER_CAP) \<Longrightarrow> writes w (concat cs) (ofold append_piece cs w)"
  by (induction cs arbitrary: w) (auto intro: writes_ret writes_bind piece_writes)

lemma append_writes: "writes w bs (writer_append bs w)"
proof -
  have "0 < CAS_WRITE_BUFFER_CAP" by (simp add: CAS_WRITE_BUFFER_CAP_def)
  then show ?thesis
    using pieces_write [of "byte_chunks CAS_WRITE_BUFFER_CAP bs" w] byte_chunks_length
    by (fastforce simp: writer_append_def byte_chunks_concat)
qed

lemma loop_writes:
  "writer_ok w s \<Longrightarrow> write_loop w r s = (res, s') \<Longrightarrow> temp_moves s s' \<and>
     (\<forall>w'. res = Inr w' \<longrightarrow> writer_ok w' s' \<and> bw_temp w' = bw_temp w \<and> writer_content w' = writer_content w @ rd_rest r)"
proof (induction w r s arbitrary: res s' rule: write_loop.induct)
  case (1 w r s)
  obtain ob r1 where rd: "reader_read CAS_READ_CHUNK_LEN r = (ob, r1)" by (cases "reader_read CAS_READ_CHUNK_LEN r")
  show ?case
  proof (cases ob)
    case None
    then show ?thesis
      using "1.prems"(2) rd by (subst (asm) write_loop.simps) (auto simp: temp.R_refl)
  next
    case (Some bs)
    note rs = reader_read_some [OF rd [unfolded Some]]
    show ?thesis
    proof (cases "bs = []")
      case True
      have "rd_rest r = []"
        using rs(4) True by (simp add: CAS_READ_CHUNK_LEN_def)
      with True show ?thesis
        using "1.prems" rd Some by (auto simp: temp.R_refl write_loop.simps [of w r s])
    next
      case False
      obtain ra s1 where a: "writer_append bs w s = (ra, s1)" by (cases "writer_append bs w s")
      note mv = writes_moves [OF append_writes "1.prems"(1) a]
      show ?thesis
      proof (cases ra)
        case (Inl e)
        then show ?thesis
          using "1.prems"(2) rd Some False a mv by (subst (asm) write_loop.simps) auto
      next
        case (Inr w1)
        have o: "writer_ok w1 s1 \<and> bw_temp w1 = bw_temp w \<and> writer_content w1 = writer_content w @ bs"
          using writes_ok [OF append_writes "1.prems"(1) a [unfolded Inr]] by blast
        have rest: "write_loop w1 r1 s1 = (res, s')"
          using "1.prems"(2) rd Some False a Inr by (subst (asm) write_loop.simps) auto
        have "temp_moves s1 s' \<and> (\<forall>w'. res = Inr w' \<longrightarrow> writer_ok w' s' \<and> bw_temp w' = bw_temp w1 \<and>
            writer_content w' = writer_content w1 @ rd_rest r1)"
          using "1.IH" [OF rd [symmetric] Some False a [symmetric] Inr] o rest by blast
        moreover have "temp_moves s s'"
          using calculation temp.R_trans [OF mv] by blast
        moreover have "writer_content w @ rd_rest r = writer_content w1 @ rd_rest r1" "bw_temp w1 = bw_temp w"
          using o by (simp_all flip: rs(1))
        ultimately show ?thesis by metis
      qed
    qed
  qed
qed

end
