(* ===== verification/Ingest_Stream.thy ===== *)
theory Ingest_Stream
  imports Byte_Reader Ingest_Vocabulary Job Evidence_State Blob_Store
begin

text \<open>
  The streaming discipline of \<open>crates/pos-ingest/src/budget.rs\<close>: \<open>BoundedStream\<close>, a forward-only window
  over a reader with a stated resident cap. A \<open>usize\<close> or a byte total is a \<open>nat\<close>: no content that
  can be stored reaches \<open>2 ^ 64\<close> bytes. The process-wide residency meter reads \<open>Vec::capacity\<close>, which the
  allocator decides, and is not part of the model.
\<close>

section \<open>Errors\<close>

text \<open>\<open>IngestStore\<close> and \<open>IngestBlob\<close> are both \<open>IngestError::Store\<close>: of the database, and of the blob store.\<close>

datatype (plugins only: code size) ingest_error =
    IngestStore store_error
  | IngestBlob cas_error
  | IngestLog log_error
  | IngestSched sched_error
  | IngestRead evidence_read_error
  | BufferBudgetExceeded ingest_stage nat nat
  | IngestIo string
  | UnknownEvidence string
  | EvidenceExists string
  | StalePass ingest_stage u32 u32
  | StageNotReprocessable ingest_stage
  | StageInputMissing ingest_stage string
  | NotUtf8 nat
  | LimitExceeded string nat nat

section \<open>The bounded stream\<close>

definition STAGE_BUFFER_BYTES_MAX_DEFAULT :: nat where
  "STAGE_BUFFER_BYTES_MAX_DEFAULT = 32 * 1024 * 1024"

definition STAGE_READ_BYTES :: nat where
  "STAGE_READ_BYTES = 256 * 1024"

record stream_budget =
  sb_stage :: ingest_stage
  sb_buffer_bytes_max :: nat

definition budget_default_for :: "ingest_stage \<Rightarrow> stream_budget" where
  "budget_default_for stage = \<lparr>sb_stage = stage, sb_buffer_bytes_max = STAGE_BUFFER_BYTES_MAX_DEFAULT\<rparr>"

record bounded_stream =
  bs_reader :: byte_reader
  bs_budget :: stream_budget
  bs_buffer :: bytes
  bs_start :: nat
  bs_read_total :: nat
  bs_consumed_total :: nat
  bs_peak_bytes :: nat
  bs_at_end :: bool

definition stream_new :: "byte_reader \<Rightarrow> stream_budget \<Rightarrow> bounded_stream" where
  "stream_new reader budget =
     \<lparr>bs_reader = reader, bs_budget = budget, bs_buffer = [], bs_start = 0, bs_read_total = 0,
      bs_consumed_total = 0, bs_peak_bytes = 0, bs_at_end = False\<rparr>"

definition available :: "bounded_stream \<Rightarrow> nat" where
  "available s = length (bs_buffer s) - bs_start s"

definition stream_at_end :: "bounded_stream \<Rightarrow> bool" where
  "stream_at_end s \<longleftrightarrow> bs_at_end s \<and> length (bs_buffer s) = bs_start s"

definition compact :: "bounded_stream \<Rightarrow> bounded_stream" where
  "compact s = (if bs_start s > 0 then s\<lparr>bs_buffer := drop (bs_start s) (bs_buffer s), bs_start := 0\<rparr> else s)"

definition window_refused :: "nat \<Rightarrow> bounded_stream \<Rightarrow> ingest_error" where
  "window_refused want s =
     BufferBudgetExceeded (sb_stage (bs_budget s)) want (sb_buffer_bytes_max (bs_budget s))"

text \<open>What one \<open>read\<close> of the loop leaves: the buffer grows by what came, an empty read is the end.\<close>

definition after_read :: "bytes \<Rightarrow> byte_reader \<Rightarrow> bounded_stream \<Rightarrow> bounded_stream" where
  "after_read bs reader s =
     (let buffer = bs_buffer s @ bs
      in s\<lparr>bs_reader := reader, bs_buffer := buffer, bs_at_end := (bs = [] \<or> bs_at_end s),
           bs_read_total := bs_read_total s + length bs, bs_peak_bytes := max (bs_peak_bytes s) (length buffer)\<rparr>)"

definition unread :: "bounded_stream \<Rightarrow> nat" where
  "unread s = length (rd_rest (bs_reader s)) + (if bs_at_end s then 0 else 1)"

lemma unread_less:
  assumes "reader_read len (bs_reader (compact s)) = (Some bs, reader)" "\<not> bs_at_end s"
  shows "unread (after_read bs reader (compact s)) < unread s"
proof -
  have "bs_reader (compact s) = bs_reader s"
    by (simp add: compact_def)
  then have "length bs + length (rd_rest reader) = length (rd_rest (bs_reader s))"
    using reader_read_some(1) [OF assms(1)] by (metis length_append)
  then show ?thesis
    using assms(2) by (cases bs) (auto simp: unread_def after_read_def Let_def compact_def)
qed

function fill_loop :: "nat \<Rightarrow> (bounded_stream, ingest_error, unit) op" where
  "fill_loop want s =
     (if available s < want \<and> \<not> bs_at_end s then
        let s = compact s;
            room = sb_buffer_bytes_max (bs_budget s) - length (bs_buffer s);
            read_len = min STAGE_READ_BYTES room
        in if read_len = 0 then (Inl (window_refused want s), s)
           else case reader_read read_len (bs_reader s) of
                  (None, reader) \<Rightarrow>
                    (Inl (IngestIo ''read ingested content''),
                     s\<lparr>bs_reader := reader, bs_buffer := bs_buffer s @ replicate read_len 0\<rparr>)
                | (Some bs, reader) \<Rightarrow> fill_loop want (after_read bs reader s)
      else (Inr (), s))"
  by pat_completeness auto

termination
proof (relation "measure (\<lambda>(want, s). unread s)")
  show "wf (measure (\<lambda>(want, s). unread s))" by simp
qed (use unread_less in \<open>force simp: prod_eq_iff\<close>)

declare fill_loop.simps [simp del]

definition fill :: "nat \<Rightarrow> (bounded_stream, ingest_error, unit) op" where
  "fill want s = (if want > sb_buffer_bytes_max (bs_budget s) then (Inl (window_refused want s), s) else fill_loop want s)"

definition stream_window :: "nat \<Rightarrow> (bounded_stream, ingest_error, bytes) op" where
  "stream_window want = obind (fill want) (\<lambda>_. oget (\<lambda>s. take want (drop (bs_start s) (bs_buffer s))))"

definition window_max :: "(bounded_stream, ingest_error, bytes) op" where
  "window_max s =
     obind (fill (sb_buffer_bytes_max (bs_budget s))) (\<lambda>_. oget (\<lambda>s. drop (bs_start s) (bs_buffer s))) s"

text \<open>\<open>advance\<close>, with the clamp of a release build.\<close>

definition advance :: "nat \<Rightarrow> bounded_stream \<Rightarrow> bounded_stream" where
  "advance count s =
     (let count = min count (available s);
          s = s\<lparr>bs_start := bs_start s + count, bs_consumed_total := bs_consumed_total s + count\<rparr>
      in if bs_start s = length (bs_buffer s) then s\<lparr>bs_buffer := [], bs_start := 0\<rparr> else s)"

section \<open>What a stream shows\<close>

text \<open>The content a stream has still to show, and the invariant of its buffer.\<close>

definition pending :: "bounded_stream \<Rightarrow> bytes" where
  "pending s = drop (bs_start s) (bs_buffer s) @ rd_rest (bs_reader s)"

definition stream_ok :: "bounded_stream \<Rightarrow> bool" where
  "stream_ok s \<longleftrightarrow> bs_start s \<le> length (bs_buffer s) \<and> length (bs_buffer s) \<le> sb_buffer_bytes_max (bs_budget s) \<and>
     bs_peak_bytes s \<le> sb_buffer_bytes_max (bs_budget s) \<and> (bs_at_end s \<longrightarrow> rd_rest (bs_reader s) = [])"

text \<open>What every operation keeps of a stream.\<close>

definition same_stream :: "bounded_stream \<Rightarrow> bounded_stream \<Rightarrow> bool" where
  "same_stream s s' \<longleftrightarrow> bs_budget s' = bs_budget s \<and> rd_reads (bs_reader s') = rd_reads (bs_reader s)"

lemma stream_new_ok: "stream_ok (stream_new reader budget)" "pending (stream_new reader budget) = rd_rest reader"
  by (simp_all add: stream_ok_def stream_new_def pending_def)

lemma compact_ok:
  "pending (compact s) = pending s" "stream_ok s \<Longrightarrow> stream_ok (compact s)" "bs_start (compact s) = 0"
  "available (compact s) = available s" "same_stream s (compact s)" "bs_at_end (compact s) = bs_at_end s"
  "bs_consumed_total (compact s) = bs_consumed_total s" "bs_budget (compact s) = bs_budget s" "bs_reader (compact s) = bs_reader s"
  by (auto simp: compact_def pending_def stream_ok_def available_def same_stream_def)

lemma after_read_ok:
  assumes "reader_read len (bs_reader s) = (Some bs, reader)" "stream_ok s" "0 < len"
    "length (bs_buffer s) + len \<le> sb_buffer_bytes_max (bs_budget s)"
  shows "stream_ok (after_read bs reader s)" "pending (after_read bs reader s) = pending s" "same_stream s (after_read bs reader s)"
    "bs_consumed_total (after_read bs reader s) = bs_consumed_total s"
  using reader_read_some [OF assms(1)] assms(2-)
  by (auto simp: after_read_def stream_ok_def pending_def same_stream_def Let_def)

lemma fill_loop_ok:
  assumes "stream_ok s" "want \<le> sb_buffer_bytes_max (bs_budget s)" "fill_loop want s = (r, s')"
  shows "(if r = Inr () then stream_ok s' \<and> pending s' = pending s \<and> min want (length (pending s)) \<le> available s' \<and>
       bs_consumed_total s' = bs_consumed_total s
     else r = Inl (IngestIo ''read ingested content'') \<and> \<not> reader_live (bs_reader s)) \<and> same_stream s s'"
  using assms
proof (induction want s rule: fill_loop.induct)
  case (1 want s)
  show ?case
  proof (cases "available s < want \<and> \<not> bs_at_end s")
    case False
    then have "min want (length (pending s)) \<le> available s"
      using 1(2) by (auto simp: stream_ok_def pending_def available_def)
    then show ?thesis
      using 1(2,4) False by (auto simp: fill_loop.simps [of want s] same_stream_def)
  next
    case True
    let ?s = "compact s"
    let ?len = "min STAGE_READ_BYTES (sb_buffer_bytes_max (bs_budget ?s) - length (bs_buffer ?s))"
    have ok: "stream_ok ?s"
      by (rule compact_ok(2) [OF 1(2)])
    have "length (bs_buffer ?s) < want"
      using True compact_ok(3,4) [of s] by (simp add: available_def)
    then have len: "0 < ?len" "length (bs_buffer ?s) + ?len \<le> sb_buffer_bytes_max (bs_budget ?s)"
      using 1(3) compact_ok(8) [of s] by (auto simp: STAGE_READ_BYTES_def)
    show ?thesis
    proof (cases "reader_read ?len (bs_reader ?s)")
      case (Pair o' reader)
      show ?thesis
      proof (cases o')
        case None
        then have dead: "\<not> reader_live (bs_reader s)" "rd_reads reader = rd_reads (bs_reader s)"
          using Pair compact_ok(9) [of s] by (auto simp: reader_read_def Let_def reader_live_def split: option.splits)
        have "(r, s') = (Inl (IngestIo ''read ingested content''),
            ?s\<lparr>bs_reader := reader, bs_buffer := bs_buffer ?s @ replicate ?len 0\<rparr>)"
          using 1(4) True len Pair None by (simp add: fill_loop.simps [of want s] Let_def)
        with dead show ?thesis by (simp add: same_stream_def compact_ok(8))
      next
        case (Some bs)
        note step = after_read_ok [OF Pair [unfolded Some] ok len]
        have rec: "fill_loop want (after_read bs reader ?s) = (r, s')"
          using 1(4) True len Pair Some by (simp add: fill_loop.simps [of want s] Let_def)
        have "same_stream s (after_read bs reader ?s)"
          using step(3) compact_ok(5) [of s] by (simp add: same_stream_def)
        moreover from this have "want \<le> sb_buffer_bytes_max (bs_budget (after_read bs reader ?s))"
          using 1(3) by (simp add: same_stream_def)
        moreover note 1(1) [OF True refl refl refl _ Pair [symmetric] Some step(1) this rec] len(1)
        ultimately show ?thesis
          using step compact_ok [of s] by (auto simp: same_stream_def reader_live_def split: if_splits)
      qed
    qed
  qed
qed

lemma take_shown: "min n (length (a @ b)) \<le> length a \<Longrightarrow> take n a = take n (a @ b)"
  by (auto simp: min_def split: if_splits)

lemma window_shows:
  assumes "min want (length (pending s)) \<le> available s"
  shows "take want (drop (bs_start s) (bs_buffer s)) = take want (pending s)"
  using take_shown [of want "drop (bs_start s) (bs_buffer s)" "rd_rest (bs_reader s)"] assms
  by (simp add: pending_def available_def)

lemma window_ok:
  assumes "stream_ok s" "want \<le> sb_buffer_bytes_max (bs_budget s)" "reader_live (bs_reader s)"
  obtains s' where "stream_window want s = (Inr (take want (pending s)), s')" "stream_ok s'" "pending s' = pending s"
    "min want (length (pending s)) \<le> available s'" "same_stream s s'" "bs_consumed_total s' = bs_consumed_total s"
proof (cases "fill_loop want s")
  case (Pair r s')
  note f = fill_loop_ok [OF assms(1,2) Pair]
  then have r: "r = Inr ()" using assms(3) by (auto split: if_splits)
  have "take want (drop (bs_start s') (bs_buffer s')) = take want (pending s')"
    using f r by (intro window_shows) simp
  then show ?thesis
    using that f r Pair assms(2) by (auto simp: stream_window_def obind_def oget_def fill_def)
qed

lemma advance_ok:
  assumes "stream_ok s" "count \<le> available s"
  shows "stream_ok (advance count s)" "pending (advance count s) = drop count (pending s)" "same_stream s (advance count s)"
    "bs_consumed_total (advance count s) = bs_consumed_total s + count"
  using assms by (auto simp: advance_def stream_ok_def pending_def same_stream_def available_def Let_def add.commute)

text \<open>
  C37: A bounded stream shows the content, whole and in order, within its budget. On a stream in its
  invariant a window wider than the budget is refused and nothing is read; any other window either fails
  with the reader's I/O error or shows exactly the next \<open>want\<close> bytes of the content (fewer only at its
  end), however the reader cuts its reads; consuming them leaves the content behind them; and the
  buffer and its high-water mark stay within the budget. The refill loop always ends.
\<close>

theorem stream_window_exact:
  assumes "stream_ok s"
  shows "if want > sb_buffer_bytes_max (bs_budget s) then stream_window want s = (Inl (window_refused want s), s)
    else if \<exists>e s'. stream_window want s = (Inl e, s')
    then fst (stream_window want s) = Inl (IngestIo ''read ingested content'') \<and> \<not> reader_live (bs_reader s)
    else \<exists>s'. stream_window want s = (Inr (take want (pending s)), s') \<and> stream_ok s' \<and> pending s' = pending s \<and>
      stream_ok (advance (length (take want (pending s))) s') \<and>
      pending (advance (length (take want (pending s))) s') = drop want (pending s) \<and>
      bs_consumed_total (advance (length (take want (pending s))) s') = bs_consumed_total s + min want (length (pending s))"
proof (cases "want > sb_buffer_bytes_max (bs_budget s)")
  case True
  then show ?thesis by (simp add: stream_window_def obind_def fill_def)
next
  case False
  show ?thesis
  proof (cases "fill_loop want s")
    case (Pair r s')
    note f = fill_loop_ok [OF assms _ Pair]
    show ?thesis
    proof (cases r)
      case (Inl e)
      then show ?thesis
        using f False Pair by (auto simp: stream_window_def obind_def fill_def split: if_splits)
    next
      case (Inr u)
      then have s': "stream_ok s'" "pending s' = pending s" "min want (length (pending s)) \<le> available s'"
          "bs_consumed_total s' = bs_consumed_total s"
        using f False by auto
      have w: "stream_window want s = (Inr (take want (pending s)), s')"
        using Inr False Pair s'(2,3) window_shows [of want s'] by (simp add: stream_window_def obind_def oget_def fill_def)
      have "drop (min want (length (pending s))) (pending s) = drop want (pending s)"
        by (simp add: min_def)
      then show ?thesis
        using False w s' advance_ok [OF s'(1), of "min want (length (pending s))"] by (simp add: min.commute)
    qed
  qed
qed

definition sample_reader :: byte_reader where
  "sample_reader = \<lparr>rd_rest = [1, 2, 3, 4, 5], rd_reads = (\<lambda>_. Some 2), rd_calls = 0\<rparr>"

theorem stream_window_exact_witness:
  "\<exists>s. stream_window 3 (stream_new sample_reader \<lparr>sb_stage = StageChunk, sb_buffer_bytes_max = 4\<rparr>) = (Inr [1, 2, 3], s) \<and>
     pending (advance 3 s) = [4, 5]"
proof -
  let ?s = "stream_new sample_reader \<lparr>sb_stage = StageChunk, sb_buffer_bytes_max = 4\<rparr>"
  have p: "pending ?s = [1, 2, 3, 4, 5]" "reader_live (bs_reader ?s)" "sb_buffer_bytes_max (bs_budget ?s) = 4"
    by (simp_all add: pending_def stream_new_def sample_reader_def reader_live_def)
  then show ?thesis
    using stream_window_exact [OF stream_new_ok(1), of sample_reader "\<lparr>sb_stage = StageChunk, sb_buffer_bytes_max = 4\<rparr>" 3]
    by (auto simp: eval_nat_numeral split: if_splits)
qed

end
