(* ===== verification/Segment_Index.thy ===== *)
theory Segment_Index
  imports Ingest_Stream
begin

text \<open>
  The segment index of \<open>crates/pos-ingest/src/segment.rs\<close>: fixed-width records over the normalized
  text, written one after the other into a blob and read back through a bounded stream. The blob
  writer is the bytes it has taken; which of its \<open>append\<close> calls fail is an argument.
\<close>

definition SEGMENT_RECORD_BYTES :: nat where
  "SEGMENT_RECORD_BYTES = 40"

definition SEGMENT_COUNT_MAX :: nat where
  "SEGMENT_COUNT_MAX = 10000000"

definition LOCATOR_TAG_TIME :: u8 where
  "LOCATOR_TAG_TIME = 1"

definition LOCATOR_TAG_LINE :: u8 where
  "LOCATOR_TAG_LINE = 2"

definition LOCATOR_TAG_MESSAGE :: u8 where
  "LOCATOR_TAG_MESSAGE = 3"

record segment =
  sg_byte_start :: u64
  sg_byte_end :: u64
  sg_locator :: locator
  sg_depth :: u8

definition segment_byte_len :: "segment \<Rightarrow> u64" where
  "segment_byte_len s = saturating_sub (sg_byte_end s) (sg_byte_start s)"

text \<open>\<open>u64::to_le_bytes\<close> and \<open>u64::from_le_bytes\<close>.\<close>

definition u64_le_bytes :: "u64 \<Rightarrow> bytes" where
  "u64_le_bytes w = rev (nat_be_bytes 8 (unat w))"

definition u64_from_le_bytes :: "bytes \<Rightarrow> u64" where
  "u64_from_le_bytes bs = word_of_nat (nat_of_be_bytes (rev bs))"

fun locator_tag :: "locator \<Rightarrow> u8" where
  "locator_tag (TimeRange _ _) = LOCATOR_TAG_TIME"
| "locator_tag (LineRange _ _) = LOCATOR_TAG_LINE"
| "locator_tag (MessageRange _ _) = LOCATOR_TAG_MESSAGE"

definition segment_encode :: "segment \<Rightarrow> bytes" where
  "segment_encode s =
     (let (first, second) = locator_bounds (sg_locator s)
      in u64_le_bytes (sg_byte_start s) @ u64_le_bytes (sg_byte_end s) @
         [locator_tag (sg_locator s), sg_depth s] @ replicate 6 0 @ u64_le_bytes first @ u64_le_bytes second)"

definition bytes_between :: "nat \<Rightarrow> nat \<Rightarrow> 'a list \<Rightarrow> 'a list" where
  "bytes_between a b xs = take (b - a) (drop a xs)"

definition segment_decode :: "bytes \<Rightarrow> segment option" where
  "segment_decode bytes =
     (if length bytes < SEGMENT_RECORD_BYTES then None
      else
        let byte_start = u64_from_le_bytes (bytes_between 0 8 bytes);
            byte_end = u64_from_le_bytes (bytes_between 8 16 bytes)
        in if byte_end < byte_start then None
           else
             let first = u64_from_le_bytes (bytes_between 24 32 bytes);
                 second = u64_from_le_bytes (bytes_between 32 40 bytes);
                 tag = bytes ! 16
             in map_option
                  (\<lambda>locator. \<lparr>sg_byte_start = byte_start, sg_byte_end = byte_end, sg_locator = locator, sg_depth = bytes ! 17\<rparr>)
                  (if tag = LOCATOR_TAG_TIME then Some (TimeRange first second)
                   else if tag = LOCATOR_TAG_LINE then Some (LineRange first second)
                   else if tag = LOCATOR_TAG_MESSAGE then Some (MessageRange first second)
                   else None))"

section \<open>Writing and reading an index\<close>

record segment_writer =
  sw_blob :: bytes
  sw_count :: nat

definition writer_push ::
  "(nat \<Rightarrow> store_error option) \<Rightarrow> segment \<Rightarrow> (segment_writer, ingest_error, unit) op" where
  "writer_push blob_fails s w =
     (if sw_count w \<ge> SEGMENT_COUNT_MAX
      then (Inl (LimitExceeded ''segment count'' (Suc (sw_count w)) SEGMENT_COUNT_MAX), w)
      else case blob_fails (sw_count w) of
             Some e \<Rightarrow> (Inl (IngestStore e), w)
           | None \<Rightarrow> (Inr (), w\<lparr>sw_blob := sw_blob w @ segment_encode s, sw_count := Suc (sw_count w)\<rparr>))"

record segment_reader =
  sr_stream :: bounded_stream
  sr_read_count :: nat

definition reader_new :: "bounded_stream \<Rightarrow> segment_reader" where
  "reader_new stream = \<lparr>sr_stream = stream, sr_read_count = 0\<rparr>"

definition next_segment :: "(segment_reader, ingest_error, segment option) op" where
  "next_segment r =
     (case stream_window SEGMENT_RECORD_BYTES (sr_stream r) of
        (Inl e, stream) \<Rightarrow> (Inl e, r\<lparr>sr_stream := stream\<rparr>)
      | (Inr window, stream) \<Rightarrow>
          if window = [] then (Inr None, r\<lparr>sr_stream := stream\<rparr>)
          else case segment_decode window of
                 None \<Rightarrow> (Inl (LimitExceeded ''segment record'' (length window) SEGMENT_RECORD_BYTES), r\<lparr>sr_stream := stream\<rparr>)
               | Some s \<Rightarrow> (Inr (Some s), r\<lparr>sr_stream := advance SEGMENT_RECORD_BYTES stream,
                                              sr_read_count := Suc (sr_read_count r)\<rparr>))"

section \<open>The record\<close>

definition segment_ok :: "segment \<Rightarrow> bool" where
  "segment_ok s \<longleftrightarrow> sg_byte_start s \<le> sg_byte_end s"

lemma u64_le_roundtrip [simp]: "u64_from_le_bytes (u64_le_bytes w) = w" "length (u64_le_bytes w) = 8"
proof -
  have "unat w mod 256 ^ 8 = unat w"
    using unat_lt2p_num [of w] by (intro mod_less) simp
  then show "u64_from_le_bytes (u64_le_bytes w) = w"
    by (simp add: u64_from_le_bytes_def u64_le_bytes_def nat_of_be_bytes_nat_be_bytes)
qed (simp add: u64_le_bytes_def)

lemma length_segment_encode [simp]: "length (segment_encode s) = SEGMENT_RECORD_BYTES"
  by (simp add: segment_encode_def SEGMENT_RECORD_BYTES_def split: prod.split)

lemma between_in:
  assumes "length a = n" "length b = m - n" "n \<le> m"
  shows "bytes_between n m (a @ b @ c) = b"
  using assms by (simp add: bytes_between_def)

lemma segment_decode_encode:
  assumes "segment_ok s"
  shows "segment_decode (segment_encode s @ rest) = Some s"
proof (cases "locator_bounds (sg_locator s)")
  case (Pair x y)
  let ?a = "u64_le_bytes (sg_byte_start s)" and ?b = "u64_le_bytes (sg_byte_end s)"
  let ?t = "[locator_tag (sg_locator s), sg_depth s] @ replicate 6 0"
  have e: "segment_encode s @ rest = ?a @ ?b @ ?t @ u64_le_bytes x @ u64_le_bytes y @ rest"
    using Pair by (simp add: segment_encode_def)
  have parts: "bytes_between 0 8 (segment_encode s @ rest) = ?a" "bytes_between 8 16 (segment_encode s @ rest) = ?b"
      "bytes_between 24 32 (segment_encode s @ rest) = u64_le_bytes x" "bytes_between 32 40 (segment_encode s @ rest) = u64_le_bytes y"
    using between_in [of "[]" 0 ?a 8] between_in [of ?a 8 ?b 16] between_in [of "?a @ ?b @ ?t" 24 "u64_le_bytes x" 32]
      between_in [of "?a @ ?b @ ?t @ u64_le_bytes x" 32 "u64_le_bytes y" 40]
    unfolding e by simp_all
  have at: "(segment_encode s @ rest) ! 16 = locator_tag (sg_locator s)" "(segment_encode s @ rest) ! 17 = sg_depth s"
    unfolding e by (simp_all add: nth_append)
  have "segment_decode (segment_encode s @ rest) =
      map_option (\<lambda>l. \<lparr>sg_byte_start = sg_byte_start s, sg_byte_end = sg_byte_end s, sg_locator = l, sg_depth = sg_depth s\<rparr>)
        (Some (sg_locator s))"
    using Pair assms unfolding segment_decode_def parts at Let_def
    by (cases "sg_locator s") (simp_all add: segment_ok_def not_less LOCATOR_TAG_TIME_def LOCATOR_TAG_LINE_def LOCATOR_TAG_MESSAGE_def)
  then show ?thesis by simp
qed

lemma segment_decode_ok: "segment_decode bs = Some s \<Longrightarrow> segment_ok s \<and> SEGMENT_RECORD_BYTES \<le> length bs"
  by (auto simp: segment_decode_def segment_ok_def Let_def not_less split: if_splits)

lemma segment_decode_take: "segment_decode (take SEGMENT_RECORD_BYTES bs) = segment_decode bs"
proof (cases "length bs < SEGMENT_RECORD_BYTES")
  case False
  have "bytes_between a b (take SEGMENT_RECORD_BYTES bs) = bytes_between a b bs" if "b \<le> 40" for a b
    using that by (simp add: bytes_between_def drop_take min_def SEGMENT_RECORD_BYTES_def)
  then show ?thesis
    using False by (simp add: segment_decode_def SEGMENT_RECORD_BYTES_def Let_def)
qed (simp add: segment_decode_def)

section \<open>The index\<close>

lemma fill_loop_pending: "fill_loop want s = (Inr u, s') \<Longrightarrow> pending s' = pending s"
proof (induction want s rule: fill_loop.induct)
  case (1 want s)
  show ?case
  proof (cases "available s < want \<and> \<not> bs_at_end s")
    case True
    let ?len = "min STAGE_READ_BYTES (sb_buffer_bytes_max (bs_budget (compact s)) - length (bs_buffer (compact s)))"
    obtain bs reader where len: "?len \<noteq> 0" and read: "reader_read ?len (bs_reader (compact s)) = (Some bs, reader)"
      and rec: "fill_loop want (after_read bs reader (compact s)) = (Inr u, s')"
      using 1(2) True by (auto simp: fill_loop.simps [of want s] Let_def split: if_splits prod.splits option.splits)
    have "pending (after_read bs reader (compact s)) = pending s"
      using reader_read_some(1) [OF read] compact_ok(1) [of s] compact_ok(3) [of s]
      by (simp add: after_read_def pending_def Let_def)
    with 1(1) [OF True refl refl refl len read [symmetric] refl rec] show ?thesis by simp
  qed (use 1(2) in \<open>auto simp: fill_loop.simps [of want s]\<close>)
qed

lemma window_bounds:
  assumes "stream_window want s = (Inr w, s')"
  shows "pending s' = pending s" "length w \<le> available s'"
  using assms fill_loop_pending
  by (auto simp: stream_window_def obind_def oget_def fill_def available_def split: prod.splits sum.splits if_splits)

lemma next_segment_less:
  assumes "next_segment r = (Inr (Some s), r')"
  shows "length (pending (sr_stream r')) < length (pending (sr_stream r))"
proof -
  obtain w stream where w: "stream_window SEGMENT_RECORD_BYTES (sr_stream r) = (Inr w, stream)" "segment_decode w = Some s"
      "r' = r\<lparr>sr_stream := advance SEGMENT_RECORD_BYTES stream, sr_read_count := Suc (sr_read_count r)\<rparr>"
    using assms by (auto simp: next_segment_def split: prod.splits sum.splits if_splits option.splits)
  have "SEGMENT_RECORD_BYTES \<le> available stream" "pending stream = pending (sr_stream r)"
    using segment_decode_ok [OF w(2)] window_bounds [OF w(1)] by auto
  moreover have "length (pending (advance SEGMENT_RECORD_BYTES stream)) < length (pending stream)"
    using calculation(1) by (auto simp: advance_def pending_def available_def Let_def SEGMENT_RECORD_BYTES_def)
  ultimately show ?thesis
    using w(3) by simp
qed

text \<open>A reader in its invariant: a live reader with room for a record.\<close>

definition source_ok :: "nat \<Rightarrow> bounded_stream \<Rightarrow> bool" where
  "source_ok n s \<longleftrightarrow> stream_ok s \<and> n \<le> sb_buffer_bytes_max (bs_budget s) \<and> reader_live (bs_reader s)"

lemma source_same: "source_ok n s \<Longrightarrow> same_stream s s' \<Longrightarrow> stream_ok s' \<Longrightarrow> source_ok n s'"
  by (simp add: source_ok_def same_stream_def reader_live_def)

lemma next_segment_some:
  assumes "source_ok SEGMENT_RECORD_BYTES (sr_stream r)" "pending (sr_stream r) = segment_encode s @ rest" "segment_ok s"
  obtains r' where "next_segment r = (Inr (Some s), r')" "source_ok SEGMENT_RECORD_BYTES (sr_stream r')"
    "pending (sr_stream r') = rest" "sr_read_count r' = Suc (sr_read_count r)"
proof -
  have ok: "stream_ok (sr_stream r)" "SEGMENT_RECORD_BYTES \<le> sb_buffer_bytes_max (bs_budget (sr_stream r))"
      "reader_live (bs_reader (sr_stream r))"
    using assms(1) by (simp_all add: source_ok_def)
  obtain t where t: "stream_window SEGMENT_RECORD_BYTES (sr_stream r) = (Inr (take SEGMENT_RECORD_BYTES (pending (sr_stream r))), t)"
      "stream_ok t" "pending t = pending (sr_stream r)"
      "min SEGMENT_RECORD_BYTES (length (pending (sr_stream r))) \<le> available t" "same_stream (sr_stream r) t"
    by (rule window_ok [OF ok])
  have w: "take SEGMENT_RECORD_BYTES (pending (sr_stream r)) = segment_encode s"
    using assms(2) by simp
  have d: "segment_decode (segment_encode s) = Some s"
    using segment_decode_encode [OF assms(3), of "[]"] by simp
  have a: "SEGMENT_RECORD_BYTES \<le> available t"
    using t(4) assms(2) by simp
  note adv = advance_ok [OF t(2) a]
  have ne: "segment_encode s \<noteq> []"
    using length_segment_encode [of s] by (auto simp: SEGMENT_RECORD_BYTES_def simp del: length_segment_encode)
  have "source_ok SEGMENT_RECORD_BYTES t"
    by (rule source_same [OF assms(1) t(5,2)])
  then have "source_ok SEGMENT_RECORD_BYTES (advance SEGMENT_RECORD_BYTES t)"
    by (rule source_same [OF _ adv(3,1)])
  then show ?thesis
    using that t(1) w d ne adv(2) t(3) assms(2) by (simp add: next_segment_def)
qed

lemma next_segment_none:
  assumes "source_ok SEGMENT_RECORD_BYTES (sr_stream r)" "pending (sr_stream r) = []"
  obtains t where "next_segment r = (Inr None, r\<lparr>sr_stream := t\<rparr>)"
proof -
  have ok: "stream_ok (sr_stream r)" "SEGMENT_RECORD_BYTES \<le> sb_buffer_bytes_max (bs_budget (sr_stream r))"
      "reader_live (bs_reader (sr_stream r))"
    using assms(1) by (simp_all add: source_ok_def)
  obtain t where "stream_window SEGMENT_RECORD_BYTES (sr_stream r) = (Inr (take SEGMENT_RECORD_BYTES (pending (sr_stream r))), t)"
    by (rule window_ok [OF ok])
  then show ?thesis using that assms(2) by (simp add: next_segment_def)
qed

text \<open>Writing a whole index and the reading loop over it.\<close>

fun push_all :: "(nat \<Rightarrow> store_error option) \<Rightarrow> segment list \<Rightarrow> (segment_writer, ingest_error, unit) op" where
  "push_all blob_fails [] = oret ()"
| "push_all blob_fails (s # ss) = obind (writer_push blob_fails s) (\<lambda>_. push_all blob_fails ss)"

function read_all :: "(segment_reader, ingest_error, segment list) op" where
  "read_all r =
     (case next_segment r of
        (Inl e, r') \<Rightarrow> (Inl e, r')
      | (Inr None, r') \<Rightarrow> (Inr [], r')
      | (Inr (Some s), r') \<Rightarrow> (case read_all r' of (Inl e, r'') \<Rightarrow> (Inl e, r'') | (Inr ss, r'') \<Rightarrow> (Inr (s # ss), r'')))"
  by pat_completeness auto

termination
proof (relation "measure (\<lambda>r. length (pending (sr_stream r)))")
  show "wf (measure (\<lambda>r. length (pending (sr_stream r))))" by simp
qed (metis in_measure next_segment_less)

declare read_all.simps [simp del]

lemma push_all_ok:
  "sw_count w + length ss \<le> SEGMENT_COUNT_MAX \<Longrightarrow> push_all (\<lambda>_. None) ss w =
     (Inr (), w\<lparr>sw_blob := sw_blob w @ concat (map segment_encode ss), sw_count := sw_count w + length ss\<rparr>)"
  by (induction ss arbitrary: w) (auto simp: oret_def obind_def writer_push_def)

lemma read_all_ok:
  assumes "source_ok SEGMENT_RECORD_BYTES (sr_stream r)" "pending (sr_stream r) = concat (map segment_encode ss)"
    "list_all segment_ok ss"
  shows "\<exists>r'. read_all r = (Inr ss, r') \<and> sr_read_count r' = sr_read_count r + length ss"
  using assms
proof (induction ss arbitrary: r)
  case Nil
  then obtain t where "next_segment r = (Inr None, r\<lparr>sr_stream := t\<rparr>)"
    using next_segment_none by auto
  then show ?case by (simp add: read_all.simps [of r])
next
  case (Cons s ss)
  obtain r' where r': "next_segment r = (Inr (Some s), r')" "source_ok SEGMENT_RECORD_BYTES (sr_stream r')"
      "pending (sr_stream r') = concat (map segment_encode ss)" "sr_read_count r' = Suc (sr_read_count r)"
    using next_segment_some [OF Cons.prems(1), of s] Cons.prems(2,3) by auto
  with Cons.IH [OF r'(2,3)] Cons.prems(3) show ?case by (auto simp: read_all.simps [of r])
qed

text \<open>
  C35: An index reads back as it was written. Writing segments with coherent ranges, at most the stated
  count, succeeds and leaves one forty-byte record each; reading the blob back, however the reader cuts
  its reads, gives exactly those segments in order. And whatever bytes decode at all decode to a
  segment with a coherent range that survives its own encoding.
\<close>

theorem segment_index_roundtrip:
  assumes "list_all segment_ok ss" "length ss \<le> SEGMENT_COUNT_MAX" "reader_live reader"
    "rd_rest reader = sw_blob (snd (push_all (\<lambda>_. None) ss \<lparr>sw_blob = [], sw_count = 0\<rparr>))"
    "SEGMENT_RECORD_BYTES \<le> sb_buffer_bytes_max budget"
  shows "fst (push_all (\<lambda>_. None) ss \<lparr>sw_blob = [], sw_count = 0\<rparr>) = Inr () \<and>
    length (rd_rest reader) = SEGMENT_RECORD_BYTES * length ss \<and>
    fst (read_all (reader_new (stream_new reader budget))) = Inr ss \<and>
    (segment_decode bs = Some s \<longrightarrow> segment_ok s \<and> segment_decode (segment_encode s) = Some s)"
proof -
  have w: "push_all (\<lambda>_. None) ss \<lparr>sw_blob = [], sw_count = 0\<rparr> =
      (Inr (), \<lparr>sw_blob = concat (map segment_encode ss), sw_count = length ss\<rparr>)"
    using push_all_ok [of "\<lparr>sw_blob = [], sw_count = 0\<rparr>" ss] assms(2) by simp
  then have p: "pending (stream_new reader budget) = concat (map segment_encode ss)"
    using assms(4) stream_new_ok(2) by simp
  have "length (concat (map segment_encode ss)) = SEGMENT_RECORD_BYTES * length ss"
    by (induction ss) (simp_all)
  moreover have "source_ok SEGMENT_RECORD_BYTES (stream_new reader budget)"
    using assms(3,5) stream_new_ok(1) by (simp add: source_ok_def stream_new_def)
  then have "fst (read_all (reader_new (stream_new reader budget))) = Inr ss"
    using read_all_ok [of "reader_new (stream_new reader budget)" ss] p assms(1) by (auto simp: reader_new_def)
  ultimately show ?thesis
    using w assms(4) segment_decode_ok segment_decode_encode [of s "[]"] by auto
qed

definition sample_segments :: "segment list" where
  "sample_segments = [\<lparr>sg_byte_start = 0, sg_byte_end = 10, sg_locator = LineRange 1 2, sg_depth = 1\<rparr>,
     \<lparr>sg_byte_start = 12, sg_byte_end = 90, sg_locator = TimeRange 5 7, sg_depth = 0\<rparr>]"

definition index_reader :: byte_reader where
  "index_reader = \<lparr>rd_rest = sw_blob (snd (push_all (\<lambda>_. None) sample_segments \<lparr>sw_blob = [], sw_count = 0\<rparr>)),
     rd_reads = (\<lambda>n. Some (n + 7)), rd_calls = 0\<rparr>"

theorem segment_index_roundtrip_witness:
  "fst (read_all (reader_new (stream_new index_reader \<lparr>sb_stage = StageChunk, sb_buffer_bytes_max = 64\<rparr>))) = Inr sample_segments"
  using segment_index_roundtrip [of sample_segments index_reader "\<lparr>sb_stage = StageChunk, sb_buffer_bytes_max = 64\<rparr>"]
  by (simp add: sample_segments_def segment_ok_def SEGMENT_COUNT_MAX_def SEGMENT_RECORD_BYTES_def index_reader_def reader_live_def)

end
