(* ===== verification/Ingest_Identity.thy ===== *)
theory Ingest_Identity
  imports Ingest_Vocabulary Job
begin

text \<open>
  The derived identities of \<open>crates/pos-ingest/src/identity.rs\<close>. A BLAKE3 hasher is the bytes it has
  been given and \<open>finalize\<close> the hash of them; the hash function is an argument, as in the log.
\<close>

definition SOURCE_ID_DOMAIN :: bytes where
  "SOURCE_ID_DOMAIN = string_bytes ''projectos/source-id/v1''"

definition EVIDENCE_ID_DOMAIN :: bytes where
  "EVIDENCE_ID_DOMAIN = string_bytes ''projectos/evidence-id/v1''"

definition CHUNK_ID_DOMAIN :: bytes where
  "CHUNK_ID_DOMAIN = string_bytes ''projectos/chunk-id/v1''"

definition CHUNK_CONTENT_DOMAIN :: bytes where
  "CHUNK_CONTENT_DOMAIN = string_bytes ''projectos/chunk-content/v1''"

text \<open>\<open>update_framed\<close>: the field's length, then the field.\<close>

definition framed :: "string \<Rightarrow> bytes" where
  "framed s = len_prefix s @ string_bytes s"

definition truncate_to_id :: "digest32 \<Rightarrow> id16" where
  "truncate_to_id d = from_bytes (take 16 (digest_bytes d))"

definition derive_source_id :: "(bytes \<Rightarrow> digest32) \<Rightarrow> string \<Rightarrow> string \<Rightarrow> id16" where
  "derive_source_id hash source_kind scope =
     truncate_to_id (hash (SOURCE_ID_DOMAIN @ framed source_kind @ framed scope))"

definition derive_evidence_id :: "(bytes \<Rightarrow> digest32) \<Rightarrow> id16 \<Rightarrow> string \<Rightarrow> id16" where
  "derive_evidence_id hash source_id ref =
     truncate_to_id (hash (EVIDENCE_ID_DOMAIN @ into_bytes source_id @ framed ref))"

definition chunk_id_preimage :: "id16 \<Rightarrow> chunk_kind \<Rightarrow> u64 \<Rightarrow> digest32 \<Rightarrow> bytes" where
  "chunk_id_preimage evidence_id kind byte_start content_hash =
     CHUNK_ID_DOMAIN @ into_bytes evidence_id @ framed (chunk_kind_as_str kind) @ u64_be_bytes byte_start @
     digest_bytes content_hash"

definition derive_chunk_id :: "(bytes \<Rightarrow> digest32) \<Rightarrow> id16 \<Rightarrow> chunk_kind \<Rightarrow> u64 \<Rightarrow> digest32 \<Rightarrow> id16" where
  "derive_chunk_id hash evidence_id kind byte_start content_hash =
     truncate_to_id (hash (chunk_id_preimage evidence_id kind byte_start content_hash))"

section \<open>The content hasher\<close>

text \<open>\<open>u8::is_ascii_whitespace\<close>: space, tab, line feed, form feed, carriage return.\<close>

definition ascii_whitespace :: "u8 \<Rightarrow> bool" where
  "ascii_whitespace b \<longleftrightarrow> b \<in> {32, 9, 10, 12, 13}"

record content_hasher =
  ch_hashed :: bytes
  ch_pending_space :: bool
  ch_started :: bool
  ch_content_byte_count :: nat

definition content_hasher_new :: content_hasher where
  "content_hasher_new =
     \<lparr>ch_hashed = CHUNK_CONTENT_DOMAIN, ch_pending_space = False, ch_started = False, ch_content_byte_count = 0\<rparr>"

definition hash_byte :: "u8 \<Rightarrow> content_hasher \<Rightarrow> content_hasher" where
  "hash_byte b h =
     (if ascii_whitespace b then h\<lparr>ch_pending_space := ch_started h\<rparr>
      else
        let h = (if ch_pending_space h
                 then h\<lparr>ch_hashed := ch_hashed h @ [32], ch_content_byte_count := ch_content_byte_count h + 1,
                        ch_pending_space := False\<rparr>
                 else h)
        in h\<lparr>ch_hashed := ch_hashed h @ [b], ch_content_byte_count := ch_content_byte_count h + 1, ch_started := True\<rparr>)"

definition hasher_update :: "bytes \<Rightarrow> content_hasher \<Rightarrow> content_hasher" where
  "hasher_update = fold hash_byte"

definition hasher_is_empty :: "content_hasher \<Rightarrow> bool" where
  "hasher_is_empty h \<longleftrightarrow> \<not> ch_started h"

definition hasher_finalize :: "(bytes \<Rightarrow> digest32) \<Rightarrow> content_hasher \<Rightarrow> digest32" where
  "hasher_finalize hash h = hash (ch_hashed h)"

section \<open>What the hasher computes\<close>

text \<open>The words of a text, and the text with its whitespace normalized: words joined by one space.\<close>

fun text_words :: "bytes \<Rightarrow> bytes list" where
  "text_words [] = []"
| "text_words (b # bs) =
     (if ascii_whitespace b then text_words bs
      else case bs of
             [] \<Rightarrow> [[b]]
           | c # _ \<Rightarrow> if ascii_whitespace c then [b] # text_words bs
                      else case text_words bs of w # ws \<Rightarrow> (b # w) # ws | [] \<Rightarrow> [[b]])"

fun join_words :: "bytes list \<Rightarrow> bytes" where
  "join_words [] = []"
| "join_words [w] = w"
| "join_words (w # v # ws) = w @ 32 # join_words (v # ws)"

definition normalized :: "bytes \<Rightarrow> bytes" where
  "normalized bs = join_words (text_words bs)"

definition all_space :: "bytes \<Rightarrow> bool" where
  "all_space bs \<longleftrightarrow> list_all ascii_whitespace bs"

lemma hasher_update_append [simp]: "hasher_update (a @ b) h = hasher_update b (hasher_update a h)"
  by (simp add: hasher_update_def)

lemma hasher_update_Nil [simp]: "hasher_update [] h = h"
  by (simp add: hasher_update_def)

lemma text_words_step:
  "text_words [] = []" "ascii_whitespace b \<Longrightarrow> text_words (b # bs) = text_words bs"
  "\<not> ascii_whitespace b \<Longrightarrow> text_words [b] = [[b]]"
  "\<not> ascii_whitespace b \<Longrightarrow> ascii_whitespace c \<Longrightarrow> text_words (b # c # bs) = [b] # text_words bs"
  "\<not> ascii_whitespace b \<Longrightarrow> \<not> ascii_whitespace c \<Longrightarrow>
     text_words (b # c # bs) = (case text_words (c # bs) of w # ws \<Rightarrow> (b # w) # ws | [] \<Rightarrow> [[b]])"
  by (simp_all only: text_words.simps if_True if_False list.case)

declare text_words.simps(2) [simp del]

lemma text_words_Cons: "\<not> ascii_whitespace b \<Longrightarrow> \<exists>w ws. text_words (b # bs) = (b # w) # ws"
proof (induction bs arbitrary: b)
  case (Cons c cs)
  show ?case
  proof (cases "ascii_whitespace c")
    case False
    with Cons show ?thesis by (fastforce simp: text_words_step)
  qed (use Cons.prems in \<open>simp add: text_words_step\<close>)
qed (simp add: text_words_step)

lemma text_words_Nil: "text_words bs = [] \<longleftrightarrow> all_space bs"
proof (induction bs)
  case (Cons b bs)
  then show ?case
    using text_words_Cons [of b bs] by (cases "ascii_whitespace b") (auto simp: all_space_def text_words_step)
qed (simp add: all_space_def)

lemma text_words_nonempty: "list_all (\<lambda>w. w \<noteq> []) (text_words bs)"
proof (induction "length bs" arbitrary: bs rule: less_induct)
  case less
  show ?case
  proof (cases bs)
    case (Cons b cs)
    show ?thesis
    proof (cases "ascii_whitespace b \<or> cs = []")
      case True
      then show ?thesis using less [of cs] Cons by (cases "ascii_whitespace b") (auto simp: text_words_step)
    next
      case False
      then obtain c ds where c: "cs = c # ds" by (cases cs) auto
      then show ?thesis
        using False Cons less [of cs] less [of ds] text_words_Cons [of c ds]
        by (cases "ascii_whitespace c") (auto simp: text_words_step)
    qed
  qed simp
qed

lemma normalized_Nil: "normalized bs = [] \<longleftrightarrow> all_space bs"
proof -
  have "join_words ws = [] \<longleftrightarrow> ws = []" if "list_all (\<lambda>w. w \<noteq> []) ws" for ws
    using that by (induction ws rule: join_words.induct) auto
  then show ?thesis
    using text_words_nonempty [of bs] text_words_Nil [of bs] by (simp add: normalized_def)
qed

text \<open>A text that starts with whitespace, and one that starts inside a word.\<close>

lemma normalized_simps:
  "normalized [] = []"
  "ascii_whitespace b \<Longrightarrow> normalized (b # bs) = normalized bs"
  "\<not> ascii_whitespace b \<Longrightarrow> \<not> ascii_whitespace c \<Longrightarrow> normalized (b # c # bs) = b # normalized (c # bs)"
  "\<not> ascii_whitespace b \<Longrightarrow> normalized [b] = [b]"
  "\<not> ascii_whitespace b \<Longrightarrow> ascii_whitespace c \<Longrightarrow>
     normalized (b # c # bs) = (if normalized bs = [] then [b] else b # 32 # normalized bs)"
proof -
  show "normalized (b # c # bs) = b # normalized (c # bs)" if "\<not> ascii_whitespace b" "\<not> ascii_whitespace c"
  proof -
    obtain w ws where "text_words (c # bs) = w # ws"
      using text_words_Cons [OF \<open>\<not> ascii_whitespace c\<close>] by blast
    with that show ?thesis by (cases ws) (simp_all add: normalized_def text_words_step)
  qed
  show "normalized (b # c # bs) = (if normalized bs = [] then [b] else b # 32 # normalized bs)"
    if "\<not> ascii_whitespace b" "ascii_whitespace c"
    using that normalized_Nil [of bs] text_words_Nil [of bs] by (cases "text_words bs") (auto simp: normalized_def text_words_step)
qed (simp_all add: normalized_def text_words_step)

text \<open>What the hasher appends for the bytes that follow, by its two flags.\<close>

definition hash_rest :: "bool \<Rightarrow> bool \<Rightarrow> bytes \<Rightarrow> bytes" where
  "hash_rest pend st bs =
     (if \<not> st then normalized bs
      else if pend then (if normalized bs = [] then [] else 32 # normalized bs)
      else tl (normalized (0 # bs)))"

lemma zero_not_space: "\<not> ascii_whitespace 0"
  by (simp add: ascii_whitespace_def)

lemma hash_rest_step:
  assumes "pend \<longrightarrow> st"
  shows "hash_rest pend st (b # bs) =
    (if ascii_whitespace b then hash_rest st st bs
     else (if pend then [32, b] else [b]) @ hash_rest False True bs)"
proof (cases "ascii_whitespace b")
  case True
  then show ?thesis
    using assms zero_not_space by (auto simp: hash_rest_def normalized_simps)
next
  case False
  have "normalized (b # bs) = b # tl (normalized (0 # bs))"
  proof (cases bs)
    case (Cons c cs)
    then show ?thesis
      using False zero_not_space by (cases "ascii_whitespace c") (auto simp: normalized_simps)
  qed (use False zero_not_space in \<open>simp add: normalized_simps\<close>)
  then show ?thesis
    using False assms zero_not_space by (auto simp: hash_rest_def normalized_simps)
qed

lemma hasher_update_rest:
  assumes "ch_pending_space h \<longrightarrow> ch_started h"
  shows "ch_hashed (hasher_update bs h) = ch_hashed h @ hash_rest (ch_pending_space h) (ch_started h) bs \<and>
    ch_content_byte_count (hasher_update bs h) =
      ch_content_byte_count h + length (hash_rest (ch_pending_space h) (ch_started h) bs) \<and>
    (ch_started (hasher_update bs h) \<longleftrightarrow> ch_started h \<or> \<not> all_space bs)"
  using assms
proof (induction bs arbitrary: h)
  case Nil
  then show ?case
    using zero_not_space by (auto simp: hash_rest_def normalized_simps all_space_def)
next
  case (Cons b bs)
  have up: "hasher_update (b # bs) h = hasher_update bs (hash_byte b h)"
    by (simp add: hasher_update_def)
  have inv: "ch_pending_space (hash_byte b h) \<longrightarrow> ch_started (hash_byte b h)"
    using Cons.prems by (auto simp: hash_byte_def Let_def)
  show ?case
    unfolding up hash_rest_step [OF Cons.prems] using Cons.IH [OF inv] Cons.prems
    by (auto simp: hash_byte_def Let_def all_space_def)
qed

text \<open>
  C36: The content hash sees normalized text, in any pieces. Feeding a content hasher a text in any pieces
  hashes exactly the domain separator followed by the text's words joined by single spaces, counts
  the bytes of that normalized text, and is empty exactly when the text is all whitespace; so two
  texts that differ only in whitespace runs and padding have the same content hash.
\<close>

theorem content_hash_exact:
  "hasher_finalize hash (fold hasher_update pieces content_hasher_new) =
     hash (CHUNK_CONTENT_DOMAIN @ normalized (concat pieces)) \<and>
   ch_content_byte_count (fold hasher_update pieces content_hasher_new) = length (normalized (concat pieces)) \<and>
   (hasher_is_empty (fold hasher_update pieces content_hasher_new) \<longleftrightarrow> all_space (concat pieces))"
proof -
  have "fold hasher_update pieces h = hasher_update (concat pieces) h" for h
    by (induction pieces arbitrary: h) simp_all
  then show ?thesis
    using hasher_update_rest [of content_hasher_new "concat pieces"]
    by (auto simp: content_hasher_new_def hash_rest_def hasher_finalize_def hasher_is_empty_def)
qed

lemma hasher_new_update:
  "hasher_finalize hash (hasher_update bs content_hasher_new) = hash (CHUNK_CONTENT_DOMAIN @ normalized bs)"
  "ch_content_byte_count (hasher_update bs content_hasher_new) = length (normalized bs)"
  "hasher_is_empty (hasher_update bs content_hasher_new) \<longleftrightarrow> all_space bs"
  using hasher_update_rest [of content_hasher_new bs]
  by (auto simp: content_hasher_new_def hash_rest_def hasher_finalize_def hasher_is_empty_def)

section \<open>What the ids are of\<close>

lemma framed_split:
  assumes "length s < 2 ^ 32" "length t < 2 ^ 32" "framed s @ a = framed t @ b"
  shows "s = t \<and> a = b"
proof -
  have "len_prefix s = len_prefix t"
    using assms(3) by (auto simp: framed_def)
  then have "length s = length t"
    by (rule len_prefix_inject [OF assms(1,2)])
  then show ?thesis
    using assms(3) by (auto simp: framed_def append_eq_append_conv)
qed

lemma chunk_kind_short: "length (chunk_kind_as_str k) < 2 ^ 32"
  by (cases k) simp_all

text \<open>Two chunks share a preimage only when they agree on the item, the kind, the place and the content.\<close>

lemma chunk_id_preimage_inject:
  assumes "chunk_id_preimage e k s c = chunk_id_preimage e' k' s' c'"
  shows "e = e' \<and> k = k' \<and> s = s' \<and> c = c'"
proof -
  have e: "into_bytes e = into_bytes e'" and rest:
    "framed (chunk_kind_as_str k) @ u64_be_bytes s @ digest_bytes c = framed (chunk_kind_as_str k') @ u64_be_bytes s' @ digest_bytes c'"
    using assms by (auto simp: chunk_id_preimage_def append_eq_append_conv)
  have k: "chunk_kind_as_str k = chunk_kind_as_str k'" and t: "u64_be_bytes s @ digest_bytes c = u64_be_bytes s' @ digest_bytes c'"
    using framed_split [OF chunk_kind_short chunk_kind_short rest] by auto
  have "u64_be_bytes s = u64_be_bytes s'" "digest_bytes c = digest_bytes c'"
    using t by (simp_all add: u64_be_bytes_def)
  then have "s = s'" "c = c'"
    using u64_from_be_bytes_of digest_try_from_bytes by (metis option.inject)+
  with e k show ?thesis
    using chunk_words.injective by simp
qed

end
