(* ===== verification/Chunking.thy ===== *)
theory Chunking
  imports Segment_Index Ingest_Identity
begin

text \<open>
  The CHUNK stage of \<open>crates/pos-ingest/src/chunk.rs\<close>: a greedy window over the segment index that closes on
  a size target and a boundary rule, and an emitter that reads the bytes a window covers, splits what is
  larger than an embedding window, and commits facts in bounded batches. Positions and counts of the
  text are \<open>nat\<close> inside the loops, which stay below the \<open>u64\<close> ends the segments carry, and \<open>u64\<close> in the facts.
\<close>

section \<open>Parameters\<close>

definition TOKEN_BYTES_ESTIMATE :: nat where
  "TOKEN_BYTES_ESTIMATE = 4"

definition CHUNK_COUNT_MAX :: nat where
  "CHUNK_COUNT_MAX = 4000000"

datatype (plugins only: code size) boundary_rule = AnySegment | PerSegment | HeadingSection

record chunk_params =
  cp_kind :: chunk_kind
  cp_boundary :: boundary_rule
  cp_target_tokens :: u32
  cp_tokens_max :: u32

definition bytes_target :: "chunk_params \<Rightarrow> nat" where
  "bytes_target p = unat (cp_target_tokens p) * TOKEN_BYTES_ESTIMATE"

definition bytes_max :: "chunk_params \<Rightarrow> nat" where
  "bytes_max p = unat (cp_tokens_max p) * TOKEN_BYTES_ESTIMATE"

fun chunk_params_for :: "evidence_shape \<Rightarrow> chunk_params" where
  "chunk_params_for ShapeTranscript =
     \<lparr>cp_kind = TranscriptTurns, cp_boundary = AnySegment, cp_target_tokens = 300, cp_tokens_max = 400\<rparr>"
| "chunk_params_for ShapeThread =
     \<lparr>cp_kind = ThreadMessages, cp_boundary = AnySegment, cp_target_tokens = 300, cp_tokens_max = 400\<rparr>"
| "chunk_params_for ShapeMessage =
     \<lparr>cp_kind = MessageBody, cp_boundary = PerSegment, cp_target_tokens = 300, cp_tokens_max = 400\<rparr>"
| "chunk_params_for ShapeDocument =
     \<lparr>cp_kind = DocumentSection, cp_boundary = HeadingSection, cp_target_tokens = 300, cp_tokens_max = 400\<rparr>"
| "chunk_params_for ShapeTable =
     \<lparr>cp_kind = TableRows, cp_boundary = AnySegment, cp_target_tokens = 300, cp_tokens_max = 400\<rparr>"

text \<open>\<open>ChunkStage::params_for\<close>, with the optional override of the window target.\<close>

definition stage_params_for :: "u32 option \<Rightarrow> evidence_shape \<Rightarrow> chunk_params" where
  "stage_params_for target_tokens shape =
     (case target_tokens of
        None \<Rightarrow> chunk_params_for shape
      | Some t \<Rightarrow> (chunk_params_for shape)\<lparr>cp_target_tokens := t, cp_tokens_max := saturating_add t (t div 3)\<rparr>)"

section \<open>The window\<close>

record chunk_window =
  cw_byte_start :: u64
  cw_byte_end :: u64
  cw_locator :: "locator option"
  cw_depth :: u8
  cw_segment_count :: u32

definition window_default :: chunk_window where
  "window_default = \<lparr>cw_byte_start = 0, cw_byte_end = 0, cw_locator = None, cw_depth = 0, cw_segment_count = 0\<rparr>"

definition window_is_empty :: "chunk_window \<Rightarrow> bool" where
  "window_is_empty w \<longleftrightarrow> cw_segment_count w = 0"

definition window_byte_len :: "chunk_window \<Rightarrow> nat" where
  "window_byte_len w = unat (saturating_sub (cw_byte_end w) (cw_byte_start w))"

definition would_close :: "chunk_window \<Rightarrow> segment \<Rightarrow> chunk_params \<Rightarrow> bool" where
  "would_close w next p =
     (if window_is_empty w then False
      else case cp_boundary p of
             PerSegment \<Rightarrow> True
           | HeadingSection \<Rightarrow> sg_depth next > 0 \<or> window_byte_len w \<ge> bytes_target p
           | AnySegment \<Rightarrow> window_byte_len w \<ge> bytes_target p)"

definition exceeds_max :: "chunk_window \<Rightarrow> chunk_params \<Rightarrow> bool" where
  "exceeds_max w p \<longleftrightarrow> window_byte_len w \<ge> bytes_max p"

fun extend_locator :: "locator option \<Rightarrow> locator \<Rightarrow> locator" where
  "extend_locator None next = next"
| "extend_locator (Some (TimeRange start_ms _)) (TimeRange _ next_end) = TimeRange start_ms next_end"
| "extend_locator (Some (LineRange start _)) (LineRange _ next_end) = LineRange start next_end"
| "extend_locator (Some (MessageRange start _)) (MessageRange _ next_end) = MessageRange start next_end"
| "extend_locator (Some current) _ = current"

definition window_push :: "segment \<Rightarrow> chunk_window \<Rightarrow> chunk_window" where
  "window_push s w =
     (let w = (if window_is_empty w
               then w\<lparr>cw_byte_start := sg_byte_start s, cw_locator := Some (sg_locator s), cw_depth := sg_depth s\<rparr>
               else w\<lparr>cw_locator := Some (extend_locator (cw_locator w) (sg_locator s))\<rparr>)
      in w\<lparr>cw_byte_end := sg_byte_end s, cw_segment_count := cw_segment_count w + 1\<rparr>)"

section \<open>The emitter\<close>

text \<open>
  What the stage context gives: the hash, the item, the parameters, and whether the append of a
  batch is refused. The run holds the two streams, the emitter's fields and the batches committed so far.
\<close>

record chunk_context =
  cc_hash :: "bytes \<Rightarrow> digest32"
  cc_evidence_id :: id16
  cc_params :: chunk_params
  cc_refuses :: "u32 \<Rightarrow> chunk_fact list \<Rightarrow> ingest_error option"

record chunk_run =
  cx_segments :: segment_reader
  cx_text :: bounded_stream
  cx_batch :: "chunk_fact list"
  cx_batch_index :: u32
  cx_ordinal :: u32
  cx_total :: nat
  cx_text_offset :: nat
  cx_sent :: "(u32 \<times> chunk_fact list) list"

type_synonym 'a chunk_op = "(chunk_run, ingest_error, 'a) op"

definition run_new :: "segment_reader \<Rightarrow> bounded_stream \<Rightarrow> chunk_run" where
  "run_new segments text =
     \<lparr>cx_segments = segments, cx_text = text, cx_batch = [], cx_batch_index = 0, cx_ordinal = 0, cx_total = 0,
      cx_text_offset = 0, cx_sent = []\<rparr>"

definition flush_batch :: "chunk_context \<Rightarrow> unit chunk_op" where
  "flush_batch c s =
     (if cx_batch s = [] then (Inr (), s)
      else case cc_refuses c (cx_batch_index s) (cx_batch s) of
             Some e \<Rightarrow> (Inl e, s\<lparr>cx_batch := []\<rparr>)
           | None \<Rightarrow> (Inr (), s\<lparr>cx_sent := cx_sent s @ [(cx_batch_index s, cx_batch s)], cx_batch := [],
                                cx_batch_index := saturating_add (cx_batch_index s) 1\<rparr>))"

definition token_estimate :: "nat \<Rightarrow> u32" where
  "token_estimate bytes =
     (let n = (bytes + TOKEN_BYTES_ESTIMATE - 1) div TOKEN_BYTES_ESTIMATE
      in if n < 2 ^ 32 then word_of_nat n else - 1)"

definition chunk_fact_of :: "chunk_context \<Rightarrow> chunk_window \<Rightarrow> u32 \<Rightarrow> nat \<Rightarrow> nat \<Rightarrow> content_hasher \<Rightarrow> chunk_fact" where
  "chunk_fact_of c w ordinal byte_start byte_end hasher =
     (let content_hash = hasher_finalize (cc_hash c) hasher;
          kind = cp_kind (cc_params c)
      in ChunkFactFields
           (derive_chunk_id (cc_hash c) (cc_evidence_id c) kind (word_of_nat byte_start) content_hash)
           ordinal kind (word_of_nat byte_start) (word_of_nat byte_end)
           (case cw_locator w of Some l \<Rightarrow> l | None \<Rightarrow> LineRange 1 1)
           content_hash (token_estimate (ch_content_byte_count hasher)))"

definition push_fact :: "chunk_context \<Rightarrow> chunk_window \<Rightarrow> nat \<Rightarrow> nat \<Rightarrow> content_hasher \<Rightarrow> unit chunk_op" where
  "push_fact c w byte_start byte_end hasher s =
     (if hasher_is_empty hasher then (Inr (), s)
      else if cx_total s \<ge> CHUNK_COUNT_MAX
      then (Inl (LimitExceeded ''chunk count'' (Suc (cx_total s)) CHUNK_COUNT_MAX), s)
      else
        let s = s\<lparr>cx_batch := cx_batch s @ [chunk_fact_of c w (cx_ordinal s) byte_start byte_end hasher],
                  cx_ordinal := saturating_add (cx_ordinal s) 1, cx_total := cx_total s + 1\<rparr>
        in if length (cx_batch s) \<ge> CHUNK_BATCH_COUNT_MAX then flush_batch c s else (Inr (), s))"

definition absorb :: "nat \<Rightarrow> content_hasher \<Rightarrow> (nat \<times> content_hasher) chunk_op" where
  "absorb want hasher s =
     (case stream_window want (cx_text s) of
        (Inl e, text) \<Rightarrow> (Inl e, s\<lparr>cx_text := text\<rparr>)
      | (Inr window, text) \<Rightarrow>
          let visible = min (length window) want
          in (Inr (visible, hasher_update (take visible window) hasher),
              s\<lparr>cx_text := advance visible text, cx_text_offset := cx_text_offset s + visible\<rparr>))"

function skip_to :: "chunk_context \<Rightarrow> nat \<Rightarrow> unit chunk_op" where
  "skip_to c offset s =
     (if cx_text_offset s < offset then
        let gap = offset - cx_text_offset s
        in case stream_window (min gap (bytes_max (cc_params c))) (cx_text s) of
             (Inl e, text) \<Rightarrow> (Inl e, s\<lparr>cx_text := text\<rparr>)
           | (Inr window, text) \<Rightarrow>
               let visible = length window
               in if visible = 0 then (Inr (), s\<lparr>cx_text := text\<rparr>)
                  else skip_to c offset (s\<lparr>cx_text := advance visible text, cx_text_offset := cx_text_offset s + visible\<rparr>)
      else (Inr (), s))"
  by pat_completeness auto

termination
  by (relation "measure (\<lambda>(c, offset, s). offset - cx_text_offset s)") (auto simp: neq_Nil_conv)

declare skip_to.simps [simp del]

function emit_loop :: "chunk_context \<Rightarrow> chunk_window \<Rightarrow> nat \<Rightarrow> nat \<Rightarrow> unit chunk_op" where
  "emit_loop c w remaining split_start s =
     (if remaining > 0 then
        let want = min remaining (bytes_max (cc_params c))
        in case absorb want content_hasher_new s of
             (Inl e, s) \<Rightarrow> (Inl e, s)
           | (Inr (consumed, hasher), s) \<Rightarrow>
               if consumed = 0
               then (Inl (LimitExceeded ''segment span beyond the normalized text'' (unat (cw_byte_end w)) (cx_text_offset s)), s)
               else
                 let split_end = split_start + consumed
                 in case push_fact c w split_start split_end hasher s of
                      (Inl e, s) \<Rightarrow> (Inl e, s)
                    | (Inr _, s) \<Rightarrow> emit_loop c w (remaining - consumed) split_end s
      else (Inr (), s))"
  by pat_completeness auto

termination
  by (relation "measure (\<lambda>(c, w, remaining, split_start, s). remaining)") auto

declare emit_loop.simps [simp del]

text \<open>\<open>emit\<close>: the window is taken, so what is left of it is the default.\<close>

definition emit_window :: "chunk_context \<Rightarrow> chunk_window \<Rightarrow> chunk_window chunk_op" where
  "emit_window c w =
     (if window_is_empty w then oret w
      else obind (skip_to c (unat (cw_byte_start w))) (\<lambda>_.
           obind (emit_loop c w (window_byte_len w) (unat (cw_byte_start w))) (\<lambda>_. oret window_default)))"

section \<open>The stage\<close>

text \<open>Emitting never touches the index.\<close>

lemma push_fact_segments: "cx_segments (snd (push_fact c w a b h s)) = cx_segments s"
  by (auto simp: push_fact_def flush_batch_def Let_def split: option.splits)

lemma absorb_segments: "cx_segments (snd (absorb n h s)) = cx_segments s"
  by (auto simp: absorb_def Let_def split: prod.splits sum.splits)

lemma skip_segments: "cx_segments (snd (skip_to c offset s)) = cx_segments s"
proof (induction c offset s rule: skip_to.induct)
  case (1 c offset s)
  show ?case
    by (subst skip_to.simps) (use 1 in \<open>auto simp: Let_def split: prod.splits sum.splits\<close>)
qed

lemma emit_loop_segments: "cx_segments (snd (emit_loop c w n a s)) = cx_segments s"
proof (induction c w n a s rule: emit_loop.induct)
  case (1 c w n a s)
  show ?case
  proof (cases "absorb (min n (bytes_max (cc_params c))) content_hasher_new s")
    case (Pair r s1)
    have s1: "cx_segments s1 = cx_segments s"
      using absorb_segments [of "min n (bytes_max (cc_params c))" content_hasher_new s] Pair by simp
    show ?thesis
    proof (cases "\<exists>k h s2. r = Inr (k, h) \<and> k \<noteq> 0 \<and> n > 0 \<and> push_fact c w a (a + k) h s1 = (Inr (), s2)")
      case True
      then obtain k h s2 where k: "r = Inr (k, h)" "k \<noteq> 0" "n > 0" "push_fact c w a (a + k) h s1 = (Inr (), s2)"
        by blast
      have "cx_segments s2 = cx_segments s"
        using push_fact_segments [of c w a "a + k" h s1] k(4) s1 by simp
      moreover have "cx_segments (snd (emit_loop c w (n - k) (a + k) s2)) = cx_segments s2"
        by (rule 1 [OF k(3) refl Pair [symmetric] k(1) refl k(2) refl k(4) [symmetric] refl])
      ultimately show ?thesis
        using Pair k by (simp add: emit_loop.simps [of c w n a s])
    next
      case False
      then show ?thesis
        using Pair s1 push_fact_segments
        by (auto simp: emit_loop.simps [of c w n a s] Let_def split: prod.splits sum.splits)
           (metis snd_conv)+
    qed
  qed
qed

lemma emit_window_segments: "emit_window c w s = (r, s') \<Longrightarrow> cx_segments s' = cx_segments s"
  using skip_segments [of c "unat (cw_byte_start w)" s] emit_loop_segments [of c w "window_byte_len w" "unat (cw_byte_start w)"]
  by (auto simp: emit_window_def obind_def oret_def split: if_splits prod.splits sum.splits) (metis snd_conv)+

text \<open>One turn of the loop over the index.\<close>

definition chunk_step :: "chunk_context \<Rightarrow> segment \<Rightarrow> chunk_window \<Rightarrow> chunk_window chunk_op" where
  "chunk_step c seg w =
     obind (if would_close w seg (cc_params c) then emit_window c w else oret w) (\<lambda>w.
       let w = window_push seg w
       in if cp_boundary (cc_params c) = PerSegment \<or> exceeds_max w (cc_params c) then emit_window c w else oret w)"

lemma chunk_step_segments: "chunk_step c seg w s = (r, s') \<Longrightarrow> cx_segments s' = cx_segments s"
  by (auto simp: chunk_step_def obind_def oret_def Let_def split: if_splits prod.splits sum.splits dest!: emit_window_segments)

function chunk_loop :: "chunk_context \<Rightarrow> chunk_window \<Rightarrow> chunk_window chunk_op" where
  "chunk_loop c w s =
     (case next_segment (cx_segments s) of
        (Inl e, r) \<Rightarrow> (Inl e, s\<lparr>cx_segments := r\<rparr>)
      | (Inr None, r) \<Rightarrow> (Inr w, s\<lparr>cx_segments := r\<rparr>)
      | (Inr (Some seg), r) \<Rightarrow>
          (case chunk_step c seg w (s\<lparr>cx_segments := r\<rparr>) of
             (Inl e, s') \<Rightarrow> (Inl e, s')
           | (Inr w', s') \<Rightarrow> chunk_loop c w' s'))"
  by pat_completeness auto

termination
proof (relation "measure (\<lambda>(c, w, s). length (pending (sr_stream (cx_segments s))))")
  show "wf (measure (\<lambda>(c, w, s). length (pending (sr_stream (cx_segments s)))))" by simp
next
  fix c :: chunk_context and w and s :: chunk_run and x r y seg z s' w'
  assume "(x, r) = next_segment (cx_segments s)" "x = Inr y" "y = Some seg"
    "(z, s') = chunk_step c seg w (s\<lparr>cx_segments := r\<rparr>)" "z = Inr w'"
  then show "((c, w', s'), c, w, s) \<in> measure (\<lambda>(c, w, s). length (pending (sr_stream (cx_segments s))))"
    using next_segment_less [of "cx_segments s" seg r] chunk_step_segments [of c seg w "s\<lparr>cx_segments := r\<rparr>" z s']
    by simp
qed

declare chunk_loop.simps [simp del]

record stage_product =
  sp_output :: ingest_stage_output
  sp_bytes_read :: nat
  sp_item_count :: nat

definition chunk_evidence :: "chunk_context \<Rightarrow> stage_product chunk_op" where
  "chunk_evidence c =
     obind (chunk_loop c window_default) (\<lambda>w.
     obind (emit_window c w) (\<lambda>_.
     obind (flush_batch c) (\<lambda>_.
     oget (\<lambda>s. \<lparr>sp_output = OutChunked (word_of_nat (cx_total s)),
                sp_bytes_read = bs_read_total (cx_text s) + sr_read_count (cx_segments s) * SEGMENT_RECORD_BYTES,
                sp_item_count = cx_total s\<rparr>))))"

end
