(* ===== verification/Chunk_Properties.thy ===== *)
theory Chunk_Properties
  imports Chunking
begin

text \<open>
  What chunking promises: the stage computes the chunks a reading of the whole text would give, whatever
  the readers do, and those chunks cover every byte of content once, in order and within the size limit.
\<close>

section \<open>The chunks of a text\<close>

text \<open>The windows of a segment list, the spans of a window, and the spans that hold any content.\<close>

fun chunk_windows :: "chunk_params \<Rightarrow> chunk_window \<Rightarrow> segment list \<Rightarrow> chunk_window list" where
  "chunk_windows p w [] = (if window_is_empty w then [] else [w])"
| "chunk_windows p w (seg # ss) =
     (let w2 = window_push seg (if would_close w seg p then window_default else w)
      in (if would_close w seg p then [w] else []) @
         (if cp_boundary p = PerSegment \<or> exceeds_max w2 p then w2 # chunk_windows p window_default ss
          else chunk_windows p w2 ss))"

function spans :: "nat \<Rightarrow> nat \<Rightarrow> nat \<Rightarrow> (nat \<times> nat) list" where
  "spans m a n = (if m = 0 \<or> n = 0 then [] else (a, a + min m n) # spans m (a + min m n) (n - min m n))"
  by pat_completeness auto

termination
  by (relation "measure (\<lambda>(m, a, n). n)") auto

declare spans.simps [simp del]

definition solid :: "bytes \<Rightarrow> nat \<times> nat \<Rightarrow> bool" where
  "solid text ab \<longleftrightarrow> \<not> all_space (bytes_between (fst ab) (snd ab) text)"

definition window_pieces :: "bytes \<Rightarrow> chunk_params \<Rightarrow> chunk_window \<Rightarrow> (chunk_window \<times> nat \<times> nat) list" where
  "window_pieces text p w =
     map (Pair w) (filter (solid text) (spans (bytes_max p) (unat (cw_byte_start w)) (window_byte_len w)))"

definition pieces_from :: "bytes \<Rightarrow> chunk_params \<Rightarrow> chunk_window \<Rightarrow> segment list \<Rightarrow> (chunk_window \<times> nat \<times> nat) list" where
  "pieces_from text p w ss = concat (map (window_pieces text p) (chunk_windows p w ss))"

fun piece_facts :: "chunk_context \<Rightarrow> bytes \<Rightarrow> nat \<Rightarrow> (chunk_window \<times> nat \<times> nat) list \<Rightarrow> chunk_fact list" where
  "piece_facts c text i [] = []"
| "piece_facts c text i ((w, a, b) # ps) =
     chunk_fact_of c w (word_of_nat i) a b (hasher_update (bytes_between a b text) content_hasher_new) # piece_facts c text (Suc i) ps"

lemma piece_facts_append: "piece_facts c text i (ps @ qs) = piece_facts c text i ps @ piece_facts c text (i + length ps) qs"
  by (induction ps arbitrary: i) auto

lemma length_piece_facts [simp]: "length (piece_facts c text i ps) = length ps"
  by (induction ps arbitrary: i) auto

section \<open>The emitter\<close>

definition run_at :: "chunk_context \<Rightarrow> bytes \<Rightarrow> chunk_fact list \<Rightarrow> nat \<Rightarrow> chunk_run \<Rightarrow> bool" where
  "run_at c text facts off s \<longleftrightarrow>
     source_ok (bytes_max (cc_params c)) (cx_text s) \<and> pending (cx_text s) = drop off text \<and> cx_text_offset s = off \<and>
     concat (map snd (cx_sent s)) @ cx_batch s = facts \<and> cx_total s = length facts \<and> cx_ordinal s = word_of_nat (length facts) \<and>
     length (cx_batch s) < CHUNK_BATCH_COUNT_MAX \<and> list_all (\<lambda>b. length (snd b) \<le> CHUNK_BATCH_COUNT_MAX) (cx_sent s)"

definition accepting :: "chunk_context \<Rightarrow> bool" where
  "accepting c \<longleftrightarrow> (\<forall>i batch. cc_refuses c i batch = None)"

lemma next_ordinal: "n < CHUNK_COUNT_MAX \<Longrightarrow> saturating_add (word_of_nat n :: u32) 1 = word_of_nat (Suc n)"
proof -
  assume "n < CHUNK_COUNT_MAX"
  have u: "unat (word_of_nat k :: u32) = k" if "k \<le> CHUNK_COUNT_MAX" for k
    using that by (simp add: CHUNK_COUNT_MAX_def unat_of_nat)
  have "unat (word_of_nat n :: u32) = n" "unat (word_of_nat (Suc n) :: u32) = Suc n"
    by (rule u, use \<open>n < CHUNK_COUNT_MAX\<close> in simp)+
  moreover from this have "unat (saturating_add (word_of_nat n :: u32) 1) = Suc n"
    using \<open>n < CHUNK_COUNT_MAX\<close> by (simp add: unat_saturating_add CHUNK_COUNT_MAX_def)
  ultimately show ?thesis by (simp add: word_unat_eq_iff)
qed

lemma push_fact_at:
  assumes "run_at c text facts off s" "accepting c" "length facts < CHUNK_COUNT_MAX" "\<not> hasher_is_empty h"
  obtains s' where "push_fact c w a b h s = (Inr (), s')"
    "run_at c text (facts @ [chunk_fact_of c w (word_of_nat (length facts)) a b h]) off s'"
proof -
  let ?f = "chunk_fact_of c w (word_of_nat (length facts)) a b h"
  let ?s = "s\<lparr>cx_batch := cx_batch s @ [?f], cx_ordinal := word_of_nat (Suc (length facts)), cx_total := Suc (length facts)\<rparr>"
  have p: "push_fact c w a b h s = (if length (cx_batch s) + 1 \<ge> CHUNK_BATCH_COUNT_MAX then flush_batch c ?s else (Inr (), ?s))"
    using assms next_ordinal [OF assms(3)] by (simp add: push_fact_def run_at_def Let_def)
  show ?thesis
  proof (cases "length (cx_batch s) + 1 \<ge> CHUNK_BATCH_COUNT_MAX")
    case True
    then have "length (cx_batch s) + 1 = CHUNK_BATCH_COUNT_MAX"
      using assms(1) by (simp add: run_at_def)
    then have "run_at c text (facts @ [?f]) off (snd (flush_batch c ?s)) \<and> fst (flush_batch c ?s) = Inr ()"
      using assms(1,2) by (auto simp: run_at_def flush_batch_def accepting_def CHUNK_BATCH_COUNT_MAX_def)
    then show ?thesis using that p True by (metis prod.collapse)
  next
    case False
    then have "run_at c text (facts @ [?f]) off ?s"
      using assms(1) by (auto simp: run_at_def)
    then show ?thesis using that p False by simp
  qed
qed

lemma text_window_at:
  assumes "run_at c text facts off s" "want \<le> bytes_max (cc_params c)" "off + want \<le> length text"
  obtains t where "stream_window want (cx_text s) = (Inr (bytes_between off (off + want) text), t)"
    "run_at c text facts (off + want) (s\<lparr>cx_text := advance want t, cx_text_offset := off + want\<rparr>)"
    "length (bytes_between off (off + want) text) = want"
proof -
  have so: "source_ok (bytes_max (cc_params c)) (cx_text s)" and p: "pending (cx_text s) = drop off text"
    using assms(1) by (simp_all add: run_at_def)
  have ok: "stream_ok (cx_text s)" "want \<le> sb_buffer_bytes_max (bs_budget (cx_text s))" "reader_live (bs_reader (cx_text s))"
    using so assms(2) by (auto simp: source_ok_def)
  obtain t where t: "stream_window want (cx_text s) = (Inr (take want (pending (cx_text s))), t)" "stream_ok t"
      "pending t = pending (cx_text s)" "min want (length (pending (cx_text s))) \<le> available t" "same_stream (cx_text s) t"
    by (rule window_ok [OF ok])
  have a: "want \<le> available t"
    using t(4) p assms(3) by simp
  note adv = advance_ok [OF t(2) a]
  have "source_ok (bytes_max (cc_params c)) (advance want t)"
    by (rule source_same [OF source_same [OF so t(5,2)] adv(3,1)])
  then have "run_at c text facts (off + want) (s\<lparr>cx_text := advance want t, cx_text_offset := off + want\<rparr>)"
    using assms(1) adv(2) t(3) p by (simp add: run_at_def add.commute)
  moreover have "take want (pending (cx_text s)) = bytes_between off (off + want) text"
    using p by (simp add: bytes_between_def)
  moreover have "length (bytes_between off (off + want) text) = want"
    using assms(3) by (simp add: bytes_between_def)
  ultimately show ?thesis using that t(1) by simp
qed

lemma skip_at:
  assumes "run_at c text facts off s" "off \<le> offset" "offset \<le> length text" "0 < bytes_max (cc_params c)"
  obtains s' where "skip_to c offset s = (Inr (), s')" "run_at c text facts offset s'"
proof -
  have "\<exists>s'. skip_to c offset s = (Inr (), s') \<and> run_at c text facts offset s'"
    using assms
  proof (induction "offset - off" arbitrary: off s rule: less_induct)
    case less
    have o: "cx_text_offset s = off"
      using less(2) by (simp add: run_at_def)
    show ?case
    proof (cases "off < offset")
      case False
      then show ?thesis
        using less(2,3) o by (simp add: skip_to.simps [of c offset s])
    next
      case True
      define n where "n = min (offset - off) (bytes_max (cc_params c))"
      obtain t where t: "stream_window n (cx_text s) = (Inr (bytes_between off (off + n) text), t)"
          "run_at c text facts (off + n) (s\<lparr>cx_text := advance n t, cx_text_offset := off + n\<rparr>)"
          "length (bytes_between off (off + n) text) = n"
        by (rule text_window_at [OF less(2), of n]) (use True less(4) in \<open>auto simp: n_def\<close>)
      have n: "0 < n" "n \<noteq> 0" "n \<le> offset - off"
        using True less(5) by (simp_all add: n_def)
      have "skip_to c offset s = skip_to c offset (s\<lparr>cx_text := advance n t, cx_text_offset := off + n\<rparr>)"
        using True o t(1,3) n(2) by (simp add: skip_to.simps [of c offset s] Let_def n_def [symmetric] del: length_0_conv)
      with less(1) [OF _ t(2)] n less(3-5) show ?thesis by auto
    qed
  qed
  then show ?thesis using that by blast
qed

lemma absorb_at:
  assumes "run_at c text facts off s" "want \<le> bytes_max (cc_params c)" "off + want \<le> length text"
  obtains s' where "absorb want h s = (Inr (want, hasher_update (bytes_between off (off + want) text) h), s')"
    "run_at c text facts (off + want) s'"
proof -
  obtain t where t: "stream_window want (cx_text s) = (Inr (bytes_between off (off + want) text), t)"
      "run_at c text facts (off + want) (s\<lparr>cx_text := advance want t, cx_text_offset := off + want\<rparr>)"
      "length (bytes_between off (off + want) text) = want"
    by (rule text_window_at [OF assms])
  have "cx_text_offset s = off"
    using assms(1) by (simp add: run_at_def)
  then show ?thesis
    using that t by (simp add: absorb_def Let_def)
qed

lemma emit_loop_at:
  assumes "run_at c text facts a s" "accepting c" "a + n \<le> length text" "0 < bytes_max (cc_params c)"
    "length facts + length (filter (solid text) (spans (bytes_max (cc_params c)) a n)) \<le> CHUNK_COUNT_MAX"
  obtains s' where "emit_loop c w n a s = (Inr (), s')"
    "run_at c text (facts @ piece_facts c text (length facts)
       (map (Pair w) (filter (solid text) (spans (bytes_max (cc_params c)) a n)))) (a + n) s'"
proof -
  let ?m = "bytes_max (cc_params c)"
  have "\<exists>s'. emit_loop c w n a s = (Inr (), s') \<and>
      run_at c text (facts @ piece_facts c text (length facts) (map (Pair w) (filter (solid text) (spans ?m a n)))) (a + n) s'"
    using assms
  proof (induction n arbitrary: facts a s rule: less_induct)
    case (less n)
    show ?case
    proof (cases "n = 0")
      case True
      then show ?thesis
        using less(2) by (simp add: emit_loop.simps [of c w 0 a s] spans.simps [of ?m a 0])
    next
      case False
      define k where "k = min n ?m"
      have k: "0 < k" "k \<noteq> 0" "k \<le> n" "k \<le> ?m"
        using False less(5) by (simp_all add: k_def)
      have sp: "spans ?m a n = (a, a + k) # spans ?m (a + k) (n - k)"
        using False less(5) by (subst spans.simps) (simp add: k_def min.commute)
      let ?h = "hasher_update (bytes_between a (a + k) text) content_hasher_new"
      obtain s1 where s1: "absorb k content_hasher_new s = (Inr (k, ?h), s1)" "run_at c text facts (a + k) s1"
        by (rule absorb_at [OF less(2) k(4), where h = content_hasher_new]) (use less(4) k in auto)
      have e: "solid text (a, a + k) \<longleftrightarrow> \<not> hasher_is_empty ?h"
        by (simp add: solid_def hasher_new_update)
      have step: "emit_loop c w n a s = (case push_fact c w a (a + k) ?h s1 of (Inl e, s) \<Rightarrow> (Inl e, s)
          | (Inr _, s) \<Rightarrow> emit_loop c w (n - k) (a + k) s)"
        using False s1(1) k(2) by (subst emit_loop.simps) (simp add: k_def [symmetric] Let_def)
      have bound: "a + k + (n - k) \<le> length text" "n - k < n"
        using less(4) k by auto
      show ?thesis
      proof (cases "solid text (a, a + k)")
        case False
        then have "push_fact c w a (a + k) ?h s1 = (Inr (), s1)"
          using e by (simp add: push_fact_def)
        with less(1) [OF bound(2) s1(2) less(3) bound(1) less(5)] less(6) sp False step k
        show ?thesis by simp
      next
        case True
        let ?f = "chunk_fact_of c w (word_of_nat (length facts)) a (a + k) ?h"
        have "length facts < CHUNK_COUNT_MAX"
          using less(6) sp True by simp
        then obtain s2 where s2: "push_fact c w a (a + k) ?h s1 = (Inr (), s2)" "run_at c text (facts @ [?f]) (a + k) s2"
          using push_fact_at [OF s1(2) less(3), of ?h w a "a + k"] e True by metis
        have "length (facts @ [?f]) + length (filter (solid text) (spans ?m (a + k) (n - k))) \<le> CHUNK_COUNT_MAX"
          using less(6) sp True by simp
        from less(1) [OF bound(2) s2(2) less(3) bound(1) less(5) this] sp True step s2(1) k
        show ?thesis by simp
      qed
    qed
  qed
  then show ?thesis using that by blast
qed

text \<open>A window that the text holds, at or behind a position.\<close>

definition window_in :: "nat \<Rightarrow> nat \<Rightarrow> chunk_window \<Rightarrow> bool" where
  "window_in off hi w \<longleftrightarrow> \<not> window_is_empty w \<and> off \<le> unat (cw_byte_start w) \<and> cw_byte_start w \<le> cw_byte_end w \<and>
     unat (cw_byte_end w) \<le> hi"

lemma window_len: "cw_byte_start w \<le> cw_byte_end w \<Longrightarrow> unat (cw_byte_start w) + window_byte_len w = unat (cw_byte_end w)"
  by (simp add: window_byte_len_def unat_saturating_sub word_le_nat_alt)

lemma emit_window_at:
  assumes "run_at c text facts off s" "accepting c" "0 < bytes_max (cc_params c)" "window_in off (length text) w"
    "length facts + length (window_pieces text (cc_params c) w) \<le> CHUNK_COUNT_MAX"
  obtains s' where "emit_window c w s = (Inr window_default, s')"
    "run_at c text (facts @ piece_facts c text (length facts) (window_pieces text (cc_params c) w)) (unat (cw_byte_end w)) s'"
proof -
  let ?a = "unat (cw_byte_start w)"
  have w: "off \<le> ?a" "?a + window_byte_len w = unat (cw_byte_end w)" "unat (cw_byte_end w) \<le> length text"
    using assms(4) window_len by (auto simp: window_in_def)
  obtain s1 where s1: "skip_to c ?a s = (Inr (), s1)" "run_at c text facts ?a s1"
    by (rule skip_at [OF assms(1) w(1) _ assms(3)]) (use w in auto)
  have n: "?a + window_byte_len w \<le> length text"
    using w by simp
  have l: "length facts + length (filter (solid text) (spans (bytes_max (cc_params c)) ?a (window_byte_len w))) \<le> CHUNK_COUNT_MAX"
    using assms(5) by (simp add: window_pieces_def)
  obtain s2 where "emit_loop c w (window_byte_len w) ?a s1 = (Inr (), s2)"
      "run_at c text (facts @ piece_facts c text (length facts) (map (Pair w)
         (filter (solid text) (spans (bytes_max (cc_params c)) ?a (window_byte_len w))))) (?a + window_byte_len w) s2"
    by (rule emit_loop_at [OF s1(2) assms(2) n assms(3) l])
  then show ?thesis
    using that s1(1) assms(4) w(2)
    by (simp add: emit_window_def obind_def oret_def window_in_def window_pieces_def)
qed

section \<open>The loop over the index\<close>

text \<open>Segments in order, apart, and within the text.\<close>

fun segments_in :: "nat \<Rightarrow> nat \<Rightarrow> segment list \<Rightarrow> bool" where
  "segments_in lo hi [] \<longleftrightarrow> lo \<le> hi"
| "segments_in lo hi (s # ss) \<longleftrightarrow> lo \<le> unat (sg_byte_start s) \<and> segment_ok s \<and> segments_in (unat (sg_byte_end s)) hi ss"

lemma segments_in_le: "segments_in lo hi ss \<Longrightarrow> lo \<le> hi"
  by (induction ss arbitrary: lo) (fastforce simp: segment_ok_def word_le_nat_alt)+

text \<open>The open window of the loop: nothing yet, or segments up to where the index has been read.\<close>

definition open_window :: "nat \<Rightarrow> nat \<Rightarrow> nat \<Rightarrow> chunk_window \<Rightarrow> bool" where
  "open_window off lo n w \<longleftrightarrow> w = window_default \<and> off \<le> lo \<or>
     window_in off lo w \<and> unat (cw_byte_end w) = lo \<and> unat (cw_segment_count w) + n < 2 ^ 32"

lemma default_empty [simp]: "window_is_empty window_default"
  by (simp add: window_is_empty_def window_default_def)

lemma push_window:
  assumes "open_window off lo (Suc n) w" "lo \<le> unat (sg_byte_start s)" "segment_ok s" "Suc n < 2 ^ 32"
  shows "open_window off (unat (sg_byte_end s)) n (window_push s w)" "window_in off (unat (sg_byte_end s)) (window_push s w)"
proof -
  have u: "unat (cw_segment_count w + 1) = Suc (unat (cw_segment_count w))"
    if "unat (cw_segment_count w) + Suc n < 2 ^ 32" for w :: chunk_window
    using that by (subst unat_add_no_overflow) simp_all
  have ne: "cw_segment_count w + 1 \<noteq> 0" if "unat (cw_segment_count w) + Suc n < 2 ^ 32" for w :: chunk_window
    using u [OF that] by (metis nat.distinct(1) unat_0)
  have le: "sg_byte_start s \<le> sg_byte_end s"
    using assms(3) by (simp add: segment_ok_def)
  show "window_in off (unat (sg_byte_end s)) (window_push s w)"
  proof (cases "w = window_default \<and> off \<le> lo")
    case True
    then show ?thesis
      using assms(2) le by (simp add: window_in_def window_push_def window_is_empty_def window_default_def)
  next
    case False
    then have w: "window_in off lo w" "unat (cw_byte_end w) = lo" "unat (cw_segment_count w) + Suc n < 2 ^ 32"
      using assms(1) by (auto simp: open_window_def)
    then have "cw_byte_start w \<le> sg_byte_end s"
      using assms(2) le by (simp add: window_in_def word_le_nat_alt)
    then show ?thesis
      using w ne [OF w(3)] by (simp add: window_in_def window_push_def window_is_empty_def Let_def)
  qed
  then show "open_window off (unat (sg_byte_end s)) n (window_push s w)"
  proof (cases "w = window_default \<and> off \<le> lo")
    case True
    then show ?thesis
      using \<open>window_in off (unat (sg_byte_end s)) (window_push s w)\<close> assms(4)
      by (simp add: open_window_def) (simp add: window_push_def window_default_def Let_def window_is_empty_def)
  next
    case False
    then have "unat (cw_segment_count w) + Suc n < 2 ^ 32" "\<not> window_is_empty w"
      using assms(1) by (auto simp: open_window_def window_in_def)
    then show ?thesis
      using \<open>window_in off (unat (sg_byte_end s)) (window_push s w)\<close> u [of w]
      by (simp add: open_window_def) (simp add: window_push_def Let_def)
  qed
qed

lemma pieces_step:
  "pieces_from text p w (seg # ss) =
     (if would_close w seg p then window_pieces text p w else []) @
     (let w2 = window_push seg (if would_close w seg p then window_default else w)
      in if cp_boundary p = PerSegment \<or> exceeds_max w2 p then window_pieces text p w2 @ pieces_from text p window_default ss
         else pieces_from text p w2 ss)"
  by (simp add: pieces_from_def Let_def)

lemma chunk_step_at:
  assumes "run_at c text facts off s" "accepting c" "0 < bytes_max (cc_params c)" "open_window off lo (Suc (length ss)) w"
    "lo \<le> unat (sg_byte_start seg)" "segment_ok seg" "segments_in (unat (sg_byte_end seg)) (length text) ss"
    "Suc (length ss) < 2 ^ 32" "length facts + length (pieces_from text (cc_params c) w (seg # ss)) \<le> CHUNK_COUNT_MAX"
  obtains w' s' facts' off' where "chunk_step c seg w s = (Inr w', s')" "run_at c text facts' off' s'"
    "open_window off' (unat (sg_byte_end seg)) (length ss) w'"
    "facts' @ piece_facts c text (length facts') (pieces_from text (cc_params c) w' ss) =
       facts @ piece_facts c text (length facts) (pieces_from text (cc_params c) w (seg # ss))"
proof -
  let ?p = "cc_params c" and ?lo = "unat (sg_byte_end seg)"
  have hi: "?lo \<le> length text"
    using segments_in_le [OF assms(7)] .
  let ?cl = "would_close w seg ?p"
  let ?w1 = "if ?cl then window_default else w" and ?off1 = "if ?cl then lo else off"
  let ?f1 = "if ?cl then facts @ piece_facts c text (length facts) (window_pieces text ?p w) else facts"
  have lo: "lo \<le> ?lo"
    using assms(5,6) by (simp add: segment_ok_def word_le_nat_alt)
  obtain s1 where s1: "(if ?cl then emit_window c w else oret w) s = (Inr ?w1, s1)" "run_at c text ?f1 ?off1 s1"
  proof (cases ?cl)
    case True
    then have "\<not> window_is_empty w"
      by (auto simp: would_close_def)
    then have w: "window_in off lo w" "unat (cw_byte_end w) = lo"
      using assms(4) by (auto simp: open_window_def)
    then have "window_in off (length text) w"
      using lo hi by (auto simp: window_in_def)
    moreover have "length facts + length (window_pieces text ?p w) \<le> CHUNK_COUNT_MAX"
      using assms(9) True by (simp add: pieces_step)
    ultimately obtain s1 where "emit_window c w s = (Inr window_default, s1)"
        "run_at c text (facts @ piece_facts c text (length facts) (window_pieces text ?p w)) lo s1"
      using emit_window_at [OF assms(1-3), of w] w(2) by metis
    then show ?thesis using that True by simp
  qed (use that assms(1) in \<open>simp add: oret_def\<close>)
  have w1: "open_window ?off1 lo (Suc (length ss)) ?w1"
    using assms(4) by (simp add: open_window_def)
  let ?w2 = "window_push seg ?w1"
  note w2 = push_window [OF w1 assms(5,6,8)]
  show ?thesis
  proof (cases "cp_boundary ?p = PerSegment \<or> exceeds_max ?w2 ?p")
    case False
    have st: "chunk_step c seg w s = (Inr ?w2, s1)"
      using s1(1) False by (simp add: chunk_step_def obind_def oret_def Let_def)
    show ?thesis
      by (rule that [OF st s1(2) w2(1)]) (use False in \<open>simp add: pieces_step Let_def piece_facts_append\<close>)
  next
    case True
    have wi: "window_in ?off1 (length text) ?w2"
      using w2(2) hi by (simp add: window_in_def)
    have l: "length ?f1 + length (window_pieces text ?p ?w2) \<le> CHUNK_COUNT_MAX"
      using assms(9) True by (simp add: pieces_step Let_def split: if_splits)
    have e: "unat (cw_byte_end ?w2) = ?lo"
      by (simp add: window_push_def Let_def)
    obtain s2 where s2: "emit_window c ?w2 s1 = (Inr window_default, s2)"
        "run_at c text (?f1 @ piece_facts c text (length ?f1) (window_pieces text ?p ?w2)) ?lo s2"
      using emit_window_at [OF s1(2) assms(2,3) wi l] e by metis
    have st: "chunk_step c seg w s = (Inr window_default, s2)"
      using s1(1) s2(1) True by (simp add: chunk_step_def obind_def Let_def)
    have o: "open_window ?lo ?lo (length ss) window_default"
      by (simp add: open_window_def)
    show ?thesis
      by (rule that [OF st s2(2) o]) (use True in \<open>simp add: pieces_step Let_def piece_facts_append\<close>)
  qed
qed

lemma chunk_loop_at:
  assumes "run_at c text facts off s" "accepting c" "0 < bytes_max (cc_params c)" "open_window off lo (length ss) w"
    "segments_in lo (length text) ss" "length ss < 2 ^ 32"
    "source_ok SEGMENT_RECORD_BYTES (sr_stream (cx_segments s))"
    "pending (sr_stream (cx_segments s)) = concat (map segment_encode ss)"
    "length facts + length (pieces_from text (cc_params c) w ss) \<le> CHUNK_COUNT_MAX"
  shows "\<exists>w' s' facts' off' lo'. chunk_loop c w s = (Inr w', s') \<and> run_at c text facts' off' s' \<and>
    open_window off' lo' 0 w' \<and> lo' \<le> length text \<and>
    facts' @ piece_facts c text (length facts') (pieces_from text (cc_params c) w' []) =
      facts @ piece_facts c text (length facts) (pieces_from text (cc_params c) w ss)"
  using assms
proof (induction ss arbitrary: facts off s w lo)
  case Nil
  obtain t where t: "next_segment (cx_segments s) = (Inr None, (cx_segments s)\<lparr>sr_stream := t\<rparr>)"
    using next_segment_none [OF Nil.prems(7)] Nil.prems(8) by auto
  have loop: "chunk_loop c w s = (Inr w, s\<lparr>cx_segments := (cx_segments s)\<lparr>sr_stream := t\<rparr>\<rparr>)"
    using t by (simp add: chunk_loop.simps [of c w s])
  have "run_at c text facts off (s\<lparr>cx_segments := (cx_segments s)\<lparr>sr_stream := t\<rparr>\<rparr>)"
    using Nil.prems(1) by (simp add: run_at_def)
  moreover have "open_window off lo 0 w" "lo \<le> length text"
    using Nil.prems(4,5) by simp_all
  ultimately show ?case using loop by blast
next
  case (Cons seg ss)
  have seg: "lo \<le> unat (sg_byte_start seg)" "segment_ok seg" "segments_in (unat (sg_byte_end seg)) (length text) ss"
    using Cons.prems(5) by simp_all
  have pend: "pending (sr_stream (cx_segments s)) = segment_encode seg @ concat (map segment_encode ss)"
    using Cons.prems(8) by simp
  obtain r where r: "next_segment (cx_segments s) = (Inr (Some seg), r)" "source_ok SEGMENT_RECORD_BYTES (sr_stream r)"
      "pending (sr_stream r) = concat (map segment_encode ss)"
    by (rule next_segment_some [OF Cons.prems(7) pend seg(2)])
  let ?s = "s\<lparr>cx_segments := r\<rparr>"
  have ra: "run_at c text facts off ?s"
    using Cons.prems(1) by (simp add: run_at_def)
  have ow: "open_window off lo (Suc (length ss)) w" and len: "Suc (length ss) < 2 ^ 32"
    using Cons.prems(4,6) by simp_all
  obtain w' s' facts' off' where st: "chunk_step c seg w ?s = (Inr w', s')" "run_at c text facts' off' s'"
      "open_window off' (unat (sg_byte_end seg)) (length ss) w'"
      "facts' @ piece_facts c text (length facts') (pieces_from text (cc_params c) w' ss) =
         facts @ piece_facts c text (length facts) (pieces_from text (cc_params c) w (seg # ss))"
    by (rule chunk_step_at [OF ra Cons.prems(2,3) ow seg len Cons.prems(9)])
  have segs: "cx_segments s' = r"
    using chunk_step_segments [OF st(1)] by simp
  have "length facts' + length (pieces_from text (cc_params c) w' ss) =
      length facts + length (pieces_from text (cc_params c) w (seg # ss))"
    using arg_cong [OF st(4), of length] by simp
  then have l: "length facts' + length (pieces_from text (cc_params c) w' ss) \<le> CHUNK_COUNT_MAX"
    using Cons.prems(9) by simp
  have so: "source_ok SEGMENT_RECORD_BYTES (sr_stream (cx_segments s'))"
      "pending (sr_stream (cx_segments s')) = concat (map segment_encode ss)" "length ss < 2 ^ 32"
    using segs r len by simp_all
  have "chunk_loop c w s = chunk_loop c w' s'"
    using r(1) st(1) by (simp add: chunk_loop.simps [of c w s])
  with Cons.IH [OF st(2) Cons.prems(2,3) st(3) seg(3) so(3,1,2) l] st(4) show ?case by simp
qed

lemma flush_at:
  assumes "run_at c text facts off s" "accepting c"
  obtains s' where "flush_batch c s = (Inr (), s')" "concat (map snd (cx_sent s')) = facts" "cx_total s' = length facts"
    "list_all (\<lambda>b. length (snd b) \<le> CHUNK_BATCH_COUNT_MAX) (cx_sent s')"
proof (cases "cx_batch s = []")
  case True
  then show ?thesis using that [of s] assms by (simp add: flush_batch_def run_at_def)
next
  case False
  let ?s = "s\<lparr>cx_sent := cx_sent s @ [(cx_batch_index s, cx_batch s)], cx_batch := [],
      cx_batch_index := saturating_add (cx_batch_index s) 1\<rparr>"
  have "flush_batch c s = (Inr (), ?s)"
    using False assms(2) by (simp add: flush_batch_def accepting_def)
  then show ?thesis using that [of ?s] assms(1) by (simp add: run_at_def)
qed

text \<open>
  A run over an index and a text: live readers with room for a record and for a chunk, segments in
  order within the text, and fewer chunks than the limit.
\<close>

definition chunk_input :: "chunk_context \<Rightarrow> bytes \<Rightarrow> segment list \<Rightarrow> bounded_stream \<Rightarrow> bounded_stream \<Rightarrow> bool" where
  "chunk_input c text ss segments stream \<longleftrightarrow>
     0 < bytes_max (cc_params c) \<and> source_ok SEGMENT_RECORD_BYTES segments \<and> pending segments = concat (map segment_encode ss) \<and>
     source_ok (bytes_max (cc_params c)) stream \<and> pending stream = text \<and> segments_in 0 (length text) ss \<and>
     length ss \<le> SEGMENT_COUNT_MAX \<and> length (pieces_from text (cc_params c) window_default ss) \<le> CHUNK_COUNT_MAX"

lemma chunk_evidence_runs:
  assumes "chunk_input c text ss segments stream" "accepting c"
  shows "\<exists>s'. chunk_evidence c (run_new (reader_new segments) stream) =
      (Inr \<lparr>sp_output = OutChunked (word_of_nat (length (pieces_from text (cc_params c) window_default ss))),
            sp_bytes_read = bs_read_total (cx_text s') + sr_read_count (cx_segments s') * SEGMENT_RECORD_BYTES,
            sp_item_count = length (pieces_from text (cc_params c) window_default ss)\<rparr>, s') \<and>
    concat (map snd (cx_sent s')) = piece_facts c text 0 (pieces_from text (cc_params c) window_default ss) \<and>
    list_all (\<lambda>b. length (snd b) \<le> CHUNK_BATCH_COUNT_MAX) (cx_sent s')"
proof -
  let ?p = "cc_params c" and ?s = "run_new (reader_new segments) stream"
  let ?all = "piece_facts c text 0 (pieces_from text ?p window_default ss)"
  have i: "0 < bytes_max ?p" "source_ok SEGMENT_RECORD_BYTES (sr_stream (cx_segments ?s))"
      "pending (sr_stream (cx_segments ?s)) = concat (map segment_encode ss)" "segments_in 0 (length text) ss"
      "length ss < 2 ^ 32" "length [] + length (pieces_from text ?p window_default ss) \<le> CHUNK_COUNT_MAX"
    using assms(1) by (auto simp: chunk_input_def run_new_def reader_new_def SEGMENT_COUNT_MAX_def)
  have r: "run_at c text [] 0 ?s"
    using assms(1) by (simp add: chunk_input_def run_at_def run_new_def CHUNK_BATCH_COUNT_MAX_def)
  have o: "open_window 0 0 (length ss) window_default"
    by (simp add: open_window_def)
  obtain w s1 facts off lo where l: "chunk_loop c window_default ?s = (Inr w, s1)" "run_at c text facts off s1"
      "open_window off lo 0 w" "lo \<le> length text" "facts @ piece_facts c text (length facts) (pieces_from text ?p w []) = ?all"
    using chunk_loop_at [OF r assms(2) i(1) o i(4,5,2,3,6)] by auto
  obtain w' s2 off2 where e: "emit_window c w s1 = (Inr w', s2)" "run_at c text ?all off2 s2"
  proof (cases "window_is_empty w")
    case True
    then have "run_at c text ?all off s1" "emit_window c w s1 = (Inr w, s1)"
      using l(2,5) by (simp_all add: pieces_from_def emit_window_def oret_def)
    then show ?thesis using that by blast
  next
    case False
    then have w: "window_in off (length text) w"
      using l(3,4) by (auto simp: open_window_def window_in_def)
    have "length facts + length (window_pieces text ?p w) = length (pieces_from text ?p window_default ss)"
      using arg_cong [OF l(5), of length] False by (simp add: pieces_from_def)
    then have "length facts + length (window_pieces text ?p w) \<le> CHUNK_COUNT_MAX"
      using i(6) by simp
    then obtain s2 where "emit_window c w s1 = (Inr window_default, s2)"
        "run_at c text (facts @ piece_facts c text (length facts) (window_pieces text ?p w)) (unat (cw_byte_end w)) s2"
      using emit_window_at [OF l(2) assms(2) i(1) w] by metis
    then show ?thesis using that l(5) False by (simp add: pieces_from_def)
  qed
  obtain s3 where f: "flush_batch c s2 = (Inr (), s3)" "concat (map snd (cx_sent s3)) = ?all" "cx_total s3 = length ?all"
      "list_all (\<lambda>b. length (snd b) \<le> CHUNK_BATCH_COUNT_MAX) (cx_sent s3)"
    by (rule flush_at [OF e(2) assms(2)])
  have "chunk_evidence c ?s = (Inr \<lparr>sp_output = OutChunked (word_of_nat (cx_total s3)),
        sp_bytes_read = bs_read_total (cx_text s3) + sr_read_count (cx_segments s3) * SEGMENT_RECORD_BYTES,
        sp_item_count = cx_total s3\<rparr>, s3)"
    using l(1) e(1) f(1) by (simp add: chunk_evidence_def obind_def oget_def)
  then show ?thesis
    using f by auto
qed


section \<open>What the chunks cover\<close>

lemma spans_bounds:
  "(x, y) \<in> set (spans m a n) \<Longrightarrow> a \<le> x \<and> x < y \<and> y \<le> a + n \<and> y - x \<le> m"
proof (induction m a n rule: spans.induct)
  case (1 m a n)
  show ?case
  proof (cases "m = 0 \<or> n = 0")
    case False
    then have "(x, y) = (a, a + min m n) \<or> (x, y) \<in> set (spans m (a + min m n) (n - min m n))"
      using 1(2) by (subst (asm) spans.simps) auto
    with 1(1) [OF False] False show ?thesis by fastforce
  qed (use 1(2) in \<open>simp add: spans.simps [of m a n]\<close>)
qed

lemma spans_cover:
  "0 < m \<Longrightarrow> a \<le> i \<Longrightarrow> i < a + n \<Longrightarrow> \<exists>x y. (x, y) \<in> set (spans m a n) \<and> x \<le> i \<and> i < y"
proof (induction m a n rule: spans.induct)
  case (1 m a n)
  then have ne: "\<not> (m = 0 \<or> n = 0)" by auto
  have sp: "spans m a n = (a, a + min m n) # spans m (a + min m n) (n - min m n)"
    using ne by (subst spans.simps) simp
  show ?case
  proof (cases "i < a + min m n")
    case True
    then show ?thesis using 1(3) sp by auto
  next
    case False
    then show ?thesis using 1(1) [OF ne 1(2)] 1(4) sp by fastforce
  qed
qed

definition before :: "nat \<times> nat \<Rightarrow> nat \<times> nat \<Rightarrow> bool" where
  "before u v \<longleftrightarrow> snd u \<le> fst v"

lemma spans_sorted: "sorted_wrt before (spans m a n)"
proof (induction m a n rule: spans.induct)
  case (1 m a n)
  show ?case
  proof (cases "m = 0 \<or> n = 0")
    case False
    have "\<forall>v \<in> set (spans m (a + min m n) (n - min m n)). before (a, a + min m n) v"
      using spans_bounds by (fastforce simp: before_def)
    then show ?thesis
      using 1 [OF False] False by (subst spans.simps) simp
  qed (simp add: spans.simps [of m a n])
qed

text \<open>The windows lie in the text, in order, and hold every segment.\<close>

lemma windows_facts:
  assumes "open_window off lo (length ss) w" "segments_in lo hi ss" "length ss < 2 ^ 32"
  shows "(\<forall>v \<in> set (chunk_windows p w ss). window_in off hi v) \<and>
    sorted_wrt (\<lambda>u v. unat (cw_byte_end u) \<le> unat (cw_byte_start v)) (chunk_windows p w ss) \<and>
    (\<forall>s \<in> set ss. \<exists>v \<in> set (chunk_windows p w ss). cw_byte_start v \<le> sg_byte_start s \<and> sg_byte_end s \<le> cw_byte_end v) \<and>
    (\<not> window_is_empty w \<longrightarrow>
       (\<exists>v \<in> set (chunk_windows p w ss). cw_byte_start v \<le> cw_byte_start w \<and> cw_byte_end w \<le> cw_byte_end v))"
  using assms
proof (induction ss arbitrary: off lo w)
  case Nil
  then show ?case by (auto simp: open_window_def window_in_def)
next
  case (Cons seg ss)
  let ?lo = "unat (sg_byte_end seg)"
  let ?cl = "would_close w seg p"
  let ?w1 = "if ?cl then window_default else w" and ?off1 = "if ?cl then lo else off"
  let ?w2 = "window_push seg ?w1"
  have seg: "lo \<le> unat (sg_byte_start seg)" "segment_ok seg" "segments_in ?lo hi ss"
    using Cons.prems(2) by simp_all
  have ow: "open_window off lo (Suc (length ss)) w" and len: "Suc (length ss) < 2 ^ 32" "length ss < 2 ^ 32"
    using Cons.prems(1,3) by simp_all
  have off: "off \<le> lo" "lo \<le> ?lo" "?lo \<le> hi"
    using ow seg segments_in_le [OF seg(3)] window_len [of w]
    by (auto simp: open_window_def window_in_def segment_ok_def word_le_nat_alt)
  have w1: "open_window ?off1 lo (Suc (length ss)) ?w1"
    using ow by (simp add: open_window_def)
  note w2 = push_window [OF w1 seg(1,2) len(1)]
  have hold: "cw_byte_end ?w2 = sg_byte_end seg" "cw_byte_start ?w2 \<le> sg_byte_start seg"
      "\<not> ?cl \<Longrightarrow> \<not> window_is_empty w \<Longrightarrow> cw_byte_start ?w2 = cw_byte_start w \<and> cw_byte_end w \<le> cw_byte_end ?w2"
    using ow seg off by (auto simp: window_push_def Let_def open_window_def window_in_def word_le_nat_alt segment_ok_def)
  have closed: "window_in off hi w" "unat (cw_byte_end w) = lo" if ?cl
    using that ow off by (auto simp: would_close_def open_window_def window_in_def)
  have tail: "(\<forall>v \<in> set rest. window_in ?off1 hi v) \<and> sorted_wrt (\<lambda>u v. unat (cw_byte_end u) \<le> unat (cw_byte_start v)) rest \<and>
      (\<forall>s \<in> set ss. \<exists>v \<in> set rest. cw_byte_start v \<le> sg_byte_start s \<and> sg_byte_end s \<le> cw_byte_end v) \<and>
      (\<exists>v \<in> set rest. cw_byte_start v \<le> cw_byte_start ?w2 \<and> cw_byte_end ?w2 \<le> cw_byte_end v)"
    if rest: "rest = (if cp_boundary p = PerSegment \<or> exceeds_max ?w2 p then ?w2 # chunk_windows p window_default ss
        else chunk_windows p ?w2 ss)" for rest
  proof (cases "cp_boundary p = PerSegment \<or> exceeds_max ?w2 p")
    case True
    have o: "open_window ?lo ?lo (length ss) window_default"
      by (simp add: open_window_def)
    have "window_in ?off1 hi ?w2"
      using w2(2) off(3) by (auto simp: window_in_def)
    moreover have "window_in ?off1 hi v" if "window_in ?lo hi v" for v
      using that off by (auto simp: window_in_def)
    moreover have "unat (cw_byte_end ?w2) \<le> unat (cw_byte_start v)" if "window_in ?lo hi v" for v
      using that hold(1) by (simp add: window_in_def)
    ultimately show ?thesis
      using Cons.IH [OF o seg(3) len(2)] True rest by auto
  next
    case False
    have "\<not> window_is_empty ?w2"
      using w2(2) by (simp add: window_in_def)
    then show ?thesis
      using Cons.IH [OF w2(1) seg(3) len(2)] False rest by auto
  qed
  define rest where "rest = (if cp_boundary p = PerSegment \<or> exceeds_max ?w2 p then ?w2 # chunk_windows p window_default ss
      else chunk_windows p ?w2 ss)"
  note t = tail [OF rest_def]
  have cw: "chunk_windows p w (seg # ss) = (if ?cl then [w] else []) @ rest"
    by (simp add: rest_def Let_def)
  have inw: "window_in off hi v" if "v \<in> set rest" for v
    using t that off(1) by (auto simp: window_in_def split: if_splits)
  have lo_w: "lo \<le> unat (cw_byte_start v)" if "v \<in> set rest" ?cl for v
    using t that by (auto simp: window_in_def)
  have own: "\<exists>v \<in> set rest. cw_byte_start v \<le> sg_byte_start seg \<and> sg_byte_end seg \<le> cw_byte_end v"
    using t hold(1,2) order_trans by metis
  have ww: "\<exists>v \<in> set ((if ?cl then [w] else []) @ rest). cw_byte_start v \<le> cw_byte_start w \<and> cw_byte_end w \<le> cw_byte_end v"
    if "\<not> window_is_empty w"
  proof (cases ?cl)
    case False
    then show ?thesis using t hold(3) that order_trans by fastforce
  qed simp
  show ?case
    unfolding cw using t inw lo_w own ww closed by (auto simp: sorted_wrt_append)
qed

text \<open>The pieces of a segment list: in order, within the text and the limit, and together all its content.\<close>

lemma bytes_between_nth: "i < b \<Longrightarrow> a \<le> i \<Longrightarrow> b \<le> length bs \<Longrightarrow> bs ! i \<in> set (bytes_between a b bs)"
proof -
  assume i: "i < b" "a \<le> i" "b \<le> length bs"
  then have "i - a < length (bytes_between a b bs)" "bytes_between a b bs ! (i - a) = bs ! i"
    by (simp_all add: bytes_between_def)
  then show ?thesis by (metis nth_mem)
qed

lemma sorted_concat:
  assumes "sorted_wrt R xs" "\<And>x. x \<in> set xs \<Longrightarrow> sorted_wrt P (f x)"
    "\<And>x y u v. x \<in> set xs \<Longrightarrow> y \<in> set xs \<Longrightarrow> R x y \<Longrightarrow> u \<in> set (f x) \<Longrightarrow> v \<in> set (f y) \<Longrightarrow> P u v"
  shows "sorted_wrt P (concat (map f xs))"
  using assms
proof (induction xs)
  case (Cons x xs)
  have "sorted_wrt P (concat (map f xs))"
    using Cons.prems(1) by (intro Cons.IH Cons.prems(2,3)) auto
  moreover have "\<forall>u \<in> set (f x). \<forall>v \<in> set (concat (map f xs)). P u v"
    using Cons.prems(1) Cons.prems(3) [of x] by auto
  ultimately show ?case
    using Cons.prems(2) [of x] by (simp add: sorted_wrt_append)
qed simp

lemma pieces_facts:
  assumes "segments_in 0 (length text) ss" "length ss < 2 ^ 32" "0 < bytes_max p"
  shows "sorted_wrt before (map snd (pieces_from text p window_default ss))"
    "(v, x, y) \<in> set (pieces_from text p window_default ss) \<Longrightarrow>
       x < y \<and> y - x \<le> bytes_max p \<and> y \<le> length text \<and> y < 2 ^ 64 \<and> solid text (x, y)"
    "s \<in> set ss \<Longrightarrow> unat (sg_byte_start s) \<le> i \<Longrightarrow> i < unat (sg_byte_end s) \<Longrightarrow> \<not> ascii_whitespace (text ! i) \<Longrightarrow>
       \<exists>v x y. (v, x, y) \<in> set (pieces_from text p window_default ss) \<and> x \<le> i \<and> i < y"
proof -
  have "open_window 0 0 (length ss) window_default"
    by (simp add: open_window_def)
  note w = windows_facts [OF this assms(1,2), of p]
  let ?ws = "chunk_windows p window_default ss"
  let ?sp = "\<lambda>v. spans (bytes_max p) (unat (cw_byte_start v)) (window_byte_len v)"
  have len: "unat (cw_byte_start v) + window_byte_len v = unat (cw_byte_end v)" "unat (cw_byte_end v) \<le> length text"
    if "v \<in> set ?ws" for v
    using w that window_len [of v] by (auto simp: window_in_def)
  have b: "unat (cw_byte_start v) \<le> x \<and> x < y \<and> y \<le> unat (cw_byte_end v) \<and> y - x \<le> bytes_max p"
    if "v \<in> set ?ws" "(x, y) \<in> set (?sp v)" for v x y
    using spans_bounds [OF that(2)] len(1) [OF that(1)] by simp
  have u: "unat v < 2 ^ 64" for v :: u64
    using unat_lt2p_num [of v] by simp
  show "x < y \<and> y - x \<le> bytes_max p \<and> y \<le> length text \<and> y < 2 ^ 64 \<and> solid text (x, y)"
    if "(v, x, y) \<in> set (pieces_from text p window_default ss)"
  proof -
    have v: "v \<in> set ?ws" "(x, y) \<in> set (?sp v)" "solid text (x, y)"
      using that by (auto simp: pieces_from_def window_pieces_def)
    show ?thesis
      using b [OF v(1,2)] len(2) [OF v(1)] v(3) u [of "cw_byte_end v"] by linarith
  qed
  have "sorted_wrt before (concat (map (\<lambda>v. filter (solid text) (?sp v)) ?ws))"
  proof (rule sorted_concat [where R = "\<lambda>u v. unat (cw_byte_end u) \<le> unat (cw_byte_start v)"])
    show "sorted_wrt before (filter (solid text) (?sp v))" for v
      by (rule sorted_wrt_filter [OF spans_sorted])
    show "before q r" if "x \<in> set ?ws" "y \<in> set ?ws" "unat (cw_byte_end x) \<le> unat (cw_byte_start y)"
        "q \<in> set (filter (solid text) (?sp x))" "r \<in> set (filter (solid text) (?sp y))" for x y q r
      using b [OF that(1), of "fst q" "snd q"] b [OF that(2), of "fst r" "snd r"] that(3-5) by (simp add: before_def)
  qed (use w in blast)
  moreover have "map snd (pieces_from text p window_default ss) = concat (map (\<lambda>v. filter (solid text) (?sp v)) ?ws)"
    by (simp add: pieces_from_def window_pieces_def map_concat comp_def)
  ultimately show "sorted_wrt before (map snd (pieces_from text p window_default ss))"
    by simp
  show "\<exists>v x y. (v, x, y) \<in> set (pieces_from text p window_default ss) \<and> x \<le> i \<and> i < y"
    if s: "s \<in> set ss" "unat (sg_byte_start s) \<le> i" "i < unat (sg_byte_end s)" "\<not> ascii_whitespace (text ! i)"
  proof -
    obtain v where v: "v \<in> set ?ws" "cw_byte_start v \<le> sg_byte_start s" "sg_byte_end s \<le> cw_byte_end v"
      using w s(1) by blast
    have "unat (cw_byte_start v) \<le> i" "i < unat (cw_byte_start v) + window_byte_len v"
      using v s(2,3) len(1) [OF v(1)] by (auto simp: word_le_nat_alt)
    then obtain x y where xy: "(x, y) \<in> set (?sp v)" "x \<le> i" "i < y"
      using spans_cover [OF assms(3)] by blast
    have "text ! i \<in> set (bytes_between x y text)"
      by (rule bytes_between_nth [OF xy(3,2)]) (use b [OF v(1) xy(1)] len(2) [OF v(1)] in simp)
    then have "solid text (x, y)"
      using s(4) by (auto simp: solid_def all_space_def list_all_iff)
    then have "(v, x, y) \<in> set (pieces_from text p window_default ss)"
      using v(1) xy(1) by (auto simp: pieces_from_def window_pieces_def)
    then show ?thesis
      using xy(2,3) by blast
  qed
qed

text \<open>The facts of pieces, field by field.\<close>

definition fact_of_text :: "chunk_context \<Rightarrow> bytes \<Rightarrow> chunk_fact \<Rightarrow> bool" where
  "fact_of_text c text f \<longleftrightarrow>
     (let content = bytes_between (unat (cf_byte_start f)) (unat (cf_byte_end f)) text
      in \<not> all_space content \<and> cf_content_hash f = cc_hash c (CHUNK_CONTENT_DOMAIN @ normalized content) \<and>
         cf_chunk_id f = derive_chunk_id (cc_hash c) (cc_evidence_id c) (cp_kind (cc_params c)) (cf_byte_start f) (cf_content_hash f) \<and>
         cf_token_count_estimate f = token_estimate (length (normalized content)) \<and>
         cf_byte_start f < cf_byte_end f \<and> unat (cf_byte_end f) - unat (cf_byte_start f) \<le> bytes_max (cc_params c))"

lemma unat_u64: "n < 2 ^ 64 \<Longrightarrow> unat (word_of_nat n :: u64) = n"
  by (simp add: unat_of_nat)

lemma fact_fields:
  assumes "x < y" "y - x \<le> bytes_max (cc_params c)" "y < 2 ^ 64" "solid text (x, y)"
  shows "fact_of_text c text (chunk_fact_of c w i x y (hasher_update (bytes_between x y text) content_hasher_new))"
    "unat (cf_byte_start (chunk_fact_of c w i x y h)) = x" "unat (cf_byte_end (chunk_fact_of c w i x y h)) = y"
    "cf_ordinal (chunk_fact_of c w i x y h) = i"
proof -
  have u: "unat (word_of_nat x :: u64) = x" "unat (word_of_nat y :: u64) = y"
    using assms by (simp_all add: unat_u64)
  then have "(word_of_nat x :: u64) < word_of_nat y"
    using assms(1) by (simp add: word_less_nat_alt)
  then show "fact_of_text c text (chunk_fact_of c w i x y (hasher_update (bytes_between x y text) content_hasher_new))"
    using assms u by (simp add: fact_of_text_def chunk_fact_of_def Let_def solid_def hasher_new_update)
  show "unat (cf_byte_start (chunk_fact_of c w i x y h)) = x" "unat (cf_byte_end (chunk_fact_of c w i x y h)) = y"
    "cf_ordinal (chunk_fact_of c w i x y h) = i"
    using u by (simp_all add: chunk_fact_of_def Let_def)
qed

lemma piece_facts_fields:
  assumes "\<forall>(v, x, y) \<in> set ps. x < y \<and> y - x \<le> bytes_max (cc_params c) \<and> y < 2 ^ 64 \<and> solid text (x, y)"
  shows "list_all (fact_of_text c text) (piece_facts c text i ps)"
    "map (\<lambda>f. (unat (cf_byte_start f), unat (cf_byte_end f))) (piece_facts c text i ps) = map snd ps"
    "map cf_ordinal (piece_facts c text i ps) = map word_of_nat [i..<i + length ps]"
proof -
  have "list_all (fact_of_text c text) (piece_facts c text i ps) \<and>
      map (\<lambda>f. (unat (cf_byte_start f), unat (cf_byte_end f))) (piece_facts c text i ps) = map snd ps \<and>
      map cf_ordinal (piece_facts c text i ps) = map word_of_nat [i..<i + length ps]"
    using assms
  proof (induction ps arbitrary: i)
    case (Cons q ps)
    obtain v x y where q: "q = (v, x, y)" by (cases q)
    then have xy: "x < y" "y - x \<le> bytes_max (cc_params c)" "y < 2 ^ 64" "solid text (x, y)"
      using Cons.prems by simp_all
    have "[i..<i + length (q # ps)] = i # [Suc i..<Suc i + length ps]"
      by (simp add: upt_rec)
    with Cons.IH [of "Suc i"] Cons.prems fact_fields [OF xy] show ?case
      unfolding q by simp
  qed simp
  then show "list_all (fact_of_text c text) (piece_facts c text i ps)"
    "map (\<lambda>f. (unat (cf_byte_start f), unat (cf_byte_end f))) (piece_facts c text i ps) = map snd ps"
    "map cf_ordinal (piece_facts c text i ps) = map word_of_nat [i..<i + length ps]"
    by auto
qed

text \<open>
  C32: The chunks cover the content. What a run commits is in text order without overlap, each chunk no
  larger than the limit, with consecutive ordinals; every byte of every segment that is not whitespace lies
  in a chunk; and each chunk's content hash, id and token estimate are those of the bytes it covers.
\<close>

theorem chunks_cover_content:
  assumes "chunk_input c text ss segments stream" "accepting c"
    "chunk_evidence c (run_new (reader_new segments) stream) = (Inr product, s')"
  shows "sorted_wrt (\<lambda>f g. cf_byte_end f \<le> cf_byte_start g) (concat (map snd (cx_sent s'))) \<and>
    list_all (fact_of_text c text) (concat (map snd (cx_sent s'))) \<and>
    map cf_ordinal (concat (map snd (cx_sent s'))) = map word_of_nat [0..<sp_item_count product] \<and>
    (\<forall>s \<in> set ss. \<forall>i. unat (sg_byte_start s) \<le> i \<and> i < unat (sg_byte_end s) \<and> \<not> ascii_whitespace (text ! i) \<longrightarrow>
       (\<exists>f \<in> set (concat (map snd (cx_sent s'))). unat (cf_byte_start f) \<le> i \<and> i < unat (cf_byte_end f)))"
proof -
  let ?p = "cc_params c" and ?facts = "concat (map snd (cx_sent s'))"
  let ?ps = "pieces_from text ?p window_default ss"
  let ?span = "\<lambda>f. (unat (cf_byte_start f), unat (cf_byte_end f))"
  have r: "?facts = piece_facts c text 0 ?ps" "sp_item_count product = length ?ps"
    using chunk_evidence_runs [OF assms(1,2)] assms(3) by auto
  have i: "segments_in 0 (length text) ss" "length ss < 2 ^ 32" "0 < bytes_max ?p"
    using assms(1) by (simp_all add: chunk_input_def SEGMENT_COUNT_MAX_def)
  note p = pieces_facts [OF i]
  have "\<forall>(v, x, y) \<in> set ?ps. x < y \<and> y - x \<le> bytes_max ?p \<and> y < 2 ^ 64 \<and> solid text (x, y)"
    using p(2) by blast
  note f = piece_facts_fields [OF this, of 0]
  have "sorted_wrt before (map ?span ?facts)"
    using f(2) p(1) r(1) by simp
  then have "sorted_wrt (\<lambda>f g. cf_byte_end f \<le> cf_byte_start g) ?facts"
    by (simp add: sorted_wrt_map before_def word_le_nat_alt)
  moreover have "\<exists>f \<in> set ?facts. unat (cf_byte_start f) \<le> i \<and> i < unat (cf_byte_end f)"
    if "s \<in> set ss" "unat (sg_byte_start s) \<le> i" "i < unat (sg_byte_end s)" "\<not> ascii_whitespace (text ! i)" for s i
  proof -
    note seg = that
    obtain v x y where xy: "(v, x, y) \<in> set ?ps" "x \<le> i" "i < y"
      using p(3) [OF seg] by blast
    then have "(x, y) \<in> set (map ?span ?facts)"
      using f(2) r(1) by force
    with xy show ?thesis by auto
  qed
  ultimately show ?thesis
    using f(1,3) r by simp
qed

section \<open>A text of two paragraphs\<close>

definition note_text :: bytes where
  "note_text = string_bytes ''hello  world'' @ [10] @ string_bytes ''bye''"

definition note_segments :: "segment list" where
  "note_segments = [\<lparr>sg_byte_start = 0, sg_byte_end = 12, sg_locator = LineRange 1 1, sg_depth = 0\<rparr>,
     \<lparr>sg_byte_start = 13, sg_byte_end = 16, sg_locator = LineRange 2 2, sg_depth = 0\<rparr>]"

definition note_context :: chunk_context where
  "note_context = \<lparr>cc_hash = (\<lambda>bs. word_of_nat (nat_of_be_bytes bs)), cc_evidence_id = 21,
     cc_params = chunk_params_for ShapeMessage, cc_refuses = (\<lambda>_ _. None)\<rparr>"

definition reader_of :: "bytes \<Rightarrow> byte_reader" where
  "reader_of bs = \<lparr>rd_rest = bs, rd_reads = (\<lambda>n. Some (Suc n)), rd_calls = 0\<rparr>"

abbreviation note_stream :: bounded_stream where
  "note_stream \<equiv> stream_new (reader_of note_text) (budget_default_for StageChunk)"

abbreviation note_index :: bounded_stream where
  "note_index \<equiv> stream_new (reader_of (concat (map segment_encode note_segments))) (budget_default_for StageChunk)"

lemma note_params: "bytes_max (cc_params note_context) = 1600" "cp_boundary (cc_params note_context) = PerSegment"
  by (simp_all add: note_context_def bytes_max_def TOKEN_BYTES_ESTIMATE_def)

lemma note_windows:
  "map (\<lambda>w. (cw_byte_start w, cw_byte_end w)) (chunk_windows (cc_params note_context) window_default note_segments) = [(0, 12), (13, 16)]"
  by (simp add: note_segments_def would_close_def note_params window_push_def window_default_def window_is_empty_def Let_def)

lemma note_ok: "chunk_input note_context note_text note_segments note_index note_stream" "accepting note_context"
proof -
  have live: "reader_live (reader_of bs)" for bs
    by (simp add: reader_live_def reader_of_def)
  have so: "source_ok n (stream_new (reader_of bs) (budget_default_for StageChunk))" if "n \<le> 1600" for n bs
    using that live stream_new_ok(1)
    by (simp add: source_ok_def stream_new_def budget_default_for_def STAGE_BUFFER_BYTES_MAX_DEFAULT_def)
  have "length (spans 1600 a n) \<le> n" for a n
  proof (induction n arbitrary: a rule: less_induct)
    case (less n)
    show ?case
    proof (cases "n = 0")
      case False
      then show ?thesis
        using less [of "n - min 1600 n" "a + min 1600 n"] by (subst spans.simps) auto
    qed (simp add: spans.simps)
  qed
  then have le: "length (window_pieces note_text (cc_params note_context) w) \<le> window_byte_len w" for w
    unfolding window_pieces_def note_params length_map by (rule order_trans [OF length_filter_le])
  let ?ws = "chunk_windows (cc_params note_context) window_default note_segments"
  obtain u v where uv: "?ws = [u, v]" "cw_byte_start u = 0" "cw_byte_end u = 12" "cw_byte_start v = 13" "cw_byte_end v = 16"
    using note_windows by (auto simp: map_eq_Cons_conv)
  have "length (pieces_from note_text (cc_params note_context) window_default note_segments) \<le> window_byte_len u + window_byte_len v"
    using uv(1) le [of u] le [of v] by (simp add: pieces_from_def)
  also have "\<dots> \<le> CHUNK_COUNT_MAX"
    using uv by (simp add: window_byte_len_def saturating_sub_def CHUNK_COUNT_MAX_def)
  finally have "length (pieces_from note_text (cc_params note_context) window_default note_segments) \<le> CHUNK_COUNT_MAX" .
  then show "chunk_input note_context note_text note_segments note_index note_stream"
    using so [of 40] so [of 1600] stream_new_ok(2)
    by (simp add: chunk_input_def note_params SEGMENT_RECORD_BYTES_def SEGMENT_COUNT_MAX_def reader_of_def)
       (simp add: note_segments_def note_text_def segment_ok_def)
  show "accepting note_context"
    by (simp add: accepting_def note_context_def)
qed


theorem chunks_cover_content_witness:
  "\<exists>product s' f. chunk_evidence note_context (run_new (reader_new note_index) note_stream) = (Inr product, s') \<and>
     f \<in> set (concat (map snd (cx_sent s'))) \<and> unat (cf_byte_start f) \<le> 13 \<and> 13 < unat (cf_byte_end f)"
proof -
  obtain product s' where run: "chunk_evidence note_context (run_new (reader_new note_index) note_stream) = (Inr product, s')"
    using chunk_evidence_runs [OF note_ok] by blast
  have "note_segments ! 1 \<in> set note_segments" "\<not> ascii_whitespace (note_text ! 13)"
    by (simp_all add: note_segments_def note_text_def string_bytes_def ascii_whitespace_def)
  then show ?thesis
    using chunks_cover_content [OF note_ok run] run by (fastforce simp: note_segments_def)
qed

end
