(* ===== verification/Blob_Properties.thy ===== *)
theory Blob_Properties
  imports Blob_Store
begin

text \<open>
  What the blob store guarantees: an address holds content of that address for ever, a write reads back, the
  write buffer is bounded, and a store written through its operations verifies clean.
\<close>

section \<open>Whole writes\<close>

definition cas_moves :: "(bytes \<Rightarrow> digest32) \<Rightarrow> blob_store \<Rightarrow> blob_store \<Rightarrow> bool" where
  "cas_moves h s s' \<longleftrightarrow>
     (blobs_ok h s \<longrightarrow> blobs_ok h s') \<and> (placed s \<longrightarrow> placed s') \<and>
     (\<forall>d c. published s d = Some c \<longrightarrow> published s' d = Some c)"

interpretation cas: op_relation "cas_moves h" for h
  by unfold_locales (auto simp: cas_moves_def)

lemma temp_cas: "temp_moves s s' \<Longrightarrow> cas_moves h s s'"
  by (auto simp: temp_moves_def cas_moves_def blobs_ok_def)

lemma trip_cases:
  "cas_trip point s = (Inr u, s') \<Longrightarrow> s' = s" "fs_touch ctx s = (Inr v, s'') \<Longrightarrow> cas_files s'' = cas_files s"
  by (auto simp: cas_trip_def oread_def fs_touch_def fs_call_def Let_def split: if_splits)

lemma oinv_moves: "oinv R m \<Longrightarrow> m s = (r, s') \<Longrightarrow> R s s'"
  unfolding oinv_def by (metis snd_conv)

lemma rename_moves:
  assumes "is_temp p" "map_of (cas_files s) p = Some c" "h c = d" "\<not> blob_contains d s"
    "cas_files s' = rename_file p (blob_path d) (cas_files s)"
  shows "cas_moves h s s'" "published s' d = Some c"
proof -
  have fs: "map_of (cas_files s') = (map_of (cas_files s))(p := None, blob_path d \<mapsto> c)"
    using assms(2,5) by (simp add: rename_file_def)
  have "tbl_sorted (cas_files s) \<Longrightarrow> tbl_sorted (cas_files s')"
    using assms(2,5) by (auto simp: rename_file_def)
  moreover have "map_of (cas_files s) (blob_path d) = None"
    using assms(4) by (simp add: blob_contains_def)
  ultimately show "cas_moves h s s'" "published s' d = Some c"
    using fs assms(3) blob_path_not_temp [OF assms(1)]
    by (auto simp: cas_moves_def blobs_ok_def placed_def published_def split: if_splits)
qed

text \<open>What a finished write leaves: the content, or the earlier content of the same address.\<close>

definition stored :: "blob_store \<Rightarrow> digest32 \<Rightarrow> bytes \<Rightarrow> bytes" where
  "stored s d c = (case published s d of None \<Rightarrow> c | Some c' \<Rightarrow> c')"

lemma publish_present:
  assumes "is_temp (bw_temp w)" "publish w d s = (r, s')" "blob_contains d s"
  shows "temp_moves s s' \<and> r = Inr d"
  using assms oinv_moves [OF try_remove_moves [OF assms(1)], of s "Inr ()" s']
  by (auto simp: publish_def obind_def oget_def oret_def try_remove_def Let_def split: if_splits)

lemma publish_absent:
  assumes "is_temp (bw_temp w)" "map_of (cas_files s) (bw_temp w) = Some c" "h c = d" "publish w d s = (r, s')"
    "\<not> blob_contains d s"
  shows "cas_moves h s s' \<and> (\<forall>e. r = Inr e \<longrightarrow> e = d \<and> published s' d = Some c)"
proof -
  let ?ren = "fs_call ''publish blob'' (\<lambda>s. ((), upd_files (rename_file (bw_temp w) (blob_path d)) s))"
  let ?tail = "obind (cas_trip CasRenamed) (\<lambda>_. obind sync_directory (\<lambda>_. oret d))"
  have pub: "publish w d s = obind (fs_touch ''create blob fan-out directory'') (\<lambda>_. obind ?ren (\<lambda>_. ?tail)) s"
    using assms(5) by (simp add: publish_def obind_def oget_def)
  obtain x1 s1 where t1: "fs_touch ''create blob fan-out directory'' s = (x1, s1)" by (cases "fs_touch ''create blob fan-out directory'' s")
  have m1: "cas_moves h s s1"
    using temp_cas [OF oinv_moves [OF fs_touch_moves t1]] .
  obtain x2 s2 where t2: "?ren s1 = (x2, s2)" by (cases "?ren s1")
  obtain x3 s3 where t3: "?tail s2 = (x3, s3)" by (cases "?tail s2")
  have "oinv temp_moves ?tail"
    unfolding sync_directory_def by (intro cas_basic)
  from oinv_moves [OF this t3] have m3: "temp_moves s2 s3" .
  consider (no1) e where "x1 = Inl e" | (no2) u e where "x1 = Inr u" "x2 = Inl e" | (yes) u v where "x1 = Inr u" "x2 = Inr v"
    by (cases x1; cases x2) auto
  then show ?thesis
  proof cases
    case no1
    then show ?thesis using m1 t1 pub assms(4) by (auto simp: obind_def)
  next
    case no2
    then have "temp_moves s1 s2"
      using t2 by (intro files_same_moves) (auto simp: fs_call_def Let_def split: if_splits)
    then show ?thesis
      using no2 cas.R_trans [OF m1 temp_cas] t1 t2 pub assms(4) by (auto simp: obind_def)
  next
    case yes
    have f1: "cas_files s1 = cas_files s"
      using trip_cases(2) t1 yes by blast
    have f2: "cas_files s2 = rename_file (bw_temp w) (blob_path d) (cas_files s1)"
      using t2 yes by (auto simp: fs_call_def Let_def upd_files_def split: if_splits)
    have src: "map_of (cas_files s1) (bw_temp w) = Some c" and nc: "\<not> blob_contains d s1"
      using assms(2,5) f1 by (simp_all add: blob_contains_def)
    note rn = rename_moves [where h = h, OF assms(1) src assms(3) nc f2]
    have "publish w d s = (x3, s3)"
      using pub t1 t2 t3 yes by (simp add: obind_def [of "fs_touch _"] obind_def [of "fs_call _ _"])
    then have "r = x3" "s' = s3"
      using assms(4) by simp_all
    moreover have "x3 = Inr e \<Longrightarrow> e = d" for e
      using t3 by (auto simp: obind_def oret_def split: sum.splits prod.splits)
    moreover have "cas_moves h s s3"
      using m1 rn(1) temp_cas [OF m3] cas.R_trans by blast
    moreover have "published s3 d = Some c"
      using rn(2) m3 by (simp add: temp_moves_def)
    ultimately show ?thesis by auto
  qed
qed

lemma publish_result:
  assumes "is_temp (bw_temp w)" "map_of (cas_files s) (bw_temp w) = Some c" "publish w (h c) s = (r, s')"
  shows "cas_moves h s s' \<and> (\<forall>d. r = Inr d \<longrightarrow> d = h c \<and> published s' d = Some (stored s d c))"
proof (cases "published s (h c)")
  case None
  then have "\<not> blob_contains (h c) s" "stored s (h c) c = c"
    by (simp_all add: stored_def blob_contains_def published_def)
  then show ?thesis
    using publish_absent [where h = h and d = "h c", OF assms(1,2) refl assms(3)] by metis
next
  case (Some c')
  then have "blob_contains (h c) s" "stored s (h c) c = c'"
    by (simp_all add: stored_def blob_contains_def published_def)
  then have "temp_moves s s'" "r = Inr (h c)" "published s (h c) = Some (stored s (h c) c)"
    using publish_present [OF assms(1,3)] Some by simp_all
  then show ?thesis
    using temp_cas [of s s' h] by (simp add: temp_moves_def)
qed

lemma obind_assoc: "obind (obind m f) g = obind m (\<lambda>x. obind (f x) g)"
  by (auto simp: obind_def fun_eq_iff split: prod.split sum.split)

lemma obind_run: "m s = (Inl e, s') \<Longrightarrow> obind m f s = (Inl e, s')" "m s = (Inr a, s') \<Longrightarrow> obind m f s = f a s'"
  by (simp_all add: obind_def)

lemma or_drop_run:
  assumes "m s = (r, s0)" "or_drop w m s = (r', s')" "is_temp (bw_temp w)"
  shows "r' = r" "temp_moves s0 s'" "r = Inr a \<Longrightarrow> s' = s0"
  using assms oinv_moves [OF try_remove_moves [OF assms(3)], of s0 "fst (try_remove (bw_temp w) s0)" s']
  by (auto simp: or_drop_def temp.R_refl split: sum.splits if_splits)

definition sync_temp :: "unit cas_op" where
  "sync_temp = obind (fs_touch ''sync blob temp file'') (\<lambda>_. cas_trip CasTempWritten)"

lemma sync_temp_moves: "oinv temp_moves sync_temp"
  unfolding sync_temp_def by (intro cas_basic)

lemma sync_temp_files: "sync_temp s = (Inr u, s') \<Longrightarrow> cas_files s' = cas_files s"
  by (auto simp: sync_temp_def obind_def split: sum.splits prod.splits dest!: trip_cases)

lemma writer_finish_steps:
  "writer_finish h w = obind (or_drop w (flush_buffer w)) (\<lambda>w'. obind sync_temp (\<lambda>_. publish w' (h (bw_hashed w'))))"
  by (simp add: writer_finish_def sync_temp_def obind_assoc)

lemma finish_result:
  assumes "writer_ok w s" "writer_finish h w s = (r, s')"
  shows "cas_moves h s s' \<and> (\<forall>d. r = Inr d \<longrightarrow> d = h (writer_content w) \<and>
    published s' d = Some (stored s d (writer_content w)))"
proof -
  have tw: "is_temp (bw_temp w)"
    using assms(1) by (simp add: writer_ok_def)
  obtain x1 s1 where t1: "or_drop w (flush_buffer w) s = (x1, s1)" by (cases "or_drop w (flush_buffer w) s")
  obtain y s0 where t0: "flush_buffer w s = (y, s0)" by (cases "flush_buffer w s")
  note dr = or_drop_run [OF t0 t1 tw]
  have m1: "temp_moves s s1"
    using temp.R_trans [OF writes_moves [OF flush_writes assms(1) t0] dr(2)] .
  show ?thesis
  proof (cases x1)
    case (Inl e)
    then have "(r, s') = (Inl e, s1)"
      using assms(2) t1 by (simp add: writer_finish_steps obind_run)
    then show ?thesis using temp_cas [OF m1] by simp
  next
    case (Inr w')
    then have fl: "flush_buffer w s = (Inr w', s1)"
      using dr t0 by simp
    then have w': "writer_ok w' s1" "bw_hashed w' = writer_content w"
      using writes_ok [OF flush_writes assms(1) fl] flush_empties [OF fl] by (simp_all add: writer_content_def)
    obtain x2 s2 where t2: "sync_temp s1 = (x2, s2)" by (cases "sync_temp s1")
    note m2 = temp.R_trans [OF m1 oinv_moves [OF sync_temp_moves t2]]
    show ?thesis
    proof (cases x2)
      case (Inl e)
      then have "(r, s') = (Inl e, s2)"
        using assms(2) t1 t2 \<open>x1 = Inr w'\<close> by (simp add: writer_finish_steps obind_run)
      then show ?thesis using temp_cas [OF m2] by simp
    next
      case (Inr u)
      have f: "cas_files s2 = cas_files s1"
        using sync_temp_files t2 Inr by blast
      have p: "publish w' (h (bw_hashed w')) s2 = (r, s')"
        using assms(2) t1 t2 \<open>x1 = Inr w'\<close> Inr by (simp add: writer_finish_steps obind_run)
      have "cas_moves h s2 s' \<and> (\<forall>d. r = Inr d \<longrightarrow> d = h (bw_hashed w') \<and> published s' d = Some (stored s2 d (bw_hashed w')))"
        using publish_result [where h = h and c = "bw_hashed w'", OF _ _ p] w'(1) f by (simp add: writer_ok_def)
      moreover have "stored s2 = stored s"
        using m2 by (simp add: stored_def temp_moves_def fun_eq_iff)
      ultimately show ?thesis
        using w'(2) cas.R_trans [OF temp_cas [OF m2]] by simp
    qed
  qed
qed

lemma new_writer:
  assumes "blob_writer_new s = (r, s')"
  shows "temp_moves s s'" "r = Inr w \<Longrightarrow> writer_ok w s' \<and> writer_content w = []"
proof -
  let ?p = "[TEMP_DIRECTORY_NAME, writer_prefix s @ dec_text (cas_sequence s)]"
  have tp: "is_temp ?p" by (simp add: is_temp_def)
  show "temp_moves s s'"
  proof (cases "cas_io s (cas_calls s)")
    case True
    then have "cas_files s' = tbl_put ?p [] (cas_files s)"
      using assms by (auto simp: blob_writer_new_def obind_def oget_def omod_def fs_call_def Let_def upd_files_def)
    then show ?thesis by (intro temp_change_moves [OF tp, where c = "[]"]) simp
  next
    case False
    then show ?thesis
      using assms by (intro files_same_moves) (auto simp: blob_writer_new_def obind_def oget_def omod_def fs_call_def Let_def)
  qed
  show "r = Inr w \<Longrightarrow> writer_ok w s' \<and> writer_content w = []"
    using assms by (auto simp: blob_writer_new_def obind_def oget_def omod_def fs_call_def Let_def upd_files_def writer_ok_def
        writer_content_def is_temp_def split: if_splits)
qed

text \<open>A write through a new writer whose middle part adds \<open>bs\<close>.\<close>

lemma whole_write:
  assumes "\<And>w s r s'. writer_ok w s \<Longrightarrow> m w s = (r, s') \<Longrightarrow> temp_moves s s' \<and>
      (\<forall>w'. r = Inr w' \<longrightarrow> writer_ok w' s' \<and> bw_temp w' = bw_temp w \<and> writer_content w' = writer_content w @ bs)"
    and "obind blob_writer_new (\<lambda>w. obind (or_drop w (m w)) (writer_finish h)) s = (r, s')"
  shows "cas_moves h s s' \<and> (\<forall>d. r = Inr d \<longrightarrow> d = h bs \<and> published s' d = Some (stored s d bs))"
proof -
  obtain x1 s1 where t1: "blob_writer_new s = (x1, s1)" by (cases "blob_writer_new s")
  note nw = new_writer [OF t1]
  show ?thesis
  proof (cases x1)
    case (Inl e)
    then show ?thesis using t1 assms(2) temp_cas [OF nw(1), of h] by (auto simp: obind_run)
  next
    case (Inr w)
    then have w: "writer_ok w s1" "writer_content w = []" "is_temp (bw_temp w)"
      using nw(2) by (auto simp: writer_ok_def)
    obtain y s0 where t0: "m w s1 = (y, s0)" by (cases "m w s1")
    obtain x2 s2 where t2: "or_drop w (m w) s1 = (x2, s2)" by (cases "or_drop w (m w) s1")
    note dr = or_drop_run [OF t0 t2 w(3)] and mw = assms(1) [OF w(1) t0]
    have m2: "temp_moves s s2"
      using temp.R_trans [OF nw(1)] temp.R_trans [OF conjunct1 [OF mw] dr(2)] by blast
    show ?thesis
    proof (cases x2)
      case (Inl e)
      then show ?thesis using t1 t2 \<open>x1 = Inr w\<close> assms(2) temp_cas [OF m2, of h] by (auto simp: obind_run)
    next
      case (Inr w')
      have w': "writer_ok w' s2" "writer_content w' = bs"
        using mw dr(1) dr(3) [of w'] Inr w(2) by auto
      have "writer_finish h w' s2 = (r, s')"
        using t1 t2 \<open>x1 = Inr w\<close> Inr assms(2) by (simp add: obind_run)
      from finish_result [OF w'(1) this]
      have "cas_moves h s2 s' \<and> (\<forall>d. r = Inr d \<longrightarrow> d = h bs \<and> published s' d = Some (stored s2 d bs))"
        unfolding w'(2) .
      moreover have "stored s2 = stored s"
        using m2 by (simp add: stored_def temp_moves_def fun_eq_iff)
      ultimately show ?thesis
        using cas.R_trans [OF temp_cas [OF m2]] by simp
    qed
  qed
qed

lemma write_stream_result:
  "write_stream h r s = (res, s') \<Longrightarrow>
     cas_moves h s s' \<and> (\<forall>d. res = Inr d \<longrightarrow> d = h (rd_rest r) \<and> published s' d = Some (stored s d (rd_rest r)))"
  unfolding write_stream_def by (rule whole_write [where m = "\<lambda>w. write_loop w r"]) (use loop_writes in blast)+

lemma write_bytes_result:
  "write_bytes h bs s = (res, s') \<Longrightarrow>
     cas_moves h s s' \<and> (\<forall>d. res = Inr d \<longrightarrow> d = h bs \<and> published s' d = Some (stored s d bs))"
  unfolding write_bytes_def
proof (rule whole_write [where m = "writer_append bs"])
  show "temp_moves s s' \<and> (\<forall>w'. r = Inr w' \<longrightarrow> writer_ok w' s' \<and> bw_temp w' = bw_temp w \<and>
      writer_content w' = writer_content w @ bs)" if "writer_ok w s" "writer_append bs w s = (r, s')" for w s r s'
    using writes_moves [OF append_writes that] writes_ok [OF append_writes that(1)] that(2) by blast
qed

section \<open>Runs of the store\<close>

text \<open>
  Writes of any content with any outcome, openings, and whatever leaves the files alone: reads, a crash and
  a new process, other faults and other file-system weather.
\<close>

inductive cas_step :: "(bytes \<Rightarrow> digest32) \<Rightarrow> blob_store \<Rightarrow> blob_store \<Rightarrow> bool" for h where
  StepStream: "write_stream h r s = (x, s') \<Longrightarrow> cas_step h s s'"
| StepBytes: "write_bytes h bs s = (x, s') \<Longrightarrow> cas_step h s s'"
| StepOpen: "cas_open s = (y, s') \<Longrightarrow> cas_step h s s'"
| StepOther: "cas_files s' = cas_files s \<Longrightarrow> cas_step h s s'"

lemma cas_step_moves: "cas_step h s s' \<Longrightarrow> cas_moves h s s'"
proof (induction rule: cas_step.induct)
  case (StepStream r s x s')
  then show ?case using write_stream_result by blast
next
  case (StepBytes bs s x s')
  then show ?case using write_bytes_result by blast
next
  case (StepOpen s y s')
  then show ?case using temp_cas [OF oinv_moves [OF cas_open_moves]] by blast
next
  case (StepOther s' s)
  then show ?case using temp_cas [OF files_same_moves] by blast
qed

lemma cas_run_moves: "(cas_step h)\<^sup>*\<^sup>* s s' \<Longrightarrow> cas_moves h s s'"
  by (induction rule: rtranclp_induct) (auto intro: cas.R_refl cas.R_trans [OF _ cas_step_moves])

section \<open>A healthy file system\<close>

definition healthy :: "blob_store \<Rightarrow> bool" where
  "healthy s \<longleftrightarrow> (\<forall>n. cas_io s n) \<and> cas_faults s = None"

definition succeeds :: "'a cas_op \<Rightarrow> bool" where
  "succeeds m \<longleftrightarrow> (\<forall>s. healthy s \<longrightarrow> (\<exists>a s'. m s = (Inr a, s') \<and> healthy s'))"

lemma succeeds_bind: "succeeds m \<Longrightarrow> (\<And>a. succeeds (f a)) \<Longrightarrow> succeeds (obind m f)"
  unfolding succeeds_def by (metis obind_run(2))

lemma succeeds_ret: "succeeds (oret a)" "succeeds (oget g)"
  by (simp_all add: succeeds_def oret_def oget_def)

lemma succeeds_fs:
  "succeeds (fs_touch ctx)" "succeeds (try_remove p)" "succeeds (fs_write p bs)" "succeeds (cas_trip point)"
  "succeeds (fs_call ctx (\<lambda>s. (g s, upd_files (k s) s)))" "succeeds (fs_call ctx (\<lambda>s. (g s, s)))"
  by (auto simp: succeeds_def healthy_def fs_touch_def fs_call_def try_remove_def fs_write_def upd_files_def cas_trip_def
      oread_def Let_def)

lemma succeeds_new: "succeeds blob_writer_new"
  unfolding blob_writer_new_def
  by (intro succeeds_bind succeeds_ret succeeds_fs) (auto simp: succeeds_def omod_def healthy_def)

lemma succeeds_flush: "succeeds (flush_buffer w)"
  unfolding flush_buffer_def by (auto intro: succeeds_bind succeeds_ret succeeds_fs)

lemma succeeds_append: "succeeds (writer_append bs w)"
proof -
  have "succeeds (append_piece c v)" for c v
    unfolding append_piece_def by (auto intro: succeeds_bind succeeds_ret succeeds_flush)
  then have "succeeds (ofold append_piece cs v)" for cs v
    by (induction cs arbitrary: v) (auto intro: succeeds_bind succeeds_ret)
  then show ?thesis by (simp add: writer_append_def)
qed

lemma succeeds_drop: "succeeds m \<Longrightarrow> succeeds (or_drop w m)"
  unfolding succeeds_def or_drop_def by fastforce

lemma reader_live_reads: "reader_live r \<Longrightarrow> \<exists>bs r'. reader_read len r = (Some bs, r')"
  using reader_live_def [of r] by (auto simp: reader_read_def Let_def dest: spec [of _ "rd_calls r"])

lemma succeeds_loop: "reader_live r \<Longrightarrow> healthy s \<Longrightarrow> \<exists>w' s'. write_loop w r s = (Inr w', s') \<and> healthy s'"
proof (induction w r s rule: write_loop.induct)
  case (1 w r s)
  obtain bs r1 where rd: "reader_read CAS_READ_CHUNK_LEN r = (Some bs, r1)"
    using "1.prems"(1) reader_live_reads by blast
  show ?case
  proof (cases "bs = []")
    case True
    then show ?thesis using rd "1.prems"(2) by (simp add: write_loop.simps [of w r s])
  next
    case False
    obtain w1 s1 where a: "writer_append bs w s = (Inr w1, s1)" "healthy s1"
      using succeeds_append "1.prems"(2) unfolding succeeds_def by metis
    have "reader_live r1"
      using "1.prems"(1) reader_read_some(3) [OF rd] by (simp add: reader_live_def)
    then obtain w' s' where "write_loop w1 r1 s1 = (Inr w', s') \<and> healthy s'"
      using "1.IH" [OF rd [symmetric] refl False a(1) [symmetric] refl] a(2) by blast
    then show ?thesis using rd False a by (simp add: write_loop.simps [of w r s])
  qed
qed

lemma succeeds_finish: "succeeds (writer_finish h w)"
  unfolding writer_finish_def publish_def sync_directory_def
  by (intro succeeds_bind succeeds_ret succeeds_fs succeeds_drop succeeds_flush, split if_split)
     (intro conjI impI succeeds_bind succeeds_ret succeeds_fs)

lemma write_succeeds: "reader_live r \<Longrightarrow> succeeds (write_stream h r)"
  unfolding write_stream_def using succeeds_loop
  by (intro succeeds_bind succeeds_new succeeds_finish succeeds_drop) (auto simp: succeeds_def)

text \<open>
  C31: A written blob reads back. On a healthy file system, writing a stream that does not fail succeeds, however
  its reads are cut; whenever a write succeeds, the address returned is the hash of the whole content; and in
  every later state of the store (further writes, failures, crashes, reopenings) opening that address gives
  the content, or the content that was at the address before, never anything else.
\<close>

theorem blob_write_reads_back:
  assumes "reader_live r"
  shows "(healthy s \<longrightarrow> (\<exists>d s'. write_stream h r s = (Inr d, s'))) \<and>
    (\<forall>d s' t. write_stream h r s = (Inr d, s') \<and> (cas_step h)\<^sup>*\<^sup>* s' t \<and> cas_io t (cas_calls t) \<longrightarrow>
       d = h (rd_rest r) \<and> fst (open_blob d t) = Inr (stored s d (rd_rest r)))"
proof (intro conjI impI allI)
  show "\<exists>d s'. write_stream h r s = (Inr d, s')" if "healthy s"
    using write_succeeds [OF assms] that by (fastforce simp: succeeds_def)
next
  fix d s' t
  assume a: "write_stream h r s = (Inr d, s') \<and> (cas_step h)\<^sup>*\<^sup>* s' t \<and> cas_io t (cas_calls t)"
  then have w: "d = h (rd_rest r)" "published s' d = Some (stored s d (rd_rest r))"
    using write_stream_result by blast+
  then have "published t d = Some (stored s d (rd_rest r))"
    using cas_run_moves a by (auto simp: cas_moves_def)
  then show "fst (open_blob d t) = Inr (stored s d (rd_rest r))" "d = h (rd_rest r)"
    using a w(1) by (simp_all add: open_blob_def obind_def fs_call_def published_def oret_def)
qed

section \<open>The sweep\<close>

lemma claimed_own: "claimed_hash (blob_path d) = Some d"
proof -
  have len: "length (blob_hex d) = 64"
    by (simp add: blob_hex_def length_concat_hex digest_bytes_def)
  have "blob_from_hex (blob_hex d) = Some d"
    using len by (simp add: blob_from_hex_def) (simp add: blob_hex_def hex_pairs_concat)
  then show ?thesis
    using len by (simp add: claimed_hash_def blob_path_def Let_def starts_with_def)
qed

lemma blob_path_not_tmp: "blob_path d ! 0 \<noteq> TEMP_DIRECTORY_NAME"
proof -
  have "length (blob_path d ! 0) \<le> 2"
    by (simp add: blob_path_def Let_def)
  then show ?thesis by (auto simp: TEMP_DIRECTORY_NAME_def)
qed

lemma entries_placed:
  assumes "placed s"
  shows "set (blob_entries (cas_files s)) = (\<lambda>d. (blob_path d, Some d)) ` {d. published s d \<noteq> None}"
    "length (blob_entries (cas_files s)) = card {d. published s d \<noteq> None}"
proof -
  let ?ps = "map (take 3) (filter (\<lambda>p. 2 \<le> length p \<and> p ! 0 \<noteq> TEMP_DIRECTORY_NAME) (map fst (cas_files s)))"
  have keys: "p \<in> fst ` set (cas_files s) \<longleftrightarrow> map_of (cas_files s) p \<noteq> None" for p
    by (simp add: map_of_eq_None_iff)
  have "{p \<in> fst ` set (cas_files s). 2 \<le> length p \<and> p ! 0 \<noteq> TEMP_DIRECTORY_NAME} = blob_path ` {d. published s d \<noteq> None}"
    using assms blob_path_not_tmp unfolding keys placed_def published_def is_temp_def by auto
  then have ps: "set ?ps = blob_path ` {d. published s d \<noteq> None}"
    by (force simp: image_iff)
  then show "set (blob_entries (cas_files s)) = (\<lambda>d. (blob_path d, Some d)) ` {d. published s d \<noteq> None}"
    by (auto simp: blob_entries_def claimed_own)
  have "length (blob_entries (cas_files s)) = card (set ?ps)"
    by (simp add: blob_entries_def length_remdups_card_conv)
  also have "\<dots> = card {d. published s d \<noteq> None}"
    unfolding ps by (rule card_image) (simp add: inj_on_def)
  finally show "length (blob_entries (cas_files s)) = card {d. published s d \<noteq> None}" .
qed

lemma rehash_ok:
  "healthy s \<Longrightarrow> map_of (cas_files s) p = Some c \<Longrightarrow>
     \<exists>s'. rehash_file h p s = (Inr (h c), s') \<and> healthy s' \<and> cas_files s' = cas_files s"
  by (auto simp: rehash_file_def obind_def fs_call_def fs_touch_def oret_def healthy_def Let_def)

lemma sweep_entries_clean:
  assumes "blobs_ok h s" "healthy s" "\<And>e. e \<in> set es \<Longrightarrow> \<exists>d. e = (blob_path d, Some d) \<and> published s d \<noteq> None"
  shows "\<exists>rep' s'. ofold (verify_entry h) es rep s = (Inr rep', s') \<and>
    vr_blob_count rep' = vr_blob_count rep + length es \<and> vr_corrupt_count rep' = vr_corrupt_count rep \<and>
    vr_misplaced_count rep' = vr_misplaced_count rep \<and> vr_temp_leftover_count rep' = vr_temp_leftover_count rep"
  using assms
proof (induction es arbitrary: rep s)
  case (Cons e es)
  obtain d c where e: "e = (blob_path d, Some d)" "map_of (cas_files s) (blob_path d) = Some c" "h c = d"
    using Cons.prems(1,3) by (fastforce simp: published_def blobs_ok_def)
  obtain s1 where s1: "rehash_file h (blob_path d) s = (Inr d, s1)" "healthy s1" "cas_files s1 = cas_files s"
    using rehash_ok [OF Cons.prems(2) e(2), of h] e(3) by auto
  let ?rep = "rep\<lparr>vr_blob_count := vr_blob_count rep + 1\<rparr>"
  have step: "verify_entry h e rep s = (Inr ?rep, s1)"
    using e s1 by (simp add: verify_entry_def obind_run oret_def Let_def)
  have "published s1 = published s" "blobs_ok h s1"
    using Cons.prems(1) s1(3) by (simp_all add: published_def blobs_ok_def fun_eq_iff)
  then obtain rep' s' where "ofold (verify_entry h) es ?rep s1 = (Inr rep', s')"
      "vr_blob_count rep' = vr_blob_count ?rep + length es" "vr_corrupt_count rep' = vr_corrupt_count ?rep"
      "vr_misplaced_count rep' = vr_misplaced_count ?rep" "vr_temp_leftover_count rep' = vr_temp_leftover_count ?rep"
    using Cons.IH [of s1 ?rep] s1(2) Cons.prems(3) by auto
  then show ?case
    using step by (auto simp: obind_run)
qed (simp add: oret_def)

text \<open>
  C30: An address holds content of that address, for ever. Over any run of the store (writes of any content that
  succeed or fail at any point, injected faults, crashes, reopenings), whatever is at an address hashes to
  it and what was published stays as it is; and the verify sweep of a healthy store reports no defect
  and counts exactly the published blobs.
\<close>

theorem blob_addresses_hold:
  assumes "(cas_step h)\<^sup>*\<^sup>* s t" "blobs_ok h s" "placed s" "healthy t"
  shows "(\<forall>d c. published t d = Some c \<longrightarrow> h c = d) \<and> (\<forall>d c. published s d = Some c \<longrightarrow> published t d = Some c) \<and>
    (\<exists>rep t'. cas_verify h t = (Inr rep, t') \<and> cas_is_clean rep \<and> vr_blob_count rep = card {d. published t d \<noteq> None})"
proof -
  have inv: "blobs_ok h t" "placed t" "\<forall>d c. published s d = Some c \<longrightarrow> published t d = Some c"
    using cas_run_moves [OF assms(1)] assms(2,3) by (auto simp: cas_moves_def)
  let ?t1 = "t\<lparr>cas_calls := Suc (cas_calls t)\<rparr>" and ?t2 = "t\<lparr>cas_calls := Suc (Suc (cas_calls t))\<rparr>"
  have start: "count_temp_leftovers t = (Inr (length (temp_names (cas_files t))), ?t1)"
      "sorted_blob_files ?t1 = (Inr (blob_entries (cas_files t)), ?t2)"
    using assms(4) by (simp_all add: count_temp_leftovers_def sorted_blob_files_def fs_call_def healthy_def)
  have same: "blobs_ok h ?t2" "healthy ?t2" "published ?t2 = published t"
    using inv(1) assms(4) by (simp_all add: blobs_ok_def healthy_def published_def fun_eq_iff)
  have es: "\<exists>d. e = (blob_path d, Some d) \<and> published ?t2 d \<noteq> None" if "e \<in> set (blob_entries (cas_files t))" for e
    using that entries_placed(1) [OF inv(2)] same(3) by auto
  let ?rep = "\<lparr>vr_blob_count = 0, vr_corrupt_count = 0, vr_misplaced_count = 0,
      vr_temp_leftover_count = length (temp_names (cas_files t)), vr_defect_paths = [], vr_defect_paths_truncated = False\<rparr>"
  obtain rep t' where "ofold (verify_entry h) (blob_entries (cas_files t)) ?rep ?t2 = (Inr rep, t')"
      "vr_blob_count rep = length (blob_entries (cas_files t))" "vr_corrupt_count rep = 0" "vr_misplaced_count rep = 0"
    using sweep_entries_clean [where rep = ?rep, OF same(1,2), of "blob_entries (cas_files t)"] es by auto
  then have "cas_verify h t = (Inr rep, t') \<and> cas_is_clean rep \<and> vr_blob_count rep = card {d. published t d \<noteq> None}"
    using entries_placed(2) [OF inv(2)] by (simp add: cas_verify_def obind_run start cas_is_clean_def)
  then show ?thesis
    using inv(1,3) unfolding blobs_ok_def by blast
qed

section \<open>A store and a note\<close>

definition sample_blobs :: blob_store where
  "sample_blobs = \<lparr>cas_files = [], cas_faults = None, cas_process = ''7'', cas_sequence = 0, cas_io = (\<lambda>_. True),
     cas_partial = (\<lambda>_. 0), cas_calls = 0\<rparr>"

definition sample_hash :: "bytes \<Rightarrow> digest32" where
  "sample_hash bs = word_of_nat (length bs)"

definition note_reader :: byte_reader where
  "note_reader = \<lparr>rd_rest = [104, 105], rd_reads = (\<lambda>_. Some 1), rd_calls = 0\<rparr>"

lemma note_reader_live: "reader_live note_reader"
  by (simp add: reader_live_def note_reader_def)

lemma sample_blobs_good: "healthy sample_blobs" "blobs_ok sample_hash sample_blobs" "placed sample_blobs"
  "stored sample_blobs d c = c"
  by (simp_all add: healthy_def blobs_ok_def placed_def published_def stored_def sample_blobs_def tbl_sorted_def)

theorem blob_write_reads_back_witness:
  "\<exists>d s'. write_stream sample_hash note_reader sample_blobs = (Inr d, s') \<and> d = 2 \<and>
     (cas_io s' (cas_calls s') \<longrightarrow> fst (open_blob d s') = Inr [104, 105])"
proof -
  note b = blob_write_reads_back [OF note_reader_live, of sample_blobs sample_hash]
  obtain d s' where w: "write_stream sample_hash note_reader sample_blobs = (Inr d, s')"
    using b sample_blobs_good(1) by blast
  have "d = sample_hash (rd_rest note_reader)"
    using write_stream_result [OF w] by simp
  then have "d = 2" by (simp add: sample_hash_def note_reader_def)
  with b w show ?thesis
    by (auto simp: sample_blobs_good(4) note_reader_def)
qed

theorem blob_addresses_hold_witness:
  "\<exists>d t rep t'. write_stream sample_hash note_reader sample_blobs = (Inr d, t) \<and> published t d = Some [104, 105] \<and>
     cas_verify sample_hash t = (Inr rep, t') \<and> cas_is_clean rep \<and> vr_blob_count rep = card {d. published t d \<noteq> None}"
proof -
  obtain d t where w: "write_stream sample_hash note_reader sample_blobs = (Inr d, t)" "healthy t"
    using write_succeeds [OF note_reader_live] sample_blobs_good(1) unfolding succeeds_def by metis
  have "cas_step sample_hash sample_blobs t"
    using w(1) by (rule StepStream)
  then have "(cas_step sample_hash)\<^sup>*\<^sup>* sample_blobs t" by simp
  from blob_addresses_hold [OF this sample_blobs_good(2,3) w(2)] write_stream_result [OF w(1)] w(1)
  show ?thesis
    by (auto simp: sample_blobs_good(4) note_reader_def)
qed

end
