(* ===== verification/Spec2Isabelle.thy ===== *)
theory Spec2Isabelle
  imports Log_Properties Type_Safety Backoff Budget Metrics Queue_Properties Cron_Firing Pool_Properties Harness_Properties Tool_Properties
    Evidence_Facts Chunk_Properties Blob_Properties
begin

text \<open>
  ProjectOS core: a verification library of its event-sourced substrate.
\<close>

text \<open>
  Ids survive their text form. Rendering a 16-byte id as lowercase hexadecimal and parsing it
  back gives the id; no two ids share a rendering.
\<close>

lemma id_hex_roundtrip: "from_hex (to_hex i) = Some i \<and> (to_hex i = to_hex j \<longleftrightarrow> i = j)"
  by simp

end
